(* ===== verification/Znc_Prelude.thy ===== *)
theory Znc_Prelude imports Main "HOL-Library.List_Lexorder" "HOL-Library.Char_ord" begin

text \<open>
  Shared vocabulary of the development: bytes and the C character classes in the "C"
  locale (the program never calls setlocale), C strings read through a pointer, the
  comparison loops of strncmp and strncasecmp, and generic facts on lists.

  A std::string is a \<open>string\<close> (a list of bytes, which may hold NUL bytes); a
  \<open>const char*\<close> into it is the suffix that starts at the pointer. Reading at the end of
  the list gives the NUL terminator that c_str() and data() guarantee.
\<close>

named_theorems cstr_simps \<open>unfolding of the C string primitives\<close>
named_theorems ctype_simps \<open>unfolding of the character classes\<close>
named_theorems wf_intros \<open>introduction rules of the well-formedness invariants\<close>

section \<open>Bytes and character classes\<close>

definition byte :: "char \<Rightarrow> nat" where
  "byte c = of_char c"

abbreviation NUL :: char where
  "NUL \<equiv> CHR 0x00"

definition isdigit_c :: "char \<Rightarrow> bool" where
  [ctype_simps]: "isdigit_c c \<longleftrightarrow> 48 \<le> byte c \<and> byte c \<le> 57"

definition isupper_c :: "char \<Rightarrow> bool" where
  [ctype_simps]: "isupper_c c \<longleftrightarrow> 65 \<le> byte c \<and> byte c \<le> 90"

definition islower_c :: "char \<Rightarrow> bool" where
  [ctype_simps]: "islower_c c \<longleftrightarrow> 97 \<le> byte c \<and> byte c \<le> 122"

definition isalnum_c :: "char \<Rightarrow> bool" where
  [ctype_simps]: "isalnum_c c \<longleftrightarrow> isdigit_c c \<or> isupper_c c \<or> islower_c c"

definition isxdigit_c :: "char \<Rightarrow> bool" where
  [ctype_simps]: "isxdigit_c c \<longleftrightarrow>
     isdigit_c c \<or> (65 \<le> byte c \<and> byte c \<le> 70) \<or> (97 \<le> byte c \<and> byte c \<le> 102)"

definition isspace_c :: "char \<Rightarrow> bool" where
  [ctype_simps]: "isspace_c c \<longleftrightarrow> byte c = 32 \<or> (9 \<le> byte c \<and> byte c \<le> 13)"

definition tolower_c :: "char \<Rightarrow> char" where
  "tolower_c c = (if isupper_c c then char_of (byte c + 32) else c)"

definition toupper_c :: "char \<Rightarrow> char" where
  "toupper_c c = (if islower_c c then char_of (byte c - 32) else c)"

lemma byte_less [simp]: "byte c < 256"
  by (simp add: byte_def)

lemma byte_char_of [simp]: "byte (char_of n) = n mod 256"
  by (simp add: byte_def)

lemma char_of_byte [simp]: "char_of (byte c) = c"
  by (simp add: byte_def)

lemma byte_inject [simp]: "byte c = byte d \<longleftrightarrow> c = d"
  by (metis char_of_byte)

lemma byte_NUL [simp]: "byte NUL = 0"
  by (simp add: byte_def)

lemma byte_eq_0 [simp]: "byte c = 0 \<longleftrightarrow> c = NUL"
  by (metis byte_NUL byte_inject)

lemma byte_tolower: "byte (tolower_c c) = (if isupper_c c then byte c + 32 else byte c)"
  by (auto simp: tolower_c_def ctype_simps)

lemma byte_toupper: "byte (toupper_c c) = (if islower_c c then byte c - 32 else byte c)"
  by (auto simp: toupper_c_def ctype_simps)

lemma not_isupper_tolower [simp]: "\<not> isupper_c (tolower_c c)"
  by (simp add: isupper_c_def byte_tolower)

lemma not_islower_toupper [simp]: "\<not> islower_c (toupper_c c)"
  by (simp add: islower_c_def byte_toupper) arith

lemma tolower_idem [simp]: "tolower_c (tolower_c c) = tolower_c c"
  by (subst tolower_c_def) simp

lemma toupper_idem [simp]: "toupper_c (toupper_c c) = toupper_c c"
  by (subst toupper_c_def) simp

lemma tolower_eq_NUL [simp]: "tolower_c c = NUL \<longleftrightarrow> c = NUL"
proof -
  have "byte (tolower_c c) = 0 \<longleftrightarrow> byte c = 0"
    by (simp add: byte_tolower isupper_c_def del: byte_eq_0)
  then show ?thesis by simp
qed

lemma NUL_eq_tolower [simp]: "NUL = tolower_c c \<longleftrightarrow> c = NUL"
  by (metis tolower_eq_NUL)

lemma islower_tolower: "isupper_c c \<Longrightarrow> islower_c (tolower_c c)"
  by (simp add: islower_c_def isupper_c_def byte_tolower)

lemma tolower_NUL [simp]: "tolower_c NUL = NUL"
  by simp

lemma tolower_toupper [simp]: "tolower_c (toupper_c c) = tolower_c c"
proof -
  have "byte (tolower_c (toupper_c c)) = byte (tolower_c c)"
    by (simp add: byte_tolower byte_toupper isupper_c_def islower_c_def del: byte_inject) arith
  then show ?thesis by simp
qed

lemma tolower_nonalpha: "\<not> isupper_c c \<Longrightarrow> tolower_c c = c"
  by (simp add: tolower_c_def)

section \<open>C strings\<close>

text \<open>The byte a pointer reads: the terminator at the end of the string.\<close>

definition chd :: "string \<Rightarrow> char" where
  [cstr_simps]: "chd s = (case s of [] \<Rightarrow> NUL | c # _ \<Rightarrow> c)"

definition nul_free :: "string \<Rightarrow> bool" where
  "nul_free s \<longleftrightarrow> NUL \<notin> set s"

definition c_str :: "string \<Rightarrow> string" where
  "c_str s = takeWhile (\<lambda>c. c \<noteq> NUL) s"

lemma chd_simps [simp]: "chd [] = NUL" "chd (c # s) = c"
  by (simp_all add: chd_def)

lemma chd_not_NUL: "chd p \<noteq> NUL \<Longrightarrow> p \<noteq> []"
  by auto

lemma nul_free_simps [simp]:
  "nul_free []"
  "nul_free (c # s) \<longleftrightarrow> c \<noteq> NUL \<and> nul_free s"
  "nul_free (s @ t) \<longleftrightarrow> nul_free s \<and> nul_free t"
  by (auto simp: nul_free_def)

lemma nul_free_drop [intro]: "nul_free s \<Longrightarrow> nul_free (drop n s)"
  by (auto simp: nul_free_def dest: in_set_dropD)

lemma nul_free_take [intro]: "nul_free s \<Longrightarrow> nul_free (take n s)"
  by (auto simp: nul_free_def dest: in_set_takeD)

lemma c_str_nul_free [simp]: "nul_free s \<Longrightarrow> c_str s = s"
  by (auto simp: c_str_def nul_free_def takeWhile_eq_all_conv)

lemma nul_free_c_str [simp]: "nul_free (c_str s)"
  by (induction s) (auto simp: c_str_def)

lemma c_str_simps [simp]:
  "c_str [] = []"
  "c_str (c # s) = (if c = NUL then [] else c # c_str s)"
  by (auto simp: c_str_def)

lemma chd_eq_NUL: "nul_free s \<Longrightarrow> chd s = NUL \<longleftrightarrow> s = []"
  by (cases s) auto

text \<open>
  strncmp (p, s, n) == 0 and strncasecmp (p, s, n) == 0: compare at most n bytes, each
  through f, and stop with success at a NUL on both sides.
\<close>

fun strn_eq :: "(char \<Rightarrow> char) \<Rightarrow> nat \<Rightarrow> string \<Rightarrow> string \<Rightarrow> bool" where
  "strn_eq f 0 p s = True"
| "strn_eq f (Suc n) p s =
     (f (chd p) = f (chd s) \<and> (chd p = NUL \<or> strn_eq f n (tl p) (tl s)))"

definition strncmp0 :: "string \<Rightarrow> string \<Rightarrow> nat \<Rightarrow> bool" where
  "strncmp0 p s n = strn_eq (\<lambda>c. c) n p s"

definition strncasecmp0 :: "string \<Rightarrow> string \<Rightarrow> nat \<Rightarrow> bool" where
  "strncasecmp0 p s n = strn_eq tolower_c n p s"

text \<open>strcmp (p, s) == 0 and strcasecmp (p, s) == 0.\<close>

definition strcmp0 :: "string \<Rightarrow> string \<Rightarrow> bool" where
  "strcmp0 p s \<longleftrightarrow> c_str p = c_str s"

definition strcasecmp0 :: "string \<Rightarrow> string \<Rightarrow> bool" where
  "strcasecmp0 p s \<longleftrightarrow> map tolower_c (c_str p) = map tolower_c (c_str s)"

lemma strn_eq_map:
  assumes "\<And>c. f c = f NUL \<longleftrightarrow> c = NUL" and "nul_free s"
  shows "strn_eq f (length s) p s \<longleftrightarrow> map f (take (length s) p) = map f s"
  using assms(2)
proof (induction s arbitrary: p)
  case Nil
  then show ?case by simp
next
  case (Cons c s)
  then have c: "c \<noteq> NUL" "nul_free s" by simp_all
  show ?case
  proof (cases p)
    case Nil
    with c assms(1) [of c] show ?thesis by auto
  next
    case (Cons d q)
    have "f d = f c \<Longrightarrow> d \<noteq> NUL" using c assms(1) [of c] by auto
    with Cons Cons.IH [OF c(2)] show ?thesis by auto
  qed
qed

lemma strncmp0_iff: "nul_free s \<Longrightarrow> strncmp0 p s (length s) \<longleftrightarrow> take (length s) p = s"
  using strn_eq_map [of "\<lambda>c. c" s p] by (simp add: strncmp0_def)

lemma strncasecmp0_iff:
  "nul_free s \<Longrightarrow>
   strncasecmp0 p s (length s) \<longleftrightarrow> map tolower_c (take (length s) p) = map tolower_c s"
  using strn_eq_map [of tolower_c s p] by (simp add: strncasecmp0_def)

lemma strn_eq_append:
  "nul_free s \<Longrightarrow> strn_eq f (length s) (s @ t) s"
  by (induction s) auto

lemma strncmp0_self [simp]: "nul_free s \<Longrightarrow> strncmp0 (s @ t) s (length s)"
  by (simp add: strncmp0_def strn_eq_append)

lemma strncmp0_single [simp]:
  "c \<noteq> NUL \<Longrightarrow> strncmp0 p [c] (Suc 0) \<longleftrightarrow> chd p = c"
  by (auto simp: strncmp0_def)

lemma strncasecmp0_single [simp]:
  "c \<noteq> NUL \<Longrightarrow> strncasecmp0 p [c] (Suc 0) \<longleftrightarrow> tolower_c (chd p) = tolower_c c"
  by (auto simp: strncasecmp0_def)

section \<open>Lists\<close>

text \<open>Dropping the longest suffix whose elements satisfy a predicate.\<close>

definition rdropWhile :: "('a \<Rightarrow> bool) \<Rightarrow> 'a list \<Rightarrow> 'a list" where
  "rdropWhile P xs = rev (dropWhile P (rev xs))"

lemma rdropWhile_Nil [simp]: "rdropWhile P [] = []"
  by (simp add: rdropWhile_def)

lemma rdropWhile_snoc [simp]:
  "rdropWhile P (xs @ [x]) = (if P x then rdropWhile P xs else xs @ [x])"
  by (simp add: rdropWhile_def)

lemma rdropWhile_id [simp]: "xs = [] \<or> \<not> P (last xs) \<Longrightarrow> rdropWhile P xs = xs"
  by (induction xs rule: rev_induct) auto

lemma rdropWhile_last: "rdropWhile P xs \<noteq> [] \<Longrightarrow> \<not> P (last (rdropWhile P xs))"
  by (induction xs rule: rev_induct) (auto split: if_splits)

lemma set_rdropWhile: "set (rdropWhile P xs) \<subseteq> set xs"
  by (auto simp: rdropWhile_def dest: set_dropWhileD)

lemma rdropWhile_append:
  "rdropWhile P (xs @ ys) = (if rdropWhile P ys = [] then rdropWhile P xs else xs @ rdropWhile P ys)"
  by (induction ys rule: rev_induct) (auto simp flip: append_assoc)

lemma dropWhile_hd: "dropWhile P xs \<noteq> [] \<Longrightarrow> \<not> P (hd (dropWhile P xs))"
  by (rule hd_dropWhile)

lemma dropWhile_id [simp]: "xs = [] \<or> \<not> P (hd xs) \<Longrightarrow> dropWhile P xs = xs"
  by (cases xs) auto

text \<open>Splitting a list at the first element that satisfies a predicate.\<close>

lemma takeWhile_append_stop:
  "(\<And>x. x \<in> set xs \<Longrightarrow> P x) \<Longrightarrow> \<not> P y \<Longrightarrow>
   takeWhile P (xs @ y # ys) = xs \<and> dropWhile P (xs @ y # ys) = y # ys"
  by (induction xs) auto

lemma take_drop_append_exact [simp]: "take (length xs) (xs @ ys) = xs" "drop (length xs) (xs @ ys) = ys"
  by simp_all

end
