(* ===== verification/Ordered_Map.thy ===== *)
theory Ordered_Map imports Znc_Prelude begin

text \<open>
  std::map and std::set as the code iterates over them: a list of entries with strictly
  increasing keys. The keys of the program's maps are strings, compared byte by byte as
  unsigned values (std::string::compare), and single characters. \<open>map_of\<close> reads an entry,
  \<open>om_insert\<close> is \<open>m[k] = v\<close>, \<open>om_erase\<close> is \<open>m.erase(k)\<close>; the list order is the order of
  iteration. The locale \<open>kv_store\<close> is the contract the components rely on.
\<close>

type_synonym ('k, 'v) omap = "('k \<times> 'v) list"

fun om_insert :: "'k::linorder \<Rightarrow> 'v \<Rightarrow> ('k, 'v) omap \<Rightarrow> ('k, 'v) omap" where
  "om_insert k v [] = [(k, v)]"
| "om_insert k v ((k', v') # m) =
     (if k < k' then (k, v) # (k', v') # m
      else if k = k' then (k, v) # m
      else (k', v') # om_insert k v m)"

fun om_erase :: "'k \<Rightarrow> ('k, 'v) omap \<Rightarrow> ('k, 'v) omap" where
  "om_erase k [] = []"
| "om_erase k ((k', v') # m) = (if k = k' then m else (k', v') # om_erase k m)"

definition om_ok :: "('k::linorder, 'v) omap \<Rightarrow> bool" where
  "om_ok m \<longleftrightarrow> sorted_wrt (<) (map fst m)"

lemma om_ok_Nil [simp]: "om_ok []"
  by (simp add: om_ok_def)

lemma om_ok_Cons [simp]:
  "om_ok ((k, v) # m) \<longleftrightarrow> (\<forall>k' \<in> fst ` set m. k < k') \<and> om_ok m"
  by (auto simp: om_ok_def)

lemma om_ok_distinct: "om_ok m \<Longrightarrow> distinct (map fst m)"
  by (induction m) (auto simp: om_ok_def)

lemma keys_om_insert [simp]: "fst ` set (om_insert k v m) = insert k (fst ` set m)"
  by (induction k v m rule: om_insert.induct) auto

lemma keys_om_erase_subset: "set (om_erase k m) \<subseteq> set m"
  by (induction k m rule: om_erase.induct) auto

lemma om_ok_insert [simp, wf_intros]: "om_ok m \<Longrightarrow> om_ok (om_insert k v m)"
  by (induction k v m rule: om_insert.induct) (force split: if_splits)+

lemma om_ok_erase [simp, wf_intros]: "om_ok m \<Longrightarrow> om_ok (om_erase k m)"
proof (induction k m rule: om_erase.induct)
  case (2 k k' v' m)
  then show ?case using keys_om_erase_subset [of k m] by auto
qed simp

lemma map_of_om_insert [simp]: "map_of (om_insert k v m) = (map_of m)(k \<mapsto> v)"
  by (induction k v m rule: om_insert.induct) auto

lemma map_of_om_erase [simp]: "om_ok m \<Longrightarrow> map_of (om_erase k m) = (map_of m)(k := None)"
proof (induction k m rule: om_erase.induct)
  case (2 k k' v' m)
  show ?case
  proof (cases "k = k'")
    case True
    with "2.prems" have "map_of m k = None" by (fastforce simp: map_of_eq_None_iff)
    with True show ?thesis by auto
  next
    case False
    with 2 show ?thesis by auto
  qed
qed simp

lemma om_erase_absent: "map_of m k = None \<Longrightarrow> om_erase k m = m"
  by (induction k m rule: om_erase.induct) (auto split: if_splits)

lemma keys_om_erase: "om_ok m \<Longrightarrow> fst ` set (om_erase k m) = fst ` set m - {k}"
  by (metis Map.dom_fun_upd dom_map_of_conv_image_fst map_of_om_erase)

lemma om_ext:
  assumes "om_ok m" and "om_ok m'" and "map_of m = map_of m'"
  shows "m = m'"
  using assms
proof (induction m arbitrary: m')
  case Nil
  then show ?case by (cases m') (auto simp: fun_eq_iff split: if_splits)
next
  case (Cons e m)
  obtain k v where e: "e = (k, v)" by (cases e)
  have "map_of m' k = Some v" using Cons.prems(3) [symmetric] by (simp add: e)
  then obtain k' v' n where m': "m' = (k', v') # n" by (cases m') auto
  have "map_of (e # m) k' = Some v'" unfolding Cons.prems(3) by (simp add: m')
  then have "k \<le> k'"
    using Cons.prems(1) by (auto simp: e dest!: map_of_SomeD split: if_splits)
  moreover have "k' \<le> k"
    using \<open>map_of m' k = Some v\<close> Cons.prems(2)
    by (auto simp: m' dest!: map_of_SomeD split: if_splits)
  ultimately have k: "k' = k" by simp
  have notin: "map_of m k = None" "map_of n k = None"
    using Cons.prems(1,2) by (fastforce simp: e m' k map_of_eq_None_iff)+
  have "map_of m x = map_of n x" for x
    using fun_cong [OF Cons.prems(3), of x] notin by (auto simp: e m' k split: if_splits)
  then have "m = n" using Cons.IH [of n] Cons.prems by (auto simp: e m')
  with \<open>map_of m' k = Some v\<close> show ?case by (simp add: e m' k)
qed

lemma om_insert_snoc:
  "om_ok (m @ [(k, v)]) \<Longrightarrow> om_insert k w m = m @ [(k, w)]"
proof (induction m)
  case (Cons e m)
  then show ?case by (cases e) (auto simp: om_ok_def)
qed simp

text \<open>Inserting the entries of an ordered map one after the other rebuilds it.\<close>

lemma om_rebuild:
  "om_ok (m @ n) \<Longrightarrow> fold (\<lambda>(k, v). om_insert k v) n m = m @ n"
proof (induction n arbitrary: m)
  case (Cons e n)
  obtain k v where e: "e = (k, v)" by (cases e)
  from Cons.prems have "om_ok (m @ [(k, v)])"
    by (auto simp: e om_ok_def sorted_wrt_append)
  then have "om_insert k v m = m @ [(k, v)]" by (rule om_insert_snoc)
  with Cons.IH [of "m @ [(k, v)]"] Cons.prems show ?case by (simp add: e)
qed simp

text \<open>
  The contract of a key-value store, as the clients of std::map use it, and two facts that
  follow from it.
\<close>

locale kv_store =
  fixes store_ok :: "'m \<Rightarrow> bool"
    and empty :: "'m"
    and put :: "'k \<Rightarrow> 'v \<Rightarrow> 'm \<Rightarrow> 'm"
    and del :: "'k \<Rightarrow> 'm \<Rightarrow> 'm"
    and get :: "'m \<Rightarrow> 'k \<Rightarrow> 'v option"
  assumes ok_empty: "store_ok empty"
    and ok_put: "store_ok m \<Longrightarrow> store_ok (put k v m)"
    and ok_del: "store_ok m \<Longrightarrow> store_ok (del k m)"
    and get_empty: "get empty k = None"
    and get_put: "store_ok m \<Longrightarrow> get (put k v m) = (get m)(k \<mapsto> v)"
    and get_del: "store_ok m \<Longrightarrow> get (del k m) = (get m)(k := None)"
    and store_ext: "store_ok m \<Longrightarrow> store_ok m' \<Longrightarrow> get m = get m' \<Longrightarrow> m = m'"
begin

lemma put_twice: "store_ok m \<Longrightarrow> put k w (put k v m) = put k w m"
  by (rule store_ext) (simp_all add: ok_put get_put)

lemma put_swap: "store_ok m \<Longrightarrow> k \<noteq> k' \<Longrightarrow> put k v (put k' v' m) = put k' v' (put k v m)"
  by (rule store_ext) (simp_all add: ok_put get_put fun_upd_twist)

lemma del_put: "store_ok m \<Longrightarrow> del k (put k v m) = del k m"
  by (rule store_ext) (simp_all add: ok_put ok_del get_put get_del)

lemma put_same: "store_ok m \<Longrightarrow> get m k = Some v \<Longrightarrow> put k v m = m"
  by (rule store_ext) (simp_all add: ok_put get_put fun_upd_idem)

lemma ok_fold_put: "store_ok m \<Longrightarrow> store_ok (fold (\<lambda>(k, v). put k v) es m)"
  by (induction es arbitrary: m) (auto simp: ok_put)

lemma get_fold_put:
  "store_ok m \<Longrightarrow> get (fold (\<lambda>(k, v). put k v) es m) = get m ++ map_of (rev es)"
proof (induction es arbitrary: m)
  case (Cons e es)
  obtain k v where e: "e = (k, v)" by (cases e)
  have "get (fold (\<lambda>(k, v). put k v) es (put k v m)) = (get m)(k \<mapsto> v) ++ map_of (rev es)"
    using Cons by (simp add: ok_put get_put fun_upd_def)
  then show ?case by (auto simp: e map_add_def fun_eq_iff split: option.splits)
qed simp

end

interpretation om: kv_store om_ok "[]" om_insert om_erase map_of
  by unfold_locales (auto intro: om_ext)

section \<open>std::set\<close>

definition os_insert :: "'k::linorder \<Rightarrow> 'k list \<Rightarrow> 'k list" where
  "os_insert k s = (if k \<in> set s then s else insort k s)"

definition os_erase :: "'k \<Rightarrow> 'k list \<Rightarrow> 'k list" where
  "os_erase k s = remove1 k s"

definition os_ok :: "'k::linorder list \<Rightarrow> bool" where
  "os_ok s \<longleftrightarrow> sorted_wrt (<) s"

lemma os_ok_iff: "os_ok s \<longleftrightarrow> sorted s \<and> distinct s"
  by (simp add: os_ok_def strict_sorted_iff)

lemma os_ok_Nil [simp]: "os_ok []"
  by (simp add: os_ok_def)

lemma os_ok_Cons [simp]: "os_ok (k # s) \<longleftrightarrow> (\<forall>k' \<in> set s. k < k') \<and> os_ok s"
  by (simp add: os_ok_def)

lemma set_os_insert [simp]: "set (os_insert k s) = insert k (set s)"
  by (auto simp: os_insert_def set_insort_key)

lemma os_ok_insert [simp, wf_intros]: "os_ok s \<Longrightarrow> os_ok (os_insert k s)"
  by (auto simp: os_ok_iff os_insert_def sorted_insort distinct_insort)

lemma set_os_erase [simp]: "os_ok s \<Longrightarrow> set (os_erase k s) = set s - {k}"
  by (simp add: os_ok_iff os_erase_def)

lemma os_ok_erase [simp, wf_intros]: "os_ok s \<Longrightarrow> os_ok (os_erase k s)"
  by (simp add: os_ok_iff os_erase_def sorted_remove1)

lemma os_ext: "os_ok s \<Longrightarrow> os_ok t \<Longrightarrow> set s = set t \<Longrightarrow> s = t"
  by (simp add: os_ok_def strict_sorted_equal)

lemma length_os_insert: "length (os_insert k s) \<le> Suc (length s)"
  by (simp add: os_insert_def)

lemma length_os_erase: "k \<in> set s \<Longrightarrow> length (os_erase k s) < length s"
  using length_pos_if_in_set [of k s] by (simp add: os_erase_def length_remove1)

end
