(* ===== verification/Cstring.thy ===== *)
theory Cstring imports Ordered_Map begin

text \<open>
  The elementary operations of CString (src/ZNCString.cpp, include/znc/ZNCString.h):
  comparison, case folding, chomping and trimming, prefixes and suffixes, searching and
  joining. Function names are those of the source; the \<open>_n\<close> variants return the changed
  string where the plain variants return a flag too. Reading through a \<open>const char*\<close> stops
  at a NUL, as the C++ does.
\<close>

datatype case_sensitivity = CaseInsensitive | CaseSensitive

section \<open>Comparison and case\<close>

definition Equals :: "string \<Rightarrow> string \<Rightarrow> case_sensitivity \<Rightarrow> bool" where
  "Equals s t cs = (if cs = CaseSensitive then strcmp0 s t else strcasecmp0 s t)"

abbreviation equals_ci :: "string \<Rightarrow> string \<Rightarrow> bool" where
  "equals_ci s t \<equiv> Equals s t CaseInsensitive"

definition AsLower :: "string \<Rightarrow> string" where
  "AsLower s = map tolower_c s"

definition AsUpper :: "string \<Rightarrow> string" where
  "AsUpper s = map toupper_c s"

lemma equals_ci_iff: "equals_ci s t \<longleftrightarrow> AsLower (c_str s) = AsLower (c_str t)"
  by (simp add: Equals_def strcasecmp0_def AsLower_def)

lemma equals_ci_refl [simp]: "equals_ci s s"
  by (simp add: equals_ci_iff)

lemma equals_ci_sym: "equals_ci s t \<longleftrightarrow> equals_ci t s"
  by (auto simp: equals_ci_iff)

lemma equals_ci_trans: "equals_ci s t \<Longrightarrow> equals_ci t u \<Longrightarrow> equals_ci s u"
  by (simp add: equals_ci_iff)

lemma AsLower_simps [simp]:
  "AsLower [] = []" "AsLower (c # s) = tolower_c c # AsLower s"
  "AsLower (s @ t) = AsLower s @ AsLower t" "AsLower (AsLower s) = AsLower s"
  "length (AsLower s) = length s"
  by (simp_all add: AsLower_def)

lemma AsLower_eq_Nil [simp]: "AsLower s = [] \<longleftrightarrow> s = []"
  by (simp add: AsLower_def)

lemma nul_free_AsLower [simp]: "nul_free (AsLower s) \<longleftrightarrow> nul_free s"
  by (induction s) auto

lemma c_str_AsLower [simp]: "c_str (AsLower s) = AsLower (c_str s)"
  by (induction s) auto

lemma Equals_CaseSensitive [simp]: "Equals s t CaseSensitive \<longleftrightarrow> c_str s = c_str t"
  by (simp add: Equals_def strcmp0_def)

section \<open>Left, Right, chomping\<close>

definition Left :: "string \<Rightarrow> nat \<Rightarrow> string" where
  "Left s uCount = (let uCount = (if uCount > length s then length s else uCount) in take uCount s)"

definition Right :: "string \<Rightarrow> nat \<Rightarrow> string" where
  "Right s uCount = (let uCount = (if uCount > length s then length s else uCount)
                     in take uCount (drop (length s - uCount) s))"

fun LeftChomp :: "nat \<Rightarrow> string \<Rightarrow> bool \<times> string" where
  "LeftChomp 0 s = (False, s)"
| "LeftChomp (Suc u) s = (if s = [] then (False, s) else (True, snd (LeftChomp u (tl s))))"

fun RightChomp :: "nat \<Rightarrow> string \<Rightarrow> bool \<times> string" where
  "RightChomp 0 s = (False, s)"
| "RightChomp (Suc u) s = (if s = [] then (False, s) else (True, snd (RightChomp u (butlast s))))"

definition LeftChomp_n :: "nat \<Rightarrow> string \<Rightarrow> string" where
  "LeftChomp_n u s = snd (LeftChomp u s)"

definition RightChomp_n :: "nat \<Rightarrow> string \<Rightarrow> string" where
  "RightChomp_n u s = snd (RightChomp u s)"

definition Ellipsize :: "nat \<Rightarrow> string \<Rightarrow> string" where
  "Ellipsize uLen s =
     (if uLen \<ge> length s then s
      else if uLen < 4 then replicate uLen (CHR ''.'')
      else take (uLen - 3) s @ ''...'')"

lemma Left_take [simp]: "Left s n = take n s"
  by (simp add: Left_def)

lemma Right_drop [simp]: "Right s n = drop (length s - n) s"
  by (simp add: Right_def)

lemma LeftChomp_drop [simp]: "snd (LeftChomp n s) = drop n s"
  by (induction n s rule: LeftChomp.induct) (auto simp: drop_Suc)

lemma RightChomp_take [simp]: "snd (RightChomp n s) = take (length s - n) s"
proof (induction n s rule: RightChomp.induct)
  case (2 u s)
  then show ?case by (auto simp: butlast_conv_take min_def)
qed simp

lemma LeftChomp_n_drop [simp]: "LeftChomp_n n s = drop n s"
  by (simp add: LeftChomp_n_def)

lemma RightChomp_n_take [simp]: "RightChomp_n n s = take (length s - n) s"
  by (simp add: RightChomp_n_def)

lemma length_Ellipsize: "length (Ellipsize n s) = min n (length s)"
  by (auto simp: Ellipsize_def)

section \<open>Trimming\<close>

fun find_first_not_of :: "string \<Rightarrow> string \<Rightarrow> nat option" where
  "find_first_not_of chars [] = None"
| "find_first_not_of chars (c # s) =
     (if c \<in> set chars then map_option Suc (find_first_not_of chars s) else Some 0)"

definition find_last_not_of :: "string \<Rightarrow> string \<Rightarrow> nat option" where
  "find_last_not_of chars s =
     map_option (\<lambda>i. length s - 1 - i) (find_first_not_of chars (rev s))"

definition TrimLeft :: "string \<Rightarrow> string \<Rightarrow> bool \<times> string" where
  "TrimLeft chars s =
     (case find_first_not_of chars s of
        Some i \<Rightarrow> if i = 0 then (False, s) else (True, drop i s)
      | None \<Rightarrow> (True, []))"

definition TrimRight :: "string \<Rightarrow> string \<Rightarrow> bool \<times> string" where
  "TrimRight chars s =
     (case find_last_not_of chars s of
        Some i \<Rightarrow> if i + 1 = length s then (False, s) else (True, take (i + 1) s)
      | None \<Rightarrow> if 0 = length s then (False, s) else (True, []))"

definition Trim :: "string \<Rightarrow> string \<Rightarrow> bool \<times> string" where
  "Trim chars s =
     (let (bLeft, s') = TrimLeft chars s; (bRight, s'') = TrimRight chars s'
      in (bRight \<or> bLeft, s''))"

text \<open>The default argument of the trim functions: blank, tab, CR, LF.\<close>

definition ws :: string where
  "ws = [CHR '' '', CHR 0x09, CHR 0x0D, CHR 0x0A]"

definition TrimLeft_n :: "string \<Rightarrow> string \<Rightarrow> string" where
  "TrimLeft_n chars s = snd (TrimLeft chars s)"

definition TrimRight_n :: "string \<Rightarrow> string \<Rightarrow> string" where
  "TrimRight_n chars s = snd (TrimRight chars s)"

definition Trim_n :: "string \<Rightarrow> string \<Rightarrow> string" where
  "Trim_n chars s = snd (Trim chars s)"

lemma find_first_not_of_None: "find_first_not_of chars s = None \<longleftrightarrow> set s \<subseteq> set chars"
  by (induction s) auto

lemma find_first_not_of_Some:
  "find_first_not_of chars s = Some i \<Longrightarrow> dropWhile (\<lambda>c. c \<in> set chars) s = drop i s \<and> i < length s"
  by (induction s arbitrary: i) (auto split: if_splits)

lemma TrimLeft_dropWhile [simp]: "snd (TrimLeft chars s) = dropWhile (\<lambda>c. c \<in> set chars) s"
proof (cases "find_first_not_of chars s")
  case None
  then have "set s \<subseteq> set chars" by (simp add: find_first_not_of_None)
  then have "dropWhile (\<lambda>c. c \<in> set chars) s = []" by auto
  with None show ?thesis by (simp only: TrimLeft_def option.case snd_conv)
next
  case (Some i)
  with find_first_not_of_Some [OF Some] show ?thesis by (auto simp: TrimLeft_def)
qed

lemma TrimRight_rdropWhile [simp]: "snd (TrimRight chars s) = rdropWhile (\<lambda>c. c \<in> set chars) s"
proof (cases "find_first_not_of chars (rev s)")
  case None
  then have "set s \<subseteq> set chars" by (simp add: find_first_not_of_None)
  then have "rdropWhile (\<lambda>c. c \<in> set chars) s = []" by (auto simp: rdropWhile_def)
  with None show ?thesis by (auto simp: TrimRight_def find_last_not_of_def)
next
  case (Some i)
  from find_first_not_of_Some [OF Some]
  have *: "dropWhile (\<lambda>c. c \<in> set chars) (rev s) = drop i (rev s)" "i < length s" by simp_all
  then have "rdropWhile (\<lambda>c. c \<in> set chars) s = take (length s - i) s"
    by (simp add: rdropWhile_def rev_drop)
  with Some *(2) show ?thesis by (auto simp: TrimRight_def find_last_not_of_def Suc_diff_Suc)
qed

lemma TrimLeft_n_eq [simp]: "TrimLeft_n chars s = dropWhile (\<lambda>c. c \<in> set chars) s"
  by (simp add: TrimLeft_n_def)

lemma TrimRight_n_eq [simp]: "TrimRight_n chars s = rdropWhile (\<lambda>c. c \<in> set chars) s"
  by (simp add: TrimRight_n_def)

lemma Trim_n_eq:
  "Trim_n chars s = rdropWhile (\<lambda>c. c \<in> set chars) (dropWhile (\<lambda>c. c \<in> set chars) s)"
  using TrimRight_rdropWhile [of chars "snd (TrimLeft chars s)"]
  by (simp add: Trim_n_def Trim_def split_def Let_def)

lemma Trim_n_id:
  "s = [] \<or> hd s \<notin> set chars \<and> last s \<notin> set chars \<Longrightarrow> Trim_n chars s = s"
  by (auto simp: Trim_n_eq)

section \<open>Prefixes, suffixes, searching\<close>

definition StartsWith :: "string \<Rightarrow> string \<Rightarrow> case_sensitivity \<Rightarrow> bool" where
  "StartsWith s sPrefix cs = Equals (Left s (length sPrefix)) sPrefix cs"

definition EndsWith :: "string \<Rightarrow> string \<Rightarrow> case_sensitivity \<Rightarrow> bool" where
  "EndsWith s sSuffix cs = Equals (Right s (length sSuffix)) sSuffix cs"

abbreviation starts_ci :: "string \<Rightarrow> string \<Rightarrow> bool" where
  "starts_ci s p \<equiv> StartsWith s p CaseInsensitive"

abbreviation ends_ci :: "string \<Rightarrow> string \<Rightarrow> bool" where
  "ends_ci s p \<equiv> EndsWith s p CaseInsensitive"

definition TrimPrefix :: "string \<Rightarrow> string \<Rightarrow> bool \<times> string" where
  "TrimPrefix sPrefix s =
     (if starts_ci s sPrefix then (True, LeftChomp_n (length sPrefix) s) else (False, s))"

definition TrimSuffix :: "string \<Rightarrow> string \<Rightarrow> bool \<times> string" where
  "TrimSuffix sSuffix s =
     (if equals_ci (Right s (length sSuffix)) sSuffix
      then (True, RightChomp_n (length sSuffix) s) else (False, s))"

definition TrimPrefix_n :: "string \<Rightarrow> string \<Rightarrow> string" where
  "TrimPrefix_n sPrefix s = snd (TrimPrefix sPrefix s)"

definition TrimSuffix_n :: "string \<Rightarrow> string \<Rightarrow> string" where
  "TrimSuffix_n sSuffix s = snd (TrimSuffix sSuffix s)"

text \<open>std::string::find, for a string and for a character.\<close>

fun find_str :: "string \<Rightarrow> string \<Rightarrow> nat option" where
  "find_str t [] = (if t = [] then Some 0 else None)"
| "find_str t (c # s) =
     (if take (length t) (c # s) = t then Some 0 else map_option Suc (find_str t s))"

fun find_char :: "char \<Rightarrow> string \<Rightarrow> nat option" where
  "find_char d [] = None"
| "find_char d (c # s) = (if c = d then Some 0 else map_option Suc (find_char d s))"

definition Find :: "string \<Rightarrow> string \<Rightarrow> case_sensitivity \<Rightarrow> nat option" where
  "Find s t cs = (if cs = CaseSensitive then find_str t s else find_str (AsLower t) (AsLower s))"

definition Contains :: "string \<Rightarrow> string \<Rightarrow> case_sensitivity \<Rightarrow> bool" where
  "Contains s t cs \<longleftrightarrow> Find s t cs \<noteq> None"

lemma find_char_None [simp]: "find_char d s = None \<longleftrightarrow> d \<notin> set s"
  by (induction s) auto

lemma find_char_absent [simp]: "d \<notin> set s \<Longrightarrow> find_char d s = None"
  by simp

lemma find_char_Some:
  "find_char d s = Some i \<longleftrightarrow> i < length s \<and> s ! i = d \<and> d \<notin> set (take i s)"
proof (induction s arbitrary: i)
  case (Cons c s)
  show ?case by (cases i) (auto simp: Cons)
qed simp

lemma find_char_split:
  "find_char d s = Some i \<Longrightarrow> s = take i s @ d # drop (Suc i) s \<and> d \<notin> set (take i s)"
  by (metis find_char_Some id_take_nth_drop)

lemma find_char_append [simp]: "d \<notin> set s \<Longrightarrow> find_char d (s @ d # t) = Some (length s)"
  by (induction s) auto

lemma find_str_single: "find_str [c] s = find_char c s"
  by (induction s) auto

lemma Contains_single: "Contains s [c] CaseInsensitive \<longleftrightarrow> tolower_c c \<in> set (AsLower s)"
  by (simp add: Contains_def Find_def find_str_single)

lemma tolower_is_nonalpha:
  assumes "\<not> islower_c c"
  shows "tolower_c d = c \<longleftrightarrow> d = c \<and> \<not> isupper_c c"
proof (cases "isupper_c d")
  case True
  with islower_tolower [OF True] assms show ?thesis by auto
next
  case False
  then show ?thesis by (auto simp: tolower_nonalpha)
qed

lemma starts_ci_single [simp]:
  "c \<noteq> NUL \<Longrightarrow> starts_ci s [c] \<longleftrightarrow> s \<noteq> [] \<and> tolower_c (hd s) = tolower_c c"
  by (cases s) (auto simp: StartsWith_def equals_ci_iff split: if_splits)

section \<open>Joining\<close>

fun Join :: "string \<Rightarrow> string list \<Rightarrow> string" where
  "Join sep [] = []"
| "Join sep [t] = t"
| "Join sep (t # ts) = t @ sep @ Join sep ts"

lemma Join_Cons: "Join sep (t # ts) = (if ts = [] then t else t @ sep @ Join sep ts)"
  by (cases ts) auto

lemma Join_snoc: "Join sep (ts @ [t]) = (if ts = [] then t else Join sep ts @ sep @ t)"
  by (induction ts) (auto simp: Join_Cons)

lemma nul_free_Join: "nul_free sep \<Longrightarrow> (\<forall>t \<in> set ts. nul_free t) \<Longrightarrow> nul_free (Join sep ts)"
  by (induction ts) (auto simp: Join_Cons)

end
