(* ===== verification/Wildcmp.thy ===== *)
theory Wildcmp imports Cstring begin

text \<open>
  Wildcard matching, \<open>CString::WildCmp\<close> (src/ZNCString.cpp). The C++ matches with two
  pointers and one saved pair of them: \<open>mp\<close> is the pattern after the last star and \<open>cp\<close> the
  place in the text where the next attempt starts. \<open>wild_match\<close> is what the masks mean, as a
  recursive definition that tries every way to read a star; \<open>WildCmp_wild_match\<close> shows that
  the single saved pair is enough.
\<close>

section \<open>The three loops\<close>

function wild_loop1 :: "string \<Rightarrow> string \<Rightarrow> (string \<times> string) option" where
  "wild_loop1 w s =
     (if chd s \<noteq> NUL \<and> chd w \<noteq> CHR ''*'' then
        (if chd w \<noteq> chd s \<and> chd w \<noteq> CHR ''?'' then None else wild_loop1 (tl w) (tl s))
      else Some (w, s))"
  by pat_completeness auto
termination
  by (relation "measure (\<lambda>(w, s). length s)") (auto simp: chd_not_NUL)

definition wild_loop3 :: "string \<Rightarrow> bool" where
  "wild_loop3 w \<longleftrightarrow> chd (dropWhile (\<lambda>c. c = CHR ''*'') w) = NUL"

function wild_loop2 :: "string \<Rightarrow> string \<Rightarrow> string \<Rightarrow> string \<Rightarrow> bool" where
  "wild_loop2 w s mp cp =
     (if chd s = NUL then wild_loop3 w
      else if chd w = CHR ''*'' then
        (if chd (tl w) = NUL then True else wild_loop2 (tl w) s (tl w) (tl s))
      else if chd w = chd s \<or> chd w = CHR ''?'' then wild_loop2 (tl w) (tl s) mp cp
      else wild_loop2 mp cp mp (tl cp))"
  by pat_completeness auto

text \<open>
  The second loop ends: a star shortens the longer of the pattern and its saved suffix, a
  new attempt shortens the saved text, a matching byte shortens the text.
\<close>

termination
proof (relation "measures [\<lambda>(w, s, mp, cp). max (length w) (length mp),
    \<lambda>(w, s, mp, cp). length cp, \<lambda>(w, s, mp, cp). length s]", goal_cases)
  case (2 w s mp cp)
  then show ?case by (cases w) auto
next
  case (3 w s mp cp)
  then show ?case by (cases s) auto
next
  case (4 w s mp cp)
  then show ?case by (cases s; cases cp) auto
qed simp

declare wild_loop1.simps [simp del] wild_loop2.simps [simp del]

definition WildCmp :: "string \<Rightarrow> string \<Rightarrow> case_sensitivity \<Rightarrow> bool" where
  "WildCmp sWild sString cs =
     (let sWld = (if cs = CaseSensitive then sWild else AsLower sWild);
          sStr = (if cs = CaseSensitive then sString else AsLower sString)
      in case wild_loop1 sWld sStr of
           None \<Rightarrow> False
         | Some (w, s) \<Rightarrow> wild_loop2 w s [] [])"

section \<open>The meaning of a mask\<close>

fun wild_match :: "string \<Rightarrow> string \<Rightarrow> bool" where
  "wild_match [] s \<longleftrightarrow> s = []"
| "wild_match (c # w) [] \<longleftrightarrow> c = CHR ''*'' \<and> wild_match w []"
| "wild_match (c # w) (x # s) \<longleftrightarrow>
     (if c = CHR ''*'' then wild_match w (x # s) \<or> wild_match (c # w) s
      else (c = x \<or> c = CHR ''?'') \<and> wild_match w s)"

lemma wild_match_star: "wild_match (CHR ''*'' # w) s \<longleftrightarrow> (\<exists>n. wild_match w (drop n s))"
proof (induction s)
  case (Cons x s)
  have "(\<exists>n. wild_match w (drop n (x # s))) \<longleftrightarrow>
      wild_match w (x # s) \<or> (\<exists>n. wild_match w (drop n s))"
    by (metis drop0 drop_Suc_Cons not0_implies_Suc)
  with Cons show ?case by simp
qed simp

lemma wild_match_star_all [simp]: "wild_match [CHR ''*''] s"
  by (induction s) auto

lemma wild_match_plain_prefix:
  "CHR ''*'' \<notin> set u \<Longrightarrow> wild_match (u @ w) s \<Longrightarrow>
   length u \<le> length s \<and> wild_match w (drop (length u) s)"
proof (induction u arbitrary: s)
  case (Cons c u)
  then show ?case by (cases s) auto
qed simp

lemma wild_loop3_match: "nul_free w \<Longrightarrow> wild_loop3 w \<longleftrightarrow> wild_match w []"
proof (induction w)
  case (Cons c w)
  then show ?case by (auto simp: wild_loop3_def)
qed (simp add: wild_loop3_def)

lemma exists_drop: "(\<exists>n. P (drop n s)) \<longleftrightarrow> P s \<or> (\<exists>n. P (drop n (tl s)))"
  by (metis drop0 drop_Suc not0_implies_Suc)

text \<open>
  The invariant of the second loop: the pattern read since the last star has no star, and
  the text pointer is as far beyond the start of the attempt.
\<close>

lemma wild_loop2_correct:
  assumes "nul_free mp" and "nul_free (x # cp)"
    and "mp = u @ w" and "CHR ''*'' \<notin> set u" and "s = drop (length u) (x # cp)"
  shows "wild_loop2 w s mp cp \<longleftrightarrow> wild_match w s \<or> (\<exists>n. wild_match mp (drop n cp))"
  using assms
proof (induction w s mp cp arbitrary: x u rule: wild_loop2.induct)
  case (1 w s mp cp)
  have w: "nul_free w" and s: "nul_free s" using "1.prems" by auto
  show ?case
  proof (cases s)
    case Nil
    have "length u > length cp" using Nil "1.prems"(5) by (cases u) auto
    then have "\<not> wild_match mp (drop n cp)" for n
      using wild_match_plain_prefix [of u w "drop n cp"] "1.prems"(3,4) by auto
    with Nil w show ?thesis by (subst wild_loop2.simps) (simp add: wild_loop3_match)
  next
    case (Cons y s')
    then have y: "y \<noteq> NUL" using s by simp
    consider (star) r where "w = CHR ''*'' # r"
      | (eat) c r where "w = c # r" "c \<noteq> CHR ''*''" "c = y \<or> c = CHR ''?''"
      | (retry) "chd w \<noteq> CHR ''*''" "chd w \<noteq> y" "chd w \<noteq> CHR ''?''"
      using y by (cases w) auto
    then show ?thesis
    proof cases
      case star
      have absorb: "wild_match w s" if "wild_match mp (drop n cp)" for n
      proof -
        have "wild_match w (drop (length u) (drop n cp))"
          using wild_match_plain_prefix [of u w "drop n cp"] that "1.prems"(3,4) by simp
        moreover have "drop (length u) (drop n cp) = drop (Suc n) s"
          using "1.prems"(5) by (simp add: add.commute)
        ultimately have "wild_match (CHR ''*'' # r) (drop (Suc n) s)" by (simp only: star)
        then obtain m where "wild_match r (drop (m + Suc n) s)"
          by (auto simp only: wild_match_star drop_drop)
        then show ?thesis unfolding star wild_match_star by blast
      qed
      show ?thesis
      proof (cases "r = []")
        case True
        then show ?thesis using Cons y star by (subst wild_loop2.simps) simp
      next
        case False
        with star w have r: "chd r \<noteq> NUL" "nul_free r" by (auto simp: chd_eq_NUL)
        have "wild_loop2 w s mp cp = wild_loop2 r s r s'"
          using Cons y star r by (subst wild_loop2.simps) simp
        also have "\<dots> = (wild_match r s \<or> (\<exists>n. wild_match r (drop n s')))"
          using "1.IH"(1) [of y "[]"] Cons y star r s by simp
        also have "\<dots> = wild_match w s"
          using exists_drop [of "wild_match r" s] by (simp add: star wild_match_star Cons)
        finally show ?thesis using absorb by blast
      qed
    next
      case eat
      have "wild_loop2 w s mp cp = wild_loop2 r s' mp cp"
        using Cons y eat by (subst wild_loop2.simps) auto
      also have "\<dots> = (wild_match r s' \<or> (\<exists>n. wild_match mp (drop n cp)))"
      proof -
        have "s' = drop (length (u @ [c])) (x # cp)"
          using "1.prems"(5) Cons by (metis drop_Suc length_append_singleton list.sel(3) tl_drop)
        then show ?thesis
          using "1.IH"(2) [of x "u @ [c]"] Cons y eat "1.prems" by simp
      qed
      finally show ?thesis using Cons eat by auto
    next
      case retry
      have no: "\<not> wild_match w s" using Cons retry by (cases w) auto
      have "wild_loop2 w s mp cp = wild_loop2 mp cp mp (tl cp)"
        using Cons y retry by (subst wild_loop2.simps) auto
      also have "\<dots> = (\<exists>n. wild_match mp (drop n cp))"
      proof (cases cp)
        case Nil
        then show ?thesis
          using "1.prems"(1) by (subst wild_loop2.simps) (simp add: wild_loop3_match)
      next
        case (Cons z cp')
        then have "wild_loop2 mp cp mp (tl cp) =
            (wild_match mp cp \<or> (\<exists>n. wild_match mp (drop n (tl cp))))"
          using "1.IH"(3) [of z "[]"] \<open>s = y # s'\<close> y retry "1.prems" by simp
        then show ?thesis using exists_drop [of "wild_match mp" cp] by simp
      qed
      finally show ?thesis using no by simp
    qed
  qed
qed

lemma wild_loop2_first:
  assumes "nul_free w" and "nul_free s" and "s = [] \<or> chd w = CHR ''*''"
  shows "wild_loop2 w s [] [] \<longleftrightarrow> wild_match w s"
proof (cases s)
  case Nil
  then show ?thesis using assms by (subst wild_loop2.simps) (simp add: wild_loop3_match)
next
  case (Cons y s')
  with assms obtain r where w: "w = CHR ''*'' # r" by (cases w) auto
  show ?thesis
  proof (cases "r = []")
    case True
    then show ?thesis using Cons assms w by (subst wild_loop2.simps) simp
  next
    case False
    then have "wild_loop2 w s [] [] = wild_loop2 r s r s'"
      using Cons assms w by (subst wild_loop2.simps) (simp add: chd_eq_NUL)
    also have "\<dots> = (wild_match r s \<or> (\<exists>n. wild_match r (drop n s')))"
      using wild_loop2_correct [of r y s' "[]" r s] Cons assms w by simp
    also have "\<dots> = wild_match w s"
      using exists_drop [of "wild_match r" s] by (simp add: w wild_match_star Cons)
    finally show ?thesis .
  qed
qed

lemma wild_loop1_correct:
  "nul_free w \<Longrightarrow> nul_free s \<Longrightarrow>
   (case wild_loop1 w s of None \<Rightarrow> False | Some (w', s') \<Rightarrow> wild_loop2 w' s' [] []) = wild_match w s"
proof (induction w s rule: wild_loop1.induct)
  case (1 w s)
  show ?case
  proof (cases "chd s \<noteq> NUL \<and> chd w \<noteq> CHR ''*''")
    case True
    then obtain y s' where s: "s = y # s'" by (cases s) auto
    with True 1 show ?thesis by (subst wild_loop1.simps) (cases w, auto)
  next
    case False
    with "1.prems" show ?thesis
      by (subst wild_loop1.simps) (auto simp: chd_eq_NUL wild_loop2_first)
  qed
qed

definition fold_case :: "case_sensitivity \<Rightarrow> string \<Rightarrow> string" where
  "fold_case cs s = (if cs = CaseSensitive then s else AsLower s)"

lemma nul_free_fold_case [simp]: "nul_free (fold_case cs s) = nul_free s"
  by (simp add: fold_case_def)

lemma WildCmp_match:
  "nul_free w \<Longrightarrow> nul_free s \<Longrightarrow> WildCmp w s cs = wild_match (fold_case cs w) (fold_case cs s)"
  using wild_loop1_correct [of "fold_case cs w" "fold_case cs s"]
  by (simp add: WildCmp_def Let_def fold_case_def split: if_splits)

lemma wild_match_self: "wild_match w w"
proof (induction w)
  case (Cons c w)
  then have "wild_match (CHR ''*'' # w) w"
    unfolding wild_match_star by (intro exI [of _ 0]) simp
  with Cons show ?case by simp
qed simp

text \<open>A mask without wildcard bytes matches only itself.\<close>

lemma wild_match_plain:
  "CHR ''*'' \<notin> set w \<Longrightarrow> CHR ''?'' \<notin> set w \<Longrightarrow> wild_match w s \<longleftrightarrow> w = s"
proof (induction w arbitrary: s)
  case (Cons c w)
  then show ?case by (cases s) auto
qed auto

end
