(* ===== verification/Tokens.thy ===== *)
theory Tokens imports Cstring begin

text \<open>
  The tokenising half of CString (src/ZNCString.cpp): \<open>Token\<close> (both overloads), \<open>Split\<close>,
  \<open>QuoteSplit\<close> and \<open>Replace\<close>.

  The C++ loops do not end for an empty separator (strncmp with length 0 always matches and
  the pointer does not move). \<open>skip_sep_c\<close>, \<open>token_start_c\<close>, \<open>Token_c\<close> and \<open>Replace_c\<close> keep
  that as the value None; \<open>Token\<close> and \<open>Replace\<close> are the total functions used elsewhere, and
  the refinement lemmas show that they are what the loops return for a proper separator.
\<close>

definition proper_sep :: "string \<Rightarrow> bool" where
  "proper_sep sep \<longleftrightarrow> sep \<noteq> [] \<and> nul_free sep"

lemma proper_sep_single [simp]: "proper_sep [c] \<longleftrightarrow> c \<noteq> NUL"
  by (auto simp: proper_sep_def)

section \<open>Skipping separators\<close>

text \<open>while (strncmp (p, sep, sep_len) == 0) p += sep_len, with strncasecmp in \<open>Split\<close>.\<close>

partial_function (option) skip_sep_c ::
    "(string \<Rightarrow> string \<Rightarrow> nat \<Rightarrow> bool) \<Rightarrow> string \<Rightarrow> string \<Rightarrow> string option" where
  "skip_sep_c cmp sep p =
     (if cmp p sep (length sep) then skip_sep_c cmp sep (drop (length sep) p) else Some p)"

declare skip_sep_c.simps [code]

function skip_sep :: "(string \<Rightarrow> string \<Rightarrow> nat \<Rightarrow> bool) \<Rightarrow> string \<Rightarrow> string \<Rightarrow> string" where
  "skip_sep cmp sep p =
     (if p \<noteq> [] \<and> sep \<noteq> [] \<and> cmp p sep (length sep)
      then skip_sep cmp sep (drop (length sep) p) else p)"
  by pat_completeness auto
termination
  by (relation "measure (\<lambda>(cmp, sep, p). length p)") auto

declare skip_sep.simps [simp del]

lemma length_skip_sep: "length (skip_sep cmp sep p) \<le> length p"
proof (induction cmp sep p rule: skip_sep.induct)
  case (1 cmp sep p)
  then show ?case by (subst skip_sep.simps) (fastforce intro: le_trans)
qed

lemma skip_sep_Nil [simp]: "skip_sep cmp sep [] = []"
  by (subst skip_sep.simps) simp

lemma skip_sep_suffix: "\<exists>q. p = q @ skip_sep cmp sep p"
proof (induction cmp sep p rule: skip_sep.induct)
  case (1 cmp sep p)
  show ?case
  proof (cases "p \<noteq> [] \<and> sep \<noteq> [] \<and> cmp p sep (length sep)")
    case True
    with 1 obtain q where "drop (length sep) p = q @ skip_sep cmp sep (drop (length sep) p)" by auto
    then have "p = (take (length sep) p @ q) @ skip_sep cmp sep (drop (length sep) p)"
      by (metis append.assoc append_take_drop_id)
    moreover have "skip_sep cmp sep p = skip_sep cmp sep (drop (length sep) p)"
      using True by (subst skip_sep.simps) simp
    ultimately show ?thesis by metis
  next
    case False
    then show ?thesis by (subst skip_sep.simps) auto
  qed
qed

lemma skip_sep_stop:
  "proper_sep sep \<Longrightarrow> skip_sep cmp sep p = [] \<or> \<not> cmp (skip_sep cmp sep p) sep (length sep)"
proof (induction cmp sep p rule: skip_sep.induct)
  case (1 cmp sep p)
  then show ?case by (subst (1 2) skip_sep.simps) (auto simp: proper_sep_def)
qed

lemma strncmp0_Nil [simp]: "proper_sep sep \<Longrightarrow> \<not> strncmp0 [] sep (length sep)"
  by (auto simp: strncmp0_iff proper_sep_def)

lemma strncasecmp0_Nil [simp]: "proper_sep sep \<Longrightarrow> \<not> strncasecmp0 [] sep (length sep)"
  by (auto simp: strncasecmp0_iff proper_sep_def)

lemma skip_sep_c_returns:
  assumes "proper_sep sep" and "\<not> cmp [] sep (length sep)"
  shows "skip_sep_c cmp sep p = Some (skip_sep cmp sep p)"
  using assms
proof (induction cmp sep p rule: skip_sep.induct)
  case (1 cmp sep p)
  then show ?case
    by (subst skip_sep_c.simps, subst skip_sep.simps) (auto simp: proper_sep_def)
qed

lemma skip_sep_c_diverges:
  assumes always: "\<And>p. cmp p [] 0"
  shows "skip_sep_c cmp [] p = None"
proof (rule ccontr)
  assume "skip_sep_c cmp [] p \<noteq> None"
  then obtain r where r: "skip_sep_c cmp [] p = Some r" by blast
  have "cmp = cmp \<longrightarrow> [] = ([] :: string) \<longrightarrow> False"
  proof (rule skip_sep_c.raw_induct
      [where P = "\<lambda>c sep p r. c = cmp \<longrightarrow> sep = [] \<longrightarrow> False", OF _ r])
    fix f c sep p r
    assume IH: "\<And>c sep p r. f c sep p = Some r \<Longrightarrow> c = cmp \<longrightarrow> sep = [] \<longrightarrow> False"
      and eq: "(if c p sep (length sep) then f c sep (drop (length sep) p) else Some p) = Some r"
    show "c = cmp \<longrightarrow> sep = [] \<longrightarrow> False"
      using eq IH [of c sep "drop (length sep) p" r] always by (auto split: if_splits)
  qed
  then show False by simp
qed

section \<open>Token\<close>

text \<open>
  Token (uPos, bRest, sSep, bAllowEmpty). The first loop of the search for the start skips
  one separator when empty tokens count and all of them otherwise; a position that is not
  at a separator advances by one byte.
\<close>

function token_start :: "nat \<Rightarrow> string \<Rightarrow> bool \<Rightarrow> string \<Rightarrow> string" where
  "token_start uPos sep ae p =
     (if uPos \<noteq> 0 \<and> p \<noteq> [] then
        (if strncmp0 p sep (length sep)
         then token_start (uPos - 1) sep ae
                (if ae then drop (length sep) p else skip_sep strncmp0 sep (drop (length sep) p))
         else token_start uPos sep ae (tl p))
      else p)"
  by pat_completeness auto
termination
proof (relation "measure (\<lambda>(uPos, sep, ae, p). uPos + length p)", goal_cases)
  case (2 uPos sep ae p)
  have "length (skip_sep strncmp0 sep (drop (length sep) p)) \<le> length p"
    using length_skip_sep [of strncmp0 sep "drop (length sep) p"] by simp
  with 2 show ?case by auto
qed auto

declare token_start.simps [simp del]

fun token_take :: "string \<Rightarrow> string \<Rightarrow> string" where
  "token_take sep [] = []"
| "token_take sep (c # p) =
     (if strncmp0 (c # p) sep (length sep) then [] else c # token_take sep p)"

definition Token :: "string \<Rightarrow> nat \<Rightarrow> bool \<Rightarrow> string \<Rightarrow> bool \<Rightarrow> string" where
  "Token s uPos bRest sSep bAllowEmpty =
     (let p0 = (if bAllowEmpty then s else skip_sep strncmp0 sSep s);
          p1 = token_start uPos sSep bAllowEmpty p0
      in if p1 = [] then [] else if bRest then p1 else token_take sSep p1)"

text \<open>The default separator is one blank, empty tokens not counted.\<close>

abbreviation token :: "string \<Rightarrow> nat \<Rightarrow> string" where
  "token s n \<equiv> Token s n False '' '' False"

abbreviation token_rest :: "string \<Rightarrow> nat \<Rightarrow> string" where
  "token_rest s n \<equiv> Token s n True '' '' False"

text \<open>The same function with the loops as the C++ runs them: None when it does not return.\<close>

partial_function (option) token_start_c :: "nat \<Rightarrow> string \<Rightarrow> bool \<Rightarrow> string \<Rightarrow> string option" where
  "token_start_c uPos sep ae p =
     (if uPos \<noteq> 0 \<and> p \<noteq> [] then
        (if strncmp0 p sep (length sep)
         then if ae then token_start_c (uPos - 1) sep ae (drop (length sep) p)
              else Option.bind (skip_sep_c strncmp0 sep (drop (length sep) p))
                     (token_start_c (uPos - 1) sep ae)
         else token_start_c uPos sep ae (tl p))
      else Some p)"

declare token_start_c.simps [code]

definition Token_c :: "string \<Rightarrow> nat \<Rightarrow> bool \<Rightarrow> string \<Rightarrow> bool \<Rightarrow> string option" where
  "Token_c s uPos bRest sSep bAllowEmpty =
     Option.bind (if bAllowEmpty then Some s else skip_sep_c strncmp0 sSep s) (\<lambda>p0.
     Option.bind (token_start_c uPos sSep bAllowEmpty p0) (\<lambda>p1.
       Some (if p1 = [] then [] else if bRest then p1 else token_take sSep p1)))"

lemma token_start_c_returns:
  "proper_sep sep \<Longrightarrow> token_start_c uPos sep ae p = Some (token_start uPos sep ae p)"
proof (induction uPos sep ae p rule: token_start.induct)
  case (1 uPos sep ae p)
  then show ?case
    by (subst token_start_c.simps, subst token_start.simps)
       (auto simp: skip_sep_c_returns)
qed

lemma Token_c_returns: "proper_sep sep \<Longrightarrow> Token_c s n r sep ae = Some (Token s n r sep ae)"
  by (simp add: Token_c_def Token_def Let_def token_start_c_returns skip_sep_c_returns)

lemma Token_c_empty_sep: "Token_c s n r [] False = None"
  by (simp add: Token_c_def skip_sep_c_diverges strncmp0_def)

lemma token_start_0 [simp]: "token_start 0 sep ae p = p"
  by (subst token_start.simps) simp

lemma token_start_Nil [simp]: "token_start n sep ae [] = []"
  by (subst token_start.simps) simp

lemma token_take_no_sep:
  assumes "\<And>a b. p = a @ b \<Longrightarrow> b \<noteq> [] \<Longrightarrow> \<not> strncmp0 (b @ q) sep (length sep)"
    and "strncmp0 q sep (length sep) \<or> q = []"
  shows "token_take sep (p @ q) = p"
  using assms(1)
proof (induction p)
  case Nil
  show ?case using assms(2) by (cases q) auto
next
  case (Cons c p)
  from Cons.prems [of "[]" "c # p"] have "\<not> strncmp0 (c # p @ q) sep (length sep)" by simp
  moreover have "token_take sep (p @ q) = p"
    by (rule Cons.IH) (metis Cons.prems append_Cons)
  ultimately show ?case by simp
qed

section \<open>Split\<close>

text \<open>
  The state of the loop: the pointer, the token being built, whether it is inside the
  delimiters, and the tokens found so far.
\<close>

function split_loop ::
    "string \<Rightarrow> bool \<Rightarrow> string \<Rightarrow> string \<Rightarrow> bool \<Rightarrow> bool \<Rightarrow>
     string \<Rightarrow> string \<Rightarrow> bool \<Rightarrow> string list \<Rightarrow> string list" where
  "split_loop delim ae left right tq tw p tmp inside acc =
     (if chd p = NUL then
        (if tmp \<noteq> [] then acc @ [if tw then Trim_n ws tmp else tmp] else acc)
      else if left \<noteq> [] \<and> right \<noteq> [] \<and> \<not> inside \<and> strncasecmp0 p left (length left) then
        split_loop delim ae left right tq tw (drop (length left) p)
          (if tq then tmp else tmp @ left) True acc
      else if left \<noteq> [] \<and> right \<noteq> [] \<and> inside \<and> strncasecmp0 p right (length right) then
        split_loop delim ae left right tq tw (drop (length right) p)
          (if tq then tmp else tmp @ right) False acc
      else if delim \<noteq> [] \<and> \<not> inside \<and> strncasecmp0 p delim (length delim) then
        split_loop delim ae left right tq tw
          (if ae then drop (length delim) p
           else skip_sep strncasecmp0 delim (drop (length delim) p))
          [] False (acc @ [if tw then Trim_n ws tmp else tmp])
      else split_loop delim ae left right tq tw (tl p) (tmp @ [hd p]) inside acc)"
  by pat_completeness auto
termination
proof (relation "measure (\<lambda>(delim, ae, left, right, tq, tw, p, tmp, inside, acc). length p)",
    goal_cases)
  case (4 delim ae left right tq tw p tmp inside acc)
  then have "p \<noteq> []" using chd_not_NUL by blast
  moreover have "length (skip_sep strncasecmp0 delim (drop (length delim) p)) \<le> length p - length delim"
    using length_skip_sep [of strncasecmp0 delim "drop (length delim) p"] by simp
  ultimately show ?case using 4 by (cases p; cases delim) auto
qed (simp_all add: chd_not_NUL)

declare split_loop.simps [simp del]

definition Split ::
    "string \<Rightarrow> string \<Rightarrow> bool \<Rightarrow> string \<Rightarrow> string \<Rightarrow> bool \<Rightarrow> bool \<Rightarrow> string list" where
  "Split s sDelim bAllowEmpty sLeft sRight bTrimQuotes bTrimWhiteSpace =
     (if s = [] then []
      else split_loop sDelim bAllowEmpty sLeft sRight bTrimQuotes bTrimWhiteSpace
             (if bAllowEmpty then s else skip_sep strncasecmp0 sDelim s) [] False [])"

text \<open>Split with the default quoting arguments (no quotes, no trimming).\<close>

abbreviation split_plain :: "string \<Rightarrow> string \<Rightarrow> bool \<Rightarrow> string list" where
  "split_plain s d ae \<equiv> Split s d ae [] [] True False"

text \<open>Split into a set.\<close>

definition Split_set ::
    "string \<Rightarrow> string \<Rightarrow> bool \<Rightarrow> string \<Rightarrow> string \<Rightarrow> bool \<Rightarrow> bool \<Rightarrow> string list" where
  "Split_set s sDelim bAllowEmpty sLeft sRight bTrimQuotes bTrimWhiteSpace =
     fold os_insert (Split s sDelim bAllowEmpty sLeft sRight bTrimQuotes bTrimWhiteSpace) []"

definition QuoteSplit :: "string \<Rightarrow> string list" where
  "QuoteSplit s = Split s '' '' False [CHR 0x22] [CHR 0x22] True False"

text \<open>Token with delimiters around quoted parts: the tokens of Split, or the plain Token.\<close>

definition Token_q ::
    "string \<Rightarrow> nat \<Rightarrow> bool \<Rightarrow> string \<Rightarrow> bool \<Rightarrow> string \<Rightarrow> string \<Rightarrow> bool \<Rightarrow> string" where
  "Token_q s uPos bRest sSep bAllowEmpty sLeft sRight bTrimQuotes =
     (let vsTokens = Split s sSep bAllowEmpty sLeft sRight bTrimQuotes False
      in if length vsTokens > uPos
         then if bRest then Join sSep (drop uPos vsTokens) else vsTokens ! uPos
         else Token s uPos bRest sSep bAllowEmpty)"

section \<open>What Split and Token compute for a one-byte separator\<close>

text \<open>The pieces of a string between the occurrences of a byte: a reference definition.\<close>

fun sep_fields :: "char \<Rightarrow> string \<Rightarrow> string list" where
  "sep_fields d [] = [[]]"
| "sep_fields d (c # s) =
     (if c = d then [] # sep_fields d s
      else (c # hd (sep_fields d s)) # tl (sep_fields d s))"

definition drop_last_empty :: "string list \<Rightarrow> string list" where
  "drop_last_empty fs = (if last fs = [] then butlast fs else fs)"

text \<open>A byte that is its own case class, as every separator the code uses.\<close>

definition sep_char :: "char \<Rightarrow> bool" where
  "sep_char d \<longleftrightarrow> d \<noteq> NUL \<and> \<not> isupper_c d \<and> \<not> islower_c d"

lemma sep_char_tolower: "sep_char d \<Longrightarrow> tolower_c c = tolower_c d \<longleftrightarrow> c = d"
  using tolower_is_nonalpha [of d c] by (auto simp: sep_char_def tolower_nonalpha)

lemma sep_char_cmp [simp]: "sep_char d \<Longrightarrow> strncasecmp0 p [d] (Suc 0) \<longleftrightarrow> chd p = d"
  by (simp add: sep_char_def sep_char_tolower)

lemma sep_char_not_NUL: "sep_char d \<Longrightarrow> d \<noteq> NUL"
  by (simp add: sep_char_def)

lemma fields_nonempty [simp]: "sep_fields d s \<noteq> []"
  by (cases s) auto

lemma Join_fields: "Join [d] (sep_fields d s) = s"
proof (induction s)
  case (Cons c s)
  show ?case
  proof (cases "sep_fields d s")
    case (Cons f fs)
    with Cons.IH show ?thesis by (auto simp: Join_Cons split: if_splits)
  qed simp
qed simp

lemma fields_no_sep: "\<forall>t \<in> set (sep_fields d s). d \<notin> set t"
proof (induction s)
  case (Cons c s)
  then show ?case by (cases "sep_fields d s") auto
qed simp

lemma fields_atom: "d \<notin> set t \<Longrightarrow> sep_fields d t = [t]"
  by (induction t) auto

lemma fields_append: "d \<notin> set t \<Longrightarrow> sep_fields d (t @ d # s) = t # sep_fields d s"
  by (induction t) auto

lemma fields_Join:
  "ts \<noteq> [] \<Longrightarrow> \<forall>t \<in> set ts. d \<notin> set t \<Longrightarrow> sep_fields d (Join [d] ts) = ts"
proof (induction ts)
  case (Cons t ts)
  then show ?case by (cases "ts = []") (simp_all add: Join_Cons fields_atom fields_append)
qed simp

lemma skip_sep_single:
  assumes "\<And>p. cmp p [d] (Suc 0) \<longleftrightarrow> chd p = d"
  shows "skip_sep cmp [d] p = dropWhile (\<lambda>c. c = d) p"
proof (induction p)
  case (Cons c p)
  show ?case by (subst skip_sep.simps) (simp add: assms Cons)
qed simp

lemma fields_dropWhile:
  "filter (\<lambda>t. t \<noteq> []) (sep_fields d (dropWhile (\<lambda>c. c = d) p)) = filter (\<lambda>t. t \<noteq> []) (sep_fields d p)"
  by (induction p) auto

lemma chd_dropWhile [simp]: "d \<noteq> NUL \<Longrightarrow> chd (dropWhile (\<lambda>c. c = d) q) \<noteq> d"
  by (induction q) auto

lemma nul_free_dropWhile [simp, intro]: "nul_free q \<Longrightarrow> nul_free (dropWhile P q)"
  by (auto simp: nul_free_def dest: set_dropWhileD)

lemma drop_last_empty_Cons: "fs \<noteq> [] \<Longrightarrow> drop_last_empty (f # fs) = f # drop_last_empty fs"
  by (simp add: drop_last_empty_def)

lemma split_loop_keep_empty:
  assumes d: "sep_char d" and "nul_free p"
  shows "split_loop [d] True [] [] tq False p tmp False acc =
         acc @ drop_last_empty ((tmp @ hd (sep_fields d p)) # tl (sep_fields d p))"
  using assms(2)
proof (induction p arbitrary: tmp acc)
  case Nil
  show ?case by (subst split_loop.simps) (simp add: drop_last_empty_def)
next
  case (Cons c p)
  show ?case
  proof (cases "c = d")
    case True
    with Cons d have "split_loop [d] True [] [] tq False (c # p) tmp False acc =
        split_loop [d] True [] [] tq False p [] False (acc @ [tmp])"
      by (subst split_loop.simps) simp
    also have "\<dots> = (acc @ [tmp]) @ drop_last_empty (sep_fields d p)"
      using Cons.IH [of "[]" "acc @ [tmp]"] Cons.prems by simp
    finally show ?thesis using True by (simp add: drop_last_empty_Cons)
  next
    case False
    with Cons d have "split_loop [d] True [] [] tq False (c # p) tmp False acc =
        split_loop [d] True [] [] tq False p (tmp @ [c]) False acc"
      by (subst split_loop.simps) simp
    with False Cons show ?thesis by simp
  qed
qed

lemma split_loop_drop_empty:
  assumes d: "sep_char d" and "nul_free p" and "tmp \<noteq> [] \<or> chd p \<noteq> d"
  shows "split_loop [d] False [] [] tq False p tmp False acc =
         acc @ filter (\<lambda>t. t \<noteq> []) ((tmp @ hd (sep_fields d p)) # tl (sep_fields d p))"
  using assms(2,3)
proof (induction "length p" arbitrary: p tmp acc rule: less_induct)
  case less
  note skip = skip_sep_single [of strncasecmp0 d, OF sep_char_cmp [OF d]]
  show ?case
  proof (cases p)
    case Nil
    then show ?thesis by (subst split_loop.simps) simp
  next
    case (Cons c q)
    show ?thesis
    proof (cases "c = d")
      case True
      let ?r = "dropWhile (\<lambda>c. c = d) q"
      have step: "split_loop [d] False [] [] tq False p tmp False acc =
          split_loop [d] False [] [] tq False ?r [] False (acc @ [tmp])"
        using less.prems True d by (subst split_loop.simps) (simp add: Cons skip)
      have r: "nul_free ?r" "chd ?r \<noteq> d"
        using less.prems sep_char_not_NUL [OF d] by (auto simp: Cons)
      have "length ?r < length p" by (simp add: Cons length_dropWhile_le less_Suc_eq_le)
      from less.hyps [OF this r(1), of "[]" "acc @ [tmp]"] r(2)
      have "split_loop [d] False [] [] tq False ?r [] False (acc @ [tmp]) =
          (acc @ [tmp]) @ filter (\<lambda>t. t \<noteq> []) (sep_fields d ?r)"
        by (simp del: filter.simps)
      with step fields_dropWhile [of d q] True less.prems show ?thesis by (simp add: Cons)
    next
      case False
      then have "split_loop [d] False [] [] tq False p tmp False acc =
          split_loop [d] False [] [] tq False q (tmp @ [c]) False acc"
        using less.prems d by (subst split_loop.simps) (simp add: Cons)
      with less.hyps [of q "tmp @ [c]" acc] less.prems False show ?thesis by (simp add: Cons)
    qed
  qed
qed

lemma Split_keep_empty:
  "sep_char d \<Longrightarrow> nul_free s \<Longrightarrow>
   Split s [d] True [] [] tq False = drop_last_empty (sep_fields d s)"
  by (simp add: Split_def split_loop_keep_empty drop_last_empty_def)

lemma Split_drop_empty:
  assumes "sep_char d" and "nul_free s"
  shows "Split s [d] False [] [] tq False = filter (\<lambda>t. t \<noteq> []) (sep_fields d s)"
proof (cases "s = []")
  case False
  note skip = skip_sep_single [of strncasecmp0 d, OF sep_char_cmp [OF assms(1)]]
  let ?r = "dropWhile (\<lambda>c. c = d) s"
  have r: "nul_free ?r" "chd ?r \<noteq> d"
    using assms sep_char_not_NUL [OF assms(1)] by auto
  have "Split s [d] False [] [] tq False = filter (\<lambda>t. t \<noteq> []) (sep_fields d ?r)"
    using split_loop_drop_empty [OF assms(1) r(1), of "[]" tq "[]"] r(2) False
    by (simp add: Split_def skip)
  then show ?thesis by (simp add: fields_dropWhile)
qed (simp add: Split_def)

text \<open>Token counts the non-empty fields.\<close>

lemma skip_sep_strncmp [simp]: "d \<noteq> NUL \<Longrightarrow> skip_sep strncmp0 [d] p = dropWhile (\<lambda>c. c = d) p"
  by (rule skip_sep_single) simp

lemma token_take_single [simp]:
  "d \<noteq> NUL \<Longrightarrow> token_take [d] p = takeWhile (\<lambda>c. c \<noteq> d) p"
  by (induction p) auto

lemma token_start_single:
  "d \<noteq> NUL \<Longrightarrow> token_start (Suc n) [d] False p =
     token_start n [d] False (dropWhile (\<lambda>c. c = d) (dropWhile (\<lambda>c. c \<noteq> d) p))"
proof (induction p)
  case (Cons c p)
  then show ?case by (subst token_start.simps) simp
qed simp

definition nonempty_fields :: "char \<Rightarrow> string \<Rightarrow> string list" where
  "nonempty_fields d s = filter (\<lambda>t. t \<noteq> []) (sep_fields d s)"

lemma nonempty_fields_dropWhile [simp]:
  "nonempty_fields d (dropWhile (\<lambda>c. c = d) p) = nonempty_fields d p"
  by (simp add: nonempty_fields_def fields_dropWhile)

lemma fields_takeWhile:
  "sep_fields d p = takeWhile (\<lambda>c. c \<noteq> d) p #
     (case dropWhile (\<lambda>c. c \<noteq> d) p of [] \<Rightarrow> [] | _ # q \<Rightarrow> sep_fields d q)"
  by (induction p) auto

lemma nonempty_fields_Nil [simp]: "nonempty_fields d [] = []"
  by (simp add: nonempty_fields_def)

lemma nonempty_fields_next:
  assumes "p \<noteq> []" and "hd p \<noteq> d"
  shows "nonempty_fields d p =
    takeWhile (\<lambda>c. c \<noteq> d) p # nonempty_fields d (dropWhile (\<lambda>c. c \<noteq> d) p)"
proof -
  have t: "takeWhile (\<lambda>c. c \<noteq> d) p \<noteq> []" using assms by (cases p) auto
  show ?thesis
  proof (cases "dropWhile (\<lambda>c. c \<noteq> d) p")
    case Nil
    with t show ?thesis
      unfolding nonempty_fields_def
      by (subst fields_takeWhile) (simp add: Nil del: takeWhile_eq_Nil_iff dropWhile_eq_Nil_conv)
  next
    case (Cons c q)
    have "c = d" using hd_dropWhile [of "\<lambda>c. c \<noteq> d" p] Cons by force
    with t Cons show ?thesis
      unfolding nonempty_fields_def by (subst fields_takeWhile) (simp del: takeWhile_eq_Nil_iff)
  qed
qed

definition nth_or_empty :: "string list \<Rightarrow> nat \<Rightarrow> string" where
  "nth_or_empty fs n = (if n < length fs then fs ! n else [])"

lemma nth_or_empty_simps [simp]:
  "nth_or_empty [] n = []"
  "nth_or_empty (f # fs) 0 = f"
  "nth_or_empty (f # fs) (Suc n) = nth_or_empty fs n"
  by (simp_all add: nth_or_empty_def)

lemma token_start_field:
  assumes "d \<noteq> NUL" and "p = [] \<or> hd p \<noteq> d"
  shows "takeWhile (\<lambda>c. c \<noteq> d) (token_start n [d] False p) = nth_or_empty (nonempty_fields d p) n"
  using assms(2)
proof (induction n arbitrary: p)
  case 0
  then show ?case by (cases "p = []") (auto simp: nonempty_fields_next)
next
  case (Suc n)
  show ?case
  proof (cases "p = []")
    case False
    let ?q = "dropWhile (\<lambda>c. c = d) (dropWhile (\<lambda>c. c \<noteq> d) p)"
    have "?q = [] \<or> hd ?q \<noteq> d" using hd_dropWhile by blast
    with Suc.IH [of ?q] Suc.prems False show ?thesis
      by (simp add: token_start_single assms(1) nonempty_fields_next)
  qed simp
qed

lemma Token_nth_field:
  assumes "d \<noteq> NUL"
  shows "Token s n False [d] False = nth_or_empty (nonempty_fields d s) n"
proof -
  let ?p = "dropWhile (\<lambda>c. c = d) s"
  have "?p = [] \<or> hd ?p \<noteq> d" using hd_dropWhile by blast
  from token_start_field [OF assms this, of n] assms show ?thesis
    by (auto simp: Token_def Let_def)
qed

lemma Token_rest_sep:
  "d \<noteq> NUL \<Longrightarrow> Token s 1 True [d] False =
     dropWhile (\<lambda>c. c = d) (dropWhile (\<lambda>c. c \<noteq> d) (dropWhile (\<lambda>c. c = d) s))"
  by (simp add: Token_def Let_def token_start_single del: dropWhile_eq_Nil_conv)

lemma takeWhile_before: "d \<notin> set w \<Longrightarrow> takeWhile (\<lambda>c. c \<noteq> d) (w @ d # r) = w"
  "d \<notin> set w \<Longrightarrow> dropWhile (\<lambda>c. c \<noteq> d) (w @ d # r) = d # r"
  by (induction w) auto

text \<open>The first token of a word followed by the separator, and what follows it.\<close>

lemma Token_first:
  assumes "d \<noteq> NUL" "w \<noteq> []" "d \<notin> set w"
  shows "Token (w @ d # r) 0 False [d] False = w" "Token w 0 False [d] False = w"
    "r \<noteq> [] \<longrightarrow> hd r \<noteq> d \<Longrightarrow> Token (w @ d # r) 1 True [d] False = r"
    "Token w 1 True [d] False = []"
proof -
  have h: "dropWhile (\<lambda>c. c = d) (w @ x) = w @ x" for x using assms by (cases w) auto
  show "Token (w @ d # r) 0 False [d] False = w" "Token w 0 False [d] False = w"
    using assms h [of "[]"] h [of "d # r"] takeWhile_before(1) [OF assms(3), of r]
    by (simp_all add: Token_def Let_def takeWhile_eq_all_conv del: dropWhile_eq_Nil_conv) auto
  have "dropWhile (\<lambda>c. c = d) w = w" "dropWhile (\<lambda>c. c \<noteq> d) w = []"
    using h [of "[]"] assms(3) by (auto simp: dropWhile_eq_Nil_conv)
  then show "Token w 1 True [d] False = []" unfolding Token_rest_sep [OF assms(1)] by simp
  assume "r \<noteq> [] \<longrightarrow> hd r \<noteq> d"
  then have "dropWhile (\<lambda>c. c = d) r = r" by (cases r) auto
  then show "Token (w @ d # r) 1 True [d] False = r"
    unfolding Token_rest_sep [OF assms(1)] h takeWhile_before(2) [OF assms(3)] by simp
qed

lemma Token_skip:
  assumes "d \<noteq> NUL" "w \<noteq> []" "d \<notin> set w" "r \<noteq> [] \<longrightarrow> hd r \<noteq> d"
  shows "Token (w @ d # r) (Suc n) b [d] False = Token r n b [d] False"
proof -
  have h: "dropWhile (\<lambda>c. c = d) (w @ d # r) = w @ d # r" using assms by (cases w) auto
  have r: "dropWhile (\<lambda>c. c = d) r = r" using assms(4) by (cases r) auto
  have "token_start (Suc n) [d] False (w @ d # r) = token_start n [d] False r"
    unfolding token_start_single [OF assms(1)] takeWhile_before(2) [OF assms(3)] by (simp add: r)
  then show ?thesis using assms(1) by (simp add: Token_def Let_def h r)
qed

lemma hd_not_blank: "a \<noteq> [] \<Longrightarrow> CHR '' '' \<notin> set a \<Longrightarrow> hd a \<noteq> CHR '' ''"
  by (cases a) auto

lemma Token_rest_0: "d \<noteq> NUL \<Longrightarrow> s \<noteq> [] \<longrightarrow> hd s \<noteq> d \<Longrightarrow> Token s 0 True [d] False = s"
  by (cases s) (auto simp: Token_def Let_def)

lemma Token_Nil [simp]: "Token [] n b sep ae = []"
  by (simp add: Token_def Let_def)

lemma Join_hd: "us \<noteq> [] \<Longrightarrow> hd us \<noteq> [] \<Longrightarrow> Join sep us \<noteq> [] \<and> hd (Join sep us) = hd (hd us)"
  by (cases us) (auto simp: Join_Cons)

section \<open>Replace\<close>

text \<open>
  \<open>Replace\<close>: the state of the loop is the pointer, the output, the flag inside the
  delimiters and the count. A match of width w moves the pointer by w; \<open>Replace_c\<close> is the
  loop as it runs (an empty pattern matches without moving), \<open>replace_loop\<close> its total version.
\<close>

partial_function (option) replace_loop_c ::
    "string \<Rightarrow> string \<Rightarrow> string \<Rightarrow> string \<Rightarrow> bool \<Rightarrow> string \<Rightarrow> string \<Rightarrow> bool \<Rightarrow> nat \<Rightarrow>
     (nat \<times> string) option" where
  "replace_loop_c rep wth left right rd p out inside n =
     (if chd p = NUL then Some (n, out)
      else if \<not> inside \<and> left \<noteq> [] \<and> strncmp0 p left (length left) then
        replace_loop_c rep wth left right rd (drop (length left) p)
          (if rd then out else out @ left) True n
      else if inside \<and> right \<noteq> [] \<and> strncmp0 p right (length right) then
        replace_loop_c rep wth left right rd (drop (length right) p)
          (if rd then out else out @ right) False n
      else if \<not> inside \<and> strncmp0 p rep (length rep) then
        replace_loop_c rep wth left right rd (drop (length rep) p) (out @ wth) inside (n + 1)
      else replace_loop_c rep wth left right rd (tl p) (out @ [chd p]) inside n)"

declare replace_loop_c.simps [code]

definition Replace_c ::
    "string \<Rightarrow> string \<Rightarrow> string \<Rightarrow> string \<Rightarrow> string \<Rightarrow> bool \<Rightarrow> (nat \<times> string) option" where
  "Replace_c s sReplace sWith sLeft sRight bRemoveDelims =
     replace_loop_c sReplace sWith sLeft sRight bRemoveDelims s [] False 0"

function replace_loop ::
    "string \<Rightarrow> string \<Rightarrow> string \<Rightarrow> string \<Rightarrow> bool \<Rightarrow> string \<Rightarrow> string \<Rightarrow> bool \<Rightarrow> nat \<Rightarrow>
     nat \<times> string" where
  "replace_loop rep wth left right rd p out inside n =
     (if chd p = NUL then (n, out)
      else if \<not> inside \<and> left \<noteq> [] \<and> strncmp0 p left (length left) then
        replace_loop rep wth left right rd (drop (length left) p)
          (if rd then out else out @ left) True n
      else if inside \<and> right \<noteq> [] \<and> strncmp0 p right (length right) then
        replace_loop rep wth left right rd (drop (length right) p)
          (if rd then out else out @ right) False n
      else if \<not> inside \<and> rep \<noteq> [] \<and> strncmp0 p rep (length rep) then
        replace_loop rep wth left right rd (drop (length rep) p) (out @ wth) inside (n + 1)
      else replace_loop rep wth left right rd (tl p) (out @ [chd p]) inside n)"
  by pat_completeness auto
termination
  by (relation "measure (\<lambda>(rep, wth, left, right, rd, p, out, inside, n). length p)")
     (auto simp: chd_not_NUL)

declare replace_loop.simps [simp del]

definition Replace_n :: "string \<Rightarrow> string \<Rightarrow> string \<Rightarrow> string" where
  "Replace_n s sReplace sWith = snd (replace_loop sReplace sWith [] [] False s [] False 0)"

lemma replace_loop_c_returns:
  "rep \<noteq> [] \<Longrightarrow> replace_loop_c rep wth left right rd p out inside n =
     Some (replace_loop rep wth left right rd p out inside n)"
proof (induction rep wth left right rd p out inside n rule: replace_loop.induct)
  case (1 rep wth left right rd p out inside n)
  then show ?case
    by (subst replace_loop_c.simps, subst replace_loop.simps) (auto simp: Let_def)
qed

lemma Replace_c_returns: "sReplace \<noteq> [] \<Longrightarrow> Replace_c s sReplace sWith [] [] False =
    Some (fst (replace_loop sReplace sWith [] [] False s [] False 0), Replace_n s sReplace sWith)"
  by (simp add: Replace_c_def Replace_n_def replace_loop_c_returns)

lemma Replace_c_empty_pattern:
  assumes "chd s \<noteq> NUL"
  shows "Replace_c s [] sWith [] [] rd = None"
proof (rule ccontr)
  assume "Replace_c s [] sWith [] [] rd \<noteq> None"
  then obtain r where r: "replace_loop_c [] sWith [] [] rd s [] False 0 = Some r"
    by (auto simp: Replace_c_def)
  have "[] = ([] :: string) \<and> [] = ([] :: string) \<and> chd s \<noteq> NUL \<and> \<not> False \<longrightarrow> False"
  proof (rule replace_loop_c.raw_induct
      [where P = "\<lambda>rep wth left right rd p out inside n r.
         rep = [] \<and> left = [] \<and> chd p \<noteq> NUL \<and> \<not> inside \<longrightarrow> False", OF _ r])
    fix f rep wth left right rd p out inside n r
    assume IH: "\<And>rep wth left right rd p out inside n r.
        f rep wth left right rd p out inside n = Some r \<Longrightarrow>
        rep = [] \<and> left = [] \<and> chd p \<noteq> NUL \<and> \<not> inside \<longrightarrow> False"
      and eq: "(if chd p = NUL then Some (n, out)
      else if \<not> inside \<and> left \<noteq> [] \<and> strncmp0 p left (length left) then
        f rep wth left right rd (drop (length left) p)
          (if rd then out else out @ left) True n
      else if inside \<and> right \<noteq> [] \<and> strncmp0 p right (length right) then
        f rep wth left right rd (drop (length right) p)
          (if rd then out else out @ right) False n
      else if \<not> inside \<and> strncmp0 p rep (length rep) then
        f rep wth left right rd (drop (length rep) p) (out @ wth) inside (n + 1)
      else f rep wth left right rd (tl p) (out @ [chd p]) inside n) = Some r"
    show "rep = [] \<and> left = [] \<and> chd p \<noteq> NUL \<and> \<not> inside \<longrightarrow> False"
      using eq IH [of rep wth left right rd p "out @ wth" inside "n + 1" r]
      by (auto simp: strncmp0_def split: if_splits)
  qed
  with assms show False by simp
qed

text \<open>For a one-byte pattern Replace substitutes byte by byte.\<close>

lemma Replace_n_single:
  assumes "d \<noteq> NUL" and "nul_free s"
  shows "Replace_n s [d] w = concat (map (\<lambda>c. if c = d then w else [c]) s)"
proof -
  have "snd (replace_loop [d] w [] [] False s out False n) =
      out @ concat (map (\<lambda>c. if c = d then w else [c]) s)" for out n
    using assms(2)
  proof (induction s arbitrary: out n)
    case Nil
    show ?case by (subst replace_loop.simps) simp
  next
    case (Cons c s)
    then show ?case using assms(1) by (subst replace_loop.simps) simp
  qed
  then show ?thesis by (simp add: Replace_n_def)
qed

end
