(* ===== verification/Cstring_Num.thy ===== *)
theory Cstring_Num imports Tokens begin

text \<open>
  Numbers in CString (src/ZNCString.cpp): the conversions \<open>ToShort\<close> to \<open>ToULongLong\<close> with
  strtol and strtoul of the C library as they are specified (leading blanks, sign, the
  0x prefix of base 16, saturation at the ends of a 64-bit long, the place where parsing
  stops), \<open>ToBool\<close>, the decimal printing of the integer constructors, \<open>ToByteStr\<close> and
  \<open>ToTimeStr\<close>. Values are nat or int with the width of the C++ type written out.
\<close>

section \<open>strtol and strtoul\<close>

definition digit_val :: "char \<Rightarrow> nat option" where
  "digit_val c =
     (if isdigit_c c then Some (byte c - 48)
      else if islower_c c then Some (byte c - 97 + 10)
      else if isupper_c c then Some (byte c - 65 + 10)
      else None)"

definition is_digit_of :: "nat \<Rightarrow> char \<Rightarrow> bool" where
  "is_digit_of base c \<longleftrightarrow> (case digit_val c of Some d \<Rightarrow> d < base | None \<Rightarrow> False)"

fun scan_digits :: "nat \<Rightarrow> nat \<Rightarrow> string \<Rightarrow> nat \<times> string" where
  "scan_digits base acc [] = (acc, [])"
| "scan_digits base acc (c # p) =
     (if is_digit_of base c then scan_digits base (acc * base + the (digit_val c)) p
      else (acc, c # p))"

definition skip_0x :: "nat \<Rightarrow> string \<Rightarrow> string" where
  "skip_0x base p =
     (case p of
        z # x # d # q \<Rightarrow>
          (if base = 16 \<and> z = CHR ''0'' \<and> tolower_c x = CHR ''x'' \<and> is_digit_of 16 d
           then d # q else p)
      | _ \<Rightarrow> p)"

text \<open>Sign, magnitude and end pointer; without digits the end pointer is the start.\<close>

definition scan_int :: "nat \<Rightarrow> string \<Rightarrow> bool \<times> nat \<times> string" where
  "scan_int base p =
     (let p1 = dropWhile isspace_c p;
          neg = (chd p1 = CHR ''-'');
          p2 = (if chd p1 = CHR ''-'' \<or> chd p1 = CHR ''+'' then tl p1 else p1);
          p3 = skip_0x base p2
      in if p3 \<noteq> [] \<and> is_digit_of base (hd p3)
         then (let (v, r) = scan_digits base 0 p3 in (neg, v, r))
         else (False, 0, p))"

definition strtol :: "nat \<Rightarrow> string \<Rightarrow> int \<times> string" where
  "strtol base p =
     (let (neg, v, r) = scan_int base p
      in (if neg then max (- (2 ^ 63)) (- int v) else min (2 ^ 63 - 1) (int v), r))"

definition strtoul :: "nat \<Rightarrow> string \<Rightarrow> nat \<times> string" where
  "strtoul base p =
     (let (neg, v, r) = scan_int base p
      in (if v \<ge> 2 ^ 64 then 2 ^ 64 - 1
          else if neg then (2 ^ 64 - v) mod 2 ^ 64 else v, r))"

text \<open>A C++ conversion to a signed type of w bits.\<close>

definition to_signed :: "nat \<Rightarrow> int \<Rightarrow> int" where
  "to_signed w i = (i + 2 ^ (w - 1)) mod 2 ^ w - 2 ^ (w - 1)"

definition ToLong :: "string \<Rightarrow> int" where
  "ToLong s = fst (strtol 10 (c_str s))"

definition ToULong :: "string \<Rightarrow> nat" where
  "ToULong s = fst (strtoul 10 (c_str s))"

definition ToInt :: "string \<Rightarrow> int" where
  "ToInt s = to_signed 32 (fst (strtol 10 (c_str s)))"

definition ToUInt :: "string \<Rightarrow> nat" where
  "ToUInt s = fst (strtoul 10 (c_str s)) mod 2 ^ 32"

definition ToShort :: "string \<Rightarrow> int" where
  "ToShort s = to_signed 16 (fst (strtol 10 (c_str s)))"

definition ToUShort :: "string \<Rightarrow> nat" where
  "ToUShort s = fst (strtoul 10 (c_str s)) mod 2 ^ 16"

definition ToULongLong :: "string \<Rightarrow> nat" where
  "ToULongLong s = fst (strtoul 10 (c_str s))"

definition ToLongLong :: "string \<Rightarrow> int" where
  "ToLongLong s = fst (strtol 10 (c_str s))"

definition ToBool :: "string \<Rightarrow> bool" where
  "ToBool s =
     (let sTrimmed = Trim_n ws s
      in Trim_n ''0'' sTrimmed \<noteq> [] \<and> \<not> equals_ci sTrimmed ''false'' \<and>
         \<not> equals_ci sTrimmed ''off'' \<and> \<not> equals_ci sTrimmed ''no'' \<and>
         \<not> equals_ci sTrimmed ''n'')"

lemma ToUShort_bound [simp]: "ToUShort s < 65536"
  by (simp add: ToUShort_def)

lemma ToUInt_bound [simp]: "ToUInt s < 2 ^ 32"
  by (simp add: ToUInt_def)

lemma strtoul_bound: "fst (strtoul base p) < 2 ^ 64"
  by (auto simp: strtoul_def Let_def split: prod.splits)

lemma strtol_bound: "- (2 ^ 63) \<le> fst (strtol base p) \<and> fst (strtol base p) < 2 ^ 63"
  by (auto simp: strtol_def Let_def split: prod.splits)

lemma to_signed_bound:
  assumes "0 < w"
  shows "- (2 ^ (w - 1)) \<le> to_signed w i \<and> to_signed w i < 2 ^ (w - 1)"
proof -
  have "(2::int) ^ w = 2 * 2 ^ (w - 1)" using assms by (cases w) auto
  moreover have "0 \<le> (i + 2 ^ (w - 1)) mod 2 ^ w" "(i + 2 ^ (w - 1)) mod 2 ^ w < 2 ^ w"
    by simp_all
  ultimately show ?thesis unfolding to_signed_def by linarith
qed

section \<open>Decimal printing\<close>

definition digit_char :: "nat \<Rightarrow> char" where
  "digit_char d = char_of (48 + d)"

fun dec :: "nat \<Rightarrow> string" where
  "dec n = (if n < 10 then [digit_char n] else dec (n div 10) @ [digit_char (n mod 10)])"

declare dec.simps [simp del]

definition dec_int :: "int \<Rightarrow> string" where
  "dec_int i = (if i < 0 then CHR ''-'' # dec (nat (- i)) else dec (nat i))"

lemma byte_digit_char [simp]: "d < 10 \<Longrightarrow> byte (digit_char d) = 48 + d"
  by (simp add: digit_char_def)

lemma digit_val_digit_char [simp]: "d < 10 \<Longrightarrow> digit_val (digit_char d) = Some d"
  by (simp add: digit_val_def isdigit_c_def)

lemma is_digit_of_digit_char [simp]: "d < 10 \<Longrightarrow> d < base \<Longrightarrow> is_digit_of base (digit_char d)"
  by (simp add: is_digit_of_def)

lemma dec_nonempty [simp]: "dec n \<noteq> []"
  by (subst dec.simps) simp

lemma dec_digits: "c \<in> set (dec n) \<Longrightarrow> isdigit_c c"
proof (induction n rule: dec.induct)
  case (1 n)
  have "isdigit_c (digit_char d)" if "d < 10" for d
    using that by (simp add: isdigit_c_def)
  with 1 show ?case by (subst (asm) (2) dec.simps) (auto split: if_splits)
qed

lemma scan_digits_append:
  "\<forall>c \<in> set s. is_digit_of base c \<Longrightarrow>
   scan_digits base acc (s @ t) = scan_digits base (fst (scan_digits base acc s)) t"
  by (induction s arbitrary: acc) auto

lemma isdigit_is_digit_of: "isdigit_c c \<Longrightarrow> is_digit_of 10 c"
  by (auto simp: is_digit_of_def digit_val_def ctype_simps)

lemma dec_all_digits [simp]: "\<forall>c \<in> set (dec n). is_digit_of 10 c"
  using dec_digits isdigit_is_digit_of by blast

lemma fst_scan_digits_dec: "fst (scan_digits 10 0 (dec n)) = n"
proof (induction n rule: dec.induct)
  case (1 n)
  then show ?case by (subst dec.simps) (simp add: scan_digits_append)
qed

lemma scan_digits_stop:
  "p = [] \<or> \<not> is_digit_of base (hd p) \<Longrightarrow> scan_digits base acc p = (acc, p)"
  by (cases p) auto

lemma scan_digits_dec:
  "p = [] \<or> \<not> is_digit_of 10 (hd p) \<Longrightarrow> scan_digits 10 0 (dec n @ p) = (n, p)"
  by (simp add: scan_digits_append scan_digits_stop fst_scan_digits_dec)

lemma hd_dec: "isdigit_c (hd (dec n))"
  by (rule dec_digits) (rule hd_in_set, simp)

lemma isdigit_not_special:
  assumes "isdigit_c c"
  shows "c \<noteq> CHR ''-''" "c \<noteq> CHR ''+''" "\<not> isspace_c c" "c \<noteq> NUL" "c \<noteq> CHR '' ''"
  using assms by (auto simp: isdigit_c_def isspace_c_def byte_def)

lemma scan_int_dec:
  assumes "p = [] \<or> \<not> is_digit_of 10 (hd p)"
  shows "scan_int 10 (dec n @ p) = (False, n, p)"
proof -
  obtain c q where d: "dec n = c # q" by (cases "dec n") auto
  have c: "isdigit_c c" using hd_dec [of n] by (simp add: d)
  have "skip_0x 10 (c # q @ p) = c # q @ p" by (simp add: skip_0x_def split: list.split)
  with scan_digits_dec [OF assms, of n] isdigit_not_special [OF c] isdigit_is_digit_of [OF c]
  show ?thesis by (simp add: scan_int_def d Let_def)
qed

lemma nul_free_dec [simp]: "nul_free (dec n)"
  using dec_digits isdigit_not_special(4) by (auto simp: nul_free_def)

lemma ToULong_dec: "n < 2 ^ 64 \<Longrightarrow> ToULong (dec n) = n"
  using scan_int_dec [of "[]" n] by (simp add: ToULong_def strtoul_def)

lemma ToUInt_dec: "n < 2 ^ 32 \<Longrightarrow> ToUInt (dec n) = n"
  using scan_int_dec [of "[]" n] by (simp add: ToUInt_def strtoul_def)

lemma ToUShort_dec: "n < 2 ^ 16 \<Longrightarrow> ToUShort (dec n) = n"
  using scan_int_dec [of "[]" n] by (simp add: ToUShort_def strtoul_def)

section \<open>Sizes and time spans for the user\<close>

definition ToByteStr :: "nat \<Rightarrow> string" where
  "ToByteStr d =
     (let KiB = 1024; MiB = KiB * 1024; GiB = MiB * 1024; TiB = GiB * 1024
      in if d > TiB then dec (d div TiB) @ '' TiB''
         else if d > GiB then dec (d div GiB) @ '' GiB''
         else if d > MiB then dec (d div MiB) @ '' MiB''
         else if d > KiB then dec (d div KiB) @ '' KiB''
         else dec d @ '' B'')"

definition timespan :: "nat \<Rightarrow> string \<Rightarrow> nat \<times> string \<Rightarrow> nat \<times> string" where
  "timespan time str st =
     (let (s, sRet) = st
      in if s \<ge> time then (s mod time, sRet @ dec (s div time) @ str @ '' '') else (s, sRet))"

definition ToTimeStr :: "nat \<Rightarrow> string" where
  "ToTimeStr s =
     (let m = 60; h = m * 60; d = h * 24; w = d * 7; y = d * 365;
          (s', sRet) = timespan 1 ''s'' (timespan m ''m'' (timespan h ''h'' (timespan d ''d''
                         (timespan w ''w'' (timespan y ''y'' (s, []))))))
      in if sRet = [] then ''0s'' else RightChomp_n 1 sRet)"

text \<open>The number of seconds a printed time span stands for, read back field by field.\<close>

definition unit_seconds :: "char \<Rightarrow> nat" where
  "unit_seconds c =
     (if c = CHR ''y'' then 31536000 else if c = CHR ''w'' then 604800
      else if c = CHR ''d'' then 86400 else if c = CHR ''h'' then 3600
      else if c = CHR ''m'' then 60 else if c = CHR ''s'' then 1 else 0)"

definition span_seconds :: "string \<Rightarrow> nat" where
  "span_seconds f = fst (scan_digits 10 0 f) * unit_seconds (last f)"

definition read_TimeStr :: "string \<Rightarrow> nat" where
  "read_TimeStr s = sum_list (map span_seconds (nonempty_fields (CHR '' '') s))"

text \<open>A state of the macro chain: the seconds left and the fields printed so far.\<close>

definition spans_ok :: "nat \<Rightarrow> nat \<times> string \<Rightarrow> bool" where
  "spans_ok tot st \<longleftrightarrow>
     (\<exists>fs. snd st = concat (map (\<lambda>f. f @ '' '') fs) \<and>
           (\<forall>f \<in> set fs. f \<noteq> [] \<and> CHR '' '' \<notin> set f) \<and>
           sum_list (map span_seconds fs) + fst st = tot)"

lemma dec_no_blank [simp]: "CHR '' '' \<notin> set (dec n)"
  using dec_digits isdigit_not_special(5) by blast

lemma is_digit_of_letter: "c \<in> {CHR ''y'', CHR ''w'', CHR ''d'', CHR ''h'', CHR ''m'', CHR ''s''} \<Longrightarrow>
    \<not> is_digit_of 10 c"
  by (auto simp: is_digit_of_def digit_val_def ctype_simps byte_def)

lemma spans_ok_timespan:
  assumes "spans_ok tot st" and "c \<in> {CHR ''y'', CHR ''w'', CHR ''d'', CHR ''h'', CHR ''m'', CHR ''s''}"
    and "time = unit_seconds c"
  shows "spans_ok tot (timespan time [c] st)"
proof -
  obtain s r where st: "st = (s, r)" by (cases st)
  from assms(1) obtain fs where fs: "r = concat (map (\<lambda>f. f @ '' '') fs)"
      "\<forall>f \<in> set fs. f \<noteq> [] \<and> CHR '' '' \<notin> set f" "sum_list (map span_seconds fs) + s = tot"
    by (auto simp: spans_ok_def st)
  show ?thesis
  proof (cases "s \<ge> time")
    case True
    let ?f = "dec (s div time) @ [c]"
    have "span_seconds ?f = s div time * time"
      using assms(2,3) scan_digits_dec [of "[c]" "s div time"] is_digit_of_letter [OF assms(2)]
      by (simp add: span_seconds_def)
    then have "sum_list (map span_seconds (fs @ [?f])) + s mod time = tot"
      using fs(3) by simp
    moreover have "CHR '' '' \<notin> set ?f" using assms(2) by auto
    ultimately show ?thesis using True fs
      unfolding spans_ok_def by (intro exI [of _ "fs @ [?f]"]) (auto simp: timespan_def st)
  next
    case False
    then show ?thesis using assms(1) by (simp add: timespan_def st)
  qed
qed

lemma fields_spans:
  "\<forall>f \<in> set fs. f \<noteq> [] \<and> d \<notin> set f \<Longrightarrow> nonempty_fields d (concat (map (\<lambda>f. f @ [d]) fs)) = fs"
  by (induction fs) (auto simp: nonempty_fields_def fields_append)

lemma nonempty_fields_butlast_sep:
  "nonempty_fields d (s @ [d]) = nonempty_fields d s"
proof -
  have "sep_fields d (s @ [d]) = sep_fields d s @ [[]]" by (induction s) auto
  then show ?thesis by (simp add: nonempty_fields_def)
qed

lemma timespan_last: "fst (timespan 1 str st) = 0"
  by (simp add: timespan_def split: prod.split)

lemma read_ToTimeStr: "read_TimeStr (ToTimeStr s) = s"
proof -
  define st where "st = timespan 1 ''s'' (timespan 60 ''m'' (timespan 3600 ''h'' (timespan 86400 ''d''
      (timespan 604800 ''w'' (timespan 31536000 ''y'' (s, []))))))"
  have "spans_ok s (s, [])" by (auto simp: spans_ok_def intro: exI [of _ "[]"])
  then have ok: "spans_ok s st"
    unfolding st_def by (intro spans_ok_timespan) (simp_all add: unit_seconds_def)
  have zero: "fst st = 0" unfolding st_def by (rule timespan_last)
  from ok obtain fs where fs: "snd st = concat (map (\<lambda>f. f @ '' '') fs)"
      "\<forall>f \<in> set fs. f \<noteq> [] \<and> CHR '' '' \<notin> set f" "sum_list (map span_seconds fs) = s"
    using zero by (auto simp: spans_ok_def)
  have eq: "ToTimeStr s = (if snd st = [] then ''0s'' else take (length (snd st) - 1) (snd st))"
    unfolding st_def by (simp add: ToTimeStr_def split_def Let_def)
  show ?thesis
  proof (cases "fs = []")
    case True
    have "read_TimeStr ''0s'' = 0" by code_simp
    with True fs eq show ?thesis by simp
  next
    case False
    then obtain fs' f where "fs = fs' @ [f]" by (cases fs rule: rev_cases) auto
    then obtain r where r: "snd st = r @ '' ''" using fs(1) by simp
    then have "ToTimeStr s = r" using eq by simp
    then show ?thesis
      using fields_spans [OF fs(2)] fs nonempty_fields_butlast_sep [of "CHR '' ''" r] r
      by (simp add: read_TimeStr_def)
  qed
qed

end
