(* ===== verification/Escape.thy ===== *)
theory Escape imports Cstring_Num begin

text \<open>
  \<open>CString::Escape_n\<close> (src/ZNCString.cpp): one pass that decodes a byte from the format
  \<open>eFrom\<close> and appends it in the format \<open>eTo\<close>. \<open>decode_step\<close> is the first switch: from the
  rest of the input it gives the byte (None where the C++ continues) and how far the loop
  variable moves inside the switch; \<open>encode_char\<close> is the second switch. The locale
  \<open>char_codec\<close> is the contract of a format whose decoder undoes its encoder; every
  byte-wise format is an interpretation of it.
\<close>

unbundle bit_operations_syntax

datatype eescape = EASCII | EURL | EHTML | ESQL | ENAMEDFMT | EDEBUG | EMSGTAG | EHEXCOLON

definition ToEscape :: "string \<Rightarrow> eescape" where
  "ToEscape sEsc =
     (if equals_ci sEsc ''ASCII'' then EASCII
      else if equals_ci sEsc ''HTML'' then EHTML
      else if equals_ci sEsc ''URL'' then EURL
      else if equals_ci sEsc ''SQL'' then ESQL
      else if equals_ci sEsc ''NAMEDFMT'' then ENAMEDFMT
      else if equals_ci sEsc ''DEBUG'' then EDEBUG
      else if equals_ci sEsc ''MSGTAG'' then EMSGTAG
      else if equals_ci sEsc ''HEXCOLON'' then EHEXCOLON
      else EASCII)"

section \<open>Hexadecimal digits\<close>

definition szHex :: string where
  "szHex = ''0123456789ABCDEF''"

definition hex_hi :: "char \<Rightarrow> char" where
  "hex_hi ch = szHex ! (byte ch div 16)"

definition hex_lo :: "char \<Rightarrow> char" where
  "hex_lo ch = szHex ! (byte ch mod 16)"

definition hexv :: "char \<Rightarrow> nat" where
  "hexv c = (if isdigit_c c then byte c - 48 else byte (tolower_c c) - 97 + 10)"

definition hex_pair :: "char \<Rightarrow> char \<Rightarrow> char" where
  "hex_pair h l = char_of (hexv h * 16 + hexv l)"

lemma hex_digit_facts:
  assumes "n < 16"
  shows "isxdigit_c (szHex ! n) \<and> hexv (szHex ! n) = n \<and>
    isxdigit_c (tolower_c (szHex ! n)) \<and> hexv (tolower_c (szHex ! n)) = n \<and>
    szHex ! n \<noteq> NUL \<and> isalnum_c (szHex ! n) \<and> isalnum_c (tolower_c (szHex ! n))"
proof -
  have "list_all (\<lambda>n. isxdigit_c (szHex ! n) \<and> hexv (szHex ! n) = n \<and>
    isxdigit_c (tolower_c (szHex ! n)) \<and> hexv (tolower_c (szHex ! n)) = n \<and>
    szHex ! n \<noteq> NUL \<and> isalnum_c (szHex ! n) \<and> isalnum_c (tolower_c (szHex ! n))) [0..<16]"
    by code_simp
  with assms show ?thesis by (auto simp: list_all_iff)
qed

lemma byte_div_16 [simp]: "byte c div 16 < 16"
  using byte_less [of c] by (simp add: less_mult_imp_div_less)

lemma isxdigit_hex [simp]:
  "isxdigit_c (hex_hi c)" "isxdigit_c (hex_lo c)"
  "isxdigit_c (tolower_c (hex_hi c))" "isxdigit_c (tolower_c (hex_lo c))"
  using hex_digit_facts [of "byte c div 16"] hex_digit_facts [of "byte c mod 16"]
  by (simp_all add: hex_hi_def hex_lo_def)

lemma hex_pair_hex [simp]:
  "hex_pair (hex_hi c) (hex_lo c) = c"
  "hex_pair (tolower_c (hex_hi c)) (tolower_c (hex_lo c)) = c"
  using hex_digit_facts [of "byte c div 16"] hex_digit_facts [of "byte c mod 16"]
  by (simp_all add: hex_pair_def hex_hi_def hex_lo_def)

lemma isalnum_hex [simp]:
  "isalnum_c (hex_hi c)" "isalnum_c (hex_lo c)"
  "isalnum_c (tolower_c (hex_hi c))" "isalnum_c (tolower_c (hex_lo c))"
  using hex_digit_facts [of "byte c div 16"] hex_digit_facts [of "byte c mod 16"]
  by (simp_all add: hex_hi_def hex_lo_def)

section \<open>Decoding one byte\<close>

text \<open>strnchr with the window of 20 bytes and the copy in pTmp.\<close>

definition html_entity :: "string \<Rightarrow> (nat \<times> string) option" where
  "html_entity p =
     (case find_char (CHR '';'') (take 20 (c_str p)) of
        None \<Rightarrow> None
      | Some n \<Rightarrow> Some (n, take (Suc n) p))"

definition html_named :: "string \<Rightarrow> char option" where
  "html_named pTmp =
     (if strncasecmp0 pTmp ''&lt;'' 4 then Some (CHR ''<'')
      else if strncasecmp0 pTmp ''&gt;'' 4 then Some (CHR ''>'')
      else if strncasecmp0 pTmp ''&quot;'' 6 then Some (CHR 0x22)
      else if strncasecmp0 pTmp ''&amp;'' 5 then Some (CHR ''&'')
      else None)"

definition html_numeric :: "nat \<Rightarrow> string \<Rightarrow> char option" where
  "html_numeric iCounted pTmp =
     (if iCounted \<ge> 3 \<and> pTmp ! 1 = CHR ''#'' then
        (let base = (if (byte (pTmp ! 2) AND 0xDF) = byte (CHR ''X'') then 16 else 10);
             (b, endptr) = strtol base (drop (if base = 16 then 3 else 2) pTmp)
         in if chd endptr = CHR '';'' \<and> 0 \<le> b \<and> b \<le> 255 then Some (char_of (nat b)) else None)
      else None)"

definition decode_html :: "string \<Rightarrow> char option \<times> nat" where
  "decode_html p =
     (if chd p = CHR ''&'' then
        (case html_entity p of
           None \<Rightarrow> (Some (chd p), 0)
         | Some (iCounted, pTmp) \<Rightarrow>
             (case html_numeric iCounted pTmp of
                Some ch \<Rightarrow> (Some ch, iCounted)
              | None \<Rightarrow>
                  (case html_named pTmp of
                     Some ch \<Rightarrow> (Some ch, iCounted)
                   | None \<Rightarrow> (Some (chd p), 0))))
      else (Some (chd p), 0))"

definition decode_url :: "string \<Rightarrow> char option \<times> nat" where
  "decode_url p =
     (if chd p = CHR ''%'' \<and> 2 < length p \<and> isxdigit_c (p ! 1) \<and> isxdigit_c (p ! 2)
      then (Some (hex_pair (p ! 1) (p ! 2)), 2)
      else if chd p = CHR ''+'' then (Some (CHR '' ''), 0)
      else (Some (chd p), 0))"

text \<open>
  The guard \<open>iLength < (a + 1)\<close> of the three backslash formats never holds inside the loop:
  after a final backslash the decoder reads the terminator.
\<close>

definition decode_backslash :: "(char \<Rightarrow> char) \<Rightarrow> string \<Rightarrow> char option \<times> nat" where
  "decode_backslash f p =
     (if chd p \<noteq> CHR 0x5C \<or> length p < 1 then (Some (chd p), 0) else (Some (f (chd (tl p))), 1))"

definition unsql :: "char \<Rightarrow> char" where
  "unsql c = (if c = CHR ''n'' then CHR 0x0A else if c = CHR ''r'' then CHR 0x0D
     else if c = CHR ''0'' then NUL else if c = CHR ''t'' then CHR 0x09
     else if c = CHR ''b'' then CHR 0x08 else c)"

definition unmsgtag :: "char \<Rightarrow> char" where
  "unmsgtag c = (if c = CHR '':'' then CHR '';'' else if c = CHR ''s'' then CHR '' ''
     else if c = CHR ''0'' then NUL else if c = CHR 0x5C then CHR 0x5C
     else if c = CHR ''r'' then CHR 0x0D else if c = CHR ''n'' then CHR 0x0A else c)"

definition decode_debug :: "string \<Rightarrow> char option \<times> nat" where
  "decode_debug p =
     (if chd p = CHR 0x5C \<and> 3 < length p \<and> p ! 1 = CHR ''x'' \<and> isxdigit_c (p ! 2) \<and> isxdigit_c (p ! 3)
      then (Some (hex_pair (p ! 2) (p ! 3)), 3)
      else if chd p = CHR 0x5C \<and> 1 < length p \<and> p ! 1 = CHR ''.'' then (Some (CHR 0x5C), 1)
      else (Some (chd p), 0))"

definition decode_hexcolon :: "string \<Rightarrow> char option \<times> nat" where
  "decode_hexcolon p =
     (case dropWhile (\<lambda>c. \<not> isxdigit_c c) p of
        [] \<Rightarrow> (None, length p)
      | h # q \<Rightarrow>
          (case dropWhile (\<lambda>c. \<not> isxdigit_c c) q of
             [] \<Rightarrow> (None, length p)
           | l # r \<Rightarrow> (Some (hex_pair h l), length p - length r - 1)))"

definition decode_step :: "eescape \<Rightarrow> string \<Rightarrow> char option \<times> nat" where
  "decode_step eFrom p =
     (case eFrom of
        EHTML \<Rightarrow> decode_html p
      | EASCII \<Rightarrow> (Some (chd p), 0)
      | EURL \<Rightarrow> decode_url p
      | ESQL \<Rightarrow> decode_backslash unsql p
      | ENAMEDFMT \<Rightarrow> decode_backslash (\<lambda>c. c) p
      | EDEBUG \<Rightarrow> decode_debug p
      | EMSGTAG \<Rightarrow> decode_backslash unmsgtag p
      | EHEXCOLON \<Rightarrow> decode_hexcolon p)"

section \<open>Encoding one byte\<close>

definition encode_html :: "char \<Rightarrow> string" where
  "encode_html ch = (if ch = CHR ''<'' then ''&lt;'' else if ch = CHR ''>'' then ''&gt;''
     else if ch = CHR 0x22 then ''&quot;'' else if ch = CHR ''&'' then ''&amp;'' else [ch])"

definition encode_url :: "char \<Rightarrow> string" where
  "encode_url ch = (if isalnum_c ch \<or> ch = CHR ''_'' \<or> ch = CHR ''.'' \<or> ch = CHR ''-'' then [ch]
     else if ch = CHR '' '' then ''+'' else [CHR ''%'', hex_hi ch, hex_lo ch])"

definition encode_sql :: "char \<Rightarrow> string" where
  "encode_sql ch = (if ch = NUL then [CHR 0x5C, CHR ''0''] else if ch = CHR 0x0A then [CHR 0x5C, CHR ''n'']
     else if ch = CHR 0x09 then [CHR 0x5C, CHR ''t''] else if ch = CHR 0x0D then [CHR 0x5C, CHR ''r'']
     else if ch = CHR 0x08 then [CHR 0x5C, CHR ''b''] else if ch = CHR 0x22 then [CHR 0x5C, CHR 0x22]
     else if ch = CHR 0x27 then [CHR 0x5C, CHR 0x27] else if ch = CHR 0x5C then [CHR 0x5C, CHR 0x5C]
     else [ch])"

definition encode_namedfmt :: "char \<Rightarrow> string" where
  "encode_namedfmt ch = (if ch = CHR 0x5C then [CHR 0x5C, CHR 0x5C] else if ch = CHR ''{'' then [CHR 0x5C, CHR ''{'']
     else if ch = CHR ''}'' then [CHR 0x5C, CHR ''}''] else [ch])"

definition encode_debug :: "char \<Rightarrow> string" where
  "encode_debug ch = (if byte ch < 0x20 \<or> ch = CHR 0x7F then [CHR 0x5C, CHR ''x'', hex_hi ch, hex_lo ch]
     else if ch = CHR 0x5C then [CHR 0x5C, CHR ''.''] else [ch])"

definition encode_msgtag :: "char \<Rightarrow> string" where
  "encode_msgtag ch = (if ch = CHR '';'' then [CHR 0x5C, CHR '':''] else if ch = CHR '' '' then [CHR 0x5C, CHR ''s'']
     else if ch = NUL then [CHR 0x5C, CHR ''0''] else if ch = CHR 0x5C then [CHR 0x5C, CHR 0x5C]
     else if ch = CHR 0x0D then [CHR 0x5C, CHR ''r''] else if ch = CHR 0x0A then [CHR 0x5C, CHR ''n'']
     else [ch])"

definition encode_hexcolon :: "char \<Rightarrow> string" where
  "encode_hexcolon ch = [tolower_c (hex_hi ch), tolower_c (hex_lo ch), CHR '':'']"

definition encode_char :: "eescape \<Rightarrow> char \<Rightarrow> string" where
  "encode_char eTo ch =
     (case eTo of
        EHTML \<Rightarrow> encode_html ch
      | EASCII \<Rightarrow> [ch]
      | EURL \<Rightarrow> encode_url ch
      | ESQL \<Rightarrow> encode_sql ch
      | ENAMEDFMT \<Rightarrow> encode_namedfmt ch
      | EDEBUG \<Rightarrow> encode_debug ch
      | EMSGTAG \<Rightarrow> encode_msgtag ch
      | EHEXCOLON \<Rightarrow> encode_hexcolon ch)"

section \<open>The loop\<close>

function escape_loop :: "(string \<Rightarrow> char option \<times> nat) \<Rightarrow> (char \<Rightarrow> string) \<Rightarrow> string \<Rightarrow> string" where
  "escape_loop step enc p =
     (if p = [] then []
      else (let (ch, k) = step p
            in (case ch of None \<Rightarrow> [] | Some c \<Rightarrow> enc c) @ escape_loop step enc (drop (Suc k) p)))"
  by pat_completeness auto
termination
  by (relation "measure (\<lambda>(step, enc, p). length p)") auto

declare escape_loop.simps [simp del]

definition Escape_n :: "eescape \<Rightarrow> eescape \<Rightarrow> string \<Rightarrow> string" where
  "Escape_n eFrom eTo s =
     (let sRet = escape_loop (decode_step eFrom) (encode_char eTo) s
      in if eTo = EHEXCOLON then TrimRight_n '':'' sRet else sRet)"

lemma escape_loop_Nil [simp]: "escape_loop step enc [] = []"
  by (subst escape_loop.simps) simp

section \<open>The contract of a byte-wise format\<close>

locale char_codec =
  fixes enc :: "char \<Rightarrow> string" and step :: "string \<Rightarrow> char option \<times> nat"
  assumes enc_nonempty: "enc c \<noteq> []"
    and step_enc: "step (enc c @ rest) = (Some c, length (enc c) - 1)"
begin

definition encode :: "string \<Rightarrow> string" where
  "encode s = concat (map enc s)"

definition decode :: "string \<Rightarrow> string" where
  "decode p = escape_loop step (\<lambda>c. [c]) p"

lemma decode_enc: "decode (enc c @ rest) = c # decode rest"
proof -
  have "Suc (length (enc c) - 1) = length (enc c)" using enc_nonempty [of c] by (cases "enc c") auto
  then show ?thesis
    unfolding decode_def by (subst escape_loop.simps) (simp add: enc_nonempty step_enc)
qed

lemma decode_encode: "decode (encode s) = s"
  by (induction s) (simp_all add: encode_def decode_enc, simp add: decode_def)

lemma encode_inject: "encode s = encode t \<longleftrightarrow> s = t"
  by (metis decode_encode)

lemma encode_append: "encode (s @ t) = encode s @ encode t"
  by (simp add: encode_def)

lemma set_encode: "set (encode s) = (\<Union>c \<in> set s. set (enc c))"
  by (simp add: encode_def)

end

lemma decode_step_eqs:
  "decode_step EASCII = (\<lambda>p. (Some (chd p), 0))" "decode_step EURL = decode_url"
  "decode_step EHTML = decode_html" "decode_step ESQL = decode_backslash unsql"
  "decode_step ENAMEDFMT = decode_backslash (\<lambda>c. c)" "decode_step EDEBUG = decode_debug"
  "decode_step EMSGTAG = decode_backslash unmsgtag" "decode_step EHEXCOLON = decode_hexcolon"
  by (simp_all add: decode_step_def fun_eq_iff)

lemma encode_char_eqs:
  "encode_char EASCII = (\<lambda>c. [c])" "encode_char EURL = encode_url"
  "encode_char EHTML = encode_html" "encode_char ESQL = encode_sql"
  "encode_char ENAMEDFMT = encode_namedfmt" "encode_char EDEBUG = encode_debug"
  "encode_char EMSGTAG = encode_msgtag" "encode_char EHEXCOLON = encode_hexcolon"
  by (simp_all add: encode_char_def fun_eq_iff)

lemma escape_loop_ascii: "escape_loop (decode_step EASCII) enc s = concat (map enc s)"
proof (induction s)
  case (Cons c s)
  then show ?case by (subst escape_loop.simps) (simp add: decode_step_eqs)
qed simp

text \<open>What the contract gives for Escape_n.\<close>

lemma Escape_n_roundtrip:
  assumes "char_codec (encode_char e) (decode_step e)" and "e \<noteq> EHEXCOLON"
  shows "Escape_n e EASCII (Escape_n EASCII e s) = s"
  using char_codec.decode_encode [OF assms(1), of s] assms(2)
  by (simp add: Escape_n_def escape_loop_ascii encode_char_eqs(1)
      char_codec.decode_def [OF assms(1)] char_codec.encode_def [OF assms(1)])

lemma Escape_n_encode: "e \<noteq> EHEXCOLON \<Longrightarrow> Escape_n EASCII e s = concat (map (encode_char e) s)"
  by (simp add: Escape_n_def escape_loop_ascii)

section \<open>The formats\<close>

lemma c_str_cons_amp:
  assumes "nul_free e" "CHR '';'' \<notin> set e" "length e < 20"
  shows "html_entity (e @ CHR '';'' # rest) = Some (length e, e @ '';'')"
proof -
  have "c_str (e @ CHR '';'' # rest) = e @ CHR '';'' # c_str rest"
    using assms(1) by (induction e) auto
  moreover obtain k where "20 - length e = Suc k" using assms(3) by (cases "20 - length e") auto
  ultimately show ?thesis using assms by (simp add: html_entity_def)
qed

lemma decode_html_enc:
  "decode_html (encode_html c @ rest) = (Some c, length (encode_html c) - 1)"
proof -
  have named: "decode_html (e @ CHR '';'' # rest) = (Some d, length e)"
    if "chd e = CHR ''&''" "nul_free e" "CHR '';'' \<notin> set e" "length e < 20" "e ! 1 \<noteq> CHR ''#''"
      "html_named (e @ '';'') = Some d" "e \<noteq> []" "1 < length e" for e d
    using that c_str_cons_amp [of e rest]
    by (cases e) (auto simp: decode_html_def html_numeric_def nth_append)
  have "html_named ''&lt;'' = Some (CHR ''<'')" "html_named ''&gt;'' = Some (CHR ''>'')"
    "html_named ''&quot;'' = Some (CHR 0x22)" "html_named ''&amp;'' = Some (CHR ''&'')"
    by code_simp+
  with named [of "''&lt''" "CHR ''<''"] named [of "''&gt''" "CHR ''>''"]
    named [of "''&quot''" "CHR 0x22"] named [of "''&amp''" "CHR ''&''"]
  show ?thesis by (simp add: encode_html_def) (simp add: decode_html_def)
qed

interpretation html: char_codec encode_html decode_html
  by unfold_locales (simp_all add: decode_html_enc, simp add: encode_html_def)

lemma isalnum_not_special:
  "isalnum_c c \<Longrightarrow> c \<noteq> CHR ''%'' \<and> c \<noteq> CHR ''+'' \<and> c \<noteq> CHR '' '' \<and> c \<noteq> CHR '';'' \<and> c \<noteq> NUL \<and>
     c \<noteq> CHR 0x0A \<and> c \<noteq> CHR 0x0D \<and> c \<noteq> CHR 0x09 \<and> c \<noteq> CHR '':''"
  by (auto simp: ctype_simps byte_def)

interpretation url: char_codec encode_url decode_url
  by unfold_locales
    (auto simp: encode_url_def decode_url_def dest: isalnum_not_special)

interpretation sql: char_codec encode_sql "decode_backslash unsql"
  by unfold_locales (auto simp: encode_sql_def decode_backslash_def unsql_def)

interpretation namedfmt: char_codec encode_namedfmt "decode_backslash (\<lambda>c. c)"
  by unfold_locales (auto simp: encode_namedfmt_def decode_backslash_def)

interpretation msgtag: char_codec encode_msgtag "decode_backslash unmsgtag"
  by unfold_locales (auto simp: encode_msgtag_def decode_backslash_def unmsgtag_def)

interpretation debug: char_codec encode_debug decode_debug
  by unfold_locales (auto simp: encode_debug_def decode_debug_def)

interpretation ascii: char_codec "\<lambda>c. [c]" "\<lambda>p. (Some (chd p), 0)"
  by unfold_locales auto

lemma codec_formats:
  assumes "e \<noteq> EHEXCOLON"
  shows "char_codec (encode_char e) (decode_step e)"
proof (cases e)
  case EASCII
  then show ?thesis using ascii.char_codec_axioms by (simp add: encode_char_eqs decode_step_eqs)
next
  case EURL
  then show ?thesis using url.char_codec_axioms by (simp add: encode_char_eqs decode_step_eqs)
next
  case EHTML
  then show ?thesis using html.char_codec_axioms by (simp add: encode_char_eqs decode_step_eqs)
next
  case ESQL
  then show ?thesis using sql.char_codec_axioms by (simp add: encode_char_eqs decode_step_eqs)
next
  case ENAMEDFMT
  then show ?thesis using namedfmt.char_codec_axioms by (simp add: encode_char_eqs decode_step_eqs)
next
  case EDEBUG
  then show ?thesis using debug.char_codec_axioms by (simp add: encode_char_eqs decode_step_eqs)
next
  case EMSGTAG
  then show ?thesis using msgtag.char_codec_axioms by (simp add: encode_char_eqs decode_step_eqs)
qed (simp add: assms)

text \<open>The colon-separated hexadecimal format, whose last colon is trimmed.\<close>

lemma hexcolon_step:
  assumes "isxdigit_c h" and "isxdigit_c l"
  shows "escape_loop decode_hexcolon enc (h # l # rest) =
    enc (hex_pair h l) @ escape_loop decode_hexcolon enc rest"
  using assms by (subst escape_loop.simps) (simp add: decode_hexcolon_def)

lemma hexcolon_skip:
  assumes "\<not> isxdigit_c c"
  shows "escape_loop decode_hexcolon enc (c # p) = escape_loop decode_hexcolon enc p"
proof (cases "dropWhile (\<lambda>c. \<not> isxdigit_c c) p")
  case Nil
  with assms show ?thesis
    by (subst (1 2) escape_loop.simps) (simp add: decode_hexcolon_def del: dropWhile_eq_Nil_conv)
next
  case (Cons h q)
  have p: "p \<noteq> []" using Cons by auto
  show ?thesis
  proof (cases "dropWhile (\<lambda>c. \<not> isxdigit_c c) q")
    case Nil
    with Cons assms p show ?thesis
      by (subst (1 2) escape_loop.simps) (simp add: decode_hexcolon_def del: dropWhile_eq_Nil_conv)
  next
    case (Cons l r)
    have "length q < length p"
      using \<open>dropWhile _ p = h # q\<close> length_dropWhile_le [of "\<lambda>c. \<not> isxdigit_c c" p] by simp
    moreover have "length r < length q"
      using Cons length_dropWhile_le [of "\<lambda>c. \<not> isxdigit_c c" q] by simp
    ultimately have "length r + 1 < length p" by simp
    with Cons \<open>dropWhile _ p = h # q\<close> assms p show ?thesis
      by (subst (1 2) escape_loop.simps) (simp add: decode_hexcolon_def Suc_diff_Suc)
  qed
qed

lemma not_isxdigit_colon [simp]: "\<not> isxdigit_c (CHR '':'')"
  by (simp add: ctype_simps byte_def)

lemma hexcolon_roundtrip_loop:
  "escape_loop decode_hexcolon (\<lambda>c. [c]) (concat (map encode_hexcolon s)) = s"
  by (induction s) (simp_all add: encode_hexcolon_def hexcolon_step hexcolon_skip)

lemma hexcolon_trim:
  "TrimRight_n '':'' (concat (map encode_hexcolon s)) @ (if s = [] then [] else '':'') =
   concat (map encode_hexcolon s)"
proof (cases s rule: rev_cases)
  case (snoc t c)
  have "isxdigit_c (tolower_c (hex_lo c))" by simp
  then have "tolower_c (hex_lo c) \<noteq> CHR '':''" using not_isxdigit_colon by metis
  then show ?thesis
    using rdropWhile_snoc [of "\<lambda>d. d = CHR '':''" "concat (map encode_hexcolon t) @ [tolower_c (hex_hi c), tolower_c (hex_lo c)]" "CHR '':''"]
      rdropWhile_snoc [of "\<lambda>d. d = CHR '':''" "concat (map encode_hexcolon t) @ [tolower_c (hex_hi c)]" "tolower_c (hex_lo c)"]
    by (simp add: snoc encode_hexcolon_def)
qed simp

lemma hexcolon_final_colon:
  "escape_loop decode_hexcolon enc (p @ '':'') = escape_loop decode_hexcolon enc p"
proof (induction "length p" arbitrary: p rule: less_induct)
  case less
  show ?case
  proof (cases p)
    case Nil
    then show ?thesis using hexcolon_skip [of "CHR '':''" enc "[]"] by simp
  next
    case (Cons c q)
    show ?thesis
    proof (cases "isxdigit_c c")
      case False
      with less Cons show ?thesis by (simp add: hexcolon_skip)
    next
      case h: True
      show ?thesis
      proof (cases "dropWhile (\<lambda>c. \<not> isxdigit_c c) q")
        case Nil
        then have app: "dropWhile (\<lambda>c. \<not> isxdigit_c c) (q @ '':'') = []" by auto
        have "escape_loop decode_hexcolon enc (c # q @ '':'') = []"
          using h app
          by (subst escape_loop.simps) (simp add: decode_hexcolon_def del: dropWhile_eq_Nil_conv)
        moreover have "escape_loop decode_hexcolon enc (c # q) = []"
          using h Nil
          by (subst escape_loop.simps) (simp add: decode_hexcolon_def del: dropWhile_eq_Nil_conv)
        ultimately show ?thesis using Cons by simp
      next
        case (Cons l r)
        have len: "length r < length q"
          using Cons length_dropWhile_le [of "\<lambda>c. \<not> isxdigit_c c" q] by simp
        have d: "dropWhile (\<lambda>c. \<not> isxdigit_c c) (q @ '':'') = l # r @ '':''"
          using Cons dropWhile_append [of "\<lambda>c. \<not> isxdigit_c c" q "'':''"]
          by (metis append_Cons dropWhile_eq_Nil_conv list.distinct(1))
        have suf: "drop (length q - length r) q = r" "drop (length q - length r) (q @ '':'') = r @ '':''"
        proof -
          have "q = takeWhile (\<lambda>c. \<not> isxdigit_c c) q @ l # r"
            using Cons by (metis takeWhile_dropWhile_id)
          then obtain u where u: "q = u @ l # r" by blast
          then show "drop (length q - length r) q = r"
            "drop (length q - length r) (q @ '':'') = r @ '':''" by simp_all
        qed
        have "escape_loop decode_hexcolon enc (c # q @ '':'') =
            enc (hex_pair c l) @ escape_loop decode_hexcolon enc (r @ '':'')"
          using h d len suf by (subst escape_loop.simps) (simp add: decode_hexcolon_def)
        moreover have "escape_loop decode_hexcolon enc (c # q) =
            enc (hex_pair c l) @ escape_loop decode_hexcolon enc r"
          using h Cons len suf by (subst escape_loop.simps) (simp add: decode_hexcolon_def)
        moreover have "length r < length p" using \<open>p = c # q\<close> len by simp
        ultimately show ?thesis using less [of r] \<open>p = c # q\<close> by simp
      qed
    qed
  qed
qed

lemma Escape_n_hexcolon: "Escape_n EHEXCOLON EASCII (Escape_n EASCII EHEXCOLON s) = s"
proof -
  let ?e = "concat (map encode_hexcolon s)" and ?t = "TrimRight_n '':'' (concat (map encode_hexcolon s))"
  have "escape_loop decode_hexcolon (\<lambda>c. [c]) ?t = escape_loop decode_hexcolon (\<lambda>c. [c]) ?e"
  proof (cases "s = []")
    case False
    then have "?e = ?t @ '':''" using hexcolon_trim [of s] by simp
    then show ?thesis using hexcolon_final_colon [of "\<lambda>c. [c]" ?t] by metis
  qed (use hexcolon_trim [of s] in simp)
  then show ?thesis
    using hexcolon_roundtrip_loop [of s]
    by (simp add: Escape_n_def escape_loop_ascii encode_char_eqs decode_step_eqs(8))
qed

end
