(* ===== verification/Base64.thy ===== *)
theory Base64 imports Escape begin

text \<open>
  \<open>CString::Base64Encode\<close> and \<open>CString::Base64Decode\<close> (src/ZNCString.cpp), with the bit
  operations of the source on byte values. The encoder writes into a buffer whose size it
  computes beforehand (\<open>b64_toalloc\<close>); \<open>length_b64_encode\<close> is the bound that makes the
  writes safe.
\<close>

definition b64table :: string where
  "b64table = ''ABCDEFGHIJKLMNOPQRSTUVWXYZabcdefghijklmnopqrstuvwxyz0123456789+/''"

text \<open>The table of the source, with its filler XX; out-of-alphabet bytes read as the filler.\<close>

definition base64_rows :: "nat \<Rightarrow> nat list" where
  "base64_rows XX =
    [XX, XX, XX, XX, XX, XX, XX, XX, XX, XX, XX, XX, XX, XX, XX, XX, XX, XX, XX,
     XX, XX, XX, XX, XX, XX, XX, XX, XX, XX, XX, XX, XX, XX, XX, XX, XX, XX, XX,
     XX, XX, XX, XX, XX, 62, XX, XX, XX, 63, 52, 53, 54, 55, 56, 57, 58, 59, 60,
     61, XX, XX, XX, XX, XX, XX, XX, 0, 1, 2, 3, 4, 5, 6, 7, 8, 9, 10,
     11, 12, 13, 14, 15, 16, 17, 18, 19, 20, 21, 22, 23, 24, 25, XX, XX, XX, XX,
     XX, XX, 26, 27, 28, 29, 30, 31, 32, 33, 34, 35, 36, 37, 38, 39, 40, 41, 42,
     43, 44, 45, 46, 47, 48, 49, 50, 51, XX, XX, XX, XX, XX, XX, XX, XX, XX, XX,
     XX, XX, XX, XX, XX, XX, XX, XX, XX, XX, XX, XX, XX, XX, XX, XX, XX, XX, XX,
     XX, XX, XX, XX, XX, XX, XX, XX, XX, XX, XX, XX, XX, XX, XX, XX, XX, XX, XX,
     XX, XX, XX, XX, XX, XX, XX, XX, XX, XX, XX, XX, XX, XX, XX, XX, XX, XX, XX,
     XX, XX, XX, XX, XX, XX, XX, XX, XX, XX, XX, XX, XX, XX, XX, XX, XX, XX, XX,
     XX, XX, XX, XX, XX, XX, XX, XX, XX, XX, XX, XX, XX, XX, XX, XX, XX, XX, XX,
     XX, XX, XX, XX, XX, XX, XX, XX, XX, XX, XX, XX, XX, XX, XX, XX, XX, XX, XX,
     XX, XX, XX, XX, XX, XX, XX, XX, XX]"

definition base64_table :: "nat list" where
  "base64_table = base64_rows 0xFF"

definition b64_out :: "nat \<Rightarrow> char" where
  "b64_out n = b64table ! n"

definition b64_in :: "char \<Rightarrow> nat" where
  "b64_in c = base64_table ! (byte c)"

section \<open>Encoding\<close>

fun b64_encode_loop :: "bool \<Rightarrow> nat \<Rightarrow> string \<Rightarrow> string" where
  "b64_encode_loop uWrap i (x # y # z # rest) =
     [b64_out (drop_bit 2 (byte x)),
      b64_out ((push_bit 4 (byte x) OR drop_bit 4 (byte y)) AND 0x3F),
      b64_out ((push_bit 2 (byte y) OR drop_bit 6 (byte z)) AND 0x3F),
      b64_out (byte z AND 0x3F)] @
     (if uWrap \<and> (i + 3) mod 57 = 0 then [CHR 0x0A] else []) @
     b64_encode_loop uWrap (i + 3) rest"
| "b64_encode_loop uWrap i [] = (if uWrap \<and> i mod 57 \<noteq> 0 then [CHR 0x0A] else [])"
| "b64_encode_loop uWrap i [x] =
     [b64_out (drop_bit 2 (byte x)),
      b64_out ((push_bit 4 (byte x) OR drop_bit 4 0) AND 0x3F),
      CHR ''='', CHR ''=''] @ (if uWrap then [CHR 0x0A] else [])"
| "b64_encode_loop uWrap i [x, y] =
     [b64_out (drop_bit 2 (byte x)),
      b64_out ((push_bit 4 (byte x) OR drop_bit 4 (byte y)) AND 0x3F),
      b64_out (push_bit 2 (byte y) AND 0x3F), CHR ''=''] @ (if uWrap then [CHR 0x0A] else [])"

definition Base64Encode_n :: "string \<Rightarrow> nat \<Rightarrow> string" where
  "Base64Encode_n s uWrap = b64_encode_loop (uWrap \<noteq> 0) 0 s"

definition b64_toalloc :: "nat \<Rightarrow> nat \<Rightarrow> nat" where
  "b64_toalloc len uWrap =
     (let toalloc = (len div 3) * 4 + (3 - len mod 3) mod 3 + 1 + 8
      in if uWrap \<noteq> 0 then toalloc + len div 57 + (if len mod 57 \<noteq> 0 then 1 else 0) else toalloc)"

section \<open>Decoding\<close>

fun b64_decode_loop :: "string \<Rightarrow> string" where
  "b64_decode_loop [] = []"
| "b64_decode_loop (x # p) =
     (let c = b64_in x; c1 = b64_in (chd p); q = tl p in
      char_of (push_bit 2 c OR (drop_bit 4 c1 AND 0x3)) #
      (if q = [] \<or> hd q = CHR ''='' then []
       else let c2 = b64_in (hd q); r = tl q in
         char_of ((push_bit 4 c1 AND 0xF0) OR (drop_bit 2 c2 AND 0xF)) #
         (if r = [] \<or> hd r = CHR ''='' then []
          else char_of ((push_bit 6 c2 AND 0xC0) OR b64_in (hd r)) # b64_decode_loop (tl r))))"

definition Base64Decode_n :: "string \<Rightarrow> string" where
  "Base64Decode_n s =
     b64_decode_loop (Replace_n (Replace_n s [CHR 0x0D] []) [CHR 0x0A] [])"

section \<open>The bit operations as arithmetic\<close>

lemma or_push_bit:
  assumes "(y::nat) < 2 ^ n"
  shows "push_bit n x OR y = x * 2 ^ n + y"
proof -
  have y: "take_bit n y = y" using assms by (simp add: take_bit_nat_eq_self)
  have "push_bit n x AND y = 0"
  proof (rule bit_eqI)
    fix m
    show "bit (push_bit n x AND y) m \<longleftrightarrow> bit 0 m"
      by (subst y [symmetric]) (auto simp: bit_simps)
  qed
  then show ?thesis by (simp flip: disjunctive_add_eq_or add: push_bit_eq_mult)
qed

lemma and_low_mask: "(x::nat) AND (2 ^ n - 1) = x mod 2 ^ n"
  using take_bit_eq_mask [of n x] by (simp add: mask_eq_exp_minus_1 take_bit_eq_mod)

lemma and_masks:
  "(x::nat) AND 0x3 = x mod 4" "x AND 0xF = x mod 16" "x AND 0x3F = x mod 64"
  using and_low_mask [of x 2] and_low_mask [of x 4] and_low_mask [of x 6] by simp_all

lemma and_high_masks:
  "push_bit 4 (x::nat) AND 0xF0 = push_bit 4 (x mod 16)"
  "push_bit 6 (x::nat) AND 0xC0 = push_bit 6 (x mod 4)"
proof -
  have "push_bit 4 x AND push_bit 4 15 = push_bit 4 (x AND 15)"
    "push_bit 6 x AND push_bit 6 3 = push_bit 6 (x AND 3)"
    by (simp_all only: push_bit_and)
  then show "push_bit 4 x AND 0xF0 = push_bit 4 (x mod 16)"
    "push_bit 6 x AND 0xC0 = push_bit 6 (x mod 4)"
    by (simp_all add: and_masks push_bit_eq_mult)
qed

lemma b64_enc_bits:
  assumes "(y::nat) < 256"
  shows "(push_bit 4 x OR drop_bit 4 y) AND 0x3F = (x * 16 + y div 16) mod 64"
    and "(push_bit 2 x OR drop_bit 6 y) AND 0x3F = (x * 4 + y div 64) mod 64"
proof -
  have "drop_bit 4 y < 2 ^ 4" "drop_bit 6 y < 2 ^ 2"
    using assms by (simp_all add: drop_bit_eq_div less_mult_imp_div_less)
  from or_push_bit [OF this(1), of x] or_push_bit [OF this(2), of x]
  have "push_bit 4 x OR drop_bit 4 y = x * 16 + y div 16"
    "push_bit 2 x OR drop_bit 6 y = x * 4 + y div 64"
    by (simp_all only: drop_bit_eq_div) simp_all
  then show "(push_bit 4 x OR drop_bit 4 y) AND 0x3F = (x * 16 + y div 16) mod 64"
    "(push_bit 2 x OR drop_bit 6 y) AND 0x3F = (x * 4 + y div 64) mod 64"
    by (simp_all only: and_masks)
qed

lemma b64_dec_bits:
  "push_bit 2 (c::nat) OR (drop_bit 4 c1 AND 0x3) = c * 4 + c1 div 16 mod 4"
  "(push_bit 4 (c1::nat) AND 0xF0) OR (drop_bit 2 c2 AND 0xF) = c1 mod 16 * 16 + c2 div 4 mod 16"
  "c3 < 64 \<Longrightarrow> (push_bit 6 (c2::nat) AND 0xC0) OR c3 = c2 mod 4 * 64 + c3"
proof -
  have "c1 div 16 mod 4 < 2 ^ 2" "c2 div 4 mod 16 < 2 ^ 4" by simp_all
  from or_push_bit [OF this(1), of c] or_push_bit [OF this(2), of "c1 mod 16"]
  show "push_bit 2 c OR (drop_bit 4 c1 AND 0x3) = c * 4 + c1 div 16 mod 4"
    "(push_bit 4 c1 AND 0xF0) OR (drop_bit 2 c2 AND 0xF) = c1 mod 16 * 16 + c2 div 4 mod 16"
    by (simp_all only: and_masks and_high_masks drop_bit_eq_div) simp_all
  show "c3 < 64 \<Longrightarrow> (push_bit 6 c2 AND 0xC0) OR c3 = c2 mod 4 * 64 + c3"
    using or_push_bit [of c3 6 "c2 mod 4"] by (simp only: and_high_masks) simp
qed

section \<open>The tables are inverse\<close>

lemma base64_rows_table: "list_all (\<lambda>(c, n). base64_rows xx ! byte c = n) (zip b64table [0..<64])"
  by code_simp

lemma b64table_plain: "list_all (\<lambda>c. c \<notin> {CHR ''='', CHR 0x0A, CHR 0x0D, NUL}) b64table"
  by (simp add: b64table_def)

lemma length_b64table [simp]: "length b64table = 64"
  by (simp add: b64table_def)

lemma b64_tables:
  assumes "n < 64"
  shows "b64_in (b64_out n) = n \<and> b64_out n \<notin> {CHR ''='', CHR 0x0A, CHR 0x0D, NUL}"
proof
  have "(b64table ! n, n) \<in> set (zip b64table [0..<64])"
    using assms by (auto simp: set_zip)
  with base64_rows_table [of "0xFF"] show "b64_in (b64_out n) = n"
    by (auto simp: list_all_iff b64_in_def b64_out_def base64_table_def)
  show "b64_out n \<notin> {CHR ''='', CHR 0x0A, CHR 0x0D, NUL}"
    using b64table_plain assms unfolding b64_out_def list_all_iff by (metis length_b64table nth_mem)
qed

lemma b64_in_out [simp]: "n < 64 \<Longrightarrow> b64_in (b64_out n) = n"
  and b64_out_plain [simp]: "n < 64 \<Longrightarrow> b64_out n \<noteq> CHR ''=''" "n < 64 \<Longrightarrow> b64_out n \<noteq> CHR 0x0A"
    "n < 64 \<Longrightarrow> b64_out n \<noteq> CHR 0x0D" "n < 64 \<Longrightarrow> b64_out n \<noteq> NUL"
  using b64_tables by auto

lemma byte_div4 [simp]: "byte c div 4 < 64"
  using byte_less [of c] by (simp add: less_mult_imp_div_less)

section \<open>Round trip\<close>

lemma b64_index2:
  assumes "(q::nat) < 16"
  shows "(x * 16 + q) mod 64 = x mod 4 * 16 + q"
proof -
  have "x * 16 + q = (x mod 4 * 16 + q) + 64 * (x div 4)"
    using mult_div_mod_eq [of 4 x] by linarith
  moreover have "x mod 4 * 16 + q < 64"
    using assms mod_less_divisor [of 4 x] by linarith
  ultimately show ?thesis by (metis mod_less mod_mult_self2)
qed

lemma b64_index3:
  assumes "(q::nat) < 4"
  shows "(y * 4 + q) mod 64 = y mod 16 * 4 + q"
proof -
  have "y * 4 + q = (y mod 16 * 4 + q) + 64 * (y div 16)"
    using mult_div_mod_eq [of 16 y] by linarith
  moreover have "y mod 16 * 4 + q < 64"
    using assms mod_less_divisor [of 16 y] by linarith
  ultimately show ?thesis by (metis mod_less mod_mult_self2)
qed

lemma byte_div_small [simp]: "byte c div 64 < 4"
  using byte_less [of c] by (simp add: less_mult_imp_div_less)

lemma b64_indices [simp]:
  "(byte x * 16 + byte y div 16) mod 64 = byte x mod 4 * 16 + byte y div 16"
  "(byte y * 4 + byte z div 64) mod 64 = byte y mod 16 * 4 + byte z div 64"
  "byte x * 16 mod 64 = byte x mod 4 * 16"
  "byte y * 4 mod 64 = byte y mod 16 * 4"
  using b64_index2 [of "byte y div 16" "byte x"] b64_index3 [of "byte z div 64" "byte y"]
    b64_index2 [of 0 "byte x"] b64_index3 [of 0 "byte y"] by simp_all

lemma b64_index_bounds [simp]:
  "byte x mod 4 * 16 + byte y div 16 < 64" "byte y mod 16 * 4 + byte z div 64 < 64"
  "byte x mod 4 * 16 < 64" "byte y mod 16 * 4 < 64"
  using byte_div_16 [of y] byte_div_small [of z] mod_less_divisor [of 4 "byte x"]
    mod_less_divisor [of 16 "byte y"] by linarith+

lemma b64_index_parts [simp]:
  "q < 16 \<Longrightarrow> (k * 16 + q) div 16 = (k::nat)" "q < 16 \<Longrightarrow> (k * 16 + q) mod 16 = q"
  "q < 4 \<Longrightarrow> (k * 4 + q) div 4 = k" "q < 4 \<Longrightarrow> (k * 4 + q) mod 4 = (q::nat)"
  by simp_all

text \<open>The two loops on arithmetic instead of bits.\<close>

lemma b64_encode_loop_arith:
  "b64_encode_loop w i (x # y # z # rest) =
     [b64_out (byte x div 4), b64_out (byte x mod 4 * 16 + byte y div 16),
      b64_out (byte y mod 16 * 4 + byte z div 64), b64_out (byte z mod 64)] @
     (if w \<and> (i + 3) mod 57 = 0 then [CHR 0x0A] else []) @ b64_encode_loop w (i + 3) rest"
  "b64_encode_loop w i [] = (if w \<and> i mod 57 \<noteq> 0 then [CHR 0x0A] else [])"
  "b64_encode_loop w i [x] =
     [b64_out (byte x div 4), b64_out (byte x mod 4 * 16), CHR ''='', CHR ''=''] @
     (if w then [CHR 0x0A] else [])"
  "b64_encode_loop w i [x, y] =
     [b64_out (byte x div 4), b64_out (byte x mod 4 * 16 + byte y div 16),
      b64_out (byte y mod 16 * 4), CHR ''=''] @ (if w then [CHR 0x0A] else [])"
proof -
  have d: "drop_bit 2 (byte c) = byte c div 4" "push_bit 2 (byte c) AND 0x3F = byte c * 4 mod 64" for c
    by (simp_all only: and_masks) (simp_all add: drop_bit_eq_div push_bit_eq_mult)
  note e = b64_enc_bits [OF byte_less] b64_enc_bits [of 0] and_masks(3) [of "byte z"] d
  show "b64_encode_loop w i (x # y # z # rest) =
     [b64_out (byte x div 4), b64_out (byte x mod 4 * 16 + byte y div 16),
      b64_out (byte y mod 16 * 4 + byte z div 64), b64_out (byte z mod 64)] @
     (if w \<and> (i + 3) mod 57 = 0 then [CHR 0x0A] else []) @ b64_encode_loop w (i + 3) rest"
    by (simp only: b64_encode_loop.simps e b64_indices)
  show "b64_encode_loop w i [] = (if w \<and> i mod 57 \<noteq> 0 then [CHR 0x0A] else [])" by simp
  show "b64_encode_loop w i [x] =
     [b64_out (byte x div 4), b64_out (byte x mod 4 * 16), CHR ''='', CHR ''=''] @
     (if w then [CHR 0x0A] else [])"
    using e(3) [of "byte x"] by (simp only: b64_encode_loop.simps d) simp
  show "b64_encode_loop w i [x, y] =
     [b64_out (byte x div 4), b64_out (byte x mod 4 * 16 + byte y div 16),
      b64_out (byte y mod 16 * 4), CHR ''=''] @ (if w then [CHR 0x0A] else [])"
    by (simp only: b64_encode_loop.simps e b64_indices)
qed

declare b64_encode_loop.simps [simp del] b64_encode_loop_arith [simp]

lemma b64_decode_loop_arith:
  "n1 < 64 \<Longrightarrow> n2 < 64 \<Longrightarrow> n3 < 64 \<Longrightarrow> n4 < 64 \<Longrightarrow>
   b64_decode_loop (b64_out n1 # b64_out n2 # b64_out n3 # b64_out n4 # rest) =
   char_of (n1 * 4 + n2 div 16 mod 4) # char_of (n2 mod 16 * 16 + n3 div 4 mod 16) #
   char_of (n3 mod 4 * 64 + n4) # b64_decode_loop rest"
  "n1 < 64 \<Longrightarrow> n2 < 64 \<Longrightarrow>
   b64_decode_loop (b64_out n1 # b64_out n2 # CHR ''='' # rest) = [char_of (n1 * 4 + n2 div 16 mod 4)]"
  "n1 < 64 \<Longrightarrow> n2 < 64 \<Longrightarrow> n3 < 64 \<Longrightarrow>
   b64_decode_loop (b64_out n1 # b64_out n2 # b64_out n3 # CHR ''='' # rest) =
   [char_of (n1 * 4 + n2 div 16 mod 4), char_of (n2 mod 16 * 16 + n3 div 4 mod 16)]"
  by (simp_all only: b64_decode_loop.simps Let_def b64_dec_bits b64_in_out chd_simps list.sel
      b64_out_plain) simp_all

lemma b64_decode_Nil: "b64_decode_loop [] = []"
  by simp

declare b64_decode_loop.simps [simp del] b64_decode_loop_arith [simp] b64_decode_Nil [simp]

lemma b64_decode_encode_loop: "b64_decode_loop (b64_encode_loop False i s) = s"
  by (induction False i s rule: b64_encode_loop.induct) simp_all

lemma b64_encode_plain:
  "c \<in> set (b64_encode_loop w i s) \<Longrightarrow> c \<noteq> NUL \<and> c \<noteq> CHR 0x0D"
proof -
  have "NUL \<notin> set (b64_encode_loop w i s) \<and> CHR 0x0D \<notin> set (b64_encode_loop w i s)"
    by (induction w i s rule: b64_encode_loop.induct) (simp_all add: not_sym [OF b64_out_plain(3)] not_sym [OF b64_out_plain(4)])
  then show "c \<in> set (b64_encode_loop w i s) \<Longrightarrow> c \<noteq> NUL \<and> c \<noteq> CHR 0x0D" by metis
qed

lemma b64_encode_unwrap:
  "filter (\<lambda>c. c \<noteq> CHR 0x0A) (b64_encode_loop w i s) = b64_encode_loop False i s"
  by (induction w i s rule: b64_encode_loop.induct) simp_all

lemma concat_remove: "concat (map (\<lambda>c. if c = d then [] else [c]) s) = filter (\<lambda>c. c \<noteq> d) s"
  by (induction s) auto

lemma Base64_roundtrip: "Base64Decode_n (Base64Encode_n s uWrap) = s"
proof -
  let ?e = "b64_encode_loop (uWrap \<noteq> 0) 0 s"
  have "nul_free ?e" using b64_encode_plain by (auto simp: nul_free_def)
  moreover have "filter (\<lambda>c. c \<noteq> CHR 0x0D) ?e = ?e"
    using b64_encode_plain by (auto simp: filter_id_conv)
  ultimately show ?thesis
    by (simp add: Base64Decode_n_def Base64Encode_n_def Replace_n_single concat_remove
        b64_encode_unwrap b64_decode_encode_loop)
qed

section \<open>The size of the output\<close>

lemma step57: "i mod 3 = 0 \<Longrightarrow> (i + 3) div 57 = i div 57 + (if (i + 3) mod 57 = 0 then 1 else (0::nat))"
proof -
  assume "i mod 3 = 0"
  then obtain k where k: "i = 3 * k" by auto
  have "(3 * n) div (3 * 19) = n div 19" "(3 * n) mod (3 * 19) = 3 * (n mod 19)" for n :: nat
    by (rule div_mult_mult1, simp) (rule mult_mod_right [symmetric])
  then have *: "(3 * n) div 57 = n div 19" "(3 * n) mod 57 = 3 * (n mod 19)" for n :: nat
    by simp_all
  have i3: "i + 3 = 3 * Suc k" by (simp add: k)
  have "Suc k div 19 = k div 19 + (if 3 * (Suc k mod 19) = 0 then 1 else 0)"
    using div_Suc [of k 19] by (simp del: mod_Suc_eq)
  moreover have "i div 57 = k div 19" unfolding k by (rule *)
  ultimately show ?thesis by (simp only: i3 *)
qed

definition newlines_upto :: "nat \<Rightarrow> nat \<Rightarrow> nat" where
  "newlines_upto i len = len div 57 - i div 57 + (if len mod 57 \<noteq> 0 then 1 else 0)"

lemma length_b64_encode_loop:
  "i mod 3 = 0 \<Longrightarrow> length (b64_encode_loop w i s) =
     4 * ((length s + 2) div 3) + (if w then newlines_upto i (i + length s) else 0)"
proof (induction w i s rule: b64_encode_loop.induct)
  case (1 w i x y z rest)
  let ?len = "i + 3 + length rest"
  have "(i + 3) div 57 \<le> ?len div 57" by (simp add: div_le_mono)
  then have "newlines_upto i ?len =
      (if (i + 3) mod 57 = 0 then 1 else 0) + newlines_upto (i + 3) ?len"
    using step57 [OF "1.prems"] by (simp add: newlines_upto_def)
  moreover have "(length (x # y # z # rest) + 2) div 3 = Suc ((length rest + 2) div 3)"
    using div_add_self2 [of 3 "length rest + 2"] by (simp add: add.commute)
  moreover have "i + length (x # y # z # rest) = ?len" by simp
  moreover have "length (b64_encode_loop w i (x # y # z # rest)) =
      4 + (if w \<and> (i + 3) mod 57 = 0 then 1 else 0) + length (b64_encode_loop w (i + 3) rest)"
    by simp
  moreover have "(i + 3) mod 3 = 0" using "1.prems" by simp
  ultimately show ?case using "1.IH" by (simp only: mult_Suc_right) simp
next
  case (3 w i x)
  have "(i + 1) mod 3 = 1" using 3 by presburger
  then have "(i + 1) mod 57 \<noteq> 0" by presburger
  moreover have "(i + 1) div 57 = i div 57" using 3 div_Suc [of i 57] calculation by simp
  ultimately show ?case by (simp add: newlines_upto_def)
next
  case (4 w i x y)
  have a: "(i + 1) mod 57 \<noteq> 0" "(i + 2) mod 57 \<noteq> 0" using 4 by presburger+
  then have "(i + 2) div 57 = i div 57" using div_Suc [of i 57] div_Suc [of "i + 1" 57] by simp
  with a show ?case by (simp add: newlines_upto_def)
qed (simp add: newlines_upto_def)

lemma length_b64_encode: "length (Base64Encode_n s uWrap) + 1 \<le> b64_toalloc (length s) uWrap"
proof -
  have "4 * ((n + 2) div 3) + 1 \<le> (n div 3) * 4 + (3 - n mod 3) mod 3 + 1 + 8" for n :: nat
  proof -
    have "(n + 2) div 3 \<le> (n div 3 + 1)" by presburger
    then show ?thesis by linarith
  qed
  from this [of "length s"]
  have "4 * ((length s + 2) div 3) + 1 \<le> (length s div 3) * 4 + (3 - length s mod 3) mod 3 + 1 + 8" .
  then show ?thesis
    by (simp add: Base64Encode_n_def length_b64_encode_loop newlines_upto_def b64_toalloc_def Let_def)
qed

end
