(* ===== verification/Format.thy ===== *)
theory Format imports Escape begin

text \<open>
  \<open>CString::NamedFormat\<close> and \<open>CString::StripControls_n\<close> (src/ZNCString.cpp): the two
  automata over the bytes of a string, with the flags of the C++ loops as their state.
\<close>

section \<open>NamedFormat\<close>

record namedfmt_state =
  nf_ret :: string
  nf_key :: string
  nf_escape :: bool
  nf_param :: bool

definition namedfmt_step ::
    "(string, string) omap \<Rightarrow> namedfmt_state \<Rightarrow> char \<Rightarrow> namedfmt_state" where
  "namedfmt_step msValues st c =
     (if \<not> nf_param st then
        (if nf_escape st then st \<lparr>nf_ret := nf_ret st @ [c], nf_escape := False\<rparr>
         else if c = CHR 0x5C then st \<lparr>nf_escape := True\<rparr>
         else if c = CHR ''{'' then st \<lparr>nf_param := True, nf_key := []\<rparr>
         else st \<lparr>nf_ret := nf_ret st @ [c]\<rparr>)
      else
        (if nf_escape st then st \<lparr>nf_key := nf_key st @ [c], nf_escape := False\<rparr>
         else if c = CHR 0x5C then st \<lparr>nf_escape := True\<rparr>
         else if c = CHR ''}'' then
           st \<lparr>nf_param := False,
               nf_ret := nf_ret st @ (case map_of msValues (nf_key st) of Some v \<Rightarrow> v | None \<Rightarrow> [])\<rparr>
         else st \<lparr>nf_key := nf_key st @ [c]\<rparr>))"

definition namedfmt_init :: namedfmt_state where
  "namedfmt_init = \<lparr>nf_ret = [], nf_key = [], nf_escape = False, nf_param = False\<rparr>"

definition NamedFormat :: "string \<Rightarrow> (string, string) omap \<Rightarrow> string" where
  "NamedFormat sFormat msValues =
     nf_ret (foldl (namedfmt_step msValues) namedfmt_init (c_str sFormat))"

text \<open>The state between two pieces of a format: plain text, nothing pending.\<close>

definition nf_plain :: "namedfmt_state \<Rightarrow> bool" where
  "nf_plain st \<longleftrightarrow> \<not> nf_param st \<and> \<not> nf_escape st"

lemma namedfmt_literal:
  "nf_plain st \<Longrightarrow> foldl (namedfmt_step m) st (encode_namedfmt c) = st \<lparr>nf_ret := nf_ret st @ [c]\<rparr>"
  by (auto simp: nf_plain_def encode_namedfmt_def namedfmt_step_def)

lemma namedfmt_literals:
  "nf_plain st \<Longrightarrow>
   foldl (namedfmt_step m) st (concat (map encode_namedfmt s)) = st \<lparr>nf_ret := nf_ret st @ s\<rparr>"
proof (induction s arbitrary: st)
  case (Cons c s)
  have "nf_plain (st \<lparr>nf_ret := nf_ret st @ [c]\<rparr>)" using Cons.prems by (simp add: nf_plain_def)
  from Cons.IH [OF this] Cons.prems show ?case by (simp add: namedfmt_literal)
qed simp

lemma namedfmt_key:
  "nf_param st \<Longrightarrow> \<not> nf_escape st \<Longrightarrow>
   foldl (namedfmt_step m) st (concat (map encode_namedfmt k)) = st \<lparr>nf_key := nf_key st @ k\<rparr>"
proof (induction k arbitrary: st)
  case (Cons c k)
  have "foldl (namedfmt_step m) st (encode_namedfmt c) = st \<lparr>nf_key := nf_key st @ [c]\<rparr>"
    using Cons.prems by (auto simp: encode_namedfmt_def namedfmt_step_def)
  with Cons.IH [of "st \<lparr>nf_key := nf_key st @ [c]\<rparr>"] Cons.prems show ?case by simp
qed simp

text \<open>A format is a list of literal pieces and parameters; written out with \<open>Escape_n\<close>.\<close>

datatype fmt_piece = Lit string | Param string

fun write_piece :: "fmt_piece \<Rightarrow> string" where
  "write_piece (Lit s) = concat (map encode_namedfmt s)"
| "write_piece (Param k) = ''{'' @ concat (map encode_namedfmt k) @ ''}''"

fun eval_piece :: "(string, string) omap \<Rightarrow> fmt_piece \<Rightarrow> string" where
  "eval_piece m (Lit s) = s"
| "eval_piece m (Param k) = (case map_of m k of Some v \<Rightarrow> v | None \<Rightarrow> [])"

lemma namedfmt_piece:
  "nf_plain st \<Longrightarrow>
   nf_plain (foldl (namedfmt_step m) st (write_piece p)) \<and>
   nf_ret (foldl (namedfmt_step m) st (write_piece p)) = nf_ret st @ eval_piece m p"
proof (cases p)
  case (Lit s)
  moreover assume "nf_plain st"
  ultimately show ?thesis by (simp add: namedfmt_literals nf_plain_def)
next
  case (Param k)
  assume st: "nf_plain st"
  then have "namedfmt_step m st (CHR ''{'') = st \<lparr>nf_param := True, nf_key := []\<rparr>"
    by (simp add: namedfmt_step_def nf_plain_def)
  with st Param show ?thesis by (simp add: namedfmt_key nf_plain_def) (simp add: namedfmt_step_def)
qed

lemma namedfmt_pieces:
  "nf_plain st \<Longrightarrow>
   nf_ret (foldl (namedfmt_step m) st (concat (map write_piece ps))) =
   nf_ret st @ concat (map (eval_piece m) ps)"
proof (induction ps arbitrary: st)
  case (Cons p ps)
  from namedfmt_piece [OF Cons.prems, of m p] Cons.IH show ?case by simp
qed simp

section \<open>StripControls\<close>

record strip_state =
  sc_ret :: string
  sc_color :: bool
  sc_digits :: nat
  sc_comma :: bool

definition strip_step :: "strip_state \<Rightarrow> char \<Rightarrow> strip_state" where
  "strip_step st ch =
     (if ch = CHR 0x03 then st \<lparr>sc_color := True, sc_digits := 0, sc_comma := False\<rparr>
      else if sc_color st \<and> isdigit_c ch \<and> sc_digits st < 2 then
        st \<lparr>sc_digits := sc_digits st + 1\<rparr>
      else if sc_color st \<and> ch = CHR '','' \<and> \<not> sc_comma st then
        st \<lparr>sc_comma := True, sc_digits := 0\<rparr>
      else
        (let st1 = (if sc_color st
                    then st \<lparr>sc_color := False,
                             sc_ret := sc_ret st @ (if sc_digits st = 0 \<and> sc_comma st then '','' else [])\<rparr>
                    else st)
         in if byte ch < 0x20 \<or> ch = CHR 0x7F then st1
            else st1 \<lparr>sc_ret := sc_ret st1 @ [ch]\<rparr>))"

definition StripControls_n :: "string \<Rightarrow> string" where
  "StripControls_n s =
     (let st = foldl strip_step \<lparr>sc_ret = [], sc_color = False, sc_digits = 0, sc_comma = False\<rparr> s
      in if sc_color st \<and> sc_digits st = 0 \<and> sc_comma st then sc_ret st @ '','' else sc_ret st)"

definition printable :: "char \<Rightarrow> bool" where
  "printable c \<longleftrightarrow> \<not> (byte c < 0x20 \<or> c = CHR 0x7F)"

lemma printable_comma [simp]: "printable (CHR '','')"
  by (simp add: printable_def byte_def)

lemma strip_step_printable:
  "list_all printable (sc_ret st) \<Longrightarrow> list_all printable (sc_ret (strip_step st ch))"
  by (simp add: strip_step_def Let_def) (simp add: printable_def)

lemma strip_fold_printable:
  "list_all printable (sc_ret st) \<Longrightarrow> list_all printable (sc_ret (foldl strip_step st s))"
  by (induction s arbitrary: st) (simp_all add: strip_step_printable)

lemma strip_fold_plain:
  "\<not> sc_color st \<Longrightarrow> list_all printable s \<Longrightarrow>
   foldl strip_step st s = st \<lparr>sc_ret := sc_ret st @ s\<rparr>"
proof (induction s arbitrary: st)
  case (Cons c s)
  have "c \<noteq> CHR 0x03" using Cons.prems by (auto simp: printable_def byte_def)
  with Cons.prems have "strip_step st c = st \<lparr>sc_ret := sc_ret st @ [c]\<rparr>"
    by (auto simp: strip_step_def printable_def)
  with Cons show ?case by simp
qed simp

lemma StripControls_n_printable: "list_all printable (StripControls_n s)"
  using strip_fold_printable [of "\<lparr>sc_ret = [], sc_color = False, sc_digits = 0, sc_comma = False\<rparr>" s]
  by (simp add: StripControls_n_def Let_def)

lemma StripControls_n_id: "list_all printable s \<Longrightarrow> StripControls_n s = s"
  by (simp add: StripControls_n_def strip_fold_plain)

end
