(* ===== verification/File_Lines.thy ===== *)
theory File_Lines imports Cstring begin

text \<open>
  \<open>CFile::ReadLine\<close> (src/FileUtils.cpp): a line is cut from the buffer, which is filled by
  read(2) with chunks of at most 4096 bytes until it holds a delimiter. The chunks are what
  the operating system returns: a list of non-empty strings; the empty list is the end of
  the file. \<open>lines_of\<close> is the meaning: the lines do not depend on how the bytes arrive.
\<close>

record cfile =
  f_buffer :: string
  f_chunks :: "string list"

function ReadLine_d :: "string \<Rightarrow> cfile \<Rightarrow> string option \<times> cfile" where
  "ReadLine_d sDelimiter f =
     (case find_str sDelimiter (f_buffer f) of
        Some iFind \<Rightarrow>
          (Some (take (iFind + length sDelimiter) (f_buffer f)),
           f \<lparr>f_buffer := drop (iFind + length sDelimiter) (f_buffer f)\<rparr>)
      | None \<Rightarrow>
          (case f_chunks f of
             chunk # rest \<Rightarrow>
               ReadLine_d sDelimiter (f \<lparr>f_buffer := f_buffer f @ chunk, f_chunks := rest\<rparr>)
           | [] \<Rightarrow>
               if f_buffer f \<noteq> [] then (Some (f_buffer f), f \<lparr>f_buffer := []\<rparr>) else (None, f)))"
  by pat_completeness auto
termination
  by (relation "measure (\<lambda>(d, f). length (f_chunks f))") auto

declare ReadLine_d.simps [simp del]

abbreviation ReadLine :: "cfile \<Rightarrow> string option \<times> cfile" where
  "ReadLine f \<equiv> ReadLine_d [CHR 0x0A] f"

text \<open>The unread bytes of a file, and its lines with their newlines.\<close>

definition file_rest :: "cfile \<Rightarrow> string" where
  "file_rest f = f_buffer f @ concat (f_chunks f)"

fun lines_of :: "string \<Rightarrow> string list" where
  "lines_of [] = []"
| "lines_of (c # s) =
     (if c = CHR 0x0A then [c] # lines_of s
      else (case lines_of s of [] \<Rightarrow> [[c]] | l # ls \<Rightarrow> (c # l) # ls))"

lemma lines_of_line:
  "CHR 0x0A \<notin> set l \<Longrightarrow> lines_of (l @ CHR 0x0A # s) = (l @ [CHR 0x0A]) # lines_of s"
  by (induction l) auto

lemma lines_of_last: "CHR 0x0A \<notin> set l \<Longrightarrow> l \<noteq> [] \<Longrightarrow> lines_of l = [l]"
proof (induction l)
  case (Cons c l)
  then show ?case by (cases "l = []") auto
qed simp

lemma concat_lines_of: "concat (lines_of s) = s"
  by (induction s) (auto split: list.split)

lemma ReadLine_lines:
  "(case ReadLine f of
      (Some l, f') \<Rightarrow> lines_of (file_rest f) = l # lines_of (file_rest f')
    | (None, f') \<Rightarrow> file_rest f = [] \<and> f' = f) \<or> (\<exists>c \<in> set (f_chunks f). c = [])"
proof (induction "[CHR 0x0A]" f rule: ReadLine_d.induct)
  case (1 f)
  show ?case
  proof (cases "find_char (CHR 0x0A) (f_buffer f)")
    case (Some i)
    define a where "a = take i (f_buffer f)"
    define b where "b = drop (Suc i) (f_buffer f)"
    have ab: "f_buffer f = a @ CHR 0x0A # b" "CHR 0x0A \<notin> set a" "length a = i"
      using find_char_split [OF Some] Some unfolding a_def b_def find_char_Some by simp_all
    then have "lines_of (file_rest f) = (a @ [CHR 0x0A]) # lines_of (b @ concat (f_chunks f))"
      by (simp add: file_rest_def lines_of_line)
    with Some ab show ?thesis
      by (subst ReadLine_d.simps) (simp add: find_str_single file_rest_def)
  next
    case None
    then have nb: "CHR 0x0A \<notin> set (f_buffer f)" by simp
    show ?thesis
    proof (cases "f_chunks f")
      case Nil
      have "ReadLine f =
          (if f_buffer f \<noteq> [] then (Some (f_buffer f), f \<lparr>f_buffer := []\<rparr>) else (None, f))"
        using None Nil by (subst ReadLine_d.simps) (simp add: find_str_single del: find_char_None)
      with nb Nil show ?thesis by (simp add: file_rest_def lines_of_last)
    next
      case (Cons chunk rest)
      let ?f = "f \<lparr>f_buffer := f_buffer f @ chunk, f_chunks := rest\<rparr>"
      have step: "ReadLine f = ReadLine ?f"
        using None Cons by (subst ReadLine_d.simps) (simp add: find_str_single del: find_char_None)
      have rest: "file_rest ?f = file_rest f" using Cons by (simp add: file_rest_def)
      show ?thesis
        using "1" [OF _ Cons] None Cons rest step
        by (auto simp: find_str_single file_rest_def split: prod.splits option.splits)
    qed
  qed
qed

lemma find_str_bound: "find_str t s = Some i \<Longrightarrow> i + length t \<le> length s"
proof (induction s arbitrary: i)
  case (Cons c s)
  show ?case
  proof (cases "take (length t) (c # s) = t")
    case True
    then have "length t \<le> length (c # s)" by (metis length_take min.cobounded1 min_def nat_le_linear)
    with True Cons show ?thesis by auto
  qed (use Cons in auto)
qed (simp split: if_splits)

lemma ReadLine_shorter:
  "d \<noteq> [] \<Longrightarrow> ReadLine_d d f = (Some l, f') \<Longrightarrow> length (file_rest f') < length (file_rest f)"
proof (induction d f arbitrary: f' rule: ReadLine_d.induct)
  case (1 d f)
  show ?case
  proof (cases "find_str d (f_buffer f)")
    case (Some i)
    with "1.prems" have "f' = f \<lparr>f_buffer := drop (i + length d) (f_buffer f)\<rparr>"
      by (subst (asm) ReadLine_d.simps) simp
    with find_str_bound [OF Some] "1.prems"(1) show ?thesis
      by (cases d) (auto simp: file_rest_def)
  next
    case None
    show ?thesis
    proof (cases "f_chunks f")
      case Nil
      with None "1.prems" show ?thesis
        by (subst (asm) ReadLine_d.simps) (auto simp: file_rest_def split: if_splits)
    next
      case (Cons chunk rest)
      with None "1.prems" have
        "ReadLine_d d (f \<lparr>f_buffer := f_buffer f @ chunk, f_chunks := rest\<rparr>) = (Some l, f')"
        by (subst (asm) ReadLine_d.simps) simp
      from "1.IH" [OF None Cons "1.prems"(1) this] Cons show ?thesis
        by (simp add: file_rest_def)
    qed
  qed
qed

text \<open>The loop \<open>while (ReadLine (sLine))\<close>: the lines it hands to its body.\<close>

function read_all :: "cfile \<Rightarrow> string list" where
  "read_all f = (case ReadLine f of (Some l, f') \<Rightarrow> l # read_all f' | (None, f') \<Rightarrow> [])"
  by pat_completeness auto
termination
proof (relation "measure (\<lambda>f. length (file_rest f))", goal_cases)
  case (2 f r f' l)
  then show ?case using ReadLine_shorter [of "[CHR 0x0A]" f l f'] by simp
qed simp

declare read_all.simps [simp del]

definition chunks_ok :: "cfile \<Rightarrow> bool" where
  "chunks_ok f \<longleftrightarrow> (\<forall>c \<in> set (f_chunks f). c \<noteq> [])"

lemma chunks_ok_ReadLine: "ReadLine_d d f = (r, f') \<Longrightarrow> chunks_ok f \<Longrightarrow> chunks_ok f'"
proof (induction d f rule: ReadLine_d.induct)
  case (1 d f)
  then show ?case
    by (subst (asm) (1) ReadLine_d.simps)
       (auto simp: chunks_ok_def split: option.splits list.splits if_splits)
qed

lemma read_all_lines: "chunks_ok f \<Longrightarrow> read_all f = lines_of (file_rest f)"
proof (induction f rule: read_all.induct)
  case (1 f)
  obtain r f' where r: "ReadLine f = (r, f')" by (cases "ReadLine f")
  have ok: "chunks_ok f'" using chunks_ok_ReadLine [OF r "1.prems"] .
  show ?case
  proof (cases r)
    case None
    with r ReadLine_lines [of f] "1.prems" have "file_rest f = []" by (auto simp: chunks_ok_def)
    then show ?thesis using r None by (subst read_all.simps) simp
  next
    case (Some l)
    with r ReadLine_lines [of f] "1.prems" have "lines_of (file_rest f) = l # lines_of (file_rest f')"
      by (auto simp: chunks_ok_def)
    moreover have "read_all f' = lines_of (file_rest f')"
      using "1.IH" [of r f' l] r Some ok by simp
    ultimately show ?thesis using r Some by (subst read_all.simps) simp
  qed
qed

text \<open>A file whose bytes arrive as the given chunks.\<close>

definition open_file :: "string list \<Rightarrow> cfile" where
  "open_file chunks = \<lparr>f_buffer = [], f_chunks = chunks\<rparr>"

lemma read_all_open: "[] \<notin> set chunks \<Longrightarrow> read_all (open_file chunks) = lines_of (concat chunks)"
  by (subst read_all_lines) (auto simp: chunks_ok_def open_file_def file_rest_def)

end
