(* ===== verification/Mcstring.thy ===== *)
theory Mcstring imports Format File_Lines begin

text \<open>
  MCString (src/ZNCString.cpp): \<open>Encode\<close> and \<open>Decode\<close> of the strings of a registry file,
  and the two loops \<open>WriteToDisk\<close> and \<open>ReadFromDisk\<close> over an ordered map. A file is the
  string written to it; reading gets it in arbitrary chunks (File_Lines). The filters are
  the defaults of the class, which accept every pair.
\<close>

definition hexdigits :: string where
  "hexdigits = ''0123456789abcdef''"

definition encode_mc :: "char \<Rightarrow> string" where
  "encode_mc c =
     (if isalnum_c c then [c]
      else ''%'' @ [hexdigits ! (byte c div 16)] @ [hexdigits ! (byte c mod 16)] @ '';'')"

definition Encode :: "string \<Rightarrow> string" where
  "Encode sValue = concat (map encode_mc sValue)"

lemma length_scan_digits: "length (snd (scan_digits base acc p)) \<le> length p"
  by (induction p arbitrary: acc) (auto simp: le_Suc_eq)

lemma length_strtol: "length (snd (strtol base p)) \<le> length p"
proof -
  have drop: "length (dropWhile isspace_c p) \<le> length p" by (rule length_dropWhile_le)
  have "length (skip_0x base q) \<le> length q" for q
    by (auto simp: skip_0x_def split: list.splits)
  then have "length (skip_0x base q) \<le> length p" if "length q \<le> length p" for q
    using that le_trans by blast
  then have "length (snd (scan_digits base 0 (skip_0x base q))) \<le> length p" if "length q \<le> length p" for q
    using that length_scan_digits [of base 0 "skip_0x base q"] le_trans by blast
  moreover have "length (tl (dropWhile isspace_c p)) \<le> length p" using drop by simp
  ultimately show ?thesis
    using drop by (auto simp: strtol_def scan_int_def Let_def split_def)
qed

function Decode :: "string \<Rightarrow> string" where
  "Decode pTmp =
     (if chd pTmp = NUL then []
      else if chd pTmp \<noteq> CHR ''%'' then chd pTmp # Decode (tl pTmp)
      else (let (v, endptr) = strtol 16 (tl pTmp)
            in if chd endptr = CHR '';'' then char_of (nat (v mod 256)) # Decode (tl endptr)
               else chd pTmp # Decode (tl pTmp)))"
  by pat_completeness auto
termination
proof (relation "measure length", goal_cases)
  case (3 pTmp x v endptr)
  then have "length endptr \<le> length (tl pTmp)" "pTmp \<noteq> []"
    using length_strtol [of 16 "tl pTmp"] chd_not_NUL by (auto simp flip: 3(3))
  then show ?case by (cases pTmp) auto
qed (auto simp: chd_not_NUL)

declare Decode.simps [simp del]

section \<open>Decode undoes Encode\<close>

lemma hexdigits_lower: "n < 16 \<Longrightarrow> hexdigits ! n = tolower_c (szHex ! n)"
proof -
  have "list_all (\<lambda>n. hexdigits ! n = tolower_c (szHex ! n)) [0..<16]" by code_simp
  then show "n < 16 \<Longrightarrow> hexdigits ! n = tolower_c (szHex ! n)" by (simp add: list_all_iff)
qed

lemma digit_val_xdigit: "isxdigit_c c \<Longrightarrow> digit_val c = Some (hexv c) \<and> hexv c < 16"
  by (auto simp: digit_val_def hexv_def byte_tolower ctype_simps)

lemma isxdigit_plain:
  "isxdigit_c c \<Longrightarrow> c \<noteq> CHR ''-'' \<and> c \<noteq> CHR ''+'' \<and> \<not> isspace_c c \<and> c \<noteq> NUL \<and> tolower_c c \<noteq> CHR ''x''"
proof -
  assume c: "isxdigit_c c"
  have "byte (tolower_c c) < 103"
    using c by (auto simp: byte_tolower ctype_simps)
  moreover have "byte (CHR ''x'') = 120" by (simp add: byte_def)
  ultimately have "tolower_c c \<noteq> CHR ''x''" by auto
  then show ?thesis using c by (auto simp: ctype_simps byte_def)
qed

lemma strtol_hex_pair:
  assumes "isxdigit_c h" and "isxdigit_c l"
  shows "strtol 16 (h # l # CHR '';'' # rest) = (int (hexv h * 16 + hexv l), CHR '';'' # rest)"
proof -
  note h = digit_val_xdigit [OF assms(1)] isxdigit_plain [OF assms(1)]
  note l = digit_val_xdigit [OF assms(2)] isxdigit_plain [OF assms(2)]
  have semi: "\<not> is_digit_of 16 (CHR '';'')"
    by (simp add: is_digit_of_def digit_val_def ctype_simps byte_def)
  have "hexv h * 16 + hexv l < 2 ^ 63" using h l by (simp add: less_imp_le)
  then show ?thesis
    using h l semi
    by (simp add: strtol_def scan_int_def Let_def skip_0x_def is_digit_of_def)
qed

lemma Decode_encode_mc: "Decode (encode_mc c @ rest) = c # Decode rest"
proof (cases "isalnum_c c")
  case True
  then have "c \<noteq> NUL" "c \<noteq> CHR ''%''" using isalnum_not_special by blast+
  with True show ?thesis by (subst Decode.simps) (simp add: encode_mc_def)
next
  case False
  let ?h = "tolower_c (hex_hi c)" and ?l = "tolower_c (hex_lo c)"
  have "hexv ?h * 16 + hexv ?l < 256 \<and> char_of (hexv ?h * 16 + hexv ?l) = c"
    using hex_pair_hex(2) [of c] digit_val_xdigit [of ?h] digit_val_xdigit [of ?l]
    by (simp add: hex_pair_def)
  moreover have "encode_mc c = ''%'' @ [?h, ?l] @ '';''"
    using False by (simp add: encode_mc_def hexdigits_lower hex_hi_def hex_lo_def)
  ultimately show ?thesis
    by (subst Decode.simps) (simp add: strtol_hex_pair nat_mod_distrib nat_add_distrib nat_mult_distrib)
qed

lemma Decode_Nil [simp]: "Decode [] = []"
  by (subst Decode.simps) simp

lemma Decode_Encode: "Decode (Encode s) = s"
  by (induction s) (simp_all add: Encode_def Decode_encode_mc)

definition safe_mc :: "char \<Rightarrow> bool" where
  "safe_mc c \<longleftrightarrow> isalnum_c c \<or> c = CHR ''%'' \<or> c = CHR '';''"

lemma Encode_safe: "c \<in> set (Encode s) \<Longrightarrow> safe_mc c"
  by (auto simp: Encode_def encode_mc_def safe_mc_def hexdigits_lower
      hex_digit_facts split: if_splits)

lemma Encode_Nil [simp]: "Encode [] = []"
  by (simp add: Encode_def)

lemma Encode_eq_Nil [simp]: "Encode s = [] \<longleftrightarrow> s = []"
  by (cases s) (auto simp: Encode_def encode_mc_def)

lemma safe_mc_plain:
  "safe_mc c \<Longrightarrow> c \<notin> set ws \<and> c \<noteq> CHR 0x0A \<and> c \<noteq> CHR '' '' \<and> c \<noteq> NUL"
  by (auto simp: safe_mc_def ws_def dest: isalnum_not_special)

lemma Encode_plain: "c \<in> set (Encode s) \<Longrightarrow> c \<notin> set ws \<and> c \<noteq> CHR 0x0A \<and> c \<noteq> CHR '' '' \<and> c \<noteq> NUL"
  using Encode_safe safe_mc_plain by blast

section \<open>The registry file\<close>

definition write_entry :: "string \<times> string \<Rightarrow> string" where
  "write_entry e =
     (if fst e = [] then [] else Encode (fst e) @ '' '' @ Encode (snd e) @ [CHR 0x0A])"

definition WriteToDisk :: "(string, string) omap \<Rightarrow> string" where
  "WriteToDisk m = concat (map write_entry m)"

definition read_entry :: "string \<Rightarrow> (string, string) omap \<Rightarrow> (string, string) omap" where
  "read_entry sLine m =
     (let sBuffer = Trim_n ws sLine;
          sKey = Decode (token sBuffer 0);
          sValue = Decode (token sBuffer 1)
      in om_insert sKey sValue m)"

definition ReadFromDisk :: "cfile \<Rightarrow> (string, string) omap" where
  "ReadFromDisk f = fold read_entry (read_all f) []"

lemma Trim_entry:
  assumes "k \<noteq> []"
  shows "Trim_n ws (Encode k @ '' '' @ Encode v @ [CHR 0x0A]) =
    Encode k @ (if v = [] then [] else '' '' @ Encode v)"
proof -
  have no: "c \<in> set (Encode s) \<Longrightarrow> c \<notin> set ws" for c s using Encode_plain by blast
  have ne: "Encode k \<noteq> []" using assms by simp
  have left: "dropWhile (\<lambda>c. c \<in> set ws) (Encode k @ t) = Encode k @ t" for t
    using ne no [of "hd (Encode k)" k] by (cases "Encode k") auto
  have right: "rdropWhile (\<lambda>c. c \<in> set ws) (t @ Encode s) = t @ Encode s" if "s \<noteq> []" for s t
    using that no [of "last (Encode s)" s] by (intro rdropWhile_id) simp
  have mem: "CHR 0x0A \<in> set ws" "CHR '' '' \<in> set ws" by (simp_all add: ws_def)
  have "rdropWhile (\<lambda>c. c \<in> set ws) ((Encode k @ '' '' @ Encode v) @ [CHR 0x0A]) =
      Encode k @ (if v = [] then [] else '' '' @ Encode v)"
  proof (cases "v = []")
    case True
    have "rdropWhile (\<lambda>c. c \<in> set ws) ((Encode k @ '' '') @ [CHR 0x0A]) = Encode k"
      using mem right [OF assms, of "[]"] by (simp only: rdropWhile_snoc append_Nil if_True)
    then show ?thesis using True by simp
  next
    case False
    have "rdropWhile (\<lambda>c. c \<in> set ws) ((Encode k @ '' '' @ Encode v) @ [CHR 0x0A]) =
        Encode k @ '' '' @ Encode v"
      using mem right [OF False, of "Encode k @ '' ''"]
      by (subst rdropWhile_snoc) simp
    then show ?thesis using False by simp
  qed
  then show ?thesis using left [of "'' '' @ Encode v @ [CHR 0x0A]"] by (simp add: Trim_n_eq)
qed

lemma nonempty_fields_entry:
  assumes "k \<noteq> []"
  shows "nonempty_fields (CHR '' '') (Encode k @ (if v = [] then [] else '' '' @ Encode v)) =
    Encode k # (if v = [] then [] else [Encode v])"
proof -
  have "CHR '' '' \<notin> set (Encode s)" for s using Encode_plain by blast
  with assms show ?thesis
    by (simp add: nonempty_fields_def fields_atom fields_append)
qed

lemma read_write_entry:
  "fst e \<noteq> [] \<Longrightarrow> read_entry (write_entry e) m = om_insert (fst e) (snd e) m"
  using nonempty_fields_entry [of "fst e" "snd e"]
    Trim_entry [of "fst e" "snd e"]
  by (simp add: read_entry_def write_entry_def Let_def Token_nth_field Decode_Encode)

lemma lines_of_WriteToDisk:
  "lines_of (WriteToDisk m) = map write_entry (filter (\<lambda>e. fst e \<noteq> []) m)"
proof (induction m)
  case (Cons e m)
  show ?case
  proof (cases "fst e = []")
    case True
    with Cons show ?thesis by (simp add: WriteToDisk_def write_entry_def)
  next
    case False
    have "CHR 0x0A \<notin> set (Encode (fst e) @ '' '' @ Encode (snd e))" using Encode_plain by auto
    from lines_of_line [OF this, of "WriteToDisk m"] Cons False
    show ?thesis by (simp add: WriteToDisk_def write_entry_def)
  qed
qed (simp add: WriteToDisk_def)

lemma om_ok_filter: "om_ok m \<Longrightarrow> om_ok (filter P m)"
  by (induction m) (auto simp: om_ok_def)

lemma fold_read_write:
  assumes "\<forall>e \<in> set m. fst e \<noteq> []"
  shows "fold read_entry (map write_entry m) acc = fold (\<lambda>e. om_insert (fst e) (snd e)) m acc"
  using assms by (induction m arbitrary: acc) (simp_all add: read_write_entry)

lemma ReadFromDisk_WriteToDisk:
  assumes "om_ok m" and "[] \<notin> set chunks" and "concat chunks = WriteToDisk m"
  shows "ReadFromDisk (open_file chunks) = filter (\<lambda>e. fst e \<noteq> []) m"
proof -
  let ?m = "filter (\<lambda>e. fst e \<noteq> []) m"
  have "ReadFromDisk (open_file chunks) = fold (\<lambda>e. om_insert (fst e) (snd e)) ?m []"
    using fold_read_write [of ?m "[]"]
    by (simp add: ReadFromDisk_def read_all_open [OF assms(2)] assms(3) lines_of_WriteToDisk)
  also have "(\<lambda>e. om_insert (fst e) (snd e)) = (\<lambda>(k, v). om_insert k v)"
    by (simp add: fun_eq_iff split_def)
  also have "fold (\<lambda>(k, v). om_insert k v) ?m [] = ?m"
    using om_rebuild [of "[]" ?m] om_ok_filter [OF assms(1)] by simp
  finally show ?thesis .
qed

end
