(* ===== verification/Nick.thy ===== *)
theory Nick imports Cstring begin

text \<open>
  CNick (src/Nick.cpp): a nick mask in its three parts and the channel permissions of the
  nick, one character per mode, in the order they were given. The pointer to the network
  serves only to look up the permission characters of the server; it is the argument
  \<open>perms\<close> of \<open>GetPermChar\<close> and \<open>GetPermStr\<close> (\<open>default_perms\<close> when there is no socket).
\<close>

record nick =
  m_sNick :: string
  m_sIdent :: string
  m_sHost :: string
  m_sChanPerms :: string

definition empty_nick :: nick where
  "empty_nick = \<lparr>m_sNick = [], m_sIdent = [], m_sHost = [], m_sChanPerms = []\<rparr>"

definition default_perms :: string where
  "default_perms = ''@+''"

definition Nick_Reset :: "nick \<Rightarrow> nick" where
  "Nick_Reset n = n \<lparr>m_sChanPerms := []\<rparr>"

definition Nick_Parse :: "string \<Rightarrow> nick \<Rightarrow> nick" where
  "Nick_Parse sNickMask n =
     (if sNickMask = [] then n
      else
        (let skip = (if hd sNickMask = CHR '':'' then 1 else 0)
         in case find_char (CHR ''!'') sNickMask of
              None \<Rightarrow> n \<lparr>m_sNick := drop skip sNickMask\<rparr>
            | Some uPos \<Rightarrow>
                (let n1 = n \<lparr>m_sNick := take (uPos - skip) (drop skip sNickMask)\<rparr>;
                     host = drop (uPos + 1) sNickMask
                 in case find_char (CHR ''@'') host of
                      None \<Rightarrow> n1 \<lparr>m_sHost := host\<rparr>
                    | Some uPos2 \<Rightarrow>
                        n1 \<lparr>m_sIdent := take uPos2 host, m_sHost := drop (uPos2 + 1) host\<rparr>)))"

definition mk_nick :: "string \<Rightarrow> nick" where
  "mk_nick sNick = Nick_Parse sNick empty_nick"

definition NickEquals :: "nick \<Rightarrow> string \<Rightarrow> bool" where
  "NickEquals n nickname = equals_ci (m_sNick n) nickname"

definition HasPerm :: "nick \<Rightarrow> char \<Rightarrow> bool" where
  "HasPerm n cPerm \<longleftrightarrow> cPerm \<noteq> NUL \<and> cPerm \<in> set (m_sChanPerms n)"

definition AddPerm :: "char \<Rightarrow> nick \<Rightarrow> bool \<times> nick" where
  "AddPerm cPerm n =
     (if cPerm = NUL \<or> HasPerm n cPerm then (False, n)
      else (True, n \<lparr>m_sChanPerms := m_sChanPerms n @ [cPerm]\<rparr>))"

definition RemPerm :: "char \<Rightarrow> nick \<Rightarrow> bool \<times> nick" where
  "RemPerm cPerm n =
     (case find_char cPerm (m_sChanPerms n) of
        None \<Rightarrow> (False, n)
      | Some uPos \<Rightarrow>
          (True, n \<lparr>m_sChanPerms := take uPos (m_sChanPerms n) @ drop (Suc uPos) (m_sChanPerms n)\<rparr>))"

definition GetPermChar :: "string \<Rightarrow> nick \<Rightarrow> char" where
  "GetPermChar perms n = (case filter (HasPerm n) perms of [] \<Rightarrow> NUL | c # _ \<Rightarrow> c)"

definition GetPermStr :: "string \<Rightarrow> nick \<Rightarrow> string" where
  "GetPermStr perms n = filter (HasPerm n) perms"

definition GetNickMask :: "nick \<Rightarrow> string" where
  "GetNickMask n =
     m_sNick n @
     (if m_sHost n \<noteq> [] then (if m_sIdent n \<noteq> [] then ''!'' @ m_sIdent n else []) @ ''@'' @ m_sHost n
      else [])"

definition GetHostMask :: "nick \<Rightarrow> string" where
  "GetHostMask n =
     m_sNick n @ (if m_sIdent n \<noteq> [] then ''!'' @ m_sIdent n else []) @
     (if m_sHost n \<noteq> [] then ''@'' @ m_sHost n else [])"

definition Nick_Clone :: "nick \<Rightarrow> nick \<Rightarrow> nick" where
  "Nick_Clone SourceNick n =
     n \<lparr>m_sNick := m_sNick SourceNick, m_sIdent := m_sIdent SourceNick,
        m_sHost := m_sHost SourceNick, m_sChanPerms := m_sChanPerms SourceNick\<rparr>"

section \<open>Permissions\<close>

text \<open>No NUL and no permission twice: what the three mutators keep.\<close>

definition perms_ok :: "nick \<Rightarrow> bool" where
  "perms_ok n \<longleftrightarrow> nul_free (m_sChanPerms n) \<and> distinct (m_sChanPerms n)"

lemma perms_ok_empty [simp]: "perms_ok empty_nick"
  by (simp add: perms_ok_def empty_nick_def)

lemma perms_ok_AddPerm [simp, wf_intros]: "perms_ok n \<Longrightarrow> perms_ok (snd (AddPerm c n))"
  by (auto simp: perms_ok_def AddPerm_def HasPerm_def)

lemma perms_ok_RemPerm [simp, wf_intros]: "perms_ok n \<Longrightarrow> perms_ok (snd (RemPerm c n))"
  unfolding perms_ok_def RemPerm_def
  by (auto split: option.split simp: nul_free_take nul_free_drop set_take_disj_set_drop_if_distinct)

lemma perms_ok_Reset [simp, wf_intros]: "perms_ok (Nick_Reset n)"
  by (simp add: perms_ok_def Nick_Reset_def)

lemma perms_ok_Parse [simp, wf_intros]: "perms_ok (Nick_Parse m n) = perms_ok n"
  by (simp add: perms_ok_def Nick_Parse_def Let_def split: option.split)

lemma perms_ok_mk_nick [simp]: "perms_ok (mk_nick m)"
  by (simp add: mk_nick_def)

lemma m_sChanPerms_Parse [simp]: "m_sChanPerms (Nick_Parse m n) = m_sChanPerms n"
  by (simp add: Nick_Parse_def Let_def split: option.split)

lemma HasPerm_AddPerm: "HasPerm (snd (AddPerm c n)) d \<longleftrightarrow> HasPerm n d \<or> (d = c \<and> c \<noteq> NUL)"
  by (auto simp: AddPerm_def HasPerm_def)

lemma HasPerm_RemPerm: "perms_ok n \<Longrightarrow> HasPerm (snd (RemPerm c n)) d \<longleftrightarrow> HasPerm n d \<and> d \<noteq> c"
proof (cases "find_char c (m_sChanPerms n)")
  case None
  then show ?thesis by (auto simp: RemPerm_def HasPerm_def)
next
  case (Some i)
  assume ok: "perms_ok n"
  let ?p = "m_sChanPerms n"
  have "?p = take i ?p @ c # drop (Suc i) ?p" using find_char_split [OF Some] by simp
  then have "set ?p = insert c (set (take i ?p) \<union> set (drop (Suc i) ?p))"
    "c \<notin> set (take i ?p) \<union> set (drop (Suc i) ?p)"
    using ok unfolding perms_ok_def
    by (metis Un_insert_right list.simps(15) set_append, metis distinct_append disjoint_insert(1)
        distinct.simps(2) list.simps(15) Un_iff)
  then show ?thesis using Some by (auto simp: RemPerm_def HasPerm_def)
qed

lemma other_fields_perms [simp]:
  "m_sNick (snd (AddPerm c n)) = m_sNick n" "m_sNick (snd (RemPerm c n)) = m_sNick n"
  "m_sIdent (snd (AddPerm c n)) = m_sIdent n" "m_sIdent (snd (RemPerm c n)) = m_sIdent n"
  "m_sHost (snd (AddPerm c n)) = m_sHost n" "m_sHost (snd (RemPerm c n)) = m_sHost n"
  by (simp_all add: AddPerm_def RemPerm_def split: option.split)

lemma GetPermChar_HasPerm: "GetPermChar perms n \<noteq> NUL \<Longrightarrow> HasPerm n (GetPermChar perms n)"
  unfolding GetPermChar_def by (auto split: list.splits dest: filter_eq_ConsD)

section \<open>Masks\<close>

text \<open>The parts for which a host mask can be read back: both or none of ident and host.\<close>

definition mask_ok :: "nick \<Rightarrow> bool" where
  "mask_ok n \<longleftrightarrow>
     m_sNick n \<noteq> [] \<and> hd (m_sNick n) \<noteq> CHR '':'' \<and> CHR ''!'' \<notin> set (m_sNick n) \<and>
     CHR ''@'' \<notin> set (m_sIdent n) \<and> (m_sIdent n = [] \<longleftrightarrow> m_sHost n = [])"

lemma Parse_GetHostMask:
  assumes "mask_ok n"
  shows "Nick_Parse (GetHostMask n) (empty_nick \<lparr>m_sChanPerms := m_sChanPerms n\<rparr>) = n"
proof (cases "m_sHost n = []")
  case True
  with assms show ?thesis
    by (cases n) (auto simp: mask_ok_def GetHostMask_def Nick_Parse_def empty_nick_def)
next
  case False
  let ?m = "m_sNick n @ CHR ''!'' # m_sIdent n @ CHR ''@'' # m_sHost n"
  have "GetHostMask n = ?m" using False assms by (simp add: mask_ok_def GetHostMask_def)
  moreover have "hd ?m \<noteq> CHR '':''" "?m \<noteq> []" using assms by (simp_all add: mask_ok_def)
  ultimately show ?thesis
    using assms by (cases n) (simp add: mask_ok_def Nick_Parse_def empty_nick_def)
qed

lemma mk_nick_GetHostMask:
  "mask_ok n \<Longrightarrow> m_sChanPerms n = [] \<Longrightarrow> mk_nick (GetHostMask n) = n"
  using Parse_GetHostMask [of n] by (simp add: mk_nick_def empty_nick_def)

text \<open>A mask without the exclamation mark leaves ident and host as they were.\<close>

lemma Parse_without_bang:
  "m \<noteq> [] \<Longrightarrow> CHR ''!'' \<notin> set m \<Longrightarrow> hd m \<noteq> CHR '':'' \<Longrightarrow> Nick_Parse m n = n \<lparr>m_sNick := m\<rparr>"
  by (auto simp: Nick_Parse_def Let_def simp flip: find_char_None split: option.split)

end
