(* ===== verification/Message.thy ===== *)
theory Message imports Nick Mcstring begin

text \<open>
  CMessage (src/Message.cpp, include/znc/Message.h): an IRC line taken apart into tags,
  sender, command and parameters, its type, and the views of the subclasses. The pointers
  to client and network are not kept; \<open>m_pChan\<close> is the name of the channel the message is
  about. Times are pairs of seconds and microseconds; the parser of server times and the
  clock are arguments of \<open>InitTime\<close>.
\<close>

datatype mtype = TUnknown | TAccount | TAction | TAuthenticate | TAway | TCapability | TChgHost
  | TCTCP | TError | TInvite | TJoin | TKick | TMode | TNick | TNotice | TNumeric | TPart
  | TPing | TPong | TQuit | TTagMsg | TText | TTopic | TWallops

record message =
  m_Nick :: nick
  m_sCommand :: string
  m_vsParams :: "string list"
  m_mssTags :: "(string, string) omap"
  m_time :: "nat \<times> nat"
  m_pChan :: "string option"
  m_eType :: mtype
  m_bColon :: bool

definition empty_message :: message where
  "empty_message = \<lparr>m_Nick = empty_nick, m_sCommand = [], m_vsParams = [], m_mssTags = [],
     m_time = (0, 0), m_pChan = None, m_eType = TUnknown, m_bColon = False\<rparr>"

section \<open>Parameters\<close>

definition GetParam :: "message \<Rightarrow> nat \<Rightarrow> string" where
  "GetParam m uIdx = (if uIdx \<ge> length (m_vsParams m) then [] else m_vsParams m ! uIdx)"

text \<open>The marker of a trailing parameter.\<close>

definition colon_param :: "bool \<Rightarrow> string \<Rightarrow> string" where
  "colon_param bColon sParam =
     (if bColon \<or> sParam = [] \<or> starts_ci sParam '':'' \<or> Contains sParam '' '' CaseInsensitive
      then '':'' @ sParam else sParam)"

text \<open>
  GetParamsColon with the unsigned arithmetic of the source: size () - uIdx - 1 is a 64-bit
  difference, uIdx + uLen a 32-bit sum. None is the read outside the vector that happens
  when an explicit length is given with an index beyond the end.
\<close>

definition uint_max :: nat where
  "uint_max = 2 ^ 32 - 1"

definition GetParamsColon :: "message \<Rightarrow> nat \<Rightarrow> nat \<Rightarrow> string option" where
  "GetParamsColon m uIdx uLen =
     (let vs = m_vsParams m; n = length vs in
      if vs = [] \<or> uLen = 0 then Some []
      else
        (let uLen' = (if int uLen > (int n - int uIdx - 1) mod 2 ^ 64
                      then nat ((int n - int uIdx) mod 2 ^ 32) else uLen);
             uEnd = (uIdx + uLen') mod 2 ^ 32
         in if uIdx < uEnd \<and> n < uEnd then None
            else Some (Join '' '' (map (\<lambda>i. if i = n - 1 then colon_param (m_bColon m) (vs ! i) else vs ! i)
                                     [uIdx ..< uEnd]))))"

definition GetParamsSplit :: "message \<Rightarrow> nat \<Rightarrow> nat \<Rightarrow> string list" where
  "GetParamsSplit m uIdx uLen =
     (let params = m_vsParams m in
      if params = [] \<or> uLen = 0 \<or> uIdx \<ge> length params then []
      else (let uLen' = (if uLen > length params - uIdx - 1 then length params - uIdx else uLen)
            in take uLen' (drop uIdx params)))"

section \<open>The type\<close>

definition soh :: string where
  "soh = [CHR 0x01]"

definition command_types :: "(string \<times> mtype) list" where
  "command_types = [(''ACCOUNT'', TAccount), (''AUTHENTICATE'', TAuthenticate), (''AWAY'', TAway),
     (''CAP'', TCapability), (''CHGHOST'', TChgHost), (''ERROR'', TError), (''INVITE'', TInvite),
     (''JOIN'', TJoin), (''KICK'', TKick), (''MODE'', TMode), (''NICK'', TNick), (''PART'', TPart),
     (''PING'', TPing), (''PONG'', TPong), (''QUIT'', TQuit), (''TAGMSG'', TTagMsg),
     (''TOPIC'', TTopic), (''WALLOPS'', TWallops)]"

definition compute_type :: "string \<Rightarrow> string \<Rightarrow> mtype" where
  "compute_type sCommand sParam1 =
     (if length sCommand = 3 \<and> isdigit_c (sCommand ! 0) \<and> isdigit_c (sCommand ! 1) \<and> isdigit_c (sCommand ! 2)
      then TNumeric
      else if equals_ci sCommand ''PRIVMSG'' then
        (let (trimmed, sParam) = TrimPrefix soh sParam1
         in if trimmed \<and> ends_ci sParam soh
            then (if starts_ci sParam ''ACTION '' then TAction else TCTCP) else TText)
      else if equals_ci sCommand ''NOTICE'' then
        (if starts_ci sParam1 soh \<and> ends_ci sParam1 soh then TCTCP else TNotice)
      else (case map_of command_types (AsUpper sCommand) of Some t \<Rightarrow> t | None \<Rightarrow> TUnknown))"

definition InitType :: "message \<Rightarrow> message" where
  "InitType m = m \<lparr>m_eType := compute_type (m_sCommand m) (GetParam m 1)\<rparr>"

definition text_like :: "mtype \<Rightarrow> bool" where
  "text_like t \<longleftrightarrow> t \<in> {TText, TNotice, TAction, TCTCP}"

definition SetCommand :: "string \<Rightarrow> message \<Rightarrow> message" where
  "SetCommand sCommand m = InitType (m \<lparr>m_sCommand := sCommand\<rparr>)"

definition SetParams :: "string list \<Rightarrow> message \<Rightarrow> message" where
  "SetParams vsParams m =
     (let m1 = m \<lparr>m_vsParams := vsParams, m_bColon := False\<rparr>
      in if text_like (m_eType m) then InitType m1 else m1)"

definition SetParam :: "nat \<Rightarrow> string \<Rightarrow> message \<Rightarrow> message" where
  "SetParam uIdx sParam m =
     (let vs = (if uIdx \<ge> length (m_vsParams m)
                then m_vsParams m @ replicate (uIdx + 1 - length (m_vsParams m)) [] else m_vsParams m);
          m1 = m \<lparr>m_vsParams := vs[uIdx := sParam]\<rparr>
      in if uIdx = 1 \<and> text_like (m_eType m) then InitType m1 else m1)"

definition GetTag :: "message \<Rightarrow> string \<Rightarrow> string" where
  "GetTag m sKey = (case map_of (m_mssTags m) sKey of Some v \<Rightarrow> v | None \<Rightarrow> [])"

definition SetTag :: "string \<Rightarrow> string \<Rightarrow> message \<Rightarrow> message" where
  "SetTag sKey sValue m = m \<lparr>m_mssTags := om_insert sKey sValue (m_mssTags m)\<rparr>"

definition Message_Equals :: "message \<Rightarrow> message \<Rightarrow> bool" where
  "Message_Equals m Other \<longleftrightarrow>
     NickEquals (m_Nick m) (m_sNick (m_Nick Other)) \<and>
     equals_ci (m_sCommand m) (m_sCommand Other) \<and> m_vsParams m = m_vsParams Other"

definition InitTime :: "(string \<Rightarrow> nat \<times> nat) \<Rightarrow> nat \<times> nat \<Rightarrow> message \<Rightarrow> message" where
  "InitTime parse_time now m =
     m \<lparr>m_time := (case map_of (m_mssTags m) ''time'' of Some t \<Rightarrow> parse_time t | None \<Rightarrow> now)\<rparr>"

section \<open>Printing\<close>

definition add_word :: "string \<Rightarrow> string \<Rightarrow> string" where
  "add_word sMessage w = (if sMessage = [] then w else sMessage @ '' '' @ w)"

definition write_tag :: "string \<times> string \<Rightarrow> string" where
  "write_tag e = fst e @ (if snd e \<noteq> [] then ''='' @ Escape_n EASCII EMSGTAG (snd e) else [])"

definition write_tags :: "(string, string) omap \<Rightarrow> string" where
  "write_tags m = foldl (\<lambda>sTags e. (if sTags \<noteq> [] then sTags @ '';'' else sTags) @ write_tag e) [] m"

definition ToString_flags :: "bool \<Rightarrow> bool \<Rightarrow> message \<Rightarrow> string option" where
  "ToString_flags ExcludePrefix ExcludeTags m =
     (let s0 = (if \<not> ExcludeTags \<and> m_mssTags m \<noteq> [] then ''@'' @ write_tags (m_mssTags m) else []);
          sPrefix = GetHostMask (m_Nick m);
          s1 = (if \<not> ExcludePrefix \<and> sPrefix \<noteq> [] then add_word s0 ('':'' @ sPrefix) else s0);
          s2 = (if m_sCommand m \<noteq> [] then add_word s1 (m_sCommand m) else s1)
      in if m_vsParams m \<noteq> []
         then map_option (add_word s2) (GetParamsColon m 0 uint_max) else Some s2)"

section \<open>Parsing\<close>

definition next_word :: "string \<Rightarrow> string \<times> string" where
  "next_word p =
     (takeWhile (\<lambda>c. c \<noteq> CHR '' '') p,
      dropWhile (\<lambda>c. c = CHR '' '') (dropWhile (\<lambda>c. c \<noteq> CHR '' '') p))"

definition parse_tag :: "string \<Rightarrow> (string, string) omap \<Rightarrow> (string, string) omap" where
  "parse_tag svTag m =
     (let delim = find_char (CHR ''='') svTag;
          sKey = (case delim of None \<Rightarrow> svTag | Some i \<Rightarrow> take i svTag);
          sValue = (case delim of None \<Rightarrow> [] | Some i \<Rightarrow> drop (i + 1) svTag)
      in om_insert sKey (Escape_n EMSGTAG EASCII sValue) m)"

definition parse_tags :: "string \<Rightarrow> (string, string) omap" where
  "parse_tags svTags = fold parse_tag (sep_fields (CHR '';'') svTags) []"

function parse_params :: "string \<Rightarrow> string list \<times> bool" where
  "parse_params p =
     (if p = [] then ([], False)
      else if hd p = CHR '':'' then ([tl p], True)
      else (let (w, r) = next_word p; (ps, bColon) = parse_params r in (w # ps, bColon)))"
  by pat_completeness auto
termination
proof (relation "measure length", goal_cases)
  case (2 p x w r)
  have "length (dropWhile (\<lambda>c. c = CHR '' '') q) \<le> length q" for q :: string
    by (rule length_dropWhile_le)
  moreover have "length (dropWhile (\<lambda>c. c \<noteq> CHR '' '') p) \<le> length p" by (rule length_dropWhile_le)
  moreover have "r = dropWhile (\<lambda>c. c = CHR '' '') (dropWhile (\<lambda>c. c \<noteq> CHR '' '') p)"
    using 2 by (simp add: next_word_def)
  moreover obtain c q where "p = c # q" using 2 by (cases p) auto
  ultimately show ?case
    by (cases "c = CHR '' ''") (auto simp: less_Suc_eq_le intro: le_trans [OF length_dropWhile_le] length_dropWhile_le)
qed simp

declare parse_params.simps [simp del]

definition Message_Parse :: "string \<Rightarrow> message \<Rightarrow> message" where
  "Message_Parse sMessage m =
     (let (tags, r1) =
            (if sMessage \<noteq> [] \<and> hd sMessage = CHR ''@''
             then (let (w, r) = next_word sMessage in (parse_tags (tl w), r)) else ([], sMessage));
          (n, r2) =
            (if r1 \<noteq> [] \<and> hd r1 = CHR '':''
             then (let (w, r) = next_word r1 in (Nick_Parse (tl w) (m_Nick m), r)) else (m_Nick m, r1));
          (cmd, r3) = next_word r2;
          (ps, bColon) = parse_params r3
      in InitType (m \<lparr>m_mssTags := tags, m_Nick := n, m_sCommand := cmd, m_vsParams := ps,
                     m_bColon := bColon\<rparr>))"

definition mk_message :: "(string \<Rightarrow> nat \<times> nat) \<Rightarrow> nat \<times> nat \<Rightarrow> string \<Rightarrow> message" where
  "mk_message parse_time now sMessage = InitTime parse_time now (Message_Parse sMessage empty_message)"

definition mk_message_from ::
    "(string \<Rightarrow> nat \<times> nat) \<Rightarrow> nat \<times> nat \<Rightarrow> nick \<Rightarrow> string \<Rightarrow> string list \<Rightarrow> (string, string) omap \<Rightarrow> message" where
  "mk_message_from parse_time now n sCommand vsParams mssTags =
     InitTime parse_time now (empty_message \<lparr>m_Nick := n, m_sCommand := sCommand,
        m_vsParams := vsParams, m_mssTags := mssTags\<rparr>)"

section \<open>The views of the subclasses\<close>

definition GetTarget :: "message \<Rightarrow> string" where "GetTarget m = GetParam m 0"

definition SetTarget :: "string \<Rightarrow> message \<Rightarrow> message" where "SetTarget s m = SetParam 0 s m"

definition Action_GetText :: "message \<Rightarrow> string" where
  "Action_GetText m = TrimSuffix_n soh (TrimPrefix_n (soh @ ''ACTION '') (GetParam m 1))"

definition Action_SetText :: "string \<Rightarrow> message \<Rightarrow> message" where
  "Action_SetText sText m = SetParam 1 (soh @ ''ACTION '' @ sText @ soh) m"

definition CTCP_IsReply :: "message \<Rightarrow> bool" where
  "CTCP_IsReply m = equals_ci (m_sCommand m) ''NOTICE''"

definition CTCP_GetText :: "message \<Rightarrow> string" where
  "CTCP_GetText m = TrimSuffix_n soh (TrimPrefix_n soh (GetParam m 1))"

definition CTCP_SetText :: "string \<Rightarrow> message \<Rightarrow> message" where
  "CTCP_SetText sText m = SetParam 1 (soh @ sText @ soh) m"

definition Join_GetKey :: "message \<Rightarrow> string" where "Join_GetKey m = GetParam m 1"

definition Mode_GetModeList :: "message \<Rightarrow> string" where "Mode_GetModeList m = GetParam m 1"

definition Mode_GetModeParams :: "message \<Rightarrow> string list" where
  "Mode_GetModeParams m = GetParamsSplit m 2 uint_max"

definition Mode_HasModes :: "message \<Rightarrow> bool" where
  "Mode_HasModes m \<longleftrightarrow> Mode_GetModeList m \<noteq> []"

definition Nick_GetOldNick :: "message \<Rightarrow> string" where "Nick_GetOldNick m = m_sNick (m_Nick m)"

definition Nick_GetNewNick :: "message \<Rightarrow> string" where "Nick_GetNewNick m = GetParam m 0"

definition Numeric_GetCode :: "message \<Rightarrow> nat" where "Numeric_GetCode m = ToUInt (m_sCommand m)"

definition Kick_GetKickedNick :: "message \<Rightarrow> string" where "Kick_GetKickedNick m = GetParam m 1"

definition Kick_GetReason :: "message \<Rightarrow> string" where "Kick_GetReason m = GetParam m 2"

definition Part_GetReason :: "message \<Rightarrow> string" where "Part_GetReason m = GetParam m 1"

definition Quit_GetReason :: "message \<Rightarrow> string" where "Quit_GetReason m = GetParam m 0"

definition Text_GetText :: "message \<Rightarrow> string" where "Text_GetText m = GetParam m 1"

definition Text_SetText :: "string \<Rightarrow> message \<Rightarrow> message" where
  "Text_SetText sText m = SetParam 1 sText m"

definition Topic_GetTopic :: "message \<Rightarrow> string" where "Topic_GetTopic m = GetParam m 1"

definition ChgHost_GetNewIdent :: "message \<Rightarrow> string" where "ChgHost_GetNewIdent m = GetParam m 0"

definition ChgHost_GetNewHost :: "message \<Rightarrow> string" where "ChgHost_GetNewHost m = GetParam m 1"

section \<open>The type invariant\<close>

definition type_ok :: "message \<Rightarrow> bool" where
  "type_ok m \<longleftrightarrow> m_eType m = compute_type (m_sCommand m) (GetParam m 1)"

lemma type_ok_InitType [simp, wf_intros]: "type_ok (InitType m)"
  by (simp add: type_ok_def InitType_def GetParam_def)

lemma map_of_command_types_text_like: "map_of command_types c = Some t \<Longrightarrow> \<not> text_like t"
  by (auto simp: command_types_def text_like_def split: if_splits)

text \<open>Only the four text-like types depend on a parameter.\<close>

lemma compute_type_param:
  assumes "\<not> text_like (compute_type c p)"
  shows "compute_type c q = compute_type c p"
proof (cases "length c = 3 \<and> isdigit_c (c ! 0) \<and> isdigit_c (c ! 1) \<and> isdigit_c (c ! 2)")
  case False
  then have "\<not> equals_ci c ''PRIVMSG''" "\<not> equals_ci c ''NOTICE''"
    using assms by (auto simp: compute_type_def text_like_def Let_def split: prod.splits if_splits)
  then show ?thesis by (simp add: compute_type_def)
qed (simp add: compute_type_def)

lemma type_ok_SetCommand [simp, wf_intros]: "type_ok (SetCommand c m)"
  by (simp add: SetCommand_def)

lemma type_ok_upd_params:
  assumes "type_ok m" and "\<not> text_like (m_eType m)"
  shows "type_ok (m \<lparr>m_vsParams := vs, m_bColon := b\<rparr>)"
proof -
  let ?m = "m \<lparr>m_vsParams := vs, m_bColon := b\<rparr>"
  have "compute_type (m_sCommand m) (GetParam ?m 1) = compute_type (m_sCommand m) (GetParam m 1)"
    using assms by (intro compute_type_param) (simp add: type_ok_def)
  with assms(1) show ?thesis by (simp add: type_ok_def)
qed

lemma type_ok_SetParams [simp, wf_intros]: "type_ok m \<Longrightarrow> type_ok (SetParams vs m)"
  using type_ok_upd_params [where m = m and b = False] by (simp add: SetParams_def Let_def)

lemma nth_or_empty_eq: "GetParam m i = nth_or_empty (m_vsParams m) i"
  by (simp add: GetParam_def nth_or_empty_def)

lemma SetParam_params:
  "m_vsParams (SetParam i s m) =
   (m_vsParams m @ replicate (i + 1 - length (m_vsParams m)) [])[i := s]"
  by (auto simp: SetParam_def Let_def InitType_def)

lemma GetParam_SetParam: "GetParam (SetParam i s m) j = (if j = i then s else GetParam m j)"
proof (cases "i < length (m_vsParams m)")
  case True
  then show ?thesis by (simp add: GetParam_def SetParam_params nth_list_update)
next
  case False
  then show ?thesis
    by (simp add: GetParam_def SetParam_params nth_append nth_list_update)
qed

lemma SetParam_command [simp]:
  "m_sCommand (SetParam i s m) = m_sCommand m" "m_Nick (SetParam i s m) = m_Nick m"
  "m_mssTags (SetParam i s m) = m_mssTags m" "m_pChan (SetParam i s m) = m_pChan m"
  by (simp_all add: SetParam_def Let_def InitType_def)

lemma type_ok_SetParam [simp, wf_intros]:
  assumes "type_ok m"
  shows "type_ok (SetParam i s m)"
proof (cases "i = 1 \<and> text_like (m_eType m)")
  case True
  then show ?thesis by (simp add: SetParam_def Let_def)
next
  case False
  have "m_eType (SetParam i s m) = m_eType m" using False by (auto simp: SetParam_def Let_def)
  moreover have "compute_type (m_sCommand m) (GetParam (SetParam i s m) 1) =
      compute_type (m_sCommand m) (GetParam m 1)"
  proof (cases "i = 1")
    case True
    with False assms show ?thesis by (intro compute_type_param) (simp add: type_ok_def)
  qed (simp add: GetParam_SetParam)
  ultimately show ?thesis using assms by (simp add: type_ok_def)
qed

lemma type_ok_Parse [simp, wf_intros]: "type_ok (Message_Parse s m)"
  by (simp add: Message_Parse_def Let_def split_def)

lemma type_ok_mk_message [simp, wf_intros]: "type_ok (mk_message pt now s)"
  using type_ok_Parse [of s empty_message]
  by (simp add: mk_message_def InitTime_def type_ok_def GetParam_def)

section \<open>GetParamsColon and GetParamsSplit\<close>

definition params_small :: "message \<Rightarrow> bool" where
  "params_small m \<longleftrightarrow> int (length (m_vsParams m)) < 4294967295"

lemma GetParamsColon_all:
  assumes "m_vsParams m = ps @ [p]" and "params_small m"
  shows "GetParamsColon m 0 uint_max = Some (Join '' '' (ps @ [colon_param (m_bColon m) p]))"
proof -
  define n where "n = length (m_vsParams m)"
  have n: "n = Suc (length ps)" "n < 2 ^ 32 - 1" "m_vsParams m \<noteq> []"
    using assms by (simp_all add: n_def params_small_def)
  have "map (\<lambda>i. if i = length ps then colon_param (m_bColon m) (m_vsParams m ! i) else m_vsParams m ! i) [0..<length ps] = ps"
    by (rule nth_equalityI) (simp_all add: assms(1) nth_append)
  then have map: "map (\<lambda>i. if i = n - 1 then colon_param (m_bColon m) (m_vsParams m ! i) else m_vsParams m ! i) [0..<n] =
      ps @ [colon_param (m_bColon m) p]"
    by (simp add: n(1) assms(1))
  have lim: "(int n - int 0 - 1) mod 2 ^ 64 = int (length ps)"
    and un: "nat ((int n - int 0) mod 2 ^ 32) = n" and e: "(0 + n) mod 2 ^ 32 = n"
    using n by simp_all
  have big: "int uint_max > int (length ps)" "uint_max \<noteq> 0" using n by (simp_all add: uint_max_def)
  show ?thesis
    unfolding GetParamsColon_def Let_def n_def [symmetric] lim un
    using n(3) big by (simp only: if_True e map) simp
qed

lemma GetParamsSplit_drop: "length (m_vsParams m) < 2 ^ 32 \<Longrightarrow>
    GetParamsSplit m i uint_max = drop i (m_vsParams m)"
  by (auto simp: GetParamsSplit_def Let_def uint_max_def)

section \<open>Printing and parsing are inverse\<close>

lemma next_word_blank:
  "CHR '' '' \<notin> set w \<Longrightarrow> r = [] \<or> hd r \<noteq> CHR '' '' \<Longrightarrow> next_word (w @ CHR '' '' # r) = (w, r)"
proof -
  assume w: "CHR '' '' \<notin> set w" and r: "r = [] \<or> hd r \<noteq> CHR '' ''"
  from w have "takeWhile (\<lambda>c. c \<noteq> CHR '' '') (w @ CHR '' '' # r) = w"
    "dropWhile (\<lambda>c. c \<noteq> CHR '' '') (w @ CHR '' '' # r) = CHR '' '' # r"
    by (induction w) auto
  with r show ?thesis by (simp add: next_word_def)
qed

lemma next_word_last: "CHR '' '' \<notin> set w \<Longrightarrow> next_word w = (w, [])"
proof -
  assume w: "CHR '' '' \<notin> set w"
  from w have "takeWhile (\<lambda>c. c \<noteq> CHR '' '') w = w" by (induction w) auto
  moreover from w have "dropWhile (\<lambda>c. c \<noteq> CHR '' '') w = []" by (induction w) auto
  ultimately show ?thesis by (simp add: next_word_def del: dropWhile_eq_Nil_conv)
qed

text \<open>A parameter that needs no colon.\<close>

definition middle_ok :: "string \<Rightarrow> bool" where
  "middle_ok p \<longleftrightarrow> p \<noteq> [] \<and> hd p \<noteq> CHR '':'' \<and> CHR '' '' \<notin> set p"

lemma tolower_special [simp]:
  "tolower_c c = CHR '':'' \<longleftrightarrow> c = CHR '':''" "tolower_c c = CHR '' '' \<longleftrightarrow> c = CHR '' ''"
  "CHR '' '' = tolower_c c \<longleftrightarrow> c = CHR '' ''"
  using tolower_is_nonalpha [of "CHR '':''" c] tolower_is_nonalpha [of "CHR '' ''" c]
  by (auto simp: ctype_simps byte_def)

lemma tolower_special_id [simp]: "tolower_c (CHR '':'') = CHR '':''" "tolower_c (CHR '' '') = CHR '' ''"
  by simp_all

lemma colon_param_cases:
  "colon_param b p = (if b \<or> \<not> middle_ok p then '':'' @ p else p)"
  by (auto simp: colon_param_def middle_ok_def Contains_single AsLower_def)

lemma parse_params_Nil [simp]: "parse_params [] = ([], False)"
  by (subst parse_params.simps) simp

lemma parse_params_last:
  "parse_params (colon_param b p) = ([p], b \<or> \<not> middle_ok p)"
proof (cases "b \<or> \<not> middle_ok p")
  case True
  then show ?thesis by (subst parse_params.simps) (simp add: colon_param_cases)
next
  case False
  then show ?thesis
    by (subst parse_params.simps)
       (simp add: colon_param_cases middle_ok_def next_word_last)
qed

lemma middle_ok_start: "middle_ok q \<Longrightarrow> hd q \<noteq> CHR '' ''"
  by (cases q) (auto simp: middle_ok_def)

lemma colon_param_start: "colon_param b p \<noteq> [] \<and> hd (colon_param b p) \<noteq> CHR '' ''"
  using middle_ok_start [of p] by (auto simp: colon_param_cases middle_ok_def)

lemma params_start:
  "\<forall>q \<in> set ps. middle_ok q \<Longrightarrow>
   Join '' '' (ps @ [colon_param b p]) \<noteq> [] \<and> hd (Join '' '' (ps @ [colon_param b p])) \<noteq> CHR '' ''"
  using colon_param_start [of b p] middle_ok_start
  by (cases ps) (simp_all add: Join_Cons middle_ok_def)

lemma parse_params_Join:
  assumes "\<forall>q \<in> set ps. middle_ok q"
  shows "parse_params (Join '' '' (ps @ [colon_param b p])) = (ps @ [p], b \<or> \<not> middle_ok p)"
  using assms
proof (induction ps)
  case Nil
  then show ?case by (simp add: parse_params_last)
next
  case (Cons q ps)
  let ?r = "Join '' '' (ps @ [colon_param b p])"
  have q: "q \<noteq> []" "hd q \<noteq> CHR '':''" "CHR '' '' \<notin> set q" using Cons.prems by (auto simp: middle_ok_def)
  have "next_word (q @ '' '' @ ?r) = (q, ?r)"
    using next_word_blank [OF q(3), of ?r] params_start [of ps b p] Cons.prems by simp
  with q Cons show ?case by (subst parse_params.simps) (simp add: Join_Cons)
qed

text \<open>The tags.\<close>

definition tag_ok :: "string \<times> string \<Rightarrow> bool" where
  "tag_ok e \<longleftrightarrow> fst e \<noteq> [] \<and> CHR ''='' \<notin> set (fst e) \<and> CHR '';'' \<notin> set (fst e) \<and> CHR '' '' \<notin> set (fst e)"

lemma encode_msgtag_plain:
  "d \<in> set (encode_msgtag c) \<Longrightarrow> d \<noteq> CHR '';'' \<and> d \<noteq> CHR '' '' \<and> d \<noteq> NUL \<and> d \<noteq> CHR 0x0A \<and> d \<noteq> CHR 0x0D"
  by (auto simp: encode_msgtag_def split: if_splits)

lemma escape_msgtag_plain:
  "d \<in> set (Escape_n EASCII EMSGTAG s) \<Longrightarrow>
   d \<noteq> CHR '';'' \<and> d \<noteq> CHR '' '' \<and> d \<noteq> NUL \<and> d \<noteq> CHR 0x0A \<and> d \<noteq> CHR 0x0D"
  using encode_msgtag_plain by (auto simp: Escape_n_encode encode_char_eqs)

lemma escape_msgtag_no:
  "CHR '';'' \<notin> set (Escape_n EASCII EMSGTAG s)" "CHR '' '' \<notin> set (Escape_n EASCII EMSGTAG s)"
  using escape_msgtag_plain by blast+

lemma write_tag_plain:
  "tag_ok e \<Longrightarrow> CHR '';'' \<notin> set (write_tag e) \<and> CHR '' '' \<notin> set (write_tag e) \<and> write_tag e \<noteq> []"
  using escape_msgtag_no by (auto simp: write_tag_def tag_ok_def)

lemma write_tags_Join:
  assumes "\<forall>e \<in> set m. tag_ok e"
  shows "write_tags m = Join '';'' (map write_tag m)"
proof -
  have "foldl (\<lambda>sTags e. (if sTags \<noteq> [] then sTags @ '';'' else sTags) @ write_tag e) acc m =
      (if m = [] then acc else (if acc \<noteq> [] then acc @ '';'' else acc) @ Join '';'' (map write_tag m))" for acc
    using assms
  proof (induction m arbitrary: acc)
    case (Cons e m)
    let ?acc = "(if acc \<noteq> [] then acc @ '';'' else acc) @ write_tag e"
    have "?acc \<noteq> []" using write_tag_plain [of e] Cons.prems by simp
    then show ?case using Cons.IH [of ?acc] Cons.prems by (simp add: Join_Cons)
  qed simp
  from this [of "[]"] show ?thesis by (cases "m = []") (simp_all add: write_tags_def)
qed

lemma parse_write_tag:
  assumes "tag_ok e"
  shows "parse_tag (write_tag e) m = om_insert (fst e) (snd e) m"
proof -
  have "Escape_n EMSGTAG EASCII (Escape_n EASCII EMSGTAG v) = v" for v
    by (rule Escape_n_roundtrip [OF codec_formats]) simp_all
  moreover have "Escape_n EMSGTAG EASCII [] = []" by (simp add: Escape_n_def)
  ultimately show ?thesis using assms by (simp add: parse_tag_def write_tag_def tag_ok_def Let_def)
qed

lemma parse_write_tags:
  assumes "\<forall>e \<in> set m. tag_ok e" and "om_ok m" and "m \<noteq> []"
  shows "parse_tags (write_tags m) = m"
proof -
  have "sep_fields (CHR '';'') (write_tags m) = map write_tag m"
    using assms write_tag_plain by (simp add: write_tags_Join fields_Join)
  moreover have "fold parse_tag (map write_tag m) acc = fold (\<lambda>(k, v). om_insert k v) m acc" for acc
    using assms(1) by (induction m arbitrary: acc) (simp_all add: parse_write_tag split_def)
  ultimately show ?thesis using om_rebuild [of "[]" m] assms(2) by (simp add: parse_tags_def)
qed

text \<open>A line is blank-separated words; the first three places hold tags, sender, command.\<close>

definition word_ok :: "string \<Rightarrow> bool" where
  "word_ok w \<longleftrightarrow> w \<noteq> [] \<and> CHR '' '' \<notin> set w"

lemma word_ok_hd: "word_ok w \<Longrightarrow> hd w \<noteq> CHR '' ''"
  by (cases w) (auto simp: word_ok_def)

lemma next_word_Join:
  assumes "word_ok w" and "rest = [] \<or> hd rest \<noteq> CHR '' ''"
  shows "next_word (if rest = [] then w else w @ '' '' @ rest) = (w, rest)"
  using assms next_word_blank [of w rest] next_word_last [of w] by (auto simp: word_ok_def)

definition message_ok :: "message \<Rightarrow> bool" where
  "message_ok m \<longleftrightarrow>
     om_ok (m_mssTags m) \<and> (\<forall>e \<in> set (m_mssTags m). tag_ok e) \<and>
     (m_Nick m = empty_nick \<or>
      mask_ok (m_Nick m) \<and> m_sChanPerms (m_Nick m) = [] \<and> CHR '' '' \<notin> set (GetHostMask (m_Nick m))) \<and>
     word_ok (m_sCommand m) \<and> hd (m_sCommand m) \<noteq> CHR ''@'' \<and> hd (m_sCommand m) \<noteq> CHR '':'' \<and>
     (\<forall>p \<in> set (butlast (m_vsParams m)). middle_ok p) \<and> params_small m \<and> type_ok m"

definition params_string :: "message \<Rightarrow> string" where
  "params_string m = (if m_vsParams m = [] then []
     else Join '' '' (butlast (m_vsParams m) @ [colon_param (m_bColon m) (last (m_vsParams m))]))"

definition colon_after :: "message \<Rightarrow> bool" where
  "colon_after m \<longleftrightarrow> m_vsParams m \<noteq> [] \<and> (m_bColon m \<or> \<not> middle_ok (last (m_vsParams m)))"

lemma params_string_parse:
  assumes "message_ok m"
  shows "parse_params (params_string m) = (m_vsParams m, colon_after m) \<and>
    (params_string m = [] \<or> hd (params_string m) \<noteq> CHR '' '') \<and> (params_string m = [] \<longleftrightarrow> m_vsParams m = [])"
proof (cases "m_vsParams m = []")
  case False
  have "\<forall>q \<in> set (butlast (m_vsParams m)). middle_ok q" using assms by (simp add: message_ok_def)
  from parse_params_Join [OF this] params_start [OF this] False show ?thesis
    by (simp add: params_string_def colon_after_def)
qed (simp add: params_string_def colon_after_def)

definition tail_string :: "message \<Rightarrow> string" where
  "tail_string m = (if params_string m = [] then m_sCommand m
     else m_sCommand m @ '' '' @ params_string m)"

definition prefix_word :: "message \<Rightarrow> string" where
  "prefix_word m = (if GetHostMask (m_Nick m) = [] then [] else '':'' @ GetHostMask (m_Nick m))"

definition tags_word :: "message \<Rightarrow> string" where
  "tags_word m = (if m_mssTags m = [] then [] else ''@'' @ write_tags (m_mssTags m))"

definition after_tags :: "message \<Rightarrow> string" where
  "after_tags m = (if prefix_word m = [] then tail_string m else prefix_word m @ '' '' @ tail_string m)"

lemma ToString_words:
  assumes "message_ok m"
  shows "ToString_flags False False m =
    Some (if tags_word m = [] then after_tags m else tags_word m @ '' '' @ after_tags m)"
proof -
  have cmd: "m_sCommand m \<noteq> []" using assms by (simp add: message_ok_def word_ok_def)
  have "m_vsParams m \<noteq> [] \<Longrightarrow> GetParamsColon m 0 uint_max = Some (params_string m)"
    using assms GetParamsColon_all [of m "butlast (m_vsParams m)" "last (m_vsParams m)"]
    by (simp add: message_ok_def params_string_def)
  with cmd params_string_parse [OF assms] show ?thesis
    by (auto simp: ToString_flags_def Let_def add_word_def tags_word_def prefix_word_def
        after_tags_def tail_string_def)
qed

lemma hd_tail_string: "message_ok m \<Longrightarrow>
    tail_string m \<noteq> [] \<and> hd (tail_string m) \<notin> {CHR '' '', CHR ''@'', CHR '':''}"
  using word_ok_hd by (auto simp: tail_string_def message_ok_def word_ok_def)

lemma after_tags_start: "message_ok m \<Longrightarrow>
    after_tags m \<noteq> [] \<and> hd (after_tags m) \<notin> {CHR '' '', CHR ''@''}"
  using hd_tail_string by (auto simp: after_tags_def prefix_word_def)

lemma Parse_ToString_words:
  assumes "message_ok m"
  shows "Message_Parse (if tags_word m = [] then after_tags m else tags_word m @ '' '' @ after_tags m)
      (empty_message \<lparr>m_time := m_time m, m_pChan := m_pChan m\<rparr>) = m \<lparr>m_bColon := colon_after m\<rparr>"
proof -
  let ?s = "if tags_word m = [] then after_tags m else tags_word m @ '' '' @ after_tags m"
  note ok = assms [unfolded message_ok_def]
  have tags: "(if ?s \<noteq> [] \<and> hd ?s = CHR ''@''
      then (let (w, r) = next_word ?s in (parse_tags (tl w), r)) else ([], ?s)) = (m_mssTags m, after_tags m)"
  proof (cases "m_mssTags m = []")
    case True
    then show ?thesis using after_tags_start [OF assms] by (simp add: tags_word_def)
  next
    case False
    have "CHR '' '' \<notin> set (write_tags (m_mssTags m))"
    proof -
      have "CHR '' '' \<notin> set (Join '';'' ts)" if "\<forall>t \<in> set ts. CHR '' '' \<notin> set t" for ts
        using that by (induction ts) (auto simp: Join_Cons)
      then show ?thesis using ok write_tag_plain by (simp add: write_tags_Join)
    qed
    then have "next_word (tags_word m @ '' '' @ after_tags m) = (tags_word m, after_tags m)"
      using next_word_blank [of "tags_word m" "after_tags m"] after_tags_start [OF assms] False
      by (simp add: tags_word_def)
    then show ?thesis using False ok parse_write_tags by (simp add: tags_word_def)
  qed
  have prefix: "(if after_tags m \<noteq> [] \<and> hd (after_tags m) = CHR '':''
      then (let (w, r) = next_word (after_tags m) in (Nick_Parse (tl w) empty_nick, r))
      else (empty_nick, after_tags m)) = (m_Nick m, tail_string m)"
  proof (cases "m_Nick m = empty_nick")
    case True
    then show ?thesis using hd_tail_string [OF assms]
      by (simp add: after_tags_def prefix_word_def GetHostMask_def empty_nick_def)
  next
    case False
    let ?h = "GetHostMask (m_Nick m)"
    from False ok have h: "?h \<noteq> []" "CHR '' '' \<notin> set ?h" "Nick_Parse ?h empty_nick = m_Nick m"
      using mk_nick_GetHostMask [of "m_Nick m"] by (auto simp: mk_nick_def GetHostMask_def mask_ok_def)
    then have "next_word (after_tags m) = ('':'' @ ?h, tail_string m)"
      using next_word_blank [of "'':'' @ ?h" "tail_string m"] hd_tail_string [OF assms]
      by (simp add: after_tags_def prefix_word_def)
    with h show ?thesis by (simp add: after_tags_def prefix_word_def)
  qed
  have cmd: "next_word (tail_string m) = (m_sCommand m, params_string m)"
    unfolding tail_string_def
    by (rule next_word_Join) (use params_string_parse [OF assms] ok in auto)
  have type: "compute_type (m_sCommand m) (GetParam m 1) = m_eType m"
    using ok by (simp add: type_ok_def)
  have n0: "m_Nick (empty_message \<lparr>m_time := m_time m, m_pChan := m_pChan m\<rparr>) = empty_nick"
    by (simp add: empty_message_def)
  have ps: "parse_params (params_string m) = (m_vsParams m, colon_after m)"
    using params_string_parse [OF assms] by simp
  show ?thesis
    unfolding Message_Parse_def
    by (simp only: Let_def prod.case tags [unfolded Let_def] n0 prefix [unfolded Let_def] cmd ps,
        rule message.equality)
       (use type in \<open>auto simp: InitType_def GetParam_def empty_message_def split: if_splits\<close>)
qed

end
