(* ===== verification/Buffer.thy ===== *)
theory Buffer imports Message begin

text \<open>
  CBufLine and CBuffer (src/Buffer.cpp): the lines kept for playback. A line is a message
  whose sender and parameters are formats (see Format) and a text; the buffer is a deque
  with a limit. What a line needs from the client (whether it reads server times, how a
  timestamp is put in front of a text, how a time is printed) is an argument. The locale
  \<open>bounded_log\<close> is the contract of a log that keeps its newest entries.
\<close>

record bufline =
  bl_Message :: message
  bl_sText :: string

record buffer =
  b_lines :: "bufline list"
  b_uLineCount :: nat

record client_caps =
  HasServerTime :: bool
  AddTimestamp :: "nat \<times> nat \<Rightarrow> string \<Rightarrow> string"
  FormatServerTime :: "nat \<times> nat \<Rightarrow> string"

section \<open>Lines\<close>

definition mk_bufline :: "message \<Rightarrow> string \<Rightarrow> bufline" where
  "mk_bufline Format sText = \<lparr>bl_Message = Format, bl_sText = sText\<rparr>"

fun format_params :: "(string, string) omap \<Rightarrow> nat \<Rightarrow> string list \<Rightarrow> message \<Rightarrow> message" where
  "format_params ps uIdx [] Line = Line"
| "format_params ps uIdx (p # vs) Line =
     format_params ps (Suc uIdx) vs (SetParam uIdx (NamedFormat p ps) Line)"

definition ToMessage :: "client_caps \<Rightarrow> (string, string) omap \<Rightarrow> bufline \<Rightarrow> message" where
  "ToMessage Client mssParams l =
     (let Line = bl_Message l;
          sSender = GetNickMask (m_Nick Line);
          Line1 = Line \<lparr>m_Nick := mk_nick (NamedFormat sSender mssParams)\<rparr>;
          mssThisParams = om_insert ''text''
            (if HasServerTime Client then bl_sText l
             else AddTimestamp Client (m_time Line1) (bl_sText l)) mssParams
      in format_params mssThisParams 0 (m_vsParams Line1) Line1)"

definition BufLine_GetLine :: "client_caps \<Rightarrow> (string, string) omap \<Rightarrow> bufline \<Rightarrow> string option" where
  "BufLine_GetLine Client mssParams l =
     (let Line = (ToMessage Client mssParams l) \<lparr>m_mssTags := []\<rparr>;
          Line1 = (if HasServerTime Client
                   then (let sTime = GetTag (bl_Message l) ''time'';
                             sTime' = (if sTime = [] then FormatServerTime Client (m_time (bl_Message l))
                                       else sTime)
                         in SetTag ''time'' sTime' Line)
                   else Line)
      in ToString_flags False False Line1)"

definition BufLine_Equals :: "bufline \<Rightarrow> message \<Rightarrow> bool" where
  "BufLine_Equals l Format = Message_Equals (bl_Message l) Format"

section \<open>The buffer\<close>

text \<open>while (size () >= n) erase (begin ()), and the same with a strict bound.\<close>

fun erase_to :: "nat \<Rightarrow> 'a list \<Rightarrow> 'a list" where
  "erase_to n [] = []"
| "erase_to n (x # xs) = (if length (x # xs) > n then erase_to n xs else x # xs)"

definition Buffer_AddLine :: "message \<Rightarrow> string \<Rightarrow> buffer \<Rightarrow> nat \<times> buffer" where
  "Buffer_AddLine Format sText b =
     (if b_uLineCount b = 0 then (0, b)
      else (let ls = erase_to (b_uLineCount b - 1) (b_lines b) @ [mk_bufline Format sText]
            in (length ls, b \<lparr>b_lines := ls\<rparr>)))"

fun update_first :: "('a \<Rightarrow> bool) \<Rightarrow> 'a \<Rightarrow> 'a list \<Rightarrow> 'a list option" where
  "update_first P y [] = None"
| "update_first P y (x # xs) =
     (if P x then Some (y # xs) else map_option ((#) x) (update_first P y xs))"

definition UpdateLine :: "string \<Rightarrow> message \<Rightarrow> string \<Rightarrow> buffer \<Rightarrow> nat \<times> buffer" where
  "UpdateLine sCommand Format sText b =
     (case update_first (\<lambda>l. equals_ci (m_sCommand (bl_Message l)) sCommand)
             (mk_bufline Format sText) (b_lines b) of
        Some ls \<Rightarrow> (length ls, b \<lparr>b_lines := ls\<rparr>)
      | None \<Rightarrow> Buffer_AddLine Format sText b)"

definition UpdateExactLine :: "message \<Rightarrow> string \<Rightarrow> buffer \<Rightarrow> nat \<times> buffer" where
  "UpdateExactLine Format sText b =
     (if \<exists>l \<in> set (b_lines b). BufLine_Equals l Format then (length (b_lines b), b)
      else Buffer_AddLine Format sText b)"

text \<open>
  The overload for strings writes \<open>CMessage (sFormat, sText)\<close>: the constructor that takes a
  sender and a command, and no text.
\<close>

definition UpdateExactLine_str ::
    "(string \<Rightarrow> nat \<times> nat) \<Rightarrow> nat \<times> nat \<Rightarrow> string \<Rightarrow> string \<Rightarrow> buffer \<Rightarrow> nat \<times> buffer" where
  "UpdateExactLine_str parse_time now sFormat sText b =
     UpdateExactLine (mk_message_from parse_time now (mk_nick sFormat) sText [] []) [] b"

definition AddLine_str ::
    "(string \<Rightarrow> nat \<times> nat) \<Rightarrow> nat \<times> nat \<Rightarrow> string \<Rightarrow> string \<Rightarrow> (nat \<times> nat) option \<Rightarrow>
     (string, string) omap \<Rightarrow> buffer \<Rightarrow> nat \<times> buffer" where
  "AddLine_str parse_time now sFormat sText ts mssTags b =
     (let m = mk_message parse_time now sFormat;
          m1 = (case ts of Some t \<Rightarrow> m \<lparr>m_time := t\<rparr> | None \<Rightarrow> m)
      in Buffer_AddLine (m1 \<lparr>m_mssTags := mssTags\<rparr>) sText b)"

definition UpdateLine_str ::
    "(string \<Rightarrow> nat \<times> nat) \<Rightarrow> nat \<times> nat \<Rightarrow> string \<Rightarrow> string \<Rightarrow> string \<Rightarrow> buffer \<Rightarrow> nat \<times> buffer" where
  "UpdateLine_str parse_time now sMatch sFormat sText b =
     UpdateLine (m_sCommand (mk_message parse_time now sMatch)) (mk_message parse_time now sFormat) sText b"

definition SetLineCount :: "nat \<Rightarrow> nat \<Rightarrow> bool \<Rightarrow> buffer \<Rightarrow> bool \<times> buffer" where
  "SetLineCount MaxBufferSize u bForce b =
     (if \<not> bForce \<and> u > MaxBufferSize then (False, b)
      else (True, b \<lparr>b_uLineCount := u, b_lines := erase_to u (b_lines b)\<rparr>))"

definition GetBufLine :: "nat \<Rightarrow> buffer \<Rightarrow> bufline option" where
  "GetBufLine uIdx b = (if uIdx < length (b_lines b) then Some (b_lines b ! uIdx) else None)"

definition Buffer_Clear :: "buffer \<Rightarrow> buffer" where
  "Buffer_Clear b = b \<lparr>b_lines := []\<rparr>"

definition empty_buffer :: "nat \<Rightarrow> buffer" where
  "empty_buffer n = \<lparr>b_lines = [], b_uLineCount = n\<rparr>"

section \<open>The contract of a bounded log\<close>

definition newest :: "nat \<Rightarrow> 'a list \<Rightarrow> 'a list" where
  "newest n xs = drop (length xs - n) xs"

lemma length_newest [simp]: "length (newest n xs) = min n (length xs)"
  by (simp add: newest_def)

lemma newest_all [simp]: "length xs \<le> n \<Longrightarrow> newest n xs = xs"
  by (simp add: newest_def)

lemma newest_newest: "k \<le> n \<Longrightarrow> newest k (newest n xs) = newest k xs"
  by (cases "n \<le> length xs") (simp_all add: newest_def)

lemma newest_snoc: "newest n (newest n xs @ [x]) = newest n (xs @ [x])"
  by (cases "n \<le> length xs") (simp_all add: newest_def Suc_diff_le)

lemma erase_to_newest: "erase_to n xs = newest n xs"
proof (induction xs)
  case (Cons x xs)
  then show ?case by (auto simp: newest_def Suc_diff_le)
qed (simp add: newest_def)

locale bounded_log =
  fixes add :: "'a \<Rightarrow> 's \<Rightarrow> 's" and entries :: "'s \<Rightarrow> 'a list" and limit :: "'s \<Rightarrow> nat"
    and resize :: "nat \<Rightarrow> 's \<Rightarrow> 's"
  assumes entries_add: "length (entries s) \<le> limit s \<Longrightarrow>
      entries (add x s) = newest (limit s) (entries s @ [x])"
    and limit_add: "limit (add x s) = limit s"
    and entries_resize: "entries (resize n s) = newest n (entries s)"
    and limit_resize: "limit (resize n s) = n"
begin

definition ok :: "'s \<Rightarrow> bool" where
  "ok s \<longleftrightarrow> length (entries s) \<le> limit s"

lemma ok_add: "ok s \<Longrightarrow> ok (add x s)"
  by (simp add: ok_def entries_add limit_add)

lemma ok_resize: "ok (resize n s)"
  by (simp add: ok_def entries_resize limit_resize)

lemma ok_adds: "ok s \<Longrightarrow> ok (fold add xs s)"
  by (induction xs arbitrary: s) (simp_all add: ok_add)

lemma limit_adds: "limit (fold add xs s) = limit s"
  by (induction xs arbitrary: s) (simp_all add: limit_add)

text \<open>Whatever is added, the log holds the newest entries.\<close>

lemma entries_adds: "ok s \<Longrightarrow> entries (fold add xs s) = newest (limit s) (entries s @ xs)"
proof (induction xs rule: rev_induct)
  case (snoc x xs)
  have "ok (fold add xs s)" using ok_adds snoc.prems by simp
  then have "entries (add x (fold add xs s)) = newest (limit s) (newest (limit s) (entries s @ xs) @ [x])"
    using snoc by (simp add: entries_add limit_adds ok_def)
  then show ?case by (simp add: newest_snoc)
qed (simp add: ok_def)

lemma resize_adds:
  "ok s \<Longrightarrow> k \<le> limit s \<Longrightarrow> entries (resize k (fold add xs s)) = newest k (entries s @ xs)"
  by (simp add: entries_resize entries_adds newest_newest)

end

definition add_bufline :: "message \<times> string \<Rightarrow> buffer \<Rightarrow> buffer" where
  "add_bufline e b = snd (Buffer_AddLine (fst e) (snd e) b)"

definition add_line :: "bufline \<Rightarrow> buffer \<Rightarrow> buffer" where
  "add_line l b = snd (Buffer_AddLine (bl_Message l) (bl_sText l) b)"

definition force_count :: "nat \<Rightarrow> buffer \<Rightarrow> buffer" where
  "force_count n b = snd (SetLineCount 0 n True b)"

lemma mk_bufline_eta [simp]: "mk_bufline (bl_Message l) (bl_sText l) = l"
  by (simp add: mk_bufline_def)

interpretation buf: bounded_log add_line b_lines b_uLineCount force_count
proof
  fix x and s :: buffer
  assume "length (b_lines s) \<le> b_uLineCount s"
  then show "b_lines (add_line x s) = newest (b_uLineCount s) (b_lines s @ [x])"
    by (auto simp: add_line_def Buffer_AddLine_def Let_def erase_to_newest newest_def)
qed (auto simp: add_line_def Buffer_AddLine_def Let_def force_count_def SetLineCount_def erase_to_newest)

definition buffer_ok :: "buffer \<Rightarrow> bool" where
  "buffer_ok b \<longleftrightarrow> length (b_lines b) \<le> b_uLineCount b"

lemma buffer_ok_buf: "buffer_ok b = buf.ok b"
  by (simp add: buffer_ok_def buf.ok_def)

lemma buffer_ok_AddLine [simp, wf_intros]: "buffer_ok b \<Longrightarrow> buffer_ok (snd (Buffer_AddLine m t b))"
  using buf.ok_add [of b "mk_bufline m t"]
  by (simp add: buffer_ok_buf add_line_def mk_bufline_def)

lemma length_update_first: "update_first P y xs = Some ys \<Longrightarrow> length ys = length xs"
  by (induction xs arbitrary: ys) (auto split: if_splits)

lemma update_first_None: "update_first P y xs = None \<longleftrightarrow> (\<forall>x \<in> set xs. \<not> P x)"
  by (induction xs) auto

lemma buffer_ok_UpdateLine [simp, wf_intros]: "buffer_ok b \<Longrightarrow> buffer_ok (snd (UpdateLine c m t b))"
  by (auto simp: UpdateLine_def buffer_ok_def dest: length_update_first split: option.split)
    (simp flip: buffer_ok_def)

lemma buffer_ok_UpdateExactLine [simp, wf_intros]:
  "buffer_ok b \<Longrightarrow> buffer_ok (snd (UpdateExactLine m t b))"
  by (simp add: UpdateExactLine_def)

lemma buffer_ok_SetLineCount [simp, wf_intros]:
  "buffer_ok b \<Longrightarrow> buffer_ok (snd (SetLineCount mx u f b))"
  by (simp add: SetLineCount_def buffer_ok_def erase_to_newest)

lemma buffer_ok_Clear [simp, wf_intros]: "buffer_ok (Buffer_Clear b)"
  by (simp add: buffer_ok_def Buffer_Clear_def)

lemma buffer_ok_empty [simp, wf_intros]: "buffer_ok (empty_buffer n)"
  by (simp add: buffer_ok_def empty_buffer_def)

section \<open>What a line plays back\<close>

lemma format_params_params:
  "uIdx + length vs \<le> length (m_vsParams Line) \<Longrightarrow>
   m_vsParams (format_params ps uIdx vs Line) =
   take uIdx (m_vsParams Line) @ map (\<lambda>p. NamedFormat p ps) vs @
   drop (uIdx + length vs) (m_vsParams Line)"
proof (induction vs arbitrary: uIdx Line)
  case (Cons p vs)
  let ?L = "SetParam uIdx (NamedFormat p ps) Line"
  have v: "m_vsParams ?L = (m_vsParams Line)[uIdx := NamedFormat p ps]"
    using Cons.prems by (simp add: SetParam_params)
  from Cons.IH [of "Suc uIdx" ?L] Cons.prems show ?case
    by (simp add: v take_Suc_conv_app_nth)
qed simp

lemma ToMessage_params:
  "m_vsParams (ToMessage Client ps l) =
   map (\<lambda>p. NamedFormat p (om_insert ''text'' (if HasServerTime Client then bl_sText l
      else AddTimestamp Client (m_time (bl_Message l)) (bl_sText l)) ps))
     (m_vsParams (bl_Message l))"
  by (simp add: ToMessage_def Let_def format_params_params)

end
