(* ===== verification/Ircsock.thy ===== *)
theory Ircsock imports Message "HOL-Library.Word" begin

text \<open>
  CIRCSock (src/IRCSock.cpp): the connection to the IRC server. This theory has its state,
  the send queue with the flood protection (PutIRC, PutIRCQuick, TrySend, the flood timer),
  the capability negotiation (SendNextCap, OnCapabilityMessage), the tables of the 005
  numeric (ParseISupport and the lookups on them), the choice of an alternative nick and the
  registration. The handlers of the other messages are in Irc_Handlers.

  What the socket asks from its surroundings is the record \<open>env\<close>: the clock, the module
  hooks (what OnSendToIRCMessage, OnSendToIRC, OnServerCapAvailable and OnIRCRegistration
  answer), the configured capability blacklist, and the comparison of the delay with ten
  minutes, which the code does in floating point. The lines handed to Csock::Write are
  appended to \<open>s_wire\<close>, what is sent to the clients to \<open>s_out\<close>. Hooks that can only observe
  (called with NOTHING) and the three flags that only the corecaps module sets (away-notify, account-notify,
  extended-join) are left out.
\<close>

datatype chan_mode_args = ListArg | HasArg | ArgWhenSet | NoArg

text \<open>
  What is sent towards the clients: a line for the status window, a line or a message for all
  clients of the network, or for the client with the given index.
\<close>

datatype client_out =
    PutStatus string
  | PutUser string
  | PutUserMsg message
  | PutClient nat string
  | PutClientMsg nat message

datatype close_type = CLT_DONT | CLT_NOW | CLT_AFTERWRITE

record env =
  e_now :: "nat \<times> nat"
  e_parse_time :: "string \<Rightarrow> nat \<times> nat"
  e_millis :: nat
  OnSendToIRCMessage :: "message \<Rightarrow> bool \<times> message"
  OnSendToIRC :: "string \<Rightarrow> bool \<times> string"
  OnServerCapAvailable :: "string \<Rightarrow> string \<Rightarrow> bool"
  ServerCapBlacklist :: "string list"
  e_delay_long :: "nat \<Rightarrow> bool"
  e_flood_warning :: "nat \<Rightarrow> string"

record ircsock =
  m_bAuthed :: bool
  m_bNamesx :: bool
  m_bUHNames :: bool
  m_bServerTime :: bool
  m_bMessageTagCap :: bool
  m_sPerms :: string
  m_sPermModes :: string
  m_scUserModes :: "char list"
  m_mceChanModes :: "(char, chan_mode_args) omap"
  sock_Nick :: nick
  m_sPass :: string
  m_uMaxNickLen :: nat
  m_uCapPaused :: "32 word"
  m_ssAcceptedCaps :: "string list"
  m_ssPendingCaps :: "string list"
  m_ssPendingCapsPhase2 :: "string list"
  m_msCapLsValues :: "(string, string) omap"
  m_lastCTCP :: nat
  m_uNumCTCP :: nat
  m_mISupport :: "(string, string) omap"
  m_vSendQueue :: "message list"
  m_iSendsAllowed :: int
  m_uFloodBurst :: nat
  m_bFloodProtection :: bool
  m_lastFloodWarned :: nat
  m_ssSupportedTags :: "string list"
  s_close :: close_type
  s_wire :: "string list"
  s_out :: "client_out list"

text \<open>The constructor: the flood burst is an unsigned short, m_iSendsAllowed a short.\<close>

definition default_chan_modes :: "(char, chan_mode_args) omap" where
  "default_chan_modes = fold (\<lambda>(c, t). om_insert c t)
     [(CHR ''b'', ListArg), (CHR ''e'', ListArg), (CHR ''I'', ListArg), (CHR ''k'', HasArg),
      (CHR ''l'', ArgWhenSet), (CHR ''p'', NoArg), (CHR ''s'', NoArg), (CHR ''t'', NoArg),
      (CHR ''i'', NoArg), (CHR ''n'', NoArg)] []"

definition mk_ircsock :: "nat \<Rightarrow> bool \<Rightarrow> string \<Rightarrow> string \<Rightarrow> ircsock" where
  "mk_ircsock uFloodBurst bProtected sIdent sBindHost =
     \<lparr>m_bAuthed = False, m_bNamesx = False, m_bUHNames = False, m_bServerTime = False,
      m_bMessageTagCap = False, m_sPerms = ''*!@%+'', m_sPermModes = ''qaohv'',
      m_scUserModes = [], m_mceChanModes = default_chan_modes,
      sock_Nick = empty_nick \<lparr>m_sIdent := sIdent, m_sHost := sBindHost\<rparr>, m_sPass = [],
      m_uMaxNickLen = 9, m_uCapPaused = 0, m_ssAcceptedCaps = [], m_ssPendingCaps = [],
      m_ssPendingCapsPhase2 = [], m_msCapLsValues = [], m_lastCTCP = 0, m_uNumCTCP = 0,
      m_mISupport = [], m_vSendQueue = [], m_iSendsAllowed = to_signed 16 (int uFloodBurst),
      m_uFloodBurst = uFloodBurst, m_bFloodProtection = bProtected, m_lastFloodWarned = 0,
      m_ssSupportedTags = [], s_close = CLT_DONT, s_wire = [], s_out = []\<rparr>"

definition IsClosed :: "ircsock \<Rightarrow> bool" where
  "IsClosed s \<longleftrightarrow> s_close s \<noteq> CLT_DONT"

definition SetTagSupport :: "string \<Rightarrow> bool \<Rightarrow> ircsock \<Rightarrow> ircsock" where
  "SetTagSupport sTag bState s =
     s \<lparr>m_ssSupportedTags := (if bState then os_insert sTag (m_ssSupportedTags s)
                              else os_erase sTag (m_ssSupportedTags s))\<rparr>"

definition IsTagEnabled :: "ircsock \<Rightarrow> string \<Rightarrow> bool" where
  "IsTagEnabled s sTag \<longleftrightarrow> sTag \<in> set (m_ssSupportedTags s)"

section \<open>Sending\<close>

definition crlf :: string where
  "crlf = [CHR 0x0D, CHR 0x0A]"

definition PutIRCRaw :: "env \<Rightarrow> string \<Rightarrow> ircsock \<Rightarrow> ircsock" where
  "PutIRCRaw E sLine s =
     (let (bSkip, sCopy) = OnSendToIRC E sLine
      in if bSkip then s else s \<lparr>s_wire := s_wire s @ [sCopy @ crlf]\<rparr>)"

text \<open>Only tags that were negotiated are sent to a server without message-tags.\<close>

definition filter_tags :: "ircsock \<Rightarrow> message \<Rightarrow> message" where
  "filter_tags s m =
     (if m_bMessageTagCap s then m
      else m \<lparr>m_mssTags := fold (\<lambda>(k, v) t. if IsTagEnabled s k then om_insert k v t else t)
                            (m_mssTags m) []\<rparr>)"

text \<open>ToString () prints all parameters, so the read outside the vector cannot happen.\<close>

definition ToString :: "message \<Rightarrow> string" where
  "ToString m = (case ToString_flags False False m of Some t \<Rightarrow> t | None \<Rightarrow> [])"

definition flood_warn :: "env \<Rightarrow> ircsock \<Rightarrow> ircsock" where
  "flood_warn E s =
     (if e_delay_long E (length (m_vSendQueue s)) \<and> e_millis E > m_lastFloodWarned s + 2 * 60000
      then s \<lparr>m_lastFloodWarned := e_millis E,
              s_out := s_out s @ [PutStatus (e_flood_warning E (length (m_vSendQueue s)))]\<rparr>
      else s)"

text \<open>One round of the loop of TrySend.\<close>

definition send_front :: "env \<Rightarrow> ircsock \<Rightarrow> ircsock" where
  "send_front E s =
     (let s1 = s \<lparr>m_iSendsAllowed := to_signed 16 (m_iSendsAllowed s - 1)\<rparr>;
          (bSkip, m) = OnSendToIRCMessage E (filter_tags s1 (hd (m_vSendQueue s1)));
          s2 = (if bSkip then s1 else PutIRCRaw E (ToString m) s1)
      in flood_warn E (s2 \<lparr>m_vSendQueue := tl (m_vSendQueue s2)\<rparr>))"

definition may_send :: "ircsock \<Rightarrow> bool" where
  "may_send s \<longleftrightarrow> \<not> m_bFloodProtection s \<or> m_iSendsAllowed s > 0"

lemma queue_PutIRCRaw [simp]: "m_vSendQueue (PutIRCRaw E l s) = m_vSendQueue s"
  by (simp add: PutIRCRaw_def split: prod.split)

lemma queue_flood_warn [simp]: "m_vSendQueue (flood_warn E s) = m_vSendQueue s"
  by (simp add: flood_warn_def)

lemma queue_send_front [simp]: "m_vSendQueue (send_front E s) = tl (m_vSendQueue s)"
  by (simp add: send_front_def Let_def split: prod.split)

function TrySend :: "env \<Rightarrow> ircsock \<Rightarrow> ircsock" where
  "TrySend E s = (if m_vSendQueue s \<noteq> [] \<and> may_send s then TrySend E (send_front E s) else s)"
  by pat_completeness auto
termination
  by (relation "measure (\<lambda>(E, s). length (m_vSendQueue s))") (auto simp: length_greater_0_conv)

declare TrySend.simps [simp del]

definition PutIRC_msg :: "env \<Rightarrow> message \<Rightarrow> ircsock \<Rightarrow> ircsock" where
  "PutIRC_msg E m s = TrySend E (s \<lparr>m_vSendQueue := m_vSendQueue s @ [m]\<rparr>)"

definition line_message :: "env \<Rightarrow> string \<Rightarrow> message" where
  "line_message E sLine = mk_message (e_parse_time E) (e_now E) sLine"

definition PutIRC :: "env \<Rightarrow> string \<Rightarrow> ircsock \<Rightarrow> ircsock" where
  "PutIRC E sLine s = PutIRC_msg E (line_message E sLine) s"

definition PutIRCQuick :: "env \<Rightarrow> string \<Rightarrow> ircsock \<Rightarrow> ircsock" where
  "PutIRCQuick E sLine s = TrySend E (s \<lparr>m_vSendQueue := line_message E sLine # m_vSendQueue s\<rparr>)"

text \<open>CIRCFloodTimer::RunJob: a short is compared with an unsigned short, both as int.\<close>

definition FloodTimer_RunJob :: "env \<Rightarrow> ircsock \<Rightarrow> ircsock" where
  "FloodTimer_RunJob E s =
     TrySend E (if m_iSendsAllowed s < int (m_uFloodBurst s)
                then s \<lparr>m_iSendsAllowed := to_signed 16 (m_iSendsAllowed s + 1)\<rparr> else s)"

definition Quit :: "env \<Rightarrow> string \<Rightarrow> string \<Rightarrow> ircsock \<Rightarrow> ircsock" where
  "Quit E sDefaultQuitMsg sQuitMsg s =
     (if IsClosed s then s
      else if \<not> m_bAuthed s then s \<lparr>s_close := CLT_NOW\<rparr>
      else (PutIRC E (''QUIT :'' @ (if sQuitMsg \<noteq> [] then sQuitMsg else sDefaultQuitMsg)) s)
             \<lparr>s_close := CLT_AFTERWRITE\<rparr>)"

section \<open>Capability negotiation\<close>

fun cap_batch :: "string \<Rightarrow> string list \<Rightarrow> string \<times> string list" where
  "cap_batch sCaps [] = (sCaps, [])"
| "cap_batch sCaps (sNext # pending) =
     (if length sCaps + length sNext > 98 then (sCaps, sNext # pending)
      else cap_batch (sCaps @ '' '' @ sNext) pending)"

definition SendNextCap :: "env \<Rightarrow> ircsock \<Rightarrow> ircsock" where
  "SendNextCap E s =
     (if m_uCapPaused s \<noteq> 0 then s
      else (case m_ssPendingCaps s of
              sCap # pending \<Rightarrow>
                (let (sCaps, rest) = cap_batch sCap pending
                 in PutIRC E (''CAP REQ :'' @ sCaps) (s \<lparr>m_ssPendingCaps := rest\<rparr>))
            | [] \<Rightarrow>
                (case m_ssPendingCapsPhase2 s of
                   sCap # rest \<Rightarrow>
                     PutIRC E (''CAP REQ :'' @ sCap) (s \<lparr>m_ssPendingCapsPhase2 := rest\<rparr>)
                 | [] \<Rightarrow> if \<not> m_bAuthed s then PutIRC E ''CAP END'' s else s)))"

definition PauseCap :: "ircsock \<Rightarrow> ircsock" where
  "PauseCap s = s \<lparr>m_uCapPaused := m_uCapPaused s + 1\<rparr>"

definition ResumeCap :: "env \<Rightarrow> ircsock \<Rightarrow> ircsock" where
  "ResumeCap E s = SendNextCap E (s \<lparr>m_uCapPaused := m_uCapPaused s - 1\<rparr>)"

definition cap_handler :: "string \<Rightarrow> (bool \<Rightarrow> ircsock \<Rightarrow> ircsock) option" where
  "cap_handler = map_of
     [(''multi-prefix'', \<lambda>bVal s. s \<lparr>m_bNamesx := bVal\<rparr>),
      (''userhost-in-names'', \<lambda>bVal s. s \<lparr>m_bUHNames := bVal\<rparr>),
      (''cap-notify'', \<lambda>bVal s. s),
      (''invite-notify'', \<lambda>bVal s. s),
      (''server-time'', \<lambda>bVal s. s \<lparr>m_bServerTime := bVal\<rparr>),
      (''znc.in/server-time-iso'', \<lambda>bVal s. s \<lparr>m_bServerTime := bVal\<rparr>),
      (''chghost'', \<lambda>bVal s. s),
      (''message-tags'', \<lambda>bVal s. s \<lparr>m_bMessageTagCap := bVal\<rparr>)]"

definition set_cap :: "string \<Rightarrow> bool \<Rightarrow> ircsock \<Rightarrow> ircsock" where
  "set_cap sCap bVal s = (case cap_handler sCap of Some f \<Rightarrow> f bVal s | None \<Rightarrow> s)"

definition RemoveCap :: "string \<Rightarrow> ircsock \<Rightarrow> ircsock" where
  "RemoveCap sCap s =
     (let s1 = set_cap sCap False s
      in s1 \<lparr>m_ssAcceptedCaps := os_erase sCap (m_ssAcceptedCaps s1),
             m_ssPendingCaps := os_erase sCap (m_ssPendingCaps s1)\<rparr>)"

definition cap_offer :: "env \<Rightarrow> string \<Rightarrow> ircsock \<Rightarrow> ircsock" where
  "cap_offer E sToken s =
     (let (sCap, sValue) = (case find_char (CHR ''='') sToken of
                              None \<Rightarrow> (sToken, [])
                            | Some eq \<Rightarrow> (take eq sToken, drop (eq + 1) sToken))
      in if sCap \<in> set (ServerCapBlacklist E) then s
         else (let s1 = s \<lparr>m_msCapLsValues := om_insert sCap sValue (m_msCapLsValues s)\<rparr>
               in if OnServerCapAvailable E sCap sValue \<or> cap_handler sCap \<noteq> None
                  then s1 \<lparr>m_ssPendingCaps := os_insert sCap (m_ssPendingCaps s1)\<rparr> else s1))"

definition cap_ack :: "string \<Rightarrow> ircsock \<Rightarrow> ircsock" where
  "cap_ack sCap s =
     (let s1 = set_cap sCap True s
      in s1 \<lparr>m_ssAcceptedCaps := os_insert sCap (m_ssAcceptedCaps s1)\<rparr>)"

definition cap_del :: "string \<Rightarrow> ircsock \<Rightarrow> ircsock" where
  "cap_del sCap s =
     (let s1 = RemoveCap sCap s in s1 \<lparr>m_msCapLsValues := om_erase sCap (m_msCapLsValues s1)\<rparr>)"

text \<open>The part of OnCapabilityMessage before the call of SendNextCap, on the arguments.\<close>

definition cap_reply :: "env \<Rightarrow> string \<Rightarrow> string \<Rightarrow> ircsock \<Rightarrow> ircsock" where
  "cap_reply E sSubCmd sArgs s =
     (let vs = split_plain sArgs '' '' False in
      if sSubCmd = ''LS'' \<or> sSubCmd = ''NEW'' then fold (cap_offer E) vs s
      else if sSubCmd = ''ACK'' then fold cap_ack vs s
      else if sSubCmd = ''NAK'' then
        (if length vs = 1 then RemoveCap sArgs s
         else s \<lparr>m_ssPendingCapsPhase2 := fold os_insert vs (m_ssPendingCapsPhase2 s)\<rparr>)
      else if sSubCmd = ''DEL'' then fold cap_del vs s
      else s)"

definition OnCapabilityMessage :: "env \<Rightarrow> message \<Rightarrow> ircsock \<Rightarrow> bool \<times> ircsock" where
  "OnCapabilityMessage E m s =
     (let sSubCmd = GetParam m 1;
          (bSendNext, sArgs) = (if GetParam m 2 = ''*'' then (False, GetParam m 3) else (True, GetParam m 2));
          s1 = cap_reply E sSubCmd sArgs s
      in (True, if bSendNext then SendNextCap E s1 else s1))"

section \<open>The tables of the server\<close>

definition nth_chanmode_args :: "nat \<Rightarrow> chan_mode_args" where
  "nth_chanmode_args a = [ListArg, HasArg, ArgWhenSet, NoArg] ! a"

definition parse_chanmodes :: "string \<Rightarrow> (char, chan_mode_args) omap" where
  "parse_chanmodes sValue =
     fold (\<lambda>a m. fold (\<lambda>c. om_insert c (nth_chanmode_args a)) (Token sValue a False '','' False) m)
       [0..<4] []"

definition parse_prefix :: "string \<Rightarrow> ircsock \<Rightarrow> ircsock" where
  "parse_prefix sValue s =
     (let sPrefixes = Token sValue 1 False '')'' False;
          sPermModes = snd (TrimLeft ''('' (Token sValue 0 False '')'' False))
      in if sPrefixes \<noteq> [] \<and> length sPermModes = length sPrefixes
         then s \<lparr>m_sPerms := sPrefixes, m_sPermModes := sPermModes\<rparr> else s)"

text \<open>One round of the loop; the second component is the channel prefixes of the network.\<close>

definition isupport_param :: "env \<Rightarrow> string \<Rightarrow> string \<Rightarrow> ircsock \<times> string \<Rightarrow> ircsock \<times> string" where
  "isupport_param E sName sValue st =
     (let (s0, prefixes) = st;
          s = s0 \<lparr>m_mISupport := om_insert sName sValue (m_mISupport s0)\<rparr>
      in if equals_ci sName ''PREFIX'' then (parse_prefix sValue s, prefixes)
         else if equals_ci sName ''CHANTYPES'' then (s, sValue)
         else if equals_ci sName ''NICKLEN'' then
           (if ToUInt sValue \<noteq> 0 then s \<lparr>m_uMaxNickLen := ToUInt sValue\<rparr> else s, prefixes)
         else if equals_ci sName ''CHANMODES'' then
           (if sValue \<noteq> [] then s \<lparr>m_mceChanModes := parse_chanmodes sValue\<rparr> else s, prefixes)
         else if equals_ci sName ''NAMESX'' then
           (if m_bNamesx s then s else PutIRC E ''PROTOCTL NAMESX'' (s \<lparr>m_bNamesx := True\<rparr>), prefixes)
         else if equals_ci sName ''UHNAMES'' then
           (if m_bUHNames s then s else PutIRC E ''PROTOCTL UHNAMES'' (s \<lparr>m_bUHNames := True\<rparr>), prefixes)
         else (s, prefixes))"

fun isupport_loop :: "env \<Rightarrow> string list \<Rightarrow> ircsock \<times> string \<Rightarrow> ircsock \<times> string" where
  "isupport_loop E [] st = st"
| "isupport_loop E (sParam # ps) st =
     (let sName = Token sParam 0 False ''='' False; sValue = Token sParam 1 True ''='' False
      in if 0 < length sName \<and> hd sName = CHR '':'' then st
         else isupport_loop E ps (isupport_param E sName sValue st))"

definition ParseISupport :: "env \<Rightarrow> message \<Rightarrow> ircsock \<times> string \<Rightarrow> ircsock \<times> string" where
  "ParseISupport E m st = isupport_loop E (butlast (tl (m_vsParams m))) st"

definition GetISupport :: "ircsock \<Rightarrow> string \<Rightarrow> string \<Rightarrow> string" where
  "GetISupport s sKey sDefault =
     (case map_of (m_mISupport s) (AsUpper sKey) of None \<Rightarrow> sDefault | Some v \<Rightarrow> v)"

definition GetCapLsValue :: "ircsock \<Rightarrow> string \<Rightarrow> string \<Rightarrow> string" where
  "GetCapLsValue s sKey sDefault =
     (case map_of (m_msCapLsValues s) sKey of None \<Rightarrow> sDefault | Some v \<Rightarrow> v)"

definition GetPermFromMode :: "ircsock \<Rightarrow> char \<Rightarrow> char" where
  "GetPermFromMode s cMode =
     (if length (m_sPermModes s) = length (m_sPerms s)
      then (case find_char cMode (m_sPermModes s) of Some a \<Rightarrow> m_sPerms s ! a | None \<Rightarrow> NUL)
      else NUL)"

definition GetModeFromPerm :: "ircsock \<Rightarrow> char \<Rightarrow> char" where
  "GetModeFromPerm s cPerm =
     (if length (m_sPermModes s) = length (m_sPerms s)
      then (case find_char cPerm (m_sPerms s) of Some a \<Rightarrow> m_sPermModes s ! a | None \<Rightarrow> NUL)
      else NUL)"

definition GetModeType :: "ircsock \<Rightarrow> char \<Rightarrow> chan_mode_args" where
  "GetModeType s cMode = (case map_of (m_mceChanModes s) cMode of None \<Rightarrow> NoArg | Some t \<Rightarrow> t)"

definition IsPermChar :: "ircsock \<Rightarrow> char \<Rightarrow> bool" where
  "IsPermChar s c \<longleftrightarrow> c \<noteq> NUL \<and> c \<in> set (m_sPerms s)"

definition IsPermMode :: "ircsock \<Rightarrow> char \<Rightarrow> bool" where
  "IsPermMode s c \<longleftrightarrow> c \<noteq> NUL \<and> c \<in> set (m_sPermModes s)"

section \<open>Registration\<close>

text \<open>
  OnIRCRegistration may halt or change the four values: the argument is its answer.
\<close>

definition Connected :: "env \<Rightarrow> bool \<times> string \<times> string \<times> string \<times> string \<Rightarrow> ircsock \<Rightarrow> ircsock" where
  "Connected E registration s =
     (let (bReturn, sPass, sNick, sIdent, sRealName) = registration; q = [CHR 0x22] in
      if bReturn then s
      else
        (let s1 = PutIRC E ''CAP LS 302'' s;
             s2 = (if sPass \<noteq> []
                   then PutIRC_msg E (mk_message_from (e_parse_time E) (e_now E) empty_nick ''PASS'' [sPass] []) s1
                   else s1);
             s3 = PutIRC E (''NICK '' @ sNick) s2;
             s4 = PutIRC E (''USER '' @ sIdent @ '' '' @ q @ sIdent @ q @ '' '' @ q @ sIdent @ q @ '' :'' @ sRealName) s3
         in s4 \<lparr>sock_Nick := (sock_Nick s4) \<lparr>m_sNick := sNick\<rparr>\<rparr>))"

text \<open>
  The nick to try after one was refused: None stands for giving up. uMax - 1 is an unsigned
  32-bit difference, the letter after the last one of the refused nick a byte.
\<close>

definition next_letter :: "char \<Rightarrow> char" where
  "next_letter c = char_of ((byte c + 1) mod 256)"

definition alt_nick_from :: "string \<Rightarrow> string \<Rightarrow> string \<Rightarrow> string \<Rightarrow> string \<Rightarrow> string option" where
  "alt_nick_from sNewNick sConfNick sAltNick sLastNick sBadNick =
     (if equals_ci sLastNick sConfNick then
        (if sAltNick \<noteq> [] \<and> \<not> equals_ci sConfNick sAltNick then Some sAltNick
         else Some (sNewNick @ ''-''))
      else if equals_ci sLastNick sAltNick \<and> \<not> equals_ci sAltNick (sNewNick @ ''-'') then
        Some (sNewNick @ ''-'')
      else if equals_ci sLastNick (sNewNick @ ''-'') \<and> \<not> equals_ci sAltNick (sNewNick @ ''|'') then
        Some (sNewNick @ ''|'')
      else if equals_ci sLastNick (sNewNick @ ''|'') \<and> \<not> equals_ci sAltNick (sNewNick @ ''^'') then
        Some (sNewNick @ ''^'')
      else if equals_ci sLastNick (sNewNick @ ''^'') \<and> \<not> equals_ci sAltNick (sNewNick @ ''a'') then
        Some (sNewNick @ ''a'')
      else if sBadNick = [] \<or> last sBadNick = CHR ''z'' then None
      else
        (let cLetter = next_letter (last sBadNick) in
         if equals_ci (sNewNick @ [cLetter]) sAltNick then Some (sNewNick @ [next_letter cLetter])
         else Some (sNewNick @ [cLetter])))"

definition alt_nick :: "string \<Rightarrow> string \<Rightarrow> nat \<Rightarrow> string \<Rightarrow> string \<Rightarrow> string option" where
  "alt_nick sConfNick sAltNick uMax sLastNick sBadNick =
     alt_nick_from (Left sConfNick ((uMax + (2 ^ 32 - 1)) mod 2 ^ 32)) sConfNick sAltNick sLastNick sBadNick"

definition SendAltNick :: "env \<Rightarrow> string \<Rightarrow> string \<Rightarrow> string \<Rightarrow> string \<Rightarrow> ircsock \<Rightarrow> ircsock" where
  "SendAltNick E sConfNick sAltNick sQuitMsg sBadNick s =
     (let sLastNick = m_sNick (sock_Nick s);
          s1 = (if length sBadNick < length sLastNick then s \<lparr>m_uMaxNickLen := length sBadNick\<rparr> else s)
      in case alt_nick sConfNick sAltNick (m_uMaxNickLen s1) sLastNick sBadNick of
           Some sNewNick \<Rightarrow>
             (let s2 = PutIRC E (''NICK '' @ sNewNick) s1
              in s2 \<lparr>sock_Nick := (sock_Nick s2) \<lparr>m_sNick := sNewNick\<rparr>\<rparr>)
         | None \<Rightarrow>
             Quit E sQuitMsg []
               (s1 \<lparr>s_out := s_out s1 @ [PutUser
                  (if sBadNick = [] then ''No free nick available'' else ''No free nick found'')]\<rparr>))"

end
