(* ===== verification/Config.thy ===== *)
theory Config imports Tokens File_Lines Cstring_Num begin

text \<open>
  CConfig (src/Config.cpp, include/znc/Config.h): the tree of the configuration file. An
  entry map from lower-case names to value lists, sub-configurations by tag and name, and
  the name sets the parser uses against duplicates. \<open>config_line\<close> is one round of the parser
  loop over a line, with its stack of open tags; \<open>Config_Write\<close> is the writer.
\<close>

datatype config = Config
  (c_entries: "(string, string list) omap")
  (c_subs: "(string, (string \<times> config) list) omap")
  (c_sets: "(string, string list) omap")

definition empty_config :: config where
  "empty_config = Config [] [] []"

text \<open>\<open>m[k]\<close> of a std::map with container values: absent entries read as empty.\<close>

definition om_at :: "('k, 'v list) omap \<Rightarrow> 'k \<Rightarrow> 'v list" where
  "om_at m k = (case map_of m k of Some l \<Rightarrow> l | None \<Rightarrow> [])"

definition om_push :: "'k::linorder \<Rightarrow> 'v \<Rightarrow> ('k, 'v list) omap \<Rightarrow> ('k, 'v list) omap" where
  "om_push k v m = om_insert k (om_at m k @ [v]) m"

section \<open>Access\<close>

definition AddKeyValuePair :: "string \<Rightarrow> string \<Rightarrow> config \<Rightarrow> config" where
  "AddKeyValuePair sName sValue c =
     (if sName = [] \<or> sValue = [] then c
      else Config (om_push sName sValue (c_entries c)) (c_subs c) (c_sets c))"

definition AddSubConfig :: "string \<Rightarrow> string \<Rightarrow> config \<Rightarrow> config \<Rightarrow> bool \<times> config" where
  "AddSubConfig sTag sName sub c =
     (let nameset = om_at (c_sets c) sTag
      in if sName \<in> set nameset
         then (False, Config (c_entries c) (c_subs c) (om_insert sTag nameset (c_sets c)))
         else (True, Config (c_entries c) (om_push sTag (sName, sub) (c_subs c))
                       (om_insert sTag (os_insert sName nameset) (c_sets c))))"

definition FindStringVector :: "string \<Rightarrow> bool \<Rightarrow> config \<Rightarrow> (bool \<times> string list) \<times> config" where
  "FindStringVector sName bErase c =
     (case map_of (c_entries c) sName of
        None \<Rightarrow> ((False, []), c)
      | Some vs \<Rightarrow> ((True, vs),
          if bErase then Config (om_erase sName (c_entries c)) (c_subs c) (c_sets c) else c))"

definition FindStringEntry :: "string \<Rightarrow> string \<Rightarrow> config \<Rightarrow> (bool \<times> string) \<times> config" where
  "FindStringEntry sName sDefault c =
     (case map_of (c_entries c) sName of
        None \<Rightarrow> ((False, sDefault), c)
      | Some [] \<Rightarrow> ((False, sDefault), c)
      | Some (v # vs) \<Rightarrow> ((True, v),
          Config (if vs = [] then om_erase sName (c_entries c) else om_insert sName vs (c_entries c))
            (c_subs c) (c_sets c)))"

definition FindBoolEntry :: "string \<Rightarrow> bool \<Rightarrow> config \<Rightarrow> (bool \<times> bool) \<times> config" where
  "FindBoolEntry sName bDefault c =
     (case FindStringEntry sName [] c of
        ((True, s), c') \<Rightarrow> ((True, ToBool s), c')
      | ((False, s), c') \<Rightarrow> ((False, bDefault), c'))"

definition FindUIntEntry :: "string \<Rightarrow> nat \<Rightarrow> config \<Rightarrow> (bool \<times> nat) \<times> config" where
  "FindUIntEntry sName uDefault c =
     (case FindStringEntry sName [] c of
        ((True, s), c') \<Rightarrow> ((True, ToUInt s), c')
      | ((False, s), c') \<Rightarrow> ((False, uDefault), c'))"

definition FindUShortEntry :: "string \<Rightarrow> nat \<Rightarrow> config \<Rightarrow> (bool \<times> nat) \<times> config" where
  "FindUShortEntry sName uDefault c =
     (case FindStringEntry sName [] c of
        ((True, s), c') \<Rightarrow> ((True, ToUShort s), c')
      | ((False, s), c') \<Rightarrow> ((False, uDefault), c'))"

definition FindSubConfig :: "string \<Rightarrow> bool \<Rightarrow> config \<Rightarrow> (bool \<times> (string \<times> config) list) \<times> config" where
  "FindSubConfig sTag bErase c =
     (case map_of (c_subs c) sTag of
        None \<Rightarrow> ((False, []), c)
      | Some l \<Rightarrow> ((True, l),
          if bErase then Config (c_entries c) (om_erase sTag (c_subs c)) (om_erase sTag (c_sets c)) else c))"

section \<open>The parser\<close>

record parse_state =
  ps_root :: config
  ps_stack :: "(string \<times> string \<times> config) list"
  ps_commented :: bool

definition ps_active :: "parse_state \<Rightarrow> config" where
  "ps_active st = (case ps_stack st of [] \<Rightarrow> ps_root st | (t, n, c) # _ \<Rightarrow> c)"

definition set_active :: "config \<Rightarrow> parse_state \<Rightarrow> parse_state" where
  "set_active c st =
     (case ps_stack st of
        [] \<Rightarrow> st \<lparr>ps_root := c\<rparr>
      | (t, n, _) # rest \<Rightarrow> st \<lparr>ps_stack := (t, n, c) # rest\<rparr>)"

definition line_error :: "nat \<Rightarrow> string \<Rightarrow> string" where
  "line_error uLineNum arg = ''Error on line '' @ dec uLineNum @ '': '' @ arg"

definition quoted :: "string \<Rightarrow> string" where
  "quoted s = [CHR 0x22] @ s @ [CHR 0x22]"

text \<open>A line \<open><...>\<close> without its brackets.\<close>

definition config_tag_line :: "nat \<Rightarrow> string \<Rightarrow> parse_state \<Rightarrow> string + parse_state" where
  "config_tag_line uLineNum sLine st =
     (let sTag0 = Trim_n ws (token sLine 0);
          sValue = Trim_n ws (token_rest sLine 1);
          (closing, sTag) = TrimPrefix ''/'' sTag0
      in if closing then
           (if sValue \<noteq> [] then
              Inl (line_error uLineNum
                (''Malformated closing tag. Expected '' @ quoted (''</'' @ sTag @ ''>'') @ ''.''))
            else (case ps_stack st of
                [] \<Rightarrow> Inl (line_error uLineNum (''Closing tag '' @ quoted sTag @ '' which is not open.''))
              | (eTag, sName, myConfig) # rest \<Rightarrow>
                  if \<not> equals_ci sTag eTag then
                    Inl (line_error uLineNum (''Closing tag '' @ quoted sTag @ '' which is not open.''))
                  else
                    (let st1 = st \<lparr>ps_stack := rest\<rparr>;
                         (added, c') = AddSubConfig (AsLower sTag) sName myConfig (ps_active st1)
                     in if \<not> added then
                          Inl (line_error uLineNum (''Duplicate entry for tag '' @ quoted sTag @
                                '' name '' @ quoted sName @ ''.''))
                        else Inr (set_active c' st1))))
         else if sValue = [] then Inl (line_error uLineNum ''Empty block name at begin of block.'')
         else Inr (st \<lparr>ps_stack := (AsLower sTag, sValue, empty_config) # ps_stack st\<rparr>))"

definition config_line :: "nat \<Rightarrow> string \<Rightarrow> parse_state \<Rightarrow> string + parse_state" where
  "config_line uLineNum sLine0 st =
     (let sLine = TrimRight_n [CHR 0x0D, CHR 0x0A] (TrimLeft_n ws sLine0) in
      if ps_commented st \<or> starts_ci sLine ''/*'' then
        Inr (st \<lparr>ps_commented := \<not> ends_ci sLine ''*/''\<rparr>)
      else if sLine = [] \<or> starts_ci sLine ''#'' \<or> starts_ci sLine ''//'' then Inr st
      else if starts_ci sLine ''<'' \<and> ends_ci sLine ''>'' then
        config_tag_line uLineNum (Trim_n ws (RightChomp_n 1 (LeftChomp_n 1 sLine))) st
      else
        (let sName = Trim_n ws (Token sLine 0 False ''='' False);
             sValue = TrimPrefix_n '' '' (Token sLine 1 True ''='' False)
         in if sName = [] \<or> sValue = [] then Inl (line_error uLineNum ''Malformed line'')
            else (let c = ps_active st
                  in Inr (set_active (Config (om_push (AsLower sName) sValue (c_entries c))
                                        (c_subs c) (c_sets c)) st))))"

fun config_lines :: "nat \<Rightarrow> string list \<Rightarrow> parse_state \<Rightarrow> nat \<times> (string + parse_state)" where
  "config_lines n [] st = (n, Inr st)"
| "config_lines n (l # ls) st =
     (case config_line (Suc n) l st of
        Inl e \<Rightarrow> (Suc n, Inl e)
      | Inr st' \<Rightarrow> config_lines (Suc n) ls st')"

text \<open>Parse: the error message, or the configuration; an error leaves it empty.\<close>

definition Config_Parse :: "cfile \<Rightarrow> config \<Rightarrow> (string \<times> config) + config" where
  "Config_Parse file this =
     (case config_lines 0 (read_all file) \<lparr>ps_root = this, ps_stack = [], ps_commented = False\<rparr> of
        (n, Inl e) \<Rightarrow> Inl (e, empty_config)
      | (n, Inr st) \<Rightarrow>
          if ps_commented st then Inl (line_error n ''Comment not closed at end of file.'', empty_config)
          else (case ps_stack st of
              [] \<Rightarrow> Inr (ps_root st)
            | (sTag, _, _) # _ \<Rightarrow>
                Inl (line_error n (''Not all tags are closed at the end of the file. Inner-most open tag is ''
                       @ quoted sTag @ ''.''), empty_config)))"

section \<open>The writer\<close>

definition SingleLine :: "string \<Rightarrow> string" where
  "SingleLine s = Replace_n (Replace_n s [CHR 0x0D] []) [CHR 0x0A] []"

definition write_line :: "string \<Rightarrow> string" where
  "write_line s = SingleLine s @ [CHR 0x0A]"

definition indent :: "nat \<Rightarrow> string" where
  "indent n = replicate n (CHR 0x09)"

fun Config_Write :: "nat \<Rightarrow> config \<Rightarrow> string list" where
  "Config_Write ind (Config es ss ns) =
     concat (map (\<lambda>(k, vs). map (\<lambda>v. write_line (indent ind @ k @ '' = '' @ v)) vs) es) @
     concat (map (\<lambda>(t, l). concat (map (\<lambda>(n, c).
        [[CHR 0x0A], write_line (indent ind @ ''<'' @ t @ '' '' @ n @ ''>'')] @
        Config_Write (Suc ind) c @ [write_line (indent ind @ ''</'' @ t @ ''>'')]) l)) ss)"

section \<open>Structure kept by every operation\<close>

text \<open>
  Ordered maps without empty value lists, and name sets that are exactly the names of the
  sub-configurations, at every level.
\<close>

fun config_wf :: "config \<Rightarrow> bool" where
  "config_wf (Config es ss ns) \<longleftrightarrow>
     om_ok es \<and> om_ok ss \<and> om_ok ns \<and>
     (\<forall>(k, vs) \<in> set es. k \<noteq> [] \<and> vs \<noteq> [] \<and> [] \<notin> set vs) \<and>
     (\<forall>t. set (om_at ns t) = fst ` set (om_at ss t)) \<and>
     (\<forall>(t, l) \<in> set ss. l \<noteq> [] \<and> distinct (map fst l) \<and> (\<forall>(n, c) \<in> set l. config_wf c))"

lemma om_at_insert [simp]: "om_at (om_insert k l m) j = (if j = k then l else om_at m j)"
  by (simp add: om_at_def)

lemma om_at_Nil [simp]: "om_at [] k = []"
  by (simp add: om_at_def)

lemma om_at_member: "om_at m k \<noteq> [] \<Longrightarrow> (k, om_at m k) \<in> set m"
  by (auto simp: om_at_def split: option.splits dest: map_of_SomeD)

lemma set_om_insert: "set (om_insert k v m) \<subseteq> insert (k, v) (set m)"
  by (induction k v m rule: om_insert.induct) auto

lemma om_ok_push [simp]: "om_ok m \<Longrightarrow> om_ok (om_push k v m)"
  by (simp add: om_push_def)

lemma config_wf_empty [simp, wf_intros]: "config_wf empty_config"
  by (simp add: empty_config_def)

lemma config_wf_push [wf_intros]:
  assumes "config_wf c" and "k \<noteq> []" and "v \<noteq> []"
  shows "config_wf (Config (om_push k v (c_entries c)) (c_subs c) (c_sets c))"
proof (cases c)
  case (Config es ss ns)
  have "[] \<notin> set (om_at es k)"
    using assms(1) om_at_member [of es k] by (cases "om_at es k = []") (auto simp: Config)
  then show ?thesis
    using assms set_om_insert [of k "om_at es k @ [v]" es] by (auto simp: Config om_push_def)
qed

lemma config_wf_AddKeyValuePair [wf_intros]: "config_wf c \<Longrightarrow> config_wf (AddKeyValuePair k v c)"
  using config_wf_push [of c k v] by (auto simp: AddKeyValuePair_def simp del: config_wf.simps)

lemma config_wf_AddSubConfig [wf_intros]:
  assumes "config_wf c" and "config_wf sub"
  shows "config_wf (snd (AddSubConfig t n sub c))"
proof (cases c)
  case (Config es ss ns)
  note wf = assms(1) [unfolded Config, simplified]
  have wfs: "\<forall>e \<in> set ss. case e of (t', l) \<Rightarrow>
      l \<noteq> [] \<and> distinct (map fst l) \<and> (\<forall>(n, c) \<in> set l. config_wf c)"
    using wf by simp
  show ?thesis
  proof (cases "n \<in> set (om_at ns t)")
    case True
    then show ?thesis using wf by (simp add: Config AddSubConfig_def Let_def)
  next
    case False
    have "fst ` set (om_at ss t) = set (om_at ns t)" using wf by simp
    then have dist: "n \<notin> fst ` set (om_at ss t)" using False by simp
    have l: "distinct (map fst (om_at ss t)) \<and> (\<forall>(n, c) \<in> set (om_at ss t). config_wf c)"
      using wf om_at_member [of ss t] by (cases "om_at ss t = []") auto
    have "\<forall>(t', l) \<in> set (om_push t (n, sub) ss).
        l \<noteq> [] \<and> distinct (map fst l) \<and> (\<forall>(n, c) \<in> set l. config_wf c)"
    proof (rule ballI)
      fix e
      assume "e \<in> set (om_push t (n, sub) ss)"
      then have "e = (t, om_at ss t @ [(n, sub)]) \<or> e \<in> set ss"
        using subsetD [OF set_om_insert, of e t "om_at ss t @ [(n, sub)]" ss]
        unfolding om_push_def by simp
      then show "case e of (t', l) \<Rightarrow> l \<noteq> [] \<and> distinct (map fst l) \<and> (\<forall>(n, c) \<in> set l. config_wf c)"
      proof
        assume e: "e = (t, om_at ss t @ [(n, sub)])"
        show ?thesis using l dist assms(2) unfolding e by auto
      next
        assume "e \<in> set ss"
        with wfs show ?thesis by (rule bspec)
      qed
    qed
    then show ?thesis using wf False by (simp add: Config AddSubConfig_def Let_def om_push_def)
  qed
qed

text \<open>A state of the parser: every configuration on the stack is well-formed.\<close>

definition parse_ok :: "parse_state \<Rightarrow> bool" where
  "parse_ok st \<longleftrightarrow> config_wf (ps_root st) \<and> (\<forall>(t, n, c) \<in> set (ps_stack st). config_wf c)"

lemma parse_ok_active: "parse_ok st \<Longrightarrow> config_wf (ps_active st)"
  by (auto simp: parse_ok_def ps_active_def split: list.split)

lemma parse_ok_set_active: "parse_ok st \<Longrightarrow> config_wf c \<Longrightarrow> parse_ok (set_active c st)"
  by (auto simp: parse_ok_def set_active_def split: list.split)

lemma parse_ok_tag_line: "config_tag_line n l st = Inr st' \<Longrightarrow> parse_ok st \<Longrightarrow> parse_ok st'"
proof -
  assume l: "config_tag_line n l st = Inr st'" and ok: "parse_ok st"
  show "parse_ok st'"
  proof (cases "fst (TrimPrefix ''/'' (Trim_n ws (token l 0)))")
    case False
    then show ?thesis
      using l ok by (auto simp: config_tag_line_def Let_def split_def parse_ok_def split: if_splits)
  next
    case True
    let ?t = "snd (TrimPrefix ''/'' (Trim_n ws (token l 0)))"
    from l True obtain e nm c rest where st: "ps_stack st = (e, nm, c) # rest"
      and st': "st' = set_active (snd (AddSubConfig (AsLower ?t) nm c
          (ps_active (st \<lparr>ps_stack := rest\<rparr>)))) (st \<lparr>ps_stack := rest\<rparr>)"
      by (auto simp: config_tag_line_def Let_def split_def split: if_splits list.splits)
    have "parse_ok (st \<lparr>ps_stack := rest\<rparr>)" "config_wf c"
      using ok st by (auto simp: parse_ok_def)
    then show ?thesis
      unfolding st' by (intro parse_ok_set_active config_wf_AddSubConfig parse_ok_active)
  qed
qed

lemma parse_ok_line: "config_line n l st = Inr st' \<Longrightarrow> parse_ok st \<Longrightarrow> parse_ok st'"
  unfolding config_line_def Let_def
  using parse_ok_tag_line
  by (auto split: if_splits intro!: parse_ok_set_active config_wf_push parse_ok_active)
    (auto simp: parse_ok_def)

lemma parse_ok_lines: "config_lines n ls st = (m, Inr st') \<Longrightarrow> parse_ok st \<Longrightarrow> parse_ok st'"
  by (induction n ls st rule: config_lines.induct) (auto split: sum.splits dest: parse_ok_line)

lemma Config_Parse_wf: "config_wf c \<Longrightarrow> Config_Parse f c = Inr c' \<Longrightarrow> config_wf c'"
  using parse_ok_lines [of 0 "read_all f" "\<lparr>ps_root = c, ps_stack = [], ps_commented = False\<rparr>"]
  by (auto simp: Config_Parse_def parse_ok_def split: prod.splits sum.splits if_splits list.splits)

lemma Config_Parse_error: "Config_Parse f c = Inl (e, c') \<Longrightarrow> c' = empty_config"
  by (auto simp: Config_Parse_def split: prod.splits sum.splits if_splits list.splits)

end
