(* ===== verification/Chan.thy ===== *)
theory Chan imports Ircsock Buffer Config begin

text \<open>
  CChan (src/Chan.cpp) and CQuery (src/Query.cpp): the state of a channel (settings, nicks
  with their permissions, modes, buffer) and its operations. What a channel asks its network
  for is passed as an argument: the socket (for the permission and mode tables), the current
  nick, the user's settings, whether a client is online, and for the operations that talk to
  clients the record \<open>net_view\<close>. The operator of a mode change only reaches the module
  hooks and is left out; the calls of the hooks are returned as \<open>chan_event\<close>s.
  \<open>c_config_write\<close> records that a delayed write of the configuration was requested.
\<close>

record chan =
  m_bDetached :: bool
  m_bIsOn :: bool
  m_bAutoClearChanBuffer :: bool
  m_bInConfig :: bool
  m_bDisabled :: bool
  m_bHasBufferCountSet :: bool
  m_bHasAutoClearChanBufferSet :: bool
  m_sName :: string
  m_sKey :: string
  m_sTopic :: string
  m_sTopicOwner :: string
  m_ulTopicDate :: nat
  m_ulCreationDate :: nat
  chan_Nick :: nick
  m_uJoinTries :: nat
  m_sDefaultModes :: string
  m_msNicks :: "(string, nick) omap"
  m_Buffer :: buffer
  m_bModeKnown :: bool
  m_mcsModes :: "(char, string) omap"
  c_config_write :: bool

record user =
  u_AutoClearChanBuffer :: bool
  u_AutoClearQueryBuffer :: bool
  u_ChanBufferSize :: nat
  u_QueryBufferSize :: nat
  u_MaxQueryBuffers :: nat
  u_MaxJoins :: nat
  u_JoinTries :: nat
  u_DefaultChanModes :: string
  u_CTCPReplies :: "(string, string) omap"
  u_MaxBufferSize :: nat

section \<open>Settings\<close>

definition ResetJoinTries :: "chan \<Rightarrow> chan" where
  "ResetJoinTries c = c \<lparr>m_uJoinTries := 0\<rparr>"

definition IncJoinTries :: "chan \<Rightarrow> chan" where
  "IncJoinTries c = c \<lparr>m_uJoinTries := (m_uJoinTries c + 1) mod 2 ^ 32\<rparr>"

definition Chan_Reset :: "chan \<Rightarrow> chan" where
  "Chan_Reset c = ResetJoinTries (c \<lparr>m_bIsOn := False, m_bModeKnown := False, m_mcsModes := [],
     m_sTopic := [], m_sTopicOwner := [], m_ulTopicDate := 0, m_ulCreationDate := 0,
     chan_Nick := Nick_Reset (chan_Nick c), m_msNicks := []\<rparr>)"

definition SetIsOn :: "bool \<Rightarrow> chan \<Rightarrow> chan" where
  "SetIsOn b c = (let c1 = c \<lparr>m_bIsOn := b\<rparr> in if \<not> b then Chan_Reset c1 else c1)"

definition Enable :: "chan \<Rightarrow> chan" where
  "Enable c = (ResetJoinTries c) \<lparr>m_bDisabled := False\<rparr>"

definition Disable :: "chan \<Rightarrow> chan" where
  "Disable c = c \<lparr>m_bDisabled := True\<rparr>"

definition SetKey :: "string \<Rightarrow> chan \<Rightarrow> chan" where
  "SetKey s c =
     (if m_sKey c \<noteq> s then c \<lparr>m_sKey := s, c_config_write := c_config_write c \<or> m_bInConfig c\<rparr> else c)"

definition SetInConfig :: "bool \<Rightarrow> chan \<Rightarrow> chan" where
  "SetInConfig b c = (if m_bInConfig c \<noteq> b then c \<lparr>m_bInConfig := b, c_config_write := True\<rparr> else c)"

definition ClearBuffer :: "chan \<Rightarrow> chan" where
  "ClearBuffer c = c \<lparr>m_Buffer := Buffer_Clear (m_Buffer c)\<rparr>"

definition SetBufferCount :: "nat \<Rightarrow> nat \<Rightarrow> bool \<Rightarrow> chan \<Rightarrow> bool \<times> chan" where
  "SetBufferCount MaxBufferSize u bForce c =
     (let (ok, b) = SetLineCount MaxBufferSize u bForce (m_Buffer c)
      in (ok, c \<lparr>m_bHasBufferCountSet := True, m_Buffer := b\<rparr>))"

definition InheritBufferCount :: "nat \<Rightarrow> nat \<Rightarrow> bool \<Rightarrow> chan \<Rightarrow> chan" where
  "InheritBufferCount MaxBufferSize u bForce c =
     (if \<not> m_bHasBufferCountSet c
      then c \<lparr>m_Buffer := snd (SetLineCount MaxBufferSize u bForce (m_Buffer c))\<rparr> else c)"

definition ResetBufferCount :: "user \<Rightarrow> chan \<Rightarrow> chan" where
  "ResetBufferCount U c =
     (snd (SetBufferCount (u_MaxBufferSize U) (u_ChanBufferSize U) False c)) \<lparr>m_bHasBufferCountSet := False\<rparr>"

definition auto_clear :: "bool \<Rightarrow> chan \<Rightarrow> chan" where
  "auto_clear bUserOnline c =
     (if m_bAutoClearChanBuffer c \<and> \<not> m_bDetached c \<and> bUserOnline then ClearBuffer c else c)"

definition SetAutoClearChanBuffer :: "bool \<Rightarrow> bool \<Rightarrow> chan \<Rightarrow> chan" where
  "SetAutoClearChanBuffer bUserOnline b c =
     auto_clear bUserOnline (c \<lparr>m_bHasAutoClearChanBufferSet := True, m_bAutoClearChanBuffer := b\<rparr>)"

definition InheritAutoClearChanBuffer :: "bool \<Rightarrow> bool \<Rightarrow> chan \<Rightarrow> chan" where
  "InheritAutoClearChanBuffer bUserOnline b c =
     (if \<not> m_bHasAutoClearChanBufferSet c
      then auto_clear bUserOnline (c \<lparr>m_bAutoClearChanBuffer := b\<rparr>) else c)"

definition ResetAutoClearChanBuffer :: "bool \<Rightarrow> user \<Rightarrow> chan \<Rightarrow> chan" where
  "ResetAutoClearChanBuffer bUserOnline U c =
     (SetAutoClearChanBuffer bUserOnline (u_AutoClearChanBuffer U) c)
       \<lparr>m_bHasAutoClearChanBufferSet := False\<rparr>"

definition GetOptions :: "chan \<Rightarrow> string" where
  "GetOptions c = Join '', ''
     ((if m_bDetached c then [''Detached''] else []) @
      (if m_bAutoClearChanBuffer c
       then [if m_bHasAutoClearChanBufferSet c then ''AutoClearChanBuffer'' else ''AutoClearChanBuffer (default)'']
       else []))"

section \<open>Construction and configuration\<close>

definition with_entry :: "string \<Rightarrow> (string \<Rightarrow> 'a \<Rightarrow> 'a) \<Rightarrow> 'a \<times> config \<Rightarrow> 'a \<times> config" where
  "with_entry sName f st =
     (case FindStringEntry sName [] (snd st) of
        ((True, sValue), c') \<Rightarrow> (f sValue (fst st), c')
      | ((False, _), c') \<Rightarrow> (fst st, c'))"

text \<open>The entry autocycle only prints a warning; it is taken from the configuration.\<close>

definition chan_entries :: "user \<Rightarrow> bool \<Rightarrow> chan \<times> config \<Rightarrow> chan \<times> config" where
  "chan_entries U bUserOnline st =
     with_entry ''modes'' (\<lambda>v c. c \<lparr>m_sDefaultModes := v\<rparr>)
     (with_entry ''key'' SetKey
     (with_entry ''autocycle'' (\<lambda>v c. c)
     (with_entry ''disabled'' (\<lambda>v c. if ToBool v then Disable c else c)
     (with_entry ''detached'' (\<lambda>v c. c \<lparr>m_bDetached := ToBool v\<rparr>)
     (with_entry ''keepbuffer'' (\<lambda>v. SetAutoClearChanBuffer bUserOnline (\<not> ToBool v))
     (with_entry ''autoclearchanbuffer'' (\<lambda>v. SetAutoClearChanBuffer bUserOnline (ToBool v))
     (with_entry ''buffer'' (\<lambda>v c. snd (SetBufferCount (u_MaxBufferSize U) (ToUInt v) True c)) st)))))))"

definition mk_chan ::
    "user \<Rightarrow> bool \<Rightarrow> (string \<Rightarrow> bool) \<Rightarrow> string \<Rightarrow> bool \<Rightarrow> config option \<Rightarrow> chan" where
  "mk_chan U bUserOnline IsChan sName bInConfig pConfig =
     (let sTok = token sName 0;
          c = \<lparr>m_bDetached = False, m_bIsOn = False, m_bAutoClearChanBuffer = u_AutoClearChanBuffer U,
               m_bInConfig = bInConfig, m_bDisabled = False, m_bHasBufferCountSet = False,
               m_bHasAutoClearChanBufferSet = False,
               m_sName = (if IsChan sTok then sTok else ''#'' @ sTok), m_sKey = token sName 1,
               m_sTopic = [], m_sTopicOwner = [], m_ulTopicDate = 0, m_ulCreationDate = 0,
               chan_Nick = empty_nick, m_uJoinTries = 0, m_sDefaultModes = [], m_msNicks = [],
               m_Buffer = snd (SetLineCount (u_MaxBufferSize U) (u_ChanBufferSize U) True (empty_buffer 100)),
               m_bModeKnown = False, m_mcsModes = [], c_config_write = False\<rparr>
      in case pConfig of None \<Rightarrow> c | Some cfg \<Rightarrow> fst (chan_entries U bUserOnline (c, cfg)))"

definition bool_str :: "bool \<Rightarrow> string" where
  "bool_str b = (if b then ''true'' else ''false'')"

definition Chan_ToConfig :: "chan \<Rightarrow> config" where
  "Chan_ToConfig c =
     (let add = (\<lambda>b k v cfg. if b then AddKeyValuePair k v cfg else cfg)
      in add (m_sDefaultModes c \<noteq> []) ''Modes'' (m_sDefaultModes c)
         (add (m_sKey c \<noteq> []) ''Key'' (m_sKey c)
         (add (m_bDisabled c) ''Disabled'' ''true''
         (add (m_bDetached c) ''Detached'' ''true''
         (add (m_bHasAutoClearChanBufferSet c) ''AutoClearChanBuffer'' (bool_str (m_bAutoClearChanBuffer c))
         (add (m_bHasBufferCountSet c) ''Buffer'' (dec (b_uLineCount (m_Buffer c))) empty_config))))))"

section \<open>Nicks\<close>

definition FindNick :: "string \<Rightarrow> chan \<Rightarrow> nick option" where
  "FindNick sNick c = map_of (m_msNicks c) sNick"

text \<open>
  A mutation through the pointer that FindNick returned: the entry with that key changes.
\<close>

definition upd_nick :: "string \<Rightarrow> nick \<Rightarrow> chan \<Rightarrow> chan" where
  "upd_nick sKey n c = c \<lparr>m_msNicks := om_insert sKey n (m_msNicks c)\<rparr>"

definition put_nick :: "string \<Rightarrow> string \<Rightarrow> string \<Rightarrow> string \<Rightarrow> string \<Rightarrow> chan \<Rightarrow> chan" where
  "put_nick sCurNick sPrefix sTmp sIdent sHost c =
     (let pNick = FindNick sTmp c;
          n0 = (case pNick of Some n \<Rightarrow> n | None \<Rightarrow> mk_nick sTmp);
          n1 = (if sIdent \<noteq> [] then n0 \<lparr>m_sIdent := sIdent\<rparr> else n0);
          n2 = (if sHost \<noteq> [] then n1 \<lparr>m_sHost := sHost\<rparr> else n1);
          n3 = fold (\<lambda>x n. snd (AddPerm x n)) sPrefix n2;
          c1 = (if pNick \<noteq> None then upd_nick sTmp n3 c else c);
          c2 = (if NickEquals n3 sCurNick
                then c1 \<lparr>chan_Nick := fold (\<lambda>x n. snd (AddPerm x n)) sPrefix (chan_Nick c1)\<rparr> else c1)
      in upd_nick (m_sNick n3) n3 c2)"

definition AddNick :: "ircsock \<Rightarrow> string \<Rightarrow> string \<Rightarrow> chan \<Rightarrow> bool \<times> chan" where
  "AddNick sock sCurNick sNick c =
     (let p = c_str sNick;
          sPrefix = takeWhile (IsPermChar sock) p;
          rest = dropWhile (IsPermChar sock) p
      in if sPrefix \<noteq> [] \<and> rest = [] then (False, c)
         else
           (let sIdentHost = Token rest 1 True ''!'' False;
                sHost = Token sIdentHost 1 True ''@'' False;
                sIdent = Token sIdentHost 0 False ''@'' False;
                sTmp = Token rest 0 False ''!'' False
            in (True, put_nick sCurNick sPrefix sTmp sIdent sHost c)))"

fun add_nicks :: "ircsock \<Rightarrow> string \<Rightarrow> string list \<Rightarrow> chan \<Rightarrow> nat \<times> chan" where
  "add_nicks sock sCurNick [] c = (0, c)"
| "add_nicks sock sCurNick (sNick # ns) c =
     (let (ok, c1) = AddNick sock sCurNick sNick c; (k, c2) = add_nicks sock sCurNick ns c1
      in (if ok then Suc k else k, c2))"

definition AddNicks :: "ircsock \<Rightarrow> string \<Rightarrow> string \<Rightarrow> chan \<Rightarrow> nat \<times> chan" where
  "AddNicks sock sCurNick sNicks c = add_nicks sock sCurNick (split_plain sNicks '' '' False) c"

definition RemNick :: "string \<Rightarrow> chan \<Rightarrow> bool \<times> chan" where
  "RemNick sNick c =
     (case FindNick sNick c of
        None \<Rightarrow> (False, c)
      | Some _ \<Rightarrow> (True, c \<lparr>m_msNicks := om_erase sNick (m_msNicks c)\<rparr>))"

definition ChangeNick :: "string \<Rightarrow> string \<Rightarrow> chan \<Rightarrow> bool \<times> chan" where
  "ChangeNick sOldNick sNewNick c =
     (case FindNick sOldNick c of
        None \<Rightarrow> (False, c)
      | Some n \<Rightarrow>
          (let n' = n \<lparr>m_sNick := sNewNick\<rparr>;
               c1 = upd_nick sOldNick n' c;
               c2 = upd_nick sNewNick n' c1
           in (True, c2 \<lparr>m_msNicks := om_erase sOldNick (m_msNicks c2)\<rparr>)))"

definition OnWho :: "string \<Rightarrow> string \<Rightarrow> string \<Rightarrow> chan \<Rightarrow> chan" where
  "OnWho sNick sIdent sHost c =
     (case FindNick sNick c of
        Some n \<Rightarrow> upd_nick sNick (n \<lparr>m_sIdent := sIdent, m_sHost := sHost\<rparr>) c
      | None \<Rightarrow> c)"

definition GetPermCounts :: "string \<Rightarrow> chan \<Rightarrow> (char, nat) omap" where
  "GetPermCounts perms c =
     fold (\<lambda>(k, n) m. fold (\<lambda>p m. om_insert p (Suc (case map_of m p of Some i \<Rightarrow> i | None \<Rightarrow> 0)) m)
                        (GetPermStr perms n) m)
       (m_msNicks c) []"

section \<open>Modes\<close>

datatype chan_event =
    OnRawMode2 string string
  | OnChanPermission3 string char bool bool
  | OnOp2 string bool
  | OnDeop2 string bool
  | OnVoice2 string bool
  | OnDevoice2 string bool
  | OnMode2 char string bool bool

definition GetModeArg :: "chan \<Rightarrow> char \<Rightarrow> string" where
  "GetModeArg c cMode =
     (if cMode \<noteq> NUL then (case map_of (m_mcsModes c) cMode of Some a \<Rightarrow> a | None \<Rightarrow> []) else [])"

definition HasMode :: "chan \<Rightarrow> char \<Rightarrow> bool" where
  "HasMode c cMode \<longleftrightarrow> cMode \<noteq> NUL \<and> map_of (m_mcsModes c) cMode \<noteq> None"

definition AddMode :: "char \<Rightarrow> string \<Rightarrow> chan \<Rightarrow> bool \<times> chan" where
  "AddMode cMode sArg c = (True, c \<lparr>m_mcsModes := om_insert cMode sArg (m_mcsModes c)\<rparr>)"

definition RemMode :: "char \<Rightarrow> chan \<Rightarrow> bool \<times> chan" where
  "RemMode cMode c =
     (if \<not> HasMode c cMode then (False, c)
      else (True, c \<lparr>m_mcsModes := om_erase cMode (m_mcsModes c)\<rparr>))"

definition nextArg :: "string list \<Rightarrow> string \<times> string list" where
  "nextArg args = (case args of [] \<Rightarrow> ([], []) | a # as \<Rightarrow> (a, as))"

text \<open>A mode that is a permission of a nick.\<close>

definition perm_change ::
    "ircsock \<Rightarrow> string \<Rightarrow> char \<Rightarrow> bool \<Rightarrow> string \<Rightarrow> chan \<Rightarrow> chan \<times> chan_event list" where
  "perm_change sock sCurNick cMode bAdd sArg c =
     (case FindNick sArg c of
        None \<Rightarrow> (c, [])
      | Some n \<Rightarrow>
          (let cPerm = GetPermFromMode sock cMode in
           if cPerm = NUL then (c, [])
           else
             (let bNoChange = (HasPerm n cPerm = bAdd);
                  set_perm = (\<lambda>n. snd (if bAdd then AddPerm cPerm n else RemPerm cPerm n));
                  n' = set_perm n;
                  c1 = upd_nick sArg n' c;
                  c2 = (if NickEquals n' sCurNick then c1 \<lparr>chan_Nick := set_perm (chan_Nick c1)\<rparr> else c1)
              in (c2, OnChanPermission3 (m_sNick n') cMode bAdd bNoChange #
                   (if cMode = CHR ''o'' then [(if bAdd then OnOp2 else OnDeop2) (m_sNick n') bNoChange]
                    else if cMode = CHR ''v'' then [(if bAdd then OnVoice2 else OnDevoice2) (m_sNick n') bNoChange]
                    else [])))))"

text \<open>A mode of the channel: does it take an argument, and what it does.\<close>

definition mode_arg :: "chan_mode_args \<Rightarrow> bool \<Rightarrow> string list \<Rightarrow> string \<times> string list" where
  "mode_arg t bAdd args =
     (case t of ListArg \<Rightarrow> nextArg args
      | HasArg \<Rightarrow> nextArg args
      | NoArg \<Rightarrow> ([], args)
      | ArgWhenSet \<Rightarrow> if bAdd then nextArg args else ([], args))"

definition chan_mode ::
    "char \<Rightarrow> bool \<Rightarrow> bool \<Rightarrow> string \<Rightarrow> chan \<Rightarrow> chan \<times> chan_event list" where
  "chan_mode cMode bAdd bList sArg c =
     (let bNoChange = (if bList then False
                       else if bAdd then HasMode c cMode \<and> GetModeArg c cMode = sArg
                       else \<not> HasMode c cMode);
          c1 = (if \<not> bList then snd (if bAdd then AddMode cMode sArg c else RemMode cMode c) else c);
          c2 = (if cMode = CHR ''k'' \<and> \<not> bNoChange \<and> bAdd \<and> sArg \<noteq> ''*'' then SetKey sArg c1 else c1)
      in (c2, [OnMode2 cMode sArg bAdd bNoChange]))"

fun mode_loop ::
    "ircsock \<Rightarrow> string \<Rightarrow> string \<Rightarrow> bool \<Rightarrow> string list \<Rightarrow> chan \<Rightarrow> chan \<times> chan_event list" where
  "mode_loop sock sCurNick [] bAdd args c = (c, [])"
| "mode_loop sock sCurNick (cMode # ms) bAdd args c =
     (if cMode = CHR ''+'' then mode_loop sock sCurNick ms True args c
      else if cMode = CHR ''-'' then mode_loop sock sCurNick ms False args c
      else
        (let (r, args') =
               (if IsPermMode sock cMode then
                  (let (sArg, args') = nextArg args
                   in (perm_change sock sCurNick cMode bAdd sArg c, args'))
                else
                  (let t = GetModeType sock cMode; (sArg, args') = mode_arg t bAdd args
                   in (chan_mode cMode bAdd (t = ListArg) sArg c, args')));
             (c', es) = mode_loop sock sCurNick ms bAdd args' (fst r)
         in (c', snd r @ es)))"

definition ModeChange ::
    "ircsock \<Rightarrow> string \<Rightarrow> string \<Rightarrow> string list \<Rightarrow> chan \<Rightarrow> chan \<times> chan_event list" where
  "ModeChange sock sCurNick sModes vsModes c =
     (let (c', es) = mode_loop sock sCurNick sModes True vsModes c
      in (c', OnRawMode2 sModes (Join '' '' vsModes) # es))"

lemma token_rest_1:
  "token_rest s 1 = dropWhile (\<lambda>c. c = CHR '' '') (dropWhile (\<lambda>c. c \<noteq> CHR '' '') (dropWhile (\<lambda>c. c = CHR '' '') s))"
  by (rule Token_rest_sep) simp

lemma token_rest_shorter: "s \<noteq> [] \<Longrightarrow> length (token_rest s 1) < length s"
proof -
  assume s: "s \<noteq> []"
  let ?b = "\<lambda>c. c = CHR '' ''" and ?n = "\<lambda>c. c \<noteq> CHR '' ''"
  show ?thesis
  proof (cases "dropWhile ?b s")
    case Nil
    have "token_rest s 1 = []" unfolding token_rest_1 Nil by simp
    then show ?thesis using s by simp
  next
    case (Cons a q)
    have "\<not> ?b (hd (dropWhile ?b s))" by (rule hd_dropWhile) (simp only: Cons, simp)
    then have a: "a \<noteq> CHR '' ''" unfolding Cons by simp
    have "token_rest s 1 = dropWhile ?b (dropWhile ?n q)" unfolding token_rest_1 Cons using a by simp
    moreover have "length (dropWhile ?b (dropWhile ?n q)) \<le> length q" by (meson le_trans length_dropWhile_le)
    moreover have "Suc (length q) \<le> length s" using length_dropWhile_le [of ?b s] Cons by simp
    ultimately show ?thesis by simp
  qed
qed

text \<open>The arguments of the overload that takes the whole text.\<close>

function mode_args :: "string \<Rightarrow> string list" where
  "mode_args sArgs =
     (if sArgs = [] then []
      else (let (colon, rest) = TrimPrefix '':'' sArgs
            in if colon then [rest] else token sArgs 0 # mode_args (token_rest sArgs 1)))"
  by pat_completeness auto
termination
  by (relation "measure length") (auto simp: token_rest_shorter [simplified])

declare mode_args.simps [simp del]

definition ModeChange_str ::
    "ircsock \<Rightarrow> string \<Rightarrow> string \<Rightarrow> chan \<Rightarrow> chan \<times> chan_event list" where
  "ModeChange_str sock sCurNick sModes c =
     (let (colon, sModeArg) = TrimPrefix '':'' (token sModes 0)
      in ModeChange sock sCurNick sModeArg (if colon then [] else mode_args (token_rest sModes 1)) c)"

definition SetModes ::
    "ircsock \<Rightarrow> string \<Rightarrow> string \<Rightarrow> string list \<Rightarrow> chan \<Rightarrow> chan \<times> chan_event list" where
  "SetModes sock sCurNick modes vsModeParams c =
     ModeChange sock sCurNick modes vsModeParams (c \<lparr>m_mcsModes := []\<rparr>)"

definition SetModes_str :: "ircsock \<Rightarrow> string \<Rightarrow> string \<Rightarrow> chan \<Rightarrow> chan \<times> chan_event list" where
  "SetModes_str sock sCurNick sModes c = ModeChange_str sock sCurNick sModes (c \<lparr>m_mcsModes := []\<rparr>)"

definition GetModeString :: "chan \<Rightarrow> string" where
  "GetModeString c =
     (let (sModes, sArgs) = foldl (\<lambda>(sModes, sArgs) (m, a).
            (sModes @ [m], if a \<noteq> [] then sArgs @ '' '' @ a else sArgs)) ([], []) (m_mcsModes c)
      in if sModes = [] then sModes else ''+'' @ sModes @ sArgs)"

definition GetModeForNames :: "chan \<Rightarrow> string" where
  "GetModeForNames c =
     (let sMode = foldl (\<lambda>sMode (m, a). if m = CHR ''s'' then ''@''
                           else if m = CHR ''p'' \<and> sMode = [] then ''*'' else sMode) [] (m_mcsModes c)
      in if sMode = [] then ''='' else sMode)"

definition take_mode_arg :: "string \<Rightarrow> string \<times> string" where
  "take_mode_arg sArgs =
     (let sRet = takeWhile (\<lambda>x. x \<noteq> CHR '' '') sArgs
      in (sRet, if length sRet < length sArgs then drop (length sRet + 1) sArgs else []))"

end
