(* ===== verification/Chan_Clients.thy ===== *)
theory Chan_Clients imports Chan begin

text \<open>
  What channels and queries send to the attached clients (src/Chan.cpp, src/Query.cpp):
  AttachUser with the NAMES lines, DetachUser, SendBuffer, and Clone, JoinUser and Cycle,
  which use them or write to the server. A client is the record of the properties the code
  asks it for; outputs are \<open>client_out\<close> values with the index of the client. The MD5 digest
  of a name and the answers of the module hooks are arguments.
\<close>

record client =
  cl_caps :: client_caps
  cl_HasNamesx :: bool
  cl_HasUHNames :: bool
  cl_HasBatch :: bool
  cl_HasChgHost :: bool
  cl_HasEchoMessage :: bool
  cl_HasSelfMessage :: bool
  cl_IsAway :: bool
  cl_sNick :: string

record net_view =
  nv_IRCNick :: nick
  nv_IRCServer :: string
  nv_perms :: string
  nv_clients :: "client list"

record play_hooks =
  BufferStarting_skips :: "nat \<Rightarrow> bool"
  BufferEnding_skips :: "nat \<Rightarrow> bool"
  BufferPlayMessage :: "message \<Rightarrow> bool \<times> message"
  name_MD5 :: "string \<Rightarrow> string"

section \<open>Playback\<close>

definition play_line ::
    "play_hooks \<Rightarrow> (nat \<times> client) \<Rightarrow> (string, string) omap \<Rightarrow> (message \<Rightarrow> bool) \<Rightarrow>
     string option \<Rightarrow> string \<Rightarrow> bufline \<Rightarrow> client_out list" where
  "play_line H ic mssParams hide chan sBatchName l =
     (let m = ToMessage (cl_caps (snd ic)) mssParams l in
      if hide m then []
      else
        (let m1 = (case chan of Some n \<Rightarrow> m \<lparr>m_pChan := Some n\<rparr> | None \<Rightarrow> m);
             m2 = (if cl_HasBatch (snd ic) then SetTag ''batch'' sBatchName m1 else m1);
             (bSkip, m3) = BufferPlayMessage H m2
         in if bSkip then [] else [PutClientMsg (fst ic) m3]))"

definition batch_line :: "nat \<times> client \<Rightarrow> string \<Rightarrow> client_out list" where
  "batch_line ic s = (if cl_HasBatch (snd ic) then [PutClient (fst ic) s] else [])"

definition playback_status :: "nat \<Rightarrow> bool \<Rightarrow> bool \<Rightarrow> string \<Rightarrow> string \<Rightarrow> client_out list" where
  "playback_status i bServerTime bHook sName sText =
     (if bServerTime \<or> bHook then []
      else [PutClient i ('':***!znc@znc.in PRIVMSG '' @ sName @ '' :'' @ sText)])"

text \<open>
  The clients a playback goes to: the one that asked, or all. The hook may only set the flag
  that hides the status lines, which the code initialises with HasServerTime.
\<close>

definition targets :: "client list \<Rightarrow> nat option \<Rightarrow> (nat \<times> client) list" where
  "targets cs pClient =
     (case pClient of Some i \<Rightarrow> if i < length cs then [(i, cs ! i)] else []
      | None \<Rightarrow> zip [0..<length cs] cs)"

definition Chan_play ::
    "play_hooks \<Rightarrow> string \<Rightarrow> bufline list \<Rightarrow> nat \<times> client \<Rightarrow> client_out list" where
  "Chan_play H sName lines ic =
     (let i = fst ic; cl = snd ic; sBatchName = name_MD5 H sName in
      playback_status i (HasServerTime (cl_caps cl)) (BufferStarting_skips H i) sName ''Buffer Playback...'' @
      batch_line ic ('':znc.in BATCH +'' @ sBatchName @ '' znc.in/playback '' @ sName) @
      concat (map (play_line H ic [] (\<lambda>m. False) (Some sName) sBatchName) lines) @
      playback_status i (HasServerTime (cl_caps cl)) (BufferEnding_skips H i) sName ''Playback Complete.'' @
      batch_line ic ('':znc.in BATCH -'' @ sBatchName))"

definition Chan_SendBuffer ::
    "play_hooks \<Rightarrow> client list \<Rightarrow> nat option \<Rightarrow> chan \<Rightarrow> client_out list \<times> chan" where
  "Chan_SendBuffer H cs pClient c =
     ((if cs \<noteq> [] \<and> b_lines (m_Buffer c) \<noteq> []
       then concat (map (Chan_play H (m_sName c) (b_lines (m_Buffer c))) (targets cs pClient)) else []),
      if m_bAutoClearChanBuffer c then ClearBuffer c else c)"

section \<open>Attaching and detaching\<close>

definition names_entry :: "client \<Rightarrow> string \<Rightarrow> string \<times> nick \<Rightarrow> string" where
  "names_entry cl perms e =
     (let sPerm = (if cl_HasNamesx cl then GetPermStr perms (snd e)
                   else (let x = GetPermChar perms (snd e) in if x \<noteq> NUL then [x] else []));
          sNick = (if cl_HasUHNames cl \<and> m_sIdent (snd e) \<noteq> [] \<and> m_sHost (snd e) \<noteq> []
                   then fst e @ ''!'' @ m_sIdent (snd e) @ ''@'' @ m_sHost (snd e) else fst e)
      in sPerm @ sNick)"

fun names_loop :: "string \<Rightarrow> string \<Rightarrow> string list \<Rightarrow> string list" where
  "names_loop sPre sLine [] = []"
| "names_loop sPre sLine (e # es) =
     (if length (sLine @ e) \<ge> 490 \<or> es = [] then (sLine @ e) # names_loop sPre sPre es
      else names_loop sPre (sLine @ e @ '' '') es)"

definition AttachUser ::
    "play_hooks \<Rightarrow> net_view \<Rightarrow> nat option \<Rightarrow> chan \<Rightarrow> client_out list \<times> chan" where
  "AttachUser H V pClient c =
     (let cs = nv_clients V;
          put = (\<lambda>s. case pClient of Some i \<Rightarrow> if i < length cs then [PutClient i s] else [] | None \<Rightarrow> [PutUser s]);
          num = (\<lambda>n. '':'' @ nv_IRCServer V @ '' '' @ n @ '' '' @ m_sNick (nv_IRCNick V) @ '' '');
          join = put ('':'' @ GetNickMask (nv_IRCNick V) @ '' JOIN :'' @ m_sName c);
          topic = (if m_sTopic c \<noteq> [] then
                     put (num ''332'' @ m_sName c @ '' :'' @ m_sTopic c) @
                     (if m_sTopicOwner c \<noteq> []
                      then put (num ''333'' @ m_sName c @ '' '' @ m_sTopicOwner c @ '' '' @ dec (m_ulTopicDate c))
                      else [])
                   else []);
          sPre = num ''353'' @ GetModeForNames c @ '' '' @ m_sName c @ '' :'';
          names = concat (map (\<lambda>(i, cl). map (PutClient i)
                    (names_loop sPre sPre (map (names_entry cl (nv_perms V)) (m_msNicks c)))) (targets cs pClient));
          ende = put (num ''366'' @ m_sName c @ '' :End of /NAMES list.'');
          (play, c') = Chan_SendBuffer H cs pClient (c \<lparr>m_bDetached := False\<rparr>)
      in (join @ topic @ names @ ende @ play, c'))"

definition DetachUser :: "net_view \<Rightarrow> chan \<Rightarrow> client_out list \<times> chan" where
  "DetachUser V c =
     (if \<not> m_bDetached c
      then ([PutUser ('':'' @ GetNickMask (nv_IRCNick V) @ '' PART '' @ m_sName c)], c \<lparr>m_bDetached := True\<rparr>)
      else ([], c))"

definition Chan_Clone ::
    "play_hooks \<Rightarrow> net_view \<Rightarrow> user \<Rightarrow> chan \<Rightarrow> chan \<Rightarrow> client_out list \<times> chan" where
  "Chan_Clone H V U src c =
     (let online = (\<exists>cl \<in> set (nv_clients V). \<not> cl_IsAway cl);
          c1 = snd (SetBufferCount (u_MaxBufferSize U) (b_uLineCount (m_Buffer src)) True c);
          c2 = SetAutoClearChanBuffer online (m_bAutoClearChanBuffer src) c1;
          c3 = (SetKey (m_sKey src) c2) \<lparr>m_sDefaultModes := m_sDefaultModes src\<rparr>
      in if m_bDetached c3 \<noteq> m_bDetached src
         then (let (out, c4) = (if m_bIsOn c3
                                then if m_bDetached c3 then AttachUser H V None c3 else DetachUser V c3
                                else ([], c3))
               in (out, c4 \<lparr>m_bDetached := m_bDetached src\<rparr>))
         else ([], c3))"

text \<open>The line that joins the channel, if the network is connected, and the new state.\<close>

definition JoinUser :: "bool \<Rightarrow> string \<Rightarrow> chan \<Rightarrow> string option \<times> chan" where
  "JoinUser bConnected sKey c =
     (let c1 = (if \<not> m_bIsOn c \<and> sKey \<noteq> [] then SetKey sKey c else c)
      in (if bConnected then Some (''JOIN '' @ m_sName c1 @ '' '' @ m_sKey c1) else None, c1))"

definition Cycle :: "chan \<Rightarrow> string" where
  "Cycle c = ''PART '' @ m_sName c @ crlf @ ''JOIN '' @ m_sName c @ '' '' @ m_sKey c"

section \<open>Queries\<close>

record query =
  q_sName :: string
  q_Buffer :: buffer

definition mk_query :: "user \<Rightarrow> string \<Rightarrow> query" where
  "mk_query U sName =
     \<lparr>q_sName = sName,
      q_Buffer = snd (SetLineCount (u_MaxBufferSize U) (u_QueryBufferSize U) True (empty_buffer 100))\<rparr>"

text \<open>CClient::GetNick: the nick on the server, if allowed and connected, or the client's own.\<close>

definition Client_GetNick :: "ircsock option \<Rightarrow> bool \<Rightarrow> client \<Rightarrow> string" where
  "Client_GetNick so bAllowIRCNick cl =
     (let sRet = (case so of
            Some s \<Rightarrow> if bAllowIRCNick \<and> m_bAuthed s then m_sNick (sock_Nick s) else []
          | None \<Rightarrow> [])
      in if sRet = [] then cl_sNick cl else sRet)"

definition Query_play ::
    "play_hooks \<Rightarrow> ircsock option \<Rightarrow> query \<Rightarrow> nat \<times> client \<Rightarrow> client_out list" where
  "Query_play H so q ic =
     (let cl = snd ic; sBatchName = name_MD5 H (q_sName q); sNick = Client_GetNick so True cl;
          hide = (\<lambda>m. \<not> cl_HasEchoMessage cl \<and> \<not> cl_HasSelfMessage cl \<and> NickEquals (m_Nick m) sNick)
      in batch_line ic ('':znc.in BATCH +'' @ sBatchName @ '' znc.in/playback '' @ q_sName q) @
         concat (map (play_line H ic (om_insert ''target'' sNick []) hide None sBatchName)
                   (b_lines (q_Buffer q))) @
         batch_line ic ('':znc.in BATCH -'' @ sBatchName))"

definition Query_SendBuffer ::
    "play_hooks \<Rightarrow> ircsock option \<Rightarrow> client list \<Rightarrow> nat option \<Rightarrow> query \<Rightarrow> client_out list" where
  "Query_SendBuffer H so cs pClient q =
     (if cs \<noteq> [] \<and> b_lines (q_Buffer q) \<noteq> []
      then concat (map (Query_play H so q) (targets cs pClient)) else [])"

section \<open>The NAMES lines\<close>

text \<open>
  The lines carry all entries in order, in groups joined by blanks after the prefix; a group
  is only left open while the line is shorter than 490 bytes.
\<close>

definition names_grouping :: "string \<Rightarrow> string list \<Rightarrow> string list list \<Rightarrow> bool" where
  "names_grouping sPre es gs \<longleftrightarrow> concat gs = es \<and>
     (\<forall>g \<in> set gs. g \<noteq> [] \<and> (butlast g \<noteq> [] \<longrightarrow> length (sPre @ Join '' '' (butlast g)) < 490))"

lemma names_loop_groups:
  assumes "g0 \<noteq> [] \<longrightarrow> length (sPre @ Join '' '' g0) < 490" and "es \<noteq> []"
  shows "\<exists>g gs. names_loop sPre (sPre @ concat (map (\<lambda>e. e @ '' '') g0)) es =
      map (\<lambda>g. sPre @ Join '' '' g) ((g0 @ g) # gs) \<and> g \<noteq> [] \<and>
      names_grouping sPre (g0 @ es) ((g0 @ g) # gs)"
  using assms
proof (induction es arbitrary: g0)
  case (Cons e es)
  let ?line = "sPre @ concat (map (\<lambda>e. e @ '' '') g0)"
  have J: "?line @ e = sPre @ Join '' '' (g0 @ [e])" for e
  proof -
    have "concat (map (\<lambda>e. e @ '' '') g0) @ e = Join '' '' (g0 @ [e])"
      by (induction g0) (auto simp: Join_Cons)
    then show ?thesis by simp
  qed
  show ?case
  proof (cases "length (?line @ e) \<ge> 490 \<or> es = []")
    case True
    show ?thesis
    proof (cases "es = []")
      case True
      have "names_grouping sPre (g0 @ e # es) [g0 @ [e]]"
        using Cons.prems(1) True by (simp add: names_grouping_def)
      then show ?thesis using True J [of e]
        by (intro exI [of _ "[e]"] exI [of _ "[]"]) simp
    next
      case False
      from Cons.IH [of "[]"] False obtain g gs where
        "names_loop sPre sPre es = map (\<lambda>g. sPre @ Join '' '' g) (g # gs)"
        "names_grouping sPre es (g # gs)" by auto
      moreover have "names_loop sPre ?line (e # es) = (?line @ e) # names_loop sPre sPre es"
        using True by simp
      ultimately have "names_loop sPre ?line (e # es) =
          map (\<lambda>g. sPre @ Join '' '' g) ((g0 @ [e]) # g # gs)" unfolding J by simp
      moreover have "names_grouping sPre (g0 @ e # es) ((g0 @ [e]) # g # gs)"
        using \<open>names_grouping sPre es (g # gs)\<close> Cons.prems(1) by (simp add: names_grouping_def)
      ultimately show ?thesis by blast
    qed
  next
    case False
    then have "length (?line @ e) < 490" by simp
    then have "length (sPre @ Join '' '' (g0 @ [e])) < 490" unfolding J .
    with Cons.IH [of "g0 @ [e]"] False obtain g gs where
      "names_loop sPre (sPre @ concat (map (\<lambda>e. e @ '' '') (g0 @ [e]))) es =
         map (\<lambda>g. sPre @ Join '' '' g) ((g0 @ e # g) # gs)" "g \<noteq> []"
      "names_grouping sPre (g0 @ e # es) ((g0 @ e # g) # gs)" by auto
    then show ?thesis using False by (intro exI [of _ "e # g"] exI [of _ gs]) simp
  qed
qed simp

lemma names_loop_all:
  "\<exists>gs. names_loop sPre sPre es = map (\<lambda>g. sPre @ Join '' '' g) gs \<and> names_grouping sPre es gs"
proof (cases "es = []")
  case False
  then obtain g gs where "names_loop sPre sPre es = map (\<lambda>g. sPre @ Join '' '' g) (g # gs)"
    "names_grouping sPre es (g # gs)" using names_loop_groups [of "[]" sPre es] by auto
  then show ?thesis by blast
qed (auto simp: names_grouping_def)

end
