(* ===== verification/Send_Queue.thy ===== *)
theory Send_Queue imports Ircsock begin

text \<open>
  The flood protection of CIRCSock: what TrySend sends, and the contract of a rate limited
  queue (locale \<open>rate_limited_queue\<close>) with its consequences for every sequence of sends and
  timer ticks, interpreted on PutIRC and CIRCFloodTimer::RunJob.
\<close>

section \<open>One message\<close>

text \<open>What one message puts on the wire, after the tag filter and the two module hooks.\<close>

definition emit :: "env \<Rightarrow> ircsock \<Rightarrow> message \<Rightarrow> string list" where
  "emit E s m =
     (let (bSkip, m') = OnSendToIRCMessage E (filter_tags s m) in
      if bSkip then []
      else (let (bSkip', c) = OnSendToIRC E (ToString m') in if bSkip' then [] else [c @ crlf]))"

lemma filter_tags_cong:
  "m_bMessageTagCap s' = m_bMessageTagCap s \<Longrightarrow> m_ssSupportedTags s' = m_ssSupportedTags s \<Longrightarrow>
   filter_tags s' m = filter_tags s m"
  by (simp add: filter_tags_def IsTagEnabled_def)

lemma emit_cong:
  "m_bMessageTagCap s' = m_bMessageTagCap s \<Longrightarrow> m_ssSupportedTags s' = m_ssSupportedTags s \<Longrightarrow>
   emit E s' m = emit E s m"
  unfolding emit_def by (subst filter_tags_cong) simp_all

text \<open>The parts of the state that sending leaves alone.\<close>

definition rest_of :: "ircsock \<Rightarrow> ircsock" where
  "rest_of s = s \<lparr>m_vSendQueue := [], m_iSendsAllowed := 0, m_lastFloodWarned := 0, s_wire := [], s_out := []\<rparr>"

lemma rest_of_upd [simp]:
  "rest_of (s \<lparr>m_vSendQueue := q\<rparr>) = rest_of s" "rest_of (s \<lparr>m_iSendsAllowed := a\<rparr>) = rest_of s"
  "rest_of (s \<lparr>s_wire := w\<rparr>) = rest_of s" "rest_of (s \<lparr>s_out := out\<rparr>) = rest_of s"
  "rest_of (s \<lparr>m_lastFloodWarned := t\<rparr>) = rest_of s"
  by (simp_all add: rest_of_def)

lemma rest_of_flood_warn [simp]: "rest_of (flood_warn E s) = rest_of s"
  by (simp add: flood_warn_def rest_of_def)

lemma rest_of_PutIRCRaw [simp]: "rest_of (PutIRCRaw E l s) = rest_of s"
  by (simp add: PutIRCRaw_def split: prod.split)

lemma rest_of_send_front [simp]: "rest_of (send_front E s) = rest_of s"
  by (simp add: send_front_def Let_def split: prod.split)

lemma rest_of_TrySend [simp]: "rest_of (TrySend E s) = rest_of s"
proof (induction E s rule: TrySend.induct)
  case (1 E s)
  then show ?case by (subst TrySend.simps) simp
qed

lemma rest_of_PutIRC [simp]:
  "rest_of (PutIRC_msg E m s) = rest_of s" "rest_of (PutIRC E l s) = rest_of s"
  "rest_of (PutIRCQuick E l s) = rest_of s"
  by (simp_all add: PutIRC_msg_def PutIRC_def PutIRCQuick_def)

text \<open>Every other field can be read from \<open>rest_of\<close>.\<close>

lemma rest_of_fields:
  assumes "rest_of s' = rest_of s"
  shows "m_bAuthed s' = m_bAuthed s" "m_bNamesx s' = m_bNamesx s" "m_bUHNames s' = m_bUHNames s"
    "m_bServerTime s' = m_bServerTime s" "m_bMessageTagCap s' = m_bMessageTagCap s"
    "m_sPerms s' = m_sPerms s" "m_sPermModes s' = m_sPermModes s"
    "m_scUserModes s' = m_scUserModes s" "m_mceChanModes s' = m_mceChanModes s"
    "sock_Nick s' = sock_Nick s" "m_sPass s' = m_sPass s" "m_uMaxNickLen s' = m_uMaxNickLen s"
    "m_uCapPaused s' = m_uCapPaused s" "m_ssAcceptedCaps s' = m_ssAcceptedCaps s"
    "m_ssPendingCaps s' = m_ssPendingCaps s" "m_ssPendingCapsPhase2 s' = m_ssPendingCapsPhase2 s"
    "m_msCapLsValues s' = m_msCapLsValues s" "m_lastCTCP s' = m_lastCTCP s"
    "m_uNumCTCP s' = m_uNumCTCP s" "m_mISupport s' = m_mISupport s"
    "m_uFloodBurst s' = m_uFloodBurst s" "m_bFloodProtection s' = m_bFloodProtection s"
    "m_ssSupportedTags s' = m_ssSupportedTags s" "s_close s' = s_close s"
  using assms by (cases s; cases s'; simp add: rest_of_def)+

lemmas PutIRC_fields [simp] = rest_of_fields [OF rest_of_PutIRC(2)]
lemmas PutIRC_msg_fields [simp] = rest_of_fields [OF rest_of_PutIRC(1)]
lemmas PutIRCQuick_fields [simp] = rest_of_fields [OF rest_of_PutIRC(3)]
lemmas TrySend_fields [simp] = rest_of_fields [OF rest_of_TrySend]
lemmas send_front_fields [simp] = rest_of_fields [OF rest_of_send_front]

lemma flood_warn_simps [simp]:
  "s_wire (flood_warn E s) = s_wire s" "m_iSendsAllowed (flood_warn E s) = m_iSendsAllowed s"
  by (simp_all add: flood_warn_def)

lemma PutIRCRaw_simps:
  "s_wire (PutIRCRaw E l s) =
     s_wire s @ (let (bSkip, c) = OnSendToIRC E l in if bSkip then [] else [c @ crlf])"
  "m_iSendsAllowed (PutIRCRaw E l s) = m_iSendsAllowed s"
  by (simp_all add: PutIRCRaw_def split: prod.split)

lemma wire_send_front: "s_wire (send_front E s) = s_wire s @ emit E s (hd (m_vSendQueue s))"
proof -
  let ?s = "s \<lparr>m_iSendsAllowed := to_signed 16 (m_iSendsAllowed s - 1)\<rparr>"
  have "filter_tags ?s m = filter_tags s m" for m by (rule filter_tags_cong) simp_all
  then show ?thesis
    by (simp add: send_front_def emit_def Let_def PutIRCRaw_simps split: prod.split)
qed

lemma allowed_send_front: "m_iSendsAllowed (send_front E s) = to_signed 16 (m_iSendsAllowed s - 1)"
  by (simp add: send_front_def Let_def PutIRCRaw_simps split: prod.split)

section \<open>What TrySend sends\<close>

lemma to_signed_16: "- 32768 \<le> i \<Longrightarrow> i \<le> 32767 \<Longrightarrow> to_signed 16 i = i"
  by (simp add: to_signed_def)

definition short_ok :: "int \<Rightarrow> bool" where
  "short_ok i \<longleftrightarrow> - 32768 \<le> i \<and> i \<le> 32767"

lemma short_ok_to_signed [simp]: "short_ok (to_signed 16 i)"
  using pos_mod_bound [of 65536 "i + 32768"] pos_mod_sign [of 65536 "i + 32768"]
  by (simp add: short_ok_def to_signed_def)

text \<open>The number of messages the next TrySend takes from the queue.\<close>

definition sendable :: "ircsock \<Rightarrow> nat" where
  "sendable s = (if m_bFloodProtection s then min (length (m_vSendQueue s)) (nat (m_iSendsAllowed s))
                 else length (m_vSendQueue s))"

lemma sendable_0: "\<not> (m_vSendQueue s \<noteq> [] \<and> may_send s) \<Longrightarrow> sendable s = 0"
  by (auto simp: sendable_def may_send_def)

lemma sendable_send_front:
  assumes "m_vSendQueue s \<noteq> []" "may_send s" "short_ok (m_iSendsAllowed s)"
  shows "sendable s = Suc (sendable (send_front E s))"
proof (cases "m_bFloodProtection s")
  case True
  then have "m_iSendsAllowed (send_front E s) = m_iSendsAllowed s - 1"
    using assms by (simp add: allowed_send_front may_send_def short_ok_def to_signed_16)
  with True assms show ?thesis
    by (cases "m_vSendQueue s") (auto simp: sendable_def may_send_def nat_diff_distrib)
next
  case False
  then show ?thesis using assms by (cases "m_vSendQueue s") (auto simp: sendable_def)
qed

lemma TrySend_queue:
  assumes "short_ok (m_iSendsAllowed s)"
  shows "m_vSendQueue (TrySend E s) = drop (sendable s) (m_vSendQueue s)"
    and "s_wire (TrySend E s) = s_wire s @ concat (map (emit E s) (take (sendable s) (m_vSendQueue s)))"
    and "m_bFloodProtection s \<Longrightarrow> m_iSendsAllowed (TrySend E s) = m_iSendsAllowed s - int (sendable s)"
    and "short_ok (m_iSendsAllowed (TrySend E s))"
  using assms
proof (induction E s rule: TrySend.induct)
  case (1 E s)
  {
    case 1
    then show ?case
      using "1.IH"(1) sendable_send_front [of s E] sendable_0 [of s]
      by (subst TrySend.simps) (auto simp: allowed_send_front drop_Suc)
  next
    case 2
    have "emit E (send_front E s) = emit E s" by (rule ext, rule emit_cong) simp_all
    then show ?case
      using 2 "1.IH"(2) sendable_send_front [of s E] sendable_0 [of s]
      by (subst TrySend.simps) (auto simp: allowed_send_front wire_send_front take_Suc)
  next
    case 3
    then show ?case
      using "1.IH"(3) sendable_send_front [of s E] sendable_0 [of s]
      by (subst TrySend.simps)
        (auto simp: allowed_send_front may_send_def short_ok_def to_signed_16)
  next
    case 4
    then show ?case
      using "1.IH"(4) by (subst TrySend.simps) (auto simp: allowed_send_front)
  }
qed

section \<open>The contract of a rate limited queue\<close>

text \<open>
  Messages are put at the end, a timer gives a permit, at most \<open>burst\<close> of them are kept;
  what has been sent and what waits is always what was put, in order.
\<close>

datatype 'm queue_event = Put 'm | Tick

fun puts :: "'m queue_event list \<Rightarrow> 'm list" where
  "puts [] = []"
| "puts (Put m # es) = m # puts es"
| "puts (Tick # es) = puts es"

fun ticks :: "'m queue_event list \<Rightarrow> nat" where
  "ticks [] = 0"
| "ticks (Put m # es) = ticks es"
| "ticks (Tick # es) = Suc (ticks es)"

primrec react :: "('m \<Rightarrow> 's \<Rightarrow> 's) \<Rightarrow> ('s \<Rightarrow> 's) \<Rightarrow> 'm queue_event \<Rightarrow> 's \<Rightarrow> 's" where
  "react put tick (Put m) s = put m s"
| "react put tick Tick s = tick s"

lemma puts_append [simp]: "puts (es @ fs) = puts es @ puts fs"
  by (induction es rule: puts.induct) simp_all

lemma puts_ticks [simp]: "puts (replicate n Tick) = []"
  by (induction n) simp_all

locale rate_limited_queue =
  fixes inv :: "'s \<Rightarrow> bool"
    and put :: "'m \<Rightarrow> 's \<Rightarrow> 's"
    and tick :: "'s \<Rightarrow> 's"
    and sent :: "'s \<Rightarrow> 'm list"
    and waiting :: "'s \<Rightarrow> 'm list"
    and permits :: "'s \<Rightarrow> nat"
    and burst :: nat
  assumes inv_put: "inv s \<Longrightarrow> inv (put m s)"
    and inv_tick: "inv s \<Longrightarrow> inv (tick s)"
    and put_flow: "inv s \<Longrightarrow> sent (put m s) @ waiting (put m s) = sent s @ waiting s @ [m]"
    and tick_flow: "inv s \<Longrightarrow> sent (tick s) @ waiting (tick s) = sent s @ waiting s"
    and put_pays: "inv s \<Longrightarrow> length (sent (put m s)) + permits (put m s) = length (sent s) + permits s"
    and tick_pays: "inv s \<Longrightarrow> length (sent (tick s)) + permits (tick s) \<le> Suc (length (sent s) + permits s)"
    and tick_grows: "inv s \<Longrightarrow> length (sent s) \<le> length (sent (tick s))"
    and tick_works: "inv s \<Longrightarrow> waiting s \<noteq> [] \<Longrightarrow> length (waiting (tick s)) < length (waiting s)"
    and at_most: "inv s \<Longrightarrow> permits s \<le> burst"
    and busy: "inv s \<Longrightarrow> waiting s \<noteq> [] \<Longrightarrow> permits s = 0"
begin

lemma inv_run: "inv s \<Longrightarrow> inv (fold (react put tick) es s)"
proof (induction es arbitrary: s)
  case (Cons e es)
  then show ?case by (cases e) (auto simp: inv_put inv_tick)
qed simp

lemma fifo: "inv s \<Longrightarrow>
    sent (fold (react put tick) es s) @ waiting (fold (react put tick) es s) = sent s @ waiting s @ puts es"
proof (induction es arbitrary: s)
  case (Cons e es)
  then show ?case by (cases e) (simp_all add: inv_put inv_tick put_flow tick_flow flip: append_assoc)
qed simp

lemma rate: "inv s \<Longrightarrow>
    length (sent (fold (react put tick) es s)) + permits (fold (react put tick) es s) \<le> length (sent s) + permits s + ticks es"
proof (induction es arbitrary: s)
  case (Cons e es)
  show ?case
  proof (cases e)
    case (Put m)
    with Cons.IH [of "put m s"] Cons.prems put_pays [of s m] show ?thesis by (simp add: inv_put)
  next
    case Tick
    with Cons.IH [of "tick s"] Cons.prems tick_pays [of s] show ?thesis by (simp add: inv_tick)
  qed
qed simp

lemma rate_bound: "inv s \<Longrightarrow> length (sent (fold (react put tick) es s)) \<le> length (sent s) + burst + ticks es"
  using rate [of s es] at_most [of s] by simp

lemma all_sent: "inv s \<Longrightarrow> length (waiting s) \<le> n \<Longrightarrow> waiting (fold (react put tick) (replicate n Tick) s) = []"
proof (induction n arbitrary: s)
  case (Suc n)
  have "length (waiting (tick s)) \<le> n"
  proof (cases "waiting s = []")
    case True
    have "length (sent (tick s)) + length (waiting (tick s)) = length (sent s) + length (waiting s)"
      using arg_cong [OF tick_flow [OF Suc.prems(1)], of length] by simp
    then show ?thesis using True tick_grows [OF Suc.prems(1)] by simp
  next
    case False
    then show ?thesis using tick_works [OF Suc.prems(1)] Suc.prems(2) by simp
  qed
  then show ?case using Suc by (simp add: inv_tick)
qed simp

end

section \<open>The socket is such a queue\<close>

text \<open>The socket with the messages it has sent so far.\<close>

definition put_h :: "env \<Rightarrow> message \<Rightarrow> ircsock \<times> message list \<Rightarrow> ircsock \<times> message list" where
  "put_h E m st =
     (let s = fst st; s1 = s \<lparr>m_vSendQueue := m_vSendQueue s @ [m]\<rparr>
      in (PutIRC_msg E m s, snd st @ take (sendable s1) (m_vSendQueue s1)))"

definition tick_h :: "env \<Rightarrow> ircsock \<times> message list \<Rightarrow> ircsock \<times> message list" where
  "tick_h E st =
     (let s = fst st;
          s1 = (if m_iSendsAllowed s < int (m_uFloodBurst s)
                then s \<lparr>m_iSendsAllowed := to_signed 16 (m_iSendsAllowed s + 1)\<rparr> else s)
      in (FloodTimer_RunJob E s, snd st @ take (sendable s1) (m_vSendQueue s1)))"

definition flood_inv :: "env \<Rightarrow> nat \<Rightarrow> ircsock \<times> message list \<Rightarrow> bool" where
  "flood_inv E b st \<longleftrightarrow>
     (let s = fst st in
      m_bFloodProtection s \<and> m_uFloodBurst s = b \<and> 0 < b \<and> b \<le> 32767 \<and>
      0 \<le> m_iSendsAllowed s \<and> m_iSendsAllowed s \<le> int b \<and>
      (m_vSendQueue s \<noteq> [] \<longrightarrow> m_iSendsAllowed s = 0) \<and>
      s_wire s = concat (map (emit E s) (snd st)))"

lemma emit_TrySend [simp]: "emit E (TrySend E s) = emit E s"
  by (rule ext, rule emit_cong) simp_all

lemma emit_upd [simp]:
  "emit E (s \<lparr>m_vSendQueue := q\<rparr>) = emit E s" "emit E (s \<lparr>m_iSendsAllowed := i\<rparr>) = emit E s"
  by (rule ext, rule emit_cong; simp)+

text \<open>TrySend re-establishes the invariant from any state with a small enough number of permits.\<close>

lemma flood_inv_TrySend:
  assumes "m_bFloodProtection s" "m_uFloodBurst s = b" "0 < b" "b \<le> 32767"
    and "0 \<le> m_iSendsAllowed s" "m_iSendsAllowed s \<le> int b"
    and "s_wire s = concat (map (emit E s) h)"
  shows "flood_inv E b (TrySend E s, h @ take (sendable s) (m_vSendQueue s))"
proof -
  have "short_ok (m_iSendsAllowed s)" using assms by (simp add: short_ok_def)
  note T = TrySend_queue [OF this]
  have "sendable s = min (length (m_vSendQueue s)) (nat (m_iSendsAllowed s))"
    using assms(1) by (simp add: sendable_def)
  then show ?thesis using assms T by (auto simp: flood_inv_def Let_def)
qed

lemma flow_TrySend:
  assumes "short_ok (m_iSendsAllowed s)"
  shows "take (sendable s) (m_vSendQueue s) @ m_vSendQueue (TrySend E s) = m_vSendQueue s"
  by (simp add: TrySend_queue [OF assms])

lemma flood_inv_short: "flood_inv E b st \<Longrightarrow> short_ok (m_iSendsAllowed (fst st))"
  by (auto simp: flood_inv_def Let_def short_ok_def)

lemma permits_TrySend:
  assumes "m_bFloodProtection s" "0 \<le> m_iSendsAllowed s" "m_iSendsAllowed s \<le> 32767"
  shows "length (take (sendable s) (m_vSendQueue s)) + nat (m_iSendsAllowed (TrySend E s)) =
    nat (m_iSendsAllowed s)"
proof -
  have "short_ok (m_iSendsAllowed s)" using assms by (simp add: short_ok_def)
  from TrySend_queue(3) [OF this assms(1), of E] assms show ?thesis
    by (auto simp: sendable_def nat_diff_distrib' min_def)
qed

interpretation flood: rate_limited_queue "flood_inv E b" "put_h E" "tick_h E" snd
    "\<lambda>st. m_vSendQueue (fst st)" "\<lambda>st. nat (m_iSendsAllowed (fst st))" b for E b
proof (unfold_locales, goal_cases)
  case (1 s m)
  show ?case
    unfolding put_h_def PutIRC_msg_def Let_def
    by (rule flood_inv_TrySend) (use 1 in \<open>simp_all add: flood_inv_def Let_def\<close>)
next
  case (2 s)
  show ?case
    unfolding tick_h_def FloodTimer_RunJob_def Let_def
    by (rule flood_inv_TrySend) (use 2 in \<open>auto simp: flood_inv_def Let_def to_signed_16\<close>)
next
  case (3 s m)
  then show ?case
    using flow_TrySend [of "(fst s) \<lparr>m_vSendQueue := m_vSendQueue (fst s) @ [m]\<rparr>"] flood_inv_short
    by (simp add: put_h_def PutIRC_msg_def Let_def)
next
  case (4 s)
  then show ?case
    using flow_TrySend flood_inv_short by (simp add: tick_h_def FloodTimer_RunJob_def Let_def)
next
  case (5 s m)
  then show ?case
    using permits_TrySend [of "(fst s) \<lparr>m_vSendQueue := m_vSendQueue (fst s) @ [m]\<rparr>" E]
    by (simp add: put_h_def PutIRC_msg_def Let_def flood_inv_def)
next
  case (6 s)
  then show ?case
    using permits_TrySend [of "fst s" E]
      permits_TrySend [of "(fst s) \<lparr>m_iSendsAllowed := m_iSendsAllowed (fst s) + 1\<rparr>" E]
    by (auto simp: tick_h_def FloodTimer_RunJob_def Let_def flood_inv_def to_signed_16 nat_add_distrib)
next
  case (7 s)
  then show ?case by (simp add: tick_h_def Let_def)
next
  case (8 s)
  then show ?case
    using TrySend_queue(1) [of "(fst s) \<lparr>m_iSendsAllowed := 1\<rparr>" E]
    by (auto simp: tick_h_def FloodTimer_RunJob_def Let_def flood_inv_def to_signed_16 short_ok_def
        sendable_def)
qed (auto simp: flood_inv_def Let_def)

text \<open>The history is only an observer.\<close>

lemma fst_put_tick [simp]:
  "fst (put_h E m st) = PutIRC_msg E m (fst st)" "fst (tick_h E st) = FloodTimer_RunJob E (fst st)"
  by (simp_all add: put_h_def tick_h_def Let_def)

abbreviation flood_run :: "env \<Rightarrow> message queue_event list \<Rightarrow> ircsock \<Rightarrow> ircsock" where
  "flood_run E \<equiv> fold (react (PutIRC_msg E) (FloodTimer_RunJob E))"

lemma fst_run: "fst (fold (react (put_h E) (tick_h E)) es st) = flood_run E es (fst st)"
proof (induction es arbitrary: st)
  case (Cons e es)
  then show ?case by (cases e) simp_all
qed simp

lemma flood_inv_fresh: "0 < b \<Longrightarrow> b \<le> 32767 \<Longrightarrow> flood_inv E b (mk_ircsock b True i h, [])"
  by (simp add: flood_inv_def mk_ircsock_def to_signed_16)

lemma flood_run_fresh:
  assumes "0 < b" "b \<le> 32767" and s_def: "s = flood_run E es (mk_ircsock b True i h)"
  shows "\<exists>n \<le> b + ticks es. m_vSendQueue s = drop n (puts es) \<and>
    s_wire s = concat (map (emit E s) (take n (puts es))) \<and>
    (m_vSendQueue s \<noteq> [] \<longrightarrow> m_iSendsAllowed s = 0)"
proof -
  let ?st = "fold (react (put_h E) (tick_h E)) es (mk_ircsock b True i h, [])"
  note inv0 = flood_inv_fresh [OF assms(1,2), of E i h]
  have s: "fst ?st = s" by (simp add: fst_run s_def)
  have q0: "m_vSendQueue (mk_ircsock b True i h) = []" by (simp add: mk_ircsock_def)
  have a0: "nat (m_iSendsAllowed (mk_ircsock b True i h)) = b"
    using assms(2) by (simp add: mk_ircsock_def to_signed_16)
  have fifo: "snd ?st @ m_vSendQueue s = puts es"
    using flood.fifo [OF inv0, of es] by (simp add: s q0)
  have "length (snd ?st) \<le> b + ticks es"
    using flood.rate [OF inv0, of es] by (simp add: a0)
  moreover have "flood_inv E b ?st" by (rule flood.inv_run [OF inv0])
  ultimately show ?thesis
    using s fifo by (intro exI [of _ "length (snd ?st)"])
      (auto simp: flood_inv_def Let_def simp flip: fifo)
qed

lemma flood_run_drains:
  assumes "0 < b" "b \<le> 32767" and "length (puts es) \<le> n"
  shows "m_vSendQueue (flood_run E (es @ replicate n Tick) (mk_ircsock b True i h)) = []"
proof -
  let ?run = "\<lambda>es. fold (react (put_h E) (tick_h E)) es (mk_ircsock b True i h, [])"
  note inv0 = flood_inv_fresh [OF assms(1,2), of E i h]
  have "length (snd (?run es)) + length (m_vSendQueue (fst (?run es))) = length (puts es)"
    using arg_cong [OF flood.fifo [OF inv0, of es], of length] by (simp add: mk_ircsock_def)
  then have "m_vSendQueue (fst (fold (react (put_h E) (tick_h E)) (replicate n Tick) (?run es))) = []"
    using assms(3) by (intro flood.all_sent [OF flood.inv_run [OF inv0, of es]]) linarith
  then show ?thesis unfolding fold_append o_apply fst_run by (simp add: fst_run del: fold_replicate)
qed

text \<open>A burst beyond the range of a short is negative: nothing is sent until the timer has made up.\<close>

lemma flood_run_stall:
  assumes "32768 \<le> b" "b \<le> 65535" and "ticks es \<le> 65536 - b"
    and "m_bFloodProtection s" "m_uFloodBurst s = b" "m_iSendsAllowed s = int k - 65536"
    and "b \<le> k" "k + ticks es \<le> 65536"
  shows "s_wire (flood_run E es s) = s_wire s"
  using assms
proof (induction es arbitrary: s k)
  case (Cons e es)
  have stuck: "TrySend E t = t" if "m_bFloodProtection t" "m_iSendsAllowed t \<le> 0" for t
    using that by (subst TrySend.simps) (simp add: may_send_def)
  show ?case
  proof (cases e)
    case (Put m)
    have "PutIRC_msg E m s = s \<lparr>m_vSendQueue := m_vSendQueue s @ [m]\<rparr>"
      using Cons.prems unfolding PutIRC_msg_def Put by (intro stuck) simp_all
    with Cons.IH [of "PutIRC_msg E m s" k] Cons.prems show ?thesis by (simp add: Put)
  next
    case Tick
    have up: "to_signed 16 (m_iSendsAllowed s + 1) = int (Suc k) - 65536"
      using Cons.prems by (simp add: Tick to_signed_16)
    have "FloodTimer_RunJob E s = s \<lparr>m_iSendsAllowed := int (Suc k) - 65536\<rparr>"
      using Cons.prems unfolding FloodTimer_RunJob_def up Tick
      by (simp add: stuck)
    with Cons.IH [of "FloodTimer_RunJob E s" "Suc k"] Cons.prems show ?thesis by (simp add: Tick)
  qed
qed simp

end
