(* ===== verification/Server_Tables.thy ===== *)
theory Server_Tables imports Send_Queue begin

text \<open>
  Facts on what the socket learns from the server: the permission tables and the mode types
  of the 005 numeric, and the nicks it tries when one is refused.
\<close>

section \<open>The permission tables\<close>

definition tables_ok :: "ircsock \<Rightarrow> bool" where
  "tables_ok s \<longleftrightarrow> length (m_sPerms s) = length (m_sPermModes s) \<and> m_sPerms s \<noteq> []"

lemma tables_ok_mk [simp]: "tables_ok (mk_ircsock b p i h)"
  by (simp add: tables_ok_def mk_ircsock_def)

lemma tables_ok_upd [simp]:
  "tables_ok (s \<lparr>m_mISupport := x\<rparr>) = tables_ok s" "tables_ok (s \<lparr>m_uMaxNickLen := k\<rparr>) = tables_ok s"
  "tables_ok (s \<lparr>m_mceChanModes := y\<rparr>) = tables_ok s" "tables_ok (s \<lparr>m_bNamesx := b\<rparr>) = tables_ok s"
  "tables_ok (s \<lparr>m_bUHNames := b\<rparr>) = tables_ok s" "tables_ok (PutIRC E l s) = tables_ok s"
  by (simp_all add: tables_ok_def)

lemma tables_ok_parse_prefix [simp]: "tables_ok s \<Longrightarrow> tables_ok (parse_prefix v s)"
  by (simp add: parse_prefix_def tables_ok_def Let_def)

lemma tables_ok_isupport_param:
  assumes "tables_ok (fst st)"
  shows "tables_ok (fst (isupport_param E n v st))"
proof -
  obtain s0 p where st: "st = (s0, p)" by (cases st)
  show ?thesis using assms unfolding isupport_param_def Let_def st prod.case
    by (cases "equals_ci n ''PREFIX''"; cases "equals_ci n ''CHANTYPES''";
        cases "equals_ci n ''NICKLEN''"; cases "equals_ci n ''CHANMODES''";
        cases "equals_ci n ''NAMESX''"; cases "equals_ci n ''UHNAMES''"; simp)
qed

lemma tables_ok_isupport_loop:
  "tables_ok (fst st) \<Longrightarrow> tables_ok (fst (isupport_loop E ps st))"
  by (induction E ps st rule: isupport_loop.induct) (simp_all add: Let_def tables_ok_isupport_param)

lemma tables_ok_ParseISupport: "tables_ok (fst st) \<Longrightarrow> tables_ok (fst (ParseISupport E m st))"
  by (simp add: ParseISupport_def tables_ok_isupport_loop)

text \<open>Tables without repetitions are inverse to each other.\<close>

definition tables_distinct :: "ircsock \<Rightarrow> bool" where
  "tables_distinct s \<longleftrightarrow> tables_ok s \<and> distinct (m_sPerms s) \<and> distinct (m_sPermModes s) \<and>
     nul_free (m_sPerms s) \<and> nul_free (m_sPermModes s)"

lemma find_char_nth: "find_char c s = Some i \<Longrightarrow> i < length s \<and> s ! i = c"
  by (induction s arbitrary: i) (auto split: if_splits)

lemma find_char_distinct: "distinct s \<Longrightarrow> i < length s \<Longrightarrow> find_char (s ! i) s = Some i"
  by (induction s arbitrary: i) (auto simp: less_Suc_eq_0_disj)

lemma find_char_present: "c \<in> set s \<Longrightarrow> \<exists>i. find_char c s = Some i"
  using find_char_None [of c s] by (cases "find_char c s") auto

lemma perm_mode_inverse:
  assumes "tables_distinct s" and "IsPermMode s c"
  shows "IsPermChar s (GetPermFromMode s c)" "GetModeFromPerm s (GetPermFromMode s c) = c"
proof -
  obtain i where i: "find_char c (m_sPermModes s) = Some i"
    using assms(2) find_char_present by (auto simp: IsPermMode_def)
  note n = find_char_nth [OF i]
  have len: "length (m_sPermModes s) = length (m_sPerms s)"
    using assms(1) by (simp add: tables_distinct_def tables_ok_def)
  have p: "GetPermFromMode s c = m_sPerms s ! i" by (simp add: GetPermFromMode_def len i)
  then show "IsPermChar s (GetPermFromMode s c)"
    using assms(1) n len by (metis IsPermChar_def nth_mem nul_free_def tables_distinct_def)
  show "GetModeFromPerm s (GetPermFromMode s c) = c"
    using find_char_distinct [of "m_sPerms s" i] assms(1) n len
    by (simp add: p GetModeFromPerm_def tables_distinct_def)
qed

lemma mode_perm_inverse:
  assumes "tables_distinct s" and "IsPermChar s c"
  shows "IsPermMode s (GetModeFromPerm s c)" "GetPermFromMode s (GetModeFromPerm s c) = c"
proof -
  obtain i where i: "find_char c (m_sPerms s) = Some i"
    using assms(2) find_char_present by (auto simp: IsPermChar_def)
  note n = find_char_nth [OF i]
  have len: "length (m_sPermModes s) = length (m_sPerms s)"
    using assms(1) by (simp add: tables_distinct_def tables_ok_def)
  have p: "GetModeFromPerm s c = m_sPermModes s ! i" by (simp add: GetModeFromPerm_def len i)
  then show "IsPermMode s (GetModeFromPerm s c)"
    using assms(1) n len by (metis IsPermMode_def nth_mem nul_free_def tables_distinct_def)
  show "GetPermFromMode s (GetModeFromPerm s c) = c"
    using find_char_distinct [of "m_sPermModes s" i] assms(1) n len
    by (simp add: p GetPermFromMode_def tables_distinct_def)
qed

section \<open>CHANMODES\<close>

lemma map_of_fold_om_insert:
  "map_of (fold (\<lambda>c. om_insert c t) cs m) c = (if c \<in> set cs then Some t else map_of m c)"
  by (induction cs arbitrary: m) auto

lemma upt_4: "[0..<4] = [0, 1, 2, 3::nat]"
  by (simp add: upt_rec)

lemma parse_chanmodes_lookup:
  "map_of (parse_chanmodes v) c =
     (let g = nth_or_empty (nonempty_fields (CHR '','') v) in
      if c \<in> set (g 3) then Some NoArg else if c \<in> set (g 2) then Some ArgWhenSet
      else if c \<in> set (g 1) then Some HasArg else if c \<in> set (g 0) then Some ListArg else None)"
  by (simp add: parse_chanmodes_def upt_4 map_of_fold_om_insert Token_nth_field nth_chanmode_args_def Let_def)

lemma nonempty_fields_Join:
  "gs \<noteq> [] \<Longrightarrow> \<forall>g \<in> set gs. d \<notin> set g \<Longrightarrow> nonempty_fields d (Join [d] gs) = filter (\<lambda>g. g \<noteq> []) gs"
  by (simp add: nonempty_fields_def fields_Join)

section \<open>Alternative nicks\<close>

text \<open>The nick that is tried after n refusals, the server echoing the whole nick.\<close>

fun alt_run :: "string \<Rightarrow> string \<Rightarrow> nat \<Rightarrow> nat \<Rightarrow> string \<Rightarrow> string option" where
  "alt_run sConfNick sAltNick uMax 0 sNick = Some sNick"
| "alt_run sConfNick sAltNick uMax (Suc n) sNick =
     (case alt_nick sConfNick sAltNick uMax sNick sNick of
        None \<Rightarrow> None | Some sNext \<Rightarrow> alt_run sConfNick sAltNick uMax n sNext)"

lemma alt_nick_short:
  assumes "0 < uMax" "uMax \<le> 2 ^ 32"
  shows "alt_nick sConf sAlt uMax sLast sBad = alt_nick_from (take (uMax - 1) sConf) sConf sAlt sLast sBad"
proof -
  have "uMax + (2 ^ 32 - 1) = (uMax - 1) + 2 ^ 32" using assms by simp
  then have "(uMax + (2 ^ 32 - 1)) mod 2 ^ 32 = (uMax - 1) mod 2 ^ 32" by (metis mod_add_self2)
  also have "\<dots> = uMax - 1" using assms by simp
  finally show ?thesis by (auto simp: alt_nick_def Left_def Let_def)
qed

lemma equals_ci_snoc:
  "nul_free s \<Longrightarrow> c \<noteq> NUL \<Longrightarrow> d \<noteq> NUL \<Longrightarrow>
   equals_ci (s @ [c]) (s @ [d]) \<longleftrightarrow> tolower_c c = tolower_c d"
  by (simp add: equals_ci_iff)

lemma equals_ci_length: "nul_free s \<Longrightarrow> nul_free t \<Longrightarrow> equals_ci s t \<Longrightarrow> length s = length t"
  by (auto simp: equals_ci_iff AsLower_def dest: map_eq_imp_length_eq)

text \<open>
  A configured nick shorter than the limit: after the alternative nick, minus and bar, the
  last letter climbs to z, where the socket gives up. It needs that the alternative nick is
  not the configured one followed by a caret or by z.
\<close>

definition alt_ok :: "string \<Rightarrow> string \<Rightarrow> bool" where
  "alt_ok sConf sAlt \<longleftrightarrow> nul_free sConf \<and> nul_free sAlt \<and>
     \<not> equals_ci sAlt (sConf @ ''^'') \<and> \<not> equals_ci sAlt (sConf @ ''z'')"

lemma not_equals_snoc: "nul_free s \<Longrightarrow> c \<noteq> NUL \<Longrightarrow> \<not> equals_ci (s @ [c]) s"
  using equals_ci_length [of "s @ [c]" s] by auto

lemma byte_next_letter: "byte c < 255 \<Longrightarrow> byte (next_letter c) = Suc (byte c)"
  by (simp add: next_letter_def)

lemma tolower_next_letter: "byte c < 255 \<Longrightarrow> tolower_c (next_letter c) \<noteq> tolower_c c"
proof -
  assume c: "byte c < 255"
  have "byte (tolower_c (next_letter c)) \<noteq> byte (tolower_c c)"
    using c by (simp add: byte_tolower byte_next_letter isupper_c_def del: byte_inject)
  then show ?thesis by auto
qed

lemma byte_special [simp]:
  "byte (CHR ''-'') = 45" "byte (CHR ''.'') = 46" "byte (CHR ''|'') = 124"
  "byte (CHR ''^'') = 94" "byte (CHR ''a'') = 97" "byte (CHR ''z'') = 122"
  by (simp_all add: byte_def)

lemma tolower_below: "byte c \<le> 122 \<Longrightarrow> 45 < byte c \<Longrightarrow>
    tolower_c c \<noteq> CHR ''-'' \<and> tolower_c c \<noteq> CHR ''|'' \<and> (tolower_c c = CHR ''^'' \<longleftrightarrow> c = CHR ''^'')"
proof -
  assume c: "byte c \<le> 122" "45 < byte c"
  then have "byte (tolower_c c) \<noteq> 45" "byte (tolower_c c) \<noteq> 124"
    "byte (tolower_c c) = 94 \<longleftrightarrow> byte c = byte (CHR ''^'')"
    by (simp_all add: byte_tolower isupper_c_def del: byte_inject)
  then show ?thesis by (metis byte_special(1,3,4) byte_inject)
qed

lemma tolower_suffix [simp]:
  "tolower_c (CHR ''-'') = CHR ''-''" "tolower_c (CHR ''|'') = CHR ''|''"
  "tolower_c (CHR ''^'') = CHR ''^''"
  by (simp_all add: tolower_nonalpha isupper_c_def)

lemma climb_step:
  assumes ok: "alt_ok N A" and x: "46 \<le> byte x" "byte x \<le> 122" "\<not> equals_ci (N @ [x]) A"
  shows "alt_nick_from N N A (N @ [x]) (N @ [x]) = None \<or>
    (\<exists>y. alt_nick_from N N A (N @ [x]) (N @ [x]) = Some (N @ [y]) \<and>
       byte x < byte y \<and> byte y \<le> 122 \<and> \<not> equals_ci (N @ [y]) A)"
proof -
  have N: "nul_free N" and x0: "x \<noteq> NUL" using ok x by (auto simp: alt_ok_def)
  note low = tolower_below [of x]
  have ne: "\<not> equals_ci (N @ [x]) N" "\<not> equals_ci (N @ [x]) (N @ ''-'')" "\<not> equals_ci (N @ [x]) (N @ ''|'')"
    and hat: "equals_ci (N @ [x]) (N @ ''^'') \<longleftrightarrow> x = CHR ''^''"
    using low x N x0 by (simp_all add: not_equals_snoc equals_ci_snoc)
  show ?thesis
  proof (cases "x = CHR ''z'' \<or> x = CHR ''^'' \<and> \<not> equals_ci A (N @ ''a'')")
    case True
    then show ?thesis using ne x(3) hat by (auto simp: alt_nick_from_def Let_def equals_ci_sym)
  next
    case False
    let ?y = "next_letter x" and ?z = "next_letter (next_letter x)"
    have "byte x < 122" using False x(2) by (metis byte_inject byte_special(6) le_neq_implies_less)
    then have y: "byte ?y = Suc (byte x)" "byte ?y \<le> 122" by (simp_all add: byte_next_letter)
    have step: "alt_nick_from N N A (N @ [x]) (N @ [x]) =
        Some (N @ [if equals_ci (N @ [?y]) A then ?z else ?y])"
      using False ne x(3) hat by (auto simp: alt_nick_from_def Let_def)
    show ?thesis
    proof (cases "equals_ci (N @ [?y]) A")
      case True
      then have "?y \<noteq> CHR ''z''" using ok by (auto simp: alt_ok_def equals_ci_sym)
      then have "byte ?y < 122" using y(2) by (metis byte_inject byte_special(6) le_neq_implies_less)
      then have z: "byte ?z = Suc (byte ?y)" "byte ?z \<le> 122" by (simp_all add: byte_next_letter)
      have "?y \<noteq> NUL" "?z \<noteq> NUL" using y z by auto
      then have "\<not> equals_ci (N @ [?z]) (N @ [?y])"
        using N tolower_next_letter [of ?y] y(2) by (simp add: equals_ci_snoc)
      then have "\<not> equals_ci (N @ [?z]) A" using True equals_ci_trans equals_ci_sym by blast
      then show ?thesis using True y z by (simp add: step)
    next
      case False
      then show ?thesis using y by (simp add: step)
    qed
  qed
qed

text \<open>Giving up in at most n refusals.\<close>

definition gives_up :: "string \<Rightarrow> string \<Rightarrow> nat \<Rightarrow> nat \<Rightarrow> string \<Rightarrow> bool" where
  "gives_up sConf sAlt uMax n sNick \<longleftrightarrow> (\<exists>k \<le> n. alt_run sConf sAlt uMax k sNick = None)"

lemma gives_up_mono: "gives_up N A uMax m L \<Longrightarrow> m \<le> n \<Longrightarrow> gives_up N A uMax n L"
  unfolding gives_up_def by (meson le_trans)

lemma gives_up_step:
  assumes "alt_nick N A uMax L L = None \<or>
    (\<exists>L'. alt_nick N A uMax L L = Some L' \<and> gives_up N A uMax n L')"
  shows "gives_up N A uMax (Suc n) L"
proof (cases "alt_nick N A uMax L L")
  case None
  then show ?thesis by (auto simp: gives_up_def intro: exI [of _ 1])
next
  case (Some L')
  with assms obtain k where "k \<le> n" "alt_run N A uMax k L' = None" by (auto simp: gives_up_def)
  with Some show ?thesis by (auto simp: gives_up_def intro!: exI [of _ "Suc k"])
qed

lemma gives_up_climb:
  assumes "alt_ok N A" "length N < uMax" "uMax \<le> 2 ^ 32"
    and "46 \<le> byte x" "byte x \<le> 122" "\<not> equals_ci (N @ [x]) A" "122 - byte x < n"
  shows "gives_up N A uMax n (N @ [x])"
  using assms(4-7)
proof (induction n arbitrary: x)
  case (Suc n)
  have f: "alt_nick N A uMax L B = alt_nick_from N N A L B" for L B
    using assms(2,3) by (subst alt_nick_short) simp_all
  from climb_step [OF assms(1) Suc.prems(1-3)] show ?case
  proof
    assume "\<exists>y. alt_nick_from N N A (N @ [x]) (N @ [x]) = Some (N @ [y]) \<and>
       byte x < byte y \<and> byte y \<le> 122 \<and> \<not> equals_ci (N @ [y]) A"
    then obtain y where "alt_nick_from N N A (N @ [x]) (N @ [x]) = Some (N @ [y])"
      "byte x < byte y" "byte y \<le> 122" "\<not> equals_ci (N @ [y]) A" by blast
    with Suc.IH [of y] Suc.prems show ?case by (intro gives_up_step) (simp add: f)
  qed (simp add: f gives_up_step)
qed simp

lemma gives_up_from_conf:
  assumes ok: "alt_ok N A" and max: "length N < uMax" "uMax \<le> 2 ^ 32"
  shows "gives_up N A uMax 100 N"
proof -
  have f: "alt_nick N A uMax L B = alt_nick_from N N A L B" for L B
    using max by (subst alt_nick_short) simp_all
  have N: "nul_free N" using ok by (simp add: alt_ok_def)
  note climb = gives_up_climb [OF ok max]
  have ci: "equals_ci (N @ [c]) (N @ [d]) \<longleftrightarrow> tolower_c c = tolower_c d" if "c \<noteq> NUL" "d \<noteq> NUL" for c d
    using N that by (rule equals_ci_snoc)
  have dash: "\<not> equals_ci (N @ ''-'') (N @ ''|'')" "\<not> equals_ci (N @ ''-'') (N @ ''^'')"
    "\<not> equals_ci (N @ ''|'') (N @ ''-'')" "\<not> equals_ci (N @ ''.'') (N @ ''|'')"
    using tolower_below [of "CHR ''.''"] by (simp_all add: ci)
  have longer: "\<not> equals_ci (N @ [c]) N" if "c \<noteq> NUL" for c using N that by (rule not_equals_snoc)
  have dot: "next_letter (CHR ''-'') = CHR ''.''" by code_simp
  have bar_up: "gives_up N A uMax 96 (N @ ''|'')" if "\<not> equals_ci A (N @ ''|'')"
  proof -
    have "alt_nick_from N N A (N @ ''|'') (N @ ''|'') = Some (N @ ''^'')"
      using that ok dash longer equals_ci_sym [of "N @ ''|''" A] by (simp add: alt_nick_from_def alt_ok_def)
    moreover have "gives_up N A uMax 95 (N @ ''^'')"
      using ok equals_ci_sym [of A] by (intro climb) (simp_all add: alt_ok_def)
    ultimately show ?thesis using gives_up_step [of N A uMax "N @ ''|''" 95] by (simp add: f)
  qed
  have dash_up: "gives_up N A uMax 97 (N @ ''-'')"
  proof (cases "equals_ci A (N @ ''|'')")
    case False
    then have "alt_nick_from N N A (N @ ''-'') (N @ ''-'') = Some (N @ ''|'')"
      using longer equals_ci_sym [of "N @ ''-''" A] by (simp add: alt_nick_from_def)
    then show ?thesis using bar_up [OF False] gives_up_step [of N A uMax "N @ ''-''" 96] by (simp add: f)
  next
    case True
    have notA: "\<not> equals_ci (N @ ''.'') A" "\<not> equals_ci (N @ ''-'') A"
      using True dash equals_ci_trans by blast+
    have "alt_nick_from N N A (N @ ''-'') (N @ ''-'') = Some (N @ ''.'')"
      using True longer dash notA by (simp add: alt_nick_from_def dot)
    moreover have "gives_up N A uMax 96 (N @ ''.'')" using notA by (intro climb) simp_all
    ultimately show ?thesis using gives_up_step [of N A uMax "N @ ''-''" 96] by (simp add: f)
  qed
  show ?thesis
  proof (cases "A \<noteq> [] \<and> \<not> equals_ci N A")
    case False
    then have "alt_nick_from N N A N N = Some (N @ ''-'')" by (auto simp: alt_nick_from_def)
    then have "gives_up N A uMax 98 N"
      using dash_up gives_up_step [of N A uMax N 97] by (simp add: f)
    then show ?thesis by (rule gives_up_mono) simp
  next
    case True
    have "gives_up N A uMax 98 A"
    proof (cases "equals_ci A (N @ ''-'')")
      case True
      then have nb: "\<not> equals_ci A (N @ ''|'')" using dash equals_ci_trans equals_ci_sym by blast
      have "alt_nick_from N N A A A = Some (N @ ''|'')"
        using True nb \<open>A \<noteq> [] \<and> \<not> equals_ci N A\<close> equals_ci_sym [of A N] by (simp add: alt_nick_from_def)
      then have "gives_up N A uMax 97 A"
        using bar_up [OF nb] gives_up_step [of N A uMax A 96] by (simp add: f)
      then show ?thesis by (rule gives_up_mono) simp
    next
      case False
      then have "alt_nick_from N N A A A = Some (N @ ''-'')"
        using True equals_ci_sym [of A N] by (simp add: alt_nick_from_def)
      then show ?thesis using dash_up gives_up_step [of N A uMax A 97] by (simp add: f)
    qed
    moreover have "alt_nick_from N N A N N = Some A" using True by (simp add: alt_nick_from_def)
    ultimately have "gives_up N A uMax 99 N"
      using gives_up_step [of N A uMax N 98] by (simp add: f)
    then show ?thesis by (rule gives_up_mono) simp
  qed
qed

text \<open>A nick that comes back keeps the socket trying for ever.\<close>

lemma alt_run_append:
  "alt_run N A uMax (k + n) L = Option.bind (alt_run N A uMax k L) (alt_run N A uMax n)"
  by (induction k arbitrary: L) (simp_all split: option.split)

lemma alt_run_cycle:
  assumes "alt_run N A uMax p L = Some L" and "0 < p"
  shows "alt_run N A uMax n L \<noteq> None"
proof (induction n rule: less_induct)
  case (less n)
  show ?case
  proof (cases "n < p")
    case True
    then show ?thesis
      using assms(1) alt_run_append [of N A uMax n "p - n" L] by (auto split: bind_splits)
  next
    case False
    then have "alt_run N A uMax n L = alt_run N A uMax (n - p) L"
      using assms(1) alt_run_append [of N A uMax p "n - p" L] by simp
    then show ?thesis using less.IH [of "n - p"] False assms(2) by simp
  qed
qed

text \<open>The same run on the shortened nick, for evaluation.\<close>

fun alt_run_from :: "string \<Rightarrow> string \<Rightarrow> string \<Rightarrow> nat \<Rightarrow> string \<Rightarrow> string option" where
  "alt_run_from sNew sConf sAlt 0 sNick = Some sNick"
| "alt_run_from sNew sConf sAlt (Suc n) sNick =
     (case alt_nick_from sNew sConf sAlt sNick sNick of
        None \<Rightarrow> None | Some sNext \<Rightarrow> alt_run_from sNew sConf sAlt n sNext)"

lemma alt_run_from:
  "0 < uMax \<Longrightarrow> uMax \<le> 2 ^ 32 \<Longrightarrow>
   alt_run sConf sAlt uMax n sNick = alt_run_from (take (uMax - 1) sConf) sConf sAlt n sNick"
  by (induction n arbitrary: sNick) (simp_all add: alt_nick_short split: option.split)

lemma alt_run_never:
  assumes "alt_run N A uMax k L = Some L'" and "alt_run N A uMax p L' = Some L'" and "0 < p"
  shows "alt_run N A uMax n L \<noteq> None"
proof
  assume "alt_run N A uMax n L = None"
  then have "alt_run N A uMax (n + k) L = None" by (simp add: alt_run_append)
  then have "alt_run N A uMax (k + n) L = None" by (simp add: add.commute)
  with assms(1) alt_run_cycle [OF assms(2,3), of n] show False by (simp add: alt_run_append)
qed

text \<open>The socket under refusals: each time the server echoes the nick that was tried.\<close>

fun refusals :: "env \<Rightarrow> string \<Rightarrow> string \<Rightarrow> string \<Rightarrow> nat \<Rightarrow> ircsock \<Rightarrow> ircsock" where
  "refusals E sConf sAlt sQuit 0 s = s"
| "refusals E sConf sAlt sQuit (Suc n) s =
     (if IsClosed s then s
      else refusals E sConf sAlt sQuit n (SendAltNick E sConf sAlt sQuit (m_sNick (sock_Nick s)) s))"

lemma IsClosed_Quit: "IsClosed (Quit E d q s)"
  by (simp add: Quit_def IsClosed_def)

lemma refusals_closed [simp]: "IsClosed s \<Longrightarrow> refusals E N A q n s = s"
  by (cases n) simp_all

lemma refusals_alt_run:
  "\<not> IsClosed s \<Longrightarrow> IsClosed (refusals E N A q n s) \<longleftrightarrow>
     alt_run N A (m_uMaxNickLen s) n (m_sNick (sock_Nick s)) = None"
proof (induction n arbitrary: s)
  case (Suc n)
  show ?case
  proof (cases "alt_nick N A (m_uMaxNickLen s) (m_sNick (sock_Nick s)) (m_sNick (sock_Nick s))")
    case None
    then show ?thesis using Suc.prems by (simp add: SendAltNick_def IsClosed_Quit)
  next
    case (Some x)
    let ?s = "SendAltNick E N A q (m_sNick (sock_Nick s)) s"
    have "\<not> IsClosed ?s" "m_uMaxNickLen ?s = m_uMaxNickLen s" "m_sNick (sock_Nick ?s) = x"
      using Suc.prems by (simp_all add: SendAltNick_def Some IsClosed_def Let_def)
    with Suc.IH [of ?s] Suc.prems Some show ?thesis by simp
  qed
qed simp

end
