(* ===== verification/Chan_Facts.thy ===== *)
theory Chan_Facts imports Chan_Clients Server_Tables begin

text \<open>
  Facts on channels: the invariant of the nick list (every entry is filed under its own
  nick, with permissions that are well formed) and of the mode map, kept by every operation;
  what adding, removing and renaming a nick does; and that the mode string a server answers
  restores the modes it was printed from.
\<close>

section \<open>The invariant\<close>

definition nick_entry_ok :: "string \<times> nick \<Rightarrow> bool" where
  "nick_entry_ok e \<longleftrightarrow> m_sNick (snd e) = fst e \<and> perms_ok (snd e)"

definition chan_ok :: "chan \<Rightarrow> bool" where
  "chan_ok c \<longleftrightarrow> om_ok (m_msNicks c) \<and> list_all nick_entry_ok (m_msNicks c) \<and>
     om_ok (m_mcsModes c) \<and> perms_ok (chan_Nick c)"

lemma list_all_om_insert: "list_all P m \<Longrightarrow> P (k, v) \<Longrightarrow> list_all P (om_insert k v m)"
  using set_om_insert [of k v m] by (auto simp: list_all_iff)

lemma list_all_om_erase: "list_all P m \<Longrightarrow> list_all P (om_erase k m)"
  using keys_om_erase_subset [of k m] by (auto simp: list_all_iff)

lemma FindNick_ok: "chan_ok c \<Longrightarrow> FindNick s c = Some n \<Longrightarrow> m_sNick n = s \<and> perms_ok n"
  by (auto simp: chan_ok_def FindNick_def list_all_iff nick_entry_ok_def dest!: map_of_SomeD)

lemma chan_ok_upd_nick [simp]:
  "chan_ok c \<Longrightarrow> m_sNick n = k \<Longrightarrow> perms_ok n \<Longrightarrow> chan_ok (upd_nick k n c)"
  by (simp add: chan_ok_def upd_nick_def list_all_om_insert nick_entry_ok_def)

lemma chan_ok_self [simp]: "chan_ok c \<Longrightarrow> perms_ok n \<Longrightarrow> chan_ok (c \<lparr>chan_Nick := n\<rparr>)"
  by (simp add: chan_ok_def)

lemma perms_ok_fields [simp]:
  "perms_ok (n \<lparr>m_sIdent := i\<rparr>) = perms_ok n" "perms_ok (n \<lparr>m_sHost := h\<rparr>) = perms_ok n"
  "perms_ok (n \<lparr>m_sNick := s\<rparr>) = perms_ok n"
  by (simp_all add: perms_ok_def)

lemma fold_AddPerm [simp]:
  "m_sNick (fold (\<lambda>x n. snd (AddPerm x n)) ps n) = m_sNick n"
  "perms_ok n \<Longrightarrow> perms_ok (fold (\<lambda>x n. snd (AddPerm x n)) ps n)"
  by (induction ps arbitrary: n) simp_all

lemma FindNick_upd_nick [simp]: "FindNick s (upd_nick k n c) = (if s = k then Some n else FindNick s c)"
  by (simp add: FindNick_def upd_nick_def)

lemma FindNick_self [simp]: "FindNick s (c \<lparr>chan_Nick := n\<rparr>) = FindNick s c"
  by (simp add: FindNick_def)

lemma chan_ok_RemNick: "chan_ok c \<Longrightarrow> chan_ok (snd (RemNick s c))"
  by (simp add: RemNick_def chan_ok_def list_all_om_erase split: option.split)

lemma chan_Nick_upd_nick [simp]: "chan_Nick (upd_nick k n c) = chan_Nick c"
  by (simp add: upd_nick_def)

lemma chan_ok_own [simp]: "chan_ok c \<Longrightarrow> perms_ok (chan_Nick c)"
  by (simp add: chan_ok_def)

lemma chan_ok_put_nick:
  assumes "chan_ok c"
  shows "chan_ok (put_nick cur ps s i h c)"
proof (cases "FindNick s c")
  case None
  then show ?thesis using assms by (simp add: put_nick_def Let_def)
next
  case (Some n)
  then have "m_sNick n = s" "perms_ok n" using FindNick_ok [OF assms] by simp_all
  then show ?thesis using assms Some by (simp add: put_nick_def Let_def)
qed

lemma chan_ok_AddNick: "chan_ok c \<Longrightarrow> chan_ok (snd (AddNick sock cur s c))"
  by (simp add: AddNick_def Let_def chan_ok_put_nick)

lemma chan_ok_add_nicks: "chan_ok c \<Longrightarrow> chan_ok (snd (add_nicks sock cur ns c))"
proof (induction ns arbitrary: c)
  case (Cons s ns)
  from Cons.IH [OF chan_ok_AddNick [OF Cons.prems, of sock cur s]] show ?case
    by (simp add: split_beta Let_def)
qed simp

lemma chan_ok_AddNicks: "chan_ok c \<Longrightarrow> chan_ok (snd (AddNicks sock cur s c))"
  by (simp add: AddNicks_def chan_ok_add_nicks)

lemma chan_ok_OnWho: "chan_ok c \<Longrightarrow> chan_ok (OnWho s i h c)"
  using FindNick_ok [of c s] by (auto simp: OnWho_def split: option.split)

lemma chan_ok_erase: "om_ok (m_msNicks c) \<Longrightarrow> om_ok (m_mcsModes c) \<Longrightarrow> perms_ok (chan_Nick c) \<Longrightarrow>
    list_all nick_entry_ok (om_erase k (m_msNicks c)) \<Longrightarrow>
    chan_ok (c \<lparr>m_msNicks := om_erase k (m_msNicks c)\<rparr>)"
  by (simp add: chan_ok_def)

lemma set_om_erase_insert:
  "om_ok m \<Longrightarrow> e \<in> set (om_erase k (om_insert k' v (om_insert k w m))) \<Longrightarrow> e = (k', v) \<and> k \<noteq> k' \<or> e \<in> set m"
proof -
  assume ok: "om_ok m" and e: "e \<in> set (om_erase k (om_insert k' v (om_insert k w m)))"
  let ?m = "om_erase k (om_insert k' v (om_insert k w m))"
  obtain x y where xy: "e = (x, y)" by (cases e)
  have "map_of ?m x = Some y" using e ok xy by (intro map_of_is_SomeI om_ok_distinct) simp_all
  then show ?thesis using ok xy by (auto split: if_splits dest: map_of_SomeD)
qed

lemma chan_ok_ChangeNick: "chan_ok c \<Longrightarrow> chan_ok (snd (ChangeNick old new c))"
proof (cases "FindNick old c")
  case (Some n)
  assume ok: "chan_ok c"
  let ?n = "n \<lparr>m_sNick := new\<rparr>"
  let ?m = "om_erase old (om_insert new ?n (om_insert old ?n (m_msNicks c)))"
  have "list_all nick_entry_ok ?m"
    unfolding list_all_iff
  proof
    fix e assume "e \<in> set ?m"
    then have "e = (new, ?n) \<and> old \<noteq> new \<or> e \<in> set (m_msNicks c)"
      using ok by (intro set_om_erase_insert) (simp_all add: chan_ok_def)
    then show "nick_entry_ok e"
      using ok FindNick_ok [OF ok Some] by (auto simp: nick_entry_ok_def chan_ok_def list_all_iff)
  qed
  then show ?thesis using ok by (simp add: ChangeNick_def Some Let_def upd_nick_def chan_ok_def)
qed (simp add: ChangeNick_def)

text \<open>Modes.\<close>

lemma chan_ok_SetKey [simp]: "chan_ok (SetKey s c) = chan_ok c"
  by (simp add: SetKey_def chan_ok_def)

lemma chan_ok_chan_mode: "chan_ok c \<Longrightarrow> chan_ok (fst (chan_mode m b l a c))"
  by (simp add: chan_mode_def Let_def AddMode_def RemMode_def) (simp add: chan_ok_def)

lemma chan_ok_perm_change:
  assumes "chan_ok c"
  shows "chan_ok (fst (perm_change sock cur m b s c))"
proof (cases "FindNick s c")
  case (Some n)
  have n: "m_sNick n = s" "perms_ok n" using FindNick_ok [OF assms Some] by simp_all
  have self: "perms_ok (chan_Nick c)" using assms by (simp add: chan_ok_def)
  show ?thesis using assms n self
    by (cases "GetPermFromMode sock m = NUL") (simp_all add: perm_change_def Some Let_def)
qed (simp add: perm_change_def assms)

lemma chan_ok_mode_loop: "chan_ok c \<Longrightarrow> chan_ok (fst (mode_loop sock cur ms b args c))"
  by (induction sock cur ms b args c rule: mode_loop.induct)
    (auto simp: Let_def split_beta chan_ok_chan_mode chan_ok_perm_change)

lemma chan_ok_ModeChange: "chan_ok c \<Longrightarrow> chan_ok (fst (ModeChange sock cur m vs c))"
  by (simp add: ModeChange_def split_beta Let_def chan_ok_mode_loop)

lemma chan_ok_ModeChange_str: "chan_ok c \<Longrightarrow> chan_ok (fst (ModeChange_str sock cur s c))"
  by (simp add: ModeChange_str_def split_beta Let_def chan_ok_ModeChange)

lemma chan_ok_no_modes: "chan_ok c \<Longrightarrow> chan_ok (c \<lparr>m_mcsModes := []\<rparr>)"
  by (simp add: chan_ok_def)

lemma chan_ok_SetModes: "chan_ok c \<Longrightarrow> chan_ok (fst (SetModes sock cur m vs c))"
  by (simp add: SetModes_def chan_ok_ModeChange chan_ok_no_modes)

lemma chan_ok_Reset [simp]: "chan_ok (Chan_Reset c)"
  by (simp add: Chan_Reset_def ResetJoinTries_def chan_ok_def)

lemma chan_ok_SetIsOn: "chan_ok c \<Longrightarrow> chan_ok (SetIsOn b c)"
  by (simp add: SetIsOn_def Let_def) (simp add: chan_ok_def)

section \<open>Adding, removing, renaming\<close>

lemma RemNick_spec:
  assumes "chan_ok c"
  shows "fst (RemNick s c) \<longleftrightarrow> FindNick s c \<noteq> None"
    and "FindNick x (snd (RemNick s c)) = (if x = s then None else FindNick x c)"
  using assms by (auto simp: RemNick_def FindNick_def chan_ok_def split: option.split)

lemma ChangeNick_spec:
  assumes "chan_ok c" and "FindNick old c = Some n" and "old \<noteq> new"
  shows "fst (ChangeNick old new c)"
    and "FindNick x (snd (ChangeNick old new c)) =
      (if x = new then Some (n \<lparr>m_sNick := new\<rparr>) else if x = old then None else FindNick x c)"
proof -
  have "om_ok (m_msNicks c)" using assms(1) by (simp add: chan_ok_def)
  then show "fst (ChangeNick old new c)"
    "FindNick x (snd (ChangeNick old new c)) =
      (if x = new then Some (n \<lparr>m_sNick := new\<rparr>) else if x = old then None else FindNick x c)"
    using assms(2,3) by (simp_all add: ChangeNick_def Let_def upd_nick_def FindNick_def)
qed

text \<open>A rename to the same nick drops the entry.\<close>

lemma ChangeNick_same:
  assumes "chan_ok c" and "FindNick s c \<noteq> None"
  shows "FindNick s (snd (ChangeNick s s c)) = None"
proof -
  have "om_ok (m_msNicks c)" using assms(1) by (simp add: chan_ok_def)
  then show ?thesis
    using assms(2) by (auto simp: ChangeNick_def Let_def upd_nick_def FindNick_def)
qed

lemma ChangeNick_same_others:
  assumes "chan_ok c" and "FindNick s c = Some n"
  shows "FindNick x (snd (ChangeNick s s c)) = (if x = s then None else FindNick x c)"
proof -
  have "om_ok (m_msNicks c)" using assms(1) by (simp add: chan_ok_def)
  then show ?thesis
    using assms(2) by (auto simp: ChangeNick_def Let_def upd_nick_def FindNick_def)
qed

text \<open>A nick as the NAMES reply with both extensions gives it.\<close>

definition names_word_ok :: "ircsock \<Rightarrow> string \<Rightarrow> string \<Rightarrow> string \<Rightarrow> string \<Rightarrow> bool" where
  "names_word_ok sock ps s i h \<longleftrightarrow>
     list_all (IsPermChar sock) ps \<and> s \<noteq> [] \<and> i \<noteq> [] \<and> h \<noteq> [] \<and> hd s \<noteq> CHR '':'' \<and> hd h \<noteq> CHR ''@'' \<and>
     \<not> IsPermChar sock (hd s) \<and> CHR ''!'' \<notin> set s \<and> hd i \<noteq> CHR ''!'' \<and> CHR ''@'' \<notin> set i \<and>
     nul_free s \<and> nul_free i \<and> nul_free h"

lemma AddNick_word:
  assumes "names_word_ok sock ps s i h"
  shows "AddNick sock cur (ps @ s @ ''!'' @ i @ ''@'' @ h) c = (True, put_nick cur ps s i h c)"
proof -
  note w = assms [unfolded names_word_ok_def]
  let ?r = "s @ CHR ''!'' # i @ CHR ''@'' # h"
  have ps: "nul_free ps" using w by (auto simp: nul_free_def list_all_iff IsPermChar_def)
  have stop: "\<not> IsPermChar sock (hd ?r)" using w by simp
  obtain x xs where r: "?r = x # xs" by (cases ?r) auto
  have split: "takeWhile (IsPermChar sock) (ps @ ?r) = ps" "dropWhile (IsPermChar sock) (ps @ ?r) = ?r"
    using takeWhile_append_stop [of ps "IsPermChar sock" x xs] w stop unfolding r list_all_iff by auto
  have "Token ?r 1 True ''!'' False = i @ CHR ''@'' # h"
    by (rule Token_first(3)) (use w in \<open>simp_all\<close>)
  moreover have "Token ?r 0 False ''!'' False = s"
    by (rule Token_first(1)) (use w in \<open>simp_all\<close>)
  moreover have "Token (i @ CHR ''@'' # h) 1 True ''@'' False = h"
    by (rule Token_first(3)) (use w in \<open>simp_all\<close>)
  moreover have "Token (i @ CHR ''@'' # h) 0 False ''@'' False = i"
    by (rule Token_first(1)) (use w in \<open>simp_all\<close>)
  moreover have "c_str (ps @ ?r) = ps @ ?r" using w ps by simp
  moreover have "?r \<noteq> []" using w by simp
  ultimately show ?thesis using split
    by (simp add: AddNick_def Let_def del: dropWhile_eq_Nil_conv takeWhile_eq_Nil_iff)
qed

section \<open>The mode string\<close>

definition word_list_ok :: "string list \<Rightarrow> bool" where
  "word_list_ok us \<longleftrightarrow> (\<forall>w \<in> set us. w \<noteq> [] \<and> hd w \<noteq> CHR '':'' \<and> CHR '' '' \<notin> set w)"

lemma word_list_hd: "word_list_ok us \<Longrightarrow> Join '' '' us \<noteq> [] \<longrightarrow> hd (Join '' '' us) \<noteq> CHR '' ''"
proof (cases us)
  case (Cons a r)
  assume "word_list_ok us"
  then have a: "a \<noteq> []" "CHR '' '' \<notin> set a" by (simp_all add: word_list_ok_def Cons)
  then show ?thesis using Join_hd [of us "'' ''"] hd_not_blank [OF a] by (simp add: Cons)
qed simp

lemma tolower_colon: "tolower_c c = tolower_c (CHR '':'') \<longleftrightarrow> c = CHR '':''"
  using tolower_is_nonalpha [of "CHR '':''" c] by (simp add: islower_c_def isupper_c_def byte_def tolower_nonalpha)

lemma mode_args_Join: "word_list_ok us \<Longrightarrow> mode_args (Join '' '' us) = us"
proof (induction us)
  case Nil
  then show ?case by (simp add: mode_args.simps)
next
  case (Cons w us)
  have w: "w \<noteq> []" "hd w \<noteq> CHR '':''" "CHR '' '' \<notin> set w" and us: "word_list_ok us"
    using Cons.prems by (auto simp: word_list_ok_def)
  let ?j = "Join '' '' (w # us)"
  have j: "?j \<noteq> []" "hd ?j = hd w" using Join_hd [of "w # us"] w by simp_all
  have "TrimPrefix '':'' ?j = (False, ?j)" using j w by (simp add: TrimPrefix_def tolower_colon)
  then have unfold: "mode_args ?j = token ?j 0 # mode_args (token_rest ?j 1)"
    using j by (subst mode_args.simps) simp
  show ?case
  proof (cases "us = []")
    case True
    then show ?thesis using unfold Token_first(2,4) [of "CHR '' ''" w] w by (simp add: mode_args.simps)
  next
    case False
    then have "Join '' '' us \<noteq> [] \<longrightarrow> hd (Join '' '' us) \<noteq> CHR '' ''"
      using word_list_hd [OF us] by simp
    then show ?thesis
      using unfold Token_first(1,3) [of "CHR '' ''" w "Join '' '' us"] w Cons.IH [OF us] False
      by (simp add: Join_Cons)
  qed
qed

text \<open>Modes as the tables of the server describe them.\<close>

definition mode_entry_ok :: "ircsock \<Rightarrow> char \<times> string \<Rightarrow> bool" where
  "mode_entry_ok sock e \<longleftrightarrow>
     fst e \<notin> {NUL, CHR ''+'', CHR ''-'', CHR '' ''} \<and> \<not> IsPermMode sock (fst e) \<and>
     (case GetModeType sock (fst e) of
        ListArg \<Rightarrow> False
      | NoArg \<Rightarrow> snd e = []
      | _ \<Rightarrow> word_list_ok [snd e] \<and> nul_free (snd e))"

lemma mode_loop_set:
  assumes "list_all (mode_entry_ok sock) ms"
  shows "m_mcsModes (fst (mode_loop sock cur (map fst ms) True (filter (\<lambda>a. a \<noteq> []) (map snd ms) @ extra) c)) =
    fold (\<lambda>(m, a). om_insert m a) ms (m_mcsModes c)"
  using assms
proof (induction ms arbitrary: c)
  case (Cons e ms)
  obtain m a where e: "e = (m, a)" by (cases e)
  have ok: "m \<noteq> CHR ''+''" "m \<noteq> CHR ''-''" "\<not> IsPermMode sock m" "GetModeType sock m \<noteq> ListArg"
    using Cons.prems by (auto simp: e mode_entry_ok_def)
  have arg: "mode_arg (GetModeType sock m) True (filter (\<lambda>a. a \<noteq> []) (a # map snd ms) @ extra) =
      (a, filter (\<lambda>a. a \<noteq> []) (map snd ms) @ extra)"
    using Cons.prems by (cases "GetModeType sock m")
      (auto simp: e mode_entry_ok_def mode_arg_def nextArg_def word_list_ok_def)
  have set: "m_mcsModes (fst (chan_mode m True False a c)) = om_insert m a (m_mcsModes c)"
    by (simp add: chan_mode_def Let_def AddMode_def SetKey_def)
  have "mode_loop sock cur (m # map fst ms) True (filter (\<lambda>a. a \<noteq> []) (a # map snd ms) @ extra) c =
     (let r = chan_mode m True False a c;
          (c', es) = mode_loop sock cur (map fst ms) True (filter (\<lambda>a. a \<noteq> []) (map snd ms) @ extra) (fst r)
      in (c', snd r @ es))"
    using ok arg by (simp add: Let_def del: filter.simps)
  then show ?case using Cons.IH [of "fst (chan_mode m True False a c)"] Cons.prems set
    by (simp add: e split_beta Let_def del: filter.simps)
qed simp

lemma GetModeString_eq:
  "GetModeString c =
     (if m_mcsModes c = [] then []
      else Join '' '' ((CHR ''+'' # map fst (m_mcsModes c)) # filter (\<lambda>a. a \<noteq> []) (map snd (m_mcsModes c))))"
proof -
  let ?f = "\<lambda>(sModes, sArgs) (m, a). (sModes @ [m], if a \<noteq> [] then sArgs @ '' '' @ a else sArgs)"
  have f: "foldl ?f (x, y) ms = (x @ map fst ms, y @ concat (map (\<lambda>a. '' '' @ a) (filter (\<lambda>a. a \<noteq> []) (map snd ms))))"
    for x y and ms :: "(char \<times> string) list"
    by (induction ms arbitrary: x y) auto
  have j: "Join '' '' (w # us) = w @ concat (map (\<lambda>a. '' '' @ a) us)" for w us
    by (induction us arbitrary: w) (auto simp: Join_Cons)
  show ?thesis by (simp add: GetModeString_def f j)
qed

lemma SetModes_GetModeString:
  assumes "om_ok (m_mcsModes c)" and "list_all (mode_entry_ok sock) (m_mcsModes c)"
  shows "m_mcsModes (fst (SetModes_str sock cur (GetModeString c) d)) = m_mcsModes c"
proof (cases "m_mcsModes c = []")
  case True
  have "token [] 0 = []" "TrimPrefix '':'' [] = (False, [])"
    by (simp_all add: Token_def Let_def TrimPrefix_def)
  then show ?thesis using True
    by (simp add: GetModeString_eq SetModes_str_def ModeChange_str_def ModeChange_def)
next
  case False
  let ?ms = "m_mcsModes c"
  let ?w = "CHR ''+'' # map fst ?ms" and ?args = "filter (\<lambda>a. a \<noteq> []) (map snd ?ms)"
  have w: "?w \<noteq> []" "CHR '' '' \<notin> set ?w" using assms(2) by (auto simp: list_all_iff mode_entry_ok_def)
  have args: "word_list_ok ?args"
    unfolding word_list_ok_def
  proof
    fix a assume "a \<in> set ?args"
    then obtain m where "(m, a) \<in> set ?ms" "a \<noteq> []" by auto
    moreover from this(1) have "mode_entry_ok sock (m, a)" using assms(2) by (auto simp: list_all_iff)
    ultimately show "a \<noteq> [] \<and> hd a \<noteq> CHR '':'' \<and> CHR '' '' \<notin> set a"
      by (cases "GetModeType sock m") (auto simp: mode_entry_ok_def word_list_ok_def)
  qed
  have hd: "Join '' '' ?args \<noteq> [] \<longrightarrow> hd (Join '' '' ?args) \<noteq> CHR '' ''"
    by (rule word_list_hd [OF args])
  let ?s = "Join '' '' (?w # ?args)"
  have t0: "token ?s 0 = ?w" and t1: "token_rest ?s 1 = Join '' '' ?args"
    using Token_first(1,3) [of "CHR '' ''" ?w "Join '' '' ?args"] Token_first(2,4) [of "CHR '' ''" ?w] w hd
    by (cases "?args = []"; simp add: Join_Cons)+
  have pre: "TrimPrefix '':'' ?w = (False, ?w)" by (simp add: TrimPrefix_def tolower_colon)
  have "fst (SetModes_str sock cur ?s d) = fst (mode_loop sock cur ?w True ?args (d \<lparr>m_mcsModes := []\<rparr>))"
    by (simp only: SetModes_str_def ModeChange_str_def t0 t1 pre mode_args_Join [OF args] ModeChange_def
        Let_def prod.case if_False split_beta fst_conv snd_conv)
  also have "m_mcsModes \<dots> = fold (\<lambda>(m, a). om_insert m a) ?ms []"
    using mode_loop_set [OF assms(2), of cur "[]" "d \<lparr>m_mcsModes := []\<rparr>"] by simp
  also have "\<dots> = ?ms" using om_rebuild [of "[]" ?ms] assms(1) by simp
  finally show ?thesis using False by (simp add: GetModeString_eq)
qed

end
