(* ===== verification/Server.thy ===== *)
theory Server imports Cstring_Num Tokens "HOL-Library.Product_Lexorder" begin

text \<open>
  CServer (src/Server.cpp): an entry of the server list of a network, its printed form and
  the parser of that form, equality and order. Servers are an instance of \<open>linorder\<close>, with
  the order that operator< computes.
\<close>

datatype server = Server
  (srv_sName: string) (srv_uPort: nat) (srv_sPass: string) (srv_bSSL: bool) (srv_bUnixSocket: bool)

definition mk_server :: "string \<Rightarrow> nat \<Rightarrow> string \<Rightarrow> bool \<Rightarrow> bool \<Rightarrow> server" where
  "mk_server sName uPort sPass bSSL bUnixSocket =
     Server sName (if uPort \<noteq> 0 then uPort else 6667) sPass bSSL bUnixSocket"

definition IsValidHostName :: "string \<Rightarrow> bool" where
  "IsValidHostName sHostName \<longleftrightarrow> sHostName \<noteq> [] \<and> \<not> Contains sHostName '' '' CaseSensitive"

definition Server_GetString :: "bool \<Rightarrow> server \<Rightarrow> string" where
  "Server_GetString bIncludePassword s =
     (if srv_bUnixSocket s
      then ''unix:'' @ (if srv_bSSL s then ''ssl:'' else []) @ srv_sName s
      else srv_sName s @ '' '' @ (if srv_bSSL s then ''+'' else []) @ dec (srv_uPort s)) @
     (if bIncludePassword then if srv_sPass s = [] then [] else '' '' @ srv_sPass s else [])"

definition Server_Parse :: "string \<Rightarrow> server" where
  "Server_Parse sLine0 =
     (let (bUnix, sLine) = TrimPrefix ''unix:'' (Trim_n ws sLine0) in
      if bUnix then
        (let (bSSL, sLine') = TrimPrefix ''ssl:'' sLine
         in mk_server (Token sLine' 0 False '' '' False) 0 (Token sLine' 1 True '' '' False) bSSL True)
      else
        (let (bSSL, sPort) = TrimPrefix ''+'' (Token sLine 1 False '' '' False)
         in mk_server (Token sLine 0 False '' '' False) (ToUShort sPort) (Token sLine 2 True '' '' False)
              bSSL False))"

definition server_less :: "server \<Rightarrow> server \<Rightarrow> bool" where
  "server_less s t =
     (if srv_sName s < srv_sName t then True else if srv_sName s > srv_sName t then False
      else if srv_uPort s < srv_uPort t then True else if srv_uPort s > srv_uPort t then False
      else if srv_sPass s < srv_sPass t then True else if srv_sPass s > srv_sPass t then False
      else if srv_bSSL s < srv_bSSL t then True else if srv_bSSL s > srv_bSSL t then False
      else if srv_bUnixSocket s < srv_bUnixSocket t then True
      else if srv_bUnixSocket s > srv_bUnixSocket t then False else False)"

text \<open>The order is lexicographic.\<close>

definition server_key :: "server \<Rightarrow> string \<times> nat \<times> string \<times> bool \<times> bool" where
  "server_key s = (srv_sName s, srv_uPort s, srv_sPass s, srv_bSSL s, srv_bUnixSocket s)"

lemma server_less_key: "server_less s t \<longleftrightarrow> server_key s < server_key t"
  by (auto simp: server_less_def server_key_def not_less_iff_gr_or_eq)

lemma server_key_inject: "server_key s = server_key t \<longleftrightarrow> s = t"
  by (cases s; cases t) (simp add: server_key_def)

instantiation server :: linorder
begin

definition less_server :: "server \<Rightarrow> server \<Rightarrow> bool" where
  "less_server s t \<longleftrightarrow> server_less s t"

definition less_eq_server :: "server \<Rightarrow> server \<Rightarrow> bool" where
  "less_eq_server s t \<longleftrightarrow> server_less s t \<or> s = t"

instance
  by standard
    (auto simp: less_server_def less_eq_server_def server_less_key simp flip: server_key_inject)

end

section \<open>Reading back\<close>

definition plain_end :: "string \<Rightarrow> bool" where
  "plain_end s \<longleftrightarrow> s \<noteq> [] \<and> last s \<notin> set ws"

definition name_pass :: "server \<Rightarrow> string" where
  "name_pass s = srv_sName s @ (if srv_sPass s = [] then [] else '' '' @ srv_sPass s)"

text \<open>Servers whose parts fit the line: what Parse can give back.\<close>

definition server_ok :: "server \<Rightarrow> bool" where
  "server_ok s \<longleftrightarrow>
     srv_sName s \<noteq> [] \<and> CHR '' '' \<notin> set (srv_sName s) \<and> plain_end (srv_sName s) \<and>
     (srv_sPass s \<noteq> [] \<longrightarrow> hd (srv_sPass s) \<noteq> CHR '' '' \<and> plain_end (srv_sPass s)) \<and>
     0 < srv_uPort s \<and> srv_uPort s < 65536 \<and>
     (if srv_bUnixSocket s then srv_uPort s = 6667 \<and> (\<not> srv_bSSL s \<longrightarrow> \<not> starts_ci (name_pass s) ''ssl:'')
      else hd (srv_sName s) \<notin> set ws \<and> \<not> starts_ci (Server_GetString True s) ''unix:'')"

lemma TrimPrefix_append:
  "nul_free p \<Longrightarrow> TrimPrefix p (p @ s) = (True, s)"
  by (simp add: TrimPrefix_def StartsWith_def Left_def LeftChomp_n_def Let_def)

lemma ws_simps [simp]: "CHR '' '' \<in> set ws" "c \<in> set ws \<Longrightarrow> c = CHR '' '' \<or> byte c = 9 \<or> byte c = 13 \<or> byte c = 10"
  by (auto simp: ws_def byte_def)

lemma dec_not_ws: "c \<in> set (dec n) \<Longrightarrow> c \<notin> set ws"
  using dec_digits [of c n] by (auto simp: ws_def isdigit_c_def byte_def)

lemma dec_hd_not_plus: "TrimPrefix ''+'' (dec n) = (False, dec n)"
proof -
  have "tolower_c (hd (dec n)) \<noteq> tolower_c (CHR ''+'')"
    using hd_dec [of n] by (auto simp: tolower_c_def isupper_c_def isdigit_c_def byte_def)
  then show ?thesis by (simp add: TrimPrefix_def)
qed

lemma Trim_plain: "s \<noteq> [] \<Longrightarrow> hd s \<notin> set ws \<Longrightarrow> plain_end s \<Longrightarrow> Trim_n ws s = s"
  by (intro Trim_n_id) (simp add: plain_end_def)

lemma Token_pair:
  assumes "w \<noteq> []" "CHR '' '' \<notin> set w" "r \<noteq> [] \<longrightarrow> hd r \<noteq> CHR '' ''"
  shows "Token (w @ (if r = [] then [] else '' '' @ r)) 0 False '' '' False = w"
    and "Token (w @ (if r = [] then [] else '' '' @ r)) (Suc 0) True '' '' False = r"
  using Token_first(1,3) [of "CHR '' ''" w r] Token_first(2,4) [of "CHR '' ''" w] assms by auto

lemma Parse_unix:
  assumes "server_ok s" and "srv_bUnixSocket s"
  shows "Server_Parse (Server_GetString True s) = s"
proof -
  obtain n p pw b where s: "s = Server n p pw b True" using assms(2) by (cases s) auto
  note ok = assms(1) [unfolded server_ok_def s server.sel]
  let ?body = "n @ (if pw = [] then [] else '' '' @ pw)"
  have g: "Server_GetString True s = ''unix:'' @ (if b then ''ssl:'' else []) @ ?body"
    by (simp add: s Server_GetString_def)
  have "plain_end ?body" using ok by (auto simp: plain_end_def)
  then have "Trim_n ws (Server_GetString True s) = Server_GetString True s"
    unfolding g by (intro Trim_plain) (auto simp: plain_end_def ws_def)
  moreover have "TrimPrefix ''unix:'' (Server_GetString True s) = (True, (if b then ''ssl:'' else []) @ ?body)"
    unfolding g by (rule TrimPrefix_append) simp
  moreover have "TrimPrefix ''ssl:'' ((if b then ''ssl:'' else []) @ ?body) = (b, ?body)"
  proof (cases b)
    case True
    then show ?thesis using TrimPrefix_append [of "''ssl:''" ?body] by simp
  next
    case False
    then show ?thesis using ok by (cases "pw = []") (simp_all add: TrimPrefix_def name_pass_def)
  qed
  moreover note Token_pair [of n pw]
  ultimately show ?thesis using ok by (simp add: Server_Parse_def s mk_server_def)
qed

lemma Parse_tcp:
  assumes "server_ok s" and "\<not> srv_bUnixSocket s"
  shows "Server_Parse (Server_GetString True s) = s"
proof -
  obtain n p pw b where s: "s = Server n p pw b False" using assms(2) by (cases s) auto
  note ok = assms(1) [unfolded server_ok_def s server.sel]
  let ?port = "(if b then ''+'' else []) @ dec p"
  let ?tail = "?port @ (if pw = [] then [] else '' '' @ pw)"
  have g: "Server_GetString True s = n @ CHR '' '' # ?tail"
    by (simp add: s Server_GetString_def)
  have port: "?port \<noteq> []" "CHR '' '' \<notin> set ?port" "hd ?port \<noteq> CHR '' ''"
    using dec_no_blank [of p] hd_not_blank [of "dec p"] by (auto simp del: dec_no_blank)
  have tail: "?tail \<noteq> []" "hd ?tail \<noteq> CHR '' ''" using port by (cases b; simp)+
  have "plain_end ?tail"
    using ok dec_not_ws [of "last (dec p)" p] by (auto simp: plain_end_def)
  then have "Trim_n ws (Server_GetString True s) = Server_GetString True s"
    unfolding g using ok by (intro Trim_plain) (auto simp: plain_end_def hd_append)
  moreover have "TrimPrefix ''unix:'' (Server_GetString True s) = (False, Server_GetString True s)"
    using ok by (simp add: TrimPrefix_def s)
  moreover have "Token (Server_GetString True s) 0 False '' '' False = n"
    unfolding g using ok by (intro Token_first(1)) simp_all
  moreover have "Token (Server_GetString True s) (Suc k) r '' '' False = Token ?tail k r '' '' False" for k r
    unfolding g using ok tail by (intro Token_skip) simp_all
  then have "Token (Server_GetString True s) (Suc 0) False '' '' False = ?port"
    "Token (Server_GetString True s) (Suc (Suc 0)) True '' '' False = pw"
    using Token_pair [OF port(1,2), of pw] ok by (simp_all del: append_assoc)
  moreover have "TrimPrefix ''+'' ?port = (b, dec p)"
    using TrimPrefix_append [of "''+''" "dec p"] dec_hd_not_plus [of p] by (cases b) simp_all
  moreover have "ToUShort (dec p) = p" using ok by (intro ToUShort_dec) simp
  ultimately have "Server_Parse (Server_GetString True s) = mk_server n p pw b False"
    by (simp add: Server_Parse_def numeral_2_eq_2 del: append_assoc)
  then show ?thesis using ok by (simp add: s mk_server_def)
qed

lemma Parse_GetString: "server_ok s \<Longrightarrow> Server_Parse (Server_GetString True s) = s"
  using Parse_unix Parse_tcp by blast

end
