(* ===== verification/Config_Print.thy ===== *)
theory Config_Print imports Config begin

text \<open>
  The configuration file is read back as it was written: \<open>Config_Parse\<close> of the lines of
  \<open>Config_Write\<close> for every tree whose names and values fit the line format
  (\<open>config_printable\<close>).
\<close>

section \<open>Names and values that fit a line\<close>

definition one_line :: "string \<Rightarrow> bool" where
  "one_line s \<longleftrightarrow> nul_free s \<and> CHR 0x0D \<notin> set s \<and> CHR 0x0A \<notin> set s"

definition trimmed :: "string \<Rightarrow> bool" where
  "trimmed s \<longleftrightarrow> s \<noteq> [] \<and> hd s \<notin> set ws \<and> last s \<notin> set ws"

definition key_any :: "string \<Rightarrow> bool" where
  "key_any k \<longleftrightarrow> one_line k \<and> trimmed k \<and> CHR ''='' \<notin> set k \<and> hd k \<notin> {CHR ''#'', CHR ''/'', CHR ''<''}"

definition key_ok :: "string \<Rightarrow> bool" where
  "key_ok k \<longleftrightarrow> key_any k \<and> AsLower k = k"

definition value_ok :: "string \<Rightarrow> bool" where
  "value_ok v \<longleftrightarrow> one_line v \<and> v \<noteq> []"

definition tag_any :: "string \<Rightarrow> bool" where
  "tag_any t \<longleftrightarrow> one_line t \<and> trimmed t \<and> CHR '' '' \<notin> set t \<and> hd t \<noteq> CHR ''/''"

definition tagname_ok :: "string \<Rightarrow> bool" where
  "tagname_ok t \<longleftrightarrow> tag_any t \<and> AsLower t = t"

definition blockname_ok :: "string \<Rightarrow> bool" where
  "blockname_ok n \<longleftrightarrow> one_line n \<and> trimmed n"

definition names_set :: "(string \<times> config) list \<Rightarrow> string list" where
  "names_set l = fold os_insert (map fst l) []"

fun config_printable :: "config \<Rightarrow> bool" where
  "config_printable (Config es ss ns) \<longleftrightarrow>
     om_ok es \<and> om_ok ss \<and> ns = map (\<lambda>(t, l). (t, names_set l)) ss \<and>
     (\<forall>(k, vs) \<in> set es. key_ok k \<and> vs \<noteq> [] \<and> (\<forall>v \<in> set vs. value_ok v)) \<and>
     (\<forall>(t, l) \<in> set ss. tagname_ok t \<and> l \<noteq> [] \<and> distinct (map fst l) \<and>
        (\<forall>(n, c) \<in> set l. blockname_ok n \<and> config_printable c))"

section \<open>The lines the writer makes\<close>

lemma equals_ci_AsLower: "equals_ci s (AsLower s)"
  by (simp add: equals_ci_iff)


lemma filter_absent: "d \<notin> set s \<Longrightarrow> filter (\<lambda>c. c \<noteq> d) s = s"
  by (induction s) auto

lemma SingleLine_id:
  assumes "one_line s"
  shows "SingleLine s = s"
proof -
  have cat: "concat (map (\<lambda>c. if c = d then [] else [c]) s) = filter (\<lambda>c. c \<noteq> d) s" for d :: char
    by (induction s) auto
  show ?thesis
    using assms filter_absent [of "CHR 0x0D" s] filter_absent [of "CHR 0x0A" s]
    by (simp add: SingleLine_def one_line_def Replace_n_single cat)
qed

lemma one_line_append [simp]: "one_line (s @ t) \<longleftrightarrow> one_line s \<and> one_line t"
  by (auto simp: one_line_def)

lemma one_line_simps [simp]:
  "one_line []" "one_line (c # s) \<longleftrightarrow> c \<noteq> NUL \<and> c \<noteq> CHR 0x0D \<and> c \<noteq> CHR 0x0A \<and> one_line s"
  by (auto simp: one_line_def)

lemma one_line_indent [simp]: "one_line (indent n)"
  by (induction n) (simp_all add: indent_def)

lemma write_line_id [simp]: "one_line s \<Longrightarrow> write_line s = s @ [CHR 0x0A]"
  by (simp add: write_line_def SingleLine_id)

definition strip_line :: "string \<Rightarrow> string" where
  "strip_line s = TrimRight_n [CHR 0x0D, CHR 0x0A] (TrimLeft_n ws s)"

lemma ws_mem [simp]: "CHR 0x09 \<in> set ws" "CHR '' '' \<in> set ws" "CHR 0x0A \<in> set ws" "CHR 0x0D \<in> set ws"
  by (simp_all add: ws_def)

lemma strip_indented:
  assumes "one_line s" and "s \<noteq> []" and "hd s \<notin> set ws"
  shows "strip_line (indent n @ s @ [CHR 0x0A]) = s"
proof -
  have "dropWhile (\<lambda>c. c \<in> set ws) (indent n @ s @ [CHR 0x0A]) = s @ [CHR 0x0A]"
    using assms(2,3) by (induction n) (simp_all add: indent_def dropWhile_id)
  moreover have "last s \<noteq> CHR 0x0D" "last s \<noteq> CHR 0x0A"
    using assms(1) last_in_set [OF assms(2)] unfolding one_line_def by metis+
  then have "rdropWhile (\<lambda>c. c \<in> set [CHR 0x0D, CHR 0x0A]) (s @ [CHR 0x0A]) = s"
    by (subst rdropWhile_snoc) simp
  ultimately show ?thesis by (simp add: strip_line_def)
qed

lemma starts_ci_hd:
  assumes "starts_ci s (c # p)" and "c \<noteq> NUL"
  shows "s \<noteq> [] \<and> tolower_c (hd s) = tolower_c c"
  using assms by (cases s) (auto simp: StartsWith_def equals_ci_iff split: if_splits)

lemma tolower_marks [simp]:
  "tolower_c c = CHR ''/'' \<longleftrightarrow> c = CHR ''/''" "tolower_c c = CHR ''#'' \<longleftrightarrow> c = CHR ''#''"
  "tolower_c c = CHR ''<'' \<longleftrightarrow> c = CHR ''<''"
  using tolower_is_nonalpha [of "CHR ''/''" c] tolower_is_nonalpha [of "CHR ''#''" c]
    tolower_is_nonalpha [of "CHR ''<''" c]
  by (auto simp: ctype_simps byte_def)

lemma tolower_marks_id [simp]:
  "tolower_c (CHR ''/'') = CHR ''/''" "tolower_c (CHR ''#'') = CHR ''#''" "tolower_c (CHR ''<'') = CHR ''<''"
  by simp_all

lemma not_comment_start:
  assumes "s \<noteq> []" and "hd s \<noteq> CHR ''/''"
  shows "\<not> starts_ci s ''/*''" "\<not> starts_ci s ''//''"
  using assms starts_ci_hd [of s "CHR ''/''" "''*''"] starts_ci_hd [of s "CHR ''/''" "''/''"] by auto

lemma ends_ci_snoc [simp]: "c \<noteq> NUL \<Longrightarrow> ends_ci (s @ [c]) [c]"
  by (simp add: EndsWith_def)

section \<open>Lines and runs\<close>

definition runs :: "string list \<Rightarrow> parse_state \<Rightarrow> parse_state \<Rightarrow> bool" where
  "runs ls st st' \<longleftrightarrow> (\<forall>n. config_lines n ls st = (n + length ls, Inr st'))"

lemma runs_Nil [simp]: "runs [] st st' \<longleftrightarrow> st' = st"
  by (auto simp: runs_def)

lemma runs_append: "runs a st st' \<Longrightarrow> runs b st' st'' \<Longrightarrow> runs (a @ b) st st''"
proof -
  assume a: "runs a st st'" and b: "runs b st' st''"
  have "config_lines n a st = (m, Inr st') \<Longrightarrow> config_lines n (a @ b) st = config_lines m b st'" for n m
    by (induction n a st rule: config_lines.induct) (auto split: sum.splits)
  then show ?thesis using a b by (simp add: runs_def)
qed

lemma runs_single: "(\<And>n. config_line n l st = Inr st') \<Longrightarrow> runs [l] st st'"
  by (simp add: runs_def)

lemma runs_Cons: "(\<And>n. config_line n l st = Inr st') \<Longrightarrow> runs ls st' st'' \<Longrightarrow> runs (l # ls) st st''"
  using runs_append [OF runs_single] by fastforce

lemma active_set [simp]:
  "ps_active (set_active c st) = c" "set_active c (set_active d st) = set_active c st"
  "ps_commented (set_active c st) = ps_commented st"
  by (simp_all add: ps_active_def set_active_def split: list.split)

lemma set_active_id: "set_active (ps_active st) st = st"
  by (simp add: ps_active_def set_active_def split: list.split)

text \<open>An entry line pushes its value.\<close>

lemma Trim_n_trimmed: "trimmed s \<Longrightarrow> Trim_n ws s = s"
  by (rule Trim_n_id) (simp add: trimmed_def)

lemma Trim_n_trimmed_blank:
  assumes "trimmed s"
  shows "Trim_n ws (s @ '' '') = s"
proof -
  have "dropWhile (\<lambda>c. c \<in> set ws) (s @ '' '') = s @ '' ''"
    using assms by (intro dropWhile_id) (simp add: trimmed_def)
  moreover have "rdropWhile (\<lambda>c. c \<in> set ws) (s @ '' '') = s"
    using assms by (subst rdropWhile_snoc) (simp add: trimmed_def)
  ultimately show ?thesis by (simp add: Trim_n_eq)
qed

lemma Token_rest_single:
  assumes "d \<noteq> NUL" and "s = [] \<or> hd s \<noteq> d"
  shows "Token s 1 True [d] False = dropWhile (\<lambda>c. c = d) (dropWhile (\<lambda>c. c \<noteq> d) s)"
proof -
  have "skip_sep strncmp0 [d] s = s"
    unfolding skip_sep_strncmp [OF assms(1)] using assms(2) by (rule dropWhile_id)
  moreover have "token_start 1 [d] False s = dropWhile (\<lambda>c. c = d) (dropWhile (\<lambda>c. c \<noteq> d) s)"
    using token_start_single [OF assms(1), of 0 s] by (simp only: One_nat_def token_start_0)
  ultimately show ?thesis by (simp only: Token_def Let_def if_False if_True simp_thms split: if_split) (rule impI, erule sym)
qed

lemma dropWhile_stop: "d \<notin> set s \<Longrightarrow> dropWhile (\<lambda>c. c \<noteq> d) (s @ d # t) = d # t"
  by (induction s) auto

lemma entry_line:
  assumes k: "key_any k" and v: "value_ok v" and open_: "\<not> ps_commented st"
  shows "config_line n (write_line (indent i @ k @ '' = '' @ v)) st =
    Inr (set_active (Config (om_push (AsLower k) v (c_entries (ps_active st)))
           (c_subs (ps_active st)) (c_sets (ps_active st))) st)"
proof -
  let ?s = "k @ '' = '' @ v"
  note k' = k [unfolded key_any_def trimmed_def] and v' = v [unfolded value_ok_def]
  have s: "?s \<noteq> []" "hd ?s = hd k" "one_line ?s" using k' v' by auto
  have strip: "TrimRight_n [CHR 0x0D, CHR 0x0A] (TrimLeft_n ws (write_line (indent i @ ?s))) = ?s"
    using strip_indented [of ?s i] s k' by (simp add: strip_line_def)
  have plain: "\<not> starts_ci ?s ''/*''" "\<not> starts_ci ?s ''//''" "\<not> starts_ci ?s ''#''" "\<not> starts_ci ?s ''<''"
    using not_comment_start [of ?s] s k' by auto
  have "nonempty_fields (CHR ''='') (k @ CHR '' '' # CHR ''='' # '' '' @ v) =
      (k @ '' '') # nonempty_fields (CHR ''='') ('' '' @ v)"
    using k' fields_append [of "CHR ''=''" "k @ '' ''" "'' '' @ v"]
    by (simp add: nonempty_fields_def)
  then have name: "Token ?s 0 False ''='' False = k @ '' ''"
    using Token_nth_field [of "CHR ''=''" ?s 0] by simp
  have "dropWhile (\<lambda>c. c \<noteq> CHR ''='') ?s = CHR ''='' # '' '' @ v"
    using dropWhile_stop [of "CHR ''=''" "k @ '' ''" "'' '' @ v"] k' by simp
  moreover have "hd ?s \<noteq> CHR ''=''" using s(2) k' hd_in_set [of k] by metis
  ultimately have val: "Token ?s 1 True ''='' False = '' '' @ v"
    using Token_rest_single [of "CHR ''=''" ?s] by simp
  have "TrimPrefix_n '' '' ('' '' @ v) = v" by (simp add: TrimPrefix_n_def TrimPrefix_def)
  moreover have "Trim_n ws (k @ '' '') = k" using Trim_n_trimmed_blank [of k] k by (simp add: key_any_def)
  ultimately show ?thesis
    unfolding config_line_def strip using open_ plain s(1) name val k' v' by (simp add: Let_def)
qed

text \<open>The lines of a block.\<close>

lemma trimmed_single_word:
  assumes "CHR '' '' \<notin> set t" and "t \<noteq> []"
  shows "token t 0 = t" "token_rest t 1 = []"
proof -
  show "token t 0 = t"
    using assms by (simp add: Token_nth_field nonempty_fields_def fields_atom)
  have "dropWhile (\<lambda>c. c \<noteq> CHR '' '') t = []" using assms(1) by (induction t) auto
  moreover have "hd t \<noteq> CHR '' ''" using assms hd_in_set [of t] by metis
  ultimately show "token_rest t 1 = []" using Token_rest_single [of "CHR '' ''" t]
    by (simp del: dropWhile_eq_Nil_conv)
qed

lemma trimmed_two_words:
  assumes "CHR '' '' \<notin> set t" and "t \<noteq> []" and "n \<noteq> []" and "hd n \<noteq> CHR '' ''"
  shows "token (t @ '' '' @ n) 0 = t" "token_rest (t @ '' '' @ n) 1 = n"
proof -
  show "token (t @ '' '' @ n) 0 = t"
    using assms by (simp add: Token_nth_field nonempty_fields_def fields_append)
  have "dropWhile (\<lambda>c. c \<noteq> CHR '' '') (t @ '' '' @ n) = CHR '' '' # n"
    using dropWhile_stop [OF assms(1), of n] by simp
  moreover have "hd (t @ '' '' @ n) \<noteq> CHR '' ''" using assms hd_in_set [of t] by (metis hd_append)
  moreover have "dropWhile (\<lambda>c. c = CHR '' '') (CHR '' '' # n) = n"
    using assms(3,4) by (simp add: dropWhile_id)
  ultimately show "token_rest (t @ '' '' @ n) 1 = n"
    using Token_rest_single [of "CHR '' ''" "t @ '' '' @ n"] by simp
qed

lemma bracket_line:
  assumes "one_line s" and "trimmed s" and "\<not> ps_commented st"
  shows "config_line n (write_line (indent i @ ''<'' @ s @ ''>'')) st = config_tag_line n s st"
proof -
  let ?s = "''<'' @ s @ ''>''"
  have "strip_line (indent i @ ?s @ [CHR 0x0A]) = ?s"
    using assms(1) by (intro strip_indented) (simp_all add: ws_def)
  then have strip: "TrimRight_n [CHR 0x0D, CHR 0x0A] (TrimLeft_n ws (write_line (indent i @ ?s))) = ?s"
    using assms(1) by (simp add: strip_line_def)
  have plain: "\<not> starts_ci ?s ''/*''" "\<not> starts_ci ?s ''//''" "\<not> starts_ci ?s ''#''"
    using not_comment_start [of ?s] by auto
  have "Trim_n ws (RightChomp_n 1 (LeftChomp_n 1 ?s)) = s"
    using Trim_n_trimmed [OF assms(2)] by simp
  moreover have "starts_ci ?s ''<''" "ends_ci ?s ''>''"
    using ends_ci_snoc [of "CHR ''>''" "''<'' @ s"] by simp_all
  ultimately show ?thesis
    unfolding config_line_def strip using plain assms(3) by (simp add: Let_def)
qed

lemma open_line:
  assumes t: "tag_any t" and nm: "blockname_ok nm" and "\<not> ps_commented st"
  shows "config_line n (write_line (indent i @ ''<'' @ t @ '' '' @ nm @ ''>'')) st =
    Inr (st \<lparr>ps_stack := (AsLower t, nm, empty_config) # ps_stack st\<rparr>)"
proof -
  note t' = t [unfolded tag_any_def trimmed_def] and n' = nm [unfolded blockname_ok_def trimmed_def]
  have tr: "trimmed (t @ '' '' @ nm)" "one_line (t @ '' '' @ nm)"
    using t' n' by (simp_all add: trimmed_def)
  have "hd nm \<noteq> CHR '' ''" using n' ws_mem(2) by metis
  then have w: "token (t @ '' '' @ nm) 0 = t" "token_rest (t @ '' '' @ nm) 1 = nm"
    using trimmed_two_words [of t nm] t' n' by blast+
  have "Trim_n ws t = t" "Trim_n ws nm = nm"
    using t nm Trim_n_trimmed by (auto simp: tag_any_def blockname_ok_def)
  moreover have "TrimPrefix ''/'' t = (False, t)"
    using t' by (simp add: TrimPrefix_def)
  ultimately show ?thesis
    using bracket_line [OF tr(2,1) assms(3), of n i] w t' n'
    by (simp add: config_tag_line_def Let_def)
qed

lemma close_line:
  assumes t: "tag_any t" and "\<not> ps_commented st" and st: "ps_stack st = (AsLower t, nm, c) # rest"
    and fresh: "nm \<notin> set (om_at (c_sets (ps_active (st \<lparr>ps_stack := rest\<rparr>))) (AsLower t))"
  shows "config_line n (write_line (indent i @ ''</'' @ t @ ''>'')) st =
    Inr (set_active (snd (AddSubConfig (AsLower t) nm c (ps_active (st \<lparr>ps_stack := rest\<rparr>))))
           (st \<lparr>ps_stack := rest\<rparr>))"
proof -
  note t' = t [unfolded tag_any_def trimmed_def]
  let ?s = "''/'' @ t"
  have tr: "trimmed ?s" "one_line ?s" using t' by (simp_all add: trimmed_def ws_def)
  have w: "token ?s 0 = ?s" "token_rest ?s 1 = []"
    using trimmed_single_word [of ?s] t' by simp_all
  have "Trim_n ws ?s = ?s" by (rule Trim_n_trimmed [OF tr(1)])
  moreover have "Trim_n ws [] = []" by (simp add: Trim_n_eq)
  moreover have "TrimPrefix ''/'' ?s = (True, t)" by (simp add: TrimPrefix_def)
  moreover have "fst (AddSubConfig (AsLower t) nm c (ps_active (st \<lparr>ps_stack := rest\<rparr>)))"
    using fresh by (simp add: AddSubConfig_def)
  ultimately have "config_tag_line n ?s st =
      Inr (set_active (snd (AddSubConfig (AsLower t) nm c (ps_active (st \<lparr>ps_stack := rest\<rparr>))))
           (st \<lparr>ps_stack := rest\<rparr>))"
    using w st t' equals_ci_AsLower [of t] by (simp add: config_tag_line_def Let_def split_def)
  then show ?thesis using bracket_line [OF tr(2,1) assms(2), of n i] by simp
qed

lemma blank_line: "\<not> ps_commented st \<Longrightarrow> config_line n [CHR 0x0A] st = Inr st"
proof -
  have "TrimRight_n [CHR 0x0D, CHR 0x0A] (TrimLeft_n ws [CHR 0x0A]) = []" by (simp add: ws_def)
  moreover have "\<not> starts_ci [] ''/*''" using starts_ci_hd [of "[]" "CHR ''/''" "''*''"] by auto
  moreover assume "\<not> ps_commented st"
  ultimately show ?thesis unfolding config_line_def Let_def by (simp only: if_False if_True simp_thms)
qed

section \<open>The phases of a configuration\<close>

lemma om_insert_last:
  "om_ok (m @ [(k, v)]) \<Longrightarrow> om_insert k w (m @ [(k, x)]) = m @ [(k, w)]"
proof (induction m)
  case (Cons e m)
  then show ?case by (cases e) (auto simp: om_ok_def)
qed simp

lemma om_at_last:
  "om_ok (m @ [(k, v)]) \<Longrightarrow> om_at (m @ [(k, x)]) k = x \<and> om_at m k = []"
proof -
  assume "om_ok (m @ [(k, v)])"
  then have "k \<notin> fst ` set m" by (auto simp: om_ok_def sorted_wrt_append)
  then have "map_of m k = None" by (simp add: map_of_eq_None_iff)
  then show ?thesis by (simp add: om_at_def map_add_def)
qed

lemma om_push_new: "om_ok (m @ [(k, v)]) \<Longrightarrow> om_push k x m = m @ [(k, [x])]"
  using om_at_last [of m k v] by (simp add: om_push_def om_insert_snoc)

lemma om_push_last: "om_ok (m @ [(k, v)]) \<Longrightarrow> om_push k x (m @ [(k, xs)]) = m @ [(k, xs @ [x])]"
  using om_at_last [of m k v xs] by (simp add: om_push_def om_insert_last)

lemma om_ok_replace: "om_ok (m @ [(k, v)]) \<Longrightarrow> om_ok (m @ [(k, w)])"
  by (simp add: om_ok_def)

lemma om_ok_prefix: "om_ok (m @ e # n) \<Longrightarrow> om_ok (m @ [e])"
  by (auto simp: om_ok_def sorted_wrt_append)

text \<open>The values of one name, then all names.\<close>

lemma values_run:
  assumes "key_ok k" and "om_ok (pre @ [(k, x)])" and "\<forall>v \<in> set vs. value_ok v"
    and "\<not> ps_commented st" and "ps_active st = Config (pre @ [(k, zs)]) ss ns"
  shows "runs (map (\<lambda>v. write_line (indent i @ k @ '' = '' @ v)) vs) st
           (set_active (Config (pre @ [(k, zs @ vs)]) ss ns) st)"
  using assms(3-)
proof (induction vs arbitrary: st zs)
  case Nil
  then show ?case using set_active_id [of st] by simp
next
  case (Cons v vs)
  let ?st = "set_active (Config (pre @ [(k, zs @ [v])]) ss ns) st"
  have "config_line n (write_line (indent i @ k @ '' = '' @ v)) st = Inr ?st" for n
    using entry_line [of k v st n i] assms(1) Cons.prems om_push_last [OF assms(2), of v zs]
    by (simp add: key_ok_def)
  then show ?case
    using runs_Cons Cons.IH [of ?st "zs @ [v]"] Cons.prems by simp
qed

lemma name_run:
  assumes "key_ok k" and "om_ok (pre @ [(k, x)])" and "vs \<noteq> []" and "\<forall>v \<in> set vs. value_ok v"
    and "\<not> ps_commented st" and "ps_active st = Config pre ss ns"
  shows "runs (map (\<lambda>v. write_line (indent i @ k @ '' = '' @ v)) vs) st
           (set_active (Config (pre @ [(k, vs)]) ss ns) st)"
proof -
  obtain v us where vs: "vs = v # us" using assms(3) by (cases vs) auto
  let ?st = "set_active (Config (pre @ [(k, [v])]) ss ns) st"
  have "config_line n (write_line (indent i @ k @ '' = '' @ v)) st = Inr ?st" for n
    using entry_line [of k v st n i] assms(1,4-) om_push_new [OF assms(2), of v]
    by (simp add: vs key_ok_def)
  moreover have "runs (map (\<lambda>v. write_line (indent i @ k @ '' = '' @ v)) us) ?st
      (set_active (Config (pre @ [(k, [v] @ us)]) ss ns) ?st)"
    using values_run [OF assms(1,2), of us ?st "[v]" ss ns i] assms(4,5) by (simp add: vs)
  ultimately show ?thesis using runs_Cons by (simp add: vs)
qed

lemma entries_run:
  assumes "om_ok (pre @ es)" and "\<forall>(k, vs) \<in> set es. key_ok k \<and> vs \<noteq> [] \<and> (\<forall>v \<in> set vs. value_ok v)"
    and "\<not> ps_commented st" and "ps_active st = Config pre ss ns"
  shows "runs (concat (map (\<lambda>(k, vs). map (\<lambda>v. write_line (indent i @ k @ '' = '' @ v)) vs) es)) st
           (set_active (Config (pre @ es) ss ns) st)"
  using assms
proof (induction es arbitrary: pre st)
  case Nil
  then show ?case using set_active_id [of st] by simp
next
  case (Cons e es)
  obtain k vs where e: "e = (k, vs)" by (cases e)
  let ?st = "set_active (Config (pre @ [(k, vs)]) ss ns) st"
  have "runs (map (\<lambda>v. write_line (indent i @ k @ '' = '' @ v)) vs) st ?st"
    using name_run [of k pre vs vs st ss ns i] om_ok_prefix [of pre "(k, vs)" es] Cons.prems by (simp add: e)
  moreover have "runs (concat (map (\<lambda>(k, vs). map (\<lambda>v. write_line (indent i @ k @ '' = '' @ v)) vs) es)) ?st
      (set_active (Config ((pre @ [(k, vs)]) @ es) ss ns) ?st)"
    using Cons.IH [of "pre @ [(k, vs)]" ?st] Cons.prems by (simp add: e)
  ultimately show ?case using runs_append by (simp add: e)
qed

text \<open>One block, the blocks of one tag, all tags.\<close>

definition reads_as :: "nat \<Rightarrow> config \<Rightarrow> config \<Rightarrow> bool" where
  "reads_as i c d \<longleftrightarrow> (\<forall>st. \<not> ps_commented st \<longrightarrow> ps_active st = empty_config \<longrightarrow>
     runs (Config_Write i c) st (set_active d st))"

abbreviation reads_back :: "nat \<Rightarrow> config \<Rightarrow> bool" where
  "reads_back i c \<equiv> reads_as i c c"

definition block :: "nat \<Rightarrow> string \<Rightarrow> string \<times> config \<Rightarrow> string list" where
  "block i t e = [[CHR 0x0A], write_line (indent i @ ''<'' @ t @ '' '' @ fst e @ ''>'')] @
     Config_Write (Suc i) (snd e) @ [write_line (indent i @ ''</'' @ t @ ''>'')]"

lemma block_run:
  assumes t: "tag_any t" and nm: "blockname_ok nm" and open_: "\<not> ps_commented st"
    and c: "reads_as (Suc i) c d" and fresh: "nm \<notin> set (om_at (c_sets (ps_active st)) (AsLower t))"
  shows "runs (block i t (nm, c)) st (set_active (snd (AddSubConfig (AsLower t) nm d (ps_active st))) st)"
proof -
  let ?st1 = "st \<lparr>ps_stack := (AsLower t, nm, empty_config) # ps_stack st\<rparr>"
  let ?st2 = "st \<lparr>ps_stack := (AsLower t, nm, d) # ps_stack st\<rparr>"
  let ?close = "write_line (indent i @ ''</'' @ t @ ''>'')"
  have "runs (Config_Write (Suc i) c) ?st1 (set_active d ?st1)"
    using c open_ by (simp add: reads_as_def ps_active_def)
  then have body: "runs (Config_Write (Suc i) c) ?st1 ?st2" by (simp add: set_active_def)
  have restore: "?st2 \<lparr>ps_stack := ps_stack st\<rparr> = st" by simp
  have close: "config_line n ?close ?st2 =
      Inr (set_active (snd (AddSubConfig (AsLower t) nm d (ps_active st))) st)" for n
    using close_line [OF t, of ?st2 nm d "ps_stack st" n i] open_ fresh unfolding restore by simp
  have "runs (Config_Write (Suc i) c @ [?close]) ?st1
      (set_active (snd (AddSubConfig (AsLower t) nm d (ps_active st))) st)"
    by (rule runs_append [OF body runs_single]) (rule close)
  then show ?thesis
    unfolding block_def using runs_Cons [OF blank_line [OF open_] runs_Cons [OF open_line [OF t nm open_]]]
    by simp
qed

lemma set_names_set [simp]: "set (names_set l) = fst ` set l"
proof -
  have "set (fold os_insert xs acc) = set xs \<union> set acc" for xs acc :: "string list"
    by (induction xs arbitrary: acc) auto
  then show ?thesis by (simp add: names_set_def)
qed

lemma names_set_snoc: "names_set (l @ [(n, c)]) = os_insert n (names_set l)"
  by (simp add: names_set_def)

lemma om_ok_map_snd: "om_ok (map (\<lambda>(t, l). (t, f l)) m) = om_ok m"
  by (simp add: om_ok_def comp_def split_def)

definition sets_of :: "(string, (string \<times> config) list) omap \<Rightarrow> (string, string list) omap" where
  "sets_of ss = map (\<lambda>(t, l). (t, names_set l)) ss"

lemma sets_of_snoc [simp]: "sets_of (pre @ [(t, l)]) = sets_of pre @ [(t, names_set l)]"
  by (simp add: sets_of_def)

lemma om_ok_sets_of [simp]: "om_ok (sets_of ss) = om_ok ss"
  by (simp add: sets_of_def om_ok_map_snd)

lemma sub_new:
  assumes "om_ok (pre @ [(t, x)])"
  shows "AddSubConfig t nm c (Config es pre (sets_of pre)) =
    (True, Config es (pre @ [(t, [(nm, c)])]) (sets_of (pre @ [(t, [(nm, c)])])))"
proof -
  have "om_ok (sets_of pre @ [(t, names_set x)])" using assms om_ok_sets_of [of "pre @ [(t, x)]"] by simp
  from om_at_last [OF this] om_insert_snoc [OF this] om_push_new [OF assms] show ?thesis
    by (simp add: AddSubConfig_def Let_def names_set_def)
qed

lemma sub_last:
  assumes "om_ok (pre @ [(t, x)])" and "nm \<notin> fst ` set l"
  shows "AddSubConfig t nm c (Config es (pre @ [(t, l)]) (sets_of (pre @ [(t, l)]))) =
    (True, Config es (pre @ [(t, l @ [(nm, c)])]) (sets_of (pre @ [(t, l @ [(nm, c)])])))"
proof -
  have "om_ok (sets_of pre @ [(t, names_set x)])" using assms om_ok_sets_of [of "pre @ [(t, x)]"] by simp
  from om_at_last [OF this] om_insert_last [OF this] om_push_last [OF assms(1)] assms(2) show ?thesis
    by (simp add: AddSubConfig_def Let_def names_set_snoc)
qed

definition sub_printable :: "nat \<Rightarrow> string \<times> config \<Rightarrow> bool" where
  "sub_printable i e \<longleftrightarrow> blockname_ok (fst e) \<and> reads_back (Suc i) (snd e)"

lemma blocks_more_run:
  assumes "tagname_ok t" and "om_ok (pre @ [(t, x)])" and "distinct (map fst (done @ l))"
    and "\<forall>e \<in> set l. sub_printable i e" and "\<not> ps_commented st"
    and "ps_active st = Config es (pre @ [(t, done)]) (sets_of (pre @ [(t, done)]))"
  shows "runs (concat (map (block i t) l)) st
    (set_active (Config es (pre @ [(t, done @ l)]) (sets_of (pre @ [(t, done @ l)]))) st)"
  using assms(3-)
proof (induction l arbitrary: "done" st)
  case Nil
  then show ?case using set_active_id [of st] by simp
next
  case (Cons e l)
  obtain nm c where e: "e = (nm, c)" by (cases e)
  let ?c = "Config es (pre @ [(t, done @ [e])]) (sets_of (pre @ [(t, done @ [e])]))"
  have fresh: "nm \<notin> fst ` set done" using Cons.prems(1) by (auto simp: e)
  have "om_ok (sets_of pre @ [(t, names_set x)])"
    using assms(2) om_ok_sets_of [of "pre @ [(t, x)]"] by simp
  then have "nm \<notin> set (om_at (c_sets (ps_active st)) t)"
    using om_at_last fresh Cons.prems(4) by fastforce
  then have "runs (block i t e) st (set_active ?c st)"
    using block_run [of t nm st i c c] assms(1) Cons.prems sub_last [OF assms(2) fresh, of c es]
    by (simp add: e sub_printable_def tagname_ok_def)
  moreover have "runs (concat (map (block i t) l)) (set_active ?c st)
      (set_active (Config es (pre @ [(t, (done @ [e]) @ l)]) (sets_of (pre @ [(t, (done @ [e]) @ l)])))
        (set_active ?c st))"
    by (rule Cons.IH) (use Cons.prems in simp_all)
  ultimately show ?case using runs_append by simp
qed

lemma blocks_run:
  assumes "tagname_ok t" and "om_ok (pre @ [(t, x)])" and "distinct (map fst l)" and "l \<noteq> []"
    and "\<forall>e \<in> set l. sub_printable i e" and "\<not> ps_commented st"
    and "ps_active st = Config es pre (sets_of pre)"
  shows "runs (concat (map (block i t) l)) st
    (set_active (Config es (pre @ [(t, l)]) (sets_of (pre @ [(t, l)]))) st)"
proof -
  obtain nm c l' where l: "l = (nm, c) # l'" using assms(4) by (cases l) auto
  let ?c = "Config es (pre @ [(t, [(nm, c)])]) (sets_of (pre @ [(t, [(nm, c)])]))"
  have "om_ok (sets_of pre @ [(t, names_set x)])"
    using assms(2) om_ok_sets_of [of "pre @ [(t, x)]"] by simp
  then have "om_at (sets_of pre) t = []" using om_at_last by blast
  then have "runs (block i t (nm, c)) st (set_active ?c st)"
    using block_run [of t nm st i c c] assms(1,5-) sub_new [OF assms(2), of nm c es]
    by (simp add: l sub_printable_def tagname_ok_def)
  moreover have "runs (concat (map (block i t) l')) (set_active ?c st)
      (set_active (Config es (pre @ [(t, [(nm, c)] @ l')]) (sets_of (pre @ [(t, [(nm, c)] @ l')])))
        (set_active ?c st))"
    by (rule blocks_more_run [OF assms(1,2)]) (use assms(3-) in \<open>simp_all add: l\<close>)
  ultimately show ?thesis using runs_append by (simp add: l)
qed

lemma subs_run:
  assumes "om_ok (pre @ ss)"
    and "\<forall>(t, l) \<in> set ss. tagname_ok t \<and> l \<noteq> [] \<and> distinct (map fst l) \<and> (\<forall>e \<in> set l. sub_printable i e)"
    and "\<not> ps_commented st" and "ps_active st = Config es pre (sets_of pre)"
  shows "runs (concat (map (\<lambda>(t, l). concat (map (block i t) l)) ss)) st
    (set_active (Config es (pre @ ss) (sets_of (pre @ ss))) st)"
  using assms
proof (induction ss arbitrary: pre st)
  case Nil
  then show ?case using set_active_id [of st] by simp
next
  case (Cons e ss)
  obtain t l where e: "e = (t, l)" by (cases e)
  let ?st = "set_active (Config es (pre @ [(t, l)]) (sets_of (pre @ [(t, l)]))) st"
  have "runs (concat (map (block i t) l)) st ?st"
    by (rule blocks_run [of t pre l]) (use Cons.prems om_ok_prefix [of pre e ss] in \<open>simp_all add: e\<close>)
  moreover have "runs (concat (map (\<lambda>(t, l). concat (map (block i t) l)) ss)) ?st
      (set_active (Config es ((pre @ [(t, l)]) @ ss) (sets_of ((pre @ [(t, l)]) @ ss))) ?st)"
    by (rule Cons.IH) (use Cons.prems in \<open>simp_all add: e\<close>)
  ultimately show ?case using runs_append by (simp add: e)
qed

lemma Config_Write_blocks:
  "Config_Write i (Config es ss ns) =
     concat (map (\<lambda>(k, vs). map (\<lambda>v. write_line (indent i @ k @ '' = '' @ v)) vs) es) @
     concat (map (\<lambda>(t, l). concat (map (block i t) l)) ss)"
proof -
  have "block i t = (\<lambda>(n, c). [[CHR 0x0A], write_line (indent i @ ''<'' @ t @ '' '' @ n @ ''>'')] @
        Config_Write (Suc i) c @ [write_line (indent i @ ''</'' @ t @ ''>'')])" for t
    by (simp add: fun_eq_iff block_def split_def)
  then show ?thesis by (simp only: Config_Write.simps)
qed

lemma reads_back_printable: "config_printable c \<Longrightarrow> reads_back i c"
proof (induction i c rule: Config_Write.induct)
  case (1 i es ss ns)
  note p = "1.prems" [simplified]
  have subs: "\<forall>(t, l) \<in> set ss. tagname_ok t \<and> l \<noteq> [] \<and> distinct (map fst l) \<and>
      (\<forall>e \<in> set l. sub_printable i e)"
  proof (rule ballI)
    fix u
    assume u: "u \<in> set ss"
    obtain t l where tl: "u = (t, l)" by (cases u)
    have l: "tagname_ok t \<and> l \<noteq> [] \<and> distinct (map fst l) \<and>
        (\<forall>(n, c) \<in> set l. blockname_ok n \<and> config_printable c)"
      using p u by (auto simp: tl)
    have "sub_printable i e" if e: "e \<in> set l" for e
    proof -
      have "blockname_ok (fst e) \<and> config_printable (snd e)" using l e by (auto simp: split_def)
      then show ?thesis
        using "1.IH" [OF u tl [symmetric] e, of "fst e" "snd e"] by (simp add: sub_printable_def)
    qed
    with l show "case u of (t, l) \<Rightarrow> tagname_ok t \<and> l \<noteq> [] \<and> distinct (map fst l) \<and>
        (\<forall>e \<in> set l. sub_printable i e)"
      by (simp add: tl)
  qed
  have ns: "ns = sets_of ss" using p by (simp add: sets_of_def)
  show ?case
    unfolding reads_as_def
  proof (intro allI impI)
    fix st
    assume open_: "\<not> ps_commented st" and act: "ps_active st = empty_config"
    let ?st = "set_active (Config es [] []) st"
    have "runs (concat (map (\<lambda>(k, vs). map (\<lambda>v. write_line (indent i @ k @ '' = '' @ v)) vs) es)) st ?st"
      using entries_run [of "[]" es st "[]" "[]" i] p open_ act by (simp add: empty_config_def)
    moreover have "runs (concat (map (\<lambda>(t, l). concat (map (block i t) l)) ss)) ?st
        (set_active (Config es ss (sets_of ss)) ?st)"
      using subs_run [of "[]" ss i ?st es] p subs open_ by (simp add: sets_of_def)
    ultimately show "runs (Config_Write i (Config es ss ns)) st (set_active (Config es ss ns) st)"
      unfolding Config_Write_blocks ns using runs_append by simp
  qed
qed

section \<open>Names in any case\<close>

text \<open>
  The program writes its names in mixed case; the parser files them in lower case. What is read
  back is the tree with lower-case names.
\<close>

definition push_entry :: "string \<Rightarrow> string \<Rightarrow> config \<Rightarrow> config" where
  "push_entry k v c = Config (om_push (AsLower k) v (c_entries c)) (c_subs c) (c_sets c)"

definition lower_entries :: "(string, string list) omap \<Rightarrow> config \<Rightarrow> config" where
  "lower_entries es = fold (\<lambda>(k, vs). fold (push_entry k) vs) es"

fun lower_config :: "config \<Rightarrow> config" where
  "lower_config (Config es ss ns) =
     fold (\<lambda>(t, l). fold (\<lambda>(n, d) c. snd (AddSubConfig (AsLower t) n d c)) l)
       (map (\<lambda>(t, l). (t, map (\<lambda>(n, d). (n, lower_config d)) l)) ss) (lower_entries es empty_config)"

fun config_writable :: "config \<Rightarrow> bool" where
  "config_writable (Config es ss ns) \<longleftrightarrow>
     (\<forall>(k, vs) \<in> set es. key_any k \<and> (\<forall>v \<in> set vs. value_ok v)) \<and> distinct (map (\<lambda>e. AsLower (fst e)) ss) \<and>
     (\<forall>(t, l) \<in> set ss. tag_any t \<and> distinct (map fst l) \<and> (\<forall>(n, c) \<in> set l. blockname_ok n \<and> config_writable c))"

lemma runs_fold:
  assumes "\<And>x st. x \<in> set xs \<Longrightarrow> \<not> ps_commented st \<Longrightarrow> I st \<Longrightarrow> runs (f x) st (set_active (g x (ps_active st)) st)"
    and "\<And>x st. x \<in> set xs \<Longrightarrow> I st \<Longrightarrow> I (set_active (g x (ps_active st)) st)"
    and "\<not> ps_commented st" and "I st"
  shows "runs (concat (map f xs)) st (set_active (fold g xs (ps_active st)) st)"
  using assms
proof (induction xs arbitrary: st)
  case Nil
  then show ?case by (simp add: set_active_id)
next
  case (Cons x xs)
  let ?st = "set_active (g x (ps_active st)) st"
  have "runs (f x) st ?st" by (rule Cons.prems(1)) (use Cons.prems(3,4) in simp_all)
  moreover have "runs (concat (map f xs)) ?st (set_active (fold g xs (ps_active ?st)) ?st)"
    by (rule Cons.IH) (use Cons.prems in simp_all)
  ultimately show ?case using runs_append by simp
qed

lemma entries_run_any:
  assumes "\<forall>(k, vs) \<in> set es. key_any k \<and> (\<forall>v \<in> set vs. value_ok v)" and "\<not> ps_commented st"
  shows "runs (concat (map (\<lambda>(k, vs). map (\<lambda>v. write_line (indent i @ k @ '' = '' @ v)) vs) es)) st
    (set_active (lower_entries es (ps_active st)) st)"
proof -
  have one: "runs (map (\<lambda>v. write_line (indent i @ k @ '' = '' @ v)) vs) st (set_active (fold (push_entry k) vs (ps_active st)) st)"
    if "key_any k" "\<forall>v \<in> set vs. value_ok v" "\<not> ps_commented st" for k vs st
    using runs_fold [where I = "\<lambda>_. True" and xs = vs and f = "\<lambda>v. [write_line (indent i @ k @ '' = '' @ v)]"
        and g = "push_entry k" and st = st] entry_line that
    by (simp add: runs_single push_entry_def)
  show ?thesis
    unfolding lower_entries_def using assms one
    by (intro runs_fold [where I = "\<lambda>_. True"]) (auto simp: split_beta)
qed

lemma om_at_AddSubConfig:
  "om_at (c_sets (snd (AddSubConfig t n d c))) u = (if u = t then os_insert n (om_at (c_sets c) t) else om_at (c_sets c) u)"
  by (simp add: AddSubConfig_def Let_def os_insert_def)

definition lower_blocks :: "string \<Rightarrow> (string \<times> config) list \<Rightarrow> config \<Rightarrow> config" where
  "lower_blocks t = fold (\<lambda>e c. snd (AddSubConfig (AsLower t) (fst e) (lower_config (snd e)) c))"

lemma lower_blocks_simps [simp]:
  "lower_blocks t [] c = c"
  "lower_blocks t (e # l) c = lower_blocks t l (snd (AddSubConfig (AsLower t) (fst e) (lower_config (snd e)) c))"
  by (simp_all add: lower_blocks_def)

lemma om_at_lower_blocks: "u \<noteq> AsLower t \<Longrightarrow> om_at (c_sets (lower_blocks t l c)) u = om_at (c_sets c) u"
  by (induction l arbitrary: c) (simp_all add: om_at_AddSubConfig)

lemma blocks_run_any:
  assumes "tag_any t" and "distinct (map fst l)" and "\<forall>(n, c) \<in> set l. blockname_ok n \<and> reads_as (Suc i) c (lower_config c)"
    and "\<not> ps_commented st" and "fst ` set l \<inter> set (om_at (c_sets (ps_active st)) (AsLower t)) = {}"
  shows "runs (concat (map (block i t) l)) st (set_active (lower_blocks t l (ps_active st)) st)"
  using assms(2-)
proof (induction l arbitrary: st)
  case Nil
  then show ?case by (simp add: set_active_id)
next
  case (Cons e l)
  obtain n c where e: "e = (n, c)" by (cases e)
  let ?st = "set_active (snd (AddSubConfig (AsLower t) n (lower_config c) (ps_active st))) st"
  have "runs (block i t (n, c)) st ?st"
    by (rule block_run [OF assms(1)]) (use Cons.prems e in auto)
  moreover have "runs (concat (map (block i t) l)) ?st (set_active (lower_blocks t l (ps_active ?st)) ?st)"
    by (rule Cons.IH) (use Cons.prems e in \<open>auto simp: om_at_AddSubConfig\<close>)
  ultimately show ?case using runs_append by (simp add: e)
qed

definition lower_subs :: "(string \<times> (string \<times> config) list) list \<Rightarrow> config \<Rightarrow> config" where
  "lower_subs = fold (\<lambda>e. lower_blocks (fst e) (snd e))"

lemma subs_run_any:
  assumes "distinct (map (\<lambda>e. AsLower (fst e)) ss)"
    and "\<forall>(t, l) \<in> set ss. tag_any t \<and> distinct (map fst l) \<and>
      (\<forall>(n, c) \<in> set l. blockname_ok n \<and> reads_as (Suc i) c (lower_config c))"
    and "\<not> ps_commented st" and "\<forall>(t, l) \<in> set ss. om_at (c_sets (ps_active st)) (AsLower t) = []"
  shows "runs (concat (map (\<lambda>(t, l). concat (map (block i t) l)) ss)) st (set_active (lower_subs ss (ps_active st)) st)"
  using assms
proof (induction ss arbitrary: st)
  case Nil
  then show ?case by (simp add: set_active_id lower_subs_def)
next
  case (Cons e ss)
  obtain t l where e: "e = (t, l)" by (cases e)
  let ?st = "set_active (lower_blocks t l (ps_active st)) st"
  have "runs (concat (map (block i t) l)) st ?st"
    by (rule blocks_run_any) (use Cons.prems e in auto)
  moreover have "runs (concat (map (\<lambda>(t, l). concat (map (block i t) l)) ss)) ?st (set_active (lower_subs ss (ps_active ?st)) ?st)"
  proof (rule Cons.IH)
    show "\<forall>(t, l) \<in> set ss. om_at (c_sets (ps_active ?st)) (AsLower t) = []"
    proof (rule ballI)
      fix x
      assume x: "x \<in> set ss"
      then have "AsLower (fst x) \<noteq> AsLower t" using Cons.prems(1) e by force
      then show "case x of (u, l) \<Rightarrow> om_at (c_sets (ps_active ?st)) (AsLower u) = []"
        using Cons.prems(4) x by (auto simp: om_at_lower_blocks)
    qed
  qed (use Cons.prems in auto)
  ultimately show ?case using runs_append by (simp add: e lower_subs_def)
qed

lemma lower_config_eq: "lower_config (Config es ss ns) = lower_subs ss (lower_entries es empty_config)"
  by (simp add: lower_subs_def lower_blocks_def fold_map comp_def split_beta)

lemma c_sets_lower_entries: "c_sets (lower_entries es c) = c_sets c"
proof -
  have "c_sets (fold (push_entry k) vs c) = c_sets c" for k vs c
    by (induction vs arbitrary: c) (simp_all add: push_entry_def)
  then show ?thesis unfolding lower_entries_def by (induction es arbitrary: c) (simp_all add: split_beta)
qed

lemma reads_as_lower: "config_writable c \<Longrightarrow> reads_as i c (lower_config c)"
proof (induction i c rule: Config_Write.induct)
  case (1 i es ss ns)
  note p = "1.prems" [simplified]
  have subs: "\<forall>(t, l) \<in> set ss. tag_any t \<and> distinct (map fst l) \<and>
      (\<forall>(n, c) \<in> set l. blockname_ok n \<and> reads_as (Suc i) c (lower_config c))"
    using p "1.IH" by (fastforce simp: split_beta)
  show ?case
    unfolding reads_as_def
  proof (intro allI impI)
    fix st
    assume open_: "\<not> ps_commented st" and act: "ps_active st = empty_config"
    let ?st = "set_active (lower_entries es empty_config) st"
    have "runs (concat (map (\<lambda>(k, vs). map (\<lambda>v. write_line (indent i @ k @ '' = '' @ v)) vs) es)) st ?st"
      using entries_run_any [of es st i] p open_ act by simp
    moreover have "runs (concat (map (\<lambda>(t, l). concat (map (block i t) l)) ss)) ?st
        (set_active (lower_subs ss (ps_active ?st)) ?st)"
      by (rule subs_run_any) (use p subs open_ in \<open>auto simp: c_sets_lower_entries empty_config_def\<close>)
    ultimately show "runs (Config_Write i (Config es ss ns)) st (set_active (lower_config (Config es ss ns)) st)"
      unfolding Config_Write_blocks lower_config_eq using runs_append by simp
  qed
qed

section \<open>The file\<close>

lemma lines_of_concat:
  assumes "\<forall>l \<in> set ls. \<exists>b. l = b @ [CHR 0x0A] \<and> CHR 0x0A \<notin> set b"
  shows "lines_of (concat ls) = ls"
  using assms
proof (induction ls)
  case (Cons l ls)
  then obtain b where "l = b @ [CHR 0x0A]" "CHR 0x0A \<notin> set b" by auto
  with Cons lines_of_line [of b "concat ls"] show ?case by simp
qed simp

lemma SingleLine_no_newline: "CHR 0x0A \<notin> set (SingleLine s)"
proof -
  have "CHR 0x0A \<notin> set (snd (replace_loop [CHR 0x0A] [] [] [] False p out False n))"
    if "CHR 0x0A \<notin> set out" for p out n
    using that
  proof (induction "[CHR 0x0A]" "[] :: string" "[] :: string" "[] :: string" False p out False n
      rule: replace_loop.induct)
    case (1 p out n)
    then show ?case by (subst replace_loop.simps) (auto split: if_splits)
  qed
  then show ?thesis by (simp add: SingleLine_def Replace_n_def)
qed

lemma Config_Write_lines:
  "l \<in> set (Config_Write i c) \<Longrightarrow> \<exists>b. l = b @ [CHR 0x0A] \<and> CHR 0x0A \<notin> set b"
proof (induction i c arbitrary: l rule: Config_Write.induct)
  case (1 i es ss ns)
  have "\<exists>b. write_line s = b @ [CHR 0x0A] \<and> CHR 0x0A \<notin> set b" for s
    using SingleLine_no_newline [of s] by (auto simp: write_line_def)
  moreover have "\<exists>b. [CHR 0x0A] = b @ [CHR 0x0A] \<and> CHR 0x0A \<notin> set b" by simp
  ultimately show ?case using "1.prems" "1.IH" by (auto simp del: append_assoc) 
qed

lemma Config_Parse_reads:
  assumes "reads_as 0 c d" and "[] \<notin> set chunks" and "concat chunks = concat (Config_Write 0 c)"
  shows "Config_Parse (open_file chunks) empty_config = Inr d"
proof -
  let ?st = "\<lparr>ps_root = empty_config, ps_stack = [], ps_commented = False\<rparr>"
  have "read_all (open_file chunks) = Config_Write 0 c"
    using read_all_open [OF assms(2)] lines_of_concat Config_Write_lines by (simp add: assms(3))
  moreover have "runs (Config_Write 0 c) ?st (set_active d ?st)"
    using assms(1) by (simp add: reads_as_def ps_active_def)
  then have "config_lines 0 (Config_Write 0 c) ?st =
      (length (Config_Write 0 c), Inr \<lparr>ps_root = d, ps_stack = [], ps_commented = False\<rparr>)"
    by (simp add: runs_def set_active_def)
  ultimately show ?thesis by (simp add: Config_Parse_def)
qed

lemmas Config_Parse_Write = Config_Parse_reads [OF reads_as_lower]

lemma Config_Parse_Write_lower: "config_printable c \<Longrightarrow> [] \<notin> set chunks \<Longrightarrow>
    concat chunks = concat (Config_Write 0 c) \<Longrightarrow> Config_Parse (open_file chunks) empty_config = Inr c"
  by (rule Config_Parse_reads [OF reads_back_printable])

end
