(* ===== verification/Network.thy ===== *)
theory Network imports Chan_Clients Server Wildcmp Config_Print begin

text \<open>
  CIRCNetwork (src/IRCNetwork.cpp): the channels, queries, servers, clients and buffers of a
  network and their operations. A pointer to a channel or query is its position in the
  vector. The socket, where an operation asks it something, is an optional argument (a null
  pointer is None); operations that write to the server or to the clients return the lines.
  The random start of JoinChans, the order in which a std::set of pointers is traversed and
  the answers of the module hooks are arguments. Not here: the modules of a network, the
  timers and the connection queue.
\<close>

record network =
  net_sName :: string
  net_sNick :: string
  net_sAltNick :: string
  net_sIdent :: string
  net_sRealName :: string
  net_sBindHost :: string
  net_sQuitMsg :: string
  m_vChans :: "chan list"
  m_vQueries :: "query list"
  m_sChanPrefixes :: string
  m_vClients :: "client list"
  m_vServers :: "server list"
  m_uServerIdx :: nat
  m_sIRCServer :: string
  m_IRCNick :: nick
  m_bIRCAway :: bool
  m_RawBuffer :: buffer
  m_MotdBuffer :: buffer
  m_NoticeBuffer :: buffer
  m_uJoinDelay :: nat

definition mk_network :: "string \<Rightarrow> network" where
  "mk_network sName =
     \<lparr>net_sName = sName, net_sNick = [], net_sAltNick = [], net_sIdent = [], net_sRealName = [],
      net_sBindHost = [], net_sQuitMsg = [], m_vChans = [], m_vQueries = [], m_sChanPrefixes = [],
      m_vClients = [], m_vServers = [], m_uServerIdx = 0, m_sIRCServer = [], m_IRCNick = empty_nick,
      m_bIRCAway = False, m_RawBuffer = empty_buffer 100, m_MotdBuffer = empty_buffer 200,
      m_NoticeBuffer = empty_buffer 250, m_uJoinDelay = 0\<rparr>"

definition IsValidNetwork :: "string \<Rightarrow> bool" where
  "IsValidNetwork sNetwork \<longleftrightarrow> sNetwork \<noteq> [] \<and>
     list_all (\<lambda>c. c = CHR ''_'' \<or> c = CHR ''-'' \<or> isalnum_c c) (c_str sNetwork)"

definition Network_SetName :: "string \<Rightarrow> network \<Rightarrow> bool \<times> network" where
  "Network_SetName sName n = (if IsValidNetwork sName then (True, n \<lparr>net_sName := sName\<rparr>) else (False, n))"

text \<open>
  The settings nick, alternative nick, ident, real name, bind host and quit message: an empty
  value stands for the one of the user, and a value equal to the user's is stored as empty.
\<close>

definition inherited_get :: "string \<Rightarrow> string \<Rightarrow> string" where
  "inherited_get sUser sOwn = (if sOwn = [] then sUser else sOwn)"

definition inherited_set :: "string \<Rightarrow> string \<Rightarrow> string" where
  "inherited_set sUser s = (if equals_ci sUser s then [] else s)"

definition IsUserOnline :: "network \<Rightarrow> bool" where
  "IsUserOnline n \<longleftrightarrow> (\<exists>cl \<in> set (m_vClients n). \<not> cl_IsAway cl)"

definition IsUserAttached :: "network \<Rightarrow> bool" where
  "IsUserAttached n \<longleftrightarrow> m_vClients n \<noteq> []"

definition GetCurNick :: "ircsock option \<Rightarrow> network \<Rightarrow> string" where
  "GetCurNick so n =
     (case so of Some sock \<Rightarrow> m_sNick (sock_Nick sock)
      | None \<Rightarrow> (case m_vClients n of cl # _ \<Rightarrow> cl_sNick cl | [] \<Rightarrow> []))"

definition SetIRCNick :: "nick \<Rightarrow> network \<Rightarrow> network" where
  "SetIRCNick k n =
     n \<lparr>m_IRCNick := k, m_vClients := map (\<lambda>cl. cl \<lparr>cl_sNick := m_sNick k\<rparr>) (m_vClients n)\<rparr>"

definition network_view :: "ircsock option \<Rightarrow> network \<Rightarrow> net_view" where
  "network_view so n =
     \<lparr>nv_IRCNick = m_IRCNick n, nv_IRCServer = m_sIRCServer n,
      nv_perms = (case so of Some sock \<Rightarrow> m_sPerms sock | None \<Rightarrow> default_perms),
      nv_clients = m_vClients n\<rparr>"

text \<open>ExpandString, with the expansion of the user as an argument.\<close>

definition Network_ExpandString ::
    "(string \<Rightarrow> string) \<Rightarrow> (string \<Rightarrow> string) \<Rightarrow> ircsock option \<Rightarrow> network \<Rightarrow> string \<Rightarrow> string" where
  "Network_ExpandString user_expand user so n sStr =
     user_expand (fold (\<lambda>(k, v) s. Replace_n s k v)
       [(''%altnick%'', inherited_get (user ''altnick'') (net_sAltNick n)),
        (''%bindhost%'', inherited_get (user ''bindhost'') (net_sBindHost n)),
        (''%defnick%'', inherited_get (user ''nick'') (net_sNick n)),
        (''%ident%'', inherited_get (user ''ident'') (net_sIdent n)),
        (''%network%'', net_sName n),
        (''%nick%'', GetCurNick so n),
        (''%realname%'', inherited_get (user ''realname'') (net_sRealName n))] sStr)"

section \<open>Channels\<close>

fun find_idx :: "('a \<Rightarrow> bool) \<Rightarrow> 'a list \<Rightarrow> nat option" where
  "find_idx P [] = None"
| "find_idx P (x # xs) = (if P x then Some 0 else map_option Suc (find_idx P xs))"

definition named :: "string \<Rightarrow> chan \<Rightarrow> bool" where
  "named sName c = equals_ci sName (m_sName c)"

definition FindChan :: "ircsock option \<Rightarrow> string \<Rightarrow> network \<Rightarrow> nat option" where
  "FindChan so sName n =
     (let s = (case so of Some sock \<Rightarrow> snd (TrimLeft (GetISupport sock ''STATUSMSG'' []) sName)
               | None \<Rightarrow> sName)
      in find_idx (named s) (m_vChans n))"

definition FindChans :: "string \<Rightarrow> network \<Rightarrow> chan list" where
  "FindChans sWild n = filter (\<lambda>c. WildCmp (AsLower sWild) (AsLower (m_sName c)) CaseSensitive) (m_vChans n)"

definition upd_chan :: "nat \<Rightarrow> (chan \<Rightarrow> chan) \<Rightarrow> network \<Rightarrow> network" where
  "upd_chan i f n = n \<lparr>m_vChans := (m_vChans n)[i := f (m_vChans n ! i)]\<rparr>"

definition IsChan :: "network \<Rightarrow> string \<Rightarrow> bool" where
  "IsChan n sChan =
     (if sChan = [] then False else if m_sChanPrefixes n = [] then True
      else hd sChan \<in> set (m_sChanPrefixes n))"

definition AddChan_ptr :: "chan \<Rightarrow> network \<Rightarrow> bool \<times> network" where
  "AddChan_ptr c n =
     (if \<exists>each \<in> set (m_vChans n). equals_ci (m_sName each) (m_sName c) then (False, n)
      else (True, n \<lparr>m_vChans := m_vChans n @ [c]\<rparr>))"

definition AddChan :: "ircsock option \<Rightarrow> user \<Rightarrow> string \<Rightarrow> bool \<Rightarrow> network \<Rightarrow> bool \<times> network" where
  "AddChan so U sName bInConfig n =
     (if sName = [] \<or> FindChan so sName n \<noteq> None then (False, n)
      else (True, n \<lparr>m_vChans := m_vChans n @ [mk_chan U (IsUserOnline n) (IsChan n) sName bInConfig None]\<rparr>))"

definition DelChan :: "string \<Rightarrow> network \<Rightarrow> bool \<times> network" where
  "DelChan sName n =
     (case find_idx (named sName) (m_vChans n) of
        None \<Rightarrow> (False, n)
      | Some i \<Rightarrow> (True, n \<lparr>m_vChans := take i (m_vChans n) @ drop (Suc i) (m_vChans n)\<rparr>))"

definition MoveChan :: "string \<Rightarrow> nat \<Rightarrow> network \<Rightarrow> string + network" where
  "MoveChan sChan uIndex n =
     (if uIndex \<ge> length (m_vChans n) then Inl ''Invalid index''
      else (case find_idx (named sChan) (m_vChans n) of
              None \<Rightarrow> Inl (''You are not on '' @ sChan)
            | Some i \<Rightarrow>
                (let rest = take i (m_vChans n) @ drop (Suc i) (m_vChans n)
                 in Inr (n \<lparr>m_vChans := take uIndex rest @ (m_vChans n ! i) # drop uIndex rest\<rparr>))))"

definition SwapChans :: "string \<Rightarrow> string \<Rightarrow> network \<Rightarrow> string + network" where
  "SwapChans sChan1 sChan2 n =
     (let vs = m_vChans n in
      case find_idx (named sChan1) vs of
        None \<Rightarrow> Inl (''You are not on '' @ sChan1)
      | Some i \<Rightarrow>
          (case find_idx (named sChan2) vs of
             None \<Rightarrow> Inl (''You are not on '' @ sChan2)
           | Some j \<Rightarrow> Inr (n \<lparr>m_vChans := vs[i := vs ! j, j := vs ! i]\<rparr>)))"

section \<open>Joining\<close>

record join_env =
  OnJoining :: "chan \<Rightarrow> bool"
  OnTimerAutoJoin :: "chan \<Rightarrow> bool"
  j_start :: nat
  j_set_order :: "nat list \<Rightarrow> nat list"

text \<open>
  May the channel be joined now? A channel that was tried too often is disabled.
\<close>

definition JoinChan :: "join_env \<Rightarrow> user \<Rightarrow> chan \<Rightarrow> bool \<times> client_out list \<times> chan" where
  "JoinChan J U c =
     (if OnJoining J c then (False, [], c)
      else if u_JoinTries U \<noteq> 0 \<and> m_uJoinTries c \<ge> u_JoinTries U
      then (False, [PutStatus (''The channel '' @ m_sName c @ '' could not be joined, disabling it.'')], Disable c)
      else (let c1 = IncJoinTries c in (\<not> OnTimerAutoJoin J c1, [], c1)))"

text \<open>The channels to join among the given positions, at most uJoins of them if that is not 0.\<close>

fun join_pick ::
    "join_env \<Rightarrow> user \<Rightarrow> nat list \<Rightarrow> nat \<Rightarrow> network \<Rightarrow> nat list \<times> client_out list \<times> network" where
  "join_pick J U [] uJoins n = ([], [], n)"
| "join_pick J U (idx # is) uJoins n =
     (let c = m_vChans n ! idx in
      if \<not> m_bIsOn c \<and> \<not> m_bDisabled c then
        (let (ok, out, c') = JoinChan J U c; n1 = upd_chan idx (\<lambda>_. c') n in
         if \<not> ok then (let (ps, out', n2) = join_pick J U is uJoins n1 in (ps, out @ out', n2))
         else if uJoins \<noteq> 0 \<and> uJoins - 1 = 0 then ([idx], out, n1)
         else (let (ps, out', n2) = join_pick J U is (if uJoins \<noteq> 0 then uJoins - 1 else 0) n1
               in (idx # ps, out @ out', n2)))
      else join_pick J U is uJoins n)"

text \<open>
  One JOIN line: names and keys so far, whether there is a key, and the length counted; what
  does not fit is returned.
\<close>

fun join_batch ::
    "string \<Rightarrow> string \<Rightarrow> bool \<Rightarrow> nat \<Rightarrow> (string \<times> string) list \<Rightarrow> string \<times> (string \<times> string) list" where
  "join_batch sJoin sKeys bHaveKey uiJoinLength [] =
     (if bHaveKey then ''JOIN '' @ sJoin @ '' '' @ sKeys else ''JOIN '' @ sJoin, [])"
| "join_batch sJoin sKeys bHaveKey uiJoinLength ((sName, sKey) # cs) =
     (let len = length sName + length sKey + 2 in
      if sKeys \<noteq> [] \<and> uiJoinLength + len \<ge> 512
      then (if bHaveKey then ''JOIN '' @ sJoin @ '' '' @ sKeys else ''JOIN '' @ sJoin, (sName, sKey) # cs)
      else join_batch ((if sJoin \<noteq> [] then sJoin @ '','' else sJoin) @ sName)
             ((if sJoin \<noteq> [] then sKeys @ '','' else sKeys) @ sKey)
             (bHaveKey \<or> sKey \<noteq> []) (uiJoinLength + len) cs)"

lemma join_batch_le: "length (snd (join_batch a b h l cs)) \<le> length cs"
proof (induction a b h l cs rule: join_batch.induct)
  case (2 a b h l nm key cs)
  then show ?case
    by (cases "b \<noteq> [] \<and> l + (length nm + length key + 2) \<ge> 512") (simp_all add: Let_def le_SucI)
qed simp

lemma join_batch_less: "length (snd (join_batch [] [] False 5 (c # cs))) < length (c # cs)"
proof -
  obtain nm key where c: "c = (nm, key)" by (cases c)
  show ?thesis
    using join_batch_le [of nm key "key \<noteq> []" "5 + (length nm + length key + 2)" cs]
    by (simp add: c Let_def less_Suc_eq_le)
qed

function join_lines :: "(string \<times> string) list \<Rightarrow> string list" where
  "join_lines cs =
     (if cs = [] then []
      else (let (line, rest) = join_batch [] [] False 5 cs in line # join_lines rest))"
  by pat_completeness auto
termination
proof (relation "measure length", goal_cases)
  case (2 cs x line rest)
  then obtain c r where cs: "cs = c # r" by (cases cs) auto
  have "rest = snd (join_batch [] [] False 5 cs)" using 2(2,3) by (metis snd_conv)
  then show ?case using join_batch_less [of c r] by (simp add: cs)
qed simp

declare join_lines.simps [simp del]

definition JoinChans ::
    "join_env \<Rightarrow> user \<Rightarrow> network \<Rightarrow> string list \<times> client_out list \<times> network" where
  "JoinChans J U n =
     (if m_vChans n = [] then ([], [], n)
      else
        (let k = length (m_vChans n);
             start = j_start J mod k;
             (picked, out, n1) = join_pick J U (map (\<lambda>a. (start + a) mod k) [0..<k]) (u_MaxJoins U) n
         in (join_lines (map (\<lambda>i. (m_sName (m_vChans n1 ! i), m_sKey (m_vChans n1 ! i)))
               (j_set_order J picked)), out, n1)))"

section \<open>Queries\<close>

definition FindQuery :: "string \<Rightarrow> network \<Rightarrow> nat option" where
  "FindQuery sName n = find_idx (\<lambda>q. equals_ci sName (q_sName q)) (m_vQueries n)"

definition FindQueries :: "string \<Rightarrow> network \<Rightarrow> query list" where
  "FindQueries sWild n =
     filter (\<lambda>q. WildCmp (AsLower sWild) (AsLower (q_sName q)) CaseSensitive) (m_vQueries n)"

definition AddQuery :: "user \<Rightarrow> string \<Rightarrow> network \<Rightarrow> nat option \<times> network" where
  "AddQuery U sName n =
     (if sName = [] then (None, n)
      else (case FindQuery sName n of
              Some i \<Rightarrow> (Some i, n)
            | None \<Rightarrow>
                (let qs = m_vQueries n @ [mk_query U sName];
                     qs' = (if u_MaxQueryBuffers U > 0 then erase_to (u_MaxQueryBuffers U) qs else qs)
                 in (Some (length qs' - 1), n \<lparr>m_vQueries := qs'\<rparr>))))"

definition DelQuery :: "string \<Rightarrow> network \<Rightarrow> bool \<times> network" where
  "DelQuery sName n =
     (case FindQuery sName n of
        None \<Rightarrow> (False, n)
      | Some i \<Rightarrow> (True, n \<lparr>m_vQueries := take i (m_vQueries n) @ drop (Suc i) (m_vQueries n)\<rparr>))"

definition query_AddBuffer :: "nat \<Rightarrow> message \<Rightarrow> string \<Rightarrow> network \<Rightarrow> network" where
  "query_AddBuffer i Format sText n =
     n \<lparr>m_vQueries := (m_vQueries n)[i := (m_vQueries n ! i)
         \<lparr>q_Buffer := snd (Buffer_AddLine Format sText (q_Buffer (m_vQueries n ! i)))\<rparr>]\<rparr>"

section \<open>Servers\<close>

definition FindServer :: "string \<Rightarrow> network \<Rightarrow> nat option" where
  "FindServer sName n = find_idx (\<lambda>s. equals_ci sName (srv_sName s)) (m_vServers n)"

definition cur_server_idx :: "network \<Rightarrow> nat" where
  "cur_server_idx n = (if m_uServerIdx n \<noteq> 0 then m_uServerIdx n - 1 else 0)"

definition GetCurrentServer :: "network \<Rightarrow> server option" where
  "GetCurrentServer n =
     (if cur_server_idx n \<ge> length (m_vServers n) then None else Some (m_vServers n ! cur_server_idx n))"

definition GetNextServer :: "bool \<Rightarrow> network \<Rightarrow> server option \<times> network" where
  "GetNextServer bAdvance n =
     (if m_vServers n = [] then (None, n)
      else (let n1 = (if m_uServerIdx n \<ge> length (m_vServers n) then n \<lparr>m_uServerIdx := 0\<rparr> else n)
            in (Some (m_vServers n1 ! m_uServerIdx n1),
                if bAdvance then n1 \<lparr>m_uServerIdx := m_uServerIdx n1 + 1\<rparr> else n1)))"

definition SetNextServer :: "nat \<Rightarrow> network \<Rightarrow> bool \<times> network" where
  "SetNextServer pServer n =
     (if pServer < length (m_vServers n) then (True, n \<lparr>m_uServerIdx := pServer\<rparr>) else (False, n))"

definition IsLastServer :: "network \<Rightarrow> bool" where
  "IsLastServer n \<longleftrightarrow> m_uServerIdx n \<ge> length (m_vServers n)"

definition AddServer :: "server \<Rightarrow> network \<Rightarrow> bool \<times> network" where
  "AddServer s n =
     (if srv_sName s = [] then (False, n)
      else if s \<in> set (m_vServers n) then (False, n)
      else (True, n \<lparr>m_vServers := m_vServers n @ [s]\<rparr>))"

definition AddServer_str :: "string \<Rightarrow> network \<Rightarrow> bool \<times> network" where
  "AddServer_str sName n = (if sName = [] then (False, n) else AddServer (Server_Parse sName) n)"

definition server_matches :: "server \<Rightarrow> server \<Rightarrow> bool" where
  "server_matches S p \<longleftrightarrow>
     equals_ci (srv_sName p) (srv_sName S) \<and> \<not> (\<not> srv_bUnixSocket p \<and> srv_bUnixSocket S) \<and>
     \<not> (srv_uPort S \<noteq> 6667 \<and> srv_uPort p \<noteq> srv_uPort S) \<and>
     \<not> (srv_sPass S \<noteq> [] \<and> srv_sPass p \<noteq> srv_sPass S)"

text \<open>The second result tells that the current server was removed: the socket quits.\<close>

definition DelServer :: "server \<Rightarrow> network \<Rightarrow> bool \<times> bool \<times> network" where
  "DelServer S n =
     (case find_idx (server_matches S) (m_vServers n) of
        None \<Rightarrow> (False, False, n)
      | Some it \<Rightarrow>
          (let n1 = n \<lparr>m_vServers := take it (m_vServers n) @ drop (Suc it) (m_vServers n)\<rparr>;
               pCur = (if cur_server_idx n < length (m_vServers n) then Some (cur_server_idx n) else None);
               bSawCurrentServer = (case pCur of Some i \<Rightarrow> i \<le> it | None \<Rightarrow> False)
           in if pCur = Some it
              then (True, True, n1 \<lparr>m_uServerIdx := (if m_uServerIdx n \<noteq> 0 then m_uServerIdx n - 1 else 0)\<rparr>)
              else if \<not> bSawCurrentServer
              then (True, False, n1 \<lparr>m_uServerIdx := (if m_uServerIdx n \<noteq> 0 then m_uServerIdx n - 1 else 2 ^ 64 - 1)\<rparr>)
              else (True, False, n1)))"

end
