(* ===== verification/Cap_Negotiation.thy ===== *)
theory Cap_Negotiation imports Send_Queue begin

text \<open>
  Facts on the capability negotiation of CIRCSock: what a request contains and how long it
  is, the invariant of the capability sets, and the dialogue with a server that knows some
  set of capabilities and answers a request as a whole, as the CAP specification says.
\<close>

section \<open>Requests\<close>

lemma cap_batch_spec:
  "ts \<noteq> [] \<Longrightarrow> \<exists>n \<le> length p. cap_batch (Join '' '' ts) p = (Join '' '' (ts @ take n p), drop n p) \<and>
     length (Join '' '' (ts @ take n p)) \<le> max (length (Join '' '' ts)) 99"
proof (induction p arbitrary: ts)
  case (Cons c p)
  show ?case
  proof (cases "length (Join '' '' ts) + length c > 98")
    case True
    then show ?thesis by (intro exI [of _ 0]) simp
  next
    case False
    have J: "Join '' '' ts @ '' '' @ c = Join '' '' (ts @ [c])"
      using Cons.prems by (simp add: Join_snoc)
    from Cons.IH [of "ts @ [c]"] obtain n where "n \<le> length p"
      "cap_batch (Join '' '' (ts @ [c])) p = (Join '' '' (ts @ c # take n p), drop n p)"
      "length (Join '' '' (ts @ c # take n p)) \<le> max (length (Join '' '' (ts @ [c]))) 99" by auto
    moreover have "length (Join '' '' (ts @ [c])) \<le> 99" using False by (simp flip: J)
    ultimately show ?thesis using False J by (intro exI [of _ "Suc n"]) simp
  qed
qed simp

text \<open>The text of the request SendNextCap makes, if it makes one.\<close>

definition next_request :: "ircsock \<Rightarrow> string option" where
  "next_request s =
     (if m_uCapPaused s \<noteq> 0 then None
      else (case m_ssPendingCaps s of
              c # p \<Rightarrow> Some (fst (cap_batch c p))
            | [] \<Rightarrow> (case m_ssPendingCapsPhase2 s of c # p \<Rightarrow> Some c | [] \<Rightarrow> None)))"

text \<open>A request is a non-empty prefix of the waiting capabilities, which it takes away.\<close>

lemma SendNextCap_request:
  assumes "m_uCapPaused s = 0" and "m_ssPendingCaps s \<noteq> [] \<or> m_ssPendingCapsPhase2 s \<noteq> []"
  obtains caps rest s1 where "caps \<noteq> []" "next_request s = Some (Join '' '' caps)"
    "SendNextCap E s = PutIRC E (''CAP REQ :'' @ Join '' '' caps) s1"
    "length (Join '' '' caps) \<le> max (length (hd caps)) 99"
    "m_ssPendingCaps s = caps @ rest \<and> s1 = s \<lparr>m_ssPendingCaps := rest\<rparr> \<or>
     m_ssPendingCaps s = [] \<and> length caps = 1 \<and> m_ssPendingCapsPhase2 s = caps @ rest \<and>
       s1 = s \<lparr>m_ssPendingCapsPhase2 := rest\<rparr>"
proof (cases "m_ssPendingCaps s")
  case (Cons c p)
  obtain n where n: "cap_batch c p = (Join '' '' (c # take n p), drop n p)"
    "length (Join '' '' (c # take n p)) \<le> max (length c) 99"
    using cap_batch_spec [of "[c]" p] by auto
  show ?thesis
    by (rule that [of "c # take n p" "s \<lparr>m_ssPendingCaps := drop n p\<rparr>" "drop n p"])
      (use n assms(1) Cons in \<open>auto simp: SendNextCap_def next_request_def simp del: Join.simps\<close>)
next
  case Nil
  with assms(2) obtain c p where "m_ssPendingCapsPhase2 s = c # p"
    by (cases "m_ssPendingCapsPhase2 s") auto
  show ?thesis
    by (rule that [of "[c]" "s \<lparr>m_ssPendingCapsPhase2 := p\<rparr>" p])
      (use assms(1) Nil \<open>m_ssPendingCapsPhase2 s = c # p\<close> in \<open>auto simp: SendNextCap_def next_request_def\<close>)
qed

lemma SendNextCap_done:
  "m_uCapPaused s = 0 \<Longrightarrow> m_ssPendingCaps s = [] \<Longrightarrow> m_ssPendingCapsPhase2 s = [] \<Longrightarrow>
   SendNextCap E s = (if m_bAuthed s then s else PutIRC E ''CAP END'' s)"
  by (simp add: SendNextCap_def)

lemma SendNextCap_paused: "m_uCapPaused s \<noteq> 0 \<Longrightarrow> SendNextCap E s = s"
  by (simp add: SendNextCap_def)

section \<open>The invariant of the capability sets\<close>

lemma set_cap_fields [simp]:
  "m_ssAcceptedCaps (set_cap c b s) = m_ssAcceptedCaps s"
  "m_ssPendingCaps (set_cap c b s) = m_ssPendingCaps s"
  "m_ssPendingCapsPhase2 (set_cap c b s) = m_ssPendingCapsPhase2 s"
  "m_msCapLsValues (set_cap c b s) = m_msCapLsValues s"
  "m_uCapPaused (set_cap c b s) = m_uCapPaused s"
  "m_bAuthed (set_cap c b s) = m_bAuthed s"
  by (simp_all add: set_cap_def cap_handler_def)

lemma set_cap_message_tags:
  "m_bMessageTagCap (set_cap c b s) = (if c = ''message-tags'' then b else m_bMessageTagCap s)"
  by (simp add: set_cap_def cap_handler_def)

definition caps_ok :: "ircsock \<Rightarrow> bool" where
  "caps_ok s \<longleftrightarrow>
     os_ok (m_ssAcceptedCaps s) \<and> os_ok (m_ssPendingCaps s) \<and> os_ok (m_ssPendingCapsPhase2 s) \<and>
     om_ok (m_msCapLsValues s) \<and> (m_bMessageTagCap s \<longleftrightarrow> ''message-tags'' \<in> set (m_ssAcceptedCaps s))"

lemma os_ok_tl: "os_ok (x # xs) \<Longrightarrow> os_ok xs"
  by simp

lemma os_ok_append: "os_ok (xs @ ys) \<longleftrightarrow> os_ok xs \<and> os_ok ys \<and> (\<forall>x \<in> set xs. \<forall>y \<in> set ys. x < y)"
  by (induction xs) auto

lemma os_ok_fold_insert [simp]: "os_ok s \<Longrightarrow> os_ok (fold os_insert xs s)"
  by (induction xs arbitrary: s) auto

lemma set_fold_os_insert [simp]: "set (fold os_insert xs s) = set xs \<union> set s"
  by (induction xs arbitrary: s) auto

lemma caps_ok_RemoveCap [simp]: "caps_ok s \<Longrightarrow> caps_ok (RemoveCap c s)"
  by (auto simp: caps_ok_def RemoveCap_def Let_def set_cap_message_tags)

lemma caps_ok_cap_ack [simp]: "caps_ok s \<Longrightarrow> caps_ok (cap_ack c s)"
  by (auto simp: caps_ok_def cap_ack_def Let_def set_cap_message_tags)

lemma caps_ok_cap_del [simp]: "caps_ok s \<Longrightarrow> caps_ok (cap_del c s)"
  using caps_ok_RemoveCap [of s c] by (simp add: caps_ok_def cap_del_def Let_def)

lemma caps_ok_cap_offer [simp]: "caps_ok s \<Longrightarrow> caps_ok (cap_offer E t s)"
  by (simp add: caps_ok_def cap_offer_def Let_def split: prod.split)

lemma caps_ok_fold: "(\<And>x s. caps_ok s \<Longrightarrow> caps_ok (f x s)) \<Longrightarrow> caps_ok s \<Longrightarrow> caps_ok (fold f xs s)"
  by (induction xs arbitrary: s) auto

lemma caps_ok_cap_reply: "caps_ok s \<Longrightarrow> caps_ok (cap_reply E sub args s)"
  unfolding cap_reply_def Let_def
  by (simp add: caps_ok_fold caps_ok_def [of "s \<lparr>m_ssPendingCapsPhase2 := x\<rparr>" for x])
    (simp add: caps_ok_def)

lemma caps_ok_SendNextCap:
  assumes "caps_ok s"
  shows "caps_ok (SendNextCap E s)"
proof (cases "m_uCapPaused s = 0 \<and> (m_ssPendingCaps s \<noteq> [] \<or> m_ssPendingCapsPhase2 s \<noteq> [])")
  case True
  then obtain caps rest s1 where "SendNextCap E s = PutIRC E (''CAP REQ :'' @ Join '' '' caps) s1"
    "m_ssPendingCaps s = caps @ rest \<and> s1 = s \<lparr>m_ssPendingCaps := rest\<rparr> \<or>
     m_ssPendingCaps s = [] \<and> length caps = 1 \<and> m_ssPendingCapsPhase2 s = caps @ rest \<and>
       s1 = s \<lparr>m_ssPendingCapsPhase2 := rest\<rparr>"
    using SendNextCap_request [of s] by metis
  with assms show ?thesis by (auto simp: caps_ok_def os_ok_append)
next
  case False
  then have "SendNextCap E s = s \<or> SendNextCap E s = PutIRC E ''CAP END'' s"
    by (simp add: SendNextCap_def)
  with assms show ?thesis by (elim disjE) (simp_all add: caps_ok_def)
qed

lemma caps_ok_OnCapabilityMessage: "caps_ok s \<Longrightarrow> caps_ok (snd (OnCapabilityMessage E m s))"
  by (simp add: OnCapabilityMessage_def Let_def caps_ok_cap_reply caps_ok_SendNextCap split: prod.split)

section \<open>The dialogue\<close>

text \<open>A name that stands for itself in a list of capabilities.\<close>

definition cap_name_ok :: "string \<Rightarrow> bool" where
  "cap_name_ok c \<longleftrightarrow> c \<noteq> [] \<and> c \<noteq> ''*'' \<and> CHR '' '' \<notin> set c \<and> nul_free c"

lemma Split_caps:
  assumes "caps \<noteq> []" and "\<forall>c \<in> set caps. cap_name_ok c"
  shows "split_plain (Join '' '' caps) '' '' False = caps"
proof -
  have "nul_free (Join '' '' caps)" using assms(2) by (intro nul_free_Join) (auto simp: cap_name_ok_def)
  moreover have "sep_char (CHR '' '')" by (simp add: sep_char_def isupper_c_def islower_c_def byte_def)
  ultimately have "split_plain (Join '' '' caps) '' '' False =
      filter (\<lambda>t. t \<noteq> []) (sep_fields (CHR '' '') (Join '' '' caps))"
    by (simp add: Split_drop_empty)
  also have "sep_fields (CHR '' '') (Join '' '' caps) = caps"
    using assms by (intro fields_Join) (auto simp: cap_name_ok_def)
  finally show ?thesis using assms(2) by (simp add: cap_name_ok_def filter_id_conv)
qed

text \<open>The reply of a server that knows the capabilities \<open>srv\<close>.\<close>

definition cap_answer :: "(string \<Rightarrow> bool) \<Rightarrow> string \<Rightarrow> message" where
  "cap_answer srv c = empty_message \<lparr>m_sCommand := ''CAP'', m_vsParams :=
     [''*'', if list_all srv (split_plain c '' '' False) then ''ACK'' else ''NAK'', c]\<rparr>"

text \<open>The socket and such a server, for at most n replies; first the outstanding request.\<close>

fun cap_dialog :: "env \<Rightarrow> (string \<Rightarrow> bool) \<Rightarrow> nat \<Rightarrow> string option \<Rightarrow> ircsock \<Rightarrow> string option \<times> ircsock" where
  "cap_dialog E srv 0 req s = (req, s)"
| "cap_dialog E srv (Suc n) None s = (None, s)"
| "cap_dialog E srv (Suc n) (Some c) s =
     (let m = cap_answer srv c
      in cap_dialog E srv n (next_request (cap_reply E (GetParam m 1) (GetParam m 2) s))
           (snd (OnCapabilityMessage E m s)))"

definition cap_work :: "ircsock \<Rightarrow> nat" where
  "cap_work s = 2 * length (m_ssPendingCaps s) + length (m_ssPendingCapsPhase2 s)"

text \<open>The capabilities still asked for, and the set that will have been accepted.\<close>

definition open_caps :: "ircsock \<Rightarrow> string set" where
  "open_caps s = set (m_ssPendingCaps s) \<union> set (m_ssPendingCapsPhase2 s)"

definition cap_goal :: "(string \<Rightarrow> bool) \<Rightarrow> ircsock \<Rightarrow> string set" where
  "cap_goal srv s = (set (m_ssAcceptedCaps s) - open_caps s) \<union> {c \<in> open_caps s. srv c}"

lemma fold_cap_ack:
  "m_ssAcceptedCaps (fold cap_ack cs s) = fold os_insert cs (m_ssAcceptedCaps s)"
  "m_ssPendingCaps (fold cap_ack cs s) = m_ssPendingCaps s"
  "m_ssPendingCapsPhase2 (fold cap_ack cs s) = m_ssPendingCapsPhase2 s"
  "m_uCapPaused (fold cap_ack cs s) = m_uCapPaused s"
  "m_bAuthed (fold cap_ack cs s) = m_bAuthed s"
  by (induction cs arbitrary: s) (simp_all add: cap_ack_def Let_def)

lemma length_fold_os_insert: "length (fold os_insert xs s) \<le> length xs + length s"
proof (induction xs arbitrary: s)
  case (Cons x xs)
  from Cons [of "os_insert x s"] length_os_insert [of x s] show ?case by simp
qed simp

text \<open>One answer: the goal stays, the work decreases.\<close>

lemma cap_answer_step:
  assumes ok: "caps_ok s" "m_uCapPaused s = 0" "\<forall>c \<in> open_caps s. cap_name_ok c"
    and req: "next_request s = Some c"
    and s2_def: "s2 = cap_reply E (GetParam (cap_answer srv c) 1) (GetParam (cap_answer srv c) 2) (SendNextCap E s)"
  shows "cap_work s2 < cap_work s" "cap_goal srv s2 = cap_goal srv s" "open_caps s2 \<subseteq> open_caps s"
    "m_uCapPaused s2 = 0" "m_bAuthed s2 = m_bAuthed s"
    "snd (OnCapabilityMessage E (cap_answer srv c) (SendNextCap E s)) = SendNextCap E s2"
proof -
  have "m_ssPendingCaps s \<noteq> [] \<or> m_ssPendingCapsPhase2 s \<noteq> []"
    using req ok(2) by (auto simp: next_request_def split: list.splits)
  then obtain caps rest s1 where caps: "caps \<noteq> []" "next_request s = Some (Join '' '' caps)"
    "SendNextCap E s = PutIRC E (''CAP REQ :'' @ Join '' '' caps) s1"
    and where1: "m_ssPendingCaps s = caps @ rest \<and> s1 = s \<lparr>m_ssPendingCaps := rest\<rparr> \<or>
     m_ssPendingCaps s = [] \<and> length caps = 1 \<and> m_ssPendingCapsPhase2 s = caps @ rest \<and>
       s1 = s \<lparr>m_ssPendingCapsPhase2 := rest\<rparr>"
    using SendNextCap_request [of s E] ok(2) by metis
  let ?t = "SendNextCap E s"
  have c: "c = Join '' '' caps" using req caps(2) by simp
  have sub: "set caps \<subseteq> open_caps s" using where1 by (auto simp: open_caps_def)
  with ok(3) have names: "\<forall>c \<in> set caps. cap_name_ok c" by blast
  have split: "split_plain c '' '' False = caps" unfolding c by (rule Split_caps [OF caps(1) names])
  have reply: "s2 = (if list_all srv caps then fold cap_ack caps ?t
      else if length caps = 1 then RemoveCap c ?t
      else ?t \<lparr>m_ssPendingCapsPhase2 := fold os_insert caps (m_ssPendingCapsPhase2 ?t)\<rparr>)"
    by (simp add: s2_def cap_answer_def GetParam_def cap_reply_def split)
  have single: "length caps = 1 \<Longrightarrow> caps = [c]" by (cases caps) (auto simp: c)
  have fin: "os_ok (m_ssAcceptedCaps ?t)" "os_ok (m_ssPendingCaps ?t)"
    using caps_ok_SendNextCap [OF ok(1), of E] by (simp_all add: caps_ok_def)
  have t: "m_ssAcceptedCaps ?t = m_ssAcceptedCaps s" "m_uCapPaused ?t = 0" "m_bAuthed ?t = m_bAuthed s"
    "m_ssPendingCaps ?t = m_ssPendingCaps s1" "m_ssPendingCapsPhase2 ?t = m_ssPendingCapsPhase2 s1"
    using caps(3) where1 ok(2) by auto
  have op: "open_caps s = set caps \<union> open_caps ?t"
    using where1 by (auto simp: open_caps_def t)
  have work: "cap_work ?t + 2 * length caps \<le> cap_work s \<or> length caps = 1 \<and> cap_work ?t < cap_work s"
    using where1 by (auto simp: cap_work_def t)
  consider (ack) "list_all srv caps" | (one) "\<not> list_all srv caps" "caps = [c]"
    | (many) "\<not> list_all srv caps" "length caps \<noteq> 1"
    using single by blast
  then have "cap_work s2 < cap_work s \<and> cap_goal srv s2 = cap_goal srv s \<and> open_caps s2 \<subseteq> open_caps s \<and>
      m_uCapPaused s2 = 0 \<and> m_bAuthed s2 = m_bAuthed s"
  proof cases
    case ack
    then have s2: "s2 = fold cap_ack caps ?t" by (simp add: reply)
    have o2: "open_caps s2 = open_caps ?t" by (simp add: s2 open_caps_def fold_cap_ack)
    moreover have "cap_work s2 = cap_work ?t" by (simp add: s2 cap_work_def fold_cap_ack)
    moreover have "cap_goal srv s2 = cap_goal srv s"
      unfolding cap_goal_def o2 op using ack by (auto simp: s2 fold_cap_ack t list_all_iff)
    moreover have "cap_work ?t < cap_work s" using work caps(1) by (cases caps) auto
    ultimately show ?thesis using op by (auto simp: s2 fold_cap_ack t)
  next
    case one
    then have s2: "s2 = RemoveCap c ?t" by (simp add: reply)
    have o2: "open_caps s2 = (set (m_ssPendingCaps ?t) - {c}) \<union> set (m_ssPendingCapsPhase2 ?t)"
      using fin by (simp add: s2 open_caps_def RemoveCap_def Let_def)
    have "length (m_ssPendingCaps s2) \<le> length (m_ssPendingCaps ?t)"
      by (simp add: s2 RemoveCap_def Let_def os_erase_def length_remove1)
    then have "cap_work s2 \<le> cap_work ?t" by (simp add: s2 cap_work_def RemoveCap_def Let_def)
    moreover have "cap_goal srv s2 = cap_goal srv s"
      unfolding cap_goal_def o2 op using one fin
      by (auto simp: s2 RemoveCap_def Let_def open_caps_def t)
    ultimately show ?thesis using work one(2) op o2
      by (auto simp: s2 RemoveCap_def Let_def t open_caps_def)
  next
    case many
    then have s2: "s2 = ?t \<lparr>m_ssPendingCapsPhase2 := fold os_insert caps (m_ssPendingCapsPhase2 ?t)\<rparr>"
      by (simp add: reply)
    have o2: "open_caps s2 = open_caps s" unfolding op by (auto simp: s2 open_caps_def)
    moreover have "cap_work s2 \<le> cap_work ?t + length caps"
      using length_fold_os_insert [of caps "m_ssPendingCapsPhase2 ?t"] by (simp add: s2 cap_work_def)
    moreover have "cap_goal srv s2 = cap_goal srv s" unfolding cap_goal_def o2 by (simp add: s2 t)
    ultimately show ?thesis using work many(2) caps(1) t by (cases caps) (auto simp: s2)
  qed
  then show "cap_work s2 < cap_work s" "cap_goal srv s2 = cap_goal srv s" "open_caps s2 \<subseteq> open_caps s"
    "m_uCapPaused s2 = 0" "m_bAuthed s2 = m_bAuthed s" by simp_all
  have "GetParam (cap_answer srv c) 2 \<noteq> ''*''"
  proof -
    have "c \<noteq> ''*''"
    proof
      assume "c = ''*''"
      with split have "caps = split_plain ''*'' '' '' False" by simp
      moreover have "split_plain ''*'' '' '' False = [''*'']" by code_simp
      ultimately show False using names by (simp add: cap_name_ok_def)
    qed
    then show ?thesis by (simp add: cap_answer_def GetParam_def)
  qed
  then show "snd (OnCapabilityMessage E (cap_answer srv c) ?t) = SendNextCap E s2"
    by (simp add: OnCapabilityMessage_def Let_def s2_def)
qed

text \<open>Enough replies end the dialogue with everything known accepted and nothing else.\<close>

lemma cap_dialog_ends:
  assumes "caps_ok s" "m_uCapPaused s = 0" "\<forall>c \<in> open_caps s. cap_name_ok c" "cap_work s \<le> n"
  shows "\<exists>s1. cap_dialog E srv n (next_request s) (SendNextCap E s) = (None, SendNextCap E s1) \<and>
    m_ssPendingCaps s1 = [] \<and> m_ssPendingCapsPhase2 s1 = [] \<and> m_uCapPaused s1 = 0 \<and>
    m_bAuthed s1 = m_bAuthed s \<and> caps_ok s1 \<and> set (m_ssAcceptedCaps s1) = cap_goal srv s"
  using assms
proof (induction n arbitrary: s)
  case 0
  then show ?case
    by (intro exI [of _ s]) (auto simp: cap_work_def next_request_def cap_goal_def open_caps_def)
next
  case (Suc n)
  show ?case
  proof (cases "next_request s")
    case None
    then have "m_ssPendingCaps s = []" "m_ssPendingCapsPhase2 s = []"
      using Suc.prems(2) by (auto simp: next_request_def split: list.splits)
    then show ?thesis using Suc.prems None
      by (intro exI [of _ s]) (auto simp: cap_goal_def open_caps_def)
  next
    case (Some c)
    let ?s2 = "cap_reply E (GetParam (cap_answer srv c) 1) (GetParam (cap_answer srv c) 2) (SendNextCap E s)"
    note step = cap_answer_step [OF Suc.prems(1-3) Some refl, where E = E and srv = srv]
    have "caps_ok ?s2" by (intro caps_ok_cap_reply caps_ok_SendNextCap Suc.prems(1))
    moreover have "cap_work ?s2 \<le> n" using step(1) Suc.prems(4) by simp
    moreover have "\<forall>c \<in> open_caps ?s2. cap_name_ok c" using step(3) Suc.prems(3) by blast
    ultimately show ?thesis
      using Suc.IH [of ?s2] step unfolding Some by (simp only: cap_dialog.simps Let_def)
  qed
qed

end
