(* ===== verification/Irc_Handlers.thy ===== *)
theory Irc_Handlers imports Network Server_Tables Cap_Negotiation begin

text \<open>
  The message handlers of CIRCSock (src/IRCSock.cpp) and their dispatch, ReadLine. The state
  is the socket with its network; what goes to the clients is appended to \<open>s_out\<close> of the
  socket, so the order of the outputs is kept. Each handler returns whether the message was
  consumed, the message (the code changes it in place) and the new state.

  The module hooks are the function \<open>h_hook\<close> from the name of the hook and the message to
  the answer and the possibly changed message; hooks called with NOTHING are left out. The
  record \<open>henv\<close> has the other surroundings: the user's settings and expansions, the wall
  clock in seconds, the version tag.
\<close>

record world =
  w_sock :: ircsock
  w_net :: network
  w_ssl :: bool

record henv =
  h_env :: env
  h_user :: user
  h_join :: join_env
  h_OnRaw :: "string \<Rightarrow> bool \<times> string"
  h_hook :: "string \<Rightarrow> message \<Rightarrow> bool \<times> message"
  h_user_get :: "string \<Rightarrow> string"
  h_user_expand :: "string \<Rightarrow> string"
  h_time :: nat
  h_tag :: string

section \<open>Access\<close>

definition put_out :: "client_out list \<Rightarrow> world \<Rightarrow> world" where
  "put_out os w = w \<lparr>w_sock := (w_sock w) \<lparr>s_out := s_out (w_sock w) @ os\<rparr>\<rparr>"

definition put_irc :: "henv \<Rightarrow> string \<Rightarrow> world \<Rightarrow> world" where
  "put_irc H sLine w = w \<lparr>w_sock := PutIRC (h_env H) sLine (w_sock w)\<rparr>"

definition on_net :: "(network \<Rightarrow> network) \<Rightarrow> world \<Rightarrow> world" where
  "on_net f w = w \<lparr>w_net := f (w_net w)\<rparr>"

definition on_chan :: "nat \<Rightarrow> (chan \<Rightarrow> chan) \<Rightarrow> world \<Rightarrow> world" where
  "on_chan i f w = on_net (upd_chan i f) w"

definition find_chan :: "string \<Rightarrow> world \<Rightarrow> nat option" where
  "find_chan s w = FindChan (Some (w_sock w)) s (w_net w)"

definition the_chan :: "world \<Rightarrow> nat \<Rightarrow> chan" where
  "the_chan w i = m_vChans (w_net w) ! i"

definition detached :: "world \<Rightarrow> nat option \<Rightarrow> bool" where
  "detached w p = (case p of Some i \<Rightarrow> m_bDetached (the_chan w i) | None \<Rightarrow> False)"

definition own_nick :: "world \<Rightarrow> string" where
  "own_nick w = m_sNick (sock_Nick (w_sock w))"

definition expand_string :: "henv \<Rightarrow> string \<Rightarrow> world \<Rightarrow> string" where
  "expand_string H s w =
     Network_ExpandString (h_user_expand H) (h_user_get H) (Some (w_sock w)) (w_net w) s"

definition do_quit :: "henv \<Rightarrow> world \<Rightarrow> world" where
  "do_quit H w =
     w \<lparr>w_sock := Quit (h_env H)
         (expand_string H (inherited_get (h_user_get H ''quitmsg'') (net_sQuitMsg (w_net w))) w) [] (w_sock w)\<rparr>"

text \<open>CIRCSock::SetNick.\<close>

definition set_own_nick :: "string \<Rightarrow> world \<Rightarrow> world" where
  "set_own_nick sNick w =
     (let n = (sock_Nick (w_sock w)) \<lparr>m_sNick := sNick\<rparr>
      in on_net (SetIRCNick n) (w \<lparr>w_sock := (w_sock w) \<lparr>sock_Nick := n\<rparr>\<rparr>))"

fun run_hooks :: "henv \<Rightarrow> string list \<Rightarrow> message \<Rightarrow> bool \<times> message" where
  "run_hooks H [] m = (False, m)"
| "run_hooks H (h # hs) m = (let (b, m1) = h_hook H h m in if b then (True, m1) else run_hooks H hs m1)"

definition namedfmt :: "string \<Rightarrow> string" where
  "namedfmt s = Escape_n EASCII ENAMEDFMT s"

text \<open>FixupChanNick: the nick of the message and the one of the channel complete each other.\<close>

definition FixupChanNick :: "message \<Rightarrow> nat \<Rightarrow> world \<Rightarrow> message \<times> world" where
  "FixupChanNick m i w =
     (let sNick = m_sNick (m_Nick m) in
      case FindNick sNick (the_chan w i) of
        None \<Rightarrow> (m, w)
      | Some n \<Rightarrow>
          (let n1 = (if m_sIdent (m_Nick m) \<noteq> [] then n \<lparr>m_sIdent := m_sIdent (m_Nick m)\<rparr> else n);
               n2 = (if m_sHost (m_Nick m) \<noteq> [] then n1 \<lparr>m_sHost := m_sHost (m_Nick m)\<rparr> else n1)
           in (m \<lparr>m_Nick := Nick_Clone n2 (m_Nick m)\<rparr>, on_chan i (upd_nick sNick n2) w)))"

definition IsNickVisible :: "string \<Rightarrow> world \<Rightarrow> bool" where
  "IsNickVisible sNick w \<longleftrightarrow>
     (\<exists>c \<in> set (m_vChans (w_net w)). \<not> m_bDetached c \<and> FindNick sNick c \<noteq> None)"

text \<open>The outputs of a playback-free send of a message or line to one client or all.\<close>

definition each_client :: "(nat \<Rightarrow> client \<Rightarrow> client_out list) \<Rightarrow> world \<Rightarrow> client_out list" where
  "each_client f w = concat (map (\<lambda>(i, cl). f i cl) (targets (m_vClients (w_net w)) None))"

section \<open>Messages to a target: text, action, notice, tag\<close>

text \<open>
  The line a buffer keeps: the sender and the target are quoted as formats, the text is left
  to the playback. A tag message has no text.
\<close>

definition buffer_format ::
    "(string \<Rightarrow> message \<Rightarrow> message) \<Rightarrow> string \<Rightarrow> string \<Rightarrow> message \<Rightarrow> message" where
  "buffer_format set_text sMask sTarget m =
     set_text ''{text}'' (SetTarget sTarget (m \<lparr>m_Nick := mk_nick (namedfmt sMask)\<rparr>))"

definition buffer_private ::
    "henv \<Rightarrow> (string \<Rightarrow> message \<Rightarrow> message) \<Rightarrow> string \<Rightarrow> message \<Rightarrow> world \<Rightarrow> world" where
  "buffer_private H set_text sText m w =
     (if \<not> IsUserOnline (w_net w) \<or> \<not> u_AutoClearQueryBuffer (h_user H) then
        (case AddQuery (h_user H) (m_sNick (m_Nick m)) (w_net w) of
           (None, n1) \<Rightarrow> w \<lparr>w_net := n1\<rparr>
         | (Some i, n1) \<Rightarrow>
             w \<lparr>w_net := query_AddBuffer i
                 (buffer_format set_text (GetNickMask (m_Nick m)) ''{target}'' m) sText n1\<rparr>)
      else w)"

definition buffer_chan ::
    "(string \<Rightarrow> message \<Rightarrow> message) \<Rightarrow> string \<Rightarrow> message \<Rightarrow> nat \<Rightarrow> world \<Rightarrow> world" where
  "buffer_chan set_text sText m i w =
     (let c = the_chan w i in
      if \<not> m_bAutoClearChanBuffer c \<or> \<not> IsUserOnline (w_net w) \<or> m_bDetached c
      then on_chan i (\<lambda>c. c \<lparr>m_Buffer := snd (Buffer_AddLine
             (buffer_format set_text (GetNickMask (m_Nick m)) (namedfmt (GetTarget m)) m) sText (m_Buffer c))\<rparr>) w
      else w)"

text \<open>The part of the four handlers for a channel.\<close>

definition to_channel ::
    "henv \<Rightarrow> string list \<Rightarrow> (string \<Rightarrow> message \<Rightarrow> message) \<Rightarrow> (message \<Rightarrow> string) \<Rightarrow>
     message \<Rightarrow> world \<Rightarrow> bool \<times> message \<times> world" where
  "to_channel H hooks set_text get_text m w =
     (case find_chan (GetTarget m) w of
        None \<Rightarrow> (False, m, w)
      | Some i \<Rightarrow>
          (let (m1, w1) = FixupChanNick (m \<lparr>m_pChan := Some (m_sName (the_chan w i))\<rparr>) i w;
               (b, m2) = run_hooks H hooks m1
           in if b then (True, m2, w1)
              else (let w2 = buffer_chan set_text (get_text m2) m2 i w1
                    in (detached w2 (Some i), m2, w2))))"

definition on_target_message ::
    "henv \<Rightarrow> string list \<Rightarrow> string list \<Rightarrow> (string \<Rightarrow> message \<Rightarrow> message) \<Rightarrow> (message \<Rightarrow> string) \<Rightarrow>
     message \<Rightarrow> world \<Rightarrow> bool \<times> message \<times> world" where
  "on_target_message H priv_hooks chan_hooks set_text get_text m w =
     (if equals_ci (GetTarget m) (own_nick w) then
        (let (b, m1) = run_hooks H priv_hooks m
         in if b then (True, m1, w)
            else (False, m1, buffer_private H set_text (get_text m1) m1 w))
      else to_channel H chan_hooks set_text get_text m w)"

definition OnTextMessage :: "henv \<Rightarrow> message \<Rightarrow> world \<Rightarrow> bool \<times> message \<times> world" where
  "OnTextMessage H = on_target_message H [''OnPrivTextMessage''] [''OnChanTextMessage'']
     Text_SetText Text_GetText"

definition OnActionMessage :: "henv \<Rightarrow> message \<Rightarrow> world \<Rightarrow> bool \<times> message \<times> world" where
  "OnActionMessage H = on_target_message H [''OnPrivCTCPMessage'', ''OnPrivActionMessage'']
     [''OnChanCTCPMessage'', ''OnChanActionMessage''] Action_SetText Action_GetText"

definition OnTagMessage :: "henv \<Rightarrow> message \<Rightarrow> world \<Rightarrow> bool \<times> message \<times> world" where
  "OnTagMessage H = on_target_message H [''OnPrivTagMessage''] [''OnChanTagMessage'']
     (\<lambda>t m. m) (\<lambda>m. [])"

definition OnNoticeMessage :: "henv \<Rightarrow> message \<Rightarrow> world \<Rightarrow> bool \<times> message \<times> world" where
  "OnNoticeMessage H m w =
     (if equals_ci (GetTarget m) (own_nick w) then
        (let (b, m1) = run_hooks H [''OnPrivNoticeMessage''] m
         in if b then (True, m1, w)
            else (False, m1,
              if \<not> IsUserOnline (w_net w)
              then on_net (\<lambda>n. n \<lparr>m_NoticeBuffer := snd (Buffer_AddLine
                     (buffer_format Text_SetText (GetNickMask (m_Nick m1)) ''{target}'' m1) (Text_GetText m1)
                     (m_NoticeBuffer n))\<rparr>) w
              else w))
      else to_channel H [''OnChanNoticeMessage''] Text_SetText Text_GetText m w)"

section \<open>CTCP\<close>

text \<open>The limit on replies: the counter restarts after five seconds without a request.\<close>

definition ctcp_allowed :: "nat \<Rightarrow> ircsock \<Rightarrow> bool \<times> ircsock" where
  "ctcp_allowed now s =
     (let s1 = (if (m_lastCTCP s + 5000) mod 2 ^ 64 < now then s \<lparr>m_uNumCTCP := 0\<rparr> else s);
          s2 = s1 \<lparr>m_lastCTCP := now\<rparr>
      in if m_uNumCTCP s2 \<ge> 5 then (False, s2) else (True, s2 \<lparr>m_uNumCTCP := m_uNumCTCP s2 + 1\<rparr>))"

definition ctcp_reply :: "henv \<Rightarrow> message \<Rightarrow> nat option \<Rightarrow> world \<Rightarrow> bool \<times> message \<times> world" where
  "ctcp_reply H m pChan w =
     (let sMessage = CTCP_GetText m;
          sQuery = AsUpper (token sMessage 0);
          it = map_of (u_CTCPReplies (h_user H)) sQuery;
          sReply = (case it of
              Some v \<Rightarrow> expand_string H v w
            | None \<Rightarrow>
                if \<not> IsUserAttached (w_net w) then
                  (if sQuery = ''VERSION'' then h_tag H
                   else if sQuery = ''PING'' then token_rest sMessage 1 else [])
                else [])
      in if it \<noteq> None \<and> sReply = [] then (True, m, w)
         else if sReply \<noteq> [] then
           (let (ok, s1) = ctcp_allowed (e_millis (h_env H)) (w_sock w); w1 = w \<lparr>w_sock := s1\<rparr>
            in (True, m,
                if ok then put_irc H (''NOTICE '' @ m_sNick (m_Nick m) @ '' :'' @ soh @ sQuery @ '' '' @ sReply @ soh) w1
                else w1))
         else (detached w pChan, m, w))"

definition OnCTCPMessage :: "henv \<Rightarrow> message \<Rightarrow> world \<Rightarrow> bool \<times> message \<times> world" where
  "OnCTCPMessage H m w =
     (if equals_ci (GetTarget m) (own_nick w) then
        (if CTCP_IsReply m then (let (b, m1) = run_hooks H [''OnCTCPReplyMessage''] m in (b, m1, w))
         else (let (b, m1) = run_hooks H [''OnPrivCTCPMessage''] m
               in if b then (True, m1, w) else ctcp_reply H m1 None w))
      else
        (case find_chan (GetTarget m) w of
           None \<Rightarrow> ctcp_reply H m None w
         | Some i \<Rightarrow>
             (let (m1, w1) = FixupChanNick (m \<lparr>m_pChan := Some (m_sName (the_chan w i))\<rparr>) i w
              in if CTCP_IsReply m1
                 then (let (b, m2) = run_hooks H [''OnCTCPReplyMessage''] m1 in (b, m2, w1))
                 else (let (b, m2) = run_hooks H [''OnChanCTCPMessage''] m1
                       in if b then (True, m2, w1) else ctcp_reply H m2 (Some i) w1))))"

section \<open>Channel membership\<close>

definition OnJoinMessage :: "henv \<Rightarrow> message \<Rightarrow> world \<Rightarrow> bool \<times> message \<times> world" where
  "OnJoinMessage H m w =
     (let sChan = GetParam m 0;
          w1 = (if NickEquals (m_Nick m) (own_nick w) then
                  (let wa = on_net (\<lambda>n. snd (AddChan (Some (w_sock w)) (h_user H) sChan False n)) w
                   in case find_chan sChan wa of
                        Some i \<Rightarrow> put_irc H (''MODE '' @ sChan) (on_chan i (\<lambda>c. SetIsOn True (Enable c)) wa)
                      | None \<Rightarrow> wa)
                else w)
      in case find_chan sChan w1 of
           None \<Rightarrow> (False, m, w1)
         | Some i \<Rightarrow>
             (let w2 = on_chan i (\<lambda>c. snd (AddNick (w_sock w1) (own_nick w1) (GetNickMask (m_Nick m)) c)) w1
              in (detached w2 (Some i), m \<lparr>m_pChan := Some (m_sName (the_chan w2 i))\<rparr>, w2)))"

definition OnKickMessage :: "message \<Rightarrow> world \<Rightarrow> bool \<times> message \<times> world" where
  "OnKickMessage m w =
     (let sKickedNick = Kick_GetKickedNick m in
      case find_chan (GetParam m 0) w of
        None \<Rightarrow> (False, m, w)
      | Some i \<Rightarrow>
          (let w1 = on_chan i (\<lambda>c. snd (RemNick sKickedNick c)) w;
               w2 = (if equals_ci (own_nick w1) sKickedNick
                     then on_chan i (\<lambda>c. Disable (SetIsOn False c)) w1 else w1)
           in (detached w2 (Some i), m \<lparr>m_pChan := Some (m_sName (the_chan w i))\<rparr>, w2)))"

definition OnPartMessage :: "message \<Rightarrow> world \<Rightarrow> bool \<times> message \<times> world" where
  "OnPartMessage m w =
     (let sChan = GetTarget m;
          (bDetached, m1, w1) =
            (case find_chan sChan w of
               None \<Rightarrow> (False, m, w)
             | Some i \<Rightarrow>
                 (let wa = on_chan i (\<lambda>c. snd (RemNick (m_sNick (m_Nick m)) c)) w
                  in (detached wa (Some i), m \<lparr>m_pChan := Some (m_sName (the_chan w i))\<rparr>, wa)));
          w2 = (if NickEquals (m_Nick m) (own_nick w1) then on_net (\<lambda>n. snd (DelChan sChan n)) w1 else w1)
      in (bDetached, m1, w2))"

text \<open>A change in every channel, and whether one of the changed channels is attached.\<close>

fun every_chan :: "(chan \<Rightarrow> bool \<times> chan) \<Rightarrow> chan list \<Rightarrow> bool \<times> chan list" where
  "every_chan f [] = (False, [])"
| "every_chan f (c # cs) =
     (let (found, c') = f c; (v, cs') = every_chan f cs
      in ((found \<and> \<not> m_bDetached c') \<or> v, c' # cs'))"

definition OnQuitMessage :: "message \<Rightarrow> world \<Rightarrow> bool \<times> message \<times> world" where
  "OnQuitMessage m w =
     (if NickEquals (m_Nick m) (own_nick w)
      then (True, m, put_out [PutStatus (''You quit: '' @ Quit_GetReason m)] w)
      else
        (let (bIsVisible, cs) = every_chan (RemNick (m_sNick (m_Nick m))) (m_vChans (w_net w))
         in (\<not> bIsVisible, m, on_net (\<lambda>n. n \<lparr>m_vChans := cs\<rparr>) w)))"

definition OnNickMessage :: "message \<Rightarrow> world \<Rightarrow> bool \<times> message \<times> world" where
  "OnNickMessage m w =
     (let sNewNick = Nick_GetNewNick m;
          (bIsVisible, cs) = every_chan (ChangeNick (m_sNick (m_Nick m)) sNewNick) (m_vChans (w_net w));
          w1 = on_net (\<lambda>n. n \<lparr>m_vChans := cs\<rparr>) w
      in if NickEquals (m_Nick m) (own_nick w1)
         then (True, m, put_out [PutUserMsg m] (set_own_nick sNewNick w1))
         else (\<not> bIsVisible, m, w1))"

section \<open>Modes and topic\<close>

fun user_modes :: "string \<Rightarrow> bool \<Rightarrow> char list \<Rightarrow> char list" where
  "user_modes [] bAdd s = s"
| "user_modes (cMode # ms) bAdd s =
     (if cMode = CHR ''+'' then user_modes ms True s
      else if cMode = CHR ''-'' then user_modes ms False s
      else user_modes ms bAdd (if bAdd then os_insert cMode s else os_erase cMode s))"

definition OnModeMessage :: "message \<Rightarrow> world \<Rightarrow> bool \<times> message \<times> world" where
  "OnModeMessage m w =
     (let sTarget = GetTarget m; vsModes = Mode_GetModeParams m; sModes = Mode_GetModeList m in
      case find_chan sTarget w of
        Some i \<Rightarrow>
          (let w1 = on_chan i (\<lambda>c. fst (ModeChange (w_sock w) (own_nick w) sModes vsModes c)) w
           in (detached w1 (Some i), m, w1))
      | None \<Rightarrow>
          (False, m,
           if sTarget = own_nick w
           then w \<lparr>w_sock := (w_sock w) \<lparr>m_scUserModes := user_modes sModes True (m_scUserModes (w_sock w))\<rparr>\<rparr>
           else w))"

definition OnTopicMessage :: "henv \<Rightarrow> message \<Rightarrow> world \<Rightarrow> bool \<times> message \<times> world" where
  "OnTopicMessage H m w =
     (case find_chan (GetParam m 0) w of
        None \<Rightarrow> (False, m, w)
      | Some i \<Rightarrow>
          (let (b, m1) = run_hooks H [''OnTopicMessage''] (m \<lparr>m_pChan := Some (m_sName (the_chan w i))\<rparr>)
           in if b then (True, m1, w)
              else (let w1 = on_chan i (\<lambda>c. c \<lparr>m_sTopicOwner := m_sNick (m_Nick m1),
                               m_ulTopicDate := h_time H, m_sTopic := Topic_GetTopic m1\<rparr>) w
                    in (detached w1 (Some i), m1, w1))))"

section \<open>Other messages\<close>

definition OnAccountMessage :: "message \<Rightarrow> world \<Rightarrow> bool \<times> message \<times> world" where
  "OnAccountMessage m w = (\<not> IsNickVisible (m_sNick (m_Nick m)) w, m, w)"

definition OnAwayMessage :: "message \<Rightarrow> world \<Rightarrow> bool \<times> message \<times> world" where
  "OnAwayMessage m w = (\<not> IsNickVisible (m_sNick (m_Nick m)) w, m, w)"

definition OnErrorMessage :: "message \<Rightarrow> world \<Rightarrow> bool \<times> message \<times> world" where
  "OnErrorMessage m w = (True, m, put_out [PutStatus (''Error from server: '' @ GetParam m 0)] w)"

definition OnInviteMessage :: "henv \<Rightarrow> message \<Rightarrow> world \<Rightarrow> bool \<times> message \<times> world" where
  "OnInviteMessage H m w =
     (let (b, m1) = run_hooks H [''OnInviteMessage'']
                      (m \<lparr>m_pChan := map_option (\<lambda>i. m_sName (the_chan w i)) (find_chan (GetParam m 1) w)\<rparr>)
      in if b then (True, m1, w)
         else if NickEquals (mk_nick (GetParam m1 0)) (own_nick w)
         then (let (b', m2) = run_hooks H [''OnInvite''] m1 in (b', m1, w))
         else (False, m1, w))"

definition OnPingMessage :: "henv \<Rightarrow> message \<Rightarrow> world \<Rightarrow> bool \<times> message \<times> world" where
  "OnPingMessage H m w =
     (True, m, w \<lparr>w_sock := PutIRCQuick (h_env H) (''PONG '' @ GetParam m 0) (w_sock w)\<rparr>)"

definition OnPongMessage :: "message \<Rightarrow> world \<Rightarrow> bool \<times> message \<times> world" where
  "OnPongMessage m w = (True, m, w)"

definition OnWallopsMessage :: "message \<Rightarrow> world \<Rightarrow> bool \<times> message \<times> world" where
  "OnWallopsMessage m w =
     (False, m,
      if \<not> IsUserOnline (w_net w)
      then on_net (\<lambda>n. n \<lparr>m_NoticeBuffer := snd (Buffer_AddLine
             (SetParam 0 ''{text}'' (m \<lparr>m_Nick := mk_nick (namedfmt (GetHostMask (m_Nick m)))\<rparr>))
             (GetParam m 0) (m_NoticeBuffer n))\<rparr>) w
      else w)"

text \<open>
  CHGHOST: clients without the capability see a QUIT, and for every attached channel a JOIN
  and the modes of the nick.
\<close>

definition chghost_modes :: "ircsock \<Rightarrow> string \<Rightarrow> nick \<Rightarrow> string list" where
  "chghost_modes sock sChan n =
     (let modes = filter (\<lambda>x. x \<noteq> NUL) (map (GetModeFromPerm sock) (GetPermStr (m_sPerms sock) n))
      in [sChan, ''+'' @ modes] @ replicate (length modes) (m_sNick n))"

definition chghost_emulate :: "henv \<Rightarrow> message \<Rightarrow> nick \<Rightarrow> chan \<Rightarrow> world \<Rightarrow> client_out list" where
  "chghost_emulate H m NewNick c w =
     (case FindNick (m_sNick NewNick) c of
        None \<Rightarrow> []
      | Some n \<Rightarrow>
          (let E = h_env H;
               params = chghost_modes (w_sock w) (m_sName c) (n \<lparr>m_sNick := m_sNick NewNick\<rparr>);
               ModeMsg = SetParams params (SetCommand ''MODE'' (empty_message
                  \<lparr>m_Nick := mk_nick '':irc.znc.in'', m_mssTags := m_mssTags m\<rparr>));
               JoinMsg = mk_message_from (e_parse_time E) (e_now E) NewNick ''JOIN'' [m_sName c] (m_mssTags m)
           in each_client (\<lambda>i cl. if cl_HasChgHost cl then []
                else PutClientMsg i JoinMsg #
                     (if length (m_vsParams ModeMsg) > 2 then [PutClientMsg i ModeMsg] else [])) w))"

definition OnChgHostMessage :: "henv \<Rightarrow> message \<Rightarrow> world \<Rightarrow> bool \<times> message \<times> world" where
  "OnChgHostMessage H m w =
     (if \<not> IsNickVisible (m_sNick (m_Nick m)) w then (True, m, w)
      else
        (let E = h_env H;
             QuitMsg = mk_message_from (e_parse_time E) (e_now E) (m_Nick m) ''QUIT'' [''Changing hostname''] (m_mssTags m);
             out1 = each_client (\<lambda>i cl. [PutClientMsg i (if cl_HasChgHost cl then m else QuitMsg)]) w;
             bNeedEmulate = (\<exists>cl \<in> set (m_vClients (w_net w)). \<not> cl_HasChgHost cl);
             sIdent = ChgHost_GetNewIdent m; sHost = ChgHost_GetNewHost m;
             NewNick = (m_Nick m) \<lparr>m_sIdent := sIdent, m_sHost := sHost\<rparr>;
             cs = map (OnWho (m_sNick (m_Nick m)) sIdent sHost) (m_vChans (w_net w));
             out2 = concat (map (\<lambda>c. if bNeedEmulate \<and> \<not> m_bDisabled c \<and> \<not> m_bDetached c
                                      then chghost_emulate H m NewNick c w else []) cs)
         in (True, m, put_out (out1 @ out2) (on_net (\<lambda>n. n \<lparr>m_vChans := cs\<rparr>) w))))"

end
