(* ===== verification/Irc_Numerics.thy ===== *)
theory Irc_Numerics imports Irc_Handlers begin

text \<open>
  The numeric replies (CIRCSock::OnNumericMessage), the dispatch of a line (ReadLine) and the
  ends of the connection (Disconnected, SockError, Timeout, ConnectionRefused,
  ReachedMaxBuffer, the destructor). A numeric 010 asks for the current server without a
  check: without one the code reads through a null pointer, here the value None.

  Not here: the read timeout that 001 sets, the TLS handshake that 670 starts (only that the
  socket is then encrypted), and the delay timer of the joins.
\<close>

section \<open>Helpers\<close>

definition put_lines :: "henv \<Rightarrow> string list \<Rightarrow> world \<Rightarrow> world" where
  "put_lines H ls w = fold (put_irc H) ls w"

text \<open>A numeric as the buffers keep it: the target and the braces are for the playback.\<close>

definition BufferMessage :: "message \<Rightarrow> message" where
  "BufferMessage m =
     (let f = SetParam 0 ''{target}'' (m \<lparr>m_Nick := mk_nick (namedfmt (GetHostMask (m_Nick m)))\<rparr>)
      in fold (\<lambda>i f. SetParam i (namedfmt (GetParam f i)) f) [1..<length (m_vsParams f)] f)"

definition raw_buffer :: "(buffer \<Rightarrow> buffer) \<Rightarrow> world \<Rightarrow> world" where
  "raw_buffer f w = on_net (\<lambda>n. n \<lparr>m_RawBuffer := f (m_RawBuffer n)\<rparr>) w"

definition motd_buffer :: "(buffer \<Rightarrow> buffer) \<Rightarrow> world \<Rightarrow> world" where
  "motd_buffer f w = on_net (\<lambda>n. n \<lparr>m_MotdBuffer := f (m_MotdBuffer n)\<rparr>) w"

text \<open>A reply about a channel: nothing happens if it is unknown.\<close>

definition at_chan :: "string \<Rightarrow> (nat \<Rightarrow> world \<Rightarrow> bool \<times> world) \<Rightarrow> world \<Rightarrow> bool \<times> world" where
  "at_chan s f w = (case find_chan s w of None \<Rightarrow> (False, w) | Some i \<Rightarrow> f i w)"

definition chan_reply :: "string \<Rightarrow> (chan \<Rightarrow> chan) \<Rightarrow> world \<Rightarrow> bool \<times> world" where
  "chan_reply s f w = at_chan s (\<lambda>i w. let w1 = on_chan i f w in (detached w1 (Some i), w1)) w"

section \<open>The registration\<close>

text \<open>CIRCNetwork::IRCConnected.\<close>

definition IRCConnected :: "henv \<Rightarrow> world \<Rightarrow> world" where
  "IRCConnected H w =
     (if m_uJoinDelay (w_net w) > 0 then w
      else (let (ls, out, n1) = JoinChans (h_join H) (h_user H) (w_net w)
            in put_lines H ls (put_out out (w \<lparr>w_net := n1\<rparr>))))"

definition num_welcome :: "henv \<Rightarrow> string \<Rightarrow> string \<Rightarrow> message \<Rightarrow> world \<Rightarrow> bool \<times> world" where
  "num_welcome H sServer sNick m w =
     (if m_bAuthed (w_sock w) \<and> sServer = ''irc.znc.in''
      then (True, do_quit H (put_out [PutStatus ''ZNC seems to be connected to itself, disconnecting...''] w))
      else
        (let w1 = put_irc H (''WHO '' @ sNick) (on_net (\<lambda>n. n \<lparr>m_sIRCServer := sServer\<rparr>) w);
             w2 = w1 \<lparr>w_sock := (w_sock w1) \<lparr>m_bAuthed := True\<rparr>\<rparr>;
             own = sock_Nick (w_sock w2);
             out = each_client (\<lambda>i cl. if equals_ci (Client_GetNick (Some (w_sock w2)) False cl) sNick then []
                      else [PutClient i ('':'' @ Client_GetNick (Some (w_sock w2)) False cl @ ''!'' @ m_sIdent own
                              @ ''@'' @ m_sHost own @ '' NICK :'' @ sNick)]) w2;
             w3 = put_out [PutStatus ''Connected!''] (set_own_nick sNick (put_out out w2));
             w4 = raw_buffer (\<lambda>b. snd (Buffer_AddLine (BufferMessage m) [] (Buffer_Clear b))) w3
         in (False, IRCConnected H w4)))"

definition num_isupport :: "henv \<Rightarrow> message \<Rightarrow> world \<Rightarrow> bool \<times> world" where
  "num_isupport H m w =
     (let (s', p') = ParseISupport (h_env H) m (w_sock w, m_sChanPrefixes (w_net w));
          w1 = w \<lparr>w_sock := s', w_net := (w_net w) \<lparr>m_sChanPrefixes := p'\<rparr>\<rparr>
      in (False, raw_buffer (\<lambda>b. snd (UpdateExactLine (BufferMessage m) [] b)) w1))"

definition num_redirect :: "message \<Rightarrow> world \<Rightarrow> (bool \<times> world) option" where
  "num_redirect m w =
     (case GetCurrentServer (w_net w) of
        None \<Rightarrow> None
      | Some srv \<Rightarrow>
          Some (True, put_out [PutStatus (''Server '' @ Server_GetString False srv @ '' redirects us to '' @ GetParam m 1
                   @ '':'' @ GetParam m 2 @ '' with reason: '' @ GetParam m 3),
                 PutStatus ''Perhaps you want to add it as a new server.''] w))"

section \<open>Replies about channels\<close>

definition num_modes :: "message \<Rightarrow> world \<Rightarrow> bool \<times> world" where
  "num_modes m w = at_chan (GetParam m 1) (\<lambda>i w.
     let w1 = on_chan i (\<lambda>c. fst (SetModes (w_sock w) (own_nick w) (GetParam m 2) (GetParamsSplit m 3 uint_max) c)) w
     in (\<not> m_bModeKnown (the_chan w1 i) \<or> detached w1 (Some i), w1)) w"

definition num_created :: "message \<Rightarrow> world \<Rightarrow> bool \<times> world" where
  "num_created m w = at_chan (GetParam m 1) (\<lambda>i w.
     let w1 = on_chan i (\<lambda>c. c \<lparr>m_ulCreationDate := ToULong (GetParam m 2)\<rparr>) w
     in if \<not> m_bModeKnown (the_chan w1 i) then (True, on_chan i (\<lambda>c. c \<lparr>m_bModeKnown := True\<rparr>) w1)
        else (detached w1 (Some i), w1)) w"

definition num_topic :: "string \<Rightarrow> message \<Rightarrow> world \<Rightarrow> bool \<times> world" where
  "num_topic sTopic m w = chan_reply (GetParam m 1) (\<lambda>c. c \<lparr>m_sTopic := sTopic\<rparr>) w"

definition num_topic_owner :: "message \<Rightarrow> world \<Rightarrow> bool \<times> world" where
  "num_topic_owner m w = chan_reply (GetParam m 1)
     (\<lambda>c. c \<lparr>m_sTopicOwner := GetParam m 2, m_ulTopicDate := ToULong (GetParam m 3)\<rparr>) w"

definition num_who :: "string \<Rightarrow> message \<Rightarrow> world \<Rightarrow> bool \<times> world" where
  "num_who sServer m w =
     (let sNick = GetParam m 5; sIdent = GetParam m 2; sHost = GetParam m 3;
          w1 = (if equals_ci sNick (own_nick w)
                then w \<lparr>w_sock := (w_sock w) \<lparr>sock_Nick := (sock_Nick (w_sock w)) \<lparr>m_sIdent := sIdent, m_sHost := sHost\<rparr>\<rparr>\<rparr>
                else w);
          w2 = on_net (\<lambda>n. (SetIRCNick (sock_Nick (w_sock w1)) n) \<lparr>m_sIRCServer := sServer\<rparr>) w1;
          w3 = on_net (\<lambda>n. n \<lparr>m_vChans := map (OnWho sNick sIdent sHost) (m_vChans n)\<rparr>) w2
      in (detached w3 (find_chan (GetParam m 1) w3), w3))"

definition num_names :: "message \<Rightarrow> world \<Rightarrow> bool \<times> world" where
  "num_names m w = chan_reply (GetParam m 2) (\<lambda>c. snd (AddNicks (w_sock w) (own_nick w) (GetParam m 3) c)) w"

text \<open>The only one on a channel sets the default modes.\<close>

definition num_end_names :: "henv \<Rightarrow> message \<Rightarrow> world \<Rightarrow> bool \<times> world" where
  "num_end_names H m w = at_chan (GetParam m 1) (\<lambda>i w.
     let c = the_chan w i;
         sModes = (if m_sDefaultModes c = [] then u_DefaultChanModes (h_user H) else m_sDefaultModes c);
         w1 = (if m_bIsOn c \<and> length (m_msNicks c) = 1 \<and> sModes \<noteq> []
               then put_irc H (''MODE '' @ m_sName c @ '' '' @ sModes) w else w)
     in (detached w1 (Some i), w1)) w"

section \<open>Other replies\<close>

definition num_motd :: "bool \<Rightarrow> string \<Rightarrow> message \<Rightarrow> world \<Rightarrow> bool \<times> world" where
  "num_motd bStart sServer m w =
     (if equals_ci (m_sIRCServer (w_net w)) sServer
      then (False, motd_buffer (\<lambda>b. snd (Buffer_AddLine (BufferMessage m) [] (if bStart then Buffer_Clear b else b))) w)
      else (False, w))"

definition num_bad_nick :: "henv \<Rightarrow> message \<Rightarrow> world \<Rightarrow> bool \<times> world" where
  "num_bad_nick H m w =
     (if \<not> m_bAuthed (w_sock w)
      then (let n = w_net w;
                own = (\<lambda>k v. inherited_get (h_user_get H k) v)
            in (True, w \<lparr>w_sock := SendAltNick (h_env H) (own ''nick'' (net_sNick n)) (own ''altnick'' (net_sAltNick n))
                  (expand_string H (own ''quitmsg'' (net_sQuitMsg n)) w) (GetParam m 1) (w_sock w)\<rparr>))
      else (False, w))"

definition num_linked :: "message \<Rightarrow> world \<Rightarrow> bool \<times> world" where
  "num_linked m w =
     (case (case find_chan (GetParam m 1) w of Some i \<Rightarrow> Some i | None \<Rightarrow> find_chan (GetParam m 2) w) of
        None \<Rightarrow> (False, w)
      | Some i \<Rightarrow>
          (False, put_out [PutStatus (''Channel '' @ m_sName (the_chan w i)
              @ '' is linked to another channel and was thus disabled.'')] (on_chan i Disable w)))"

definition num_tls :: "world \<Rightarrow> bool \<times> world" where
  "num_tls w = (True, if \<not> w_ssl w then put_out [PutStatus ''Switched to SSL (STARTTLS)''] (w \<lparr>w_ssl := True\<rparr>) else w)"

section \<open>The dispatch of a numeric\<close>

definition numeric_case :: "henv \<Rightarrow> nat \<Rightarrow> string \<Rightarrow> string \<Rightarrow> message \<Rightarrow> world \<Rightarrow> (bool \<times> world) option" where
  "numeric_case H uRaw sServer sNick m w =
     (if uRaw = 1 then Some (num_welcome H sServer sNick m w)
      else if uRaw = 5 then Some (num_isupport H m w)
      else if uRaw = 10 then num_redirect m w
      else if uRaw \<in> {2, 3, 4, 250, 251, 252, 254, 255, 265, 266}
      then Some (False, raw_buffer (\<lambda>b. snd (UpdateLine (m_sCommand m) (BufferMessage m) [] b)) w)
      else if uRaw = 305 then Some (False, on_net (\<lambda>n. n \<lparr>m_bIRCAway := False\<rparr>) w)
      else if uRaw = 306 then Some (False, on_net (\<lambda>n. n \<lparr>m_bIRCAway := True\<rparr>) w)
      else if uRaw = 324 then Some (num_modes m w)
      else if uRaw = 329 then Some (num_created m w)
      else if uRaw = 331 then Some (num_topic [] m w)
      else if uRaw = 332 then Some (num_topic (GetParam m 2) m w)
      else if uRaw = 333 then Some (num_topic_owner m w)
      else if uRaw = 352 then Some (num_who sServer m w)
      else if uRaw = 353 then Some (num_names m w)
      else if uRaw = 366 then Some (num_end_names H m w)
      else if uRaw \<in> {375, 422} then Some (num_motd True sServer m w)
      else if uRaw \<in> {372, 376} then Some (num_motd False sServer m w)
      else if uRaw = 437 then
        Some (if IsChan (w_net w) (GetParam m 1) \<or> sNick \<noteq> ''*'' then (False, w) else num_bad_nick H m w)
      else if uRaw \<in> {432, 433} then Some (num_bad_nick H m w)
      else if uRaw = 451 then Some (if equals_ci sNick ''CAP'' then (True, w) else num_linked m w)
      else if uRaw = 470 then Some (num_linked m w)
      else if uRaw = 670 then Some (num_tls w)
      else Some (False, w))"

definition OnNumericMessage :: "henv \<Rightarrow> message \<Rightarrow> world \<Rightarrow> (bool \<times> message \<times> world) option" where
  "OnNumericMessage H m w =
     (let (b, m1) = run_hooks H [''OnNumericMessage''] m in
      if b then Some (True, m1, w)
      else map_option (\<lambda>(r, w1). (r, m1, w1))
             (numeric_case H (Numeric_GetCode m) (GetHostMask (m_Nick m)) (GetParam m 0) m1 w))"

section \<open>A line from the server\<close>

definition dispatch_irc :: "henv \<Rightarrow> message \<Rightarrow> world \<Rightarrow> (bool \<times> message \<times> world) option" where
  "dispatch_irc H m w =
     (case m_eType m of
        TAccount \<Rightarrow> Some (OnAccountMessage m w)
      | TAction \<Rightarrow> Some (OnActionMessage H m w)
      | TAway \<Rightarrow> Some (OnAwayMessage m w)
      | TCapability \<Rightarrow>
          (let (b, s1) = OnCapabilityMessage (h_env H) m (w_sock w) in Some (b, m, w \<lparr>w_sock := s1\<rparr>))
      | TChgHost \<Rightarrow> Some (OnChgHostMessage H m w)
      | TCTCP \<Rightarrow> Some (OnCTCPMessage H m w)
      | TError \<Rightarrow> Some (OnErrorMessage m w)
      | TInvite \<Rightarrow> Some (OnInviteMessage H m w)
      | TJoin \<Rightarrow> Some (OnJoinMessage H m w)
      | TKick \<Rightarrow> Some (OnKickMessage m w)
      | TMode \<Rightarrow> Some (OnModeMessage m w)
      | TNick \<Rightarrow> Some (OnNickMessage m w)
      | TNotice \<Rightarrow> Some (OnNoticeMessage H m w)
      | TNumeric \<Rightarrow> OnNumericMessage H m w
      | TPart \<Rightarrow> Some (OnPartMessage m w)
      | TPing \<Rightarrow> Some (OnPingMessage H m w)
      | TPong \<Rightarrow> Some (OnPongMessage m w)
      | TQuit \<Rightarrow> Some (OnQuitMessage m w)
      | TTagMsg \<Rightarrow> Some (OnTagMessage H m w)
      | TText \<Rightarrow> Some (OnTextMessage H m w)
      | TTopic \<Rightarrow> Some (OnTopicMessage H m w)
      | TWallops \<Rightarrow> Some (OnWallopsMessage m w)
      | _ \<Rightarrow> Some (False, m, w))"

definition ReadLine :: "henv \<Rightarrow> string \<Rightarrow> world \<Rightarrow> world option" where
  "ReadLine H sData w =
     (let sLine = Replace_n (Replace_n sData [CHR 0x0A] []) [CHR 0x0D] [];
          (bRaw, sLine1) = h_OnRaw H sLine
      in if bRaw then Some w
         else
           (let (bMsg, m) = h_hook H ''OnRawMessage'' (line_message (h_env H) sLine1)
            in if bMsg then Some w
               else map_option (\<lambda>(bReturn, m1, w1). if bReturn then w1 else put_out [PutUserMsg m1] w1)
                      (dispatch_irc H m w)))"

section \<open>The end of the connection\<close>

text \<open>
  What all ends share. ResetChans goes over a map of channels that nothing fills, so it has
  no effect; the channels of the network are reset by the destructor.
\<close>

definition clear_buffers :: "world \<Rightarrow> world" where
  "clear_buffers w = motd_buffer Buffer_Clear (raw_buffer Buffer_Clear w)"

definition clear_modes :: "world \<Rightarrow> world" where
  "clear_modes w = w \<lparr>w_sock := (w_sock w) \<lparr>m_scUserModes := []\<rparr>\<rparr>"

definition Disconnected :: "bool \<Rightarrow> bool \<Rightarrow> world \<Rightarrow> world" where
  "Disconnected bBeingDeleted bConnectEnabled w =
     (let w1 = (if \<not> bBeingDeleted \<and> bConnectEnabled \<and> m_vServers (w_net w) \<noteq> []
                then put_out [PutStatus ''Disconnected from IRC. Reconnecting...''] w else w);
          w2 = clear_buffers w1;
          sUserMode = m_scUserModes (w_sock w2);
          n = m_IRCNick (w_net w2);
          w3 = (if sUserMode \<noteq> []
                then put_out [PutUser ('':'' @ GetNickMask n @ '' MODE '' @ m_sNick n @ '' :-'' @ sUserMode)] w2
                else w2)
      in clear_modes w3)"

definition SockError :: "bool \<Rightarrow> bool \<Rightarrow> string list \<Rightarrow> string \<Rightarrow> world \<Rightarrow> world" where
  "SockError bBeingDeleted bConnected vsSSLError sError w =
     (let w1 = (if bBeingDeleted then w
                else put_out [PutStatus (if \<not> bConnected then ''Cannot connect to IRC ('' @ sError @ ''). Retrying...''
                                         else ''Disconnected from IRC ('' @ sError @ ''). Reconnecting...'')] w)
      in clear_modes (clear_buffers (put_out (map PutStatus vsSSLError) w1)))"

definition Sock_Timeout :: "bool \<Rightarrow> world \<Rightarrow> world" where
  "Sock_Timeout bBeingDeleted w =
     clear_modes (clear_buffers
       (if bBeingDeleted then w else put_out [PutStatus ''IRC connection timed out.  Reconnecting...''] w))"

definition ConnectionRefused :: "bool \<Rightarrow> world \<Rightarrow> world" where
  "ConnectionRefused bBeingDeleted w =
     clear_buffers (if bBeingDeleted then w else put_out [PutStatus ''Connection Refused.  Reconnecting...''] w)"

definition ReachedMaxBuffer :: "henv \<Rightarrow> world \<Rightarrow> world" where
  "ReachedMaxBuffer H w = do_quit H (put_out [PutStatus ''Received a too long line from the IRC server!''] w)"

text \<open>The destructor of the socket, on the network (CIRCNetwork::IRCDisconnected).\<close>

definition IRCDisconnected :: "network \<Rightarrow> network" where
  "IRCDisconnected n = n \<lparr>m_sIRCServer := [], m_bIRCAway := False\<rparr>"

definition Sock_destroyed :: "network \<Rightarrow> network" where
  "Sock_destroyed n = IRCDisconnected (n \<lparr>m_vChans := map Chan_Reset (m_vChans n)\<rparr>)"

end
