(* ===== verification/World_Facts.thy ===== *)
theory World_Facts imports Irc_Numerics Chan_Facts begin

text \<open>
  The invariant of a connected network, and that every line the server can send keeps it:
  the channels, their nicks and modes, all buffers within their limits, the tables of the
  socket. The facts are in the collection \<open>wf_intros\<close>.
\<close>

section \<open>Channels with their buffer\<close>

definition chan_inv :: "chan \<Rightarrow> bool" where
  "chan_inv c \<longleftrightarrow> chan_ok c \<and> buffer_ok (m_Buffer c)"

lemma m_Buffer_nicks [simp]:
  "m_Buffer (upd_nick k n c) = m_Buffer c" "m_Buffer (put_nick cur ps s i h c) = m_Buffer c"
  "m_Buffer (snd (AddNick sock cur s c)) = m_Buffer c" "m_Buffer (snd (RemNick s c)) = m_Buffer c"
  "m_Buffer (snd (ChangeNick s t c)) = m_Buffer c" "m_Buffer (OnWho s i h c) = m_Buffer c"
  "m_Buffer (SetKey s c) = m_Buffer c"
  by (simp_all add: upd_nick_def put_nick_def Let_def AddNick_def RemNick_def ChangeNick_def OnWho_def SetKey_def
      split: option.split)

lemma m_Buffer_add_nicks [simp]: "m_Buffer (snd (add_nicks sock cur ns c)) = m_Buffer c"
  by (induction ns arbitrary: c) (simp_all add: split_beta Let_def)

lemma m_Buffer_AddNicks [simp]: "m_Buffer (snd (AddNicks sock cur s c)) = m_Buffer c"
  by (simp add: AddNicks_def)

lemma m_Buffer_mode [simp]:
  "m_Buffer (fst (chan_mode m b l a c)) = m_Buffer c" "m_Buffer (fst (perm_change sock cur m b s c)) = m_Buffer c"
  by (simp_all add: chan_mode_def Let_def AddMode_def RemMode_def perm_change_def split: option.split)

lemma m_Buffer_mode_loop [simp]: "m_Buffer (fst (mode_loop sock cur ms b args c)) = m_Buffer c"
  by (induction sock cur ms b args c rule: mode_loop.induct) (simp_all add: split_beta Let_def)

lemma m_Buffer_modes [simp]:
  "m_Buffer (fst (ModeChange sock cur m vs c)) = m_Buffer c" "m_Buffer (fst (SetModes sock cur m vs c)) = m_Buffer c"
  by (simp_all add: ModeChange_def SetModes_def split_beta Let_def)

lemma m_Buffer_states [simp]:
  "m_Buffer (Chan_Reset c) = m_Buffer c" "m_Buffer (SetIsOn b c) = m_Buffer c" "m_Buffer (Enable c) = m_Buffer c"
  "m_Buffer (Disable c) = m_Buffer c" "m_Buffer (IncJoinTries c) = m_Buffer c"
  by (simp_all add: Chan_Reset_def ResetJoinTries_def SetIsOn_def Enable_def Disable_def IncJoinTries_def Let_def)

lemma chan_inv_nicks [wf_intros]:
  "chan_inv c \<Longrightarrow> chan_inv (snd (AddNick sock cur s c))" "chan_inv c \<Longrightarrow> chan_inv (snd (RemNick s c))"
  "chan_inv c \<Longrightarrow> chan_inv (snd (ChangeNick s t c))" "chan_inv c \<Longrightarrow> chan_inv (OnWho s i h c)"
  "chan_inv c \<Longrightarrow> chan_inv (snd (AddNicks sock cur s c))"
  by (simp_all add: chan_inv_def chan_ok_AddNick chan_ok_RemNick chan_ok_ChangeNick chan_ok_OnWho chan_ok_AddNicks)

lemma chan_inv_modes [wf_intros]:
  "chan_inv c \<Longrightarrow> chan_inv (fst (ModeChange sock cur m vs c))" "chan_inv c \<Longrightarrow> chan_inv (fst (SetModes sock cur m vs c))"
  by (simp_all add: chan_inv_def chan_ok_ModeChange chan_ok_SetModes)

lemma chan_ok_settings [simp]:
  "chan_ok (Enable c) = chan_ok c" "chan_ok (Disable c) = chan_ok c" "chan_ok (IncJoinTries c) = chan_ok c"
  "chan_ok (c \<lparr>m_Buffer := b\<rparr>) = chan_ok c" "chan_ok (c \<lparr>m_sTopic := t\<rparr>) = chan_ok c"
  "chan_ok (c \<lparr>m_sTopicOwner := t, m_ulTopicDate := d\<rparr>) = chan_ok c"
  "chan_ok (c \<lparr>m_sTopicOwner := t, m_ulTopicDate := d, m_sTopic := x\<rparr>) = chan_ok c"
  "chan_ok (c \<lparr>m_ulCreationDate := d\<rparr>) = chan_ok c" "chan_ok (c \<lparr>m_bModeKnown := f\<rparr>) = chan_ok c"
  by (simp_all add: chan_ok_def Enable_def Disable_def IncJoinTries_def ResetJoinTries_def)

lemma chan_inv_settings [wf_intros]:
  "chan_inv c \<Longrightarrow> chan_inv (SetIsOn b c)" "chan_inv c \<Longrightarrow> chan_inv (Enable c)" "chan_inv c \<Longrightarrow> chan_inv (Disable c)"
  "chan_inv c \<Longrightarrow> chan_inv (IncJoinTries c)" "chan_inv c \<Longrightarrow> chan_inv (Chan_Reset c)"
  "chan_inv c \<Longrightarrow> chan_inv (c \<lparr>m_sTopic := t\<rparr>)"
  "chan_inv c \<Longrightarrow> chan_inv (c \<lparr>m_sTopicOwner := t, m_ulTopicDate := d\<rparr>)"
  "chan_inv c \<Longrightarrow> chan_inv (c \<lparr>m_sTopicOwner := t, m_ulTopicDate := d, m_sTopic := x\<rparr>)"
  "chan_inv c \<Longrightarrow> chan_inv (c \<lparr>m_ulCreationDate := e\<rparr>)" "chan_inv c \<Longrightarrow> chan_inv (c \<lparr>m_bModeKnown := f\<rparr>)"
  "chan_inv c \<Longrightarrow> chan_inv (c \<lparr>m_Buffer := snd (Buffer_AddLine m s (m_Buffer c))\<rparr>)"
  by (simp_all add: chan_inv_def chan_ok_SetIsOn)

lemma chan_inv_upd_nick [wf_intros]:
  "chan_inv c \<Longrightarrow> m_sNick n = k \<Longrightarrow> perms_ok n \<Longrightarrow> chan_inv (upd_nick k n c)"
  by (simp add: chan_inv_def)

lemma chan_inv_mk_chan [wf_intros]: "chan_inv (mk_chan U on isc s b None)"
proof -
  have "perms_ok empty_nick" by simp
  then show ?thesis by (simp add: chan_inv_def mk_chan_def Let_def chan_ok_def)
qed

section \<open>The network and the socket\<close>

definition net_inv :: "network \<Rightarrow> bool" where
  "net_inv n \<longleftrightarrow> list_all chan_inv (m_vChans n) \<and> list_all (\<lambda>q. buffer_ok (q_Buffer q)) (m_vQueries n) \<and>
     buffer_ok (m_RawBuffer n) \<and> buffer_ok (m_MotdBuffer n) \<and> buffer_ok (m_NoticeBuffer n)"

definition sock_inv :: "ircsock \<Rightarrow> bool" where
  "sock_inv s \<longleftrightarrow> tables_ok s \<and> caps_ok s \<and> os_ok (m_scUserModes s)"

definition world_inv :: "world \<Rightarrow> bool" where
  "world_inv w \<longleftrightarrow> sock_inv (w_sock w) \<and> net_inv (w_net w)"

lemma sock_inv_rest:
  assumes "rest_of s' = rest_of s"
  shows "sock_inv s' = sock_inv s"
  by (simp add: sock_inv_def tables_ok_def caps_ok_def rest_of_fields [OF assms])

lemma sock_inv_send [simp]:
  "sock_inv (PutIRC E l s) = sock_inv s" "sock_inv (PutIRCQuick E l s) = sock_inv s"
  "sock_inv (s \<lparr>s_out := os\<rparr>) = sock_inv s"
  by (rule sock_inv_rest, simp)+

lemma sock_inv_upd [simp]:
  "sock_inv (s \<lparr>sock_Nick := n\<rparr>) = sock_inv s" "sock_inv (s \<lparr>m_bAuthed := b\<rparr>) = sock_inv s"
  "sock_inv (s \<lparr>m_lastCTCP := t\<rparr>) = sock_inv s" "sock_inv (s \<lparr>m_uNumCTCP := k\<rparr>) = sock_inv s"
  "sock_inv (s \<lparr>s_close := cl\<rparr>) = sock_inv s" "sock_inv (s \<lparr>m_uMaxNickLen := k\<rparr>) = sock_inv s"
  by (simp_all add: sock_inv_def tables_ok_def caps_ok_def)

lemma sock_inv_Quit [simp]: "sock_inv (Quit E d q s) = sock_inv s"
  by (simp add: Quit_def)

lemma sock_inv_SendAltNick [simp]: "sock_inv (SendAltNick E c a q b s) = sock_inv s"
  by (simp add: SendAltNick_def Let_def split: option.split)

lemma world_inv_put_out [wf_intros]: "world_inv w \<Longrightarrow> world_inv (put_out os w)"
  by (simp add: world_inv_def put_out_def)

lemma world_inv_put_irc [wf_intros]: "world_inv w \<Longrightarrow> world_inv (put_irc H l w)"
  by (simp add: world_inv_def put_irc_def)

lemma world_inv_put_lines [wf_intros]: "world_inv w \<Longrightarrow> world_inv (put_lines H ls w)"
  unfolding put_lines_def by (induction ls arbitrary: w) (simp_all add: world_inv_put_irc)

lemma world_inv_on_net [wf_intros]:
  "world_inv w \<Longrightarrow> (net_inv (w_net w) \<Longrightarrow> net_inv (f (w_net w))) \<Longrightarrow> world_inv (on_net f w)"
  by (simp add: world_inv_def on_net_def)

lemma world_inv_upd:
  "world_inv w \<Longrightarrow> (sock_inv (w_sock w) \<Longrightarrow> sock_inv s) \<Longrightarrow> world_inv (w \<lparr>w_sock := s\<rparr>)"
  "world_inv w \<Longrightarrow> (net_inv (w_net w) \<Longrightarrow> net_inv n) \<Longrightarrow> world_inv (w \<lparr>w_net := n\<rparr>)"
  by (simp_all add: world_inv_def)

lemma net_inv_upd_chan [wf_intros]:
  "net_inv n \<Longrightarrow> (\<And>c. chan_inv c \<Longrightarrow> chan_inv (f c)) \<Longrightarrow> net_inv (upd_chan i f n)"
  by (cases "i < length (m_vChans n)")
    (auto simp: net_inv_def upd_chan_def list_all_iff list_update_beyond
      dest!: subsetD [OF set_update_subset_insert])

lemma world_inv_on_chan [wf_intros]:
  "world_inv w \<Longrightarrow> (\<And>c. chan_inv c \<Longrightarrow> chan_inv (f c)) \<Longrightarrow> world_inv (on_chan i f w)"
  unfolding on_chan_def by (intro wf_intros)

lemma net_inv_settings [simp]:
  "net_inv (n \<lparr>m_sIRCServer := s\<rparr>) = net_inv n" "net_inv (n \<lparr>m_bIRCAway := b\<rparr>) = net_inv n"
  "net_inv (n \<lparr>m_sChanPrefixes := p\<rparr>) = net_inv n" "net_inv (SetIRCNick k n) = net_inv n"
  by (simp_all add: net_inv_def SetIRCNick_def)

lemma net_inv_chans:
  "net_inv n \<Longrightarrow> list_all chan_inv cs \<Longrightarrow> net_inv (n \<lparr>m_vChans := cs\<rparr>)"
  by (simp add: net_inv_def)

lemma net_inv_AddChan [wf_intros]: "net_inv n \<Longrightarrow> net_inv (snd (AddChan so U s b n))"
  by (simp add: AddChan_def) (simp add: net_inv_def chan_inv_mk_chan)

lemma net_inv_DelChan [wf_intros]: "net_inv n \<Longrightarrow> net_inv (snd (DelChan s n))"
  by (auto simp: DelChan_def net_inv_def list_all_iff dest: in_set_takeD in_set_dropD split: option.split)

lemma set_erase_to: "set (erase_to k xs) \<subseteq> set xs"
  by (induction xs) auto

lemma buffer_ok_mk_query [simp]: "buffer_ok (q_Buffer (mk_query U s))"
  by (simp add: mk_query_def)

lemma net_inv_AddQuery [wf_intros]: "net_inv n \<Longrightarrow> net_inv (snd (AddQuery U s n))"
  using set_erase_to [of "u_MaxQueryBuffers U" "m_vQueries n @ [mk_query U s]"]
  by (auto simp: AddQuery_def Let_def net_inv_def list_all_iff split: option.split)

lemma net_inv_query_AddBuffer [wf_intros]:
  assumes "net_inv n" and "i < length (m_vQueries n)"
  shows "net_inv (query_AddBuffer i m s n)"
proof -
  have "buffer_ok (q_Buffer (m_vQueries n ! i))"
    using assms by (simp add: net_inv_def list_all_length)
  then show ?thesis
    using assms(1) by (auto simp: net_inv_def query_AddBuffer_def list_all_iff dest!: subsetD [OF set_update_subset_insert])
qed

lemma list_all_map_chans: "(\<And>c. chan_inv c \<Longrightarrow> chan_inv (f c)) \<Longrightarrow> list_all chan_inv cs \<Longrightarrow> list_all chan_inv (map f cs)"
  by (auto simp: list_all_iff)

lemma list_all_every_chan:
  "(\<And>c. chan_inv c \<Longrightarrow> chan_inv (snd (f c))) \<Longrightarrow> list_all chan_inv cs \<Longrightarrow> list_all chan_inv (snd (every_chan f cs))"
  by (induction cs) (auto simp: split_beta Let_def)

end
