(* ===== verification/Handler_Facts.thy ===== *)
theory Handler_Facts imports World_Facts begin

text \<open>
  Every handler of CIRCSock keeps the invariant of the world, and so does a line from the
  server, whatever it is and whatever the module hooks answer.
\<close>

section \<open>Looking up\<close>

lemma find_idx_Some: "find_idx P xs = Some i \<Longrightarrow> i < length xs \<and> P (xs ! i)"
  by (induction xs arbitrary: i) (auto split: if_splits)

lemma find_idx_None: "find_idx P xs = None \<longleftrightarrow> (\<forall>x \<in> set xs. \<not> P x)"
  by (induction xs) auto

lemma find_chan_Some:
  assumes "find_chan s w = Some i"
  shows "i < length (m_vChans (w_net w))"
  using assms by (auto simp: find_chan_def FindChan_def Let_def dest: find_idx_Some)

lemma chan_inv_the_chan: "world_inv w \<Longrightarrow> find_chan s w = Some i \<Longrightarrow> chan_inv (the_chan w i)"
  using find_chan_Some [of s w i] by (simp add: world_inv_def net_inv_def the_chan_def list_all_length)

lemma find_chan_out [simp]: "find_chan s (put_out os w) = find_chan s w"
  by (simp add: find_chan_def put_out_def FindChan_def GetISupport_def)

lemma find_idx_upd: "(\<And>c. P (f c) = P c) \<Longrightarrow> find_idx P (xs[i := f (xs ! i)]) = find_idx P xs"
proof (induction xs arbitrary: i)
  case (Cons x xs)
  then show ?case by (cases i) simp_all
qed simp

section \<open>Messages to a target\<close>

lemma world_inv_FixupChanNick:
  assumes "world_inv w" and "find_chan s w = Some i"
  shows "world_inv (snd (FixupChanNick m i w))"
proof (cases "FindNick (m_sNick (m_Nick m)) (the_chan w i)")
  case (Some n)
  have "chan_inv (the_chan w i)" by (rule chan_inv_the_chan [OF assms])
  then have n: "m_sNick n = m_sNick (m_Nick m)" "perms_ok n"
    using FindNick_ok [OF _ Some] by (simp_all add: chan_inv_def)
  show ?thesis
    unfolding FixupChanNick_def Let_def Some
    using n assms(1) by (auto intro!: wf_intros)
qed (simp add: FixupChanNick_def assms(1))

lemma AddQuery_index:
  assumes "fst (AddQuery U s n) = Some i"
  shows "i < length (m_vQueries (snd (AddQuery U s n)))"
proof (cases "FindQuery s n")
  case None
  have "0 < k \<Longrightarrow> erase_to k (m_vQueries n @ [x]) \<noteq> []" for k x
    by (simp add: erase_to_newest newest_def)
  then show ?thesis using assms None by (auto simp: AddQuery_def Let_def split: if_splits)
next
  case (Some j)
  then show ?thesis using assms find_idx_Some by (fastforce simp: AddQuery_def FindQuery_def split: if_splits)
qed

lemma world_inv_buffer_private [wf_intros]: "world_inv w \<Longrightarrow> world_inv (buffer_private H st t m w)"
proof -
  assume w: "world_inv w"
  let ?q = "AddQuery (h_user H) (m_sNick (m_Nick m)) (w_net w)"
  have n: "net_inv (snd ?q)" using w by (auto simp: world_inv_def intro: wf_intros)
  show ?thesis
  proof (cases "fst ?q")
    case None
    then show ?thesis using w n by (auto simp: buffer_private_def world_inv_def split: prod.split option.split)
  next
    case (Some i)
    have "i < length (m_vQueries (snd ?q))"
      by (rule AddQuery_index [OF Some])
    then show ?thesis using w n Some
      by (auto simp: buffer_private_def world_inv_def net_inv_query_AddBuffer split: prod.split option.split)
  qed
qed

lemma world_inv_buffer_chan [wf_intros]: "world_inv w \<Longrightarrow> world_inv (buffer_chan st t m i w)"
  unfolding buffer_chan_def Let_def by (auto intro!: wf_intros)

lemma world_inv_to_channel: "world_inv w \<Longrightarrow> world_inv (snd (snd (to_channel H hs st gt m w)))"
  by (auto simp: to_channel_def Let_def split_beta split: option.split
      intro!: world_inv_buffer_chan world_inv_FixupChanNick)

lemma world_inv_on_target: "world_inv w \<Longrightarrow> world_inv (snd (snd (on_target_message H ph ch st gt m w)))"
  by (simp add: on_target_message_def split_beta Let_def world_inv_to_channel world_inv_buffer_private)

lemma world_inv_texts:
  assumes "world_inv w"
  shows "world_inv (snd (snd (OnTextMessage H m w)))" "world_inv (snd (snd (OnActionMessage H m w)))"
    "world_inv (snd (snd (OnTagMessage H m w)))"
  using assms by (simp_all add: OnTextMessage_def OnActionMessage_def OnTagMessage_def world_inv_on_target)

lemma net_inv_notice [simp]:
  "net_inv n \<Longrightarrow> net_inv (n \<lparr>m_NoticeBuffer := snd (Buffer_AddLine m s (m_NoticeBuffer n))\<rparr>)"
  by (simp add: net_inv_def)

lemma world_inv_notice:
  "world_inv w \<Longrightarrow> world_inv (snd (snd (OnNoticeMessage H m w)))"
  by (auto simp: OnNoticeMessage_def split_beta Let_def world_inv_to_channel intro!: wf_intros)

section \<open>CTCP\<close>

lemma sock_inv_ctcp_allowed [simp]: "sock_inv (snd (ctcp_allowed now s)) = sock_inv s"
  by (simp add: ctcp_allowed_def Let_def)

lemma world_inv_ctcp_reply: "world_inv w \<Longrightarrow> world_inv (snd (snd (ctcp_reply H m c w)))"
  by (auto simp: ctcp_reply_def Let_def split_beta intro!: wf_intros world_inv_upd)

lemma world_inv_ctcp: "world_inv w \<Longrightarrow> world_inv (snd (snd (OnCTCPMessage H m w)))"
  by (auto simp: OnCTCPMessage_def split_beta Let_def split: option.split
      intro!: world_inv_ctcp_reply world_inv_FixupChanNick)

section \<open>Membership\<close>

lemma world_inv_join: "world_inv w \<Longrightarrow> world_inv (snd (snd (OnJoinMessage H m w)))"
  by (auto simp: OnJoinMessage_def split_beta Let_def split: option.split intro!: wf_intros)

lemma world_inv_kick: "world_inv w \<Longrightarrow> world_inv (snd (snd (OnKickMessage m w)))"
  by (auto simp: OnKickMessage_def split_beta Let_def split: option.split intro!: wf_intros)

lemma world_inv_part: "world_inv w \<Longrightarrow> world_inv (snd (snd (OnPartMessage m w)))"
  by (auto simp: OnPartMessage_def split_beta Let_def split: option.split intro!: wf_intros)

lemma world_inv_every_chan:
  assumes "world_inv w" and "\<And>c. chan_inv c \<Longrightarrow> chan_inv (snd (f c))"
  shows "world_inv (on_net (\<lambda>n. n \<lparr>m_vChans := snd (every_chan f (m_vChans (w_net w)))\<rparr>) w)"
  using assms(1) list_all_every_chan [of f "m_vChans (w_net w)", OF assms(2)]
  by (simp add: world_inv_def on_net_def) (simp add: net_inv_def)

lemma world_inv_quit: "world_inv w \<Longrightarrow> world_inv (snd (snd (OnQuitMessage m w)))"
  by (auto simp: OnQuitMessage_def split_beta Let_def intro!: wf_intros world_inv_every_chan)

lemma world_inv_set_own_nick [wf_intros]: "world_inv w \<Longrightarrow> world_inv (set_own_nick s w)"
  unfolding set_own_nick_def Let_def by (intro wf_intros world_inv_upd) simp_all

lemma world_inv_nick: "world_inv w \<Longrightarrow> world_inv (snd (snd (OnNickMessage m w)))"
  by (auto simp: OnNickMessage_def split_beta Let_def intro!: wf_intros world_inv_every_chan)

section \<open>Modes, topic and the rest\<close>

lemma os_ok_user_modes: "os_ok s \<Longrightarrow> os_ok (user_modes ms b s)"
  by (induction ms b s rule: user_modes.induct) simp_all

lemma world_inv_mode: "world_inv w \<Longrightarrow> world_inv (snd (snd (OnModeMessage m w)))"
proof -
  assume w: "world_inv w"
  have "sock_inv ((w_sock w) \<lparr>m_scUserModes := user_modes ms b (m_scUserModes (w_sock w))\<rparr>)" for ms b
    using w by (simp add: world_inv_def sock_inv_def os_ok_user_modes) (simp add: tables_ok_def caps_ok_def)
  then show ?thesis using w
    by (auto simp: OnModeMessage_def Let_def split: option.split intro!: wf_intros world_inv_upd)
qed

lemma world_inv_topic: "world_inv w \<Longrightarrow> world_inv (snd (snd (OnTopicMessage H m w)))"
  by (auto simp: OnTopicMessage_def split_beta Let_def split: option.split intro!: wf_intros)

lemma world_inv_others:
  assumes "world_inv w"
  shows "world_inv (snd (snd (OnAccountMessage m w)))" "world_inv (snd (snd (OnAwayMessage m w)))"
    "world_inv (snd (snd (OnErrorMessage m w)))" "world_inv (snd (snd (OnInviteMessage H m w)))"
    "world_inv (snd (snd (OnPingMessage H m w)))" "world_inv (snd (snd (OnPongMessage m w)))"
    "world_inv (snd (snd (OnWallopsMessage m w)))"
  using assms
  by (auto simp: OnAccountMessage_def OnAwayMessage_def OnErrorMessage_def OnInviteMessage_def OnPingMessage_def
      OnPongMessage_def OnWallopsMessage_def split_beta Let_def intro!: wf_intros world_inv_upd)

lemma world_inv_map_chans:
  assumes "world_inv w" and "\<And>c. chan_inv c \<Longrightarrow> chan_inv (f c)"
  shows "world_inv (on_net (\<lambda>n. n \<lparr>m_vChans := map f (m_vChans (w_net w))\<rparr>) w)"
  using assms(1) list_all_map_chans [of f "m_vChans (w_net w)", OF assms(2)]
  by (simp add: world_inv_def on_net_def) (simp add: net_inv_def)

lemma world_inv_chghost: "world_inv w \<Longrightarrow> world_inv (snd (snd (OnChgHostMessage H m w)))"
  by (auto simp: OnChgHostMessage_def Let_def intro!: wf_intros world_inv_map_chans)

section \<open>Numerics\<close>

lemma world_inv_at_chan:
  "world_inv w \<Longrightarrow> (\<And>i. world_inv (snd (f i w))) \<Longrightarrow> world_inv (snd (at_chan s f w))"
  by (simp add: at_chan_def split: option.split)

lemma world_inv_chan_reply:
  "world_inv w \<Longrightarrow> (\<And>c. chan_inv c \<Longrightarrow> chan_inv (f c)) \<Longrightarrow> world_inv (snd (chan_reply s f w))"
  unfolding chan_reply_def Let_def by (rule world_inv_at_chan) (simp_all add: world_inv_on_chan)

lemma world_inv_buffers [wf_intros]:
  assumes "world_inv w" and "\<And>b. buffer_ok b \<Longrightarrow> buffer_ok (f b)"
  shows "world_inv (raw_buffer f w)" "world_inv (motd_buffer f w)"
  using assms by (simp_all add: raw_buffer_def motd_buffer_def on_net_def world_inv_def net_inv_def)

lemma chan_inv_JoinChan: "chan_inv c \<Longrightarrow> chan_inv (snd (snd (JoinChan J U c)))"
  by (simp add: JoinChan_def Let_def chan_inv_settings)

lemma net_inv_join_pick:
  "net_inv n \<Longrightarrow> list_all (\<lambda>i. i < length (m_vChans n)) is \<Longrightarrow> net_inv (snd (snd (join_pick J U is k n)))"
proof (induction "is" arbitrary: k n)
  case (Cons idx "is")
  let ?c = "m_vChans n ! idx"
  let ?n = "upd_chan idx (\<lambda>_. snd (snd (JoinChan J U ?c))) n"
  have "idx < length (m_vChans n)" using Cons.prems(2) by simp
  then have "chan_inv ?c" using Cons.prems(1) by (simp add: net_inv_def list_all_iff)
  then have "net_inv ?n"
    using Cons.prems(1) chan_inv_JoinChan
    by (auto simp: net_inv_def upd_chan_def list_all_iff dest!: subsetD [OF set_update_subset_insert])
  moreover have "list_all (\<lambda>i. i < length (m_vChans ?n)) is"
    using Cons.prems(2) by (simp add: upd_chan_def)
  ultimately have "net_inv ?n" "net_inv (snd (snd (join_pick J U is k' ?n)))" for k'
    using Cons.IH by simp_all
  then show ?case using Cons.IH [OF Cons.prems(1)] Cons.prems(2) by (simp add: Let_def split_beta)
qed simp

lemma net_inv_JoinChans [wf_intros]: "net_inv n \<Longrightarrow> net_inv (snd (snd (JoinChans J U n)))"
  using net_inv_join_pick [of n "map (\<lambda>a. (j_start J mod length (m_vChans n) + a) mod length (m_vChans n)) [0..<length (m_vChans n)]"]
  by (simp add: JoinChans_def Let_def split_beta list_all_iff)

lemma world_inv_IRCConnected [wf_intros]: "world_inv w \<Longrightarrow> world_inv (IRCConnected H w)"
  by (auto simp: IRCConnected_def split_beta Let_def intro!: wf_intros world_inv_upd)

lemma world_inv_do_quit [wf_intros]: "world_inv w \<Longrightarrow> world_inv (do_quit H w)"
  unfolding do_quit_def by (intro world_inv_upd) simp_all

lemma world_inv_welcome: "world_inv w \<Longrightarrow> world_inv (snd (num_welcome H s k m w))"
  by (auto simp: num_welcome_def Let_def intro!: wf_intros world_inv_upd)

lemma caps_ok_isupport: "caps_ok (fst st) \<Longrightarrow> caps_ok (fst (isupport_param E k v st))"
  by (cases st) (simp add: isupport_param_def Let_def parse_prefix_def, simp add: caps_ok_def)

lemma caps_ok_isupport_loop: "caps_ok (fst st) \<Longrightarrow> caps_ok (fst (isupport_loop E ps st))"
  by (induction E ps st rule: isupport_loop.induct) (simp_all add: Let_def caps_ok_isupport)

lemma modes_isupport [simp]: "m_scUserModes (fst (isupport_param E k v st)) = m_scUserModes (fst st)"
  by (cases st) (simp add: isupport_param_def Let_def parse_prefix_def)

lemma modes_isupport_loop [simp]: "m_scUserModes (fst (isupport_loop E ps st)) = m_scUserModes (fst st)"
  by (induction ps arbitrary: st) (simp_all add: Let_def)

lemma sock_inv_ParseISupport: "sock_inv (fst st) \<Longrightarrow> sock_inv (fst (ParseISupport E m st))"
  by (simp add: sock_inv_def tables_ok_ParseISupport) (simp add: ParseISupport_def caps_ok_isupport_loop)

lemma world_inv_isupport: "world_inv w \<Longrightarrow> world_inv (snd (num_isupport H m w))"
  using sock_inv_ParseISupport [of "(w_sock w, m_sChanPrefixes (w_net w))" "h_env H" m]
  by (auto simp: num_isupport_def split_beta Let_def world_inv_def intro!: world_inv_buffers(1) [unfolded world_inv_def])

lemma world_inv_redirect: "world_inv w \<Longrightarrow> num_redirect m w = Some (r, w1) \<Longrightarrow> world_inv w1"
  by (auto simp: num_redirect_def split: option.splits intro!: wf_intros)

lemma world_inv_chan_replies:
  assumes "world_inv w"
  shows "world_inv (snd (num_modes m w))" "world_inv (snd (num_created m w))" "world_inv (snd (num_topic t m w))"
    "world_inv (snd (num_topic_owner m w))" "world_inv (snd (num_names m w))" "world_inv (snd (num_end_names H m w))"
  using assms
  by (auto simp: num_modes_def num_created_def num_topic_def num_topic_owner_def num_names_def num_end_names_def Let_def
      intro!: world_inv_at_chan world_inv_chan_reply wf_intros)

lemma world_inv_who: "world_inv w \<Longrightarrow> world_inv (snd (num_who s m w))"
proof -
  let ?f = "OnWho (GetParam m 5) (GetParam m 2) (GetParam m 3)"
  let ?k = "sock_Nick (w_sock w)" and ?k' = "(sock_Nick (w_sock w)) \<lparr>m_sIdent := GetParam m 2, m_sHost := GetParam m 3\<rparr>"
  assume "world_inv w"
  moreover from this have "list_all chan_inv (map ?f (m_vChans (w_net w)))"
    by (intro list_all_map_chans chan_inv_nicks) (simp_all add: world_inv_def net_inv_def)
  ultimately show ?thesis
    by (simp add: num_who_def Let_def on_net_def world_inv_def) (simp add: net_inv_def SetIRCNick_def)
qed

lemma world_inv_num_others:
  assumes "world_inv w"
  shows "world_inv (snd (num_motd b s m w))" "world_inv (snd (num_bad_nick H m w))"
    "world_inv (snd (num_linked m w))" "world_inv (snd (num_tls w))"
proof -
  show "world_inv (snd (num_motd b s m w))" "world_inv (snd (num_linked m w))"
    using assms by (auto simp: num_motd_def num_linked_def split: option.split intro!: wf_intros)
  show "world_inv (snd (num_bad_nick H m w))"
    using assms by (simp add: num_bad_nick_def Let_def world_inv_def)
  show "world_inv (snd (num_tls w))"
    using assms by (simp add: num_tls_def world_inv_def put_out_def)
qed

text \<open>The worlds of a result that may be undefined.\<close>

definition inv_opt :: "(bool \<times> world) option \<Rightarrow> bool" where
  "inv_opt x \<longleftrightarrow> (case x of None \<Rightarrow> True | Some y \<Rightarrow> world_inv (snd y))"

lemma inv_opt_intros:
  "world_inv (snd y) \<Longrightarrow> inv_opt (Some y)" "inv_opt x \<Longrightarrow> inv_opt z \<Longrightarrow> inv_opt (if b then x else z)"
  by (simp_all add: inv_opt_def)

lemma world_inv_pairs:
  "world_inv w \<Longrightarrow> world_inv (snd (b, w))" "world_inv (snd y) \<Longrightarrow> world_inv (snd z) \<Longrightarrow> world_inv (snd (if c then y else z))"
  by simp_all

lemma inv_opt_numeric:
  assumes "world_inv w"
  shows "inv_opt (numeric_case H u s k m w)"
proof -
  have red: "inv_opt (num_redirect m w)"
    using world_inv_redirect [OF assms] by (auto simp: inv_opt_def split: option.split)
  have away: "world_inv (on_net (\<lambda>n. n \<lparr>m_bIRCAway := b\<rparr>) w)" for b
    using assms by (simp add: on_net_def world_inv_def)
  have raw: "world_inv (raw_buffer (\<lambda>b. snd (UpdateLine c m t b)) w)" for c m t
    using assms by (intro world_inv_buffers buffer_ok_UpdateLine)
  show ?thesis
    unfolding numeric_case_def
    by (intro inv_opt_intros red world_inv_welcome world_inv_isupport world_inv_chan_replies world_inv_who
        world_inv_num_others world_inv_pairs away raw assms)
qed

section \<open>A line\<close>

lemma set_cap_tables [simp]:
  "m_sPerms (set_cap c b s) = m_sPerms s" "m_sPermModes (set_cap c b s) = m_sPermModes s"
  "m_scUserModes (set_cap c b s) = m_scUserModes s"
  by (auto simp: set_cap_def cap_handler_def split: option.split if_splits)

lemma cap_steps_tables [simp]:
  "tables_ok (cap_offer E t s) = tables_ok s" "tables_ok (cap_ack t s) = tables_ok s"
  "tables_ok (RemoveCap t s) = tables_ok s" "tables_ok (cap_del t s) = tables_ok s"
  "m_scUserModes (cap_offer E t s) = m_scUserModes s" "m_scUserModes (cap_ack t s) = m_scUserModes s"
  "m_scUserModes (RemoveCap t s) = m_scUserModes s" "m_scUserModes (cap_del t s) = m_scUserModes s"
  by (simp_all add: tables_ok_def cap_offer_def cap_ack_def cap_del_def RemoveCap_def Let_def split: prod.split)

lemma fold_same: "(\<And>x s. P (f x s) = P s) \<Longrightarrow> P (fold f xs s) = P s"
  by (induction xs arbitrary: s) simp_all

lemma cap_reply_tables [simp]:
  "tables_ok (cap_reply E c a s) = tables_ok s" "m_scUserModes (cap_reply E c a s) = m_scUserModes s"
  by (simp_all add: cap_reply_def Let_def fold_same [where P = tables_ok] fold_same [where P = m_scUserModes])
    (simp add: tables_ok_def)

lemma SendNextCap_tables [simp]:
  "tables_ok (SendNextCap E s) = tables_ok s" "m_scUserModes (SendNextCap E s) = m_scUserModes s"
  by (simp_all add: SendNextCap_def tables_ok_def split: list.split prod.split)

lemma sock_inv_caps: "sock_inv s \<Longrightarrow> sock_inv (snd (OnCapabilityMessage E m s))"
  by (simp add: sock_inv_def caps_ok_OnCapabilityMessage)
    (simp add: OnCapabilityMessage_def Let_def split: prod.split)

text \<open>The dispatch: what is undefined, and the invariant otherwise.\<close>

definition inv_opt3 :: "(bool \<times> message \<times> world) option \<Rightarrow> bool" where
  "inv_opt3 x \<longleftrightarrow> (case x of None \<Rightarrow> True | Some y \<Rightarrow> world_inv (snd (snd y)))"

lemma inv_opt3_Some: "world_inv (snd (snd y)) \<Longrightarrow> inv_opt3 (Some y)"
  by (simp add: inv_opt3_def)

lemma inv_opt3_numeric:
  assumes "world_inv w"
  shows "inv_opt3 (OnNumericMessage H m w)"
proof -
  have "inv_opt x \<Longrightarrow> inv_opt3 (map_option (\<lambda>(r, w1). (r, m1, w1)) x)" for x m1
    by (auto simp: inv_opt_def inv_opt3_def split: option.split)
  then show ?thesis
    using assms by (simp add: OnNumericMessage_def split_beta Let_def inv_opt_numeric inv_opt3_Some)
qed

lemma inv_opt3_dispatch:
  assumes "world_inv w"
  shows "inv_opt3 (dispatch_irc H m w)"
proof -
  have caps: "inv_opt3 (case OnCapabilityMessage (h_env H) m (w_sock w) of (b, s1) \<Rightarrow> Some (b, m, w \<lparr>w_sock := s1\<rparr>))"
    using sock_inv_caps [of "w_sock w" "h_env H" m] assms
    by (auto simp: inv_opt3_def world_inv_def split: prod.split)
  have none: "inv_opt3 (Some (False, m, w))" using assms by (simp add: inv_opt3_def)
  note some = inv_opt3_Some [OF world_inv_texts(1)] inv_opt3_Some [OF world_inv_texts(2)]
    inv_opt3_Some [OF world_inv_texts(3)] inv_opt3_Some [OF world_inv_notice] inv_opt3_Some [OF world_inv_ctcp]
    inv_opt3_Some [OF world_inv_join] inv_opt3_Some [OF world_inv_kick] inv_opt3_Some [OF world_inv_part]
    inv_opt3_Some [OF world_inv_quit] inv_opt3_Some [OF world_inv_nick] inv_opt3_Some [OF world_inv_mode]
    inv_opt3_Some [OF world_inv_topic] inv_opt3_Some [OF world_inv_chghost]
    inv_opt3_Some [OF world_inv_others(1)] inv_opt3_Some [OF world_inv_others(2)]
    inv_opt3_Some [OF world_inv_others(3)] inv_opt3_Some [OF world_inv_others(4)]
    inv_opt3_Some [OF world_inv_others(5)] inv_opt3_Some [OF world_inv_others(6)]
    inv_opt3_Some [OF world_inv_others(7)]
  show ?thesis
    by (cases "m_eType m")
      (simp_all add: dispatch_irc_def caps none inv_opt3_numeric some assms)
qed

lemma world_inv_ReadLine:
  assumes "world_inv w" and "ReadLine H l w = Some w1"
  shows "world_inv w1"
proof -
  let ?l = "Replace_n (Replace_n l [CHR 0x0A] []) [CHR 0x0D] []"
  obtain bRaw l1 where raw: "h_OnRaw H ?l = (bRaw, l1)" by (cases "h_OnRaw H ?l")
  obtain bMsg m where msg: "h_hook H ''OnRawMessage'' (line_message (h_env H) l1) = (bMsg, m)"
    by (cases "h_hook H ''OnRawMessage'' (line_message (h_env H) l1)")
  show ?thesis
  proof (cases "bRaw \<or> bMsg")
    case True
    then show ?thesis using assms raw msg by (auto simp: ReadLine_def split: if_splits)
  next
    case False
    then obtain r m1 w2 where d: "dispatch_irc H m w = Some (r, m1, w2)"
      and w1: "w1 = (if r then w2 else put_out [PutUserMsg m1] w2)"
      using assms(2) raw msg by (auto simp: ReadLine_def)
    have "world_inv w2" using inv_opt3_dispatch [OF assms(1), of H m] by (simp add: d inv_opt3_def)
    then show ?thesis by (simp add: w1 world_inv_put_out)
  qed
qed

text \<open>The only undefined case: a redirect while the network has no current server.\<close>

lemma numeric_case_None:
  "numeric_case H u s k m w = None \<longleftrightarrow> u = 10 \<and> GetCurrentServer (w_net w) = None"
proof -
  have [simp]: "Ex Not" by (rule exI [of _ False]) simp
  show ?thesis
    by (cases "u = 10") (simp_all add: numeric_case_def num_redirect_def split: option.split)
qed

lemma dispatch_irc_None:
  "dispatch_irc H m w = None \<longleftrightarrow> m_eType m = TNumeric \<and> Numeric_GetCode m = 10 \<and>
     GetCurrentServer (w_net w) = None \<and> \<not> fst (run_hooks H [''OnNumericMessage''] m)"
  by (cases "m_eType m")
    (simp_all add: dispatch_irc_def OnNumericMessage_def split_beta Let_def numeric_case_None)

end
