(* ===== verification/Network_Facts.thy ===== *)
theory Network_Facts imports Handler_Facts "HOL-Library.Multiset" begin

text \<open>
  What the operations of CIRCNetwork guarantee: channel names stay different up to case,
  moving and swapping only permute, the JOIN lines carry every channel with its key within
  the line limit, and the current server survives the removal of another one.
\<close>

section \<open>Names of channels\<close>

definition chan_key :: "chan \<Rightarrow> string" where
  "chan_key c = AsLower (c_str (m_sName c))"

definition names_unique :: "network \<Rightarrow> bool" where
  "names_unique n \<longleftrightarrow> distinct (map chan_key (m_vChans n))"

lemma named_key: "named s c \<longleftrightarrow> AsLower (c_str s) = chan_key c"
  by (simp add: named_def chan_key_def equals_ci_iff)

lemma find_idx_hit: "find_idx P xs = Some i \<Longrightarrow> i < length xs \<and> P (xs ! i) \<and> (\<forall>j < i. \<not> P (xs ! j))"
proof (induction xs arbitrary: i)
  case (Cons x xs)
  then show ?case by (cases i) (auto split: if_splits simp: less_Suc_eq_0_disj)
qed simp

lemma names_unique_AddChan_ptr: "names_unique n \<Longrightarrow> names_unique (snd (AddChan_ptr c n))"
  by (auto simp: AddChan_ptr_def names_unique_def equals_ci_iff chan_key_def)

lemma erase_nth_mset:
  assumes "i < length xs"
  shows "mset xs = add_mset (xs ! i) (mset (take i xs @ drop (Suc i) xs))"
proof -
  have "xs = take i xs @ xs ! i # drop (Suc i) xs" by (rule id_take_nth_drop [OF assms])
  then have "mset xs = mset (take i xs @ xs ! i # drop (Suc i) xs)" by (rule arg_cong)
  then show ?thesis by simp
qed

lemma nth_inserted: "k \<le> length r \<Longrightarrow> (take k r @ x # drop k r) ! k = x"
  by (simp add: nth_append)

lemma MoveChan_perm:
  assumes "MoveChan s k n = Inr n'"
  shows "mset (m_vChans n') = mset (m_vChans n)" and "k < length (m_vChans n)" and "named s (m_vChans n' ! k)"
proof -
  obtain i where k: "k < length (m_vChans n)" and i: "find_idx (named s) (m_vChans n) = Some i"
    and n': "m_vChans n' = take k (take i (m_vChans n) @ drop (Suc i) (m_vChans n)) @ (m_vChans n ! i) #
      drop k (take i (m_vChans n) @ drop (Suc i) (m_vChans n))"
    using assms by (auto simp: MoveChan_def Let_def split: if_splits option.splits)
  let ?r = "take i (m_vChans n) @ drop (Suc i) (m_vChans n)"
  note hit = find_idx_hit [OF i]
  show "k < length (m_vChans n)" by fact
  have len: "k \<le> length ?r" using k hit by simp
  have "mset (take k ?r @ drop k ?r) = mset ?r" by (simp only: append_take_drop_id)
  then show "mset (m_vChans n') = mset (m_vChans n)"
    using hit erase_nth_mset [of i "m_vChans n"] by (simp add: n')
  have "m_vChans n' ! k = m_vChans n ! i" unfolding n' by (rule nth_inserted [OF len])
  then show "named s (m_vChans n' ! k)" using hit by simp
qed

lemma SwapChans_perm:
  assumes "SwapChans s t n = Inr n'"
  shows "mset (m_vChans n') = mset (m_vChans n)"
  using assms by (auto simp: SwapChans_def Let_def mset_swap dest!: find_idx_hit split: option.splits)

lemma names_unique_perm: "mset (m_vChans n') = mset (m_vChans n) \<Longrightarrow> names_unique n' = names_unique n"
  unfolding names_unique_def by (metis mset_eq_imp_distinct_iff mset_map)

lemma names_unique_DelChan: "names_unique n \<Longrightarrow> names_unique (snd (DelChan s n))"
proof (cases "find_idx (named s) (m_vChans n)")
  case (Some i)
  let ?ks = "map chan_key (m_vChans n)"
  assume "names_unique n"
  then have "distinct ?ks" by (simp add: names_unique_def)
  then have "distinct (take i ?ks @ drop (Suc i) ?ks)"
    using set_take_disj_set_drop_if_distinct [of ?ks i "Suc i"] by (simp add: Int_commute)
  then show ?thesis by (simp add: DelChan_def Some names_unique_def take_map drop_map)
qed (simp add: DelChan_def)

lemma DelChan_gone:
  assumes "names_unique n"
  shows "find_idx (named s) (m_vChans (snd (DelChan s n))) = None"
proof (cases "find_idx (named s) (m_vChans n)")
  case None
  then show ?thesis by (simp add: DelChan_def)
next
  case (Some i)
  note hit = find_idx_hit [OF Some]
  have "\<not> named s c" if c: "c \<in> set (take i (m_vChans n) @ drop (Suc i) (m_vChans n))" for c
  proof
    assume s: "named s c"
    obtain j where j: "j < length (m_vChans n)" "j \<noteq> i" "c = m_vChans n ! j"
    proof -
      from c consider "c \<in> set (take i (m_vChans n))" | "c \<in> set (drop (Suc i) (m_vChans n))" by auto
      then show thesis
      proof cases
        case 1
        then obtain j where "j < i" "j < length (m_vChans n)" "c = m_vChans n ! j"
          by (auto simp: in_set_conv_nth)
        then show thesis using that by simp
      next
        case 2
        then obtain j where "j < length (m_vChans n) - Suc i" "c = m_vChans n ! (Suc i + j)"
          by (auto simp: in_set_conv_nth)
        then show thesis using that [of "Suc i + j"] by simp
      qed
    qed
    have "chan_key (m_vChans n ! j) = chan_key (m_vChans n ! i)" using s hit j by (simp add: named_key)
    then show False using assms j hit nth_eq_iff_index_eq [of "map chan_key (m_vChans n)" j i]
      by (simp add: names_unique_def)
  qed
  then show ?thesis by (simp add: DelChan_def Some find_idx_None)
qed

section \<open>JOIN lines\<close>

text \<open>The line for a group of channels with their keys, and the length the code counts for it.\<close>

definition join_line :: "(string \<times> string) list \<Rightarrow> string" where
  "join_line g = ''JOIN '' @ Join '','' (map fst g) @
     (if \<exists>e \<in> set g. snd e \<noteq> [] then '' '' @ Join '','' (map snd g) else [])"

definition join_count :: "(string \<times> string) list \<Rightarrow> nat" where
  "join_count g = 5 + (\<Sum>e\<leftarrow>g. length (fst e) + length (snd e) + 2)"

text \<open>The groups the limit does not reach: one channel, or two of which the first has no key.\<close>

definition join_group_ok :: "(string \<times> string) list \<Rightarrow> bool" where
  "join_group_ok g \<longleftrightarrow> g \<noteq> [] \<and> (length g = 1 \<or> length g = 2 \<and> snd (hd g) = [] \<or> join_count g < 512)"

lemma join_count_snoc: "join_count (g @ [e]) = join_count g + (length (fst e) + length (snd e) + 2)"
  by (simp add: join_count_def)

lemma Join_comma_Nil: "Join '','' (map snd g) = [] \<longleftrightarrow> g = [] \<or> length g = 1 \<and> snd (hd g) = []"
  by (cases g; cases "tl g") (auto simp: Join_Cons)

lemma Join_names_Nil: "list_all (\<lambda>e. fst e \<noteq> []) g \<Longrightarrow> Join '','' (map fst g) = [] \<longleftrightarrow> g = []"
  by (cases g) (auto simp: Join_Cons)

lemma join_batch_groups:
  assumes "list_all (\<lambda>e. fst e \<noteq> []) (g @ cs)" and "g \<noteq> [] \<longrightarrow> join_group_ok g"
  shows "\<exists>g' rest. cs = g' @ rest \<and> (g = [] \<and> cs \<noteq> [] \<longrightarrow> g' \<noteq> []) \<and>
    (g @ g' \<noteq> [] \<longrightarrow> join_group_ok (g @ g')) \<and>
    join_batch (Join '','' (map fst g)) (Join '','' (map snd g)) (\<exists>e \<in> set g. snd e \<noteq> []) (join_count g) cs =
      (join_line (g @ g'), rest)"
  using assms
proof (induction cs arbitrary: g)
  case Nil
  then show ?case by (simp add: join_line_def)
next
  case (Cons e cs)
  obtain nm key where e: "e = (nm, key)" by (cases e)
  let ?stop = "Join '','' (map snd g) \<noteq> [] \<and> join_count g + (length nm + length key + 2) \<ge> 512"
  have g0: "Join '','' (map fst g) = [] \<longleftrightarrow> g = []" using Cons.prems(1) by (intro Join_names_Nil) simp
  show ?case
  proof (cases ?stop)
    case True
    then have "g \<noteq> []" by auto
    then show ?thesis using True Cons.prems
      by (intro exI [of _ "[]"] exI [of _ "e # cs"]) (simp add: e join_line_def)
  next
    case False
    have ok: "join_group_ok (g @ [e])"
      using False by (auto simp: join_group_ok_def join_count_snoc e Join_comma_Nil hd_append)
    have all: "list_all (\<lambda>e. fst e \<noteq> []) ((g @ [e]) @ cs)" using Cons.prems(1) by simp
    from Cons.IH [OF all] ok obtain g' rest where
      "cs = g' @ rest" "join_group_ok ((g @ [e]) @ g')"
      "join_batch (Join '','' (map fst (g @ [e]))) (Join '','' (map snd (g @ [e])))
         (\<exists>x \<in> set (g @ [e]). snd x \<noteq> []) (join_count (g @ [e])) cs = (join_line ((g @ [e]) @ g'), rest)"
      by auto
    moreover have "join_batch (Join '','' (map fst g)) (Join '','' (map snd g)) (\<exists>e \<in> set g. snd e \<noteq> []) (join_count g) (e # cs) =
        join_batch (Join '','' (map fst (g @ [e]))) (Join '','' (map snd (g @ [e])))
         (\<exists>x \<in> set (g @ [e]). snd x \<noteq> []) (join_count (g @ [e])) cs"
    proof -
      have st: "(Join '','' (map snd g) \<noteq> [] \<and> 512 \<le> join_count g + (length nm + length key + 2)) = False"
        using False by simp
      have key: "((\<exists>e \<in> set g. snd e \<noteq> []) \<or> key \<noteq> []) = (\<exists>x \<in> set (g @ [e]). snd x \<noteq> [])"
        by (auto simp: e)
      have cnt: "join_count g + (length nm + length key + 2) = join_count (g @ [e])"
        by (simp add: join_count_snoc e)
      show ?thesis
        unfolding e join_batch.simps Let_def st if_False
        unfolding key [unfolded e] cnt [unfolded e]
        by (cases "g = []") (simp_all add: g0 Join_snoc)
    qed
    ultimately show ?thesis
      by (intro exI [of _ "e # g'"] exI [of _ rest]) (simp del: join_batch.simps)
  qed
qed

lemma join_lines_groups:
  "list_all (\<lambda>e. fst e \<noteq> []) cs \<Longrightarrow>
   \<exists>gs. join_lines cs = map join_line gs \<and> concat gs = cs \<and> list_all join_group_ok gs"
proof (induction cs rule: join_lines.induct)
  case (1 cs)
  show ?case
  proof (cases "cs = []")
    case True
    then show ?thesis by (intro exI [of _ "[]"]) (simp add: join_lines.simps)
  next
    case False
    from join_batch_groups [of "[]" cs] 1(2) False obtain g rest where
      g: "cs = g @ rest" "g \<noteq> []" "join_group_ok g" "join_batch [] [] False 5 cs = (join_line g, rest)"
      by (auto simp: join_count_def)
    have "list_all (\<lambda>e. fst e \<noteq> []) rest" using 1(2) g(1) by simp
    from 1(1)[OF False g(4)[symmetric] refl this] obtain gs where
      "join_lines rest = map join_line gs" "concat gs = rest" "list_all join_group_ok gs" by auto
    then show ?thesis using False g by (intro exI [of _ "g # gs"]) (simp add: join_lines.simps [of "g @ rest"] del: join_batch.simps)
  qed
qed

lemma length_Join_comma: "xs \<noteq> [] \<Longrightarrow> Suc (length (Join '','' xs)) = (\<Sum>x\<leftarrow>xs. Suc (length x))"
  by (induction xs) (auto simp: Join_Cons)

lemma length_join_line: "g \<noteq> [] \<Longrightarrow> length (join_line g) < join_count g"
proof -
  assume g: "g \<noteq> []"
  have "(\<Sum>e\<leftarrow>g. length (fst e) + length (snd e) + 2) =
      (\<Sum>x\<leftarrow>map fst g. Suc (length x)) + (\<Sum>x\<leftarrow>map snd g. Suc (length x))"
    by (induction g) simp_all
  then show ?thesis
    using length_Join_comma [of "map fst g"] length_Join_comma [of "map snd g"] g
    by (simp add: join_line_def join_count_def)
qed

section \<open>Servers and queries\<close>

lemma nth_erased: "i < length xs \<Longrightarrow> j < length xs - 1 \<Longrightarrow>
    (take i xs @ drop (Suc i) xs) ! j = (if j < i then xs ! j else xs ! Suc j)"
  by (simp add: nth_append)

lemma DelServer_cases:
  assumes "DelServer S n = (True, quit, n')" and "cur_server_idx n < length (m_vServers n)"
  obtains it where "it < length (m_vServers n)" "server_matches S (m_vServers n ! it)"
    "m_vServers n' = take it (m_vServers n) @ drop (Suc it) (m_vServers n)"
    "quit \<longleftrightarrow> it = cur_server_idx n"
    "m_uServerIdx n' = (if it \<le> cur_server_idx n \<and> m_uServerIdx n \<noteq> 0 then m_uServerIdx n - 1 else m_uServerIdx n)"
proof -
  obtain it where it: "find_idx (server_matches S) (m_vServers n) = Some it"
    using assms(1) by (auto simp: DelServer_def split: option.splits)
  note hit = find_idx_hit [OF it]
  show thesis
  proof (rule that [of it])
    show "m_uServerIdx n' = (if it \<le> cur_server_idx n \<and> m_uServerIdx n \<noteq> 0 then m_uServerIdx n - 1 else m_uServerIdx n)"
      using assms hit by (auto simp: DelServer_def it Let_def cur_server_idx_def split: if_splits)
  qed (use assms hit in \<open>auto simp: DelServer_def it Let_def split: if_splits\<close>)
qed

lemma DelServer_keeps_current:
  assumes "DelServer S n = (True, False, n')" and "cur_server_idx n < length (m_vServers n)"
  shows "GetCurrentServer n' = GetCurrentServer n"
proof -
  obtain it where it: "it < length (m_vServers n)" "m_vServers n' = take it (m_vServers n) @ drop (Suc it) (m_vServers n)"
    "it \<noteq> cur_server_idx n"
    "m_uServerIdx n' = (if it \<le> cur_server_idx n \<and> m_uServerIdx n \<noteq> 0 then m_uServerIdx n - 1 else m_uServerIdx n)"
    using DelServer_cases [OF assms] by metis
  have cur: "cur_server_idx n' = (if it < cur_server_idx n then cur_server_idx n - 1 else cur_server_idx n)"
    using it(3) by (auto simp: cur_server_idx_def it(4))
  have "cur_server_idx n' < length (m_vServers n) - 1" using it assms(2) cur by auto
  then show ?thesis
    using it assms(2) cur by (auto simp: GetCurrentServer_def nth_erased)
qed

text \<open>When the current server goes, the next one in the list is not skipped.\<close>

lemma DelServer_next:
  assumes "DelServer S n = (True, True, n')" and "cur_server_idx n < length (m_vServers n)"
    and "m_uServerIdx n \<noteq> 0" and "m_vServers n' \<noteq> []"
  shows "fst (GetNextServer b n') = fst (GetNextServer b n)"
proof -
  obtain it where it: "it < length (m_vServers n)" "m_vServers n' = take it (m_vServers n) @ drop (Suc it) (m_vServers n)"
    "it = cur_server_idx n" "m_uServerIdx n' = m_uServerIdx n - 1"
    by (rule DelServer_cases [OF assms(1,2)]) (use assms(3) in auto)
  have idx: "m_uServerIdx n = Suc it" "m_uServerIdx n' = it" using it assms(3) by (simp_all add: cur_server_idx_def)
  have ne: "m_vServers n \<noteq> []" "1 < length (m_vServers n)"
    using it(1,2) assms(4) by (auto simp: Suc_lessI)
  show ?thesis
  proof (cases "Suc it < length (m_vServers n)")
    case True
    then have "it < length (m_vServers n) - 1" by simp
    then have "m_vServers n' ! it = m_vServers n ! Suc it" "it < length (m_vServers n')"
      using it(1) by (simp_all add: it(2) nth_erased)
    then show ?thesis using idx ne True assms(4) by (simp add: GetNextServer_def Let_def)
  next
    case False
    then have "it = length (m_vServers n) - 1" using it(1) by simp
    then show ?thesis
      using idx ne assms(4) it by (simp add: GetNextServer_def Let_def nth_erased del: append_is_Nil_conv)
  qed
qed

lemma AddQuery_spec:
  assumes "sName \<noteq> []"
  shows "\<exists>i n'. AddQuery U sName n = (Some i, n') \<and> i < length (m_vQueries n') \<and>
    equals_ci sName (q_sName (m_vQueries n' ! i)) \<and>
    (0 < u_MaxQueryBuffers U \<longrightarrow> length (m_vQueries n') \<le> max (length (m_vQueries n)) (u_MaxQueryBuffers U))"
proof (cases "FindQuery sName n")
  case (Some i)
  then show ?thesis using find_idx_hit assms by (fastforce simp: AddQuery_def FindQuery_def)
next
  case None
  let ?q = "mk_query U sName"
  have last: "newest k (m_vQueries n @ [?q]) ! (length (newest k (m_vQueries n @ [?q])) - 1) = ?q"
    "newest k (m_vQueries n @ [?q]) \<noteq> []" if "0 < k" for k
  proof -
    show ne: "newest k (m_vQueries n @ [?q]) \<noteq> []" using that by (simp add: newest_def)
    have "last (newest k (m_vQueries n @ [?q])) = ?q" using that by (simp add: newest_def)
    then show "newest k (m_vQueries n @ [?q]) ! (length (newest k (m_vQueries n @ [?q])) - 1) = ?q"
      by (simp add: last_conv_nth [OF ne])
  qed
  have len: "length (newest k (m_vQueries n @ [?q])) \<le> max (length (m_vQueries n)) k" for k
    by (simp add: newest_def) 
  have q: "q_sName ?q = sName" by (simp add: mk_query_def)
  show ?thesis
  proof (cases "0 < u_MaxQueryBuffers U")
    case True
    then show ?thesis
      using assms None last [OF True] len [of "u_MaxQueryBuffers U"]
      by (auto simp: AddQuery_def Let_def erase_to_newest q simp del: One_nat_def)
  next
    case False
    then show ?thesis using assms None by (simp add: AddQuery_def q nth_append)
  qed
qed

end
