(* ===== verification/Relay_Facts.thy ===== *)
theory Relay_Facts imports Network_Facts begin

text \<open>
  What the relay does with messages: who leaves and who is renamed in every channel, that the
  answer to a ping is the next line to go out, that replies to CTCP requests are limited, and
  that a message kept for later is played back as it came.
\<close>

section \<open>A change in every channel\<close>

lemma every_chan_snd: "snd (every_chan f cs) = map (\<lambda>c. snd (f c)) cs"
  by (induction cs) (simp_all add: split_beta Let_def)

lemma every_chan_fst: "fst (every_chan f cs) \<longleftrightarrow> (\<exists>c \<in> set cs. fst (f c) \<and> \<not> m_bDetached (snd (f c)))"
  by (induction cs) (auto simp: split_beta Let_def)

lemma m_bDetached_nicks [simp]:
  "m_bDetached (snd (RemNick s c)) = m_bDetached c" "m_bDetached (snd (ChangeNick s t c)) = m_bDetached c"
  by (simp_all add: RemNick_def ChangeNick_def upd_nick_def Let_def split: option.split)

definition chans_of :: "world \<Rightarrow> chan list" where
  "chans_of w = m_vChans (w_net w)"

lemma chans_of_out [simp]: "chans_of (put_out os w) = chans_of w"
  by (simp add: chans_of_def put_out_def)

lemma chans_of_set_own_nick [simp]: "chans_of (set_own_nick s w) = chans_of w"
  by (simp add: chans_of_def set_own_nick_def on_net_def SetIRCNick_def Let_def)

lemma world_inv_chans: "world_inv w \<Longrightarrow> c \<in> set (chans_of w) \<Longrightarrow> chan_ok c"
  by (simp add: world_inv_def net_inv_def list_all_iff chan_inv_def chans_of_def)

lemma OnQuit_effect:
  assumes "world_inv w" and "\<not> NickEquals (m_Nick m) (own_nick w)" and "OnQuitMessage m w = (r, m', w')"
  shows "chans_of w' = map (\<lambda>c. snd (RemNick (m_sNick (m_Nick m)) c)) (chans_of w)"
    and "r \<longleftrightarrow> \<not> IsNickVisible (m_sNick (m_Nick m)) w"
proof -
  have "chan_ok c" if "c \<in> set (m_vChans (w_net w))" for c
    using world_inv_chans [OF assms(1)] that by (simp add: chans_of_def)
  then show "r \<longleftrightarrow> \<not> IsNickVisible (m_sNick (m_Nick m)) w"
    using assms(2,3) by (auto simp: OnQuitMessage_def split_beta Let_def every_chan_fst RemNick_spec IsNickVisible_def)
  show "chans_of w' = map (\<lambda>c. snd (RemNick (m_sNick (m_Nick m)) c)) (chans_of w)"
    using assms(2,3) by (auto simp: OnQuitMessage_def split_beta Let_def every_chan_snd chans_of_def on_net_def)
qed

lemma OnNick_effect:
  assumes "OnNickMessage m w = (r, m', w')"
  shows "chans_of w' = map (\<lambda>c. snd (ChangeNick (m_sNick (m_Nick m)) (GetParam m 0) c)) (chans_of w)"
    and "NickEquals (m_Nick m) (own_nick w) \<Longrightarrow> own_nick w' = GetParam m 0 \<and> r"
proof -
  have own: "own_nick (on_net f w) = own_nick w" for f by (simp add: own_nick_def on_net_def)
  have chans: "chans_of (on_net (\<lambda>n. n \<lparr>m_vChans := cs\<rparr>) w) = cs" for cs by (simp add: chans_of_def on_net_def)
  show "chans_of w' = map (\<lambda>c. snd (ChangeNick (m_sNick (m_Nick m)) (GetParam m 0) c)) (chans_of w)"
    using assms by (auto simp: OnNickMessage_def split_beta Let_def every_chan_snd own chans Nick_GetNewNick_def
        simp flip: chans_of_def split: if_splits)
  show "NickEquals (m_Nick m) (own_nick w) \<Longrightarrow> own_nick w' = GetParam m 0 \<and> r"
    using assms by (auto simp: OnNickMessage_def split_beta Let_def own Nick_GetNewNick_def)
      (simp add: own_nick_def put_out_def set_own_nick_def on_net_def Let_def)
qed

section \<open>Ping\<close>

text \<open>The answer overtakes the queue: the queue with it in front is what goes out next.\<close>

lemma OnPing_front:
  assumes "short_ok (m_iSendsAllowed (w_sock w))" and "OnPingMessage H m w = (r, m', w')"
    and q: "q = line_message (h_env H) (''PONG '' @ GetParam m 0) # m_vSendQueue (w_sock w)"
  shows "r \<and> (\<exists>n. m_vSendQueue (w_sock w') = drop n q \<and>
    s_wire (w_sock w') = s_wire (w_sock w) @ concat (map (emit (h_env H) (w_sock w)) (take n q)) \<and>
    (may_send (w_sock w) \<longrightarrow> 0 < n))"
proof -
  let ?s = "(w_sock w) \<lparr>m_vSendQueue := q\<rparr>"
  have w': "w_sock w' = TrySend (h_env H) ?s" and r: r
    using assms(2) by (auto simp: OnPingMessage_def PutIRCQuick_def q)
  have "emit (h_env H) ?s = emit (h_env H) (w_sock w)" by (rule ext, rule emit_cong) simp_all
  moreover have "may_send (w_sock w) \<longrightarrow> 0 < sendable ?s" by (auto simp: may_send_def sendable_def q)
  ultimately show ?thesis
    using TrySend_queue(1,2) [of ?s "h_env H"] assms(1) r
    by (auto simp: w' intro!: exI [of _ "sendable ?s"])
qed

section \<open>The limit on CTCP replies\<close>

text \<open>The number of replies to requests that come at the given times.\<close>

fun ctcp_replies :: "nat list \<Rightarrow> ircsock \<Rightarrow> nat" where
  "ctcp_replies [] s = 0"
| "ctcp_replies (t # ts) s = (let (ok, s1) = ctcp_allowed t s in (if ok then 1 else 0) + ctcp_replies ts s1)"

text \<open>Each request comes within five seconds of the one before, which came at t.\<close>

fun dense :: "nat \<Rightarrow> nat list \<Rightarrow> bool" where
  "dense t [] \<longleftrightarrow> True"
| "dense t (u # us) \<longleftrightarrow> u \<le> t + 5000 \<and> t + 5000 < 2 ^ 64 \<and> dense u us"

lemma ctcp_allowed_dense:
  assumes "t \<le> m_lastCTCP s + 5000" and "m_lastCTCP s + 5000 < 2 ^ 64"
  shows "ctcp_allowed t s = (m_uNumCTCP s < 5,
    s \<lparr>m_lastCTCP := t, m_uNumCTCP := (if m_uNumCTCP s < 5 then m_uNumCTCP s + 1 else m_uNumCTCP s)\<rparr>)"
proof -
  have "(m_lastCTCP s + 5000) mod 2 ^ 64 = m_lastCTCP s + 5000" using assms(2) by (rule mod_less)
  then show ?thesis using assms(1) by (simp add: ctcp_allowed_def Let_def not_less)
qed

lemma ctcp_replies_dense: "dense (m_lastCTCP s) ts \<Longrightarrow> ctcp_replies ts s \<le> 5 - m_uNumCTCP s"
proof (induction ts arbitrary: s)
  case (Cons t ts)
  let ?s = "s \<lparr>m_lastCTCP := t, m_uNumCTCP := (if m_uNumCTCP s < 5 then m_uNumCTCP s + 1 else m_uNumCTCP s)\<rparr>"
  have "ctcp_replies ts ?s \<le> 5 - m_uNumCTCP ?s" using Cons.prems by (intro Cons.IH) simp
  moreover have "ctcp_allowed t s = (m_uNumCTCP s < 5, ?s)" using Cons.prems by (intro ctcp_allowed_dense) simp_all
  ultimately show ?case by (simp split: if_splits)
qed simp

lemma ctcp_replies_burst:
  assumes "dense t ts"
  shows "ctcp_replies (t # ts) s \<le> 5"
proof -
  obtain ok s1 where a: "ctcp_allowed t s = (ok, s1)" by (cases "ctcp_allowed t s")
  have s1: "m_lastCTCP s1 = t" "ok \<longrightarrow> 0 < m_uNumCTCP s1"
    using a by (auto simp: ctcp_allowed_def Let_def split: if_splits)
  show ?thesis using ctcp_replies_dense [of s1 ts] assms s1 by (auto simp: a)
qed

lemma ctcp_allowed_after_pause:
  "(m_lastCTCP s + 5000) mod 2 ^ 64 < t \<Longrightarrow> fst (ctcp_allowed t s)"
  by (simp add: ctcp_allowed_def Let_def)

section \<open>Playback\<close>

lemma namedfmt_concat: "namedfmt s = concat (map encode_namedfmt s)"
  by (simp add: namedfmt_def Escape_n_encode encode_char_eqs cong: map_cong)

lemma set_encode_namedfmt: "set (encode_namedfmt c) \<subseteq> {c, CHR 0x5C}"
  by (simp add: encode_namedfmt_def)

lemma set_namedfmt: "set s \<subseteq> set (namedfmt s)" "set (namedfmt s) \<subseteq> set s \<union> {CHR 0x5C}"
  unfolding namedfmt_concat by (induction s) (auto simp: encode_namedfmt_def)

lemma namedfmt_append: "namedfmt (s @ t) = namedfmt s @ namedfmt t"
  by (simp add: namedfmt_concat)

lemma namedfmt_Nil [simp]: "namedfmt [] = []" "namedfmt s = [] \<longleftrightarrow> s = []"
  by (cases s; simp add: namedfmt_concat encode_namedfmt_def)+

lemma hd_namedfmt: "s \<noteq> [] \<Longrightarrow> hd (namedfmt s) = hd s \<or> hd (namedfmt s) = CHR 0x5C"
  by (cases s) (simp_all add: namedfmt_concat encode_namedfmt_def)

lemma nul_free_namedfmt [simp]: "nul_free (namedfmt s) \<longleftrightarrow> nul_free s"
  using set_namedfmt [of s] by (auto simp: nul_free_def)

lemma NamedFormat_literal: "nul_free s \<Longrightarrow> NamedFormat (namedfmt s) ps = s"
  using namedfmt_pieces [of namedfmt_init ps "[Lit s]"] nul_free_namedfmt [of s]
  by (simp add: NamedFormat_def namedfmt_init_def nf_plain_def namedfmt_concat)

lemma NamedFormat_text:
  assumes "namedfmt pre = pre" and "namedfmt post = post" and "nul_free pre" and "nul_free post"
  shows "NamedFormat (pre @ ''{text}'' @ post) (om_insert ''text'' t ps) = pre @ t @ post"
proof -
  have "pre @ ''{text}'' @ post = concat (map write_piece [Lit pre, Param ''text'', Lit post])"
    using assms(1,2) by (simp add: namedfmt_concat encode_namedfmt_def)
  moreover have "nul_free (pre @ ''{text}'' @ post)" using assms(3,4) by (simp add: nul_free_def)
  ultimately show ?thesis
    using namedfmt_pieces [of namedfmt_init "om_insert ''text'' t ps" "[Lit pre, Param ''text'', Lit post]"]
    by (simp add: NamedFormat_def namedfmt_init_def nf_plain_def)
qed

text \<open>A sender whose mask is quoted as a format is still read as the sender with quoted parts.\<close>

lemma mask_ok_namedfmt:
  assumes "mask_ok n"
  shows "mk_nick (namedfmt (GetNickMask n)) =
    n \<lparr>m_sNick := namedfmt (m_sNick n), m_sIdent := namedfmt (m_sIdent n), m_sHost := namedfmt (m_sHost n),
       m_sChanPerms := []\<rparr>"
proof -
  let ?n = "n \<lparr>m_sNick := namedfmt (m_sNick n), m_sIdent := namedfmt (m_sIdent n), m_sHost := namedfmt (m_sHost n),
       m_sChanPerms := []\<rparr>"
  have "mask_ok ?n"
    using assms set_namedfmt(2) [of "m_sNick n"] set_namedfmt(2) [of "m_sIdent n"] hd_namedfmt [of "m_sNick n"]
    by (auto simp: mask_ok_def)
  moreover have "namedfmt (GetNickMask n) = GetHostMask ?n"
    using assms by (auto simp: GetNickMask_def GetHostMask_def namedfmt_append mask_ok_def)
      (simp_all add: namedfmt_concat encode_namedfmt_def)
  ultimately show ?thesis using mk_nick_GetHostMask [of ?n] by simp
qed

lemma mask_roundtrip:
  assumes "mask_ok n" and "nul_free (GetNickMask n)"
  shows "mk_nick (NamedFormat (GetNickMask (mk_nick (namedfmt (GetNickMask n)))) ps) = n \<lparr>m_sChanPerms := []\<rparr>"
proof -
  have "GetNickMask (mk_nick (namedfmt (GetNickMask n))) = namedfmt (GetNickMask n)"
    unfolding mask_ok_namedfmt [OF assms(1)]
    using assms(1) by (auto simp: GetNickMask_def namedfmt_append mask_ok_def)
      (simp_all add: namedfmt_concat encode_namedfmt_def)
  moreover have "mask_ok (n \<lparr>m_sChanPerms := []\<rparr>)" "GetHostMask (n \<lparr>m_sChanPerms := []\<rparr>) = GetNickMask n"
    using assms(1) by (auto simp: mask_ok_def GetNickMask_def GetHostMask_def)
  ultimately show ?thesis
    using mk_nick_GetHostMask [of "n \<lparr>m_sChanPerms := []\<rparr>"] NamedFormat_literal [OF assms(2), of ps] by simp
qed

lemma SetParam_two:
  assumes "length (m_vsParams m) = 2"
  shows "SetParam 0 s m = m \<lparr>m_vsParams := [s, m_vsParams m ! 1]\<rparr>"
    and "text_like (m_eType m) \<Longrightarrow> SetParam 1 s m =
      m \<lparr>m_vsParams := [m_vsParams m ! 0, s], m_eType := compute_type (m_sCommand m) s\<rparr>"
proof -
  obtain a b where ab: "m_vsParams m = [a, b]"
    using assms by (auto simp: numeral_2_eq_2 length_Suc_conv)
  show "SetParam 0 s m = m \<lparr>m_vsParams := [s, m_vsParams m ! 1]\<rparr>" by (simp add: SetParam_def ab)
  show "text_like (m_eType m) \<Longrightarrow> SetParam 1 s m =
      m \<lparr>m_vsParams := [m_vsParams m ! 0, s], m_eType := compute_type (m_sCommand m) s\<rparr>"
    by (simp add: SetParam_def ab InitType_def GetParam_def)
qed

lemma text_like_compute: "text_like (compute_type c p) = text_like (compute_type c q)"
  by (metis compute_type_param)

text \<open>The text the client sees: with a timestamp in front if it cannot read server times.\<close>

definition played_text :: "client_caps \<Rightarrow> message \<Rightarrow> string \<Rightarrow> string" where
  "played_text caps m t = (if HasServerTime caps then t else AddTimestamp caps (m_time m) t)"

lemma playback_line:
  assumes st: "set_text = (\<lambda>t. SetParam 1 (pre @ t @ post))"
    and plain: "namedfmt pre = pre" "namedfmt post = post" "nul_free pre" "nul_free post"
    and mask: "mask_ok (m_Nick m)" "nul_free (GetNickMask (m_Nick m))"
    and m: "length (m_vsParams m) = 2" "text_like (m_eType m)" "type_ok m"
  shows "ToMessage caps ps (mk_bufline (buffer_format set_text (GetNickMask (m_Nick m)) fmt m) t) =
    m \<lparr>m_Nick := (m_Nick m) \<lparr>m_sChanPerms := []\<rparr>,
       m_vsParams := [NamedFormat fmt (om_insert ''text'' (played_text caps m t) ps), pre @ played_text caps m t @ post],
       m_eType := compute_type (m_sCommand m) (pre @ played_text caps m t @ post)\<rparr>"
proof -
  let ?k = "mk_nick (namedfmt (GetNickMask (m_Nick m)))"
  have like: "text_like (compute_type (m_sCommand m) x)" for x
    using m(2,3) text_like_compute [of "m_sCommand m" "GetParam m 1" x] by (simp add: type_ok_def)
  have f: "buffer_format set_text (GetNickMask (m_Nick m)) fmt m =
      m \<lparr>m_Nick := ?k, m_vsParams := [fmt, pre @ ''{text}'' @ post],
         m_eType := compute_type (m_sCommand m) (pre @ ''{text}'' @ post)\<rparr>"
    using m(1,2) by (simp add: buffer_format_def st SetTarget_def SetParam_two del: One_nat_def)
  show ?thesis
    unfolding ToMessage_def f mk_bufline_def
    using mask_roundtrip [OF mask, of ps] NamedFormat_text [OF plain, of "played_text caps m t" ps]
    by (cases "HasServerTime caps")
      (simp_all add: Let_def SetParam_two(1) SetParam_two(2) [unfolded One_nat_def] like played_text_def)
qed

text \<open>The messages a channel can play back as they came, and what the client then gets.\<close>

definition chan_text_ok :: "message \<Rightarrow> bool" where
  "chan_text_ok m \<longleftrightarrow> mask_ok (m_Nick m) \<and> nul_free (GetNickMask (m_Nick m)) \<and> nul_free (GetParam m 0) \<and>
     length (m_vsParams m) = 2 \<and> m_eType m \<in> {TText, TNotice} \<and> type_ok m"

definition played :: "string \<Rightarrow> message \<Rightarrow> message" where
  "played sChan m = m \<lparr>m_Nick := (m_Nick m) \<lparr>m_sChanPerms := []\<rparr>, m_pChan := Some sChan\<rparr>"

definition chan_log :: "message \<Rightarrow> chan \<Rightarrow> chan" where
  "chan_log m c = c \<lparr>m_Buffer := snd (Buffer_AddLine
     (buffer_format Text_SetText (GetNickMask (m_Nick m)) (namedfmt (GetTarget m)) m) (Text_GetText m) (m_Buffer c))\<rparr>"

lemma params_two: "length (m_vsParams m) = 2 \<Longrightarrow> m_vsParams m = [GetParam m 0, GetParam m 1]"
  by (auto simp: GetParam_def numeral_2_eq_2 length_Suc_conv)

lemma playback_chan_line:
  assumes "chan_text_ok m" and "HasServerTime caps"
  shows "(ToMessage caps [] (mk_bufline
     (buffer_format Text_SetText (GetNickMask (m_Nick m)) (namedfmt (GetTarget m)) m) (Text_GetText m)))
       \<lparr>m_pChan := Some s\<rparr> = played s m"
proof -
  have st: "Text_SetText = (\<lambda>t. SetParam 1 ([] @ t @ []))" by (intro ext) (simp add: Text_SetText_def)
  have m: "m_vsParams m = [GetParam m 0, GetParam m 1]" "m_eType m = compute_type (m_sCommand m) (GetParam m 1)"
    using assms(1) params_two by (simp_all add: chan_text_ok_def type_ok_def)
  have "text_like (m_eType m)" using assms(1) by (auto simp: chan_text_ok_def text_like_def)
  then have "ToMessage caps [] (mk_bufline
      (buffer_format Text_SetText (GetNickMask (m_Nick m)) (namedfmt (GetTarget m)) m) (Text_GetText m)) =
    m \<lparr>m_Nick := (m_Nick m) \<lparr>m_sChanPerms := []\<rparr>,
       m_vsParams := [NamedFormat (namedfmt (GetTarget m)) (om_insert ''text'' (Text_GetText m) []), Text_GetText m],
       m_eType := compute_type (m_sCommand m) (Text_GetText m)\<rparr>"
    using assms playback_line [OF st, of m caps "[]" "namedfmt (GetTarget m)" "Text_GetText m"]
    by (simp add: chan_text_ok_def played_text_def)
  then show ?thesis
    using assms(1) m by (simp add: played_def chan_text_ok_def GetTarget_def Text_GetText_def NamedFormat_literal)
qed

lemma chan_log_lines:
  assumes "buffer_ok (m_Buffer c)"
  shows "b_lines (m_Buffer (fold chan_log ms c)) = newest (b_uLineCount (m_Buffer c))
    (b_lines (m_Buffer c) @ map (\<lambda>m. mk_bufline (buffer_format Text_SetText (GetNickMask (m_Nick m))
       (namedfmt (GetTarget m)) m) (Text_GetText m)) ms)" (is "_ = newest _ (_ @ map ?l ms)")
proof -
  have "m_Buffer (fold chan_log ms c) = fold add_line (map ?l ms) (m_Buffer c)"
    by (induction ms arbitrary: c) (simp_all add: chan_log_def add_line_def mk_bufline_def)
  then show ?thesis using buf.entries_adds [of "m_Buffer c" "map ?l ms"] assms by (simp add: buffer_ok_buf)
qed

lemma m_sName_chan_log [simp]: "m_sName (fold chan_log ms c) = m_sName c"
  by (induction ms arbitrary: c) (simp_all add: chan_log_def)

lemma newest_map: "newest k (map f xs) = map f (newest k xs)"
  by (simp add: newest_def drop_map)

lemma concat_map_single: "(\<And>x. x \<in> set xs \<Longrightarrow> f x = [g x]) \<Longrightarrow> concat (map f xs) = map g xs"
  by (induction xs) simp_all

lemma playback_newest:
  assumes "\<forall>m \<in> set ms. chan_text_ok m" and "b_lines (m_Buffer c) = []"
    and "HasServerTime (cl_caps cl)" and "\<not> cl_HasBatch cl" and "BufferPlayMessage H = (\<lambda>m. (False, m))"
  shows "fst (Chan_SendBuffer H [cl] None (fold chan_log ms c)) =
    map (\<lambda>m. PutClientMsg 0 (played (m_sName c) m)) (newest (b_uLineCount (m_Buffer c)) ms)"
proof -
  let ?ms = "newest (b_uLineCount (m_Buffer c)) ms" and ?c = "fold chan_log ms c"
  let ?l = "\<lambda>m. mk_bufline (buffer_format Text_SetText (GetNickMask (m_Nick m)) (namedfmt (GetTarget m)) m) (Text_GetText m)"
  have lines: "b_lines (m_Buffer ?c) = map ?l ?ms"
    using chan_log_lines [of c ms] assms(2) by (simp add: buffer_ok_def newest_map)
  have "set ?ms \<subseteq> set ms" by (auto simp: newest_def dest: in_set_dropD)
  then have ok: "chan_text_ok m" if "m \<in> set ?ms" for m using assms(1) that by blast
  have line: "play_line H (0, cl) [] (\<lambda>m. False) (Some (m_sName c)) b (?l m) = [PutClientMsg 0 (played (m_sName c) m)]"
    if "m \<in> set ?ms" for m b
    using playback_chan_line [OF ok [OF that] assms(3)] assms(4,5) by (simp add: play_line_def Let_def)
  have "concat (map (play_line H (0, cl) [] (\<lambda>m. False) (Some (m_sName c)) b) (map ?l ?ms)) =
      map (\<lambda>m. PutClientMsg 0 (played (m_sName c) m)) ?ms" for b
    using line by (simp add: o_def concat_map_single)
  moreover have "fst (Chan_SendBuffer H [cl] None ?c) =
      concat (map (play_line H (0, cl) [] (\<lambda>m. False) (Some (m_sName c)) (name_MD5 H (m_sName c))) (map ?l ?ms))"
    using assms(3,4) by (simp add: Chan_SendBuffer_def targets_def Chan_play_def Let_def batch_line_def
        playback_status_def lines)
  ultimately show ?thesis by simp
qed

end
