(* ===== verification/Client.thy ===== *)
theory Client imports Irc_Numerics begin

text \<open>
  CClient (src/Client.cpp, src/Client.h): the connection of an IRC client to the bouncer. This
  theory has its state, what it is sent (PutClient with its filters, PutModule), the parsing
  of the credentials, the capabilities, the SASL exchange and the login. The handlers of the
  client's messages are in Client_Handlers.

  A client reaches the rest through two pointers: \<open>st_user\<close> is m_pUser (None before the
  login), \<open>st_net\<close> is m_pNetwork, the position among the networks of the user. A network comes
  with its socket, which may be missing (IsIRCConnected asks it). \<open>st_id\<close> is the position of
  the client in GetClients (), once \<open>st_listed\<close>, and \<open>c_view\<close> the part of its state that the
  network code reads, kept in that list too. What happens is recorded in \<open>st_ev\<close>, in order: lines written to this
  client, what the other clients are handed, and calls of code that is not modelled (the
  command interpreter, the modules, a module that takes over an authentication).

  The record \<open>cenv\<close> has the answers of the module hooks and of CZNC (users, message of the
  day, blacklist); hooks that can only observe (called with NOTHING) are left out, as are
  encodings and timeouts.
\<close>

section \<open>State\<close>

record cclient =
  c_view :: client
  c_bGotPass :: bool
  c_bGotNick :: bool
  c_bGotUser :: bool
  c_uCapVersion :: nat
  c_bInCap :: bool
  c_bCapNotify :: bool
  c_bAwayNotify :: bool
  c_bAccountNotify :: bool
  c_bInviteNotify :: bool
  c_bExtendedJoin :: bool
  c_bMessageTagCap :: bool
  c_bSASLCap :: bool
  c_bPlaybackActive :: bool
  c_sPass :: string
  c_sUser :: string
  c_sNetwork :: string
  c_sIdentifier :: string
  c_sSASLBuffer :: string
  c_sSASLMechanism :: string
  c_sSASLUser :: string
  c_ssAcceptedCaps :: "string list"
  c_ssSupportedTags :: "string list"
  c_ssFailedMechanisms :: "string list"
  c_close :: close_type

record znet =
  zn_net :: network
  zn_sock :: "ircsock option"
  zn_IRCConnectEnabled :: bool

record zuser =
  zu_sUserName :: string
  zu_sStatusPrefix :: string
  zu_bMultiClients :: bool
  zu_settings :: user
  zu_get :: "string \<Rightarrow> string"
  zu_expand :: "string \<Rightarrow> string"
  zu_vNetworks :: "znet list"
  zu_vClients :: "client list"

datatype cl_event =
    Wrote string
  | Others client_out
  | Bounced nat
  | AuthPending string string
  | UserCommand string
  | ModCommand string string
  | ModNotice string string
  | FailedLogin string

record cstate =
  st_cl :: cclient
  st_user :: "zuser option"
  st_net :: "nat option"
  st_id :: nat
  st_listed :: bool
  st_ev :: "cl_event list"

datatype auth_answer = Accepted zuser | Refused string | Pending

datatype sasl_answer = SASLNothing | SASLCheck string string string

record cenv =
  ce_env :: env
  ce_hook :: "string \<Rightarrow> message \<Rightarrow> bool \<times> message"
  ce_OnUserRaw :: "bool \<Rightarrow> string \<Rightarrow> bool \<times> string"
  ce_OnSendToClientMessage :: "message \<Rightarrow> bool \<times> message"
  ce_OnSendToClient :: "string \<Rightarrow> bool \<times> string"
  ce_OnClientCapLs :: "string list \<Rightarrow> string list"
  ce_IsClientCapSupported :: "string \<Rightarrow> bool \<Rightarrow> bool"
  ce_OnClientCapRequest :: "string \<Rightarrow> bool \<Rightarrow> cclient \<Rightarrow> cclient"
  ce_CapBlacklist :: "string list"
  ce_SASLMechanisms :: "string list"
  ce_SASLChallenge :: "string \<Rightarrow> bool \<times> string"
  ce_SASLAuthenticate :: "string \<Rightarrow> string \<Rightarrow> sasl_answer"
  ce_OnLoginAttempt :: "string \<Rightarrow> string \<Rightarrow> auth_answer option"
  ce_FindUser :: "string \<Rightarrow> zuser option"
  ce_CheckPass :: "zuser \<Rightarrow> string \<Rightarrow> bool"
  ce_IsHostAllowed :: "zuser \<Rightarrow> string \<Rightarrow> bool"
  ce_RemoteIP :: string
  ce_Motd :: "string list"
  ce_Tag :: string
  ce_FindModule :: "string \<Rightarrow> bool"
  ce_ExtendedJoin :: bool
  ce_play :: play_hooks
  ce_order :: "nat list \<Rightarrow> nat list"

text \<open>The constructor; the timestamp functions are those of the user.\<close>

definition mk_cclient :: "(nat \<times> nat \<Rightarrow> string \<Rightarrow> string) \<Rightarrow> (nat \<times> nat \<Rightarrow> string) \<Rightarrow> cclient" where
  "mk_cclient stamp fmt =
     \<lparr>c_view = \<lparr>cl_caps = \<lparr>HasServerTime = False, AddTimestamp = stamp, FormatServerTime = fmt\<rparr>,
        cl_HasNamesx = False, cl_HasUHNames = False, cl_HasBatch = False, cl_HasChgHost = False,
        cl_HasEchoMessage = False, cl_HasSelfMessage = False, cl_IsAway = False, cl_sNick = ''unknown-nick''\<rparr>,
      c_bGotPass = False, c_bGotNick = False, c_bGotUser = False, c_uCapVersion = 0, c_bInCap = False,
      c_bCapNotify = False, c_bAwayNotify = False, c_bAccountNotify = False, c_bInviteNotify = False,
      c_bExtendedJoin = False, c_bMessageTagCap = False, c_bSASLCap = False, c_bPlaybackActive = False,
      c_sPass = [], c_sUser = [], c_sNetwork = [], c_sIdentifier = [], c_sSASLBuffer = [],
      c_sSASLMechanism = [], c_sSASLUser = [], c_ssAcceptedCaps = [], c_ssSupportedTags = [],
      c_ssFailedMechanisms = [], c_close = CLT_DONT\<rparr>"

definition fresh_client :: "cclient \<Rightarrow> cstate" where
  "fresh_client c = \<lparr>st_cl = c, st_user = None, st_net = None, st_id = 0, st_listed = False, st_ev = []\<rparr>"

section \<open>Access\<close>

definition IsAttached :: "cstate \<Rightarrow> bool" where
  "IsAttached st \<longleftrightarrow> st_user st \<noteq> None"

definition the_znet :: "cstate \<Rightarrow> znet option" where
  "the_znet st =
     (case st_user st of None \<Rightarrow> None
      | Some u \<Rightarrow> (case st_net st of None \<Rightarrow> None
          | Some i \<Rightarrow> if i < length (zu_vNetworks u) then Some (zu_vNetworks u ! i) else None))"

definition GetIRCSock :: "cstate \<Rightarrow> ircsock option" where
  "GetIRCSock st = (case the_znet st of None \<Rightarrow> None | Some z \<Rightarrow> zn_sock z)"

definition IsIRCConnected :: "cstate \<Rightarrow> bool" where
  "IsIRCConnected st = (case GetIRCSock st of None \<Rightarrow> False | Some s \<Rightarrow> m_bAuthed s)"

definition GetClients :: "cstate \<Rightarrow> client list" where
  "GetClients st =
     (case the_znet st of Some z \<Rightarrow> m_vClients (zn_net z)
      | None \<Rightarrow> (case st_user st of Some u \<Rightarrow> zu_vClients u | None \<Rightarrow> []))"

definition upd_znet :: "(znet \<Rightarrow> znet) \<Rightarrow> cstate \<Rightarrow> cstate" where
  "upd_znet f st =
     (case (st_user st, st_net st) of
        (Some u, Some i) \<Rightarrow>
          st \<lparr>st_user := Some (u \<lparr>zu_vNetworks := (zu_vNetworks u)[i := f (zu_vNetworks u ! i)]\<rparr>)\<rparr>
      | _ \<Rightarrow> st)"

definition on_cnet :: "(network \<Rightarrow> network) \<Rightarrow> cstate \<Rightarrow> cstate" where
  "on_cnet f = upd_znet (\<lambda>z. z \<lparr>zn_net := f (zn_net z)\<rparr>)"

definition on_csock :: "(ircsock \<Rightarrow> ircsock) \<Rightarrow> cstate \<Rightarrow> cstate" where
  "on_csock f = upd_znet (\<lambda>z. z \<lparr>zn_sock := map_option f (zn_sock z)\<rparr>)"

definition on_cl :: "(cclient \<Rightarrow> cclient) \<Rightarrow> cstate \<Rightarrow> cstate" where
  "on_cl f st = st \<lparr>st_cl := f (st_cl st)\<rparr>"

text \<open>A change of the part of the state that the network or the user sees.\<close>

definition set_clients :: "(client list \<Rightarrow> client list) \<Rightarrow> cstate \<Rightarrow> cstate" where
  "set_clients f st =
     (case the_znet st of
        Some z \<Rightarrow> on_cnet (\<lambda>n. n \<lparr>m_vClients := f (m_vClients n)\<rparr>) st
      | None \<Rightarrow> (case st_user st of
           Some u \<Rightarrow> st \<lparr>st_user := Some (u \<lparr>zu_vClients := f (zu_vClients u)\<rparr>)\<rparr>
         | None \<Rightarrow> st))"

definition on_client :: "(cclient \<Rightarrow> cclient) \<Rightarrow> cstate \<Rightarrow> cstate" where
  "on_client f st =
     (let st1 = on_cl f st
      in if st_listed st1 then set_clients (\<lambda>cs. cs[st_id st1 := c_view (st_cl st1)]) st1 else st1)"

definition emit_ev :: "cl_event \<Rightarrow> cstate \<Rightarrow> cstate" where
  "emit_ev e st = st \<lparr>st_ev := st_ev st @ [e]\<rparr>"

definition write_line :: "string \<Rightarrow> cstate \<Rightarrow> cstate" where
  "write_line s = emit_ev (Wrote (s @ crlf))"

text \<open>GetNick (true), with the nick on the server once connected, and GetNick (false).\<close>

definition own_GetNick :: "bool \<Rightarrow> cstate \<Rightarrow> string" where
  "own_GetNick b st = Client_GetNick (GetIRCSock st) b (c_view (st_cl st))"

definition Client_GetNickMask :: "cstate \<Rightarrow> string" where
  "Client_GetNickMask st =
     (if IsIRCConnected st then GetNickMask (sock_Nick (the (GetIRCSock st)))
      else
        (let get = (\<lambda>k own. case st_user st of None \<Rightarrow> [] | Some u \<Rightarrow>
                      (case the_znet st of None \<Rightarrow> zu_get u k | Some z \<Rightarrow> inherited_get (zu_get u k) (own (zn_net z))));
             sHost = get ''bindhost'' net_sBindHost
         in own_GetNick True st @ ''!'' @ get ''ident'' net_sIdent @ ''@'' @
              (if sHost = [] then ''irc.znc.in'' else sHost)))"

definition HasCap302 :: "cclient \<Rightarrow> bool" where
  "HasCap302 c \<longleftrightarrow> c_uCapVersion c \<ge> 302"

definition IsDuringSASL :: "cclient \<Rightarrow> bool" where
  "IsDuringSASL c \<longleftrightarrow> c_sSASLMechanism c \<noteq> []"

definition Client_IsTagEnabled :: "cclient \<Rightarrow> string \<Rightarrow> bool" where
  "Client_IsTagEnabled c sTag \<longleftrightarrow> sTag \<in> set (c_ssSupportedTags c)"

definition Client_SetTagSupport :: "string \<Rightarrow> bool \<Rightarrow> cclient \<Rightarrow> cclient" where
  "Client_SetTagSupport sTag bState c =
     c \<lparr>c_ssSupportedTags := (if bState then os_insert sTag (c_ssSupportedTags c)
                              else os_erase sTag (c_ssSupportedTags c))\<rparr>"

section \<open>What the client is sent\<close>

text \<open>Messages that the client did not ask for are not sent.\<close>

definition msg_wanted :: "cclient \<Rightarrow> message \<Rightarrow> bool" where
  "msg_wanted c m =
     (case m_eType m of
        TAway \<Rightarrow> c_bAwayNotify c
      | TAccount \<Rightarrow> c_bAccountNotify c
      | TTagMsg \<Rightarrow> c_bMessageTagCap c
      | TInvite \<Rightarrow> c_bInviteNotify c \<or> NickEquals (mk_nick (GetParam m 0)) (cl_sNick (c_view c))
      | _ \<Rightarrow> True)"

text \<open>The first of several permission characters; the sender has NAMESX, the client has not.\<close>

definition first_perm :: "string \<Rightarrow> string \<Rightarrow> string" where
  "first_perm perms sNick =
     (case find_first_not_of perms sNick of
        Some pos \<Rightarrow> if pos \<ge> 2 then hd sNick # drop pos sNick else sNick
      | None \<Rightarrow> sNick)"

definition who_reply :: "cclient \<Rightarrow> ircsock \<Rightarrow> message \<Rightarrow> message" where
  "who_reply c s m =
     (if \<not> cl_HasNamesx (c_view c) \<and> m_bNamesx s then
        (let sNick = GetParam m 6 in
         if length sNick > 1 \<and> IsPermChar s (sNick ! 1) then SetParam 6 (first_perm (m_sPerms s) sNick) m else m)
      else m)"

definition names_nick :: "cclient \<Rightarrow> ircsock \<Rightarrow> string \<Rightarrow> string" where
  "names_nick c s sNick =
     (let s1 = (if \<not> cl_HasNamesx (c_view c) \<and> m_bNamesx s \<and> IsPermChar s (hd sNick)
                then first_perm (m_sPerms s) sNick else sNick)
      in if \<not> cl_HasUHNames (c_view c) \<and> m_bUHNames s then Token s1 0 False ''!'' False else s1)"

definition names_reply :: "cclient \<Rightarrow> ircsock \<Rightarrow> message \<Rightarrow> message" where
  "names_reply c s m =
     (if \<not> cl_HasNamesx (c_view c) \<and> m_bNamesx s \<or> \<not> cl_HasUHNames (c_view c) \<and> m_bUHNames s
      then SetParam 3 (Join '' '' (map (names_nick c s) (split_plain (GetParam m 3) '' '' False))) m
      else m)"

definition adapt_message :: "bool \<Rightarrow> cclient \<Rightarrow> ircsock option \<Rightarrow> message \<Rightarrow> message" where
  "adapt_message bSockExtendedJoin c so m =
     (case so of None \<Rightarrow> m
      | Some s \<Rightarrow>
          (if m_eType m = TNumeric then
             (if Numeric_GetCode m = 352 then who_reply c s m
              else if Numeric_GetCode m = 353 then names_reply c s m else m)
           else if m_eType m = TJoin then
             (if \<not> c_bExtendedJoin c \<and> bSockExtendedJoin then SetParams [GetTarget m] m else m)
           else m))"

text \<open>The tags: those the client supports, and the time if it has server-time.\<close>

definition client_tags :: "cclient \<Rightarrow> message \<Rightarrow> (string, string) omap" where
  "client_tags c m =
     (let ts = (if c_bMessageTagCap c then m_mssTags m
                else fold (\<lambda>(k, v) t. if Client_IsTagEnabled c k then om_insert k v t else t) (m_mssTags m) [])
      in if HasServerTime (cl_caps (c_view c)) \<and> map_of ts ''time'' = None
         then om_insert ''time'' (FormatServerTime (cl_caps (c_view c)) (m_time m)) ts else ts)"

definition client_message :: "bool \<Rightarrow> cclient \<Rightarrow> ircsock option \<Rightarrow> message \<Rightarrow> message" where
  "client_message bSockExtendedJoin c so m =
     (let m1 = adapt_message bSockExtendedJoin c so m in m1 \<lparr>m_mssTags := client_tags c m1\<rparr>)"

text \<open>PutClient: the line that is written, or nothing.\<close>

definition client_line :: "cenv \<Rightarrow> cclient \<Rightarrow> ircsock option \<Rightarrow> message \<Rightarrow> string option" where
  "client_line E c so m =
     (if \<not> msg_wanted c m then None
      else
        (let (b, m1) = ce_OnSendToClientMessage E (client_message (ce_ExtendedJoin E) c so m)
         in if b then None
            else (let (b', sCopy) = ce_OnSendToClient E (ToString m1) in if b' then None else Some sCopy)))"

definition PutClient_msg :: "cenv \<Rightarrow> message \<Rightarrow> cstate \<Rightarrow> cstate" where
  "PutClient_msg E m st =
     (case client_line E (st_cl st) (GetIRCSock st) m of None \<Rightarrow> st | Some l \<Rightarrow> write_line l st)"

definition PutClient_line :: "cenv \<Rightarrow> string \<Rightarrow> cstate \<Rightarrow> cstate" where
  "PutClient_line E s = PutClient_msg E (line_message (ce_env E) s)"

text \<open>Lines of a module or of *status; nothing before the login.\<close>

definition module_prefix :: "string \<Rightarrow> string \<Rightarrow> string \<Rightarrow> string" where
  "module_prefix sCommand sPrefix sModule =
     (let sMod = (if sModule = [] then ''status'' else sModule)
      in '':'' @ sPrefix @ sMod @ ''!'' @ sMod @ ''@znc.in '' @ sCommand @ '' '')"

definition PutModNotice :: "string \<Rightarrow> string \<Rightarrow> cstate \<Rightarrow> cstate" where
  "PutModNotice sModule sLine st =
     (case st_user st of None \<Rightarrow> st
      | Some u \<Rightarrow> write_line (module_prefix ''NOTICE'' (zu_sStatusPrefix u) sModule @ own_GetNick True st @
                    '' :'' @ sLine) st)"

definition PutModule :: "string \<Rightarrow> string \<Rightarrow> cstate \<Rightarrow> cstate" where
  "PutModule sModule sLine st =
     (case st_user st of None \<Rightarrow> st
      | Some u \<Rightarrow> fold (\<lambda>s st. write_line (module_prefix ''PRIVMSG'' (zu_sStatusPrefix u) sModule @
                    own_GetNick True st @ '' :'' @ s) st)
                  (split_plain sLine [CHR 0x0A] True) st)"

definition Client_PutStatus :: "string \<Rightarrow> cstate \<Rightarrow> cstate" where
  "Client_PutStatus = PutModule ''status''"

definition PutStatusNotice :: "string \<Rightarrow> cstate \<Rightarrow> cstate" where
  "PutStatusNotice = PutModNotice ''status''"

text \<open>What network and channel code sends: to this client, the others or all.\<close>

fun route :: "cenv \<Rightarrow> client_out \<Rightarrow> cstate \<Rightarrow> cstate" where
  "route E (PutStatus s) st = Client_PutStatus s (emit_ev (Others (PutStatus s)) st)"
| "route E (PutUser s) st = PutClient_line E s (emit_ev (Others (PutUser s)) st)"
| "route E (PutUserMsg m) st = PutClient_msg E m (emit_ev (Others (PutUserMsg m)) st)"
| "route E (PutClient i s) st =
     (if st_listed st \<and> i = st_id st then PutClient_line E s st else emit_ev (Others (PutClient i s)) st)"
| "route E (PutClientMsg i m) st =
     (if st_listed st \<and> i = st_id st then PutClient_msg E m st else emit_ev (Others (PutClientMsg i m)) st)"

definition route_all :: "cenv \<Rightarrow> client_out list \<Rightarrow> cstate \<Rightarrow> cstate" where
  "route_all E os st = fold (route E) os st"

definition Close :: "close_type \<Rightarrow> cstate \<Rightarrow> cstate" where
  "Close t = on_cl (\<lambda>c. c \<lparr>c_close := t\<rparr>)"

end
