(* ===== verification/Client_Session.thy ===== *)
theory Client_Session imports Client Base64 begin

text \<open>
  The session of a client (src/Client.cpp): credentials, capability negotiation, the SASL
  exchange, authentication (CZNC::AuthUser) and login, with the network it is put on
  (CIRCNetwork::ClientConnected and ClientDisconnected, CUser::UserConnected and
  UserDisconnected) and the SASL PLAIN module (src/modules/saslplainauth.cpp).

  An answer that a module gives later is \<open>Pending\<close>; AcceptLogin and the other three answers
  are operations of their own, so it can arrive after any other step.
\<close>

section \<open>Credentials\<close>

text \<open>The last occurrence of a character: what is before it and what is behind it.\<close>

fun rsplit_char :: "char \<Rightarrow> string \<Rightarrow> (string \<times> string) option" where
  "rsplit_char d [] = None"
| "rsplit_char d (c # s) =
     (case rsplit_char d s of
        Some (a, b) \<Rightarrow> Some (c # a, b)
      | None \<Rightarrow> if c = d then Some ([], s) else None)"

definition IsValidIdentifier :: "string \<Rightarrow> bool" where
  "IsValidIdentifier s \<longleftrightarrow> s \<noteq> [] \<and>
     list_all (\<lambda>c. c = CHR ''_'' \<or> c = CHR ''-'' \<or> isalnum_c c) (c_str s)"

definition ParseIdentifier :: "string \<Rightarrow> cclient \<Rightarrow> cclient" where
  "ParseIdentifier sAuthLine c =
     (case rsplit_char (CHR 0x40) sAuthLine of
        Some (a, sId) \<Rightarrow>
          if IsValidIdentifier sId then c \<lparr>c_sIdentifier := sId, c_sUser := a\<rparr> else c \<lparr>c_sUser := sAuthLine\<rparr>
      | None \<Rightarrow> c \<lparr>c_sUser := sAuthLine\<rparr>)"

definition ParseUser :: "string \<Rightarrow> cclient \<Rightarrow> cclient" where
  "ParseUser sAuthLine c =
     (case rsplit_char (CHR ''/'') sAuthLine of
        Some (a, b) \<Rightarrow> ParseIdentifier a (c \<lparr>c_sNetwork := b\<rparr>)
      | None \<Rightarrow> ParseIdentifier sAuthLine c)"

definition ParsePass :: "string \<Rightarrow> cclient \<Rightarrow> cclient" where
  "ParsePass sAuthLine c =
     (case find_char (CHR '':'') sAuthLine of
        Some i \<Rightarrow> ParseUser (take i sAuthLine) (c \<lparr>c_sPass := drop (Suc i) sAuthLine\<rparr>)
      | None \<Rightarrow> c \<lparr>c_sPass := sAuthLine\<rparr>)"

definition SendRequiredPasswordNotice :: "cenv \<Rightarrow> cstate \<Rightarrow> cstate" where
  "SendRequiredPasswordNotice E st =
     (let n = own_GetNick True st;
          st1 = PutClient_line E ('':irc.znc.in 464 '' @ n @ '' :Password required'') st;
          st2 = PutClient_line E ('':irc.znc.in NOTICE '' @ n @
            '' :*** You need to send your password. Configure your client to send a server password.'') st1
      in PutClient_line E ('':irc.znc.in NOTICE '' @ n @
            '' :*** To connect now, you can use /quote PASS <username>:<password>, '' @
            ''or /quote PASS <username>/<network>:<password> to connect to a specific network.'') st2)"

section \<open>On and off a network\<close>

definition client_gone :: "cstate \<Rightarrow> cstate" where
  "client_gone st =
     (if st_listed st
      then (set_clients (\<lambda>cs. take (st_id st) cs @ drop (Suc (st_id st)) cs) st) \<lparr>st_listed := False\<rparr> else st)"

definition bounce_all :: "cstate \<Rightarrow> cstate" where
  "bounce_all st =
     set_clients (\<lambda>cs. []) (fold (\<lambda>i. emit_ev (Bounced i)) [0..<length (GetClients st)] st)"

definition client_added :: "cstate \<Rightarrow> cstate" where
  "client_added st =
     set_clients (\<lambda>cs. cs @ [c_view (st_cl st)]) (st \<lparr>st_id := length (GetClients st), st_listed := True\<rparr>)"

definition put_buffer :: "cenv \<Rightarrow> (string, string) omap \<Rightarrow> buffer \<Rightarrow> cstate \<Rightarrow> cstate" where
  "put_buffer E ps b st = fold (\<lambda>l st.
     case BufLine_GetLine (cl_caps (c_view (st_cl st))) ps l of None \<Rightarrow> st | Some s \<Rightarrow> PutClient_line E s st)
     (b_lines b) st"

text \<open>The channels the client is attached to.\<close>

definition attach_chan :: "cenv \<Rightarrow> nat \<Rightarrow> cstate \<Rightarrow> cstate" where
  "attach_chan E i st =
     (case the_znet st of None \<Rightarrow> st
      | Some z \<Rightarrow>
          (let (out, c1) = AttachUser (ce_play E) (network_view (zn_sock z) (zn_net z)) (Some (st_id st))
                             (m_vChans (zn_net z) ! i)
           in route_all E out (on_cnet (upd_chan i (\<lambda>c. c1)) st)))"

definition attach_joined :: "cenv \<Rightarrow> network \<Rightarrow> cstate \<Rightarrow> cstate" where
  "attach_joined E n st = fold (attach_chan E)
     (filter (\<lambda>i. m_bIsOn (m_vChans n ! i) \<and> \<not> m_bDetached (m_vChans n ! i)) [0..<length (m_vChans n)]) st"

definition play_notices :: "cenv \<Rightarrow> (string, string) omap \<Rightarrow> buffer \<Rightarrow> cstate \<Rightarrow> cstate" where
  "play_notices E ps b st = fold (\<lambda>l st.
     case BufLine_GetLine (cl_caps (c_view (st_cl st))) ps l of None \<Rightarrow> st
     | Some s \<Rightarrow>
         (let m = (line_message (ce_env E) s) \<lparr>m_time := m_time (bl_Message l), m_mssTags := m_mssTags (bl_Message l)\<rparr>;
              (b, m1) = ce_hook E ''OnPrivBufferPlayMessage'' m
          in if b then st else PutClient_msg E m1 st)) (b_lines b) st"

definition greet :: "cenv \<Rightarrow> network \<Rightarrow> cstate \<Rightarrow> cstate" where
  "greet E n st =
     (if b_lines (m_RawBuffer n) = []
      then PutClient_line E ('':irc.znc.in 001 '' @ own_GetNick True st @ '' :Welcome to ZNC'') st
      else
        (let sClientNick = own_GetNick False st;
             st1 = put_buffer E [(''target'', sClientNick)] (m_RawBuffer n) st;
             k = m_IRCNick n
         in if sClientNick \<noteq> m_sNick k
            then on_client (\<lambda>c. c \<lparr>c_view := (c_view c) \<lparr>cl_sNick := m_sNick k\<rparr>\<rparr>)
                   (PutClient_line E ('':'' @ sClientNick @ ''!'' @ m_sIdent k @ ''@'' @ m_sHost k @
                      '' NICK :'' @ m_sNick k) st1)
            else st1))"

definition status_lines :: "cenv \<Rightarrow> znet \<Rightarrow> cstate \<Rightarrow> cstate" where
  "status_lines E z st =
     (let n = zn_net z; k = m_IRCNick n;
          modes = (case zn_sock z of None \<Rightarrow> [] | Some s \<Rightarrow> m_scUserModes s);
          st1 = (if modes \<noteq> []
                 then PutClient_line E ('':'' @ GetNickMask k @ '' MODE '' @ m_sNick k @ '' :+'' @ modes) st else st)
      in if m_bIRCAway n
         then PutClient_line E ('':irc.znc.in 306 '' @ m_sNick k @ '' :You have been marked as being away'') st1
         else st1)"

definition play_queries :: "cenv \<Rightarrow> znet \<Rightarrow> cstate \<Rightarrow> cstate" where
  "play_queries E z st =
     route_all E (concat (map (Query_SendBuffer (ce_play E) (zn_sock z) (GetClients st) (Some (st_id st)))
                       (m_vQueries (zn_net z)))) st"

text \<open>CIRCNetwork::ClientConnected, on the network the client points to.\<close>

definition ClientConnected :: "cenv \<Rightarrow> cstate \<Rightarrow> cstate" where
  "ClientConnected E st =
     (case (st_user st, the_znet st) of
        (Some u, Some z) \<Rightarrow>
          (let n = zn_net z;
               ps = [(''target'', m_sNick (m_IRCNick n))];
               st1 = client_added (if zu_bMultiClients u then st else bounce_all st);
               st2 = put_buffer E ps (m_MotdBuffer n) (greet E n (on_cl (\<lambda>c. c \<lparr>c_bPlaybackActive := True\<rparr>) st1));
               st3 = attach_joined E n (status_lines E z st2);
               st4 = play_queries E z st3;
               st5 = (if u_AutoClearQueryBuffer (zu_settings u) then on_cnet (\<lambda>n. n \<lparr>m_vQueries := []\<rparr>) st4 else st4);
               st6 = on_cnet (\<lambda>n. n \<lparr>m_NoticeBuffer := Buffer_Clear (m_NoticeBuffer n)\<rparr>)
                       (play_notices E ps (m_NoticeBuffer n) st5);
               st7 = on_cl (\<lambda>c. c \<lparr>c_bPlaybackActive := False\<rparr>) st6
           in if \<not> zn_IRCConnectEnabled z
              then Client_PutStatus (''You are currently disconnected from IRC. Use '' @ [CHR 0x27] @
                     ''connect'' @ [CHR 0x27] @ '' to reconnect.'') st7
              else st7)
      | _ \<Rightarrow> st)"

definition UserConnected :: "cenv \<Rightarrow> cstate \<Rightarrow> cstate" where
  "UserConnected E st =
     (case st_user st of None \<Rightarrow> st
      | Some u \<Rightarrow>
          client_added (PutClient_line E ('':irc.znc.in 001 '' @ own_GetNick True st @ '' :Welcome to ZNC'')
            (if zu_bMultiClients u then st else bounce_all st)))"

definition part_lines :: "network \<Rightarrow> string list" where
  "part_lines n = map (\<lambda>c. '':'' @ GetNickMask (m_IRCNick n) @ '' PART '' @ m_sName c)
     (filter (\<lambda>c. \<not> m_bDetached c) (m_vChans n))"

definition SetNetwork :: "cenv \<Rightarrow> nat option \<Rightarrow> bool \<Rightarrow> bool \<Rightarrow> cstate \<Rightarrow> cstate" where
  "SetNetwork E pNetwork bDisconnect bReconnect st =
     (let st1 = (case the_znet st of
                   Some z \<Rightarrow> (let st0 = client_gone st
                              in if bDisconnect then fold (PutClient_line E) (part_lines (zn_net z)) st0 else st0)
                 | None \<Rightarrow> client_gone st);
          st2 = st1 \<lparr>st_net := pNetwork\<rparr>
      in if bReconnect then (if the_znet st2 \<noteq> None then ClientConnected E st2 else UserConnected E st2)
         else st2)"

section \<open>Login\<close>

text \<open>CUser::FindNetwork compares the names without case.\<close>

definition FindNetwork :: "string \<Rightarrow> zuser \<Rightarrow> nat option" where
  "FindNetwork s u = find_idx (\<lambda>z. equals_ci (net_sName (zn_net z)) s) (zu_vNetworks u)"

definition expand_line :: "cstate \<Rightarrow> string \<Rightarrow> string" where
  "expand_line st s =
     (case st_user st of None \<Rightarrow> s
      | Some u \<Rightarrow> (case the_znet st of
           Some z \<Rightarrow> Network_ExpandString (zu_expand u) (zu_get u) (zn_sock z) (zn_net z) s
         | None \<Rightarrow> zu_expand u s))"

definition SendMotd :: "cenv \<Rightarrow> cstate \<Rightarrow> cstate" where
  "SendMotd E st = fold (\<lambda>s st. PutStatusNotice (expand_line st s) st) (ce_Motd E) st"

text \<open>The network a client without a network name gets.\<close>

definition default_network :: "zuser \<Rightarrow> nat option" where
  "default_network u =
     (case FindNetwork ''default'' u of Some i \<Rightarrow> Some i
      | None \<Rightarrow> (case FindNetwork ''user'' u of Some i \<Rightarrow> Some i
         | None \<Rightarrow> if zu_vNetworks u \<noteq> [] then Some 0 else None))"

definition choose_network :: "zuser \<Rightarrow> cstate \<Rightarrow> cstate" where
  "choose_network u st =
     (if c_sNetwork (st_cl st) \<noteq> [] then
        (let st1 = st \<lparr>st_net := FindNetwork (c_sNetwork (st_cl st)) u\<rparr>
         in if st_net st1 = None
            then Client_PutStatus (''Network '' @ c_sNetwork (st_cl st) @ '' doesn'' @ [CHR 0x27] @ ''t exist.'') st1
            else st1)
      else if zu_vNetworks u \<noteq> [] then
        (let st1 = st \<lparr>st_net := default_network u\<rparr>;
             sName = (case the_znet st1 of Some z \<Rightarrow> net_sName (zn_net z) | None \<Rightarrow> [])
         in if length (zu_vNetworks u) > 1
            then fold PutStatusNotice
                   [''You have several networks configured, but no network was specified for the connection.'',
                    ''Selecting network '' @ sName @
                      ''. To see list of all configured networks, use /znc ListNetworks'',
                    ''If you want to choose another network, use /znc JumpNetwork <network>, or connect to '' @
                      ''ZNC with username '' @ zu_sUserName u @ ''/<network> (instead of just '' @ zu_sUserName u @ '')'']
                   st1
            else st1)
      else PutStatusNotice ''You have no networks configured. Use /znc AddNetwork <network> to add one.'' st)"

definition AcceptLogin :: "cenv \<Rightarrow> zuser \<Rightarrow> cstate \<Rightarrow> cstate" where
  "AcceptLogin E u st =
     (let st1 = (on_cl (\<lambda>c. c \<lparr>c_sPass := [], c_sSASLMechanism := [], c_sSASLBuffer := [], c_sSASLUser := []\<rparr>) st)
                  \<lparr>st_user := Some u\<rparr>;
          st2 = choose_network u st1
      in SendMotd E (SetNetwork E (st_net st2) False True st2))"

definition RefuseLogin :: "cenv \<Rightarrow> string \<Rightarrow> cstate \<Rightarrow> cstate" where
  "RefuseLogin E sReason st =
     Close CLT_AFTERWRITE (PutClient_line E ('':irc.znc.in 464 '' @ own_GetNick True st @ '' :'' @ sReason)
       (Client_PutStatus ''Bad username and/or password.'' st))"

definition AcceptSASLLogin :: "cenv \<Rightarrow> zuser \<Rightarrow> cstate \<Rightarrow> cstate" where
  "AcceptSASLLogin E u st =
     (let n = own_GetNick True st;
          st1 = PutClient_line E ('':irc.znc.in 900 '' @ n @ '' '' @ n @ ''!'' @ zu_get u ''ident'' @ ''@'' @
                  ce_RemoteIP E @ '' '' @ zu_sUserName u @ '' :You are now logged in as '' @ zu_sUserName u) st;
          st2 = PutClient_line E ('':irc.znc.in 903 '' @ n @ '' :SASL authentication successful'') st1
      in on_cl (\<lambda>c. c \<lparr>c_sSASLMechanism := [], c_sSASLBuffer := [], c_sSASLUser := zu_sUserName u\<rparr>) st2)"

definition RefuseSASLLogin :: "cenv \<Rightarrow> string \<Rightarrow> cstate \<Rightarrow> cstate" where
  "RefuseSASLLogin E sReason st =
     (let st1 = PutClient_line E ('':irc.znc.in 904 '' @ own_GetNick True st @ '' :'' @ sReason) st
      in on_cl (\<lambda>c. c \<lparr>c_ssFailedMechanisms := os_insert (c_sSASLMechanism c) (c_ssFailedMechanisms c),
                       c_sSASLMechanism := [], c_sSASLBuffer := []\<rparr>) st1)"

text \<open>
  CZNC::AuthUser: a module may take the attempt over; else the password and the host decide.
  A refused attempt is reported to the user of that name, if there is one.
\<close>

definition CZNC_AuthUser :: "cenv \<Rightarrow> string \<Rightarrow> string \<Rightarrow> auth_answer" where
  "CZNC_AuthUser E sUser sPass =
     (case ce_OnLoginAttempt E sUser sPass of
        Some a \<Rightarrow> a
      | None \<Rightarrow>
          (case ce_FindUser E sUser of
             None \<Rightarrow> Refused ''Invalid Password''
           | Some u \<Rightarrow>
               if \<not> ce_CheckPass E u sPass then Refused ''Invalid Password''
               else if \<not> ce_IsHostAllowed E u (ce_RemoteIP E)
               then Refused (''Your host ['' @ ce_RemoteIP E @ ''] is not allowed'')
               else Accepted u))"

definition answer_auth ::
    "(zuser \<Rightarrow> cstate \<Rightarrow> cstate) \<Rightarrow> (string \<Rightarrow> cstate \<Rightarrow> cstate) \<Rightarrow> string \<Rightarrow> string \<Rightarrow> auth_answer \<Rightarrow> cstate \<Rightarrow> cstate" where
  "answer_auth acc ref sUser sPass a st =
     (case a of Accepted u \<Rightarrow> acc u st
      | Refused r \<Rightarrow> ref r (emit_ev (FailedLogin sUser) st)
      | Pending \<Rightarrow> emit_ev (AuthPending sUser sPass) st)"

definition AuthUser :: "cenv \<Rightarrow> cstate \<Rightarrow> cstate" where
  "AuthUser E st =
     (let c = st_cl st in
      if \<not> c_bGotNick c \<or> \<not> c_bGotUser c \<or> c_bInCap c \<or> (c_sSASLUser c = [] \<and> \<not> c_bGotPass c) \<or> IsAttached st
      then st
      else if c_sSASLUser c = []
      then answer_auth (AcceptLogin E) (RefuseLogin E) (c_sUser c) (c_sPass c)
             (CZNC_AuthUser E (c_sUser c) (c_sPass c)) st
      else (case ce_FindUser E (c_sSASLUser c) of
              Some u \<Rightarrow> AcceptLogin E u st
            | None \<Rightarrow> RefuseLogin E ''SASL login was valid, but user no longer exists'' st))"

text \<open>A wrong authorization id is refused, but the check of the password still follows.\<close>

definition StartSASLPasswordCheck :: "cenv \<Rightarrow> string \<Rightarrow> string \<Rightarrow> string \<Rightarrow> cstate \<Rightarrow> cstate" where
  "StartSASLPasswordCheck E sUser sPassword sAuthorizationId st =
     (let st1 = on_cl (ParseUser sAuthorizationId) st;
          st2 = (if sUser \<noteq> c_sUser (st_cl st1) \<and> sUser \<noteq> sAuthorizationId
                 then RefuseSASLLogin E ''No support for custom AuthzId'' st1 else st1);
          sName = c_sUser (st_cl st2)
      in answer_auth (AcceptSASLLogin E) (RefuseSASLLogin E) sName sPassword (CZNC_AuthUser E sName sPassword) st2)"

section \<open>SASL\<close>

text \<open>saslplainauth.cpp: the three fields between NUL bytes.\<close>

definition SASLPlain :: "string \<Rightarrow> string \<Rightarrow> sasl_answer" where
  "SASLPlain sMechanism sMessage =
     (if sMechanism \<noteq> ''PLAIN'' then SASLNothing
      else
        (let sAuthzId = Token sMessage 0 False [NUL] True;
             sAuthcId = Token sMessage 1 False [NUL] True;
             sPassword = Token sMessage 2 False [NUL] True
         in SASLCheck sAuthcId sPassword (if sAuthzId = [] then sAuthcId else sAuthzId)))"

text \<open>Lines of 400 bytes, and a final + if the last one is full (or there is none).\<close>

function sasl_chunks :: "nat \<Rightarrow> string \<Rightarrow> string list" where
  "sasl_chunks k s = (if s = [] \<or> k = 0 then [] else take k s # sasl_chunks k (drop k s))"
  by pat_completeness auto
termination
  by (relation "measure (\<lambda>(k, s). length s)") auto

declare sasl_chunks.simps [simp del]

definition challenge_parts :: "string \<Rightarrow> string list" where
  "challenge_parts s = sasl_chunks 400 s @ (if length s mod 400 = 0 then [''+''] else [])"

definition SendSASLChallenge :: "cenv \<Rightarrow> string \<Rightarrow> cstate \<Rightarrow> cstate" where
  "SendSASLChallenge E sMessage st =
     fold (\<lambda>p. PutClient_line E (''AUTHENTICATE '' @ p)) (challenge_parts (Base64Encode_n sMessage 0)) st"

definition AbortSASL :: "cenv \<Rightarrow> string \<Rightarrow> cstate \<Rightarrow> cstate" where
  "AbortSASL E sLine st =
     on_cl (\<lambda>c. c \<lparr>c_sSASLMechanism := [], c_sSASLBuffer := []\<rparr>) (PutClient_line E sLine st)"

definition znc_num :: "string \<Rightarrow> string \<Rightarrow> cstate \<Rightarrow> string" where
  "znc_num sNum sText st = '':irc.znc.in '' @ sNum @ '' '' @ own_GetNick True st @ '' '' @ sText"

definition sasl_reset :: "cstate \<Rightarrow> cstate" where
  "sasl_reset = on_cl (\<lambda>c. c \<lparr>c_sSASLMechanism := [], c_sSASLBuffer := []\<rparr>)"

text \<open>The first message names the mechanism.\<close>

definition sasl_start :: "cenv \<Rightarrow> string \<Rightarrow> cstate \<Rightarrow> cstate" where
  "sasl_start E sMessage st =
     (if sMessage \<in> set (c_ssFailedMechanisms (st_cl st)) then
        sasl_reset (PutClient_line E (znc_num ''904'' '':SASL authentication failed'' st) st)
      else if sMessage \<notin> set (ce_SASLMechanisms E) then
        (let st1 = PutClient_line E (znc_num ''908''
                     (if ce_SASLMechanisms E = [] then ''* :No SASL mechanisms are available''
                      else Join '','' (ce_SASLMechanisms E) @ '' :are available SASL mechanisms'') st) st
         in sasl_reset (PutClient_line E (znc_num ''904'' '':SASL authentication failed'' st1) st1))
      else
        (let st1 = on_cl (\<lambda>c. c \<lparr>c_sSASLMechanism := sMessage\<rparr>) st;
             (bResult, sChallenge) = ce_SASLChallenge E sMessage
         in if bResult then st1 else SendSASLChallenge E sChallenge st1))"

text \<open>The others are the answer, in parts of 400 bytes; a shorter part or + ends it.\<close>

definition sasl_finish :: "cenv \<Rightarrow> string \<Rightarrow> cstate \<Rightarrow> cstate" where
  "sasl_finish E sDecoded st =
     (let st1 = on_cl (\<lambda>c. c \<lparr>c_sSASLBuffer := sDecoded\<rparr>) st;
          st2 = (case ce_SASLAuthenticate E (c_sSASLMechanism (st_cl st)) sDecoded of
                   SASLNothing \<Rightarrow> st1
                 | SASLCheck u p a \<Rightarrow> StartSASLPasswordCheck E u p a st1)
      in on_cl (\<lambda>c. c \<lparr>c_sSASLBuffer := []\<rparr>) st2)"

definition sasl_continue :: "cenv \<Rightarrow> string \<Rightarrow> cstate \<Rightarrow> cstate" where
  "sasl_continue E sMessage st =
     (let c = st_cl st in
      if length (c_sSASLBuffer c) + length sMessage > 10 * 1024
      then AbortSASL E (znc_num ''904'' '':SASL response too long'' st) st
      else if length sMessage = 400
      then on_cl (\<lambda>c. c \<lparr>c_sSASLBuffer := c_sSASLBuffer c @ sMessage\<rparr>) st
      else sasl_finish E (Base64Decode_n (c_sSASLBuffer c @ (if sMessage \<noteq> ''+'' then sMessage else []))) st)"

definition OnAuthenticateMessage :: "cenv \<Rightarrow> message \<Rightarrow> cstate \<Rightarrow> cstate" where
  "OnAuthenticateMessage E m st =
     (let c = st_cl st; sMessage = GetParam m 0 in
      if \<not> c_bSASLCap c then PutClient_line E (znc_num ''904'' '':SASL not enabled'' st) st
      else if c_sSASLUser c \<noteq> [] \<or> IsAttached st
      then PutClient_line E (znc_num ''907'' '':You have already authenticated using SASL'' st) st
      else if equals_ci sMessage ''*'' then AbortSASL E (znc_num ''906'' '':SASL authentication aborted'' st) st
      else if length sMessage > 400 then AbortSASL E (znc_num ''905'' '':SASL message too long'' st) st
      else if \<not> IsDuringSASL c then sasl_start E sMessage st
      else sasl_continue E sMessage st)"

end
