(* ===== verification/Client_Caps.thy ===== *)
theory Client_Caps imports Client_Session begin

text \<open>
  The capabilities of a client (src/Client.cpp): the core capabilities with their handlers,
  CAP LS, REQ, LIST and END, the split of long replies, and the notification about
  capabilities that depend on the server (NotifyServerDependentCap).
\<close>

definition RespondCap :: "cenv \<Rightarrow> string \<Rightarrow> cstate \<Rightarrow> cstate" where
  "RespondCap E s st = PutClient_line E ('':irc.znc.in CAP '' @ own_GetNick True st @ '' '' @ s) st"

text \<open>The replies have lines of about 400 bytes.\<close>

fun multi_line :: "string \<Rightarrow> string list \<Rightarrow> string list" where
  "multi_line cur [] = [cur]"
| "multi_line cur (c # cs) =
     (if length cur + length c > 400 then cur # multi_line c cs
      else multi_line ((if cur \<noteq> [] then cur @ '' '' else cur) @ c) cs)"

definition MultiLine :: "string list \<Rightarrow> string list" where
  "MultiLine = multi_line []"

definition core_caps :: "string list" where
  "core_caps = [''batch'', ''cap-notify'', ''chghost'', ''echo-message'', ''invite-notify'', ''message-tags'',
     ''multi-prefix'', ''sasl'', ''server-time'', ''userhost-in-names'', ''znc.in/batch'',
     ''znc.in/self-message'', ''znc.in/server-time-iso'']"

definition view_upd :: "(client \<Rightarrow> client) \<Rightarrow> cclient \<Rightarrow> cclient" where
  "view_upd f c = c \<lparr>c_view := f (c_view c)\<rparr>"

text \<open>The handlers that only set flags; sasl may also abort an exchange.\<close>

definition cap_flag :: "string \<Rightarrow> bool \<Rightarrow> cclient \<Rightarrow> cclient" where
  "cap_flag sCap b c =
     (if sCap = ''multi-prefix'' then view_upd (\<lambda>v. v \<lparr>cl_HasNamesx := b\<rparr>) c
      else if sCap = ''userhost-in-names'' then view_upd (\<lambda>v. v \<lparr>cl_HasUHNames := b\<rparr>) c
      else if sCap = ''echo-message'' then view_upd (\<lambda>v. v \<lparr>cl_HasEchoMessage := b\<rparr>) c
      else if sCap = ''message-tags'' then c \<lparr>c_bMessageTagCap := b\<rparr>
      else if sCap \<in> {''server-time'', ''znc.in/server-time-iso''}
      then Client_SetTagSupport ''time'' b
             (view_upd (\<lambda>v. v \<lparr>cl_caps := (cl_caps v) \<lparr>HasServerTime := b\<rparr>\<rparr>) c)
      else if sCap \<in> {''batch'', ''znc.in/batch''}
      then Client_SetTagSupport ''batch'' b (view_upd (\<lambda>v. v \<lparr>cl_HasBatch := b\<rparr>) c)
      else if sCap = ''cap-notify'' then c \<lparr>c_bCapNotify := b\<rparr>
      else if sCap = ''invite-notify'' then c \<lparr>c_bInviteNotify := b\<rparr>
      else if sCap = ''chghost'' then view_upd (\<lambda>v. v \<lparr>cl_HasChgHost := b\<rparr>) c
      else if sCap = ''znc.in/self-message'' then view_upd (\<lambda>v. v \<lparr>cl_HasSelfMessage := b\<rparr>) c
      else if sCap = ''sasl'' then c \<lparr>c_bSASLCap := b\<rparr>
      else c)"

definition core_cap :: "cenv \<Rightarrow> string \<Rightarrow> bool \<Rightarrow> cstate \<Rightarrow> cstate" where
  "core_cap E sCap b st =
     on_client (cap_flag sCap b)
       (if sCap = ''sasl'' \<and> IsDuringSASL (st_cl st) \<and> \<not> b
        then AbortSASL E (znc_num ''904'' '':SASL authentication aborted'' st) st else st)"

section \<open>The subcommands\<close>

definition cap_reply :: "cenv \<Rightarrow> string \<Rightarrow> string \<Rightarrow> string list \<Rightarrow> cstate \<Rightarrow> cstate" where
  "cap_reply E sSub sSubOld lines st =
     (if HasCap302 (st_cl st)
      then RespondCap E (sSub @ '' :'' @ last lines)
             (fold (\<lambda>l. RespondCap E (sSub @ '' * :'' @ l)) (butlast lines) st)
      else RespondCap E (sSubOld @ '' :'' @ hd lines) st)"

definition offered_caps :: "cenv \<Rightarrow> cclient \<Rightarrow> string list" where
  "offered_caps E c =
     (let offer = fold os_insert (map (\<lambda>s. if HasCap302 c \<and> s = ''sasl''
                    then s @ ''='' @ Join '','' (if ce_SASLMechanisms E = [] then [''*''] else ce_SASLMechanisms E)
                    else s) core_caps) []
      in filter (\<lambda>s. Token s 0 False ''='' False \<notin> set (ce_CapBlacklist E)) (ce_OnClientCapLs E offer))"

definition cap_ls :: "cenv \<Rightarrow> message \<Rightarrow> cstate \<Rightarrow> cstate" where
  "cap_ls E m st =
     (let st1 = on_cl (\<lambda>c. c \<lparr>c_uCapVersion := max (c_uCapVersion c) (ToUShort (GetParam m 1))\<rparr>) st;
          vsCaps = MultiLine (offered_caps E (st_cl st1));
          st2 = on_cl (\<lambda>c. c \<lparr>c_bInCap := True, c_bCapNotify := (c_bCapNotify c \<or> HasCap302 c)\<rparr>) st1
      in cap_reply E ''LS'' ''LS'' vsCaps st2)"

definition cap_end :: "cenv \<Rightarrow> cstate \<Rightarrow> cstate" where
  "cap_end E st =
     (let st1 = on_cl (\<lambda>c. c \<lparr>c_bInCap := False\<rparr>) st in
      if IsAttached st1 then st1
      else
        (let st2 = (if IsDuringSASL (st_cl st1)
                    then AbortSASL E (znc_num ''904'' '':SASL authentication aborted'' st1) st1 else st1);
             c = st_cl st2
         in if c_bGotUser c \<and> c_sSASLUser c = [] \<and> \<not> c_bGotPass c
            then SendRequiredPasswordNotice E st2 else AuthUser E st2))"

definition cap_token :: "string \<Rightarrow> bool \<times> string" where
  "cap_token sToken = (let (minus, sCap) = TrimPrefix ''-'' sToken in (\<not> minus, sCap))"

definition cap_accepted :: "cenv \<Rightarrow> string \<Rightarrow> bool" where
  "cap_accepted E sToken =
     (let (bVal, sCap) = cap_token sToken
      in (sCap \<in> set core_caps \<or> ce_IsClientCapSupported E sCap bVal) \<and> sCap \<notin> set (ce_CapBlacklist E))"

definition cap_enable :: "cenv \<Rightarrow> string \<Rightarrow> cstate \<Rightarrow> cstate" where
  "cap_enable E sToken st =
     (let (bVal, sCap) = cap_token sToken;
          st1 = (if sCap \<in> set core_caps then core_cap E sCap bVal st else st);
          st2 = on_client (ce_OnClientCapRequest E sCap bVal) st1
      in on_cl (\<lambda>c. c \<lparr>c_ssAcceptedCaps := (if bVal then os_insert sCap (c_ssAcceptedCaps c)
                                           else os_erase sCap (c_ssAcceptedCaps c))\<rparr>) st2)"

definition cap_req :: "cenv \<Rightarrow> message \<Rightarrow> cstate \<Rightarrow> cstate" where
  "cap_req E m st =
     (let st1 = on_cl (\<lambda>c. c \<lparr>c_bInCap := True\<rparr>) st;
          vsTokens = split_plain (GetParam m 1) '' '' False
      in if list_all (cap_accepted E) vsTokens
         then (let st2 = fold (cap_enable E) vsTokens st1 in RespondCap E (''ACK :'' @ GetParam m 1) st2)
         else RespondCap E (''NAK :'' @ GetParam m 1) st1)"

text \<open>For a client without CAP 302 the reply is called LISTS.\<close>

definition HandleCap :: "cenv \<Rightarrow> message \<Rightarrow> cstate \<Rightarrow> cstate" where
  "HandleCap E m st =
     (let sSubCmd = GetParam m 0 in
      if equals_ci sSubCmd ''LS'' then cap_ls E m st
      else if equals_ci sSubCmd ''END'' then cap_end E st
      else if equals_ci sSubCmd ''REQ'' then cap_req E m st
      else if equals_ci sSubCmd ''LIST'' then cap_reply E ''LIST'' ''LISTS'' (MultiLine (c_ssAcceptedCaps (st_cl st))) st
      else PutClient_line E (znc_num ''410'' (sSubCmd @ '' :Invalid CAP subcommand'') st) st)"

definition NotifyServerDependentCap :: "cenv \<Rightarrow> string \<Rightarrow> bool \<Rightarrow> string \<Rightarrow> cstate \<Rightarrow> cstate" where
  "NotifyServerDependentCap E sCap bValue sValue st =
     (let c = st_cl st in
      if bValue \<and> sCap \<notin> set (ce_CapBlacklist E) then
        (if c_bCapNotify c
         then RespondCap E (''NEW :'' @ sCap @ (if HasCap302 c \<and> sValue \<noteq> [] then ''='' @ sValue else [])) st
         else st)
      else on_cl (\<lambda>c. c \<lparr>c_ssAcceptedCaps := os_erase sCap (c_ssAcceptedCaps c)\<rparr>)
             (if c_bCapNotify c then RespondCap E (''DEL :'' @ sCap) st else st))"

end
