(* ===== verification/Client_Handlers.thy ===== *)
theory Client_Handlers imports Client_Caps begin

text \<open>
  The messages of a client (src/Client.cpp): the handlers, the dispatch of a line (ReadLine)
  and the ends of the connection. Channels are named by their position in the network; the
  order in which a std::set of channel pointers is traversed is \<open>ce_order\<close>.

  The handlers return whether the message was consumed, the changed message and the state. A
  command for *status is the event UserCommand, one for a module the event ModCommand.
\<close>

section \<open>Helpers\<close>

definition PutIRCStripping :: "cenv \<Rightarrow> message \<Rightarrow> cstate \<Rightarrow> cstate" where
  "PutIRCStripping E m st =
     (case GetIRCSock st of None \<Rightarrow> st
      | Some s \<Rightarrow>
          (let m1 = m \<lparr>m_Nick := empty_nick\<rparr>;
               m2 = (if m_bMessageTagCap s then m1 else m1 \<lparr>m_mssTags := []\<rparr>)
           in on_csock (PutIRC_msg (ce_env E) m2) st))"

definition client_chan :: "string \<Rightarrow> cstate \<Rightarrow> nat option" where
  "client_chan s st = (case the_znet st of None \<Rightarrow> None | Some z \<Rightarrow> FindChan (zn_sock z) s (zn_net z))"

definition client_the_chan :: "cstate \<Rightarrow> nat \<Rightarrow> chan" where
  "client_the_chan st i = m_vChans (zn_net (the (the_znet st))) ! i"

text \<open>The handlers look the channel up if there is a network.\<close>

definition set_chan :: "string \<Rightarrow> message \<Rightarrow> cstate \<Rightarrow> message" where
  "set_chan sTarget m st =
     (if the_znet st = None then m
      else m \<lparr>m_pChan := map_option (\<lambda>i. m_sName (client_the_chan st i)) (client_chan sTarget st)\<rparr>)"

definition status_target :: "string \<Rightarrow> cstate \<Rightarrow> bool \<times> string" where
  "status_target sTarget st =
     (case st_user st of None \<Rightarrow> (False, sTarget) | Some u \<Rightarrow> TrimPrefix (zu_sStatusPrefix u) sTarget)"

text \<open>What the client says is kept in the buffer of the channel or query.\<close>

definition Client_AddBuffer ::
    "(string \<Rightarrow> message \<Rightarrow> message) \<Rightarrow> (message \<Rightarrow> string) \<Rightarrow> message \<Rightarrow> cstate \<Rightarrow> cstate" where
  "Client_AddBuffer set_text get_text m st =
     (case (st_user st, the_znet st) of
        (Some u, Some z) \<Rightarrow>
          (let sTarget = GetTarget m; n = zn_net z;
               Format = buffer_format set_text (Client_GetNickMask st) (namedfmt sTarget) m
           in case FindChan (zn_sock z) sTarget n of
                Some i \<Rightarrow>
                  (if \<not> m_bAutoClearChanBuffer (m_vChans n ! i) \<or> \<not> IsUserOnline n
                   then on_cnet (upd_chan i (\<lambda>c. c \<lparr>m_Buffer := snd (Buffer_AddLine Format (get_text m) (m_Buffer c))\<rparr>)) st
                   else st)
              | None \<Rightarrow>
                  (if m_eType m \<noteq> TNotice \<and> (\<not> u_AutoClearQueryBuffer (zu_settings u) \<or> \<not> IsUserOnline n)
                   then (case AddQuery (zu_settings u) sTarget n of
                           (None, n1) \<Rightarrow> on_cnet (\<lambda>n. n1) st
                         | (Some q, n1) \<Rightarrow> on_cnet (\<lambda>n. query_AddBuffer q Format (get_text m) n1) st)
                   else st))
      | _ \<Rightarrow> st)"

definition wants_echo :: "cstate \<Rightarrow> message \<Rightarrow> nat \<Rightarrow> client \<Rightarrow> bool" where
  "wants_echo st m i cl \<longleftrightarrow>
     cl_HasEchoMessage cl \<or>
     (\<not> (st_listed st \<and> i = st_id st) \<and>
      ((case the_znet st of Some z \<Rightarrow> IsChan (zn_net z) (GetParam m 0) | None \<Rightarrow> False) \<or> cl_HasSelfMessage cl))"

definition EchoMessage :: "cenv \<Rightarrow> message \<Rightarrow> cstate \<Rightarrow> cstate" where
  "EchoMessage E m st =
     (let m1 = m \<lparr>m_Nick := mk_nick (Client_GetNickMask st)\<rparr>
      in route_all E (concat (map (\<lambda>(i, cl). if wants_echo st m i cl then [PutClientMsg i m1] else [])
                               (targets (GetClients st) None))) st)"

text \<open>The loop over the comma separated targets; the message is changed on the way.\<close>

fun each_target ::
    "(string \<Rightarrow> message \<Rightarrow> cstate \<Rightarrow> message \<times> cstate) \<Rightarrow> string list \<Rightarrow> message \<Rightarrow> cstate \<Rightarrow> message \<times> cstate" where
  "each_target f [] m st = (m, st)"
| "each_target f (t # ts) m st =
     (let (m1, st1) = f t (set_chan t (SetTarget t m) st) st in each_target f ts m1 st1)"

definition on_targets ::
    "(string \<Rightarrow> message \<Rightarrow> cstate \<Rightarrow> message \<times> cstate) \<Rightarrow> message \<Rightarrow> cstate \<Rightarrow> bool \<times> message \<times> cstate" where
  "on_targets f m st =
     (let (m1, st1) = each_target f (split_plain (GetTarget m) '','' False) m st in (True, m1, st1))"

definition lost_message :: "string \<Rightarrow> string \<Rightarrow> message \<Rightarrow> cstate \<Rightarrow> cstate" where
  "lost_message sWhat sTarget m st =
     (if \<not> equals_ci sTarget (cl_sNick (c_view (st_cl st)))
      then Client_PutStatus (''Your '' @ sWhat @ '' to '' @ GetTarget m @ '' got lost, you are not connected to IRC!'') st
      else st)"

text \<open>CALLMOD, with a module found in the network, the user or globally.\<close>

definition call_module :: "cenv \<Rightarrow> string \<Rightarrow> cl_event \<Rightarrow> cstate \<Rightarrow> cstate" where
  "call_module E sModule e st =
     (if ce_FindModule E sModule then emit_ev e st
      else Client_PutStatus (''No such module '' @ sModule) st)"

section \<open>Text, action, notice, tag and CTCP\<close>

definition relay ::
    "cenv \<Rightarrow> (string \<Rightarrow> message \<Rightarrow> message) \<Rightarrow> (message \<Rightarrow> string) \<Rightarrow> message \<Rightarrow> cstate \<Rightarrow> cstate" where
  "relay E set_text get_text m st =
     (if the_znet st = None then st
      else PutIRCStripping E m (EchoMessage E m (Client_AddBuffer set_text get_text m st)))"

definition Client_OnActionMessage :: "cenv \<Rightarrow> message \<Rightarrow> cstate \<Rightarrow> bool \<times> message \<times> cstate" where
  "Client_OnActionMessage E = on_targets (\<lambda>t m st.
     let (b, m1) = ce_hook E ''OnUserActionMessage'' m in
     if b then (m1, st)
     else if fst (status_target t st) then (m1, EchoMessage E m1 st)
     else (m1, relay E Action_SetText Action_GetText m1 st))"

definition Client_OnTextMessage :: "cenv \<Rightarrow> message \<Rightarrow> cstate \<Rightarrow> bool \<times> message \<times> cstate" where
  "Client_OnTextMessage E = on_targets (\<lambda>t m st.
     let (bStatus, t') = status_target t st in
     if bStatus then
       (m, let st1 = EchoMessage E m st
           in if equals_ci t' ''status'' then emit_ev (UserCommand (Text_GetText m)) st1
              else call_module E t' (ModCommand t' (Text_GetText m)) st1)
     else
       (let (b, m1) = ce_hook E ''OnUserTextMessage'' m in
        if b then (m1, st)
        else if GetIRCSock st = None then (m1, lost_message ''message'' t m1 st)
        else (m1, relay E Text_SetText Text_GetText m1 st)))"

definition Client_OnNoticeMessage :: "cenv \<Rightarrow> message \<Rightarrow> cstate \<Rightarrow> bool \<times> message \<times> cstate" where
  "Client_OnNoticeMessage E = on_targets (\<lambda>t m st.
     let (bStatus, t') = status_target t st in
     if bStatus then
       (m, let st1 = EchoMessage E m st
           in if equals_ci t' ''status'' then st1
              else call_module E t' (ModNotice t' (Text_GetText m)) st1)
     else
       (let (b, m1) = ce_hook E ''OnUserNoticeMessage'' m in
        if b then (m1, st)
        else if GetIRCSock st = None then (m1, lost_message ''notice'' t m1 st)
        else (m1, relay E Text_SetText Text_GetText m1 st)))"

definition Client_OnTagMessage :: "cenv \<Rightarrow> message \<Rightarrow> cstate \<Rightarrow> bool \<times> message \<times> cstate" where
  "Client_OnTagMessage E = on_targets (\<lambda>t m st.
     let (b, m1) = ce_hook E ''OnUserTagMessage'' m in
     if b then (m1, st)
     else if fst (status_target t st) then (m1, EchoMessage E m1 st)
     else (m1,
       if the_znet st = None then st
       else (let st1 = EchoMessage E m1 (Client_AddBuffer (\<lambda>t m. m) (\<lambda>m. []) m1 st)
             in case GetIRCSock st1 of Some s \<Rightarrow> if m_bMessageTagCap s then PutIRCStripping E m1 st1 else st1
                | None \<Rightarrow> st1)))"

definition Client_OnCTCPMessage :: "cenv \<Rightarrow> message \<Rightarrow> cstate \<Rightarrow> bool \<times> message \<times> cstate" where
  "Client_OnCTCPMessage E m st =
     (let sCTCP = CTCP_GetText m;
          m0 = (if CTCP_IsReply m \<and> token sCTCP 0 = ''VERSION''
                then CTCP_SetText (sCTCP @ '' via '' @ ce_Tag E) m else m);
          (m', st') = each_target (\<lambda>t m st.
            let (b, m1) = ce_hook E (if CTCP_IsReply m then ''OnUserCTCPReplyMessage'' else ''OnUserCTCPMessage'') m in
            if b then (m1, st)
            else if fst (status_target t st) then (m1, st)
            else if GetIRCSock st = None then (m1, lost_message ''CTCP'' t m1 st)
            else (m1, if the_znet st = None then st else PutIRCStripping E m1 st))
            (split_plain (GetTarget m) '','' False) m0 st
      in (True, m', st'))"

section \<open>Join, part, mode and topic\<close>

definition add_key :: "string \<Rightarrow> string \<Rightarrow> string" where
  "add_key sKeys s = (if sKeys = [] then s else sKeys @ '','' @ s)"

text \<open>A channel object for a name that is not known yet, with its key.\<close>

definition new_chan :: "string \<Rightarrow> string \<Rightarrow> cstate \<Rightarrow> cstate" where
  "new_chan sChannel sKey st =
     (case (st_user st, the_znet st) of
        (Some u, Some z) \<Rightarrow>
          (let n = zn_net z; c = mk_chan (zu_settings u) (IsUserOnline n) (IsChan n) sChannel False None;
               (ok, n1) = AddChan_ptr c n
           in if ok then on_cnet (\<lambda>n. upd_chan (length (m_vChans n)) (SetKey sKey) n1) st else st)
      | _ \<Rightarrow> st)"

text \<open>
  The loop of OnJoinMessage over the channels and their keys; the names and keys left for the
  server are collected in two strings.
\<close>

definition join_known :: "cenv \<Rightarrow> nat \<Rightarrow> string \<Rightarrow> cstate \<Rightarrow> cstate" where
  "join_known E i sKey st =
     (let c = client_the_chan st i in
      if m_bDetached c then attach_chan E i st
      else
        (let (line, c1) = JoinUser (IsIRCConnected st) sKey c;
             st1 = on_cnet (upd_chan i (\<lambda>c. c1)) st
         in case line of None \<Rightarrow> st1 | Some l \<Rightarrow> on_csock (PutIRC (ce_env E) l) st1))"

definition join_step ::
    "cenv \<Rightarrow> bool \<Rightarrow> string \<times> string \<Rightarrow> string \<times> string \<times> message \<times> cstate \<Rightarrow>
     string \<times> string \<times> message \<times> cstate" where
  "join_step E bKeys tk r =
     (let (sChans, sKeys, m, st) = r;
          (b, m1) = ce_hook E ''OnUserJoinMessage'' (set_chan (fst tk) (SetParam 1 (snd tk) (SetTarget (fst tk) m)) st);
          sChannel = GetTarget m1; sKey = Join_GetKey m1
      in if b \<or> the_znet st = None then (sChans, sKeys, m1, st)
         else (case client_chan sChannel st of
                 Some i \<Rightarrow> (sChans, sKeys, m1, join_known E i sKey st)
               | None \<Rightarrow>
                   (let st1 = (if sChannel \<noteq> [] then new_chan sChannel sKey st else st)
                    in if sChannel \<noteq> [] \<and> IsIRCConnected st1
                       then (add_key sChans sChannel, if bKeys then add_key sKeys sKey else sKeys, m1, st1)
                       else (sChans, sKeys, m1, st1))))"

definition join_pairs :: "string list \<Rightarrow> string list \<Rightarrow> (string \<times> string) list" where
  "join_pairs vsChans vsKeys =
     map (\<lambda>a. (vsChans ! a, if a < length vsKeys then vsKeys ! a else [])) [0..<length vsChans]"

definition Client_OnJoinMessage :: "cenv \<Rightarrow> message \<Rightarrow> cstate \<Rightarrow> bool \<times> message \<times> cstate" where
  "Client_OnJoinMessage E m st =
     (let vsChans = split_plain (GetTarget m) '','' False;
          vsKeys = split_plain (Join_GetKey m) '','' True;
          (sChans, sKeys, m1, st1) = fold (join_step E (vsKeys \<noteq> [])) (join_pairs vsChans vsKeys) ([], [], m, st)
      in (sChans = [], SetParam 1 sKeys (SetTarget sChans m1), st1))"

definition Client_OnModeMessage :: "cenv \<Rightarrow> message \<Rightarrow> cstate \<Rightarrow> bool \<times> message \<times> cstate" where
  "Client_OnModeMessage E m st =
     (let sTarget = GetTarget m in
      case the_znet st of None \<Rightarrow> (False, m, st)
      | Some z \<Rightarrow>
          (if IsChan (zn_net z) sTarget \<and> \<not> Mode_HasModes m then
             (case client_chan sTarget st of None \<Rightarrow> (False, m, st)
              | Some i \<Rightarrow>
                  (let c = client_the_chan st i; pre = '':'' @ m_sIRCServer (zn_net z);
                       num = (\<lambda>st n. pre @ '' '' @ n @ '' '' @ own_GetNick True st @ '' '' @ sTarget @ '' '')
                   in if m_bIsOn c \<and> GetModeString c \<noteq> [] then
                        (True, m,
                         let st1 = PutClient_line E (num st ''324'' @ GetModeString c) st
                         in if m_ulCreationDate c > 0
                            then PutClient_line E (num st1 ''329'' @ dec (m_ulCreationDate c)) st1 else st1)
                      else (False, m, st)))
           else (False, m, st)))"

definition part_step ::
    "cenv \<Rightarrow> string \<Rightarrow> string \<times> message \<times> cstate \<Rightarrow> string \<times> message \<times> cstate" where
  "part_step E t r =
     (let (sChans, m, st) = r;
          (b, m1) = ce_hook E ''OnUserPartMessage'' (set_chan t (SetTarget t m) st);
          sChan = GetTarget m1
      in if b then (sChans, m1, st)
         else (case client_chan sChan st of
                 Some i \<Rightarrow>
                   if \<not> m_bIsOn (client_the_chan st i)
                   then (sChans, m1, on_cnet (\<lambda>n. snd (DelChan sChan n))
                           (PutStatusNotice (''Removing channel '' @ sChan) st))
                   else (add_key sChans sChan, m1, st)
               | None \<Rightarrow> (add_key sChans sChan, m1, st)))"

definition Client_OnPartMessage :: "cenv \<Rightarrow> message \<Rightarrow> cstate \<Rightarrow> bool \<times> message \<times> cstate" where
  "Client_OnPartMessage E m st =
     (let (sChans, m1, st1) = fold (part_step E) (split_plain (GetTarget m) '','' False) ([], m, st)
      in if sChans = [] then (True, m1, st1) else (False, SetTarget sChans m1, st1))"

definition Client_OnTopicMessage :: "cenv \<Rightarrow> message \<Rightarrow> cstate \<Rightarrow> bool \<times> message \<times> cstate" where
  "Client_OnTopicMessage E m st =
     (let sChan = GetTarget m; m1 = set_chan sChan m st in
      if Topic_GetTopic m \<noteq> []
      then (let (b, m2) = ce_hook E ''OnUserTopicMessage'' m1 in (b, m2, st))
      else (let (b, m2) = ce_hook E ''OnUserTopicRequest'' m1 in (b, SetTarget (GetTarget m2) m1, st)))"

section \<open>Ping, quit and the commands of the bouncer\<close>

text \<open>With the default length GetParamsColon never reads outside of the vector for 0 and 1.\<close>

definition params_colon :: "message \<Rightarrow> nat \<Rightarrow> string" where
  "params_colon m i = (case GetParamsColon m i uint_max of Some s \<Rightarrow> s | None \<Rightarrow> [])"

definition Client_OnPingMessage :: "cenv \<Rightarrow> message \<Rightarrow> cstate \<Rightarrow> bool \<times> message \<times> cstate" where
  "Client_OnPingMessage E m st =
     (False, m, PutClient_line E (if m_vsParams m \<noteq> [] then '':irc.znc.in PONG irc.znc.in '' @ params_colon m 0
                                  else '':irc.znc.in PONG irc.znc.in'') st)"

definition Client_OnQuitMessage :: "cenv \<Rightarrow> message \<Rightarrow> cstate \<Rightarrow> bool \<times> message \<times> cstate" where
  "Client_OnQuitMessage E m st =
     (let (b, m1) = ce_hook E ''OnUserQuitMessage'' m in (True, m1, if b then st else Close CLT_AFTERWRITE st))"

text \<open>The channels that match one of the patterns, each once, in the order of the set.\<close>

definition MatchChans :: "cenv \<Rightarrow> string \<Rightarrow> cstate \<Rightarrow> nat list" where
  "MatchChans E sPatterns st =
     (case the_znet st of None \<Rightarrow> []
      | Some z \<Rightarrow>
          (let ps = Split (Replace_n sPatterns '','' '' '') '' '' False [] [] True True
           in ce_order E (filter (\<lambda>i. \<exists>p \<in> set ps.
                  WildCmp (AsLower p) (AsLower (m_sName (m_vChans (zn_net z) ! i))) CaseSensitive)
                [0..<length (m_vChans (zn_net z))])))"

definition AttachChans :: "cenv \<Rightarrow> nat list \<Rightarrow> cstate \<Rightarrow> nat \<times> cstate" where
  "AttachChans E is st = fold (\<lambda>i (k, st).
     if m_bDetached (client_the_chan st i)
     then (case the_znet st of None \<Rightarrow> (k, st)
           | Some z \<Rightarrow>
               (let (out, c1) = AttachUser (ce_play E) (network_view (zn_sock z) (zn_net z)) None (client_the_chan st i)
                in (k + 1, route_all E out (on_cnet (upd_chan i (\<lambda>c. c1)) st))))
     else (k, st)) is (0, st)"

definition DetachChans :: "cenv \<Rightarrow> nat list \<Rightarrow> cstate \<Rightarrow> nat \<times> cstate" where
  "DetachChans E is st = fold (\<lambda>i (k, st).
     if m_bDetached (client_the_chan st i) then (k, st)
     else (case the_znet st of None \<Rightarrow> (k, st)
           | Some z \<Rightarrow>
               (let (out, c1) = DetachUser (network_view (zn_sock z) (zn_net z)) (client_the_chan st i)
                in (k + 1, route_all E out (on_cnet (upd_chan i (\<lambda>c. c1)) st))))) is (0, st)"

definition plural :: "string \<Rightarrow> string \<Rightarrow> nat \<Rightarrow> string" where
  "plural one many k = (if k = 1 then one else many)"

definition matched_status :: "string \<Rightarrow> string \<Rightarrow> nat \<Rightarrow> nat \<Rightarrow> cstate \<Rightarrow> cstate" where
  "matched_status sDone sPatterns uMatched uDone st =
     PutStatusNotice (sDone @ '' '' @ dec uDone @ plural '' channel'' '' channels'' uDone)
       (PutStatusNotice (''There '' @ plural ''was '' ''were '' uMatched @ dec uMatched @
          plural '' channel'' '' channels'' uMatched @ '' matching ['' @ sPatterns @ '']'') st)"

definition attach_command :: "cenv \<Rightarrow> bool \<Rightarrow> message \<Rightarrow> cstate \<Rightarrow> cstate" where
  "attach_command E bAttach m st =
     (if the_znet st = None then st
      else
        (let sPatterns = params_colon m 0 in
         if sPatterns = [] then PutStatusNotice (if bAttach then ''Usage: /attach <#chans>'' else ''Usage: /detach <#chans>'') st
         else
           (let is = MatchChans E sPatterns st;
                (k, st1) = (if bAttach then AttachChans E is st else DetachChans E is st)
            in matched_status (if bAttach then ''Attached'' else ''Detached'') sPatterns (length is) k st1)))"

definition znc_command :: "cenv \<Rightarrow> message \<Rightarrow> cstate \<Rightarrow> cstate" where
  "znc_command E m st =
     (let (bStatus, t') = status_target (GetParam m 0) st;
          sTarget = (if bStatus then t' else ''status'');
          sModCommand = (if bStatus then params_colon m 1 else params_colon m 0)
      in if equals_ci sTarget ''status'' then
           (if sModCommand = [] then Client_PutStatus ''Hello. How may I help you?'' st
            else emit_ev (UserCommand sModCommand) st)
         else if sModCommand = [] then
           (if ce_FindModule E sTarget then PutModule sTarget ''Hello. How may I help you?'' st
            else Client_PutStatus (''No such module '' @ sTarget) st)
         else call_module E sTarget (ModCommand sTarget sModCommand) st)"

definition protoctl :: "string list \<Rightarrow> cclient \<Rightarrow> cclient" where
  "protoctl ps c = fold (\<lambda>p c.
     if p = ''NAMESX'' then view_upd (\<lambda>v. v \<lparr>cl_HasNamesx := True\<rparr>) c
     else if p = ''UHNAMES'' then view_upd (\<lambda>v. v \<lparr>cl_HasUHNames := True\<rparr>) c else c) ps c"

definition Client_OnOtherMessage :: "cenv \<Rightarrow> message \<Rightarrow> cstate \<Rightarrow> bool \<times> message \<times> cstate" where
  "Client_OnOtherMessage E m st =
     (let sCommand = m_sCommand m in
      if equals_ci sCommand ''ZNC'' then (True, m, znc_command E m st)
      else if equals_ci sCommand ''ATTACH'' then (True, m, attach_command E True m st)
      else if equals_ci sCommand ''DETACH'' then (True, m, attach_command E False m st)
      else if equals_ci sCommand ''PROTOCTL'' then (True, m, on_client (protoctl (m_vsParams m)) st)
      else (False, m, st))"

section \<open>The dispatch\<close>

definition dispatch_client :: "cenv \<Rightarrow> message \<Rightarrow> cstate \<Rightarrow> bool \<times> message \<times> cstate" where
  "dispatch_client E m st =
     (case m_eType m of
        TAction \<Rightarrow> Client_OnActionMessage E m st
      | TCTCP \<Rightarrow> Client_OnCTCPMessage E m st
      | TJoin \<Rightarrow> Client_OnJoinMessage E m st
      | TMode \<Rightarrow> Client_OnModeMessage E m st
      | TNotice \<Rightarrow> Client_OnNoticeMessage E m st
      | TPart \<Rightarrow> Client_OnPartMessage E m st
      | TPing \<Rightarrow> Client_OnPingMessage E m st
      | TPong \<Rightarrow> (True, m, st)
      | TQuit \<Rightarrow> Client_OnQuitMessage E m st
      | TTagMsg \<Rightarrow> Client_OnTagMessage E m st
      | TText \<Rightarrow> Client_OnTextMessage E m st
      | TTopic \<Rightarrow> Client_OnTopicMessage E m st
      | _ \<Rightarrow> Client_OnOtherMessage E m st)"

text \<open>PASS, NICK and USER before the login; None for every other command.\<close>

definition pre_login :: "cenv \<Rightarrow> message \<Rightarrow> cstate \<Rightarrow> cstate option" where
  "pre_login E m st =
     (let sCommand = m_sCommand m; sParam = GetParam m 0 in
      if equals_ci sCommand ''PASS'' then
        Some (AuthUser E (on_cl (\<lambda>c. ParsePass sParam (c \<lparr>c_bGotPass := True\<rparr>)) st))
      else if equals_ci sCommand ''NICK'' then
        Some (AuthUser E (on_cl (\<lambda>c. (view_upd (\<lambda>v. v \<lparr>cl_sNick := sParam\<rparr>) c) \<lparr>c_bGotNick := True\<rparr>) st))
      else if equals_ci sCommand ''USER'' then
        Some (let st1 = on_cl (\<lambda>c. (if c_sUser c = [] \<and> sParam \<noteq> [] then ParseUser sParam c else c)
                                      \<lparr>c_bGotUser := True\<rparr>) st;
                  c = st_cl st1
              in if c_bGotPass c \<or> c_sSASLUser c \<noteq> [] then AuthUser E st1
                 else if \<not> c_bInCap c then SendRequiredPasswordNotice E st1 else st1)
      else None)"

definition client_message_in :: "cenv \<Rightarrow> message \<Rightarrow> cstate \<Rightarrow> cstate" where
  "client_message_in E m st =
     (case (if IsAttached st then None else pre_login E m st) of
        Some st1 \<Rightarrow> st1
      | None \<Rightarrow>
          (if m_eType m = TCapability then HandleCap E m st
           else if m_eType m = TAuthenticate then OnAuthenticateMessage E m st
           else if \<not> IsAttached st then st
           else (let (bReturn, m1, st1) = dispatch_client E m st
                 in if bReturn then st1 else PutIRCStripping E m1 st1)))"

definition Client_ReadLine :: "cenv \<Rightarrow> string \<Rightarrow> cstate \<Rightarrow> cstate" where
  "Client_ReadLine E sData st =
     (let sLine = Replace_n (Replace_n sData [CHR 0x0A] []) [CHR 0x0D] [];
          (bRaw, sLine1) = ce_OnUserRaw E (IsAttached st) sLine
      in if bRaw then st
         else (let (bMsg, m) = ce_hook E (if IsAttached st then ''OnUserRawMessage'' else ''OnUnknownUserRawMessage'')
                              (line_message (ce_env E) sLine1)
               in if bMsg then st else client_message_in E m st))"

section \<open>Other events of the connection\<close>

definition Client_Timeout :: "cenv \<Rightarrow> cstate \<Rightarrow> cstate" where
  "Client_Timeout E = PutClient_line E ''ERROR :Closing link: Timeout''"

definition Client_Disconnected :: "cenv \<Rightarrow> cstate \<Rightarrow> cstate" where
  "Client_Disconnected E = SetNetwork E None False False"

definition Client_ReachedMaxBuffer :: "cenv \<Rightarrow> cstate \<Rightarrow> cstate" where
  "Client_ReachedMaxBuffer E st =
     Close CLT_NOW (if IsAttached st then PutClient_line E ''ERROR :Closing link: Too long raw line'' st else st)"

definition BouncedOff :: "cstate \<Rightarrow> cstate" where
  "BouncedOff st =
     Close CLT_AFTERWRITE (PutStatusNotice
       ''You are being disconnected because another user just authenticated as you.'' st)"

definition StatusCTCP :: "cenv \<Rightarrow> string \<Rightarrow> cstate \<Rightarrow> cstate" where
  "StatusCTCP E sLine st =
     (let sCommand = token sLine 0 in
      if equals_ci sCommand ''PING'' then PutStatusNotice (soh @ ''PING '' @ token_rest sLine 1 @ soh) st
      else if equals_ci sCommand ''VERSION'' then PutStatusNotice (soh @ ''VERSION '' @ ce_Tag E @ soh) st
      else st)"

end
