(* ===== verification/Client_Facts.thy ===== *)
theory Client_Facts imports Client_Handlers Handler_Facts begin

text \<open>
  What every step of a client keeps. The locale \<open>client_stable\<close> has as its laws the elementary
  updates of the state (an event, a change of the client's own fields, of the network, of the
  socket, the moves on and off a list) and proves once that all operations of the client keep
  a property with these laws. It is interpreted for three properties: only authenticated users
  are attached, the networks and sockets stay well formed, and the list of clients agrees with
  the client's own state.
\<close>

section \<open>Elementary facts\<close>

lemma upd_znet_simps [simp]:
  "st_cl (upd_znet f st) = st_cl st" "st_net (upd_znet f st) = st_net st" "st_id (upd_znet f st) = st_id st"
  "st_listed (upd_znet f st) = st_listed st" "st_ev (upd_znet f st) = st_ev st"
  "IsAttached (upd_znet f st) = IsAttached st"
  by (auto simp: upd_znet_def IsAttached_def split: option.split)

lemma on_cnet_simps [simp]:
  "st_cl (on_cnet f st) = st_cl st" "st_net (on_cnet f st) = st_net st" "st_id (on_cnet f st) = st_id st"
  "st_listed (on_cnet f st) = st_listed st" "st_ev (on_cnet f st) = st_ev st" "IsAttached (on_cnet f st) = IsAttached st"
  "st_cl (on_csock g st) = st_cl st" "st_net (on_csock g st) = st_net st" "st_id (on_csock g st) = st_id st"
  "st_listed (on_csock g st) = st_listed st" "st_ev (on_csock g st) = st_ev st" "IsAttached (on_csock g st) = IsAttached st"
  by (simp_all add: on_cnet_def on_csock_def)

lemma set_clients_simps [simp]:
  "st_cl (set_clients f st) = st_cl st" "st_net (set_clients f st) = st_net st" "st_id (set_clients f st) = st_id st"
  "st_listed (set_clients f st) = st_listed st" "st_ev (set_clients f st) = st_ev st"
  "IsAttached (set_clients f st) = IsAttached st"
  by (auto simp: set_clients_def IsAttached_def split: option.split) (auto simp: on_cnet_def upd_znet_def split: option.split)

lemma on_cl_simps [simp]:
  "st_cl (on_cl f st) = f (st_cl st)" "st_user (on_cl f st) = st_user st" "st_net (on_cl f st) = st_net st"
  "st_id (on_cl f st) = st_id st" "st_listed (on_cl f st) = st_listed st" "st_ev (on_cl f st) = st_ev st"
  "IsAttached (on_cl f st) = IsAttached st" "the_znet (on_cl f st) = the_znet st"
  "GetClients (on_cl f st) = GetClients st" "GetIRCSock (on_cl f st) = GetIRCSock st"
  by (simp_all add: on_cl_def IsAttached_def the_znet_def GetClients_def GetIRCSock_def cong: option.case_cong)

lemma emit_ev_simps [simp]:
  "st_cl (emit_ev e st) = st_cl st" "st_user (emit_ev e st) = st_user st" "st_net (emit_ev e st) = st_net st"
  "st_id (emit_ev e st) = st_id st" "st_listed (emit_ev e st) = st_listed st" "st_ev (emit_ev e st) = st_ev st @ [e]"
  "IsAttached (emit_ev e st) = IsAttached st" "the_znet (emit_ev e st) = the_znet st"
  "GetClients (emit_ev e st) = GetClients st" "GetIRCSock (emit_ev e st) = GetIRCSock st"
  by (simp_all add: emit_ev_def IsAttached_def the_znet_def GetClients_def GetIRCSock_def cong: option.case_cong)

lemma on_client_simps [simp]:
  "st_cl (on_client f st) = f (st_cl st)" "st_net (on_client f st) = st_net st" "st_id (on_client f st) = st_id st"
  "st_listed (on_client f st) = st_listed st" "st_ev (on_client f st) = st_ev st" "IsAttached (on_client f st) = IsAttached st"
  by (simp_all add: on_client_def Let_def)

lemma upd_znet_None: "the_znet st = None \<Longrightarrow> upd_znet f st = st"
  by (auto simp: the_znet_def upd_znet_def list_update_beyond split: option.splits if_splits)

lemma on_cnet_None: "the_znet st = None \<Longrightarrow> on_cnet g st = st"
  by (simp add: on_cnet_def upd_znet_None)

lemma IsAttached_upd [simp]:
  "IsAttached (st \<lparr>st_listed := b\<rparr>) = IsAttached st" "IsAttached (st \<lparr>st_id := i\<rparr>) = IsAttached st"
  "IsAttached (st \<lparr>st_net := x\<rparr>) = IsAttached st" "IsAttached (st \<lparr>st_user := Some u\<rparr>)"
  by (simp_all add: IsAttached_def)

lemma client_moves_simps [simp]:
  "st_cl (client_gone st) = st_cl st" "st_net (client_gone st) = st_net st" "st_listed (client_gone st) = False"
  "IsAttached (client_gone st) = IsAttached st"
  "st_cl (client_added st) = st_cl st" "st_net (client_added st) = st_net st" "st_listed (client_added st) = True"
  "IsAttached (client_added st) = IsAttached st"
  by (simp_all add: client_gone_def client_added_def)

lemma protoctl_user [simp]: "c_sSASLUser (protoctl ps c) = c_sSASLUser c"
  unfolding protoctl_def by (induction ps arbitrary: c) (simp_all add: view_upd_def)

lemma fold_keeps:
  assumes "\<And>x s. P s \<Longrightarrow> P (f x s)" and "P s"
  shows "P (fold f xs s)"
  using assms(2) by (induction xs arbitrary: s) (simp_all add: assms(1))

text \<open>Writing to the client only adds events.\<close>

lemma write_simps [simp]:
  "st_cl (write_line l st) = st_cl st" "st_user (write_line l st) = st_user st" "st_net (write_line l st) = st_net st"
  "st_id (write_line l st) = st_id st" "st_listed (write_line l st) = st_listed st"
  "IsAttached (write_line l st) = IsAttached st" "the_znet (write_line l st) = the_znet st"
  by (simp_all add: write_line_def)

lemma PutClient_msg_simps [simp]:
  "st_cl (PutClient_msg E m st) = st_cl st" "st_user (PutClient_msg E m st) = st_user st"
  "st_net (PutClient_msg E m st) = st_net st" "st_id (PutClient_msg E m st) = st_id st"
  "st_listed (PutClient_msg E m st) = st_listed st" "IsAttached (PutClient_msg E m st) = IsAttached st"
  "the_znet (PutClient_msg E m st) = the_znet st"
  by (simp_all add: PutClient_msg_def split: option.split)

lemma PutClient_line_simps [simp]:
  "st_cl (PutClient_line E l st) = st_cl st" "st_user (PutClient_line E l st) = st_user st"
  "st_net (PutClient_line E l st) = st_net st" "st_id (PutClient_line E l st) = st_id st"
  "st_listed (PutClient_line E l st) = st_listed st" "IsAttached (PutClient_line E l st) = IsAttached st"
  "the_znet (PutClient_line E l st) = the_znet st"
  by (simp_all add: PutClient_line_def)

lemma fold_write_simps [simp]:
  "st_cl (fold (\<lambda>s st. write_line (f s st) st) xs st) = st_cl st"
  "st_user (fold (\<lambda>s st. write_line (f s st) st) xs st) = st_user st"
  "st_net (fold (\<lambda>s st. write_line (f s st) st) xs st) = st_net st"
  "st_listed (fold (\<lambda>s st. write_line (f s st) st) xs st) = st_listed st"
  by (induction xs arbitrary: st) simp_all

lemma PutModule_simps [simp]:
  "st_cl (PutModule m l st) = st_cl st" "st_user (PutModule m l st) = st_user st"
  "st_net (PutModule m l st) = st_net st" "st_listed (PutModule m l st) = st_listed st"
  "st_cl (PutModNotice m l st) = st_cl st" "st_user (PutModNotice m l st) = st_user st"
  "st_net (PutModNotice m l st) = st_net st" "st_listed (PutModNotice m l st) = st_listed st"
  by (simp_all add: PutModule_def PutModNotice_def split: option.split)

lemma status_simps [simp]:
  "st_cl (Client_PutStatus l st) = st_cl st" "st_user (Client_PutStatus l st) = st_user st"
  "st_listed (Client_PutStatus l st) = st_listed st" "st_net (Client_PutStatus l st) = st_net st"
  "st_cl (PutStatusNotice l st) = st_cl st" "st_user (PutStatusNotice l st) = st_user st"
  "st_listed (PutStatusNotice l st) = st_listed st" "st_net (PutStatusNotice l st) = st_net st"
  by (simp_all add: Client_PutStatus_def PutStatusNotice_def)

lemma choose_network_simps [simp]:
  "st_listed (choose_network u st) = st_listed st" "st_user (choose_network u st) = st_user st"
  by (simp_all add: choose_network_def Let_def)

lemma bounce_all_simps [simp]:
  "st_cl (bounce_all st) = st_cl st" "st_listed (bounce_all st) = st_listed st" "IsAttached (bounce_all st) = IsAttached st"
  unfolding bounce_all_def
  by (simp_all add: fold_keeps [where P = "\<lambda>s. st_cl s = st_cl st"] fold_keeps [where P = "\<lambda>s. st_listed s = st_listed st"]
      fold_keeps [where P = "\<lambda>s. IsAttached s = IsAttached st"])

lemma sock_inv_PutIRC_msg [simp]: "sock_inv (PutIRC_msg E m s) = sock_inv s"
  by (rule sock_inv_rest) simp

lemma net_inv_upd_chan_at:
  assumes "net_inv n" and "chan_inv (m_vChans n ! i) \<Longrightarrow> chan_inv (f (m_vChans n ! i))"
  shows "net_inv (upd_chan i f n)"
proof (cases "i < length (m_vChans n)")
  case True
  then have "chan_inv (f (m_vChans n ! i))" using assms by (simp add: net_inv_def list_all_length)
  then show ?thesis using assms(1)
    by (auto simp: net_inv_def upd_chan_def list_all_iff dest!: subsetD [OF set_update_subset_insert])
qed (use assms(1) in \<open>simp add: upd_chan_def list_update_beyond\<close>)

lemma AddQuery_clients [simp]: "m_vClients (snd (AddQuery U s n)) = m_vClients n"
  by (simp add: AddQuery_def Let_def split: option.split)

lemma AddQuery_result:
  assumes "AddQuery U s n = (r, n1)"
  shows "m_vClients n1 = m_vClients n" and "net_inv n \<Longrightarrow> net_inv n1"
    and "net_inv n \<Longrightarrow> r = Some q \<Longrightarrow> net_inv (query_AddBuffer q m t n1)"
proof -
  have n1: "n1 = snd (AddQuery U s n)" and r: "r = fst (AddQuery U s n)" using assms by simp_all
  show "m_vClients n1 = m_vClients n" unfolding n1 by simp
  show inv: "net_inv n \<Longrightarrow> net_inv n1" unfolding n1 by (rule net_inv_AddQuery)
  show "net_inv n \<Longrightarrow> r = Some q \<Longrightarrow> net_inv (query_AddBuffer q m t n1)"
    using inv AddQuery_index [of U s n q] by (simp add: r n1 net_inv_query_AddBuffer)
qed

lemma DelChan_clients [simp]: "m_vClients (snd (DelChan s n)) = m_vClients n"
  by (simp add: DelChan_def split: option.split)

lemma query_AddBuffer_clients [simp]: "m_vClients (query_AddBuffer q m t n) = m_vClients n"
  by (simp add: query_AddBuffer_def)

section \<open>The laws and what follows from them\<close>

definition hooks_ok :: "cenv \<Rightarrow> bool" where
  "hooks_ok E \<longleftrightarrow> (\<forall>s b c. c_sSASLUser (ce_OnClientCapRequest E s b c) = c_sSASLUser c)"

locale client_stable =
  fixes P :: "cstate \<Rightarrow> bool" and Usr :: "zuser \<Rightarrow> bool"
  assumes emit: "P st \<Longrightarrow> P (emit_ev e st)"
    and cl: "P st \<Longrightarrow> c_view (f (st_cl st)) = c_view (st_cl st) \<or> \<not> st_listed st \<Longrightarrow>
      c_sSASLUser (f (st_cl st)) = c_sSASLUser (st_cl st) \<or> c_sSASLUser (f (st_cl st)) = [] \<or>
        (\<exists>u. Usr u \<and> c_sSASLUser (f (st_cl st)) = zu_sUserName u) \<Longrightarrow> P (on_cl f st)"
    and client: "P st \<Longrightarrow> c_sSASLUser (f (st_cl st)) = c_sSASLUser (st_cl st) \<Longrightarrow> P (on_client f st)"
    and cnet: "P st \<Longrightarrow> the_znet st = Some z \<Longrightarrow> (net_inv (zn_net z) \<Longrightarrow> net_inv (g (zn_net z))) \<Longrightarrow>
      m_vClients (g (zn_net z)) = m_vClients (zn_net z) \<Longrightarrow> P (on_cnet g st)"
    and csock: "P st \<Longrightarrow> (\<And>s. sock_inv s \<Longrightarrow> sock_inv (h s)) \<Longrightarrow> P (on_csock h st)"
    and gone: "P st \<Longrightarrow> P (client_gone st)"
    and added: "P st \<Longrightarrow> IsAttached st \<Longrightarrow> P (client_added st)"
    and bounced: "P st \<Longrightarrow> \<not> st_listed st \<Longrightarrow> P (set_clients (\<lambda>cs. []) st)"
    and on_net: "P st \<Longrightarrow> \<not> st_listed st \<Longrightarrow> P (st \<lparr>st_net := x\<rparr>)"
    and login: "P st \<Longrightarrow> \<not> st_listed st \<Longrightarrow> Usr u \<Longrightarrow> P (st \<lparr>st_user := Some u\<rparr>)"
    and listed: "P st \<Longrightarrow> st_listed st \<Longrightarrow> IsAttached st"
begin

lemma write_line: "P st \<Longrightarrow> P (write_line s st)"
  by (simp add: write_line_def emit)

lemma put_msg: "P st \<Longrightarrow> P (PutClient_msg E m st)"
  by (simp add: PutClient_msg_def write_line split: option.split)

lemma put_line: "P st \<Longrightarrow> P (PutClient_line E s st)"
  by (simp add: PutClient_line_def put_msg)

lemma put_module: "P st \<Longrightarrow> P (PutModule m s st)" "P st \<Longrightarrow> P (PutModNotice m s st)"
  by (auto simp: PutModule_def PutModNotice_def intro!: fold_keeps [where P = P] write_line split: option.split)

lemma put_status: "P st \<Longrightarrow> P (Client_PutStatus s st)" "P st \<Longrightarrow> P (PutStatusNotice s st)"
  by (simp_all add: Client_PutStatus_def PutStatusNotice_def put_module)

lemma route: "P st \<Longrightarrow> P (route E out st)"
  by (cases out) (simp_all add: emit put_line put_msg put_status)

lemma route_all: "P st \<Longrightarrow> P (route_all E os st)"
  unfolding route_all_def by (rule fold_keeps [where P = P]) (simp_all add: route)

lemmas puts = put_msg put_line put_module put_status route_all emit

text \<open>Changes of the client that keep the SASL user, or keep what others see.\<close>

lemma cl_private: "P st \<Longrightarrow> (\<And>c. c_view (f c) = c_view c) \<Longrightarrow> (\<And>c. c_sSASLUser (f c) = c_sSASLUser c) \<Longrightarrow> P (on_cl f st)"
  by (rule cl) simp_all

lemma close: "P st \<Longrightarrow> P (Close t st)"
  by (simp add: Close_def cl_private)

lemma abort: "P st \<Longrightarrow> P (AbortSASL E s st)"
  by (simp add: AbortSASL_def cl_private put_line)

lemma sasl_challenge: "P st \<Longrightarrow> P (SendSASLChallenge E s st)"
  unfolding SendSASLChallenge_def by (rule fold_keeps [where P = P]) (simp_all add: put_line)

lemma password_notice: "P st \<Longrightarrow> P (SendRequiredPasswordNotice E st)"
  by (simp add: SendRequiredPasswordNotice_def Let_def put_line)

lemma respond: "P st \<Longrightarrow> P (RespondCap E s st)"
  by (simp add: RespondCap_def put_line)

section \<open>Capabilities\<close>

lemma cap_reply: "P st \<Longrightarrow> P (cap_reply E a b ls st)"
  by (auto simp: cap_reply_def intro!: respond fold_keeps [where P = P])

lemma c_sSASLUser_flags [simp]:
  "c_sSASLUser (cap_flag s b c) = c_sSASLUser c" "c_sSASLUser (view_upd v c) = c_sSASLUser c"
  by (simp_all add: cap_flag_def view_upd_def Client_SetTagSupport_def)

lemma cap_enable: "hooks_ok E \<Longrightarrow> P st \<Longrightarrow> P (cap_enable E t st)"
  by (auto simp: cap_enable_def core_cap_def split_beta Let_def hooks_ok_def intro!: cl_private client abort)

lemma cap_ls: "P st \<Longrightarrow> P (cap_ls E m st)"
  by (simp add: cap_ls_def Let_def cap_reply cl_private)

lemma cap_req: "hooks_ok E \<Longrightarrow> P st \<Longrightarrow> P (cap_req E m st)"
  by (auto simp: cap_req_def Let_def intro!: respond fold_keeps [where P = P] cap_enable cl_private)

lemma notify_cap: "P st \<Longrightarrow> P (NotifyServerDependentCap E s b v st)"
  by (simp add: NotifyServerDependentCap_def Let_def respond cl_private)

section \<open>Messages of the client\<close>

lemma put_irc: "P st \<Longrightarrow> P (PutIRCStripping E m st)"
  by (auto simp: PutIRCStripping_def Let_def intro!: csock split: option.split)

lemma upd_chan_cnet:
  assumes "P st" and "the_znet st = Some z" and "chan_inv (m_vChans (zn_net z) ! i) \<Longrightarrow> chan_inv (k (m_vChans (zn_net z) ! i))"
  shows "P (on_cnet (upd_chan i k) st)"
proof (rule cnet [OF assms(1,2)])
  show "net_inv (zn_net z) \<Longrightarrow> net_inv (upd_chan i k (zn_net z))"
    using net_inv_upd_chan_at [of _ i k] assms(3) by blast
qed (simp add: upd_chan_def)

lemma add_query:
  assumes "P st" and "the_znet st = Some z"
  shows "P (case AddQuery U s (zn_net z) of (None, n1) \<Rightarrow> on_cnet (\<lambda>n. n1) st
    | (Some q, n1) \<Rightarrow> on_cnet (\<lambda>n. query_AddBuffer q m t n1) st)"
proof (cases "AddQuery U s (zn_net z)")
  case (Pair r n1)
  note q = AddQuery_result [OF Pair]
  show ?thesis using q by (cases r) (auto simp: Pair intro!: cnet [OF assms])
qed

lemma add_buffer: "P st \<Longrightarrow> P (Client_AddBuffer g h m st)"
  by (auto simp: Client_AddBuffer_def Let_def add_query intro!: upd_chan_cnet chan_inv_settings split: option.split)

lemma echo: "P st \<Longrightarrow> P (EchoMessage E m st)"
  by (simp add: EchoMessage_def route_all)

lemma relay: "P st \<Longrightarrow> P (relay E g h m st)"
  by (simp add: relay_def put_irc echo add_buffer)

lemma lost: "P st \<Longrightarrow> P (lost_message a b m st)"
  by (simp add: lost_message_def put_status)

lemma call_module: "P st \<Longrightarrow> P (call_module E s e st)"
  by (simp add: call_module_def emit put_status)

text \<open>The loops over targets.\<close>

lemma each_target:
  assumes "\<And>t m st. P st \<Longrightarrow> P (snd (f t m st))" and "P st"
  shows "P (snd (each_target f ts m st))"
  using assms(2) by (induction ts arbitrary: m st) (simp_all add: split_beta Let_def assms(1))

lemma on_targets:
  assumes "\<And>t m st. P st \<Longrightarrow> P (snd (f t m st))" and "P st"
  shows "P (snd (snd (on_targets f m st)))"
  using each_target [OF assms] by (simp add: on_targets_def split_beta Let_def)

lemma texts:
  assumes "P st"
  shows "P (snd (snd (Client_OnActionMessage E m st)))" and "P (snd (snd (Client_OnTextMessage E m st)))"
    and "P (snd (snd (Client_OnNoticeMessage E m st)))" and "P (snd (snd (Client_OnTagMessage E m st)))"
  unfolding Client_OnActionMessage_def Client_OnTextMessage_def Client_OnNoticeMessage_def Client_OnTagMessage_def
  by (rule on_targets [OF _ assms],
      simp add: split_beta Let_def echo relay lost call_module emit add_buffer put_irc split: option.split)+

lemma ctcp: "P st \<Longrightarrow> P (snd (snd (Client_OnCTCPMessage E m st)))"
  unfolding Client_OnCTCPMessage_def Let_def split_beta snd_conv
  by (rule each_target) (simp_all add: split_beta Let_def lost put_irc)

text \<open>Attaching and the other operations on a channel.\<close>

lemma chan_inv_attach [simp]:
  "chan_inv c \<Longrightarrow> chan_inv (snd (AttachUser H V p c))" "chan_inv c \<Longrightarrow> chan_inv (snd (DetachUser V c))"
  "chan_inv c \<Longrightarrow> chan_inv (snd (JoinUser b k c))"
  by (simp_all add: AttachUser_def Let_def split_beta Chan_SendBuffer_def DetachUser_def JoinUser_def
      ClearBuffer_def SetKey_def chan_inv_def chan_ok_def)

lemma attach_chan: "P st \<Longrightarrow> P (attach_chan E i st)"
  by (auto simp: attach_chan_def split_beta Let_def intro!: route_all upd_chan_cnet split: option.split)

lemma del_chan: "P st \<Longrightarrow> P (on_cnet (\<lambda>n. snd (DelChan s n)) (PutStatusNotice t st))"
  by (cases "the_znet (PutStatusNotice t st)")
    (auto simp: on_cnet_None put_status intro!: cnet net_inv_DelChan)

lemma new_chan: "P st \<Longrightarrow> P (new_chan c k st)"
proof (cases "\<exists>u z. st_user st = Some u \<and> the_znet st = Some z")
  case True
  then obtain u z where uz: "st_user st = Some u" "the_znet st = Some z" by blast
  let ?n = "zn_net z" and ?c = "mk_chan (zu_settings u) (IsUserOnline (zn_net z)) (IsChan (zn_net z)) c False None"
  assume P: "P st"
  have "net_inv ?n \<Longrightarrow> net_inv (upd_chan i (SetKey k) (snd (AddChan_ptr ?c ?n)))" for i
  proof (rule net_inv_upd_chan)
    assume "net_inv ?n"
    then show "net_inv (snd (AddChan_ptr ?c ?n))"
      by (simp add: AddChan_ptr_def) (simp add: net_inv_def chan_inv_mk_chan)
  qed (simp add: chan_inv_def chan_ok_def SetKey_def)
  then have "P (on_cnet (\<lambda>n. upd_chan (length (m_vChans n)) (SetKey k) (snd (AddChan_ptr ?c ?n))) st)"
    by (rule cnet [OF P uz(2)]) (simp_all add: upd_chan_def AddChan_ptr_def)
  then show ?thesis using P by (simp add: new_chan_def uz split_beta Let_def)
qed (auto simp: new_chan_def split: option.split)

lemma join_known: "P st \<Longrightarrow> client_chan s st = Some i \<Longrightarrow> P (join_known E i k st)"
  by (auto simp: join_known_def client_chan_def client_the_chan_def split_beta Let_def
      intro!: attach_chan csock upd_chan_cnet split: option.split option.split_asm)

lemma join_step: "P (snd (snd (snd r))) \<Longrightarrow> P (snd (snd (snd (join_step E b tk r))))"
  by (auto simp: join_step_def split_beta Let_def intro: join_known new_chan split: option.split)

lemma join: "P st \<Longrightarrow> P (snd (snd (Client_OnJoinMessage E m st)))"
  using fold_keeps [where P = "\<lambda>r. P (snd (snd (snd r)))", of "join_step E b" "([], [], m, st)" for b, OF join_step]
  by (simp add: Client_OnJoinMessage_def split_beta Let_def)

lemma part_step: "P (snd (snd r)) \<Longrightarrow> P (snd (snd (part_step E t r)))"
  by (auto simp: part_step_def split_beta Let_def del_chan split: option.split)

lemma part: "P st \<Longrightarrow> P (snd (snd (Client_OnPartMessage E m st)))"
  using fold_keeps [where P = "\<lambda>r. P (snd (snd r))", of "part_step E" "([], m, st)", OF part_step]
  by (simp add: Client_OnPartMessage_def split_beta Let_def)

lemma mode: "P st \<Longrightarrow> P (snd (snd (Client_OnModeMessage E m st)))"
  by (simp add: Client_OnModeMessage_def Let_def put_line split: option.split)

lemma small_messages:
  "P st \<Longrightarrow> P (snd (snd (Client_OnTopicMessage E m st)))" "P st \<Longrightarrow> P (snd (snd (Client_OnPingMessage E m st)))"
  "P st \<Longrightarrow> P (snd (snd (Client_OnQuitMessage E m st)))"
  by (simp_all add: Client_OnTopicMessage_def Client_OnPingMessage_def Client_OnQuitMessage_def Let_def split_beta
      put_line close)

lemma attach_chans: "P st \<Longrightarrow> P (snd (AttachChans E is st))" "P st \<Longrightarrow> P (snd (DetachChans E is st))"
  unfolding AttachChans_def DetachChans_def
  by (rule fold_keeps [where P = "\<lambda>r. P (snd r)"],
      auto simp: client_the_chan_def split_beta Let_def intro!: route_all upd_chan_cnet split: option.split)+

lemma other: "P st \<Longrightarrow> P (snd (snd (Client_OnOtherMessage E m st)))"
  by (simp add: Client_OnOtherMessage_def znc_command_def attach_command_def matched_status_def split_beta Let_def
      emit put_status put_module call_module attach_chans client protoctl_user)

lemma dispatch: "P st \<Longrightarrow> P (snd (snd (dispatch_client E m st)))"
  by (cases "m_eType m") (simp_all add: dispatch_client_def texts ctcp join part mode small_messages other)

section \<open>Login\<close>

lemma put_buffers: "P st \<Longrightarrow> P (put_buffer E ps b st)" "P st \<Longrightarrow> P (play_notices E ps b st)"
  unfolding put_buffer_def play_notices_def
  by (rule fold_keeps [where P = P], auto simp: split_beta Let_def put_line put_msg split: option.split)+

lemma bounce_all: "P st \<Longrightarrow> \<not> st_listed st \<Longrightarrow> P (bounce_all st)"
  unfolding bounce_all_def
  by (rule bounced [OF fold_keeps [where P = P]]) (simp_all add: emit fold_keeps [where P = "\<lambda>st. \<not> st_listed st"])

lemma greet: "P st \<Longrightarrow> P (greet E n st)"
  by (simp add: greet_def Let_def put_line put_buffers client)

lemma attach_joined: "P st \<Longrightarrow> P (attach_joined E n st)"
  unfolding attach_joined_def by (rule fold_keeps [where P = P]) (simp_all add: attach_chan)

lemma connected:
  assumes "P st" and "\<not> st_listed st" and "IsAttached st"
  shows "P (ClientConnected E st)"
proof (cases "the_znet st")
  case (Some z)
  obtain u where u: "st_user st = Some u" using assms(3) by (auto simp: IsAttached_def)
  have added: "P (client_added st)" "P (client_added (bounce_all st))"
    using assms by (simp_all add: added bounce_all)
  have clear: "P st \<Longrightarrow> P (on_cnet (\<lambda>n. n \<lparr>m_NoticeBuffer := Buffer_Clear (m_NoticeBuffer n)\<rparr>) st)"
    "P st \<Longrightarrow> P (on_cnet (\<lambda>n. n \<lparr>m_vQueries := []\<rparr>) st)" for st
    by (cases "the_znet st"; auto simp: on_cnet_None net_inv_def intro: cnet)+
  show ?thesis
    unfolding ClientConnected_def u Some option.case prod.case Let_def
    by (auto simp: play_queries_def status_lines_def Let_def
        intro!: put_status cl_private clear put_buffers route_all attach_joined put_line greet added)
qed (use assms(1) in \<open>simp add: ClientConnected_def split: option.split\<close>)

lemma user_connected: "P st \<Longrightarrow> \<not> st_listed st \<Longrightarrow> P (UserConnected E st)"
  by (cases "st_user st") (simp_all add: UserConnected_def added put_line bounce_all IsAttached_def [of st])

lemma the_znet_attached: "the_znet st = Some z \<Longrightarrow> IsAttached st"
  by (auto simp: the_znet_def IsAttached_def split: option.splits)

lemma set_network: "P st \<Longrightarrow> P (SetNetwork E x bDisconnect bReconnect st)"
proof -
  assume P: "P st"
  let ?st1 = "case the_znet st of
      Some z \<Rightarrow> (let st0 = client_gone st in if bDisconnect then fold (PutClient_line E) (part_lines (zn_net z)) st0 else st0)
    | None \<Rightarrow> client_gone st"
  have "P ?st1 \<and> \<not> st_listed ?st1"
    using fold_keeps [where P = "\<lambda>s. P s \<and> \<not> st_listed s", of "PutClient_line E" "client_gone st"] gone [OF P] put_line
    by (simp add: Let_def split: option.split)
  then have "P (?st1 \<lparr>st_net := x\<rparr>)" and "\<not> st_listed (?st1 \<lparr>st_net := x\<rparr>)"
    using on_net [of ?st1 x] by auto
  then show ?thesis
    unfolding SetNetwork_def Let_def
    by (auto intro: connected user_connected the_znet_attached)
qed

lemma motd: "P st \<Longrightarrow> P (SendMotd E st)"
  unfolding SendMotd_def by (rule fold_keeps [where P = P]) (simp_all add: put_status)

lemma choose_network: "P st \<Longrightarrow> \<not> st_listed st \<Longrightarrow> P (choose_network u st)"
  by (simp add: choose_network_def Let_def on_net put_status)

lemma accept_login:
  assumes "P st" and "\<not> st_listed st" and "Usr u"
  shows "P (AcceptLogin E u st)"
proof -
  let ?st = "on_cl (\<lambda>c. c \<lparr>c_sPass := [], c_sSASLMechanism := [], c_sSASLBuffer := [], c_sSASLUser := []\<rparr>) st"
  have "P ?st" by (rule cl [OF assms(1)]) simp_all
  then have "P (?st \<lparr>st_user := Some u\<rparr>)" using login assms(2,3) by simp
  then show ?thesis
    using assms(2) by (simp add: AcceptLogin_def Let_def motd set_network choose_network)
qed

lemma refuse_login: "P st \<Longrightarrow> P (RefuseLogin E s st)"
  by (simp add: RefuseLogin_def close put_line put_status)

lemma accept_sasl: "P st \<Longrightarrow> Usr u \<Longrightarrow> P (AcceptSASLLogin E u st)"
  by (auto simp: AcceptSASLLogin_def Let_def intro!: cl put_line)

lemma refuse_sasl: "P st \<Longrightarrow> P (RefuseSASLLogin E s st)"
  by (simp add: RefuseSASLLogin_def Let_def cl_private put_line)

lemma auth_user:
  assumes "P st" and "\<And>n p u. CZNC_AuthUser E n p = Accepted u \<Longrightarrow> Usr u"
    and "\<And>u. c_sSASLUser (st_cl st) \<noteq> [] \<Longrightarrow> ce_FindUser E (c_sSASLUser (st_cl st)) = Some u \<Longrightarrow> Usr u"
  shows "P (AuthUser E st)"
proof (cases "IsAttached st")
  case False
  then have "\<not> st_listed st" using listed [OF assms(1)] by blast
  then show ?thesis
    using assms(1,3) assms(2) [of "c_sUser (st_cl st)" "c_sPass (st_cl st)"]
    by (auto simp: AuthUser_def answer_auth_def Let_def intro!: accept_login refuse_login emit split: auth_answer.split option.split)
qed (simp add: AuthUser_def Let_def assms(1))

lemma sasl_check:
  assumes "P st" and "\<And>n p u. CZNC_AuthUser E n p = Accepted u \<Longrightarrow> Usr u"
  shows "P (StartSASLPasswordCheck E u p a st)"
proof -
  have user: "c_view (ParseUser s c) = c_view c" "c_sSASLUser (ParseUser s c) = c_sSASLUser c" for s c
    by (simp_all add: ParseUser_def ParseIdentifier_def split: option.split)
  show ?thesis
    using assms(1) assms(2)
    by (auto simp: StartSASLPasswordCheck_def answer_auth_def Let_def user
        intro!: accept_sasl refuse_sasl emit cl_private split: auth_answer.split)
qed

lemma sasl_start: "P st \<Longrightarrow> P (sasl_start E s st)"
  by (simp add: sasl_start_def sasl_reset_def split_beta Let_def put_line cl_private sasl_challenge)

lemma sasl_continue:
  assumes "P st" and "\<And>n p u. CZNC_AuthUser E n p = Accepted u \<Longrightarrow> Usr u"
  shows "P (sasl_continue E s st)"
proof -
  have "P (on_cl (\<lambda>c. c \<lparr>c_sSASLBuffer := b\<rparr>) st)" for b by (rule cl_private [OF assms(1)]) simp_all
  moreover have "P st1 \<Longrightarrow> P (on_cl (\<lambda>c. c \<lparr>c_sSASLBuffer := b\<rparr>) st1)" for b st1 by (rule cl_private) simp_all
  moreover have "P (on_cl (\<lambda>c. c \<lparr>c_sSASLBuffer := c_sSASLBuffer c @ s\<rparr>) st)" by (rule cl_private [OF assms(1)]) simp_all
  ultimately show ?thesis
    using sasl_check [OF _ assms(2)] abort [OF assms(1)]
    by (simp add: sasl_continue_def sasl_finish_def Let_def split: sasl_answer.split)
qed

lemma authenticate:
  assumes "P st" and "\<And>n p u. CZNC_AuthUser E n p = Accepted u \<Longrightarrow> Usr u"
  shows "P (OnAuthenticateMessage E m st)"
  using sasl_continue [OF assms] sasl_start [OF assms(1)] abort [OF assms(1)] put_line [OF assms(1)]
  by (simp add: OnAuthenticateMessage_def Let_def)

lemma cap_end:
  assumes "P st" and "\<And>n p u. CZNC_AuthUser E n p = Accepted u \<Longrightarrow> Usr u"
    and "\<And>st u. P st \<Longrightarrow> c_sSASLUser (st_cl st) \<noteq> [] \<Longrightarrow> ce_FindUser E (c_sSASLUser (st_cl st)) = Some u \<Longrightarrow> Usr u"
  shows "P (cap_end E st)"
proof -
  have "P (on_cl (\<lambda>c. c \<lparr>c_bInCap := False\<rparr>) st)" by (rule cl_private [OF assms(1)]) simp_all
  moreover have "P s \<Longrightarrow> P (AuthUser E s)" for s by (rule auth_user [OF _ assms(2)]) (auto intro: assms(3))
  ultimately show ?thesis
    by (simp add: cap_end_def Let_def password_notice abort)
qed

lemma handle_cap:
  assumes "P st" and "hooks_ok E" and "\<And>n p u. CZNC_AuthUser E n p = Accepted u \<Longrightarrow> Usr u"
    and "\<And>st u. P st \<Longrightarrow> c_sSASLUser (st_cl st) \<noteq> [] \<Longrightarrow> ce_FindUser E (c_sSASLUser (st_cl st)) = Some u \<Longrightarrow> Usr u"
  shows "P (HandleCap E m st)"
  using cap_end [OF assms(1,3,4)] cap_req [OF assms(2,1)]
  by (simp add: HandleCap_def Let_def cap_ls cap_reply put_line assms(1))

lemma pre_login:
  assumes "P st" and "\<not> IsAttached st" and "pre_login E m st = Some st1"
    and "\<And>n p u. CZNC_AuthUser E n p = Accepted u \<Longrightarrow> Usr u"
    and "\<And>st u. P st \<Longrightarrow> c_sSASLUser (st_cl st) \<noteq> [] \<Longrightarrow> ce_FindUser E (c_sSASLUser (st_cl st)) = Some u \<Longrightarrow> Usr u"
  shows "P st1"
proof -
  have l: "\<not> st_listed st" using listed [OF assms(1)] assms(2) by blast
  have user: "c_sSASLUser (ParseUser s c) = c_sSASLUser c" for s c
    by (simp add: ParseUser_def ParseIdentifier_def split: option.split)
  have pass: "c_sSASLUser (ParsePass s c) = c_sSASLUser c" for s c
    by (simp add: ParsePass_def user split: option.split)
  have upd: "P (on_cl f st)" if "\<And>c. c_sSASLUser (f c) = c_sSASLUser c" for f
    using cl [OF assms(1), of f] l that by simp
  have auth: "P s \<Longrightarrow> P (AuthUser E s)" for s by (rule auth_user [OF _ assms(4)]) (auto intro: assms(5))
  have 1: "P (on_cl (\<lambda>c. ParsePass (GetParam m 0) (c \<lparr>c_bGotPass := True\<rparr>)) st)" by (rule upd) (simp add: pass)
  have 2: "P (on_cl (\<lambda>c. (view_upd (\<lambda>v. v \<lparr>cl_sNick := GetParam m 0\<rparr>) c) \<lparr>c_bGotNick := True\<rparr>) st)"
    by (rule upd) simp
  have 3: "P (on_cl (\<lambda>c. (if c_sUser c = [] \<and> GetParam m 0 \<noteq> [] then ParseUser (GetParam m 0) c else c)
      \<lparr>c_bGotUser := True\<rparr>) st)" by (rule upd) (simp add: user)
  show ?thesis
    using assms(3) auth [OF 1] auth [OF 2] auth [OF 3] password_notice [OF 3, of E] 3
    unfolding pre_login_def Let_def by (simp split: if_split_asm)
qed

lemma read_line:
  assumes "P st" and "hooks_ok E" and "\<And>n p u. CZNC_AuthUser E n p = Accepted u \<Longrightarrow> Usr u"
    and "\<And>st u. P st \<Longrightarrow> c_sSASLUser (st_cl st) \<noteq> [] \<Longrightarrow> ce_FindUser E (c_sSASLUser (st_cl st)) = Some u \<Longrightarrow> Usr u"
  shows "P (Client_ReadLine E s st)"
proof -
  have "P (client_message_in E m st)" for m
  proof (cases "if IsAttached st then None else pre_login E m st")
    case None
    have h: "P (HandleCap E m st)" using assms by (rule handle_cap)
    have a: "P (OnAuthenticateMessage E m st)" using assms(1,3) by (rule authenticate)
    have "P (PutIRCStripping E m1 (snd (snd (dispatch_client E m st))))" for m1
      by (rule put_irc [OF dispatch [OF assms(1)]])
    then show ?thesis
      using h a dispatch [OF assms(1), of E m] assms(1)
      by (simp only: client_message_in_def None option.case Let_def split_beta split: if_split) simp
  next
    case (Some st1)
    then have "\<not> IsAttached st" and "pre_login E m st = Some st1" by (simp_all split: if_splits)
    with assms(1) have "P st1" using assms(3,4) by (rule pre_login)
    then show ?thesis by (simp only: client_message_in_def Some option.case)
  qed
  then show ?thesis using assms(1) by (simp add: Client_ReadLine_def Let_def split_beta)
qed

lemma ends:
  "P st \<Longrightarrow> P (Client_Timeout E st)" "P st \<Longrightarrow> P (Client_Disconnected E st)" "P st \<Longrightarrow> P (Client_ReachedMaxBuffer E st)"
  "P st \<Longrightarrow> P (BouncedOff st)"
  by (simp_all add: Client_Timeout_def Client_Disconnected_def Client_ReachedMaxBuffer_def BouncedOff_def
      put_line set_network close put_status)

end

section \<open>The three properties\<close>

text \<open>The user a client is attached to, and the one SASL accepted, passed an authentication.\<close>

definition login_inv :: "(string \<Rightarrow> bool) \<Rightarrow> cstate \<Rightarrow> bool" where
  "login_inv A st \<longleftrightarrow>
     (\<forall>u. st_user st = Some u \<longrightarrow> A (zu_sUserName u)) \<and>
     (c_sSASLUser (st_cl st) \<noteq> [] \<longrightarrow> A (c_sSASLUser (st_cl st))) \<and> (st_listed st \<longrightarrow> IsAttached st)"

definition znet_ok :: "znet \<Rightarrow> bool" where
  "znet_ok z \<longleftrightarrow> net_inv (zn_net z) \<and> (\<forall>s. zn_sock z = Some s \<longrightarrow> sock_inv s)"

definition user_ok :: "zuser \<Rightarrow> bool" where
  "user_ok u \<longleftrightarrow> list_all znet_ok (zu_vNetworks u)"

definition nets_inv :: "cstate \<Rightarrow> bool" where
  "nets_inv st \<longleftrightarrow> (\<forall>u. st_user st = Some u \<longrightarrow> user_ok u) \<and> (st_listed st \<longrightarrow> IsAttached st)"

definition view_inv :: "cstate \<Rightarrow> bool" where
  "view_inv st \<longleftrightarrow> (st_listed st \<longrightarrow>
     IsAttached st \<and> st_id st < length (GetClients st) \<and> GetClients st ! st_id st = c_view (st_cl st))"

lemma upd_znet_user:
  "st_user (upd_znet f st) =
     (case st_user st of None \<Rightarrow> None
      | Some u \<Rightarrow> Some (case st_net st of None \<Rightarrow> u
          | Some i \<Rightarrow> u \<lparr>zu_vNetworks := (zu_vNetworks u)[i := f (zu_vNetworks u ! i)]\<rparr>))"
  by (simp add: upd_znet_def split: option.split)

lemma set_clients_name:
  "map_option zu_sUserName (st_user (set_clients f st)) = map_option zu_sUserName (st_user st)"
  by (simp add: set_clients_def on_cnet_def upd_znet_user split: option.split)

lemma user_name_upd:
  "map_option zu_sUserName (st_user (upd_znet f st)) = map_option zu_sUserName (st_user st)"
  by (simp add: upd_znet_user split: option.split)

lemma user_name_Ex:
  assumes "map_option zu_sUserName (st_user st1) = map_option zu_sUserName (st_user st)"
  shows "(\<forall>u. st_user st1 = Some u \<longrightarrow> A (zu_sUserName u)) = (\<forall>u. st_user st = Some u \<longrightarrow> A (zu_sUserName u))"
  using assms by (cases "st_user st"; cases "st_user st1") auto

lemma IsAttached_name:
  "map_option zu_sUserName (st_user st1) = map_option zu_sUserName (st_user st) \<Longrightarrow> IsAttached st1 = IsAttached st"
  by (cases "st_user st"; cases "st_user st1") (auto simp: IsAttached_def)

lemma login_inv_same:
  assumes "login_inv A st" and "map_option zu_sUserName (st_user st1) = map_option zu_sUserName (st_user st)"
    and "st_listed st1 \<longrightarrow> IsAttached st1" and "c_sSASLUser (st_cl st1) = c_sSASLUser (st_cl st)"
  shows "login_inv A st1"
  using assms(1,3,4) user_name_Ex [OF assms(2), of A] by (simp add: login_inv_def)

interpretation login: client_stable "login_inv A" "\<lambda>u. A (zu_sUserName u)" for A
proof unfold_locales
  fix st :: cstate
  assume P: "login_inv A st"
  then have l: "st_listed st \<longrightarrow> IsAttached st" by (simp add: login_inv_def)
  show "login_inv A (emit_ev e st)" for e using P by (simp add: login_inv_def)
  show "login_inv A (on_cl f st)" if "c_sSASLUser (f (st_cl st)) = c_sSASLUser (st_cl st) \<or>
      c_sSASLUser (f (st_cl st)) = [] \<or> (\<exists>u. A (zu_sUserName u) \<and> c_sSASLUser (f (st_cl st)) = zu_sUserName u)" for f
    using P that by (auto simp: login_inv_def)
  show "login_inv A (on_client f st)" if "c_sSASLUser (f (st_cl st)) = c_sSASLUser (st_cl st)" for f
    by (rule login_inv_same [OF P]) (simp_all add: on_client_def Let_def set_clients_name that l)
  show "login_inv A (on_cnet g st)" and "login_inv A (on_csock h st)" for g h
    by (rule login_inv_same [OF P]; simp add: on_cnet_def on_csock_def user_name_upd l)+
  show "login_inv A (client_gone st)"
    by (rule login_inv_same [OF P]) (simp_all add: client_gone_def set_clients_name)
  show "IsAttached st \<Longrightarrow> login_inv A (client_added st)"
    by (rule login_inv_same [OF P]) (simp_all add: client_added_def set_clients_name)
  show "login_inv A (set_clients (\<lambda>cs. []) st)"
    by (rule login_inv_same [OF P]) (simp_all add: set_clients_name l)
  show "login_inv A (st \<lparr>st_net := x\<rparr>)" for x by (rule login_inv_same [OF P]) (simp_all add: l)
  show "A (zu_sUserName u) \<Longrightarrow> login_inv A (st \<lparr>st_user := Some u\<rparr>)" for u
    using P by (simp add: login_inv_def)
qed (simp add: login_inv_def)

lemma user_ok_upd:
  assumes "user_ok u" and "\<And>z. znet_ok z \<Longrightarrow> i < length (zu_vNetworks u) \<Longrightarrow> z = zu_vNetworks u ! i \<Longrightarrow> znet_ok (f z)"
  shows "user_ok (u \<lparr>zu_vNetworks := (zu_vNetworks u)[i := f (zu_vNetworks u ! i)]\<rparr>)"
proof (cases "i < length (zu_vNetworks u)")
  case True
  then have "znet_ok (f (zu_vNetworks u ! i))" using assms by (simp add: user_ok_def list_all_length)
  then show ?thesis using assms(1) by (auto simp: user_ok_def list_all_iff dest!: subsetD [OF set_update_subset_insert])
qed (use assms(1) in \<open>simp add: user_ok_def list_update_beyond\<close>)

lemma nets_inv_upd:
  assumes "nets_inv st" and "\<And>z. the_znet st = Some z \<Longrightarrow> znet_ok z \<Longrightarrow> znet_ok (f z)"
  shows "nets_inv (upd_znet f st)"
proof (cases "the_znet st")
  case (Some z)
  then obtain u i where ui: "st_user st = Some u" "st_net st = Some i" "i < length (zu_vNetworks u)" "z = zu_vNetworks u ! i"
    by (auto simp: the_znet_def split: option.splits if_splits)
  have "user_ok (u \<lparr>zu_vNetworks := (zu_vNetworks u)[i := f (zu_vNetworks u ! i)]\<rparr>)"
    by (rule user_ok_upd) (use assms ui Some in \<open>auto simp: nets_inv_def\<close>)
  then show ?thesis using assms(1) by (simp add: nets_inv_def upd_znet_user ui)
qed (simp add: upd_znet_None assms(1))

lemma nets_inv_set_clients: "nets_inv st \<Longrightarrow> nets_inv (set_clients f st)"
proof (cases "the_znet st")
  case (Some z)
  assume "nets_inv st"
  then show ?thesis
    unfolding set_clients_def Some option.case on_cnet_def
    by (rule nets_inv_upd) (simp add: znet_ok_def net_inv_def)
qed (auto simp: set_clients_def nets_inv_def user_ok_def IsAttached_def split: option.split)

lemma nets_inv_same: "nets_inv st \<Longrightarrow> st_user st1 = st_user st \<Longrightarrow> (st_listed st1 \<longrightarrow> IsAttached st1) \<Longrightarrow> nets_inv st1"
  by (simp add: nets_inv_def)

interpretation nets: client_stable nets_inv user_ok
proof unfold_locales
  fix st :: cstate
  assume P: "nets_inv st"
  then have l: "st_listed st \<longrightarrow> IsAttached st" by (simp add: nets_inv_def)
  show "nets_inv (emit_ev e st)" and "nets_inv (on_cl f st)" and "nets_inv (st \<lparr>st_net := x\<rparr>)" for e f x
    by (rule nets_inv_same [OF P]; simp add: l)+
  show "nets_inv (on_client f st)" for f
    using nets_inv_set_clients [OF nets_inv_same [OF P, of "on_cl f st"]] nets_inv_same [OF P, of "on_cl f st"] l
    by (simp add: on_client_def Let_def)
  show "nets_inv (on_cnet g st)" if "the_znet st = Some z" "net_inv (zn_net z) \<Longrightarrow> net_inv (g (zn_net z))" for z g
    unfolding on_cnet_def by (rule nets_inv_upd [OF P]) (use that in \<open>auto simp: znet_ok_def\<close>)
  show "nets_inv (on_csock h st)" if "\<And>s. sock_inv s \<Longrightarrow> sock_inv (h s)" for h
    unfolding on_csock_def by (rule nets_inv_upd [OF P]) (use that in \<open>auto simp: znet_ok_def\<close>)
  show "nets_inv (client_gone st)"
    using nets_inv_set_clients [OF P] P by (simp add: client_gone_def nets_inv_def)
  show "nets_inv (client_added st)" if "IsAttached st"
  proof -
    have "nets_inv (st \<lparr>st_id := length (GetClients st), st_listed := True\<rparr>)"
      by (rule nets_inv_same [OF P]) (simp_all add: that)
    then show ?thesis unfolding client_added_def by (rule nets_inv_set_clients)
  qed
  show "nets_inv (set_clients (\<lambda>cs. []) st)" by (rule nets_inv_set_clients [OF P])
  show "user_ok u \<Longrightarrow> nets_inv (st \<lparr>st_user := Some u\<rparr>)" for u
    by (simp add: nets_inv_def)
qed (simp add: nets_inv_def)

lemma the_znet_upd: "the_znet (upd_znet f st) = map_option f (the_znet st)"
  by (auto simp: the_znet_def upd_znet_user split: option.split)

lemma GetClients_upd:
  assumes "\<And>z. the_znet st = Some z \<Longrightarrow> m_vClients (zn_net (f z)) = m_vClients (zn_net z)"
  shows "GetClients (upd_znet f st) = GetClients st"
  using assms by (auto simp: GetClients_def the_znet_upd upd_znet_user upd_znet_None split: option.split)

lemma GetClients_set_clients: "IsAttached st \<Longrightarrow> GetClients (set_clients f st) = f (GetClients st)"
proof (cases "the_znet st")
  case (Some z)
  then show ?thesis by (simp add: set_clients_def GetClients_def on_cnet_def the_znet_upd)
next
  case None
  then have "the_znet (st \<lparr>st_user := Some (u \<lparr>zu_vClients := x\<rparr>)\<rparr>) = None" if "st_user st = Some u" for u x
    using that by (auto simp: the_znet_def split: option.splits if_splits)
  then show "IsAttached st \<Longrightarrow> ?thesis" using None
    by (auto simp: set_clients_def GetClients_def IsAttached_def)
qed

lemma GetClients_upd_st [simp]:
  "GetClients (st \<lparr>st_id := i, st_listed := b\<rparr>) = GetClients st"
  by (simp add: GetClients_def the_znet_def cong: option.case_cong)

interpretation view: client_stable view_inv "\<lambda>u. True"
proof unfold_locales
  fix st :: cstate
  assume P: "view_inv st"
  show "view_inv (emit_ev e st)" for e using P by (simp add: view_inv_def)
  show "view_inv (on_cl f st)" if "c_view (f (st_cl st)) = c_view (st_cl st) \<or> \<not> st_listed st" for f
    using P that by (auto simp: view_inv_def)
  show "view_inv (on_client f st)" for f
    using P by (auto simp: view_inv_def on_client_def Let_def GetClients_set_clients)
  show "view_inv (on_cnet g st)" if "the_znet st = Some z" "m_vClients (g (zn_net z)) = m_vClients (zn_net z)" for z g
    using P that GetClients_upd [of st "\<lambda>z. z \<lparr>zn_net := g (zn_net z)\<rparr>"] by (simp add: view_inv_def on_cnet_def)
  show "view_inv (on_csock h st)" for h
    using P GetClients_upd [of st "\<lambda>z. z \<lparr>zn_sock := map_option h (zn_sock z)\<rparr>"] by (simp add: view_inv_def on_csock_def)
  show "view_inv (client_gone st)" using P by (auto simp: view_inv_def client_gone_def)
  show "view_inv (client_added st)" if "IsAttached st"
    using that by (simp add: view_inv_def client_added_def GetClients_set_clients)
qed (simp_all add: view_inv_def)

end
