(* ===== verification/Client_Reach.thy ===== *)
theory Client_Reach imports Client_Facts begin

text \<open>
  The states a client connection can reach: lines of the client in any order, with the answers
  of asynchronous authentications, capability notices, a change of the network and the ends of
  the connection in between. Invariants are by rule induction over \<open>client_run\<close>, with the laws
  of \<open>client_stable\<close> for each step. The relation \<open>late\<close> says which pending requests a module may
  accept.
\<close>

inductive client_run ::
    "cenv \<Rightarrow> (string \<Rightarrow> string \<Rightarrow> zuser \<Rightarrow> bool) \<Rightarrow> cclient \<Rightarrow> cstate \<Rightarrow> bool"
  for E :: cenv and late :: "string \<Rightarrow> string \<Rightarrow> zuser \<Rightarrow> bool" and c :: cclient where
  start: "client_run E late c (fresh_client c)"
| line: "client_run E late c st \<Longrightarrow> client_run E late c (Client_ReadLine E s st)"
| accept: "client_run E late c st \<Longrightarrow> \<not> IsAttached st \<Longrightarrow> AuthPending n p \<in> set (st_ev st) \<Longrightarrow> late n p u \<Longrightarrow>
    client_run E late c (AcceptLogin E u st)"
| sasl_accept: "client_run E late c st \<Longrightarrow> AuthPending n p \<in> set (st_ev st) \<Longrightarrow> late n p u \<Longrightarrow>
    client_run E late c (AcceptSASLLogin E u st)"
| refuse: "client_run E late c st \<Longrightarrow> AuthPending n p \<in> set (st_ev st) \<Longrightarrow> client_run E late c (RefuseLogin E s st)"
| sasl_refuse: "client_run E late c st \<Longrightarrow> AuthPending n p \<in> set (st_ev st) \<Longrightarrow>
    client_run E late c (RefuseSASLLogin E s st)"
| cap_notice: "client_run E late c st \<Longrightarrow> client_run E late c (NotifyServerDependentCap E s b v st)"
| jump: "client_run E late c st \<Longrightarrow> IsAttached st \<Longrightarrow> client_run E late c (SetNetwork E x d True st)"
| timeout: "client_run E late c st \<Longrightarrow> client_run E late c (Client_Timeout E st)"
| too_long: "client_run E late c st \<Longrightarrow> client_run E late c (Client_ReachedMaxBuffer E st)"
| bounced: "client_run E late c st \<Longrightarrow> client_run E late c (BouncedOff st)"
| disconnected: "client_run E late c st \<Longrightarrow> client_run E late c (Client_Disconnected E st)"

inductive_cases client_run_cases: "client_run E late c st"

text \<open>What every stable property needs to hold in all reachable states.\<close>

definition accepts :: "cenv \<Rightarrow> (string \<Rightarrow> string \<Rightarrow> zuser \<Rightarrow> bool) \<Rightarrow> zuser \<Rightarrow> bool" where
  "accepts E late u \<longleftrightarrow> (\<exists>n p. CZNC_AuthUser E n p = Accepted u \<or> late n p u)"

context client_stable
begin

lemma reachable:
  assumes "client_run E late c st" and "P (fresh_client c)" and "hooks_ok E"
    and acc: "\<And>u. accepts E late u \<Longrightarrow> Usr u"
    and found: "\<And>st u. P st \<Longrightarrow> c_sSASLUser (st_cl st) \<noteq> [] \<Longrightarrow> ce_FindUser E (c_sSASLUser (st_cl st)) = Some u \<Longrightarrow> Usr u"
  shows "P st"
proof -
  have late: "late n p u \<Longrightarrow> Usr u" for n p u using acc [of u] by (auto simp: accepts_def)
  show ?thesis using assms(1)
  proof induction
    case (line st s)
    have "\<And>n p u. CZNC_AuthUser E n p = Accepted u \<Longrightarrow> Usr u" using acc by (auto simp: accepts_def)
    with line.IH assms(3) show ?case using found by (rule read_line)
  next
    case (accept st n p u)
    then show ?case using listed [OF accept.IH] late by (intro accept_login) auto
  next
    case (sasl_accept st n p u)
    then show ?case using late by (intro accept_sasl) auto
  qed (simp_all add: assms(2) refuse_login refuse_sasl notify_cap set_network ends)
qed

end

section \<open>The invariants of reachable states\<close>

lemma fresh_invs:
  "c_sSASLUser c = [] \<Longrightarrow> login_inv A (fresh_client c)" "nets_inv (fresh_client c)" "view_inv (fresh_client c)"
  by (simp_all add: fresh_client_def login_inv_def nets_inv_def view_inv_def)

definition find_user_ok :: "cenv \<Rightarrow> bool" where
  "find_user_ok E \<longleftrightarrow> (\<forall>n u. ce_FindUser E n = Some u \<longrightarrow> zu_sUserName u = n)"

lemma reach_login:
  assumes "client_run E late c st" and "c_sSASLUser c = []" and "hooks_ok E" and "find_user_ok E"
  shows "login_inv (\<lambda>s. \<exists>u. accepts E late u \<and> zu_sUserName u = s) st"
proof (rule login.reachable [OF assms(1) fresh_invs(1) [OF assms(2)] assms(3)])
  fix st' u
  assume "login_inv (\<lambda>s. \<exists>u. accepts E late u \<and> zu_sUserName u = s) st'" and "c_sSASLUser (st_cl st') \<noteq> []"
    and "ce_FindUser E (c_sSASLUser (st_cl st')) = Some u"
  then show "\<exists>v. accepts E late v \<and> zu_sUserName v = zu_sUserName u"
    using assms(4) by (auto simp: login_inv_def find_user_ok_def)
qed blast

lemma reach_nets:
  assumes "client_run E late c st" and "hooks_ok E" and "\<And>u. accepts E late u \<Longrightarrow> user_ok u"
    and "\<And>n u. ce_FindUser E n = Some u \<Longrightarrow> user_ok u"
  shows "nets_inv st"
  by (rule nets.reachable [OF assms(1) fresh_invs(2) assms(2)]) (use assms(3,4) in blast)+

lemma reach_view:
  assumes "client_run E late c st" and "hooks_ok E"
  shows "view_inv st"
  by (rule view.reachable [OF assms(1) fresh_invs(3) assms(2)]) simp_all

section \<open>Before the login\<close>

text \<open>Events of a client that is not logged in: its own lines and authentication attempts.\<close>

definition quiet_ev :: "cl_event \<Rightarrow> bool" where
  "quiet_ev e = (case e of Wrote _ \<Rightarrow> True | FailedLogin _ \<Rightarrow> True | AuthPending _ _ \<Rightarrow> True | _ \<Rightarrow> False)"

definition quiet :: "cstate \<Rightarrow> bool" where
  "quiet st \<longleftrightarrow> IsAttached st \<or> list_all quiet_ev (st_ev st)"

interpretation attached: client_stable IsAttached "\<lambda>u. True"
  by unfold_locales simp_all

lemma attached_AcceptLogin: "IsAttached (AcceptLogin E u st)"
proof -
  let ?st = "(on_cl (\<lambda>c. c \<lparr>c_sPass := [], c_sSASLMechanism := [], c_sSASLBuffer := [], c_sSASLUser := []\<rparr>) st)
               \<lparr>st_user := Some u\<rparr>"
  have "IsAttached (choose_network u ?st)" by (simp add: IsAttached_def)
  then show ?thesis by (simp add: AcceptLogin_def Let_def attached.motd attached.set_network)
qed

lemma quiet_basic:
  "quiet st \<Longrightarrow> quiet (PutClient_line E s st)" "quiet st \<Longrightarrow> quiet (on_cl f st)"
  "quiet st \<Longrightarrow> quiet_ev e \<Longrightarrow> quiet (emit_ev e st)"
  by (simp_all add: quiet_def PutClient_line_def PutClient_msg_def write_line_def quiet_ev_def split: option.split)

lemma quiet_unattached: "\<not> IsAttached st \<Longrightarrow> on_client f st = on_cl f st"
  by (simp add: on_client_def Let_def set_clients_def the_znet_def IsAttached_def)

lemma quiet_status: "quiet st \<Longrightarrow> quiet (Client_PutStatus s st)"
  by (cases "IsAttached st")
    (auto simp: quiet_def attached.put_status, simp add: Client_PutStatus_def PutModule_def IsAttached_def)

lemma quiet_login:
  assumes "quiet st"
  shows "quiet (AcceptLogin E u st)" and "quiet (RefuseLogin E s st)" and "quiet (AcceptSASLLogin E u st)"
    and "quiet (RefuseSASLLogin E s st)"
  using assms attached_AcceptLogin [of E u st]
  by (simp_all add: RefuseLogin_def AcceptSASLLogin_def RefuseSASLLogin_def Close_def Let_def quiet_basic quiet_status)
    (simp add: quiet_def)

lemma quiet_AuthUser: "quiet st \<Longrightarrow> quiet (AuthUser E st)"
  by (simp add: AuthUser_def answer_auth_def Let_def quiet_login quiet_basic quiet_ev_def
      split: auth_answer.split option.split)

lemma quiet_notice: "quiet st \<Longrightarrow> quiet (SendRequiredPasswordNotice E st)"
  by (simp add: SendRequiredPasswordNotice_def Let_def quiet_basic)

lemma quiet_pre_login: "quiet st \<Longrightarrow> pre_login E m st = Some st1 \<Longrightarrow> quiet st1"
  unfolding pre_login_def Let_def
  by (auto simp only: option.inject split: if_split_asm intro!: quiet_AuthUser quiet_notice quiet_basic(2))

lemma quiet_cap: "quiet st \<Longrightarrow> \<not> IsAttached st \<Longrightarrow> quiet (HandleCap E m st)"
proof -
  assume st: "quiet st" "\<not> IsAttached st"
  have respond: "quiet st \<Longrightarrow> quiet (RespondCap E s st)" for st s by (simp add: RespondCap_def quiet_basic)
  have abort: "quiet st \<Longrightarrow> quiet (AbortSASL E s st)" for st s by (simp add: AbortSASL_def quiet_basic)
  have reply: "quiet st \<Longrightarrow> quiet (cap_reply E a b ls st)" for st a b ls
    by (auto simp: cap_reply_def intro!: respond fold_keeps [where P = quiet])
  have enable: "quiet st \<and> \<not> IsAttached st \<Longrightarrow> quiet (cap_enable E t st) \<and> \<not> IsAttached (cap_enable E t st)" for t st
    by (simp add: cap_enable_def core_cap_def split_beta Let_def quiet_unattached quiet_basic abort AbortSASL_def)
  have req: "quiet (cap_req E m st)"
    using st fold_keeps [where P = "\<lambda>st. quiet st \<and> \<not> IsAttached st", of "cap_enable E", OF enable]
    by (simp add: cap_req_def Let_def respond quiet_basic)
  show ?thesis
    using st req
    by (simp add: HandleCap_def cap_ls_def cap_end_def Let_def reply quiet_basic abort quiet_notice quiet_AuthUser)
qed

lemma attached_HandleCap: "IsAttached st \<Longrightarrow> IsAttached (HandleCap E m st)"
proof -
  assume st: "IsAttached st"
  have enable: "IsAttached st \<Longrightarrow> IsAttached (cap_enable E t st)" for t st
    by (simp add: cap_enable_def core_cap_def split_beta Let_def attached.abort)
  then have "IsAttached (cap_req E m st)"
    using st by (simp add: cap_req_def Let_def attached.respond fold_keeps [where P = IsAttached])
  then show ?thesis using st
    by (simp add: HandleCap_def cap_end_def Let_def attached.cap_ls attached.cap_reply)
qed

lemma quiet_sasl: "quiet st \<Longrightarrow> quiet (OnAuthenticateMessage E m st)"
proof -
  assume st: "quiet st"
  have abort: "quiet st \<Longrightarrow> quiet (AbortSASL E s st)" for st s by (simp add: AbortSASL_def quiet_basic)
  have challenge: "quiet st \<Longrightarrow> quiet (SendSASLChallenge E s st)" for st s
    unfolding SendSASLChallenge_def by (rule fold_keeps [where P = quiet]) (simp_all add: quiet_basic)
  have check: "quiet st \<Longrightarrow> quiet (StartSASLPasswordCheck E u p a st)" for st u p a
    by (simp add: StartSASLPasswordCheck_def answer_auth_def Let_def quiet_login quiet_basic quiet_ev_def split: auth_answer.split)
  show ?thesis using st
    by (simp add: OnAuthenticateMessage_def sasl_start_def sasl_continue_def sasl_finish_def sasl_reset_def split_beta Let_def
        quiet_basic abort challenge check split: sasl_answer.split)
qed

lemma attached_ReadLine: "IsAttached st \<Longrightarrow> IsAttached (Client_ReadLine E s st)"
  using attached.dispatch [of st E] attached.put_irc attached_HandleCap [of st E] attached.authenticate [of st E]
  by (auto simp: Client_ReadLine_def client_message_in_def split_beta Let_def)

lemma quiet_ReadLine:
  assumes "quiet st" and "\<not> IsAttached st"
  shows "quiet (Client_ReadLine E s st)"
proof -
  have "quiet (client_message_in E m st)" for m
    using assms quiet_pre_login [of st E m] quiet_cap [of st E m] quiet_sasl [of st E m]
    by (simp add: client_message_in_def split: option.split)
  then show ?thesis using assms(1) by (simp add: Client_ReadLine_def Let_def split_beta)
qed

lemma st_ev_client_gone [simp]: "st_ev (client_gone st) = st_ev st"
  by (simp add: client_gone_def)

lemma quiet_SetNetwork: "quiet st \<Longrightarrow> quiet (SetNetwork E None False False st)"
  by (simp add: SetNetwork_def quiet_def Let_def split: option.split)

lemma reach_quiet: "client_run E late c st \<Longrightarrow> quiet st"
proof (induction rule: client_run.induct)
  case (line st s)
  then show ?case
    using quiet_ReadLine [of st E s] attached_ReadLine [of st E s] by (cases "IsAttached st") (auto simp: quiet_def)
next
  case (jump st x d)
  then show ?case using attached.set_network [of st E x d True] by (simp add: quiet_def)
next
  case (bounced st)
  then show ?case
    by (cases "st_user st") (simp_all add: quiet_def IsAttached_def BouncedOff_def Close_def PutStatusNotice_def PutModNotice_def)
qed (simp_all add: quiet_login quiet_basic NotifyServerDependentCap_def RespondCap_def Let_def Client_Timeout_def
    Client_ReachedMaxBuffer_def Close_def Client_Disconnected_def quiet_SetNetwork, simp add: quiet_def fresh_client_def)

end
