(* ===== verification/Client_Spec.thy ===== *)
theory Client_Spec imports Client_Reach begin

text \<open>
  What the operations of a client compute: the tags and the NAMES entries it is sent, the SASL
  exchange, the lines of a capability list, the parsed credentials, the channels a pattern
  attaches or detaches.
\<close>

section \<open>Tags\<close>

lemma map_of_filtered:
  assumes "om_ok ts" and "\<forall>k \<in> fst ` set ts. map_of acc k = None"
  shows "map_of (fold (\<lambda>(k, v) t. if Q k then om_insert k v t else t) ts acc) k =
    (if k \<in> fst ` set ts \<and> Q k then map_of ts k else map_of acc k)"
  using assms
proof (induction ts arbitrary: acc)
  case (Cons e ts)
  obtain a b where e: "e = (a, b)" by (cases e)
  have a: "a \<notin> fst ` set ts" using Cons.prems(1) by (auto simp: e)
  let ?acc = "if Q a then om_insert a b acc else acc"
  have "\<forall>k \<in> fst ` set ts. map_of ?acc k = None" using Cons.prems(2) a by (auto simp: e)
  from Cons.IH [OF _ this] Cons.prems(1)
  have "map_of (fold (\<lambda>(k, v) t. if Q k then om_insert k v t else t) ts ?acc) k =
    (if k \<in> fst ` set ts \<and> Q k then map_of ts k else map_of ?acc k)" by (simp add: e)
  then show ?case using a Cons.prems(2) by (auto simp: e)
qed simp

text \<open>A client gets the tags it can read, and the time if it asked for it.\<close>

lemma client_tags_spec:
  assumes "om_ok (m_mssTags m)"
  shows "map_of (client_tags c m) k =
    (case if c_bMessageTagCap c \<or> Client_IsTagEnabled c k then map_of (m_mssTags m) k else None of
       Some v \<Rightarrow> Some v
     | None \<Rightarrow> if k = ''time'' \<and> HasServerTime (cl_caps (c_view c))
               then Some (FormatServerTime (cl_caps (c_view c)) (m_time m)) else None)"
proof -
  let ?ts = "if c_bMessageTagCap c then m_mssTags m
    else fold (\<lambda>(k, v) t. if Client_IsTagEnabled c k then om_insert k v t else t) (m_mssTags m) []"
  have ts: "map_of ?ts k = (if c_bMessageTagCap c \<or> Client_IsTagEnabled c k then map_of (m_mssTags m) k else None)" for k
    using map_of_filtered [OF assms, of "[]" "Client_IsTagEnabled c" k] map_of_eq_None_iff [of "m_mssTags m" k] by auto
  then show ?thesis
    by (auto simp: client_tags_def Let_def split: option.split)
qed

section \<open>NAMES and WHO\<close>

lemma find_first_not_of_append:
  "set ps \<subseteq> set chars \<Longrightarrow> n \<noteq> [] \<Longrightarrow> hd n \<notin> set chars \<Longrightarrow> find_first_not_of chars (ps @ n) = Some (length ps)"
proof (induction ps)
  case Nil
  then show ?case by (cases n) auto
qed simp

lemma first_perm_spec:
  assumes "ps \<noteq> []" and "set ps \<subseteq> set perms" and "n \<noteq> []" and "hd n \<notin> set perms"
  shows "first_perm perms (ps @ n) = hd ps # n"
  using find_first_not_of_append [OF assms(2,3,4)] assms(1)
  by (cases ps) (auto simp: first_perm_def Suc_le_eq)

text \<open>
  An entry of the NAMES reply, with all permissions and the full mask, as a client without
  NAMESX or UHNAMES sees it.
\<close>

lemma names_nick_spec:
  assumes "set ps \<subseteq> set (m_sPerms s)" and "nul_free ps" and "n \<noteq> []" and "hd n \<notin> set (m_sPerms s)"
    and "CHR ''!'' \<notin> set ps" and "CHR ''!'' \<notin> set n" and "r = [] \<or> r = CHR ''!'' # q"
  shows "names_nick c s (ps @ n @ r) =
    (if ps \<noteq> [] \<and> \<not> cl_HasNamesx (c_view c) \<and> m_bNamesx s then [hd ps] else ps) @ n @
    (if \<not> cl_HasUHNames (c_view c) \<and> m_bUHNames s then [] else r)"
proof -
  let ?ps = "if ps \<noteq> [] \<and> \<not> cl_HasNamesx (c_view c) \<and> m_bNamesx s then [hd ps] else ps"
  have 1: "(if \<not> cl_HasNamesx (c_view c) \<and> m_bNamesx s \<and> IsPermChar s (hd (ps @ n @ r))
      then first_perm (m_sPerms s) (ps @ n @ r) else ps @ n @ r) = ?ps @ n @ r"
  proof (cases "ps = []")
    case False
    then have "IsPermChar s (hd (ps @ n @ r))" using assms(1,2) by (cases ps) (auto simp: IsPermChar_def nul_free_def)
    then show ?thesis using first_perm_spec [OF False assms(1), of "n @ r"] assms(3,4) False by simp
  next
    case True
    then show ?thesis using assms(3,4) by (simp add: IsPermChar_def)
  qed
  have w: "?ps @ n \<noteq> []" "CHR ''!'' \<notin> set (?ps @ n)" using assms(3,5,6) hd_in_set [of ps] by auto
  have "Token (?ps @ n @ r) 0 False ''!'' False = ?ps @ n"
    using Token_first(1,2) [of "CHR ''!''" "?ps @ n"] w assms(7) by auto
  then show ?thesis unfolding names_nick_def 1 Let_def by simp
qed

lemma split_Join_words:
  assumes "\<forall>e \<in> set es. e \<noteq> [] \<and> CHR '' '' \<notin> set e \<and> nul_free e"
  shows "split_plain (Join '' '' es) '' '' False = es"
proof (cases "es = []")
  case False
  have "nul_free (Join '' '' es)" using assms by (induction es) (auto simp: Join_Cons nul_free_def)
  moreover have "sep_char CHR '' ''" by code_simp
  ultimately have "split_plain (Join '' '' es) '' '' False = filter (\<lambda>t. t \<noteq> []) es"
    using fields_Join [OF False, of "CHR '' ''"] assms by (simp add: Split_drop_empty)
  then show ?thesis using assms by (simp add: filter_id_conv)
qed (simp add: Split_def)

text \<open>The whole reply, for a server with both extensions.\<close>

lemma names_reply_spec:
  assumes "\<forall>(ps, n, r) \<in> set es. set ps \<subseteq> set (m_sPerms s) \<and> nul_free ps \<and> n \<noteq> [] \<and> hd n \<notin> set (m_sPerms s) \<and>
      CHR ''!'' \<notin> set ps \<and> CHR ''!'' \<notin> set n \<and> (r = [] \<or> (\<exists>q. r = CHR ''!'' # q)) \<and>
      CHR '' '' \<notin> set (ps @ n @ r) \<and> nul_free (ps @ n @ r)"
    and "GetParam m 3 = Join '' '' (map (\<lambda>(ps, n, r). ps @ n @ r) es)"
    and "m_bNamesx s" and "m_bUHNames s"
  shows "names_reply c s m =
    (if cl_HasNamesx (c_view c) \<and> cl_HasUHNames (c_view c) then m
     else SetParam 3 (Join '' '' (map (\<lambda>(ps, n, r).
       (if ps \<noteq> [] \<and> \<not> cl_HasNamesx (c_view c) then [hd ps] else ps) @ n @ (if cl_HasUHNames (c_view c) then r else [])) es)) m)"
proof -
  have "split_plain (GetParam m 3) '' '' False = map (\<lambda>(ps, n, r). ps @ n @ r) es"
    unfolding assms(2) by (rule split_Join_words) (use assms(1) in fastforce)
  note entries = this
  have nick: "names_nick c s (ps @ n @ r) =
      (if ps \<noteq> [] \<and> \<not> cl_HasNamesx (c_view c) then [hd ps] else ps) @ n @ (if cl_HasUHNames (c_view c) then r else [])"
    if "(ps, n, r) \<in> set es" for ps n r
  proof -
    from bspec [OF assms(1) that] have h: "set ps \<subseteq> set (m_sPerms s)" "nul_free ps" "n \<noteq> []" "hd n \<notin> set (m_sPerms s)"
      "CHR ''!'' \<notin> set ps" "CHR ''!'' \<notin> set n" and r: "r = [] \<or> (\<exists>q. r = CHR ''!'' # q)" by simp_all
    from r obtain q where "r = [] \<or> r = CHR ''!'' # q" by auto
    from names_nick_spec [OF h this, of c] assms(3,4) show ?thesis by simp
  qed
  have "map (names_nick c s) (map (\<lambda>(ps, n, r). ps @ n @ r) es) = map (\<lambda>(ps, n, r).
      (if ps \<noteq> [] \<and> \<not> cl_HasNamesx (c_view c) then [hd ps] else ps) @ n @ (if cl_HasUHNames (c_view c) then r else [])) es"
    unfolding map_map by (rule map_cong [OF refl]) (auto simp only: o_def nick split: prod.split)
  then show ?thesis using assms(3,4) by (simp add: names_reply_def entries del: map_map)
qed

text \<open>The flags of a WHO reply start with H or G, so the stripping never applies to them.\<close>

lemma who_reply_same:
  assumes "hd (GetParam m 6) \<notin> set (m_sPerms s)"
  shows "who_reply c s m = SetParam 6 (GetParam m 6) m \<or> who_reply c s m = m"
proof (cases "GetParam m 6")
  case (Cons a b)
  then have "first_perm (m_sPerms s) (GetParam m 6) = GetParam m 6" using assms by (simp add: first_perm_def)
  then show ?thesis by (simp add: who_reply_def Let_def)
qed (simp add: who_reply_def)

section \<open>SASL\<close>

lemma concat_sasl_chunks: "0 < k \<Longrightarrow> concat (sasl_chunks k s) = s"
proof (induction k s rule: sasl_chunks.induct)
  case (1 k s)
  then show ?case by (subst sasl_chunks.simps) auto
qed

lemma sasl_chunks_step: "s \<noteq> [] \<Longrightarrow> 0 < k \<Longrightarrow> sasl_chunks k s = take k s # sasl_chunks k (drop k s)"
  by (subst sasl_chunks.simps) simp

lemma sasl_chunks_Nil [simp]: "sasl_chunks k [] = []"
  by (subst sasl_chunks.simps) simp

text \<open>A full part is only collected.\<close>

lemma sasl_continue_full:
  assumes "length p = 400" and "length (c_sSASLBuffer (st_cl st)) + 400 \<le> 10240"
  shows "sasl_continue E p st = on_cl (\<lambda>c. c \<lparr>c_sSASLBuffer := c_sSASLBuffer c @ p\<rparr>) st"
  using assms by (simp add: sasl_continue_def Let_def)

lemma on_cl_buffer [simp]:
  "on_cl (\<lambda>c. c \<lparr>c_sSASLBuffer := b\<rparr>) (on_cl (\<lambda>c. c \<lparr>c_sSASLBuffer := f c\<rparr>) st) = on_cl (\<lambda>c. c \<lparr>c_sSASLBuffer := b\<rparr>) st"
  by (simp add: on_cl_def)

lemma sasl_finish_buffer [simp]:
  "sasl_finish E d (on_cl (\<lambda>c. c \<lparr>c_sSASLBuffer := f c\<rparr>) st) = sasl_finish E d st"
  by (simp add: sasl_finish_def)

text \<open>The parts of a message, fed one after the other, are decoded and handed on as a whole.\<close>

lemma sasl_continue_parts:
  assumes "length (c_sSASLBuffer (st_cl st)) + length s \<le> 10240" and "length s mod 4 = 0"
    and "length (c_sSASLBuffer (st_cl st)) mod 400 = 0"
  shows "fold (sasl_continue E) (challenge_parts s) st =
    sasl_finish E (Base64Decode_n (c_sSASLBuffer (st_cl st) @ s)) st"
  using assms
proof (induction "length s" arbitrary: s st rule: less_induct)
  case less
  show ?case
  proof (cases "length s < 400")
    case True
    show ?thesis
    proof (cases "s = []")
      case False
      then have "s \<noteq> ''+''" and "length s mod 400 \<noteq> 0" using less.prems(2) True by auto
      moreover have "sasl_chunks 400 s = [s]" using False True by (simp add: sasl_chunks_step)
      ultimately show ?thesis using less.prems(1) True by (simp add: challenge_parts_def sasl_continue_def Let_def)
    next
      case True
      then have "length (c_sSASLBuffer (st_cl st)) < 10240" using less.prems(1,3) by (cases "length (c_sSASLBuffer (st_cl st)) = 10240") auto
      then show ?thesis using True by (simp add: challenge_parts_def sasl_continue_def Let_def)
    qed
  next
    case False
    let ?p = "take 400 s" and ?s = "drop 400 s"
    have s: "s \<noteq> []" and p: "length ?p = 400" and ps: "?p @ ?s = s" using False by auto
    let ?st = "on_cl (\<lambda>c. c \<lparr>c_sSASLBuffer := c_sSASLBuffer c @ ?p\<rparr>) st"
    have step: "(400 + k) mod 400 = k mod 400" "(400 + k) mod 4 = k mod 4" for k :: nat by (simp, presburger)
    have l: "length s = 400 + length ?s" using False by simp
    have m: "length s mod 400 = length ?s mod 400" "length ?s mod 4 = 0"
      using step [of "length ?s"] less.prems(2) unfolding l [symmetric] by simp_all
    then have "challenge_parts s = ?p # challenge_parts ?s"
      using sasl_chunks_step [OF s, of 400] by (simp add: challenge_parts_def)
    moreover have "sasl_continue E ?p st = ?st"
      by (rule sasl_continue_full [OF p]) (use less.prems(1) False in simp)
    moreover have "fold (sasl_continue E) (challenge_parts ?s) ?st =
        sasl_finish E (Base64Decode_n (c_sSASLBuffer (st_cl ?st) @ ?s)) ?st"
    proof (rule less.hyps)
      have b: "length (c_sSASLBuffer (st_cl ?st)) = length (c_sSASLBuffer (st_cl st)) + 400" using p by simp
      show "length ?s < length s" using s by simp
      show "length (c_sSASLBuffer (st_cl ?st)) + length ?s \<le> 10240" unfolding b using less.prems(1) False by simp
      show "length ?s mod 4 = 0" by (rule m(2))
      show "length (c_sSASLBuffer (st_cl ?st)) mod 400 = 0" unfolding b using less.prems(3) by simp
    qed
    ultimately show ?thesis by simp
  qed
qed

lemma length_b64_mod4: "length (Base64Encode_n s 0) mod 4 = 0"
  by (simp add: Base64Encode_n_def length_b64_encode_loop)

text \<open>The same for whole messages: what the client sends are the parts of its answer.\<close>

definition sasl_ready :: "cstate \<Rightarrow> bool" where
  "sasl_ready st \<longleftrightarrow> c_bSASLCap (st_cl st) \<and> c_sSASLUser (st_cl st) = [] \<and> \<not> IsAttached st \<and> IsDuringSASL (st_cl st)"

definition auth_message :: "string \<Rightarrow> message" where
  "auth_message p = empty_message \<lparr>m_vsParams := [p]\<rparr>"

lemma GetParam_auth_message [simp]: "GetParam (auth_message p) 0 = p"
  by (simp add: auth_message_def GetParam_def)

lemma auth_part:
  assumes "sasl_ready st" and "length p \<le> 400" and "\<not> equals_ci p ''*''"
  shows "OnAuthenticateMessage E (auth_message p) st = sasl_continue E p st"
  using assms by (simp add: OnAuthenticateMessage_def sasl_ready_def Let_def)

lemma sasl_chunks_parts: "0 < k \<Longrightarrow> p \<in> set (sasl_chunks k s) \<Longrightarrow> length p \<le> k \<and> set p \<subseteq> set s \<and> p \<noteq> []"
proof (induction k s rule: sasl_chunks.induct)
  case (1 k s)
  then show ?case
    by (subst (asm) (2) sasl_chunks.simps) (auto split: if_splits dest: in_set_takeD in_set_dropD)
qed

lemma sasl_ready_continue:
  assumes "sasl_ready st" and "length p = 400" and "length (c_sSASLBuffer (st_cl st)) + 400 \<le> 10240"
  shows "sasl_ready (sasl_continue E p st)"
  using assms by (simp add: sasl_continue_full sasl_ready_def IsDuringSASL_def)

text \<open>No part is taken for the request to abort, and the exchange stays open up to the last part.\<close>

lemma not_abort: "nul_free p \<Longrightarrow> length p \<noteq> 1 \<or> p = ''+'' \<Longrightarrow> \<not> equals_ci p ''*''"
proof -
  assume p: "nul_free p" "length p \<noteq> 1 \<or> p = ''+''"
  have plus: "\<not> equals_ci ''+'' ''*''" by code_simp
  have "length p = 1" if "equals_ci p ''*''"
  proof -
    have "AsLower p = AsLower ''*''" using that p(1) by (simp add: equals_ci_iff)
    from arg_cong [OF this, of length] show ?thesis by simp
  qed
  then show ?thesis using p(2) plus by auto
qed

lemma sasl_message_parts:
  assumes "sasl_ready st" and "length (c_sSASLBuffer (st_cl st)) + length s \<le> 10240" and "length s mod 4 = 0" and "nul_free s"
  shows "fold (\<lambda>p. OnAuthenticateMessage E (auth_message p)) (challenge_parts s) st = fold (sasl_continue E) (challenge_parts s) st"
  using assms
proof (induction "length s" arbitrary: s st rule: less_induct)
  case less
  show ?case
  proof (cases "length s < 400")
    case True
    have "challenge_parts s = [if s = [] then ''+'' else s]"
      using True by (cases "s = []") (simp_all add: challenge_parts_def sasl_chunks_step)
    moreover have "\<not> equals_ci (if s = [] then ''+'' else s) ''*''"
      by (rule not_abort) (use less.prems(3,4) in \<open>auto simp: nul_free_def\<close>)
    ultimately show ?thesis using auth_part [OF less.prems(1)] True by simp
  next
    case False
    let ?p = "take 400 s" and ?s = "drop 400 s"
    have p: "length ?p = 400" and s: "s \<noteq> []" using False by auto
    have b: "length (c_sSASLBuffer (st_cl st)) + 400 \<le> 10240" using less.prems(2) False by simp
    have "nul_free ?p" "nul_free ?s" using less.prems(4) by (auto simp: nul_free_def dest: in_set_takeD in_set_dropD)
    have l: "length s = 400 + length ?s" using False by simp
    have step: "(400 + k) mod 400 = k mod 400" "(400 + k) mod 4 = k mod 4" for k :: nat by (simp, presburger)
    have m: "length s mod 400 = length ?s mod 400" "length ?s mod 4 = 0"
      using step [of "length ?s"] less.prems(3) unfolding l [symmetric] by simp_all
    then have "challenge_parts s = ?p # challenge_parts ?s"
      using sasl_chunks_step [OF s, of 400] by (simp add: challenge_parts_def)
    moreover have "OnAuthenticateMessage E (auth_message ?p) st = sasl_continue E ?p st"
      using auth_part [OF less.prems(1)] not_abort [OF \<open>nul_free ?p\<close>] p by simp
    moreover have "fold (\<lambda>p. OnAuthenticateMessage E (auth_message p)) (challenge_parts ?s) (sasl_continue E ?p st) =
        fold (sasl_continue E) (challenge_parts ?s) (sasl_continue E ?p st)"
    proof (rule less.hyps)
      show "length ?s < length s" using s by simp
      show "sasl_ready (sasl_continue E ?p st)" by (rule sasl_ready_continue [OF less.prems(1) p b])
      show "length (c_sSASLBuffer (st_cl (sasl_continue E ?p st))) + length ?s \<le> 10240"
        using less.prems(2) False p by (simp add: sasl_continue_full [OF p b])
    qed (use m \<open>nul_free ?s\<close> in simp_all)
    ultimately show ?thesis by simp
  qed
qed

lemma nul_free_Base64: "nul_free (Base64Encode_n s 0)"
  using b64_encode_plain [of NUL] by (auto simp: nul_free_def Base64Encode_n_def)

text \<open>An answer of the client reaches the module as the client encoded it.\<close>

lemma sasl_answer:
  assumes "sasl_ready st" and "c_sSASLBuffer (st_cl st) = []" and "length (Base64Encode_n d 0) \<le> 10240"
  shows "fold (\<lambda>p. OnAuthenticateMessage E (auth_message p)) (challenge_parts (Base64Encode_n d 0)) st = sasl_finish E d st"
proof -
  have "length (c_sSASLBuffer (st_cl st)) + length (Base64Encode_n d 0) \<le> 10240" using assms(2,3) by simp
  note le = this length_b64_mod4
  show ?thesis
    using sasl_message_parts [OF assms(1) le nul_free_Base64] sasl_continue_parts [OF le] assms(2)
    by (simp add: Base64_roundtrip)
qed

section \<open>SASL PLAIN\<close>

lemma strncmp0_NUL: "strncmp0 (c # p) [NUL] (Suc 0) \<longleftrightarrow> c = NUL"
  by (simp add: strncmp0_def)

lemma token_take_NUL: "nul_free a \<Longrightarrow> token_take [NUL] (a @ NUL # q) = a" "nul_free a \<Longrightarrow> token_take [NUL] a = a"
  by (induction a) (auto simp: strncmp0_NUL nul_free_def)

lemma token_start_NUL: "nul_free a \<Longrightarrow> token_start (Suc n) [NUL] True (a @ NUL # q) = token_start n [NUL] True q"
proof (induction a)
  case Nil
  then show ?case by (subst token_start.simps) (simp add: strncmp0_NUL)
next
  case (Cons c a)
  then show ?case by (subst token_start.simps) (auto simp: strncmp0_NUL nul_free_def)
qed

lemma Token_NUL:
  assumes "nul_free a" and "nul_free b" and "nul_free p"
  shows "Token (a @ NUL # b @ NUL # p) 0 False [NUL] True = a"
    and "Token (a @ NUL # b @ NUL # p) 1 False [NUL] True = b"
    and "Token (a @ NUL # b @ NUL # p) 2 False [NUL] True = p"
  using assms token_take_NUL token_start_NUL [OF assms(1), of 0] token_start_NUL [OF assms(1), of 1]
    token_start_NUL [OF assms(2), of 0]
  by (simp_all add: Token_def Let_def numeral_2_eq_2)

lemma SASLPlain_fields:
  assumes "nul_free a" and "nul_free b" and "nul_free p"
  shows "SASLPlain ''PLAIN'' (a @ NUL # b @ NUL # p) = SASLCheck b p (if a = [] then b else a)"
  using Token_NUL [OF assms] by (simp add: SASLPlain_def Let_def)

section \<open>Lines of capabilities\<close>

text \<open>All names in order, separated by blanks; only a single name makes a line of more than 401 bytes.\<close>

lemma multi_line_groups:
  assumes "\<forall>c \<in> set cs. c \<noteq> []" and "cur = Join '' '' g0" and "\<forall>c \<in> set g0. c \<noteq> []" and "length cur \<le> 401 \<or> length g0 = 1"
  shows "\<exists>gs. multi_line cur cs = map (Join '' '') gs \<and> concat gs = g0 @ cs \<and>
    (\<forall>g \<in> set gs. length (Join '' '' g) \<le> 401 \<or> length g = 1)"
  using assms
proof (induction cs arbitrary: cur g0)
  case Nil
  then show ?case by (intro exI [of _ "[g0]"]) simp
next
  case (Cons c cs)
  show ?case
  proof (cases "length cur + length c > 400")
    case True
    obtain gs where gs: "multi_line c cs = map (Join '' '') gs" "concat gs = [c] @ cs"
      "\<forall>g \<in> set gs. length (Join '' '' g) \<le> 401 \<or> length g = 1"
      using Cons.IH [of c "[c]"] Cons.prems by auto
    then show ?thesis using True Cons.prems(2,4) by (intro exI [of _ "g0 # gs"]) simp
  next
    case False
    have j: "(if cur \<noteq> [] then cur @ '' '' else cur) @ c = Join '' '' (g0 @ [c])"
    proof (cases g0)
      case (Cons a b)
      then have "cur \<noteq> []" using Cons.prems(2,3) \<open>cur = Join '' '' g0\<close> \<open>\<forall>c \<in> set g0. c \<noteq> []\<close> by (cases b) auto
      moreover have j: "g \<noteq> [] \<Longrightarrow> Join '' '' (g @ [c]) = Join '' '' g @ '' '' @ c" for g by (induction g) (auto simp: Join_Cons)
      ultimately show ?thesis using \<open>cur = Join '' '' g0\<close> Cons j [of "a # b"] by simp
    qed (use Cons.prems(2) in simp)
    have l: "length (Join '' '' (g0 @ [c])) \<le> 401" using False unfolding j [symmetric] by auto
    have e: "multi_line cur (c # cs) = multi_line (Join '' '' (g0 @ [c])) cs" using False unfolding j [symmetric] by simp
    show ?thesis unfolding e using Cons.IH [of "Join '' '' (g0 @ [c])" "g0 @ [c]"] Cons.prems l by simp
  qed
qed

section \<open>Credentials\<close>

lemma rsplit_char_None: "d \<notin> set s \<Longrightarrow> rsplit_char d s = None"
  by (induction s) auto

lemma rsplit_char_last: "d \<notin> set b \<Longrightarrow> rsplit_char d (a @ d # b) = Some (a, b)"
  by (induction a) (simp_all add: rsplit_char_None)

text \<open>user, user@identifier, with /network and with :password.\<close>

definition auth_user_part :: "string \<Rightarrow> string \<Rightarrow> string \<Rightarrow> string" where
  "auth_user_part u i n = u @ (if i = [] then [] else ''@'' @ i) @ (if n = [] then [] else ''/'' @ n)"

lemma ParseIdentifier_spec:
  assumes "CHR 0x40 \<notin> set u" and "i = [] \<or> IsValidIdentifier i"  and "CHR 0x40 \<notin> set i"
  shows "ParseIdentifier (u @ (if i = [] then [] else ''@'' @ i)) c =
    (if i = [] then c else c \<lparr>c_sIdentifier := i\<rparr>) \<lparr>c_sUser := u\<rparr>"
proof (cases "i = []")
  case True
  then show ?thesis using rsplit_char_None [OF assms(1)] by (simp add: ParseIdentifier_def)
next
  case False
  then show ?thesis using rsplit_char_last [OF assms(3), of u] assms(2) by (simp add: ParseIdentifier_def)
qed

lemma ParseUser_spec:
  assumes "CHR ''/'' \<notin> set u \<union> set i \<union> set n" and "CHR 0x40 \<notin> set u \<union> set i" and "i = [] \<or> IsValidIdentifier i"
  shows "ParseUser (auth_user_part u i n) c =
    (if i = [] then (if n = [] then c else c \<lparr>c_sNetwork := n\<rparr>)
     else (if n = [] then c else c \<lparr>c_sNetwork := n\<rparr>) \<lparr>c_sIdentifier := i\<rparr>) \<lparr>c_sUser := u\<rparr>"
proof -
  let ?ui = "u @ (if i = [] then [] else ''@'' @ i)"
  have id: "ParseIdentifier ?ui c' = (if i = [] then c' else c' \<lparr>c_sIdentifier := i\<rparr>) \<lparr>c_sUser := u\<rparr>" for c'
    using assms by (intro ParseIdentifier_spec) auto
  show ?thesis
  proof (cases "n = []")
    case True
    have "auth_user_part u i n = ?ui" "CHR ''/'' \<notin> set ?ui" using assms(1) True by (auto simp: auth_user_part_def)
    then show ?thesis using id [of c] True rsplit_char_None [of "CHR ''/''" ?ui] by (simp add: ParseUser_def del: append.simps)
  next
    case False
    have "auth_user_part u i n = ?ui @ CHR ''/'' # n" using False by (simp add: auth_user_part_def)
    then show ?thesis using id [of "c \<lparr>c_sNetwork := n\<rparr>"] rsplit_char_last [of "CHR ''/''" n ?ui] assms(1) False
      by (simp add: ParseUser_def del: append_assoc append.simps)
  qed
qed

lemma ParsePass_spec:
  assumes "CHR ''/'' \<notin> set u \<union> set i \<union> set n" and "CHR 0x40 \<notin> set u \<union> set i" and "i = [] \<or> IsValidIdentifier i"
    and "CHR '':'' \<notin> set u \<union> set i \<union> set n"
  shows "ParsePass (auth_user_part u i n @ '':'' @ p) c = ParseUser (auth_user_part u i n) (c \<lparr>c_sPass := p\<rparr>)"
proof -
  have "CHR '':'' \<notin> set (auth_user_part u i n)" using assms(4) by (simp add: auth_user_part_def)
  from find_char_append [OF this, of p] show ?thesis by (simp add: ParsePass_def)
qed

end
