(* ===== verification/Settings.thy ===== *)
theory Settings imports Chan Config_Print begin

text \<open>
  Tables of settings, as CUser and CIRCNetwork use them to read their block of the
  configuration: a name and a setter for each option, applied in the order of the table, each
  taking its entry out of the configuration. The lemmas compute what such a table reads from a
  configuration whose names are used once, and what is left of it; and what the names of a
  written block are after they have been read back in lower case.
\<close>

definition parse_options :: "(string \<times> (string \<Rightarrow> 'a \<Rightarrow> 'a)) list \<Rightarrow> 'a \<times> config \<Rightarrow> 'a \<times> config" where
  "parse_options os st = fold (\<lambda>(sName, f). with_entry sName f) os st"

definition add_pairs :: "(string \<times> string) list \<Rightarrow> config \<Rightarrow> config" where
  "add_pairs ps c = fold (\<lambda>(k, v). AddKeyValuePair k v) ps c"

definition add_blocks :: "string \<Rightarrow> (string \<times> config) list \<Rightarrow> config \<Rightarrow> config" where
  "add_blocks t bs c = fold (\<lambda>(n, d) c. snd (AddSubConfig t n d c)) bs c"

definition Config_empty :: "config \<Rightarrow> bool" where
  "Config_empty c \<longleftrightarrow> c_entries c = [] \<and> c_subs c = []"

section \<open>Taking entries out\<close>

definition drop_key :: "string \<Rightarrow> config \<Rightarrow> config" where
  "drop_key k c = Config (om_erase k (c_entries c)) (c_subs c) (c_sets c)"

definition drop_keys :: "string list \<Rightarrow> config \<Rightarrow> config" where
  "drop_keys ks c = fold drop_key ks c"

definition drop_sub :: "string \<Rightarrow> config \<Rightarrow> config" where
  "drop_sub t c = Config (c_entries c) (om_erase t (c_subs c)) (om_erase t (c_sets c))"

definition entries_ok :: "config \<Rightarrow> bool" where
  "entries_ok c \<longleftrightarrow> om_ok (c_entries c) \<and> (\<forall>e \<in> set (c_entries c). snd e \<noteq> []) \<and>
     om_ok (c_subs c) \<and> (\<forall>e \<in> set (c_subs c). snd e \<noteq> [])"

definition opt :: "(string \<Rightarrow> 'a \<Rightarrow> 'a) \<Rightarrow> string list \<Rightarrow> 'a \<Rightarrow> 'a" where
  "opt f vs x = (case vs of [] \<Rightarrow> x | v # _ \<Rightarrow> f v x)"

lemma opt_simps [simp]: "opt f [] x = x" "opt f (v # vs) x = f v x"
  by (simp_all add: opt_def)

lemma map_of_om_at: "\<forall>e \<in> set m. snd e \<noteq> [] \<Longrightarrow> map_of m k = (if om_at m k = [] then None else Some (om_at m k))"
  by (auto simp: om_at_def split: option.split dest!: map_of_SomeD)

lemma om_at_erase: "om_ok m \<Longrightarrow> om_at (om_erase k m) j = (if j = k then [] else om_at m j)"
  by (simp add: om_at_def)

lemma drop_key_simps [simp]:
  "c_subs (drop_key k c) = c_subs c" "c_sets (drop_key k c) = c_sets c" "c_entries (drop_sub t c) = c_entries c"
  "entries_ok c \<Longrightarrow> entries_ok (drop_key k c)" "entries_ok c \<Longrightarrow> entries_ok (drop_sub t c)"
  "entries_ok c \<Longrightarrow> om_at (c_entries (drop_key k c)) j = (if j = k then [] else om_at (c_entries c) j)"
  "entries_ok c \<Longrightarrow> om_at (c_subs (drop_sub t c)) u = (if u = t then [] else om_at (c_subs c) u)"
  using keys_om_erase_subset by (fastforce simp: drop_key_def drop_sub_def entries_ok_def om_at_erase)+

lemma drop_keys_simps [simp]:
  "c_subs (drop_keys ks c) = c_subs c" "drop_keys [] c = c" "drop_keys (k # ks) c = drop_keys ks (drop_key k c)"
  "entries_ok c \<Longrightarrow> entries_ok (drop_keys ks c)"
  "entries_ok c \<Longrightarrow> om_at (c_entries (drop_keys ks c)) j = (if j \<in> set ks then [] else om_at (c_entries c) j)"
proof -
  show "c_subs (drop_keys ks c) = c_subs c" "entries_ok c \<Longrightarrow> entries_ok (drop_keys ks c)"
    "entries_ok c \<Longrightarrow> om_at (c_entries (drop_keys ks c)) j = (if j \<in> set ks then [] else om_at (c_entries c) j)"
    by (induction ks arbitrary: c) (auto simp: drop_keys_def)
qed (simp_all add: drop_keys_def)

lemma drop_keys_append: "drop_keys (ks @ js) c = drop_keys js (drop_keys ks c)"
  by (simp add: drop_keys_def)

lemma FindStringEntry_one:
  assumes "entries_ok c" and "length (om_at (c_entries c) k) \<le> 1"
  shows "FindStringEntry k d c =
    (case om_at (c_entries c) k of [] \<Rightarrow> ((False, d), drop_key k c) | v # vs \<Rightarrow> ((True, v), drop_key k c))"
proof -
  have "map_of (c_entries c) k = (if om_at (c_entries c) k = [] then None else Some (om_at (c_entries c) k))"
    using assms(1) by (intro map_of_om_at) (simp add: entries_ok_def)
  then show ?thesis
    using assms(2) by (cases "om_at (c_entries c) k") (auto simp: FindStringEntry_def drop_key_def om_erase_absent)
qed

lemma FindStringVector_all:
  assumes "entries_ok c"
  shows "FindStringVector k True c = ((om_at (c_entries c) k \<noteq> [], om_at (c_entries c) k), drop_key k c)"
proof -
  have "map_of (c_entries c) k = (if om_at (c_entries c) k = [] then None else Some (om_at (c_entries c) k))"
    using assms by (intro map_of_om_at) (simp add: entries_ok_def)
  then show ?thesis
    by (auto simp: FindStringVector_def drop_key_def om_erase_absent)
qed

lemma FindSubConfig_all:
  assumes "entries_ok c" and "om_ok (c_sets c)"
  shows "FindSubConfig t b c = ((om_at (c_subs c) t \<noteq> [], om_at (c_subs c) t),
    if b \<and> om_at (c_subs c) t \<noteq> [] then drop_sub t c else c)"
proof -
  have "map_of (c_subs c) t = (if om_at (c_subs c) t = [] then None else Some (om_at (c_subs c) t))"
    using assms(1) by (intro map_of_om_at) (simp add: entries_ok_def)
  then show ?thesis by (auto simp: FindSubConfig_def drop_sub_def)
qed

lemma with_entry_one:
  assumes "entries_ok c" and "length (om_at (c_entries c) k) \<le> 1"
  shows "with_entry k f (x, c) = (opt f (om_at (c_entries c) k) x, drop_key k c)"
  using FindStringEntry_one [OF assms, of "[]"]
  by (cases "om_at (c_entries c) k") (simp_all add: with_entry_def)

lemma parse_options_one:
  assumes "entries_ok c" and "distinct (map fst os)" and "\<forall>k \<in> fst ` set os. length (om_at (c_entries c) k) \<le> 1"
  shows "parse_options os (x, c) =
    (fold (\<lambda>(k, f). opt f (om_at (c_entries c) k)) os x, drop_keys (map fst os) c)"
  using assms
proof (induction os arbitrary: x c)
  case Nil
  then show ?case by (simp add: parse_options_def)
next
  case (Cons o1 os)
  obtain k f where o1: "o1 = (k, f)" by (cases o1)
  let ?x = "opt f (om_at (c_entries c) k) x"
  have "parse_options (o1 # os) (x, c) = parse_options os (?x, drop_key k c)"
    using with_entry_one [of c k f x] Cons.prems by (simp add: parse_options_def o1)
  also have "\<dots> = (fold (\<lambda>(j, g). opt g (om_at (c_entries (drop_key k c)) j)) os ?x, drop_keys (map fst os) (drop_key k c))"
    by (rule Cons.IH) (use Cons.prems in \<open>auto simp: o1\<close>)
  also have "fold (\<lambda>(j, g). opt g (om_at (c_entries (drop_key k c)) j)) os ?x = fold (\<lambda>(j, g). opt g (om_at (c_entries c) j)) os ?x"
    using Cons.prems(1,2) by (intro fold_cong [OF refl refl]) (force simp: o1 fun_eq_iff)
  finally show ?case by (simp add: o1)
qed

lemma Config_empty_dropped:
  assumes "entries_ok c" and "\<forall>k. om_at (c_entries c) k = []" and "\<forall>t. om_at (c_subs c) t = []"
  shows "Config_empty c"
proof -
  have none: "m = []" if "\<forall>e \<in> set m. snd e \<noteq> []" "\<forall>k. om_at m k = []" "om_ok m" for m :: "(string \<times> 'b list) list"
  proof (cases m)
    case (Cons e n)
    then have "om_at m (fst e) = snd e" by (cases e) (simp add: om_at_def)
    then show ?thesis using that(1,2) Cons by simp
  qed simp
  show ?thesis using assms none [of "c_entries c"] none [of "c_subs c"] by (simp add: Config_empty_def entries_ok_def)
qed

section \<open>What was written\<close>

lemma om_at_push: "om_at (om_push k v m) j = (if j = k then om_at m k @ [v] else om_at m j)"
  by (simp add: om_push_def)

lemma add_pairs_simps [simp]:
  "c_subs (add_pairs ps c) = c_subs c" "c_sets (add_pairs ps c) = c_sets c"
  "add_pairs [] c = c" "add_pairs (p # ps) c = add_pairs ps (AddKeyValuePair (fst p) (snd p) c)"
proof -
  show "c_subs (add_pairs ps c) = c_subs c" "c_sets (add_pairs ps c) = c_sets c"
    by (induction ps arbitrary: c) (auto simp: add_pairs_def AddKeyValuePair_def)
qed (simp_all add: add_pairs_def split_beta)

lemma om_at_AddKeyValuePair: "k \<noteq> [] \<Longrightarrow>
  om_at (c_entries (AddKeyValuePair j v c)) k = om_at (c_entries c) k @ (if j = k \<and> v \<noteq> [] then [v] else [])"
  by (simp add: AddKeyValuePair_def om_at_push)

lemma om_at_add_pairs: "k \<noteq> [] \<Longrightarrow>
  om_at (c_entries (add_pairs ps c)) k = om_at (c_entries c) k @ map snd (filter (\<lambda>p. fst p = k \<and> snd p \<noteq> []) ps)"
  by (induction ps arbitrary: c) (auto simp: om_at_AddKeyValuePair)

lemma keys_om_push: "fst ` set (om_push k v m) = insert k (fst ` set m)"
  by (simp add: om_push_def)

lemma keys_add_pairs: "fst ` set (c_entries (add_pairs ps c)) \<subseteq> fst ` set (c_entries c) \<union> fst ` set ps"
proof (induction ps arbitrary: c)
  case (Cons p ps)
  have "fst ` set (c_entries (AddKeyValuePair (fst p) (snd p) c)) \<subseteq> insert (fst p) (fst ` set (c_entries c))"
    by (auto simp: AddKeyValuePair_def keys_om_push)
  then show ?case using Cons.IH [of "AddKeyValuePair (fst p) (snd p) c"] by (simp only: add_pairs_simps list.set image_insert) blast
qed simp

lemma set_om_insert_ok: "\<forall>e \<in> set m. snd e \<noteq> [] \<Longrightarrow> w \<noteq> [] \<Longrightarrow> \<forall>e \<in> set (om_insert k w m). snd e \<noteq> []"
  using set_om_insert [of k w m] by auto

lemma entries_ok_AddKeyValuePair: "entries_ok c \<Longrightarrow> entries_ok (AddKeyValuePair k v c)"
  using set_om_insert_ok [of "c_entries c" "om_at (c_entries c) k @ [v]" k]
  by (auto simp: entries_ok_def AddKeyValuePair_def om_push_def)

lemma entries_ok_add_pairs: "entries_ok c \<Longrightarrow> entries_ok (add_pairs ps c)"
  by (induction ps arbitrary: c) (simp_all add: entries_ok_AddKeyValuePair)

lemma entries_ok_empty [simp]: "entries_ok empty_config"
  by (simp add: entries_ok_def empty_config_def)

lemma entries_ok_AddSubConfig: "entries_ok c \<Longrightarrow> entries_ok (snd (AddSubConfig t n d c))"
  using set_om_insert_ok [of "c_subs c" "om_at (c_subs c) t @ [(n, d)]" t]
  by (auto simp: entries_ok_def AddSubConfig_def om_push_def Let_def)

lemma om_ok_sets_AddSubConfig: "om_ok (c_sets c) \<Longrightarrow> om_ok (c_sets (snd (AddSubConfig t n d c)))"
  by (simp add: AddSubConfig_def Let_def)

lemma add_blocks_simps [simp]:
  "add_blocks t [] c = c" "add_blocks t (b # bs) c = add_blocks t bs (snd (AddSubConfig t (fst b) (snd b) c))"
  by (simp_all add: add_blocks_def split_beta)

lemma add_blocks_keeps:
  "c_entries (add_blocks t bs c) = c_entries c"
  "entries_ok c \<Longrightarrow> entries_ok (add_blocks t bs c)" "om_ok (c_sets c) \<Longrightarrow> om_ok (c_sets (add_blocks t bs c))"
  by (induction bs arbitrary: c) (auto simp: entries_ok_AddSubConfig om_ok_sets_AddSubConfig, auto simp: AddSubConfig_def Let_def)

lemma om_at_subs_AddSubConfig:
  "n \<notin> set (om_at (c_sets c) t) \<Longrightarrow>
   om_at (c_subs (snd (AddSubConfig t n d c))) u = om_at (c_subs c) u @ (if u = t then [(n, d)] else [])"
  by (simp add: AddSubConfig_def Let_def om_at_push)

lemma om_at_add_blocks:
  assumes "distinct (map fst bs)" and "fst ` set bs \<inter> set (om_at (c_sets c) t) = {}"
  shows "om_at (c_subs (add_blocks t bs c)) u = om_at (c_subs c) u @ (if u = t then bs else []) \<and>
    set (om_at (c_sets (add_blocks t bs c)) u) = set (om_at (c_sets c) u) \<union> (if u = t then fst ` set bs else {})"
  using assms
proof (induction bs arbitrary: c)
  case (Cons b bs)
  let ?c = "snd (AddSubConfig t (fst b) (snd b) c)"
  have sets: "om_at (c_sets ?c) v = (if v = t then os_insert (fst b) (om_at (c_sets c) t) else om_at (c_sets c) v)" for v
    by (rule om_at_AddSubConfig)
  have "fst ` set bs \<inter> set (om_at (c_sets ?c) t) = {}" "distinct (map fst bs)" using Cons.prems by (auto simp: sets)
  note IH = Cons.IH [OF this(2,1)]
  have "fst b \<notin> set (om_at (c_sets c) t)" using Cons.prems(2) by auto
  from IH om_at_subs_AddSubConfig [OF this, of "snd b" u] show ?case by (auto simp: sets)
qed simp

section \<open>Read back in lower case\<close>

lemma om_at_lower_entries:
  "om_at (c_entries (lower_entries es c)) k = om_at (c_entries c) k @ concat (map snd (filter (\<lambda>e. AsLower (fst e) = k) es))"
proof -
  have "om_at (c_entries (fold (push_entry j) vs c)) k = om_at (c_entries c) k @ (if AsLower j = k then vs else [])" for j vs c
    by (induction vs arbitrary: c) (auto simp: push_entry_def om_at_push)
  then show ?thesis
    unfolding lower_entries_def by (induction es arbitrary: c) (auto simp: split_beta)
qed

lemma unique_concat:
  assumes "om_ok es" and "\<forall>j \<in> fst ` set es. AsLower j = AsLower k \<longrightarrow> j = k"
  shows "concat (map snd (filter (\<lambda>e. AsLower (fst e) = AsLower k) es)) = om_at es k"
  using assms
proof (induction es)
  case (Cons e es)
  obtain j vs where e: "e = (j, vs)" by (cases e)
  show ?case
  proof (cases "j = k")
    case True
    have "AsLower (fst x) \<noteq> AsLower k" if "x \<in> set es" for x
    proof -
      have "j < fst x" using Cons.prems(1) that by (auto simp: e)
      then show ?thesis using Cons.prems(2) that True by auto
    qed
    then have "filter (\<lambda>e. AsLower (fst e) = AsLower k) es = []" by (simp add: filter_empty_conv)
    then show ?thesis by (simp add: e True om_at_def)
  next
    case False
    then show ?thesis using Cons by (auto simp: e om_at_def)
  qed
qed simp

lemma c_entries_lower_subs: "c_entries (lower_subs ss c) = c_entries c"
proof -
  have "c_entries (lower_blocks t l c) = c_entries c" for t l c
    by (induction l arbitrary: c) (simp_all add: AddSubConfig_def Let_def)
  then show ?thesis unfolding lower_subs_def by (induction ss arbitrary: c) simp_all
qed

lemma lower_entry:
  assumes "entries_ok c" and "\<forall>j \<in> fst ` set (c_entries c). AsLower j = AsLower k \<longrightarrow> j = k"
  shows "om_at (c_entries (lower_config c)) (AsLower k) = om_at (c_entries c) k"
proof -
  have "om_at (c_entries (lower_config c)) (AsLower k) = concat (map snd (filter (\<lambda>e. AsLower (fst e) = AsLower k) (c_entries c)))"
    by (cases c) (simp add: lower_config_eq c_entries_lower_subs om_at_lower_entries empty_config_def del: lower_config.simps)
  then show ?thesis using unique_concat [OF _ assms(2)] assms(1) by (simp add: entries_ok_def)
qed

lemma lower_entry_none:
  assumes "\<forall>j \<in> fst ` set (c_entries c). AsLower j \<noteq> k"
  shows "om_at (c_entries (lower_config c)) k = []"
proof -
  have "filter (\<lambda>e. AsLower (fst e) = k) (c_entries c) = []" using assms by (auto simp: filter_empty_conv)
  then show ?thesis
    by (cases c) (simp add: lower_config_eq c_entries_lower_subs om_at_lower_entries empty_config_def del: lower_config.simps)
qed

definition lower_names :: "(string \<times> config) list \<Rightarrow> (string \<times> config) list" where
  "lower_names bs = map (\<lambda>b. (fst b, lower_config (snd b))) bs"

lemma lower_names_simps [simp]:
  "lower_names [] = []" "lower_names (b # bs) = (fst b, lower_config (snd b)) # lower_names bs"
  "map fst (lower_names bs) = map fst bs" "fst ` set (lower_names bs) = fst ` set bs"
  by (force simp: lower_names_def)+

lemma lower_blocks_add: "lower_blocks t l c = add_blocks (AsLower t) (lower_names l) c"
  by (induction l arbitrary: c) simp_all

lemma lower_subs_at:
  assumes "distinct (map (\<lambda>e. AsLower (fst e)) ss)" and "\<forall>e \<in> set ss. distinct (map fst (snd e))"
    and "\<forall>e \<in> set ss. om_at (c_sets c) (AsLower (fst e)) = []"
  shows "om_at (c_subs (lower_subs ss c)) u =
    om_at (c_subs c) u @ concat (map (\<lambda>e. lower_names (snd e)) (filter (\<lambda>e. AsLower (fst e) = u) ss))"
  using assms
proof (induction ss arbitrary: c)
  case Nil
  then show ?case by (simp add: lower_subs_def)
next
  case (Cons e ss)
  let ?c = "lower_blocks (fst e) (snd e) c"
  have step: "lower_subs (e # ss) c = lower_subs ss ?c" by (simp add: lower_subs_def)
  have "\<forall>x \<in> set ss. om_at (c_sets ?c) (AsLower (fst x)) = []"
  proof
    fix x
    assume x: "x \<in> set ss"
    then have "AsLower (fst x) \<in> (\<lambda>e. AsLower (fst e)) ` set ss" by (rule imageI)
    moreover have "AsLower (fst e) \<notin> (\<lambda>e. AsLower (fst e)) ` set ss" using Cons.prems(1) by simp
    ultimately have "AsLower (fst x) \<noteq> AsLower (fst e)" by metis
    then show "om_at (c_sets ?c) (AsLower (fst x)) = []" using Cons.prems(3) x by (simp add: om_at_lower_blocks)
  qed
  then have "om_at (c_subs (lower_subs ss ?c)) u =
      om_at (c_subs ?c) u @ concat (map (\<lambda>e. lower_names (snd e)) (filter (\<lambda>e. AsLower (fst e) = u) ss))"
    by (intro Cons.IH) (use Cons.prems in simp_all)
  moreover have "om_at (c_subs ?c) u = om_at (c_subs c) u @ (if u = AsLower (fst e) then lower_names (snd e) else [])"
    unfolding lower_blocks_add by (rule om_at_add_blocks [THEN conjunct1]) (use Cons.prems in simp_all)
  ultimately show ?case by (simp add: step)
qed

lemma entries_ok_lower_entries: "entries_ok c \<Longrightarrow> \<forall>e \<in> set es. [] \<notin> set (snd e) \<Longrightarrow> entries_ok (lower_entries es c)"
proof -
  have push: "entries_ok c \<Longrightarrow> entries_ok (push_entry k v c)" for k v c
    using set_om_insert_ok [of "c_entries c" "om_at (c_entries c) (AsLower k) @ [v]" "AsLower k"]
    by (auto simp: entries_ok_def push_entry_def om_push_def)
  have "entries_ok c \<Longrightarrow> entries_ok (fold (push_entry k) vs c)" for k vs c
    by (induction vs arbitrary: c) (simp_all add: push)
  then show "entries_ok c \<Longrightarrow> entries_ok (lower_entries es c)"
    unfolding lower_entries_def by (induction es arbitrary: c) (auto simp: split_beta)
qed

lemma lower_subs_ok:
  "entries_ok c \<Longrightarrow> entries_ok (lower_subs ss c)" "om_ok (c_sets c) \<Longrightarrow> om_ok (c_sets (lower_subs ss c))"
  by (induction ss arbitrary: c)
    (simp_all add: lower_subs_def lower_blocks_add add_blocks_keeps)

definition plain_values :: "config \<Rightarrow> bool" where
  "plain_values c \<longleftrightarrow> (\<forall>e \<in> set (c_entries c). [] \<notin> set (snd e))"

lemma lower_config_ok:
  assumes "plain_values c"
  shows "entries_ok (lower_config c)" "om_ok (c_sets (lower_config c))"
proof -
  have c: "lower_config c = lower_subs (c_subs c) (lower_entries (c_entries c) empty_config)"
    by (cases c) (simp only: lower_config_eq config.sel)
  have e: "om_ok (c_sets (lower_entries (c_entries c) empty_config))"
    unfolding c_sets_lower_entries by (simp add: empty_config_def)
  show "entries_ok (lower_config c)"
    unfolding c by (rule lower_subs_ok(1) [OF entries_ok_lower_entries]) (use assms in \<open>simp_all add: plain_values_def\<close>)
  show "om_ok (c_sets (lower_config c))" unfolding c by (rule lower_subs_ok(2) [OF e])
qed

text \<open>The blocks of a tag, when no other tag has the same name in lower case.\<close>

lemma lower_block:
  assumes "om_ok (c_subs c)" and "inj_on AsLower (fst ` set (c_subs c))" and "\<forall>e \<in> set (c_subs c). distinct (map fst (snd e))"
  shows "om_at (c_subs (lower_config c)) u =
    concat (map (\<lambda>e. lower_names (snd e)) (filter (\<lambda>e. AsLower (fst e) = u) (c_subs c)))"
proof -
  have d: "distinct (map AsLower (map fst (c_subs c)))"
    using assms(1,2) om_ok_distinct by (subst distinct_map) auto
  have "om_at (c_subs (lower_subs (c_subs c) (lower_entries (c_entries c) empty_config))) u =
      om_at (c_subs (lower_entries (c_entries c) empty_config)) u @
      concat (map (\<lambda>e. lower_names (snd e)) (filter (\<lambda>e. AsLower (fst e) = u) (c_subs c)))"
    by (rule lower_subs_at) (use d assms(3) in \<open>simp_all add: comp_def c_sets_lower_entries empty_config_def\<close>)
  moreover have "c_subs (lower_entries es empty_config) = []" for es
  proof -
    have "c_subs (fold (push_entry k) vs c) = c_subs c" for k vs c
      by (induction vs arbitrary: c) (simp_all add: push_entry_def)
    then have "c_subs (lower_entries es c) = c_subs c" for c
      unfolding lower_entries_def by (induction es arbitrary: c) (auto simp: split_beta)
    then show ?thesis by (simp add: empty_config_def)
  qed
  ultimately show ?thesis by (cases c) (simp add: lower_config_eq del: lower_config.simps)
qed

section \<open>A written block and what is read from it\<close>

text \<open>The entries \<open>ps\<close>, then for each tag its blocks.\<close>

definition written :: "(string \<times> string) list \<Rightarrow> (string \<times> (string \<times> config) list) list \<Rightarrow> config" where
  "written ps tbs = fold (\<lambda>(t, bs). add_blocks t bs) tbs (add_pairs ps empty_config)"

lemma written_entries: "c_entries (written ps tbs) = c_entries (add_pairs ps empty_config)"
  unfolding written_def by (induction tbs rule: rev_induct) (auto simp: add_blocks_keeps(1))

lemma plain_values_add_pairs: "plain_values c \<Longrightarrow> plain_values (add_pairs ps c)"
proof (induction ps arbitrary: c)
  case (Cons p ps)
  have "plain_values (AddKeyValuePair k v c)" for k v
  proof -
    have "[] \<notin> set (om_at (c_entries c) k)"
      using Cons.prems om_at_member [of "c_entries c" k]
      by (cases "om_at (c_entries c) k = []") (fastforce simp: plain_values_def)+
    then show ?thesis
      using Cons.prems set_om_insert [of k "om_at (c_entries c) k @ [v]" "c_entries c"]
      by (auto simp: AddKeyValuePair_def om_push_def plain_values_def)
  qed
  then show ?case using Cons.IH by simp
qed simp

lemma written_ok:
  shows "plain_values (written ps tbs)" "entries_ok (written ps tbs)"
proof -
  have "plain_values (add_pairs ps empty_config)"
    by (rule plain_values_add_pairs) (simp add: plain_values_def empty_config_def)
  then show "plain_values (written ps tbs)" by (simp add: plain_values_def written_entries)
  show "entries_ok (written ps tbs)"
    unfolding written_def by (induction tbs rule: rev_induct) (auto simp: entries_ok_add_pairs add_blocks_keeps(2))
qed

lemma written_names: "fst ` set (c_entries (written ps tbs)) \<subseteq> fst ` set ps"
  using keys_add_pairs [of ps empty_config] by (simp add: written_entries empty_config_def)

text \<open>Entries, read by the name in lower case.\<close>

lemma written_entry:
  assumes "inj_on AsLower K" and "fst ` set ps \<subseteq> K" and "k \<in> K" and "k \<noteq> []"
  shows "om_at (c_entries (lower_config (written ps tbs))) (AsLower k) = map snd (filter (\<lambda>p. fst p = k \<and> snd p \<noteq> []) ps)"
proof -
  have "om_at (c_entries (lower_config (written ps tbs))) (AsLower k) = om_at (c_entries (written ps tbs)) k"
  proof (rule lower_entry [OF written_ok(2)], intro ballI impI)
    fix j
    assume "j \<in> fst ` set (c_entries (written ps tbs))" "AsLower j = AsLower k"
    moreover from this(1) have "j \<in> K" using written_names assms(2) by blast
    ultimately show "j = k" using assms(1,3) by (simp add: inj_on_eq_iff)
  qed
  also have "\<dots> = map snd (filter (\<lambda>p. fst p = k \<and> snd p \<noteq> []) ps)"
    using om_at_add_pairs [OF assms(4), of ps empty_config] by (simp add: written_entries empty_config_def)
  finally show ?thesis .
qed

lemma written_entry_none:
  assumes "fst ` set ps \<subseteq> K" and "k \<notin> AsLower ` K"
  shows "om_at (c_entries (lower_config (written ps tbs))) k = []"
proof (rule lower_entry_none, intro ballI notI)
  fix j
  assume "j \<in> fst ` set (c_entries (written ps tbs))" "AsLower j = k"
  then show False using assms written_names by blast
qed

text \<open>Blocks.\<close>

lemma written_subs_at:
  assumes "distinct (map fst tbs)" and "\<forall>e \<in> set tbs. distinct (map fst (snd e))"
  shows "om_at (c_subs (written ps tbs)) u = (case map_of tbs u of None \<Rightarrow> [] | Some bs \<Rightarrow> bs) \<and>
    (map_of tbs u = None \<longrightarrow> om_at (c_sets (written ps tbs)) u = [])"
  using assms
proof (induction tbs arbitrary: u rule: rev_induct)
  case Nil
  then show ?case by (simp add: written_def empty_config_def)
next
  case (snoc e tbs)
  obtain t bs where e: "e = (t, bs)" by (cases e)
  have w: "written ps (tbs @ [e]) = add_blocks t bs (written ps tbs)" by (simp add: written_def e)
  have t: "map_of tbs t = None" using snoc.prems(1) by (auto simp: e map_of_eq_None_iff)
  have IH: "om_at (c_subs (written ps tbs)) v = (case map_of tbs v of None \<Rightarrow> [] | Some bs \<Rightarrow> bs)"
    "map_of tbs v = None \<Longrightarrow> om_at (c_sets (written ps tbs)) v = []" for v
    using snoc.IH [of v] snoc.prems by auto
  have "fst ` set bs \<inter> set (om_at (c_sets (written ps tbs)) t) = {}" using IH(2) [OF t] by simp
  note a = om_at_add_blocks [OF _ this, of u]
  have "distinct (map fst bs)" using snoc.prems(2) by (simp add: e)
  from a [OF this] show ?case
    unfolding w using t IH [of u] by (cases "u = t") (auto simp: e map_add_def split: option.split)
qed

lemma written_subs_tags:
  assumes "distinct (map fst tbs)" and "\<forall>e \<in> set tbs. distinct (map fst (snd e))" and "e \<in> set (c_subs (written ps tbs))"
  shows "fst e \<in> fst ` set tbs \<and> distinct (map fst (snd e))"
proof -
  have ok: "om_ok (c_subs (written ps tbs))" "snd e \<noteq> []"
    using written_ok(2) [of ps tbs] assms(3) by (auto simp: entries_ok_def)
  have "map_of (c_subs (written ps tbs)) (fst e) = Some (snd e)"
    using assms(3) om_ok_distinct [OF ok(1)] by simp
  then have "om_at (c_subs (written ps tbs)) (fst e) = snd e" by (simp add: om_at_def)
  then have e: "snd e = (case map_of tbs (fst e) of None \<Rightarrow> [] | Some bs \<Rightarrow> bs)"
    using written_subs_at [OF assms(1,2), of ps "fst e"] by simp
  then obtain bs where "map_of tbs (fst e) = Some bs" "snd e = bs" using ok(2) by (auto split: option.splits)
  then show ?thesis using assms(2) by (fastforce dest: map_of_SomeD intro: rev_image_eqI)
qed

lemma written_blocks:
  assumes "inj_on AsLower (fst ` set tbs)" and "distinct (map fst tbs)" and "\<forall>e \<in> set tbs. distinct (map fst (snd e))"
  shows "om_at (c_subs (lower_config (written ps tbs))) u =
    concat (map (\<lambda>e. lower_names (snd e)) (filter (\<lambda>e. AsLower (fst e) = u) (c_subs (written ps tbs))))"
proof (rule lower_block)
  show "om_ok (c_subs (written ps tbs))" using written_ok(2) by (simp add: entries_ok_def)
  have "fst ` set (c_subs (written ps tbs)) \<subseteq> fst ` set tbs"
    using written_subs_tags [OF assms(2,3)] by blast
  then show "inj_on AsLower (fst ` set (c_subs (written ps tbs)))" by (rule inj_on_subset [OF assms(1)])
  show "\<forall>e \<in> set (c_subs (written ps tbs)). distinct (map fst (snd e))"
    using written_subs_tags [OF assms(2,3)] by blast
qed

lemma written_block:
  assumes "inj_on AsLower (fst ` set tbs)" and "distinct (map fst tbs)"
    and "\<forall>e \<in> set tbs. distinct (map fst (snd e))" and "(t, bs) \<in> set tbs"
  shows "om_at (c_subs (lower_config (written ps tbs))) (AsLower t) = lower_names bs"
proof -
  let ?ss = "c_subs (written ps tbs)"
  have u: "\<forall>j \<in> fst ` set ?ss. AsLower j = AsLower t \<longrightarrow> j = t"
  proof (intro ballI impI)
    fix j
    assume "j \<in> fst ` set ?ss" "AsLower j = AsLower t"
    moreover from this(1) have "j \<in> fst ` set tbs" using written_subs_tags [OF assms(2,3)] by auto
    moreover have "t \<in> fst ` set tbs" using assms(4) by force
    ultimately show "j = t" using assms(1) by (simp add: inj_on_eq_iff)
  qed
  have cat: "concat (map (\<lambda>e. lower_names (snd e)) xs) = lower_names (concat (map snd xs))" for xs :: "(string \<times> (string \<times> config) list) list"
    by (induction xs) (simp_all add: lower_names_def)
  have "om_ok ?ss" using written_ok(2) by (simp add: entries_ok_def)
  then have "concat (map snd (filter (\<lambda>e. AsLower (fst e) = AsLower t) ?ss)) = om_at ?ss t"
    by (rule unique_concat [OF _ u])
  also have "\<dots> = bs"
    using written_subs_at [OF assms(2,3), of ps t] assms(2,4) by simp
  finally show ?thesis unfolding written_blocks [OF assms(1-3)] cat by simp
qed

lemma written_block_none:
  assumes "inj_on AsLower (fst ` set tbs)" and "distinct (map fst tbs)"
    and "\<forall>e \<in> set tbs. distinct (map fst (snd e))" and "u \<notin> AsLower ` fst ` set tbs"
  shows "om_at (c_subs (lower_config (written ps tbs))) u = []"
proof -
  have "filter (\<lambda>e. AsLower (fst e) = u) (c_subs (written ps tbs)) = []"
    unfolding filter_empty_conv using written_subs_tags [OF assms(2,3)] assms(4) by blast
  then show ?thesis unfolding written_blocks [OF assms(1-3)] by simp
qed

lemma lower_written_ok:
  "entries_ok (lower_config (written ps tbs))" "om_ok (c_sets (lower_config (written ps tbs)))"
  by (rule lower_config_ok, rule written_ok)+

end
