(* ===== verification/Loaded_Modules.thy ===== *)
theory Loaded_Modules imports Wildcmp Config begin

text \<open>
  CModules and CModule (src/Modules.cpp): the list of loaded modules, the dispatch of a hook
  to them, loading, unloading and reloading, and what a module keeps: registry, commands,
  timers, sockets. A hook is a function of the module and of the state it may change; it
  returns or throws UNLOAD. The dynamic loader, the file system and the hooks of the global
  modules are in \<open>mod_env\<close>. A pointer to a user, network, client, timer or socket is a
  number.
\<close>

datatype mod_ret = CONTINUE | HALT | HALTMODS | HALTCORE

datatype 'a hook_end = Returned 'a | Unload

datatype mod_type = GlobalModule | UserModule | NetworkModule

record mod_command =
  cmd_sCmd :: string
  cmd_bFunc :: bool
  cmd_Args :: string
  cmd_Desc :: string

record cmodule =
  mod_eType :: mod_type
  mod_sDescription :: string
  mod_sTimers :: "(nat, string) omap"
  mod_sSockets :: "(nat, string) omap"
  mod_bDLL :: bool
  mod_pUser :: "nat option"
  mod_pNetwork :: "nat option"
  mod_pClient :: "nat option"
  mod_sModName :: string
  mod_sDataDir :: string
  mod_sArgs :: string
  mod_sModPath :: string
  mod_mssRegistry :: "(string, string) omap"
  mod_mCommands :: "(string, mod_command) omap"

record mod_pointers =
  ms_pUser :: "nat option"
  ms_pNetwork :: "nat option"
  ms_pClient :: "nat option"

record mod_info =
  mi_seType :: "mod_type list"
  mi_sDescription :: string

datatype dl_result =
    DlError "string option"
  | NoEntry
  | ModuleEntry (pcVersion: string) (pcVersionExtra: string) (pcCompileOptions: string) (mod_fill: mod_info)

record mod_env =
  me_OnModuleLoading :: "string \<Rightarrow> string \<Rightarrow> mod_type \<Rightarrow> (bool \<times> string \<times> cmodule list) option"
  me_OnModuleUnloading :: "cmodule \<Rightarrow> (bool \<times> string \<times> bool) option"
  me_OnLoad :: "cmodule \<Rightarrow> string \<Rightarrow> (bool \<times> string) option \<times> cmodule"
  me_Exists :: "string \<Rightarrow> bool"
  me_ChangeDir :: "string \<Rightarrow> string"
  me_dlopen :: "string \<Rightarrow> dl_result"
  me_Registry :: "string \<Rightarrow> (string, string) omap"
  me_sModPath :: string
  me_MODDIR :: string
  me_DATADIR :: string
  me_VERSION_STR :: string
  me_VERSION_EXTRA :: string
  me_COMPILE_OPTIONS :: string

section \<open>Finding, unloading\<close>

definition FindModule :: "string \<Rightarrow> cmodule list \<Rightarrow> cmodule option" where
  "FindModule sModule mods = List.find (\<lambda>m. equals_ci sModule (mod_sModName m)) mods"

fun remove_module :: "string \<Rightarrow> cmodule list \<Rightarrow> cmodule list" where
  "remove_module sModule [] = []"
| "remove_module sModule (m # ms) =
     (if equals_ci sModule (mod_sModName m) then ms else m # remove_module sModule ms)"

text \<open>
  UnloadModule: the answer, the message and the list. A hook that handles the unloading (the
  loaders of script modules do) tells by its third result that it has taken the module from
  the list.
\<close>

definition UnloadModule :: "mod_env \<Rightarrow> string \<Rightarrow> cmodule list \<Rightarrow> bool \<times> string \<times> cmodule list" where
  "UnloadModule E sModule mods =
     (case FindModule sModule mods of
        None \<Rightarrow> (False, ''Module ['' @ sModule @ ''] not loaded.'', mods)
      | Some pModule \<Rightarrow>
          (case me_OnModuleUnloading E pModule of
             Some (bSuccess, sRetMsg, bRemoved) \<Rightarrow>
               (bSuccess, sRetMsg, if bRemoved then remove_module sModule mods else mods)
           | None \<Rightarrow>
               if mod_bDLL pModule
               then (True, ''Module '' @ sModule @ '' unloaded.'', remove_module sModule mods)
               else (False, ''Unable to unload module '' @ sModule @ ''.'', mods)))"

text \<open>The loop of the destructor: it ends only when the list is empty.\<close>

partial_function (option) UnloadAll :: "mod_env \<Rightarrow> cmodule list \<Rightarrow> cmodule list option" where
  "UnloadAll E mods =
     (if mods = [] then Some []
      else UnloadAll E (snd (snd (UnloadModule E (mod_sModName (last mods)) mods))))"

section \<open>Dispatching a hook\<close>

definition enter_mod :: "mod_pointers \<Rightarrow> cmodule \<Rightarrow> cmodule" where
  "enter_mod P m = m
     \<lparr>mod_pClient := ms_pClient P,
      mod_pUser := (if ms_pUser P \<noteq> None then ms_pUser P else mod_pUser m),
      mod_pNetwork := (if ms_pNetwork P \<noteq> None then ms_pNetwork P else mod_pNetwork m)\<rparr>"

definition leave_mod :: "mod_pointers \<Rightarrow> cmodule \<Rightarrow> cmodule \<Rightarrow> cmodule" where
  "leave_mod P old m = m
     \<lparr>mod_pUser := (if ms_pUser P \<noteq> None then mod_pUser old else mod_pUser m),
      mod_pNetwork := (if ms_pNetwork P \<noteq> None then mod_pNetwork old else mod_pNetwork m),
      mod_pClient := mod_pClient old\<rparr>"

text \<open>
  MODHALTCHK: \<open>done\<close> are the modules already called, in order. When UNLOAD is thrown the
  pointers are not restored, and if the module really leaves the vector the loop goes on with
  an iterator that is no longer valid: the run is undefined (None).
\<close>

fun MODHALTCHK ::
    "mod_env \<Rightarrow> mod_pointers \<Rightarrow> (cmodule \<Rightarrow> 's \<Rightarrow> mod_ret hook_end \<times> cmodule \<times> 's) \<Rightarrow>
     cmodule list \<Rightarrow> cmodule list \<Rightarrow> bool \<Rightarrow> 's \<Rightarrow> (bool \<times> cmodule list \<times> 's) option" where
  "MODHALTCHK E P f done [] bHaltCore s = Some (bHaltCore, done, s)"
| "MODHALTCHK E P f done (m # ms) bHaltCore s =
     (case f (enter_mod P m) s of
        (Returned e, m1, s1) \<Rightarrow>
          (let m2 = leave_mod P m m1
           in case e of
                HALTMODS \<Rightarrow> Some (bHaltCore, done @ m2 # ms, s1)
              | HALTCORE \<Rightarrow> MODHALTCHK E P f (done @ [m2]) ms True s1
              | HALT \<Rightarrow> Some (True, done @ m2 # ms, s1)
              | CONTINUE \<Rightarrow> MODHALTCHK E P f (done @ [m2]) ms bHaltCore s1)
      | (Unload, m1, s1) \<Rightarrow>
          (let mods = done @ m1 # ms
           in if length (snd (snd (UnloadModule E (mod_sModName m1) mods))) = length mods
              then MODHALTCHK E P f (done @ [m1]) ms bHaltCore s1 else None))"

fun MODUNLOADCHK ::
    "mod_env \<Rightarrow> mod_pointers \<Rightarrow> (cmodule \<Rightarrow> 's \<Rightarrow> unit hook_end \<times> cmodule \<times> 's) \<Rightarrow>
     cmodule list \<Rightarrow> cmodule list \<Rightarrow> 's \<Rightarrow> (cmodule list \<times> 's) option" where
  "MODUNLOADCHK E P f done [] s = Some (done, s)"
| "MODUNLOADCHK E P f done (m # ms) s =
     (case f (enter_mod P m) s of
        (Returned u, m1, s1) \<Rightarrow> MODUNLOADCHK E P f (done @ [leave_mod P m m1]) ms s1
      | (Unload, m1, s1) \<Rightarrow>
          (let mods = done @ m1 # ms
           in if length (snd (snd (UnloadModule E (mod_sModName m1) mods))) = length mods
              then MODUNLOADCHK E P f (done @ [m1]) ms s1 else None))"

section \<open>Loading\<close>

text \<open>A hook that handles the loading (the loaders of script modules do) may add modules itself.\<close>

definition ValidateModuleName :: "string \<Rightarrow> bool" where
  "ValidateModuleName sModule \<longleftrightarrow>
     list_all (\<lambda>c. isdigit_c c \<or> islower_c c \<or> isupper_c c \<or> c = CHR ''_'') sModule"

definition apos :: "string \<Rightarrow> string" where
  "apos s = [CHR 0x27] @ s @ [CHR 0x27]"

definition invalid_name :: "string \<Rightarrow> string" where
  "invalid_name sModule = ''Module names can only contain letters, numbers and underscores, ['' @
     sModule @ ''] is invalid''"

definition GetModDirs :: "mod_env \<Rightarrow> (string \<times> string) list" where
  "GetModDirs E = [(me_sModPath E @ ''/'', me_sModPath E @ ''/''), (me_MODDIR E @ ''/'', me_DATADIR E @ ''/modules/'')]"

definition FindModPath :: "mod_env \<Rightarrow> string \<Rightarrow> (string \<times> string) option" where
  "FindModPath E sModule =
     (let sMod = (if CHR ''.'' \<in> set sModule then sModule else sModule @ ''.so'')
      in map_option (\<lambda>(d, data). (d @ sMod, data @ sModule)) (List.find (\<lambda>(d, _). me_Exists E (d @ sMod)) (GetModDirs E)))"

definition OpenModule :: "mod_env \<Rightarrow> string \<Rightarrow> string \<Rightarrow> string + mod_info" where
  "OpenModule E sModule sModPath =
     (if \<not> ValidateModuleName sModule then Inl (invalid_name sModule)
      else (case me_dlopen E (c_str sModPath) of
          DlError e \<Rightarrow> Inl (''Unable to open module '' @ sModule @ '': '' @
              (case e of Some s \<Rightarrow> s | None \<Rightarrow> ''Unknown error''))
        | NoEntry \<Rightarrow> Inl (''Could not find ZNCModuleEntry in module '' @ sModule)
        | ModuleEntry v x o1 info \<Rightarrow>
            if v \<noteq> me_VERSION_STR E \<or> x \<noteq> me_VERSION_EXTRA E then
              Inl (''Version mismatch for module '' @ sModule @ '': core is '' @ me_VERSION_STR E @
                me_VERSION_EXTRA E @ '', module is built for '' @ v @ x @ ''. Recompile this module.'')
            else if o1 \<noteq> me_COMPILE_OPTIONS E then
              Inl (''Module '' @ sModule @ '' is built incompatibly: core is '' @ apos (me_COMPILE_OPTIONS E) @
                '', module is '' @ apos o1 @ ''. Recompile this module.'')
            else Inr info))"

definition ModuleTypeToString :: "mod_type \<Rightarrow> string" where
  "ModuleTypeToString t = (case t of GlobalModule \<Rightarrow> ''Global'' | UserModule \<Rightarrow> ''User'' | NetworkModule \<Rightarrow> ''Network'')"

definition mk_module ::
    "mod_env \<Rightarrow> nat option \<Rightarrow> nat option \<Rightarrow> string \<Rightarrow> string \<Rightarrow> mod_type \<Rightarrow> cmodule" where
  "mk_module E pUser pNetwork sModName sDataDir eType =
     \<lparr>mod_eType = eType, mod_sDescription = [], mod_sTimers = [], mod_sSockets = [], mod_bDLL = True,
      mod_pUser = pUser, mod_pNetwork = pNetwork, mod_pClient = None, mod_sModName = sModName,
      mod_sDataDir = sDataDir, mod_sArgs = [], mod_sModPath = [], mod_mssRegistry = me_Registry E sModName,
      mod_mCommands = []\<rparr>"

definition LoadModule ::
    "mod_env \<Rightarrow> string \<Rightarrow> string \<Rightarrow> mod_type \<Rightarrow> nat option \<Rightarrow> nat option \<Rightarrow> cmodule list \<Rightarrow>
     bool \<times> string \<times> cmodule list" where
  "LoadModule E sModule sArgs eType pUser pNetwork mods =
     (if \<not> ValidateModuleName sModule then (False, invalid_name sModule, mods)
      else if FindModule sModule mods \<noteq> None then (False, ''Module '' @ sModule @ '' already loaded.'', mods)
      else (case me_OnModuleLoading E sModule sArgs eType of
          Some (bSuccess, sRetMsg, added) \<Rightarrow> (bSuccess, sRetMsg, mods @ added)
        | None \<Rightarrow>
      (case FindModPath E sModule of
          None \<Rightarrow> (False, ''Unable to find module '' @ sModule, mods)
        | Some (sModPath, sDataPath) \<Rightarrow>
      (case OpenModule E sModule sModPath of
          Inl sRetMsg \<Rightarrow> (False, sRetMsg, mods)
        | Inr Info \<Rightarrow>
            if eType \<notin> set (mi_seType Info) then
              (False, ''Module '' @ sModule @ '' does not support module type '' @ ModuleTypeToString eType @ ''.'', mods)
            else if pUser = None \<and> eType = UserModule then (False, ''Module '' @ sModule @ '' requires a user.'', mods)
            else if pNetwork = None \<and> eType = NetworkModule then
              (False, ''Module '' @ sModule @ '' requires a network.'', mods)
            else
              (let pModule = (mk_module E pUser pNetwork sModule sDataPath eType)
                     \<lparr>mod_sDescription := mi_sDescription Info, mod_sArgs := sArgs,
                      mod_sModPath := me_ChangeDir E sModPath\<rparr>;
                   (r, pModule1) = me_OnLoad E pModule sArgs;
                   (bLoaded, sMsg) = (case r of Some x \<Rightarrow> x | None \<Rightarrow> (False, ''Caught an exception''));
                   mods1 = mods @ [pModule1]
               in if \<not> bLoaded then
                    (False, (if sMsg \<noteq> [] then ''Module '' @ sModule @ '' aborted: '' @ sMsg
                             else ''Module '' @ sModule @ '' aborted.''), snd (snd (UnloadModule E sModule mods1)))
                  else (True, (if sMsg \<noteq> [] then sMsg @ '' '' else sMsg) @ ''['' @ sModPath @ '']'', mods1))))))"

definition ReloadModule ::
    "mod_env \<Rightarrow> string \<Rightarrow> string \<Rightarrow> nat option \<Rightarrow> nat option \<Rightarrow> cmodule list \<Rightarrow> bool \<times> string \<times> cmodule list" where
  "ReloadModule E sModule sArgs pUser pNetwork mods =
     (case FindModule sModule mods of
        None \<Rightarrow> (False, ''Module ['' @ sModule @ ''] not loaded.'', mods)
      | Some pModule \<Rightarrow>
          (case UnloadModule E sModule mods of
             (False, sRetMsg, mods1) \<Rightarrow> (False, sRetMsg, mods1)
           | (True, _, mods1) \<Rightarrow>
               (case LoadModule E sModule sArgs (mod_eType pModule) pUser pNetwork mods1 of
                  (False, sRetMsg, mods2) \<Rightarrow> (False, sRetMsg, mods2)
                | (True, _, mods2) \<Rightarrow> (True, ''Reloaded module '' @ sModule @ ''.'', mods2))))"

definition GetModPathInfo :: "mod_env \<Rightarrow> string \<Rightarrow> string \<Rightarrow> string + mod_info" where
  "GetModPathInfo E sModule sModPath =
     (if \<not> ValidateModuleName sModule then Inl (invalid_name sModule) else OpenModule E sModule sModPath)"

definition GetModInfo ::
    "mod_env \<Rightarrow> (string \<Rightarrow> (string + mod_info) option) \<Rightarrow> string \<Rightarrow> string + mod_info" where
  "GetModInfo E OnGetModInfo sModule =
     (if \<not> ValidateModuleName sModule then Inl (invalid_name sModule)
      else (case OnGetModInfo sModule of Some r \<Rightarrow> r
        | None \<Rightarrow> (case FindModPath E sModule of
             None \<Rightarrow> Inl (''Unable to find module '' @ sModule @ ''.'')
           | Some (sModPath, _) \<Rightarrow> GetModPathInfo E sModule sModPath)))"

section \<open>What a module keeps\<close>

definition SetNV :: "string \<Rightarrow> string \<Rightarrow> cmodule \<Rightarrow> cmodule" where
  "SetNV sName sValue m = m \<lparr>mod_mssRegistry := om_insert sName sValue (mod_mssRegistry m)\<rparr>"

definition GetNV :: "string \<Rightarrow> cmodule \<Rightarrow> string" where
  "GetNV sName m = (case map_of (mod_mssRegistry m) sName of Some v \<Rightarrow> v | None \<Rightarrow> [])"

definition DelNV :: "string \<Rightarrow> cmodule \<Rightarrow> bool \<times> cmodule" where
  "DelNV sName m =
     (if map_of (mod_mssRegistry m) sName = None then (False, m)
      else (True, m \<lparr>mod_mssRegistry := om_erase sName (mod_mssRegistry m)\<rparr>))"

definition ClearNV :: "cmodule \<Rightarrow> cmodule" where
  "ClearNV m = m \<lparr>mod_mssRegistry := []\<rparr>"

definition FindTimer :: "string \<Rightarrow> cmodule \<Rightarrow> nat option" where
  "FindTimer sLabel m =
     (if sLabel = [] then None
      else map_option fst (List.find (\<lambda>t. equals_ci (snd t) sLabel) (mod_sTimers m)))"

text \<open>The second result: the timer was handed to the socket manager.\<close>

definition AddTimer :: "nat \<Rightarrow> string \<Rightarrow> cmodule \<Rightarrow> bool \<times> bool \<times> cmodule" where
  "AddTimer pTimer sLabel m =
     (if sLabel \<noteq> [] \<and> FindTimer sLabel m \<noteq> None then (False, False, m)
      else if map_of (mod_sTimers m) pTimer \<noteq> None then (True, False, m)
      else (True, True, m \<lparr>mod_sTimers := om_insert pTimer sLabel (mod_sTimers m)\<rparr>))"

definition RemTimer :: "nat \<Rightarrow> cmodule \<Rightarrow> bool \<times> cmodule" where
  "RemTimer pTimer m =
     (if map_of (mod_sTimers m) pTimer = None then (False, m)
      else (True, m \<lparr>mod_sTimers := om_erase pTimer (mod_sTimers m)\<rparr>))"

definition RemTimer_label :: "string \<Rightarrow> cmodule \<Rightarrow> bool \<times> cmodule" where
  "RemTimer_label sLabel m =
     (case FindTimer sLabel m of None \<Rightarrow> (False, m) | Some pTimer \<Rightarrow> RemTimer pTimer m)"

definition AddSocket :: "nat \<Rightarrow> string \<Rightarrow> cmodule \<Rightarrow> cmodule" where
  "AddSocket pSocket sName m =
     (if map_of (mod_sSockets m) pSocket \<noteq> None then m
      else m \<lparr>mod_sSockets := om_insert pSocket sName (mod_sSockets m)\<rparr>)"

definition FindSocket :: "string \<Rightarrow> cmodule \<Rightarrow> nat option" where
  "FindSocket sSockName m = map_option fst (List.find (\<lambda>s. equals_ci (snd s) sSockName) (mod_sSockets m))"

definition RemSocket :: "nat \<Rightarrow> cmodule \<Rightarrow> bool \<times> cmodule" where
  "RemSocket pSocket m =
     (if map_of (mod_sSockets m) pSocket = None then (False, m)
      else (True, m \<lparr>mod_sSockets := om_erase pSocket (mod_sSockets m)\<rparr>))"

definition RemSocket_name :: "string \<Rightarrow> cmodule \<Rightarrow> bool \<times> cmodule" where
  "RemSocket_name sSockName m =
     (case FindSocket sSockName m of None \<Rightarrow> (False, m) | Some pSocket \<Rightarrow> RemSocket pSocket m)"

definition FindCommand :: "string \<Rightarrow> cmodule \<Rightarrow> mod_command option" where
  "FindCommand sCmd m = map_option snd (List.find (\<lambda>e. equals_ci (fst e) sCmd) (mod_mCommands m))"

definition AddCommand :: "mod_command \<Rightarrow> cmodule \<Rightarrow> bool \<times> cmodule" where
  "AddCommand Command m =
     (if \<not> cmd_bFunc Command then (False, m)
      else if CHR '' '' \<in> set (cmd_sCmd Command) then (False, m)
      else if FindCommand (cmd_sCmd Command) m \<noteq> None then (False, m)
      else (True, m \<lparr>mod_mCommands := om_insert (cmd_sCmd Command) Command (mod_mCommands m)\<rparr>))"

definition RemCommand :: "string \<Rightarrow> cmodule \<Rightarrow> bool \<times> cmodule" where
  "RemCommand sCmd m =
     (if map_of (mod_mCommands m) sCmd = None then (False, m)
      else (True, m \<lparr>mod_mCommands := om_erase sCmd (mod_mCommands m)\<rparr>))"

text \<open>HandleCommand: the command that is called, or the text of OnUnknownModCommand.\<close>

definition HandleCommand :: "string \<Rightarrow> cmodule \<Rightarrow> string + mod_command" where
  "HandleCommand sLine m =
     (case FindCommand (token sLine 0) m of
        Some pCmd \<Rightarrow> Inr pCmd
      | None \<Rightarrow> Inl (if mod_mCommands m = [] then ''This module doesn'' @ [CHR 0x27] @ ''t implement any commands.''
                    else ''Unknown command!''))"

text \<open>The rows of the help table: command with arguments, and description.\<close>

definition AddHelp :: "mod_command \<Rightarrow> string \<times> string" where
  "AddHelp c = (cmd_sCmd c @ (if cmd_Args c = [] then [] else '' '') @ cmd_Args c, cmd_Desc c)"

definition HandleHelpCommand :: "string \<Rightarrow> cmodule \<Rightarrow> string + (string \<times> string) list" where
  "HandleHelpCommand sLine m =
     (let sFilter = AsLower (token sLine 1);
          rows = map (AddHelp \<circ> snd) (filter (\<lambda>(k, c). let sCmd = AsLower (cmd_sCmd c) in
            sFilter = [] \<or> StartsWith sCmd sFilter CaseSensitive \<or> WildCmp sFilter sCmd CaseSensitive) (mod_mCommands m))
      in if rows = [] then Inl (''No matches for '' @ apos sFilter) else Inr rows)"

section \<open>The list of modules\<close>

definition mods_unique :: "cmodule list \<Rightarrow> bool" where
  "mods_unique mods \<longleftrightarrow> distinct (map (\<lambda>m. AsLower (c_str (mod_sModName m))) mods)"

lemma FindModule_None: "FindModule s mods = None \<longleftrightarrow> (\<forall>m \<in> set mods. \<not> equals_ci s (mod_sModName m))"
  by (auto simp: FindModule_def find_None_iff)

lemma FindModule_in: "FindModule s mods = Some m \<Longrightarrow> m \<in> set mods \<and> equals_ci s (mod_sModName m)"
  by (auto simp: FindModule_def find_Some_iff)

lemma remove_module_absent: "FindModule s mods = None \<Longrightarrow> remove_module s (mods @ [m]) =
    mods @ (if equals_ci s (mod_sModName m) then [] else [m])"
  by (induction mods) (auto simp: FindModule_def split: if_splits)

lemma length_remove_module: "FindModule s mods \<noteq> None \<Longrightarrow> Suc (length (remove_module s mods)) = length mods"
  by (induction mods) (auto simp: FindModule_def split: if_splits)

lemma set_remove_module: "set (remove_module s mods) \<subseteq> set mods"
  by (induction mods) auto

lemma mods_unique_remove: "mods_unique mods \<Longrightarrow> mods_unique (remove_module s mods)"
proof (induction mods)
  case (Cons m ms)
  then show ?case using set_remove_module [of s ms] by (auto simp: mods_unique_def)
qed simp

lemma mods_unique_UnloadModule: "mods_unique mods \<Longrightarrow> mods_unique (snd (snd (UnloadModule E s mods)))"
  by (auto simp: UnloadModule_def mods_unique_remove split: option.split)

lemma FindModule_remove: "mods_unique mods \<Longrightarrow> FindModule s (remove_module s mods) = None"
proof (induction mods)
  case (Cons m ms)
  have "FindModule s ms = None" if "equals_ci s (mod_sModName m)"
    using Cons.prems that by (auto simp: FindModule_None mods_unique_def equals_ci_iff)
  then show ?case using Cons by (auto simp: mods_unique_def FindModule_def)
qed (simp add: FindModule_def)

definition env_ok :: "mod_env \<Rightarrow> bool" where
  "env_ok E \<longleftrightarrow> (\<forall>m sArgs. mod_sModName (snd (me_OnLoad E m sArgs)) = mod_sModName m \<and>
     mod_bDLL (snd (me_OnLoad E m sArgs)) = mod_bDLL m) \<and>
   (\<forall>s a t b r ms. me_OnModuleLoading E s a t = Some (b, r, ms) \<longrightarrow> ms = [] \<or> (\<exists>m. ms = [m] \<and> mod_sModName m = s))"

text \<open>What LoadModule does to the list: nothing, or the module at its end; after a failing OnLoad it is unloaded.\<close>

lemma LoadModule_list:
  assumes "env_ok E"
  obtains "snd (snd (LoadModule E s a t u n mods)) = mods" "me_OnModuleLoading E s a t = None \<longrightarrow> \<not> fst (LoadModule E s a t u n mods)"
  | m where "FindModule s mods = None" "mod_sModName m = s" "me_OnModuleLoading E s a t = None \<longrightarrow> fst (LoadModule E s a t u n mods)"
      "snd (snd (LoadModule E s a t u n mods)) = mods @ [m]"
  | m where "FindModule s mods = None" "mod_sModName m = s" "mod_bDLL m" "\<not> fst (LoadModule E s a t u n mods)"
      "snd (snd (LoadModule E s a t u n mods)) = snd (snd (UnloadModule E s (mods @ [m])))"
proof (cases "ValidateModuleName s \<and> FindModule s mods = None \<and> me_OnModuleLoading E s a t = None")
  case False
  show ?thesis
  proof (cases "ValidateModuleName s \<and> FindModule s mods = None")
    case inv: False
    then show ?thesis by (intro that(1)) (auto simp: LoadModule_def)
  next
    case True
    with False obtain b r ms where on: "me_OnModuleLoading E s a t = Some (b, r, ms)" by (cases "me_OnModuleLoading E s a t") auto
    from assms on consider "ms = []" | m where "ms = [m]" "mod_sModName m = s" unfolding env_ok_def by blast
    then show ?thesis
    proof cases
      case 1
      with True on show ?thesis by (intro that(1)) (simp_all add: LoadModule_def)
    next
      case (2 m)
      with True on show ?thesis by (intro that(2) [of m]) (simp_all add: LoadModule_def)
    qed
  qed
next
  case loading: True
  show ?thesis
  proof (cases "FindModPath E s")
    case None
    with loading show ?thesis by (intro that(1)) (simp_all add: LoadModule_def)
  next
    case (Some pd)
    obtain p d where pd: "pd = (p, d)" by (cases pd)
    show ?thesis
    proof (cases "OpenModule E s p")
      case (Inl e)
      with Some loading show ?thesis by (intro that(1)) (simp_all add: LoadModule_def pd)
    next
      case (Inr Info)
      let ?m = "(mk_module E u n s d t) \<lparr>mod_sDescription := mi_sDescription Info, mod_sArgs := a, mod_sModPath := me_ChangeDir E p\<rparr>"
      obtain r m1 where on: "me_OnLoad E ?m a = (r, m1)" by fastforce
      have "mod_sModName m1 = mod_sModName ?m" "mod_bDLL m1 = mod_bDLL ?m"
        using assms [unfolded env_ok_def, THEN conjunct1, rule_format, of ?m a] unfolding on by simp_all
      then have nm: "mod_sModName m1 = s" "mod_bDLL m1" by (simp_all add: mk_module_def)
      show ?thesis
      proof (cases "t \<in> set (mi_seType Info) \<and> (u = None \<longrightarrow> t \<noteq> UserModule) \<and> (n = None \<longrightarrow> t \<noteq> NetworkModule)")
        case False
        with Some Inr loading show ?thesis by (intro that(1)) (auto simp: LoadModule_def pd)
      next
        case True
        show ?thesis
        proof (cases "case r of Some x \<Rightarrow> fst x | None \<Rightarrow> False")
          case t: True
          show ?thesis
            by (rule that(2) [of m1]) (use True Some Inr loading t nm on in \<open>auto simp: LoadModule_def pd Let_def split: option.splits\<close>)
        next
          case f: False
          show ?thesis
            by (rule that(3) [of m1]) (use True Some Inr loading f nm on in \<open>auto simp: LoadModule_def pd Let_def split: option.splits\<close>)
        qed
      qed
    qed
  qed
qed

lemma mods_unique_snoc: "FindModule (mod_sModName m) mods = None \<Longrightarrow> mods_unique mods \<Longrightarrow> mods_unique (mods @ [m])"
  by (auto simp: mods_unique_def FindModule_None equals_ci_iff)

lemma mods_unique_LoadModule: "env_ok E \<Longrightarrow> mods_unique mods \<Longrightarrow> mods_unique (snd (snd (LoadModule E s a t u n mods)))"
  by (rule LoadModule_list [of E s a t u n mods]) (auto intro!: mods_unique_snoc mods_unique_UnloadModule)

lemma mods_unique_ReloadModule:
  assumes "env_ok E" and "mods_unique mods"
  shows "mods_unique (snd (snd (ReloadModule E s a u n mods)))"
proof (cases "FindModule s mods")
  case (Some m)
  have 1: "mods_unique (snd (snd (UnloadModule E s mods)))" using assms(2) by (rule mods_unique_UnloadModule)
  obtain b r m1 where un: "UnloadModule E s mods = (b, r, m1)" by (cases "UnloadModule E s mods")
  obtain b2 r2 m2 where ld: "LoadModule E s a (mod_eType m) u n m1 = (b2, r2, m2)" by (cases "LoadModule E s a (mod_eType m) u n m1")
  have "mods_unique m2" using mods_unique_LoadModule [OF assms(1), of m1 s a "mod_eType m" u n] 1 un ld by simp
  then show ?thesis using Some un ld 1 by (auto simp: ReloadModule_def split: bool.split)
qed (use assms in \<open>simp add: ReloadModule_def\<close>)

lemma LoadModule_failed:
  assumes "env_ok E" and "me_OnModuleLoading E s a t = None" and "\<forall>m. me_OnModuleUnloading E m = None"
    and "\<not> fst (LoadModule E s a t u n mods)"
  shows "snd (snd (LoadModule E s a t u n mods)) = mods"
proof (rule LoadModule_list [OF assms(1), of s a t u n mods])
  fix m
  assume m: "FindModule s mods = None" "mod_sModName m = s" "mod_bDLL m"
    "snd (snd (LoadModule E s a t u n mods)) = snd (snd (UnloadModule E s (mods @ [m])))"
  have "FindModule s (mods @ [m]) = Some m"
    using m(1,2) by (induction mods) (auto simp: FindModule_def split: if_splits)
  then show ?thesis using m assms(3) remove_module_absent [OF m(1), of m] by (simp add: UnloadModule_def)
qed (use assms(2,4) in simp_all)

section \<open>The dispatch of a hook\<close>

text \<open>The answers when every module is called, each in the state the one before left.\<close>

fun hook_steps ::
    "mod_pointers \<Rightarrow> (cmodule \<Rightarrow> 's \<Rightarrow> 'r hook_end \<times> cmodule \<times> 's) \<Rightarrow> cmodule list \<Rightarrow> 's \<Rightarrow> ('r hook_end \<times> cmodule \<times> 's) list" where
  "hook_steps P f [] s = []"
| "hook_steps P f (m # ms) s =
     (case f (enter_mod P m) s of (e, m1, s1) \<Rightarrow> (e, leave_mod P m m1, s1) # hook_steps P f ms s1)"

definition stops :: "mod_ret hook_end \<Rightarrow> bool" where
  "stops e \<longleftrightarrow> e = Returned HALT \<or> e = Returned HALTMODS"

definition halts_core :: "mod_ret hook_end \<Rightarrow> bool" where
  "halts_core e \<longleftrightarrow> e = Returned HALT \<or> e = Returned HALTCORE"

fun until_stop :: "(mod_ret hook_end \<times> cmodule \<times> 's) list \<Rightarrow> (mod_ret hook_end \<times> cmodule \<times> 's) list" where
  "until_stop [] = []"
| "until_stop (x # xs) = x # (if stops (fst x) then [] else until_stop xs)"

definition last_state :: "'s \<Rightarrow> ('r hook_end \<times> cmodule \<times> 's) list \<Rightarrow> 's" where
  "last_state s xs = (if xs = [] then s else snd (snd (last xs)))"

lemma MODHALTCHK_steps:
  assumes "\<forall>x \<in> set (until_stop (hook_steps P f ms s)). fst x \<noteq> Unload"
  shows "MODHALTCHK E P f ds ms b s = Some (b \<or> (\<exists>x \<in> set (until_stop (hook_steps P f ms s)). halts_core (fst x)),
    ds @ map (fst \<circ> snd) (until_stop (hook_steps P f ms s)) @ drop (length (until_stop (hook_steps P f ms s))) ms,
    last_state s (until_stop (hook_steps P f ms s)))"
  using assms
proof (induction ms arbitrary: ds b s)
  case Nil
  then show ?case by (simp add: last_state_def)
next
  case (Cons m ms)
  obtain e m1 s1 where f: "f (enter_mod P m) s = (e, m1, s1)" by (cases "f (enter_mod P m) s")
  from Cons.prems obtain r where e: "e = Returned r" by (cases e) (auto simp: f)
  note IH = Cons.IH [of s1]
  show ?case
    using Cons.prems IH by (cases r) (auto simp: f e stops_def halts_core_def last_state_def)
qed

lemma MODUNLOADCHK_steps:
  assumes "\<forall>x \<in> set (hook_steps P f ms s). fst x \<noteq> Unload"
  shows "MODUNLOADCHK E P f ds ms s =
    Some (ds @ map (fst \<circ> snd) (hook_steps P f ms s), last_state s (hook_steps P f ms s))"
  using assms
proof (induction ms arbitrary: ds s)
  case Nil
  then show ?case by (simp add: last_state_def)
next
  case (Cons m ms)
  obtain e m1 s1 where f: "f (enter_mod P m) s = (e, m1, s1)" by (cases "f (enter_mod P m) s")
  from Cons.prems obtain r where e: "e = Returned r" by (cases e) (auto simp: f)
  show ?case using Cons.prems Cons.IH [of s1] by (auto simp: f e last_state_def)
qed

lemma UnloadModule_shorter:
  assumes "me_OnModuleUnloading E m = None" and "FindModule s mods = Some m" and "mod_bDLL m"
  shows "Suc (length (snd (snd (UnloadModule E s mods)))) = length mods"
  using assms length_remove_module [of s mods] by (simp add: UnloadModule_def)

lemma FindModule_own:
  assumes "mods_unique mods" and "m \<in> set mods"
  shows "FindModule (mod_sModName m) mods = Some m"
  using assms
proof (induction mods)
  case (Cons x mods)
  have "\<not> equals_ci (mod_sModName m) (mod_sModName x)" if "x \<noteq> m"
    using Cons.prems that by (metis (no_types, lifting) distinct.simps(2) equals_ci_iff imageI list.set_map list.simps(9) mods_unique_def set_ConsD)
  moreover have "mods_unique mods" using Cons.prems(1) by (simp add: mods_unique_def)
  ultimately show ?case using Cons by (cases "x = m") (auto simp: FindModule_def)
qed simp

text \<open>A module that throws UNLOAD and is unloaded breaks the loop.\<close>

lemma MODHALTCHK_unload:
  assumes "f (enter_mod P m) s = (Unload, m1, s1)" and "mods_unique (ds @ m1 # ms)"
    and "me_OnModuleUnloading E m1 = None" and "mod_bDLL m1"
  shows "MODHALTCHK E P f ds (m # ms) b s = None"
  using UnloadModule_shorter [OF assms(3) FindModule_own [OF assms(2)] assms(4)] assms(1) by (simp add: Let_def)

section \<open>Unloading all modules\<close>

lemma UnloadAll_ends:
  assumes "\<forall>m \<in> set mods. me_OnModuleUnloading E m = None \<and> mod_bDLL m"
  shows "UnloadAll E mods = Some []"
  using assms
proof (induction mods rule: length_induct)
  case (1 mods)
  show ?case
  proof (cases "mods = []")
    case True
    then show ?thesis by (simp add: UnloadAll.simps)
  next
    case False
    let ?s = "mod_sModName (last mods)"
    have "FindModule ?s mods \<noteq> None" using last_in_set [OF False] equals_ci_refl unfolding FindModule_None by blast
    then obtain m where m: "FindModule ?s mods = Some m" "m \<in> set mods"
      using FindModule_in by blast
    have ms: "snd (snd (UnloadModule E ?s mods)) = remove_module ?s mods"
      using m 1(2) by (simp add: UnloadModule_def)
    have "length (remove_module ?s mods) < length mods" using length_remove_module [of ?s mods] m by simp
    moreover have "\<forall>m \<in> set (remove_module ?s mods). me_OnModuleUnloading E m = None \<and> mod_bDLL m"
      using 1(2) set_remove_module by blast
    ultimately show ?thesis using 1(1) False by (subst UnloadAll.simps) (simp add: ms)
  qed
qed

lemma UnloadAll_stuck:
  assumes "me_OnModuleUnloading E m = Some (b, r, False)" and "mods_unique (mods @ [m])"
  shows "UnloadAll E (mods @ [m]) = None"
proof -
  have st: "snd (snd (UnloadModule E (mod_sModName m) (mods @ [m]))) = mods @ [m]"
    using FindModule_own [OF assms(2), of m] assms(1) by (simp add: UnloadModule_def)
  have "E = E \<longrightarrow> mods @ [m] \<noteq> mods @ [m]" if r: "UnloadAll E (mods @ [m]) = Some ms" for ms
  proof (rule UnloadAll.raw_induct [where P = "\<lambda>F ns ms. F = E \<longrightarrow> ns \<noteq> mods @ [m]", OF _ r], intro impI notI)
    fix u F ns ms
    assume IH: "\<And>F ns ms. u F ns = Some ms \<Longrightarrow> F = E \<longrightarrow> ns \<noteq> mods @ [m]"
      and run: "(if ns = [] then Some [] else u F (snd (snd (UnloadModule F (mod_sModName (last ns)) ns)))) = Some ms"
      and FE: "F = E" and ns: "ns = mods @ [m]"
    have "u E (mods @ [m]) = Some ms" using run unfolding ns FE by (simp add: st)
    from IH [OF this] show False by simp
  qed
  then show ?thesis by (cases "UnloadAll E (mods @ [m])") auto
qed

section \<open>Commands and timers\<close>

definition commands_ok :: "cmodule \<Rightarrow> bool" where
  "commands_ok m \<longleftrightarrow> om_ok (mod_mCommands m) \<and>
     (\<forall>(k, c) \<in> set (mod_mCommands m). k = cmd_sCmd c \<and> cmd_bFunc c \<and> CHR '' '' \<notin> set k) \<and>
     inj_on (\<lambda>k. AsLower (c_str k)) (fst ` set (mod_mCommands m))"

lemma FindCommand_None: "FindCommand s m = None \<longleftrightarrow> (\<forall>k \<in> fst ` set (mod_mCommands m). \<not> equals_ci k s)"
  by (auto simp: FindCommand_def find_None_iff)

lemma commands_ok_AddCommand:
  assumes "commands_ok m"
  shows "commands_ok (snd (AddCommand c m))"
proof (cases "cmd_bFunc c \<and> CHR '' '' \<notin> set (cmd_sCmd c) \<and> FindCommand (cmd_sCmd c) m = None")
  case True
  have "set (om_insert (cmd_sCmd c) c (mod_mCommands m)) \<subseteq> insert (cmd_sCmd c, c) (set (mod_mCommands m))"
    by (rule set_om_insert)
  moreover have "inj_on (\<lambda>k. AsLower (c_str k)) (insert (cmd_sCmd c) (fst ` set (mod_mCommands m)))"
    using assms True by (force simp: commands_ok_def FindCommand_None equals_ci_iff)
  ultimately show ?thesis using assms True by (auto simp: commands_ok_def AddCommand_def)
qed (use assms in \<open>auto simp: AddCommand_def\<close>)

lemma commands_ok_RemCommand: "commands_ok m \<Longrightarrow> commands_ok (snd (RemCommand s m))"
  using keys_om_erase_subset [of s "mod_mCommands m"]
  by (auto simp: commands_ok_def RemCommand_def intro: inj_on_subset)

text \<open>A registered command is found under any spelling of its name.\<close>

lemma FindCommand_found:
  assumes "commands_ok m" and "(k, c) \<in> set (mod_mCommands m)" and "equals_ci k s"
  shows "FindCommand s m = Some c"
proof -
  obtain e where e: "List.find (\<lambda>e. equals_ci (fst e) s) (mod_mCommands m) = Some e"
    using assms(2,3) by (cases "List.find (\<lambda>e. equals_ci (fst e) s) (mod_mCommands m)") (auto simp: find_None_iff)
  then have in_: "e \<in> set (mod_mCommands m)" "equals_ci (fst e) s" by (auto simp: find_Some_iff)
  have "inj_on (\<lambda>k. AsLower (c_str k)) (fst ` set (mod_mCommands m))" using assms(1) by (simp add: commands_ok_def)
  moreover have "fst e \<in> fst ` set (mod_mCommands m)" "k \<in> fst ` set (mod_mCommands m)"
    using in_(1) assms(2) by force+
  moreover have "AsLower (c_str (fst e)) = AsLower (c_str k)" using in_(2) assms(3) by (simp add: equals_ci_iff)
  ultimately have "fst e = k" by (metis inj_onD)
  moreover have "snd e = c"
  proof -
    have "map_of (mod_mCommands m) k = Some c" "map_of (mod_mCommands m) (fst e) = Some (snd e)"
      using assms(1,2) in_(1) om_ok_distinct by (auto simp: commands_ok_def intro!: map_of_is_SomeI)
    then show ?thesis using \<open>fst e = k\<close> by simp
  qed
  ultimately show ?thesis by (simp add: FindCommand_def e)
qed

end
