(* ===== verification/Network_Config.thy ===== *)
theory Network_Config imports Complex_Main Network Settings Loaded_Modules Escape begin

text \<open>
  The settings of a network (CIRCNetwork, src/IRCNetwork.cpp) as the configuration file keeps
  them: the constructor, ParseConfig, ToConfig and Clone. \<open>netconf\<close> adds to \<open>network\<close> what only
  these operations and the connection use: encoding, flood protection, trust, modules.
  \<open>nc_bQueued\<close> records that the network has been handed to the connection queue. What the
  network asks its user for is in \<open>user_view\<close>; the conversions between doubles and text, the
  converters of ICU and the dynamic loader are in \<open>load_env\<close>.
\<close>

record user_view =
  uv_sUsername :: string
  uv_sNick :: string
  uv_sAltNick :: string
  uv_sIdent :: string
  uv_sRealName :: string
  uv_sBindHost :: string
  uv_sQuitMsg :: string
  uv_pUser :: nat
  uv_user :: user

record load_env =
  le_mod :: mod_env
  le_bForceEncoding :: bool
  le_converter :: "string \<Rightarrow> bool"
  le_ToDouble :: "string \<Rightarrow> real"
  le_ShowDouble :: "real \<Rightarrow> string"

record netconf =
  nc_id :: nat
  nc_net :: network
  nc_sEncoding :: string
  nc_bIRCConnectEnabled :: bool
  nc_bTrustAllCerts :: bool
  nc_bTrustPKI :: bool
  nc_fFloodRate :: real
  nc_uFloodBurst :: nat
  nc_ssTrustedFingerprints :: "string list"
  nc_mods :: "cmodule list"
  nc_bQueued :: bool

section \<open>Setters\<close>

definition FixupEncoding :: "load_env \<Rightarrow> string \<Rightarrow> string" where
  "FixupEncoding E s =
     (if \<not> le_bForceEncoding E then s
      else if s = [] then ''UTF-8''
      else let sReal = c_str (if hd s = CHR ''*'' \<or> hd s = CHR ''^'' then tl s else s)
           in if sReal = [] then ''UTF-8'' else if \<not> le_converter E sReal then ''UTF-8'' else s)"

definition with_net :: "(network \<Rightarrow> network) \<Rightarrow> netconf \<Rightarrow> netconf" where
  "with_net f nc = nc \<lparr>nc_net := f (nc_net nc)\<rparr>"

definition Net_SetNick :: "user_view \<Rightarrow> string \<Rightarrow> netconf \<Rightarrow> netconf" where
  "Net_SetNick V s = with_net (\<lambda>n. n \<lparr>net_sNick := inherited_set (uv_sNick V) s\<rparr>)"

definition Net_SetAltNick :: "user_view \<Rightarrow> string \<Rightarrow> netconf \<Rightarrow> netconf" where
  "Net_SetAltNick V s = with_net (\<lambda>n. n \<lparr>net_sAltNick := inherited_set (uv_sAltNick V) s\<rparr>)"

definition Net_SetIdent :: "user_view \<Rightarrow> string \<Rightarrow> netconf \<Rightarrow> netconf" where
  "Net_SetIdent V s = with_net (\<lambda>n. n \<lparr>net_sIdent := inherited_set (uv_sIdent V) s\<rparr>)"

definition Net_SetRealName :: "user_view \<Rightarrow> string \<Rightarrow> netconf \<Rightarrow> netconf" where
  "Net_SetRealName V s = with_net (\<lambda>n. n \<lparr>net_sRealName := inherited_set (uv_sRealName V) s\<rparr>)"

definition Net_SetBindHost :: "user_view \<Rightarrow> string \<Rightarrow> netconf \<Rightarrow> netconf" where
  "Net_SetBindHost V s = with_net (\<lambda>n. n \<lparr>net_sBindHost := inherited_set (uv_sBindHost V) s\<rparr>)"

definition Net_SetQuitMsg :: "user_view \<Rightarrow> string \<Rightarrow> netconf \<Rightarrow> netconf" where
  "Net_SetQuitMsg V s = with_net (\<lambda>n. n \<lparr>net_sQuitMsg := inherited_set (uv_sQuitMsg V) s\<rparr>)"

definition Net_SetEncoding :: "load_env \<Rightarrow> string \<Rightarrow> netconf \<Rightarrow> netconf" where
  "Net_SetEncoding E s nc = nc \<lparr>nc_sEncoding := FixupEncoding E s\<rparr>"

text \<open>What becomes of the socket is the answer: it is told to quit, or closed.\<close>

datatype sock_end = KeepSock | QuitSock | CloseSock

definition SetIRCConnectEnabled :: "bool option \<Rightarrow> bool \<Rightarrow> netconf \<Rightarrow> sock_end \<times> netconf" where
  "SetIRCConnectEnabled sock b nc =
     (let nc1 = nc \<lparr>nc_bIRCConnectEnabled := b\<rparr>
      in if b then (KeepSock, if sock = None then nc1 \<lparr>nc_bQueued := True\<rparr> else nc1)
         else (case sock of None \<Rightarrow> KeepSock | Some True \<Rightarrow> QuitSock | Some False \<Rightarrow> CloseSock, nc1))"

definition AddTrustedFingerprint :: "string \<Rightarrow> netconf \<Rightarrow> netconf" where
  "AddTrustedFingerprint sFP nc = nc
     \<lparr>nc_ssTrustedFingerprints := os_insert (Escape_n EHEXCOLON EHEXCOLON sFP) (nc_ssTrustedFingerprints nc)\<rparr>"

definition mk_netconf :: "nat \<Rightarrow> string \<Rightarrow> netconf" where
  "mk_netconf i sName =
     \<lparr>nc_id = i, nc_net = mk_network sName, nc_sEncoding = [], nc_bIRCConnectEnabled = True,
      nc_bTrustAllCerts = False, nc_bTrustPKI = True, nc_fFloodRate = 2, nc_uFloodBurst = 9,
      nc_ssTrustedFingerprints = [], nc_mods = [], nc_bQueued = True\<rparr>"

definition Net_LoadModule ::
    "load_env \<Rightarrow> user_view \<Rightarrow> string \<Rightarrow> string \<Rightarrow> netconf \<Rightarrow> bool \<times> string \<times> netconf" where
  "Net_LoadModule E V sModName sArgs nc =
     (case LoadModule (le_mod E) sModName sArgs NetworkModule (Some (uv_pUser V)) (Some (nc_id nc)) (nc_mods nc) of
        (b, sModRet, mods) \<Rightarrow> (b, if b then [] else sModRet, nc \<lparr>nc_mods := mods\<rparr>))"

section \<open>ParseConfig\<close>

definition net_options :: "load_env \<Rightarrow> user_view \<Rightarrow> (string \<times> (string \<Rightarrow> netconf \<Rightarrow> netconf)) list" where
  "net_options E V =
     [(''nick'', Net_SetNick V), (''altnick'', Net_SetAltNick V), (''ident'', Net_SetIdent V),
      (''realname'', Net_SetRealName V), (''bindhost'', Net_SetBindHost V),
      (''encoding'', Net_SetEncoding E), (''quitmsg'', Net_SetQuitMsg V),
      (''ircconnectenabled'', \<lambda>s nc. snd (SetIRCConnectEnabled None (ToBool s) nc)),
      (''trustallcerts'', \<lambda>s nc. nc \<lparr>nc_bTrustAllCerts := ToBool s\<rparr>),
      (''trustpki'', \<lambda>s nc. nc \<lparr>nc_bTrustPKI := ToBool s\<rparr>),
      (''floodrate'', \<lambda>s nc. nc \<lparr>nc_fFloodRate := le_ToDouble E s\<rparr>),
      (''floodburst'', \<lambda>s nc. nc \<lparr>nc_uFloodBurst := ToUShort s\<rparr>),
      (''joindelay'', \<lambda>s. with_net (\<lambda>n. n \<lparr>m_uJoinDelay := ToUShort s\<rparr>))]"

definition net_renamed :: "string \<Rightarrow> string" where
  "net_renamed s = (if s = ''away'' \<or> s = ''autoaway'' then ''awaystore''
     else if s = ''fakeonline'' then ''modules_online'' else s)"

text \<open>One entry of loadmodule: whether the parsing goes on, and the error message.\<close>

definition net_load_module ::
    "load_env \<Rightarrow> user_view \<Rightarrow> string list \<Rightarrow> string \<Rightarrow> string \<times> netconf \<Rightarrow> bool \<times> string \<times> netconf" where
  "net_load_module E V vsList sValue st =
     (let sModName = net_renamed (token sValue 0); sArgs = token_rest sValue 1
      in case Net_LoadModule E V sModName sArgs (snd st) of
           (True, _, nc) \<Rightarrow> (True, fst st, nc)
         | (False, sModRet, nc) \<Rightarrow>
             if sModName = ''q'' \<or> sModName = ''partyline'' then (False, fst st, nc)
             else if sModName = ''awaynick'' then
               (if \<exists>sLoadMod \<in> set vsList. equals_ci (token sLoadMod 0) ''simple_away'' then (True, fst st, nc)
                else (True, fst st, snd (snd (Net_LoadModule E V ''simple_away'' sArgs nc))))
             else (False, sModRet, nc))"

fun net_load_modules ::
    "load_env \<Rightarrow> user_view \<Rightarrow> string list \<Rightarrow> string list \<Rightarrow> string \<times> netconf \<Rightarrow> bool \<times> string \<times> netconf" where
  "net_load_modules E V vsList [] st = (True, fst st, snd st)"
| "net_load_modules E V vsList (v # vs) st =
     (case net_load_module E V vsList v st of
        (True, e, nc) \<Rightarrow> net_load_modules E V vsList vs (e, nc)
      | (False, e, nc) \<Rightarrow> (False, e, nc))"

definition net_chan_block ::
    "user_view \<Rightarrow> string \<Rightarrow> config \<Rightarrow> netconf \<Rightarrow> bool \<times> string \<times> netconf" where
  "net_chan_block V sChanName cfg nc =
     (let n = nc_net nc; U = uv_user V; on = IsUserOnline n;
          (pChan, rest) = chan_entries U on (mk_chan U on (IsChan n) sChanName True None, cfg)
      in if \<not> Config_empty rest then
           (False, ''Unhandled lines in config for User ['' @ uv_sUsername V @ ''], Network ['' @ net_sName n @
             ''], Channel ['' @ sChanName @ '']!'', nc)
         else (case AddChan_ptr pChan n of
             (False, _) \<Rightarrow> (False, ''Channel ['' @ m_sName pChan @ ''] defined more than once'', nc)
           | (True, n1) \<Rightarrow> (True, [], nc \<lparr>nc_net := n1\<rparr>)))"

fun net_chan_blocks ::
    "user_view \<Rightarrow> (string \<times> config) list \<Rightarrow> string \<times> netconf \<Rightarrow> bool \<times> string \<times> netconf" where
  "net_chan_blocks V [] st = (True, fst st, snd st)"
| "net_chan_blocks V ((sName, cfg) # bs) st =
     (case net_chan_block V sName cfg (snd st) of
        (True, e, nc) \<Rightarrow> net_chan_blocks V bs (e, nc)
      | (False, e, nc) \<Rightarrow> (False, e, nc))"

text \<open>Servers, fingerprints and channels: what an upgraded configuration also holds.\<close>

definition net_lists ::
    "user_view \<Rightarrow> string \<times> netconf \<Rightarrow> config \<Rightarrow> (bool \<times> string \<times> netconf) \<times> config" where
  "net_lists V st c =
     (let ((_, vsServers), c1) = FindStringVector ''server'' True c;
          nc1 = fold (\<lambda>s. with_net (\<lambda>n. snd (AddServer_str s n))) vsServers (snd st);
          ((_, vsFP), c2) = FindStringVector ''trustedserverfingerprint'' True c1;
          nc2 = fold AddTrustedFingerprint vsFP nc1;
          ((_, vsChans), c3) = FindStringVector ''chan'' True c2;
          nc3 = fold (\<lambda>s. with_net (\<lambda>n. snd (AddChan None (uv_user V) s True n))) vsChans nc2;
          ((_, blocks), c4) = FindSubConfig ''chan'' True c3
      in (net_chan_blocks V blocks (fst st, nc3), c4))"

definition Net_ParseConfig ::
    "load_env \<Rightarrow> user_view \<Rightarrow> bool \<Rightarrow> string \<Rightarrow> netconf \<Rightarrow> config \<Rightarrow> (bool \<times> string \<times> netconf) \<times> config" where
  "Net_ParseConfig E V bUpgrade sError nc c =
     (if bUpgrade then net_lists V (sError, nc) c
      else (let (nc1, c1) = parse_options (net_options E V) (nc, c);
                ((_, vsMods), c2) = FindStringVector ''loadmodule'' True c1
            in case net_load_modules E V vsMods vsMods (sError, nc1) of
                 (False, e, nc2) \<Rightarrow> ((False, e, nc2), c2)
               | (True, e, nc2) \<Rightarrow> net_lists V (e, nc2) c2))"

section \<open>ToConfig\<close>

definition unless_empty :: "string \<Rightarrow> string \<Rightarrow> (string \<times> string) list" where
  "unless_empty k v = (if v = [] then [] else [(k, v)])"

definition module_line :: "cmodule \<Rightarrow> string" where
  "module_line m = mod_sModName m @ (if mod_sArgs m = [] then [] else '' '' @ mod_sArgs m)"

definition net_pairs :: "load_env \<Rightarrow> netconf \<Rightarrow> (string \<times> string) list" where
  "net_pairs E nc =
     unless_empty ''Nick'' (net_sNick (nc_net nc)) @
     unless_empty ''AltNick'' (net_sAltNick (nc_net nc)) @
     unless_empty ''Ident'' (net_sIdent (nc_net nc)) @
     unless_empty ''RealName'' (net_sRealName (nc_net nc)) @
     unless_empty ''BindHost'' (net_sBindHost (nc_net nc)) @
     [(''IRCConnectEnabled'', bool_str (nc_bIRCConnectEnabled nc)),
      (''TrustAllCerts'', bool_str (nc_bTrustAllCerts nc)),
      (''TrustPKI'', bool_str (nc_bTrustPKI nc)),
      (''FloodRate'', le_ShowDouble E (nc_fFloodRate nc)),
      (''FloodBurst'', dec (nc_uFloodBurst nc)),
      (''JoinDelay'', dec (m_uJoinDelay (nc_net nc))),
      (''Encoding'', nc_sEncoding nc)] @
     unless_empty ''QuitMsg'' (net_sQuitMsg (nc_net nc)) @
     map (\<lambda>m. (''LoadModule'', module_line m)) (nc_mods nc) @
     map (\<lambda>s. (''Server'', Server_GetString True s)) (m_vServers (nc_net nc)) @
     map (\<lambda>s. (''TrustedServerFingerprint'', s)) (nc_ssTrustedFingerprints nc)"

definition net_blocks :: "netconf \<Rightarrow> (string \<times> config) list" where
  "net_blocks nc = map (\<lambda>c. (m_sName c, Chan_ToConfig c)) (filter m_bInConfig (m_vChans (nc_net nc)))"

definition Net_ToConfig :: "load_env \<Rightarrow> netconf \<Rightarrow> config" where
  "Net_ToConfig E nc = add_blocks ''Chan'' (net_blocks nc) (add_pairs (net_pairs E nc) empty_config)"

section \<open>Clone\<close>

text \<open>
  Servers: the current one stays current if a server of its name is still there; otherwise the
  next one is the first, and a connected socket quits.
\<close>

definition Net_clone_servers :: "bool \<Rightarrow> network \<Rightarrow> network \<Rightarrow> client_out list \<times> sock_end \<times> network" where
  "Net_clone_servers bSock src n =
     (let sServer = (case GetCurrentServer n of Some s \<Rightarrow> srv_sName s | None \<Rightarrow> []);
          n1 = fold (\<lambda>s n. snd (AddServer s n)) (m_vServers src) (n \<lparr>m_vServers := []\<rparr>)
      in case find_idx (\<lambda>s. equals_ci sServer (srv_sName s)) (m_vServers n1) of
           Some a \<Rightarrow> ([], KeepSock, n1 \<lparr>m_uServerIdx := a + 1\<rparr>)
         | None \<Rightarrow> (if bSock then [PutStatus ''Jumping servers because this server is no longer in the list''] else [],
               if bSock then QuitSock else KeepSock, n1 \<lparr>m_uServerIdx := length (m_vServers n1)\<rparr>))"

definition Net_clone_add_chans :: "ircsock option \<Rightarrow> user \<Rightarrow> chan list \<Rightarrow> network \<Rightarrow> network" where
  "Net_clone_add_chans so U chans n =
     fold (\<lambda>c n. case FindChan so (m_sName c) n of
         Some i \<Rightarrow> upd_chan i (SetInConfig (m_bInConfig c)) n
       | None \<Rightarrow> snd (AddChan so U (m_sName c) (m_bInConfig c) n)) chans n"

definition Net_clone_chans ::
    "play_hooks \<Rightarrow> ircsock option \<Rightarrow> user \<Rightarrow> ircsock option \<Rightarrow> network \<Rightarrow> network \<Rightarrow> client_out list \<times> network" where
  "Net_clone_chans H so U so2 src n =
     (let n1 = Net_clone_add_chans so U (m_vChans src) n;
          V = network_view so n1;
          one = (\<lambda>c. case FindChan so2 (m_sName c) src of
                  None \<Rightarrow> ([], SetInConfig False c)
                | Some i \<Rightarrow> Chan_Clone H V U (m_vChans src ! i) c);
          r = map one (m_vChans n1)
      in (concat (map fst r), n1 \<lparr>m_vChans := map snd r\<rparr>))"

text \<open>Modules: new ones are loaded, those with other arguments reloaded, those that are gone unloaded.\<close>

definition clone_mod :: "load_env \<Rightarrow> mod_type \<Rightarrow> nat \<Rightarrow> nat option \<Rightarrow> cmodule \<Rightarrow> cmodule list \<Rightarrow> cmodule list" where
  "clone_mod E t u n new cur =
     (case FindModule (mod_sModName new) cur of
        None \<Rightarrow> snd (snd (LoadModule (le_mod E) (mod_sModName new) (mod_sArgs new) t (Some u) n cur))
      | Some old \<Rightarrow>
          if mod_sArgs new \<noteq> mod_sArgs old
          then snd (snd (ReloadModule (le_mod E) (mod_sModName new) (mod_sArgs new) (Some u) n cur)) else cur)"

definition clone_mods :: "load_env \<Rightarrow> mod_type \<Rightarrow> nat \<Rightarrow> nat option \<Rightarrow> cmodule list \<Rightarrow> cmodule list \<Rightarrow> cmodule list" where
  "clone_mods E t u n src cur =
     (let cur1 = fold (clone_mod E t u n) src cur;
          ssUnloadMods = fold os_insert (map mod_sModName (filter (\<lambda>m. FindModule (mod_sModName m) src = None) cur1)) []
      in fold (\<lambda>sMod mods. snd (snd (UnloadModule (le_mod E) sMod mods))) ssUnloadMods cur1)"

definition Net_Clone ::
    "load_env \<Rightarrow> play_hooks \<Rightarrow> user_view \<Rightarrow> ircsock option \<Rightarrow> bool \<Rightarrow> user_view \<Rightarrow> ircsock option \<Rightarrow>
     netconf \<Rightarrow> bool \<Rightarrow> netconf \<Rightarrow>
     client_out list \<times> sock_end list \<times> netconf" where
  "Net_Clone E H V so bConnected W so2 src bCloneName nc0 =
     (let s = nc_net src;
          nc1 = (if bCloneName then with_net (\<lambda>n. n \<lparr>net_sName := net_sName s\<rparr>) nc0 else nc0);
          nc2 = (with_net (\<lambda>n. n \<lparr>m_uJoinDelay := m_uJoinDelay s\<rparr>) nc1)
                  \<lparr>nc_fFloodRate := nc_fFloodRate src, nc_uFloodBurst := nc_uFloodBurst src\<rparr>;
          nc3 = (Net_SetQuitMsg V (inherited_get (uv_sQuitMsg W) (net_sQuitMsg s))
                (Net_SetEncoding E (nc_sEncoding src)
                (Net_SetBindHost V (inherited_get (uv_sBindHost W) (net_sBindHost s))
                (Net_SetRealName V (inherited_get (uv_sRealName W) (net_sRealName s))
                (Net_SetIdent V (inherited_get (uv_sIdent W) (net_sIdent s))
                (Net_SetAltNick V (inherited_get (uv_sAltNick W) (net_sAltNick s))
                (Net_SetNick V (inherited_get (uv_sNick W) (net_sNick s)) nc2)))))))
                  \<lparr>nc_ssTrustedFingerprints := nc_ssTrustedFingerprints src\<rparr>;
          (out1, quit, n4) = Net_clone_servers (so \<noteq> None) s (nc_net nc3);
          (out2, n5) = Net_clone_chans H so (uv_user V) so2 s n4;
          nc6 = nc3 \<lparr>nc_net := n5,
                  nc_mods := clone_mods E NetworkModule (uv_pUser V) (Some (nc_id nc3)) (nc_mods src) (nc_mods nc3)\<rparr>;
          (last_quit, nc7) = SetIRCConnectEnabled (map_option (\<lambda>_. bConnected) so) (nc_bIRCConnectEnabled src) nc6
      in (out1 @ out2, [quit, last_quit], nc7))"

end
