(* ===== verification/User_Config.thy ===== *)
theory User_Config imports Network_Config begin

text \<open>
  CUser (src/User.cpp): the settings of a user, their setters and getters, the networks, the
  allowed hosts, the CTCP replies, ParseConfig, ToConfig and Clone. The clients that are on no
  network are known here only by their addresses (\<open>cu_vClients\<close>); the clients of the networks
  are in the networks. What CUser asks of CZNC and of the modules is in \<open>user_env\<close>. The steps
  of ParseConfig work on the error message, the user and the configuration, and tell whether
  the parsing goes on.
\<close>

datatype hash_type = HASH_NONE | HASH_MD5 | HASH_SHA256 | HASH_ARGON2ID

record cuser =
  cu_id :: nat
  cu_sUsername :: string
  cu_sCleanUsername :: string
  cu_sNick :: string
  cu_sAltNick :: string
  cu_sIdent :: string
  cu_sRealName :: string
  cu_sBindHost :: string
  cu_sDCCBindHost :: string
  cu_sPass :: string
  cu_sPassSalt :: string
  cu_sStatusPrefix :: string
  cu_sDefaultChanModes :: string
  cu_sClientEncoding :: string
  cu_sQuitMsg :: string
  cu_mssCTCPReplies :: "(string, string) omap"
  cu_sTimestampFormat :: string
  cu_sTimezone :: string
  cu_eHashType :: hash_type
  cu_bMultiClients :: bool
  cu_bDenyLoadMod :: bool
  cu_bAdmin :: bool
  cu_bDenySetBindHost :: bool
  cu_bDenySetIdent :: bool
  cu_bDenySetNetwork :: bool
  cu_bDenySetRealName :: bool
  cu_bDenySetQuitMsg :: bool
  cu_bDenySetCTCPReplies :: bool
  cu_bAutoClearChanBuffer :: bool
  cu_bAutoClearQueryBuffer :: bool
  cu_bAppendTimestamp :: bool
  cu_bPrependTimestamp :: bool
  cu_bAuthOnlyViaModule :: bool
  cu_vIRCNetworks :: "netconf list"
  cu_vClients :: "string list"
  cu_ssAllowedHosts :: "string list"
  cu_uChanBufferSize :: nat
  cu_uQueryBufferSize :: nat
  cu_uMaxJoinTries :: nat
  cu_uMaxNetworks :: nat
  cu_uMaxQueryBuffers :: nat
  cu_uMaxJoins :: nat
  cu_uNoTrafficTimeout :: nat
  cu_sSkinName :: string
  cu_sLanguage :: string
  cu_mods :: "cmodule list"

record user_env =
  ue_load :: load_env
  ue_MaxBufferSize :: nat
  ue_sStatusPrefix :: string
  ue_OnGetModInfo :: "string \<Rightarrow> (string + mod_info) option"
  ue_OnAddNetwork :: "string \<Rightarrow> string option"
  ue_OnDeleteNetwork :: "string \<Rightarrow> bool"

definition MakeCleanUserName :: "string \<Rightarrow> string" where
  "MakeCleanUserName s = Replace_n (Token s 0 False ''@'' False) ''.'' []"

definition mk_cuser :: "nat \<Rightarrow> string \<Rightarrow> cuser" where
  "mk_cuser i sUsername =
     \<lparr>cu_id = i, cu_sUsername = sUsername, cu_sCleanUsername = MakeCleanUserName sUsername,
      cu_sNick = MakeCleanUserName sUsername, cu_sAltNick = [], cu_sIdent = MakeCleanUserName sUsername,
      cu_sRealName = [], cu_sBindHost = [], cu_sDCCBindHost = [], cu_sPass = [], cu_sPassSalt = [],
      cu_sStatusPrefix = ''*'', cu_sDefaultChanModes = [], cu_sClientEncoding = [], cu_sQuitMsg = [],
      cu_mssCTCPReplies = [], cu_sTimestampFormat = ''[%H:%M:%S]'', cu_sTimezone = [], cu_eHashType = HASH_NONE,
      cu_bMultiClients = True, cu_bDenyLoadMod = False, cu_bAdmin = False, cu_bDenySetBindHost = False,
      cu_bDenySetIdent = False, cu_bDenySetNetwork = False, cu_bDenySetRealName = False,
      cu_bDenySetQuitMsg = False, cu_bDenySetCTCPReplies = False, cu_bAutoClearChanBuffer = True,
      cu_bAutoClearQueryBuffer = True, cu_bAppendTimestamp = False, cu_bPrependTimestamp = True,
      cu_bAuthOnlyViaModule = False, cu_vIRCNetworks = [], cu_vClients = [], cu_ssAllowedHosts = [],
      cu_uChanBufferSize = 50, cu_uQueryBufferSize = 50, cu_uMaxJoinTries = 10, cu_uMaxNetworks = 1,
      cu_uMaxQueryBuffers = 50, cu_uMaxJoins = 0, cu_uNoTrafficTimeout = 180, cu_sSkinName = [],
      cu_sLanguage = [], cu_mods = []\<rparr>"

section \<open>Getters\<close>

definition User_GetNick :: "cuser \<Rightarrow> bool \<Rightarrow> string" where
  "User_GetNick u bAllowDefault = (if bAllowDefault \<and> cu_sNick u = [] then cu_sCleanUsername u else cu_sNick u)"

definition User_GetAltNick :: "cuser \<Rightarrow> bool \<Rightarrow> string" where
  "User_GetAltNick u bAllowDefault = (if bAllowDefault \<and> cu_sAltNick u = [] then cu_sCleanUsername u else cu_sAltNick u)"

definition User_GetIdent :: "cuser \<Rightarrow> bool \<Rightarrow> string" where
  "User_GetIdent u bAllowDefault = (if bAllowDefault \<and> cu_sIdent u = [] then cu_sCleanUsername u else cu_sIdent u)"

definition User_GetRealName :: "cuser \<Rightarrow> string" where
  "User_GetRealName u = (if Trim_n ws (cu_sRealName u) \<noteq> [] then cu_sRealName u else ''ZNC - https://znc.in'')"

definition User_GetQuitMsg :: "cuser \<Rightarrow> string" where
  "User_GetQuitMsg u = (if Trim_n ws (cu_sQuitMsg u) \<noteq> [] then cu_sQuitMsg u else ''%znc%'')"

definition user_settings :: "user_env \<Rightarrow> cuser \<Rightarrow> user" where
  "user_settings E u =
     \<lparr>u_AutoClearChanBuffer = cu_bAutoClearChanBuffer u, u_AutoClearQueryBuffer = cu_bAutoClearQueryBuffer u,
      u_ChanBufferSize = cu_uChanBufferSize u, u_QueryBufferSize = cu_uQueryBufferSize u,
      u_MaxQueryBuffers = cu_uMaxQueryBuffers u, u_MaxJoins = cu_uMaxJoins u, u_JoinTries = cu_uMaxJoinTries u,
      u_DefaultChanModes = cu_sDefaultChanModes u, u_CTCPReplies = cu_mssCTCPReplies u,
      u_MaxBufferSize = ue_MaxBufferSize E\<rparr>"

definition view_of :: "user_env \<Rightarrow> cuser \<Rightarrow> user_view" where
  "view_of E u =
     \<lparr>uv_sUsername = cu_sUsername u, uv_sNick = User_GetNick u True, uv_sAltNick = User_GetAltNick u True,
      uv_sIdent = User_GetIdent u True, uv_sRealName = User_GetRealName u, uv_sBindHost = cu_sBindHost u,
      uv_sQuitMsg = User_GetQuitMsg u, uv_pUser = cu_id u, uv_user = user_settings E u\<rparr>"

section \<open>Setters\<close>

definition map_nets :: "(netconf \<Rightarrow> netconf) \<Rightarrow> cuser \<Rightarrow> cuser" where
  "map_nets f u = u \<lparr>cu_vIRCNetworks := map f (cu_vIRCNetworks u)\<rparr>"

definition map_chans :: "(network \<Rightarrow> chan \<Rightarrow> chan) \<Rightarrow> netconf \<Rightarrow> netconf" where
  "map_chans f = with_net (\<lambda>n. n \<lparr>m_vChans := map (f n) (m_vChans n)\<rparr>)"

definition User_SetPass :: "string \<Rightarrow> hash_type \<Rightarrow> string \<Rightarrow> cuser \<Rightarrow> cuser" where
  "User_SetPass s eHash sSalt u = u \<lparr>cu_sPass := s, cu_eHashType := eHash,
     cu_sPassSalt := (if eHash = HASH_NONE \<or> eHash = HASH_ARGON2ID then [] else sSalt)\<rparr>"

definition User_SetClientEncoding :: "user_env \<Rightarrow> string \<Rightarrow> cuser \<Rightarrow> cuser" where
  "User_SetClientEncoding E s u = u \<lparr>cu_sClientEncoding := FixupEncoding (ue_load E) s\<rparr>"

definition User_SetAutoClearChanBuffer :: "bool \<Rightarrow> cuser \<Rightarrow> cuser" where
  "User_SetAutoClearChanBuffer b u =
     (map_nets (map_chans (\<lambda>n. InheritAutoClearChanBuffer (IsUserOnline n) b)) u) \<lparr>cu_bAutoClearChanBuffer := b\<rparr>"

definition SetKeepBuffer :: "bool \<Rightarrow> cuser \<Rightarrow> cuser" where
  "SetKeepBuffer b = User_SetAutoClearChanBuffer (\<not> b)"

definition SetChanBufferSize :: "user_env \<Rightarrow> nat \<Rightarrow> bool \<Rightarrow> cuser \<Rightarrow> bool \<times> cuser" where
  "SetChanBufferSize E n bForce u =
     (if \<not> bForce \<and> n > ue_MaxBufferSize E then (False, u)
      else (True, (map_nets (map_chans (\<lambda>_. InheritBufferCount (ue_MaxBufferSize E) n bForce)) u) \<lparr>cu_uChanBufferSize := n\<rparr>))"

definition SetQueryBufferSize :: "user_env \<Rightarrow> nat \<Rightarrow> bool \<Rightarrow> cuser \<Rightarrow> bool \<times> cuser" where
  "SetQueryBufferSize E n bForce u =
     (if \<not> bForce \<and> n > ue_MaxBufferSize E then (False, u)
      else (True, (map_nets (with_net (\<lambda>net. net \<lparr>m_vQueries :=
             map (\<lambda>q. q \<lparr>q_Buffer := snd (SetLineCount (ue_MaxBufferSize E) n bForce (q_Buffer q))\<rparr>) (m_vQueries net)\<rparr>)) u)
           \<lparr>cu_uQueryBufferSize := n\<rparr>))"

definition AddCTCPReply :: "string \<Rightarrow> string \<Rightarrow> cuser \<Rightarrow> bool \<times> cuser" where
  "AddCTCPReply sCTCP sReply u =
     (if CHR '' '' \<in> set sCTCP then (False, u) else if sCTCP = [] then (False, u)
      else (True, u \<lparr>cu_mssCTCPReplies := om_insert (AsUpper sCTCP) sReply (cu_mssCTCPReplies u)\<rparr>))"

definition DelCTCPReply :: "string \<Rightarrow> cuser \<Rightarrow> bool \<times> cuser" where
  "DelCTCPReply sCTCP u =
     (if map_of (cu_mssCTCPReplies u) (AsUpper sCTCP) = None then (False, u)
      else (True, u \<lparr>cu_mssCTCPReplies := om_erase (AsUpper sCTCP) (cu_mssCTCPReplies u)\<rparr>))"

definition SetStatusPrefix :: "string \<Rightarrow> cuser \<Rightarrow> bool \<times> cuser" where
  "SetStatusPrefix s u =
     (if s \<noteq> [] \<and> length s < 6 \<and> CHR '' '' \<notin> set s then (True, u \<lparr>cu_sStatusPrefix := s\<rparr>) else (False, u))"

definition SetLanguage :: "string \<Rightarrow> cuser \<Rightarrow> bool \<times> cuser" where
  "SetLanguage s u =
     (if list_all (\<lambda>c. isupper_c c \<or> islower_c c \<or> c = CHR ''-'' \<or> c = CHR ''_'') s
      then (True, u \<lparr>cu_sLanguage := Replace_n s ''_'' ''-''\<rparr>) else (False, u))"

definition AddAllowedHost :: "string \<Rightarrow> cuser \<Rightarrow> bool \<times> cuser" where
  "AddAllowedHost sHostMask u =
     (if sHostMask = [] \<or> sHostMask \<in> set (cu_ssAllowedHosts u) then (False, u)
      else (True, u \<lparr>cu_ssAllowedHosts := os_insert sHostMask (cu_ssAllowedHosts u)\<rparr>))"

definition RemAllowedHost :: "string \<Rightarrow> cuser \<Rightarrow> bool \<times> cuser" where
  "RemAllowedHost sHostMask u =
     (sHostMask \<in> set (cu_ssAllowedHosts u), u \<lparr>cu_ssAllowedHosts := removeAll sHostMask (cu_ssAllowedHosts u)\<rparr>)"

definition User_IsHostAllowed :: "(string \<Rightarrow> string \<Rightarrow> bool) \<Rightarrow> string \<Rightarrow> cuser \<Rightarrow> bool" where
  "User_IsHostAllowed CheckCIDR sHost u \<longleftrightarrow>
     cu_ssAllowedHosts u = [] \<or> (\<exists>sAllowedHost \<in> set (cu_ssAllowedHosts u). CheckCIDR sHost sAllowedHost)"

definition IsValidUserName :: "string \<Rightarrow> bool" where
  "IsValidUserName s \<longleftrightarrow> s \<noteq> [] \<and> (islower_c (chd s) \<or> isupper_c (chd s)) \<and>
     list_all (\<lambda>c. c = CHR ''@'' \<or> c = CHR ''.'' \<or> c = CHR ''-'' \<or> c = CHR ''_'' \<or> isalnum_c c) (c_str s)"

definition User_IsValid :: "bool \<Rightarrow> cuser \<Rightarrow> string option" where
  "User_IsValid bSkipPass u =
     (if \<not> bSkipPass \<and> cu_sPass u = [] then Some ''Password is empty''
      else if cu_sUsername u = [] then Some ''Username is empty''
      else if \<not> IsValidUserName (cu_sUsername u) then Some ''Username is invalid''
      else None)"

section \<open>Networks\<close>

definition User_FindNetwork :: "string \<Rightarrow> cuser \<Rightarrow> nat option" where
  "User_FindNetwork sNetwork u = find_idx (\<lambda>nc. equals_ci (net_sName (nc_net nc)) sNetwork) (cu_vIRCNetworks u)"

definition fresh_id :: "netconf list \<Rightarrow> nat" where
  "fresh_id nets = Suc (fold (\<lambda>nc. max (nc_id nc)) nets 0)"

definition AddNetwork_ptr :: "netconf \<Rightarrow> cuser \<Rightarrow> bool \<times> cuser" where
  "AddNetwork_ptr nc u =
     (if User_FindNetwork (net_sName (nc_net nc)) u \<noteq> None then (False, u)
      else (True, u \<lparr>cu_vIRCNetworks := cu_vIRCNetworks u @ [nc]\<rparr>))"

definition AddNetwork :: "user_env \<Rightarrow> string \<Rightarrow> cuser \<Rightarrow> string option \<times> cuser" where
  "AddNetwork E sNetwork u =
     (if \<not> IsValidNetwork sNetwork then
        (Some ''Invalid network name. It should be alphanumeric. Not to be confused with server name'', u)
      else if User_FindNetwork sNetwork u \<noteq> None then (Some (''Network '' @ sNetwork @ '' already exists''), u)
      else (case ue_OnAddNetwork E sNetwork of
          Some sErrorRet \<Rightarrow> (Some sErrorRet, u)
        | None \<Rightarrow> (None, snd (AddNetwork_ptr (mk_netconf (fresh_id (cu_vIRCNetworks u)) sNetwork) u))))"

definition remove_at :: "nat \<Rightarrow> 'a list \<Rightarrow> 'a list" where
  "remove_at i xs = take i xs @ drop (Suc i) xs"

definition DeleteNetwork :: "user_env \<Rightarrow> string \<Rightarrow> cuser \<Rightarrow> bool \<times> cuser" where
  "DeleteNetwork E sNetwork u =
     (case User_FindNetwork sNetwork u of
        Some i \<Rightarrow> if ue_OnDeleteNetwork E sNetwork then (False, u)
                  else (True, u \<lparr>cu_vIRCNetworks := remove_at i (cu_vIRCNetworks u)\<rparr>)
      | None \<Rightarrow> (False, u))"

definition HasSpaceForNewNetwork :: "cuser \<Rightarrow> bool" where
  "HasSpaceForNewNetwork u \<longleftrightarrow> length (cu_vIRCNetworks u) < cu_uMaxNetworks u"

section \<open>ParseConfig\<close>

type_synonym parse_user = "string \<times> cuser \<times> config"

fun run_steps :: "(parse_user \<Rightarrow> bool \<times> parse_user) list \<Rightarrow> parse_user \<Rightarrow> bool \<times> parse_user" where
  "run_steps [] st = (True, st)"
| "run_steps (f # fs) st = (case f st of (True, st') \<Rightarrow> run_steps fs st' | (False, st') \<Rightarrow> (False, st'))"

definition user_options :: "user_env \<Rightarrow> (string \<times> (string \<Rightarrow> cuser \<Rightarrow> cuser)) list" where
  "user_options E =
     [(''nick'', \<lambda>s u. u \<lparr>cu_sNick := s\<rparr>), (''quitmsg'', \<lambda>s u. u \<lparr>cu_sQuitMsg := s\<rparr>),
      (''altnick'', \<lambda>s u. u \<lparr>cu_sAltNick := s\<rparr>), (''ident'', \<lambda>s u. u \<lparr>cu_sIdent := s\<rparr>),
      (''realname'', \<lambda>s u. u \<lparr>cu_sRealName := s\<rparr>), (''chanmodes'', \<lambda>s u. u \<lparr>cu_sDefaultChanModes := s\<rparr>),
      (''bindhost'', \<lambda>s u. u \<lparr>cu_sBindHost := s\<rparr>), (''vhost'', \<lambda>s u. u \<lparr>cu_sBindHost := s\<rparr>),
      (''dccbindhost'', \<lambda>s u. u \<lparr>cu_sDCCBindHost := s\<rparr>), (''dccvhost'', \<lambda>s u. u \<lparr>cu_sDCCBindHost := s\<rparr>),
      (''timestampformat'', \<lambda>s u. u \<lparr>cu_sTimestampFormat := s\<rparr>), (''skin'', \<lambda>s u. u \<lparr>cu_sSkinName := s\<rparr>),
      (''clientencoding'', User_SetClientEncoding E),
      (''jointries'', \<lambda>s u. u \<lparr>cu_uMaxJoinTries := ToUInt s\<rparr>),
      (''maxnetworks'', \<lambda>s u. u \<lparr>cu_uMaxNetworks := ToUInt s\<rparr>),
      (''maxquerybuffers'', \<lambda>s u. u \<lparr>cu_uMaxQueryBuffers := ToUInt s\<rparr>),
      (''maxjoins'', \<lambda>s u. u \<lparr>cu_uMaxJoins := ToUInt s\<rparr>),
      (''notraffictimeout'', \<lambda>s u. u \<lparr>cu_uNoTrafficTimeout := ToUInt s\<rparr>),
      (''keepbuffer'', \<lambda>s. SetKeepBuffer (ToBool s)),
      (''autoclearchanbuffer'', \<lambda>s. User_SetAutoClearChanBuffer (ToBool s)),
      (''autoclearquerybuffer'', \<lambda>s u. u \<lparr>cu_bAutoClearQueryBuffer := ToBool s\<rparr>),
      (''multiclients'', \<lambda>s u. u \<lparr>cu_bMultiClients := ToBool s\<rparr>),
      (''denyloadmod'', \<lambda>s u. u \<lparr>cu_bDenyLoadMod := ToBool s\<rparr>),
      (''admin'', \<lambda>s u. u \<lparr>cu_bAdmin := ToBool s\<rparr>),
      (''denysetbindhost'', \<lambda>s u. u \<lparr>cu_bDenySetBindHost := ToBool s\<rparr>),
      (''denysetvhost'', \<lambda>s u. u \<lparr>cu_bDenySetBindHost := ToBool s\<rparr>),
      (''denysetident'', \<lambda>s u. u \<lparr>cu_bDenySetIdent := ToBool s\<rparr>),
      (''denysetnetwork'', \<lambda>s u. u \<lparr>cu_bDenySetNetwork := ToBool s\<rparr>),
      (''denysetrealname'', \<lambda>s u. u \<lparr>cu_bDenySetRealName := ToBool s\<rparr>),
      (''denysetquitmsg'', \<lambda>s u. u \<lparr>cu_bDenySetQuitMsg := ToBool s\<rparr>),
      (''denysetctcpreplies'', \<lambda>s u. u \<lparr>cu_bDenySetCTCPReplies := ToBool s\<rparr>),
      (''appendtimestamp'', \<lambda>s u. u \<lparr>cu_bAppendTimestamp := ToBool s\<rparr>),
      (''prependtimestamp'', \<lambda>s u. u \<lparr>cu_bPrependTimestamp := ToBool s\<rparr>),
      (''authonlyviamodule'', \<lambda>s u. u \<lparr>cu_bAuthOnlyViaModule := ToBool s\<rparr>)]"

definition user_opts :: "(string \<times> (string \<Rightarrow> cuser \<Rightarrow> cuser)) list \<Rightarrow> parse_user \<Rightarrow> bool \<times> parse_user" where
  "user_opts os st = (case st of (e, u, c) \<Rightarrow> (True, e, parse_options os (u, c)))"

definition user_vector :: "string \<Rightarrow> (string \<Rightarrow> cuser \<Rightarrow> cuser) \<Rightarrow> parse_user \<Rightarrow> bool \<times> parse_user" where
  "user_vector sName f st =
     (case st of (e, u, c) \<Rightarrow>
        (case FindStringVector sName True c of ((_, vs), c1) \<Rightarrow> (True, e, fold f vs u, c1)))"

text \<open>
  The old option bouncedccs loads a module; its registry entry depends on dcclookupmethod. A
  module of that name that the loading did not put on the list would be a null pointer.
\<close>

definition user_bouncedccs :: "user_env \<Rightarrow> parse_user \<Rightarrow> bool \<times> parse_user" where
  "user_bouncedccs E st =
     (case st of (e, u, c) \<Rightarrow>
        (let ((_, sLookup), c1) = FindStringEntry ''dcclookupmethod'' [] c;
             ((found, sValue), c2) = FindStringEntry ''bouncedccs'' [] c1
         in if \<not> found \<or> \<not> ToBool sValue then (True, e, u, c2)
            else (case LoadModule (le_mod (ue_load E)) ''bouncedcc'' [] UserModule (Some (cu_id u)) None (cu_mods u) of
                (False, sModRet, mods) \<Rightarrow> (False, sModRet, u \<lparr>cu_mods := mods\<rparr>, c2)
              | (True, _, mods) \<Rightarrow>
                  (True, e, u \<lparr>cu_mods := (if equals_ci sLookup ''Client''
                     then map (\<lambda>m. if equals_ci ''bouncedcc'' (mod_sModName m) then SetNV ''UseClientIP'' ''1'' m else m) mods
                     else mods)\<rparr>, c2))))"

definition more_options :: "user_env \<Rightarrow> (string \<times> (string \<Rightarrow> cuser \<Rightarrow> cuser)) list" where
  "more_options E =
     [(''buffer'', \<lambda>s u. snd (SetChanBufferSize E (ToUInt s) True u)),
      (''chanbuffersize'', \<lambda>s u. snd (SetChanBufferSize E (ToUInt s) True u)),
      (''querybuffersize'', \<lambda>s u. snd (SetQueryBufferSize E (ToUInt s) True u)),
      (''awaysuffix'', \<lambda>s u. u), (''autocycle'', \<lambda>s u. u), (''keepnick'', \<lambda>s u. u)]"

definition user_statusprefix :: "parse_user \<Rightarrow> bool \<times> parse_user" where
  "user_statusprefix st =
     (case st of (e, u, c) \<Rightarrow>
        (case FindStringEntry ''statusprefix'' [] c of
           ((False, _), c1) \<Rightarrow> (True, e, u, c1)
         | ((True, sValue), c1) \<Rightarrow>
             (case SetStatusPrefix sValue u of
                (True, u1) \<Rightarrow> (True, e, u1, c1)
              | (False, u1) \<Rightarrow> (False, ''Invalid StatusPrefix ['' @ sValue @ ''] Must be 1-5 chars, no spaces.'', u1, c1))))"

definition user_timestamp :: "string \<Rightarrow> cuser \<Rightarrow> cuser" where
  "user_timestamp sValue u =
     (let s = Trim_n ws sValue
      in if equals_ci s ''true'' then u
         else if equals_ci s ''append'' then u \<lparr>cu_bAppendTimestamp := True, cu_bPrependTimestamp := False\<rparr>
         else if equals_ci s ''prepend'' then u \<lparr>cu_bAppendTimestamp := False, cu_bPrependTimestamp := True\<rparr>
         else if equals_ci s ''false'' then u \<lparr>cu_bAppendTimestamp := False, cu_bPrependTimestamp := False\<rparr>
         else u \<lparr>cu_sTimestampFormat := sValue\<rparr>)"

definition last_options :: "(string \<times> (string \<Rightarrow> cuser \<Rightarrow> cuser)) list" where
  "last_options =
     [(''timezone'', \<lambda>s u. u \<lparr>cu_sTimezone := s\<rparr>), (''timezoneoffset'', \<lambda>s u. u), (''timestamp'', user_timestamp),
      (''language'', \<lambda>s u. snd (SetLanguage s u))]"

text \<open>The password line in its old forms; the result is the value that is left for the test below.\<close>

definition old_password :: "string \<Rightarrow> cuser \<Rightarrow> string \<times> cuser" where
  "old_password sValue u =
     (case TrimSuffix ''-'' sValue of
        (True, s) \<Rightarrow> (s, User_SetPass (Trim_n ws s) HASH_MD5 [] u)
      | (False, s) \<Rightarrow>
          (let sMethod = Token s 0 False ''#'' False; sPass = Token s 1 True ''#'' False
           in (s, if sMethod = ''md5'' \<or> sMethod = ''sha256''
                  then User_SetPass (Token sPass 0 False ''#'' False)
                         (if sMethod = ''sha256'' then HASH_SHA256 else HASH_MD5) (Token sPass 1 False ''#'' False) u
                  else if sMethod = ''plain'' then User_SetPass sPass HASH_NONE [] u
                  else User_SetPass s HASH_NONE [] u)))"

definition hash_method :: "string \<Rightarrow> hash_type option" where
  "hash_method sMethod =
     (if sMethod = [] \<or> equals_ci sMethod ''plain'' then Some HASH_NONE
      else if equals_ci sMethod ''md5'' then Some HASH_MD5
      else if equals_ci sMethod ''sha256'' then Some HASH_SHA256
      else if equals_ci sMethod ''Argon2id'' then Some HASH_ARGON2ID
      else None)"

definition user_password :: "parse_user \<Rightarrow> bool \<times> parse_user" where
  "user_password st =
     (case st of (e, u, c) \<Rightarrow>
        (let ((_, sValue0), c1) = FindStringEntry ''pass'' [] c;
             (sValue, u1) = old_password sValue0 u;
             ((_, subConf), c2) = FindSubConfig ''pass'' True c1
         in if sValue \<noteq> [] \<and> subConf \<noteq> [] then (False, ''Password defined more than once'', u1, c2)
            else (case subConf of
                [] \<Rightarrow> (True, e, u1, c2)
              | (_, sub) # others \<Rightarrow>
                  (let ((_, sHash), s1) = FindStringEntry ''hash'' [] sub;
                       ((_, sMethod), s2) = FindStringEntry ''method'' [] s1;
                       ((_, sSalt), s3) = FindStringEntry ''salt'' [] s2
                   in case hash_method sMethod of
                        None \<Rightarrow> (False, ''Invalid hash method'', u1, c2)
                      | Some method \<Rightarrow>
                          (let u2 = User_SetPass sHash method sSalt u1
                           in if \<not> Config_empty s3 then (False, ''Unhandled lines in config!'', u2, c2)
                              else if others \<noteq> [] then (False, ''Password defined more than once'', u2, c2)
                              else (True, e, u2, c2))))))"

definition set_net :: "nat \<Rightarrow> netconf \<Rightarrow> cuser \<Rightarrow> cuser" where
  "set_net i nc u = u \<lparr>cu_vIRCNetworks := (cu_vIRCNetworks u)[i := nc]\<rparr>"

text \<open>A network block; what it leaves in its configuration is not looked at.\<close>

definition user_network :: "user_env \<Rightarrow> string \<Rightarrow> config \<Rightarrow> string \<times> cuser \<Rightarrow> bool \<times> string \<times> cuser" where
  "user_network E sName sub st =
     (let (e, u) = st;
          u1 = (if User_FindNetwork sName u = None
                then snd (AddNetwork_ptr (mk_netconf (fresh_id (cu_vIRCNetworks u)) sName) u) else u);
          i = the (User_FindNetwork sName u1);
          ((ok, e1, nc), _) = Net_ParseConfig (ue_load E) (view_of E u1) False e (cu_vIRCNetworks u1 ! i) sub
      in (ok, e1, set_net i nc u1))"

fun user_networks :: "user_env \<Rightarrow> (string \<times> config) list \<Rightarrow> string \<times> cuser \<Rightarrow> bool \<times> string \<times> cuser" where
  "user_networks E [] st = (True, st)"
| "user_networks E ((sName, sub) # bs) st =
     (case user_network E sName sub st of (True, st1) \<Rightarrow> user_networks E bs st1 | (False, st1) \<Rightarrow> (False, st1))"

definition user_net_blocks :: "user_env \<Rightarrow> parse_user \<Rightarrow> bool \<times> parse_user" where
  "user_net_blocks E st =
     (case st of (e, u, c) \<Rightarrow>
        (case FindSubConfig ''network'' True c of ((_, bs), c1) \<Rightarrow>
          (case user_networks E bs (e, u) of (ok, e1, u1) \<Rightarrow> (ok, e1, u1, c1))))"

text \<open>Servers and channels of the user itself, from old versions, go to a network called default.\<close>

definition user_upgrade :: "user_env \<Rightarrow> parse_user \<Rightarrow> bool \<times> parse_user" where
  "user_upgrade E st =
     (case st of (e, u, c) \<Rightarrow>
        (if fst (fst (FindStringVector ''server'' False c)) \<or> fst (fst (FindStringVector ''chan'' False c)) \<or>
            fst (fst (FindSubConfig ''chan'' False c)) then
           (let u1 = (if User_FindNetwork ''default'' u = None then snd (AddNetwork E ''default'' u) else u)
            in case User_FindNetwork ''default'' u1 of
                 None \<Rightarrow> (True, e, u1, c)
               | Some i \<Rightarrow>
                   (case Net_ParseConfig (ue_load E) (view_of E u1) True e (cu_vIRCNetworks u1 ! i) c of
                      ((ok, e1, nc), c1) \<Rightarrow> (ok, e1, set_net i nc u1, c1)))
         else (True, e, u, c)))"

text \<open>
  LoadModule: a module that only supports networks is loaded in all networks that do not have
  it yet, up to the first failure.
\<close>

fun load_in_nets ::
    "user_env \<Rightarrow> user_view \<Rightarrow> string \<Rightarrow> string \<Rightarrow> netconf list \<Rightarrow> bool \<times> string \<times> netconf list" where
  "load_in_nets E V sModName sArgs [] = (True, [], [])"
| "load_in_nets E V sModName sArgs (nc # ncs) =
     (if FindModule sModName (nc_mods nc) \<noteq> None then
        (case load_in_nets E V sModName sArgs ncs of (b, r, ncs') \<Rightarrow> (b, r, nc # ncs'))
      else (case LoadModule (le_mod (ue_load E)) sModName sArgs NetworkModule (Some (uv_pUser V)) (Some (nc_id nc)) (nc_mods nc) of
          (False, sModRet, mods) \<Rightarrow> (False, sModRet, nc \<lparr>nc_mods := mods\<rparr> # ncs)
        | (True, _, mods) \<Rightarrow>
            (case load_in_nets E V sModName sArgs ncs of (b, r, ncs') \<Rightarrow> (b, r, nc \<lparr>nc_mods := mods\<rparr> # ncs'))))"

definition User_LoadModule :: "user_env \<Rightarrow> string \<Rightarrow> string \<Rightarrow> cuser \<Rightarrow> bool \<times> string \<times> cuser" where
  "User_LoadModule E sModName sArgs u =
     (case GetModInfo (le_mod (ue_load E)) (ue_OnGetModInfo E) sModName of
        Inl sModRet \<Rightarrow> (False, ''Unable to find modinfo '' @ sModName @ '': '' @ sModRet, u)
      | Inr ModInfo \<Rightarrow>
          if UserModule \<notin> set (mi_seType ModInfo) \<and> NetworkModule \<in> set (mi_seType ModInfo) then
            (case load_in_nets E (view_of E u) sModName sArgs (cu_vIRCNetworks u) of
               (b, r, nets) \<Rightarrow> (b, r, u \<lparr>cu_vIRCNetworks := nets\<rparr>))
          else (case LoadModule (le_mod (ue_load E)) sModName sArgs UserModule (Some (cu_id u)) None (cu_mods u) of
               (b, r, mods) \<Rightarrow> (b, if b then [] else r, u \<lparr>cu_mods := mods\<rparr>)))"

definition user_renamed :: "string \<Rightarrow> string" where
  "user_renamed s = (if s = ''discon_kick'' then ''disconkick'' else if s = ''admin'' then ''controlpanel''
     else if s = ''away'' then ''awaystore'' else if s = ''fakeonline'' then ''modules_online'' else s)"

definition user_charset :: "user_env \<Rightarrow> string \<Rightarrow> cuser \<Rightarrow> cuser" where
  "user_charset E sMod u =
     (let uIndex = (if equals_ci (token sMod 1) ''-force'' then 2 else 1);
          vsClient = Split (token sMod uIndex) '','' True [] [] True False;
          vsServer = Split (token sMod (uIndex + 1)) '','' True [] [] True False
      in case (vsClient, vsServer) of
           (c # _, s # _) \<Rightarrow> map_nets (Net_SetEncoding (ue_load E) s) (User_SetClientEncoding E c u)
         | _ \<Rightarrow> u)"

definition user_load_module :: "user_env \<Rightarrow> string list \<Rightarrow> string \<Rightarrow> string \<times> cuser \<Rightarrow> bool \<times> string \<times> cuser" where
  "user_load_module E vsList sMod st =
     (let (e, u) = st; sModName = user_renamed (token sMod 0); sArgs = token_rest sMod 1
      in if sModName = ''fixfreenode'' then (True, e, u)
         else if sModName = ''charset'' then (True, e, user_charset E sMod u)
         else (case User_LoadModule E sModName sArgs u of
             (True, _, u1) \<Rightarrow> (True, e, u1)
           | (False, sModRet, u1) \<Rightarrow>
               if sModName = ''awaynick'' then
                 (if ''simple_away'' \<in> set vsList then (True, e, u1)
                  else (True, e, snd (snd (User_LoadModule E ''simple_away'' sArgs u1))))
               else (False, sModRet, u1)))"

fun user_load_modules :: "user_env \<Rightarrow> string list \<Rightarrow> string list \<Rightarrow> string \<times> cuser \<Rightarrow> bool \<times> string \<times> cuser" where
  "user_load_modules E vsList [] st = (True, st)"
| "user_load_modules E vsList (v # vs) st =
     (case user_load_module E vsList v st of
        (True, st1) \<Rightarrow> user_load_modules E vsList vs st1 | (False, st1) \<Rightarrow> (False, st1))"

definition user_modules :: "user_env \<Rightarrow> parse_user \<Rightarrow> bool \<times> parse_user" where
  "user_modules E st =
     (case st of (e, u, c) \<Rightarrow>
        (case FindStringVector ''loadmodule'' True c of ((_, vsList), c1) \<Rightarrow>
          (case user_load_modules E vsList vsList (e, u) of (ok, e1, u1) \<Rightarrow> (ok, e1, u1, c1))))"

definition user_connect_option :: "(string \<times> (string \<Rightarrow> cuser \<Rightarrow> cuser)) list" where
  "user_connect_option =
     [(''ircconnectenabled'', \<lambda>s. map_nets (\<lambda>nc. snd (SetIRCConnectEnabled None (ToBool s) nc)))]"

definition User_ParseConfig :: "user_env \<Rightarrow> parse_user \<Rightarrow> bool \<times> parse_user" where
  "User_ParseConfig E = run_steps
     [user_opts (user_options E),
      user_vector ''allow'' (\<lambda>s u. snd (AddAllowedHost s u)),
      user_vector ''ctcpreply'' (\<lambda>s u. snd (AddCTCPReply (token s 0) (token_rest s 1) u)),
      user_bouncedccs E, user_opts (more_options E), user_statusprefix, user_opts last_options,
      user_password, user_net_blocks E, user_upgrade E, user_modules E, user_opts user_connect_option]"

section \<open>ToConfig\<close>

definition hash_name :: "hash_type \<Rightarrow> string" where
  "hash_name h = (case h of HASH_NONE \<Rightarrow> ''Plain'' | HASH_MD5 \<Rightarrow> ''MD5'' | HASH_SHA256 \<Rightarrow> ''SHA256'' | HASH_ARGON2ID \<Rightarrow> ''Argon2id'')"

definition pass_pairs :: "cuser \<Rightarrow> (string \<times> string) list" where
  "pass_pairs u = [(''Salt'', cu_sPassSalt u), (''Method'', hash_name (cu_eHashType u)), (''Hash'', cu_sPass u)]"

definition user_pairs :: "user_env \<Rightarrow> cuser \<Rightarrow> (string \<times> string) list" where
  "user_pairs E u =
     [(''Nick'', User_GetNick u True), (''AltNick'', User_GetAltNick u True), (''Ident'', User_GetIdent u True),
      (''RealName'', User_GetRealName u), (''BindHost'', cu_sBindHost u), (''DCCBindHost'', cu_sDCCBindHost u),
      (''QuitMsg'', User_GetQuitMsg u)] @
     (if ue_sStatusPrefix E \<noteq> cu_sStatusPrefix u then [(''StatusPrefix'', cu_sStatusPrefix u)] else []) @
     [(''Skin'', cu_sSkinName u), (''ChanModes'', cu_sDefaultChanModes u),
      (''ChanBufferSize'', dec (cu_uChanBufferSize u)), (''QueryBufferSize'', dec (cu_uQueryBufferSize u)),
      (''AutoClearChanBuffer'', bool_str (cu_bAutoClearChanBuffer u)),
      (''AutoClearQueryBuffer'', bool_str (cu_bAutoClearQueryBuffer u)),
      (''MultiClients'', bool_str (cu_bMultiClients u)), (''DenyLoadMod'', bool_str (cu_bDenyLoadMod u)),
      (''Admin'', bool_str (cu_bAdmin u)), (''DenySetBindHost'', bool_str (cu_bDenySetBindHost u)),
      (''DenySetIdent'', bool_str (cu_bDenySetIdent u)), (''DenySetNetwork'', bool_str (cu_bDenySetNetwork u)),
      (''DenySetRealName'', bool_str (cu_bDenySetRealName u)), (''DenySetQuitMsg'', bool_str (cu_bDenySetQuitMsg u)),
      (''DenySetCTCPReplies'', bool_str (cu_bDenySetCTCPReplies u)), (''TimestampFormat'', cu_sTimestampFormat u),
      (''AppendTimestamp'', bool_str (cu_bAppendTimestamp u)), (''PrependTimestamp'', bool_str (cu_bPrependTimestamp u)),
      (''AuthOnlyViaModule'', bool_str (cu_bAuthOnlyViaModule u)), (''Timezone'', cu_sTimezone u),
      (''JoinTries'', dec (cu_uMaxJoinTries u)), (''MaxNetworks'', dec (cu_uMaxNetworks u)),
      (''MaxQueryBuffers'', dec (cu_uMaxQueryBuffers u)), (''MaxJoins'', dec (cu_uMaxJoins u)),
      (''ClientEncoding'', cu_sClientEncoding u), (''Language'', cu_sLanguage u),
      (''NoTrafficTimeout'', dec (cu_uNoTrafficTimeout u))] @
     map (\<lambda>s. (''Allow'', s)) (cu_ssAllowedHosts u) @
     map (\<lambda>(k, v). (''CTCPReply'', AsUpper k @ '' '' @ v)) (cu_mssCTCPReplies u) @
     map (\<lambda>m. (''LoadModule'', module_line m)) (cu_mods u)"

definition User_ToConfig :: "user_env \<Rightarrow> cuser \<Rightarrow> config" where
  "User_ToConfig E u =
     add_blocks ''Network'' (map (\<lambda>nc. (net_sName (nc_net nc), Net_ToConfig (ue_load E) nc)) (cu_vIRCNetworks u))
       (add_pairs (user_pairs E u)
         (add_blocks ''Pass'' [(''password'', add_pairs (pass_pairs u) empty_config)] empty_config))"

end
