(* ===== verification/Znc_Config.thy ===== *)
theory Znc_Config imports User_Config begin

text \<open>
  CZNC (src/znc.cpp) and CListener (src/Listener.cpp): the global settings, the listeners and
  the users, and how they are loaded from the configuration (LoadGlobal, LoadListeners,
  LoadUsers) and written to it (WriteConfig). What CZNC asks of the system is in \<open>znc_env\<close>: to
  listen on an address, whether the certificate exists, the bit flags of the TLS protocols.
  The library is built with IPv6 and TLS. A step gives the error message, if it fails, and the
  new state.
\<close>

datatype accept_type = ACCEPT_IRC | ACCEPT_HTTP | ACCEPT_ALL

datatype addr_type = ADDR_IPV4ONLY | ADDR_IPV6ONLY | ADDR_ALL

datatype listener =
    TCPListener (lst_bSSL: bool) (lst_sURIPrefix: string) (lst_eAcceptType: accept_type)
      (lst_eAddr: addr_type) (lst_uPort: nat) (lst_sBindHost: string)
  | UnixListener (lst_bSSL: bool) (lst_sURIPrefix: string) (lst_eAcceptType: accept_type)
      (lst_sPath: string) (lst_sGid: string) (lst_iMode: int)

datatype ssl_protocol = SSLv2 | SSLv3 | TLSv1 | TLSv1_1 | TLSv1_2

record cznc =
  z_sSkinName :: string
  z_sStatusPrefix :: string
  z_sPidFile :: string
  z_sSSLCertFile :: string
  z_sSSLKeyFile :: string
  z_sSSLDHParamFile :: string
  z_sSSLCiphers :: string
  z_sSSLProtocols :: string
  z_vsTrustedProxies :: "string list"
  z_vsMotd :: "string list"
  z_ssClientCapBlacklist :: "string list"
  z_ssServerCapBlacklist :: "string list"
  z_uiConnectDelay :: nat
  z_uiAnonIPLimit :: nat
  z_uiMaxBufferSize :: nat
  z_uDisabledSSLProtocols :: "32 word"
  z_uThrottleTTL :: nat
  z_bProtectWebSessions :: bool
  z_bHideVersion :: bool
  z_bAuthOnlyViaModule :: bool
  z_uiConfigWriteDelay :: nat
  z_vpListeners :: "listener list"
  z_mods :: "cmodule list"
  z_msUsers :: "(string, cuser) omap"

record znc_env =
  ze_user :: user_env
  ze_Listen :: "listener \<Rightarrow> string option"
  ze_Exists :: "string \<Rightarrow> bool"
  ze_CreatePem :: bool
  ze_sHomePath :: string
  ze_EDP :: "ssl_protocol \<Rightarrow> 32 word"
  ze_EDP_SSL :: "32 word"
  ze_VERSION_STR :: string
  ze_OnAddUser :: "cuser \<Rightarrow> string option"

definition env_of :: "znc_env \<Rightarrow> cznc \<Rightarrow> user_env" where
  "env_of E z = (ze_user E) \<lparr>ue_MaxBufferSize := z_uiMaxBufferSize z, ue_sStatusPrefix := z_sStatusPrefix z\<rparr>"

definition mod_env_of :: "znc_env \<Rightarrow> mod_env" where
  "mod_env_of E = le_mod (ue_load (ze_user E))"

definition mk_cznc :: "znc_env \<Rightarrow> cznc" where
  "mk_cznc E =
     \<lparr>z_sSkinName = [], z_sStatusPrefix = [], z_sPidFile = [], z_sSSLCertFile = [], z_sSSLKeyFile = [],
      z_sSSLDHParamFile = [], z_sSSLCiphers = [], z_sSSLProtocols = [], z_vsTrustedProxies = [], z_vsMotd = [],
      z_ssClientCapBlacklist = [], z_ssServerCapBlacklist = [], z_uiConnectDelay = 5, z_uiAnonIPLimit = 10,
      z_uiMaxBufferSize = 500, z_uDisabledSSLProtocols = or (ze_EDP_SSL E) (or (ze_EDP E TLSv1) (ze_EDP E TLSv1_1)),
      z_uThrottleTTL = 30000, z_bProtectWebSessions = True, z_bHideVersion = False, z_bAuthOnlyViaModule = False,
      z_uiConfigWriteDelay = 0, z_vpListeners = [], z_mods = [], z_msUsers = []\<rparr>"

section \<open>Paths\<close>

text \<open>CDir::ChangeDir: the round of the loop for one byte, on the result and the current part.\<close>

definition change_dir_step :: "char \<Rightarrow> string \<times> string \<Rightarrow> string \<times> string" where
  "change_dir_step c st =
     (let (sRet, sCurDir) = st
      in if c = CHR ''/'' then
           (if sCurDir = ''..'' then (if CHR ''/'' \<in> set sRet then rev (tl (dropWhile (\<lambda>d. d \<noteq> CHR ''/'') (rev sRet))) else sRet)
            else if sCurDir \<noteq> [] \<and> sCurDir \<noteq> ''.'' then sRet @ ''/'' @ sCurDir else sRet, [])
         else (sRet, sCurDir @ [c]))"

definition ChangeDir :: "string \<Rightarrow> string \<Rightarrow> string \<Rightarrow> string" where
  "ChangeDir sHomeDir sPath sAdd =
     (if sAdd = ''~'' then sHomeDir
      else let sAddDir = (if StartsWith sAdd ''~/'' CaseSensitive then sHomeDir @ LeftChomp_n 1 sAdd else sAdd);
               sRet = (if sAddDir \<noteq> [] \<and> hd sAddDir = CHR ''/'' then [] else sPath);
               r = fst (fold change_dir_step (sAddDir @ ''/'') (TrimSuffix_n ''/'' sRet, []))
           in if r = [] then ''/'' else r)"

definition GetPemLocation :: "znc_env \<Rightarrow> cznc \<Rightarrow> string" where
  "GetPemLocation E z = ChangeDir (ze_sHomePath E) [] (z_sSSLCertFile z)"

definition GetKeyLocation :: "znc_env \<Rightarrow> cznc \<Rightarrow> string" where
  "GetKeyLocation E z = ChangeDir (ze_sHomePath E) []
     (if z_sSSLKeyFile z = [] then z_sSSLCertFile z else z_sSSLKeyFile z)"

definition GetDHParamLocation :: "znc_env \<Rightarrow> cznc \<Rightarrow> string" where
  "GetDHParamLocation E z = ChangeDir (ze_sHomePath E) []
     (if z_sSSLDHParamFile z = [] then z_sSSLCertFile z else z_sSSLDHParamFile z)"

definition FirstLine :: "string \<Rightarrow> string" where
  "FirstLine s = Token s 0 False [CHR 0x0A] False"

section \<open>Listeners\<close>

text \<open>Reading an int with std::oct: blanks, a sign, octal digits; no digits give 0; the value is clamped.\<close>

definition oct_value :: "string \<Rightarrow> int" where
  "oct_value s =
     (let p = dropWhile isspace_c s; neg = (chd p = CHR ''-'');
          q = (if chd p = CHR ''-'' \<or> chd p = CHR ''+'' then tl p else p);
          ds = takeWhile (\<lambda>c. c \<in> set ''01234567'') q;
          n = fold (\<lambda>c v. 8 * v + (int (byte c) - 48)) ds 0
      in max (- (2 ^ 31)) (min (2 ^ 31 - 1) (if neg then - n else n)))"

fun oct_digits :: "nat \<Rightarrow> string" where
  "oct_digits n = (if n < 8 then [] else oct_digits (n div 8)) @ [char_of (48 + n mod 8)]"

definition mk_unix_listener ::
    "string \<Rightarrow> string \<Rightarrow> bool \<Rightarrow> accept_type \<Rightarrow> string \<Rightarrow> string \<Rightarrow> listener" where
  "mk_unix_listener sPath sURIPrefix bSSL eAccept sGid sMode =
     UnixListener bSSL sURIPrefix eAccept sPath sGid (if sMode = [] then -1 else oct_value sMode)"

text \<open>An int is printed with std::oct as the unsigned number of its width.\<close>

definition GetMode :: "int \<Rightarrow> string" where
  "GetMode iMode = (if iMode = -1 then [] else oct_digits (nat (iMode mod 2 ^ 32)))"

definition listener_pairs :: "listener \<Rightarrow> (string \<times> string) list" where
  "listener_pairs l =
     [(''URIPrefix'', lst_sURIPrefix l @ ''/''), (''SSL'', bool_str (lst_bSSL l)),
      (''AllowIRC'', bool_str (lst_eAcceptType l \<noteq> ACCEPT_HTTP)), (''AllowWeb'', bool_str (lst_eAcceptType l \<noteq> ACCEPT_IRC))] @
     (case l of
        TCPListener _ _ _ eAddr uPort sBindHost \<Rightarrow>
          [(''Host'', sBindHost), (''Port'', dec uPort), (''IPv4'', bool_str (eAddr \<noteq> ADDR_IPV6ONLY)),
           (''IPv6'', bool_str (eAddr \<noteq> ADDR_IPV4ONLY))]
      | UnixListener _ _ _ sPath sGid iMode \<Rightarrow>
          (''Path'', sPath) # (if sGid = [] then [] else [(''Group'', sGid)]) @
          (if iMode = -1 then [] else [(''Mode'', GetMode iMode)]))"

definition Listener_ToConfig :: "listener \<Rightarrow> config" where
  "Listener_ToConfig l = add_pairs (listener_pairs l) empty_config"

definition CheckSslAndPemFile :: "znc_env \<Rightarrow> bool \<Rightarrow> cznc \<Rightarrow> string option" where
  "CheckSslAndPemFile E bSSL z =
     (if bSSL \<and> \<not> ze_Exists E (GetPemLocation E z) \<and> \<not> ze_CreatePem E
      then Some (''Unable to locate pem file: '' @ GetPemLocation E z) else None)"

definition FinishAddingListener :: "znc_env \<Rightarrow> listener \<Rightarrow> cznc \<Rightarrow> string option \<times> cznc" where
  "FinishAddingListener E l z =
     (case ze_Listen E l of
        Some e \<Rightarrow> (Some (''Unable to bind: '' @ e), z)
      | None \<Rightarrow> (None, z \<lparr>z_vpListeners := z_vpListeners z @ [l]\<rparr>))"

definition AddTCPListener ::
    "znc_env \<Rightarrow> nat \<Rightarrow> string \<Rightarrow> string \<Rightarrow> bool \<Rightarrow> addr_type \<Rightarrow> accept_type \<Rightarrow> cznc \<Rightarrow> string option \<times> cznc" where
  "AddTCPListener E uPort sBindHost sURIPrefix bSSL eAddr eAccept z =
     (case CheckSslAndPemFile E bSSL z of
        Some e \<Rightarrow> (Some e, z)
      | None \<Rightarrow> if uPort = 0 then (Some ''Invalid port'', z)
          else FinishAddingListener E (TCPListener bSSL sURIPrefix eAccept eAddr uPort sBindHost) z)"

definition AddUnixListener ::
    "znc_env \<Rightarrow> string \<Rightarrow> string \<Rightarrow> bool \<Rightarrow> accept_type \<Rightarrow> string \<Rightarrow> string \<Rightarrow> cznc \<Rightarrow> string option \<times> cznc" where
  "AddUnixListener E sPath sURIPrefix bSSL eAccept sGroup sMode z =
     (case CheckSslAndPemFile E bSSL z of
        Some e \<Rightarrow> (Some e, z)
      | None \<Rightarrow> FinishAddingListener E (mk_unix_listener sPath sURIPrefix bSSL eAccept sGroup sMode) z)"

text \<open>A listener line of the versions before 1.0.\<close>

definition AddListener_line :: "znc_env \<Rightarrow> string \<Rightarrow> cznc \<Rightarrow> string option \<times> cznc" where
  "AddListener_line E sLine z =
     (let sName = token sLine 0; sValue0 = token_rest sLine 1;
          eAddr = (if equals_ci sName ''Listener6'' then ADDR_IPV6ONLY
                   else if equals_ci sName ''Listen4'' \<or> equals_ci sName ''Listen'' \<or> equals_ci sName ''Listener4''
                   then ADDR_IPV4ONLY else ADDR_ALL);
          (eAccept, sValue1) =
            (case TrimPrefix ''irc_only '' sValue0 of
               (True, s) \<Rightarrow> (ACCEPT_IRC, s)
             | (False, s) \<Rightarrow> (case TrimPrefix ''web_only '' s of (True, t) \<Rightarrow> (ACCEPT_HTTP, t) | (False, t) \<Rightarrow> (ACCEPT_ALL, t)));
          sValue = (if eAddr = ADDR_IPV4ONLY then Replace_n sValue1 '':'' '' '' else sValue1);
          (sBindHost, sPort0) = (if Contains sValue '' '' CaseSensitive then (token sValue 0, token_rest sValue 1) else ([], sValue));
          (bSSL, sPort) = TrimPrefix ''+'' sPort0
      in AddTCPListener E (ToUShort sPort) sBindHost [] bSSL eAddr eAccept z)"

definition accept_of :: "bool \<Rightarrow> bool \<Rightarrow> accept_type option" where
  "accept_of bIRC bWeb =
     (if bIRC \<and> bWeb then Some ACCEPT_ALL else if bIRC then Some ACCEPT_IRC
      else if bWeb then Some ACCEPT_HTTP else None)"

definition addr_of :: "bool \<Rightarrow> bool \<Rightarrow> addr_type option" where
  "addr_of b4 b6 =
     (if b4 \<and> b6 then Some ADDR_ALL else if b4 then Some ADDR_IPV4ONLY else if b6 then Some ADDR_IPV6ONLY else None)"

text \<open>A prefix must start with a slash and end without one.\<close>

definition fix_prefix :: "string \<Rightarrow> string" where
  "fix_prefix s0 =
     (if s0 = [] then []
      else let s1 = (if StartsWith s0 ''/'' CaseSensitive then s0 else ''/'' @ s0)
           in if EndsWith s1 ''/'' CaseSensitive then TrimRight_n ''/'' s1 else s1)"

definition AddListener_config :: "znc_env \<Rightarrow> cznc \<times> config \<Rightarrow> string option \<times> cznc \<times> config" where
  "AddListener_config E st =
     (let (z, c) = st;
          ((bTcp, uPort), c1) = FindUShortEntry ''port'' 0 c;
          ((bPath, sPath), c2) = (if bTcp then ((True, []), c1) else FindStringEntry ''path'' [] c1)
      in if \<not> bPath then (Some ''No port and no path given'', z, c2)
         else (let ((_, bSSL), c3) = FindBoolEntry ''ssl'' False c2;
                   ((_, bIRC), c4) = FindBoolEntry ''allowirc'' True c3;
                   ((_, bWeb), c5) = FindBoolEntry ''allowweb'' True c4;
                   ((_, sPrefix), c6) = FindStringEntry ''uriprefix'' [] c5
               in case accept_of bIRC bWeb of
                    None \<Rightarrow> (Some ''Either Web or IRC or both should be selected'', z, c6)
                  | Some eAccept \<Rightarrow>
                      if bTcp then
                        (let ((_, sBindHost), c7) = FindStringEntry ''host'' [] c6;
                             ((_, b4), c8) = FindBoolEntry ''ipv4'' True c7;
                             ((_, b6), c9) = FindBoolEntry ''ipv6'' True c8
                         in case addr_of b4 b6 of
                              None \<Rightarrow> (Some ''No address family given'', z, c9)
                            | Some eAddr \<Rightarrow>
                                (case AddTCPListener E uPort sBindHost (fix_prefix sPrefix) bSSL eAddr eAccept z of
                                   (e, z1) \<Rightarrow> (e, z1, c9)))
                      else
                        (let ((_, sGroup), c7) = FindStringEntry ''group'' [] c6;
                             ((_, sMode), c8) = FindStringEntry ''mode'' [] c7
                         in case AddUnixListener E sPath (fix_prefix sPrefix) bSSL eAccept sGroup sMode z of
                              (e, z1) \<Rightarrow> (e, z1, c8))))"

text \<open>A loop of steps that ends at the first error.\<close>

fun run_all :: "('a \<Rightarrow> 's \<Rightarrow> string option \<times> 's) \<Rightarrow> 'a list \<Rightarrow> 's \<Rightarrow> string option \<times> 's" where
  "run_all f [] st = (None, st)"
| "run_all f (x # xs) st = (case f x st of (None, st1) \<Rightarrow> run_all f xs st1 | (Some e, st1) \<Rightarrow> (Some e, st1))"

definition listener_block :: "znc_env \<Rightarrow> string \<times> config \<Rightarrow> cznc \<Rightarrow> string option \<times> cznc" where
  "listener_block E b z =
     (case AddListener_config E (z, snd b) of
        (Some e, z1, _) \<Rightarrow> (Some e, z1)
      | (None, z1, c) \<Rightarrow> (if Config_empty c then None else Some ''Unhandled lines in Listener config!'', z1))"

definition old_listeners :: "znc_env \<Rightarrow> string \<Rightarrow> cznc \<times> config \<Rightarrow> string option \<times> cznc \<times> config" where
  "old_listeners E szEntry st =
     (let ((_, vsList), c1) = FindStringVector szEntry True (snd st);
          (e, z1) = run_all (\<lambda>sListener. AddListener_line E (szEntry @ '' '' @ sListener)) vsList (fst st)
      in (e, z1, c1))"

definition LoadListeners :: "znc_env \<Rightarrow> cznc \<times> config \<Rightarrow> string option \<times> cznc \<times> config" where
  "LoadListeners E st =
     (let z0 = (fst st) \<lparr>z_vpListeners := []\<rparr>;
          (_, c0) = FindStringVector ''loadmodule'' True (snd st)
      in case run_all (old_listeners E) [''listen'', ''listen6'', ''listen4'', ''listener'', ''listener6'', ''listener4''] (z0, c0) of
           (Some e, st1) \<Rightarrow> (Some e, st1)
         | (None, z1, c1) \<Rightarrow>
             (let ((_, blocks), c2) = FindSubConfig ''listener'' True c1
              in case run_all (listener_block E) blocks z1 of
                   (Some e, z2) \<Rightarrow> (Some e, z2, c2)
                 | (None, z2) \<Rightarrow>
                     (if z_vpListeners z2 = [] then Some ''You must supply at least one Listener in your config.'' else None, z2, c2)))"

section \<open>Global settings\<close>

definition AddTrustedProxy :: "string \<Rightarrow> cznc \<Rightarrow> bool \<times> cznc" where
  "AddTrustedProxy sHost z =
     (if sHost = [] \<or> (\<exists>p \<in> set (z_vsTrustedProxies z). equals_ci p sHost) then (False, z)
      else (True, z \<lparr>z_vsTrustedProxies := z_vsTrustedProxies z @ [sHost]\<rparr>))"

definition RemTrustedProxy :: "string \<Rightarrow> cznc \<Rightarrow> bool \<times> cznc" where
  "RemTrustedProxy sHost z =
     (case find_idx (\<lambda>p. equals_ci sHost p) (z_vsTrustedProxies z) of
        None \<Rightarrow> (False, z)
      | Some i \<Rightarrow> (True, z \<lparr>z_vsTrustedProxies := remove_at i (z_vsTrustedProxies z)\<rparr>))"

definition AddMotd :: "string \<Rightarrow> cznc \<Rightarrow> cznc" where
  "AddMotd sMessage z = (if sMessage = [] then z else z \<lparr>z_vsMotd := z_vsMotd z @ [sMessage]\<rparr>)"

definition SetConnectDelay :: "nat \<Rightarrow> cznc \<Rightarrow> cznc" where
  "SetConnectDelay i z = z \<lparr>z_uiConnectDelay := (if i < 1 then 1 else i)\<rparr>"

definition set_throttle :: "nat \<Rightarrow> cznc \<Rightarrow> cznc" where
  "set_throttle n z = z \<lparr>z_uThrottleTTL := n * 1000 mod 2 ^ 32\<rparr>"

definition protocol_flag :: "znc_env \<Rightarrow> string \<Rightarrow> 32 word option" where
  "protocol_flag E s =
     (if equals_ci s ''All'' then Some (-1)
      else if equals_ci s ''SSLv2'' then Some (ze_EDP E SSLv2)
      else if equals_ci s ''SSLv3'' then Some (ze_EDP E SSLv3)
      else if equals_ci s ''TLSv1'' then Some (ze_EDP E TLSv1)
      else if equals_ci s ''TLSv1.1'' then Some (ze_EDP E TLSv1_1)
      else if equals_ci s ''TLSv1.2'' then Some (ze_EDP E TLSv1_2)
      else None)"

text \<open>The protocols that are disabled after a word of the list; None for an unknown protocol.\<close>

definition protocol_step :: "znc_env \<Rightarrow> string \<Rightarrow> 32 word option \<Rightarrow> 32 word option" where
  "protocol_step E sProtocol d =
     (case d of
        None \<Rightarrow> None
      | Some uDisabled \<Rightarrow>
          (let (bEnable, s1) = TrimPrefix ''+'' sProtocol; (bDisable, s2) = TrimPrefix ''-'' s1
           in map_option (\<lambda>uFlag. if bEnable then and uDisabled (not uFlag)
                else if bDisable then or uDisabled uFlag else not uFlag) (protocol_flag E s2)))"

definition SetSSLProtocols :: "znc_env \<Rightarrow> string \<Rightarrow> cznc \<Rightarrow> bool \<times> cznc" where
  "SetSSLProtocols E sProtocols z =
     (case fold (protocol_step E) (Split sProtocols '' '' False [] [] True True) (Some (ze_EDP_SSL E)) of
        None \<Rightarrow> (False, z)
      | Some uDisabled \<Rightarrow> (True, z \<lparr>z_sSSLProtocols := sProtocols, z_uDisabledSSLProtocols := uDisabled\<rparr>))"

definition version_of :: "string \<Rightarrow> nat \<times> nat" where
  "version_of s = (ToUInt (Token s 0 False ''.'' False), ToUInt (Token s 1 False ''.'' False))"

definition version_less :: "nat \<times> nat \<Rightarrow> nat \<times> nat \<Rightarrow> bool" where
  "version_less v w \<longleftrightarrow> fst v < fst w \<or> fst v = fst w \<and> snd v < snd w"

text \<open>One line of loadmodule, with the modules of this configuration so far.\<close>

definition global_module ::
    "znc_env \<Rightarrow> nat \<times> nat \<Rightarrow> string \<Rightarrow> (string, string) omap \<times> cznc \<Rightarrow>
     string option \<times> (string, string) omap \<times> cznc" where
  "global_module E v sModLine st =
     (let (msModules, z) = st; sName0 = token sModLine 0; sArgs = token_rest sModLine 1;
          sModName = (if sName0 = ''saslauth'' \<and> version_less v (0, 207) then ''cyrusauth'' else sName0)
      in if map_of msModules sModName \<noteq> None then (Some (''Module ['' @ sModName @ ''] already loaded''), msModules, z)
         else (let r = (case FindModule sModName (z_mods z) of
                     None \<Rightarrow> LoadModule (mod_env_of E) sModName sArgs GlobalModule None None (z_mods z)
                   | Some pOldMod \<Rightarrow>
                       (if mod_sArgs pOldMod \<noteq> sArgs then ReloadModule (mod_env_of E) sModName sArgs None None (z_mods z)
                        else (True, [], z_mods z)));
                   z1 = z \<lparr>z_mods := snd (snd r)\<rparr>
               in if \<not> fst r then (Some (fst (snd r)), msModules, z1)
                  else (None, om_insert sModName sArgs msModules, z1)))"

definition UnloadRemovedModules :: "znc_env \<Rightarrow> (string, string) omap \<Rightarrow> cznc \<Rightarrow> cznc" where
  "UnloadRemovedModules E msModules z =
     (let ssUnload = fold os_insert (map mod_sModName (filter (\<lambda>m. map_of msModules (mod_sModName m) = None) (z_mods z))) []
      in z \<lparr>z_mods := fold (\<lambda>sMod mods. snd (snd (UnloadModule (mod_env_of E) sMod mods))) ssUnload (z_mods z)\<rparr>)"

definition global_options :: "(string \<times> (string \<Rightarrow> cznc \<Rightarrow> cznc)) list" where
  "global_options =
     [(''pidfile'', \<lambda>s z. z \<lparr>z_sPidFile := s\<rparr>), (''statusprefix'', \<lambda>s z. z \<lparr>z_sStatusPrefix := s\<rparr>),
      (''sslcertfile'', \<lambda>s z. z \<lparr>z_sSSLCertFile := s\<rparr>), (''sslkeyfile'', \<lambda>s z. z \<lparr>z_sSSLKeyFile := s\<rparr>),
      (''ssldhparamfile'', \<lambda>s z. z \<lparr>z_sSSLDHParamFile := s\<rparr>), (''sslciphers'', \<lambda>s z. z \<lparr>z_sSSLCiphers := s\<rparr>),
      (''skin'', \<lambda>s z. z \<lparr>z_sSkinName := s\<rparr>), (''connectdelay'', \<lambda>s. SetConnectDelay (ToUInt s)),
      (''serverthrottle'', \<lambda>s. set_throttle (ToUInt s)), (''anoniplimit'', \<lambda>s z. z \<lparr>z_uiAnonIPLimit := ToUInt s\<rparr>),
      (''maxbuffersize'', \<lambda>s z. z \<lparr>z_uiMaxBufferSize := ToUInt s\<rparr>),
      (''protectwebsessions'', \<lambda>s z. z \<lparr>z_bProtectWebSessions := ToBool s\<rparr>),
      (''hideversion'', \<lambda>s z. z \<lparr>z_bHideVersion := ToBool s\<rparr>),
      (''authonlyviamodule'', \<lambda>s z. z \<lparr>z_bAuthOnlyViaModule := ToBool s\<rparr>)]"

text \<open>The lists: message of the day, old host lists (which are only reported), proxies, capabilities.\<close>

definition global_lists :: "cznc \<times> config \<Rightarrow> cznc \<times> config" where
  "global_lists st =
     (let ((_, vsMotd), c1) = FindStringVector ''motd'' True (snd st);
          z1 = fold AddMotd vsMotd ((fst st) \<lparr>z_vsMotd := []\<rparr>);
          (_, c2) = FindStringVector ''bindhost'' True c1;
          (_, c3) = FindStringVector ''vhost'' True c2;
          ((_, vsProxies), c4) = FindStringVector ''trustedproxy'' True c3;
          z4 = fold (\<lambda>s z. snd (AddTrustedProxy s z)) vsProxies (z1 \<lparr>z_vsTrustedProxies := []\<rparr>);
          ((_, vsClient), c5) = FindStringVector ''disableclientcap'' True c4;
          ((_, vsServer), c6) = FindStringVector ''disableservercap'' True c5
      in (z4 \<lparr>z_ssClientCapBlacklist := fold os_insert vsClient [], z_ssServerCapBlacklist := fold os_insert vsServer []\<rparr>, c6))"

definition LoadGlobal :: "znc_env \<Rightarrow> cznc \<times> config \<Rightarrow> string option \<times> cznc \<times> config" where
  "LoadGlobal E st =
     (let ((_, sSavedVersion), c1) = FindStringEntry ''version'' [] (snd st);
          v = version_of sSavedVersion;
          ((_, vsMods), c2) = FindStringVector ''loadmodule'' True c1;
          vsList = vsMods @ (if version_less v (1, 9) then [''corecaps''] else [])
      in case run_all (global_module E v) vsList ([], fst st) of
           (Some e, _, z1) \<Rightarrow> (Some e, z1, c2)
         | (None, msModules, z1) \<Rightarrow>
             (let (z2, c3) = parse_options global_options (global_lists (z1, c2));
                  ((bProt, sVal), c4) = FindStringEntry ''sslprotocols'' [] c3;
                  (bOk, z3) = (if bProt then SetSSLProtocols E sVal z2 else (True, z2))
              in if \<not> bOk then (Some [], z3, c4)
                 else (let (z4, c5) = parse_options [(''configwritedelay'', \<lambda>s z. z \<lparr>z_uiConfigWriteDelay := ToUInt s\<rparr>)] (z3, c4)
                       in LoadListeners E (UnloadRemovedModules E msModules z4, c5))))"

section \<open>Users\<close>

definition FindUser :: "string \<Rightarrow> cznc \<Rightarrow> cuser option" where
  "FindUser sUsername z = map_of (z_msUsers z) sUsername"

definition AddUser :: "znc_env \<Rightarrow> bool \<Rightarrow> cuser \<Rightarrow> cznc \<Rightarrow> string option \<times> cznc" where
  "AddUser E bStartup pUser z =
     (if FindUser (cu_sUsername pUser) z \<noteq> None then (Some ''User already exists'', z)
      else (case User_IsValid False pUser of
          Some e \<Rightarrow> (Some e, z)
        | None \<Rightarrow>
            (case (if bStartup then None else ze_OnAddUser E pUser) of
               Some e \<Rightarrow> (Some e, z)
             | None \<Rightarrow> (None, z \<lparr>z_msUsers := om_insert (cu_sUsername pUser) pUser (z_msUsers z)\<rparr>))))"

definition load_user :: "znc_env \<Rightarrow> string \<times> config \<Rightarrow> cznc \<Rightarrow> string option \<times> cznc" where
  "load_user E b z =
     (let u = mk_cuser (length (z_msUsers z)) (fst b);
          (bPrefix, u1) = (if z_sStatusPrefix z = [] then (True, u) else SetStatusPrefix (z_sStatusPrefix z) u)
      in if \<not> bPrefix then (Some (''Invalid StatusPrefix ['' @ z_sStatusPrefix z @ ''] Must be 1-5 chars, no spaces.''), z)
         else (case User_ParseConfig (env_of E z) ([], u1, snd b) of
             (False, e, _, _) \<Rightarrow> (Some e, z)
           | (True, _, u2, c) \<Rightarrow>
               if \<not> Config_empty c then (Some (''Unhandled lines in config for User ['' @ fst b @ '']!''), z)
               else (case AddUser E True u2 z of
                   (Some e, z1) \<Rightarrow> (Some (''Invalid user ['' @ fst b @ ''] '' @ e), z1)
                 | (None, z1) \<Rightarrow> (None, z1))))"

definition LoadUsers :: "znc_env \<Rightarrow> cznc \<times> config \<Rightarrow> string option \<times> cznc \<times> config" where
  "LoadUsers E st =
     (let ((_, blocks), c1) = FindSubConfig ''user'' True (snd st)
      in case run_all (load_user E) blocks ((fst st) \<lparr>z_msUsers := []\<rparr>) of
           (Some e, z1) \<Rightarrow> (Some e, z1, c1)
         | (None, z1) \<Rightarrow>
             (if z_msUsers z1 = [] then Some ''You must define at least one user in your config.'' else None, z1, c1))"

section \<open>Writing\<close>

definition one_line_pairs :: "string \<Rightarrow> string list \<Rightarrow> (string \<times> string) list" where
  "one_line_pairs k vs = map (\<lambda>v. (k, FirstLine v)) vs"

definition global_line :: "cmodule \<Rightarrow> string" where
  "global_line m = FirstLine (mod_sModName m) @ (if mod_sArgs m = [] then [] else '' '' @ FirstLine (mod_sArgs m))"

definition global_pairs :: "znc_env \<Rightarrow> cznc \<Rightarrow> (string \<times> string) list" where
  "global_pairs E z =
     [(''AnonIPLimit'', dec (z_uiAnonIPLimit z)), (''MaxBufferSize'', dec (z_uiMaxBufferSize z)),
      (''SSLCertFile'', GetPemLocation E z), (''SSLKeyFile'', GetKeyLocation E z),
      (''SSLDHParamFile'', GetDHParamLocation E z), (''ProtectWebSessions'', bool_str (z_bProtectWebSessions z)),
      (''HideVersion'', bool_str (z_bHideVersion z)), (''AuthOnlyViaModule'', bool_str (z_bAuthOnlyViaModule z)),
      (''Version'', ze_VERSION_STR E), (''ConfigWriteDelay'', dec (z_uiConfigWriteDelay z)),
      (''ConnectDelay'', dec (z_uiConnectDelay z)), (''ServerThrottle'', dec (z_uThrottleTTL z div 1000))] @
     (if z_sPidFile z = [] then [] else [(''PidFile'', FirstLine (z_sPidFile z))]) @
     (if z_sSkinName z = [] then [] else [(''Skin'', FirstLine (z_sSkinName z))]) @
     (if z_sStatusPrefix z = [] then [] else [(''StatusPrefix'', FirstLine (z_sStatusPrefix z))]) @
     (if z_sSSLCiphers z = [] then [] else [(''SSLCiphers'', z_sSSLCiphers z)]) @
     (if z_sSSLProtocols z = [] then [] else [(''SSLProtocols'', z_sSSLProtocols z)]) @
     one_line_pairs ''DisableClientCap'' (z_ssClientCapBlacklist z) @
     one_line_pairs ''DisableServerCap'' (z_ssServerCapBlacklist z) @
     one_line_pairs ''Motd'' (z_vsMotd z) @ one_line_pairs ''TrustedProxy'' (z_vsTrustedProxies z) @
     map (\<lambda>m. (''LoadModule'', global_line m)) (z_mods z)"

definition listener_blocks :: "listener list \<Rightarrow> (string \<times> config) list" where
  "listener_blocks ls = map (\<lambda>(i, l). (''listener'' @ dec i, Listener_ToConfig l)) (enumerate 0 ls)"

definition user_blocks :: "user_env \<Rightarrow> (string, cuser) omap \<Rightarrow> (string \<times> config) list" where
  "user_blocks E us = map (\<lambda>(_, u). (cu_sUsername u, User_ToConfig E u)) (filter (\<lambda>(_, u). User_IsValid False u = None) us)"

definition WriteConfig_tree :: "znc_env \<Rightarrow> cznc \<Rightarrow> config" where
  "WriteConfig_tree E z =
     add_blocks ''User'' (user_blocks (env_of E z) (z_msUsers z))
       (add_blocks ''Listener'' (listener_blocks (z_vpListeners z)) (add_pairs (global_pairs E z) empty_config))"

section \<open>The file\<close>

definition header_lines :: "string list" where
  "header_lines = [''// WARNING'', ''//'', ''// Do NOT edit this file while ZNC is running!'', ''// Use webadmin or *controlpanel instead.'', ''//'',
     ''// Altering this file by hand will forfeit all support.'', ''//'',
     ''// But if you feel risky, you might want to read help on /znc saveconfig and /znc rehash.'',
     ''// Also check https://wiki.znc.in/Configuration'']"

definition MakeConfigHeader :: string where
  "MakeConfigHeader = concat (map (\<lambda>l. l @ [CHR 0x0A]) header_lines)"

definition WriteConfig_text :: "znc_env \<Rightarrow> cznc \<Rightarrow> string" where
  "WriteConfig_text E z = MakeConfigHeader @ [CHR 0x0A] @ concat (Config_Write 0 (WriteConfig_tree E z))"

text \<open>
  The configuration file and the temporary file beside it, and how the calls of the system
  end: opening and locking the temporary file, writing it, moving it to its place.
\<close>

record conf_files =
  cf_conf :: "string option"
  cf_tmp :: "string option"

record write_outcome =
  wo_bOpen :: bool
  wo_bLock :: bool
  wo_bError :: bool
  wo_bMove :: bool

definition WriteConfig :: "znc_env \<Rightarrow> write_outcome \<Rightarrow> string \<Rightarrow> cznc \<Rightarrow> conf_files \<Rightarrow> bool \<times> conf_files" where
  "WriteConfig E W sConfigFile z fs =
     (if sConfigFile = [] then (False, fs)
      else if \<not> wo_bOpen W then (False, fs)
      else if \<not> wo_bLock W then (False, fs \<lparr>cf_tmp := None\<rparr>)
      else (let fs1 = fs \<lparr>cf_tmp := Some (WriteConfig_text E z)\<rparr>
            in if wo_bError W then (False, fs1 \<lparr>cf_tmp := None\<rparr>)
               else if \<not> wo_bMove W then (False, fs1 \<lparr>cf_tmp := None\<rparr>)
               else (True, fs1 \<lparr>cf_conf := cf_tmp fs1, cf_tmp := None\<rparr>)))"

record read_outcome =
  ro_bExists :: bool
  ro_bReg :: bool
  ro_bOpen :: bool
  ro_bLock :: bool

text \<open>ReadConfig: the error, or the tree; its version is looked at and put back.\<close>

definition ReadConfig :: "read_outcome \<Rightarrow> string list \<Rightarrow> string + config" where
  "ReadConfig R chunks =
     (if \<not> ro_bExists R then Inl ''No such file''
      else if \<not> ro_bReg R then Inl ''Not a file''
      else if \<not> ro_bOpen R then Inl ''Can not open config file''
      else if \<not> ro_bLock R then Inl ''ZNC is already running on this config.''
      else (case Config_Parse (open_file chunks) empty_config of
          Inl (sError, _) \<Rightarrow> Inl sError
        | Inr config \<Rightarrow>
            (let ((_, sSavedVersion), c1) = FindStringEntry ''version'' [] config;
                 c2 = AddKeyValuePair ''version'' sSavedVersion c1
             in if sSavedVersion = [] then Inl [] else Inr c2)))"

definition RehashConfig :: "znc_env \<Rightarrow> read_outcome \<Rightarrow> string list \<Rightarrow> cznc \<Rightarrow> string option \<times> cznc" where
  "RehashConfig E R chunks z =
     (case ReadConfig R chunks of
        Inl sError \<Rightarrow> (Some sError, z)
      | Inr config \<Rightarrow> (case LoadGlobal E (z, config) of (e, z1, _) \<Rightarrow> (e, z1)))"

definition ParseConfig :: "znc_env \<Rightarrow> read_outcome \<Rightarrow> string list \<Rightarrow> cznc \<Rightarrow> string option \<times> cznc" where
  "ParseConfig E R chunks z =
     (case ReadConfig R chunks of
        Inl sError \<Rightarrow> (Some sError, z)
      | Inr config \<Rightarrow>
          (case LoadGlobal E (z, config) of
             (Some e, z1, _) \<Rightarrow> (Some e, z1)
           | (None, z1, config1) \<Rightarrow> (case LoadUsers E (z1, config1) of (e, z2, _) \<Rightarrow> (e, z2))))"

end
