(* ===== verification/Network_Roundtrip.thy ===== *)
theory Network_Roundtrip imports Network_Config begin

text \<open>
  The settings of a channel and of a network are read back from the configuration that
  ToConfig makes: \<open>chan_kept\<close> and \<open>net_kept\<close> are what the file keeps.
\<close>

section \<open>Channels\<close>

definition chan_options :: "user \<Rightarrow> bool \<Rightarrow> (string \<times> (string \<Rightarrow> chan \<Rightarrow> chan)) list" where
  "chan_options U on =
     [(''buffer'', \<lambda>v c. snd (SetBufferCount (u_MaxBufferSize U) (ToUInt v) True c)),
      (''autoclearchanbuffer'', \<lambda>v. SetAutoClearChanBuffer on (ToBool v)),
      (''keepbuffer'', \<lambda>v. SetAutoClearChanBuffer on (\<not> ToBool v)),
      (''detached'', \<lambda>v c. c \<lparr>m_bDetached := ToBool v\<rparr>),
      (''disabled'', \<lambda>v c. if ToBool v then Disable c else c),
      (''autocycle'', \<lambda>v c. c), (''key'', SetKey),
      (''modes'', \<lambda>v c. c \<lparr>m_sDefaultModes := v\<rparr>)]"

lemma chan_entries_options: "chan_entries U on st = parse_options (chan_options U on) st"
  by (simp add: chan_entries_def parse_options_def chan_options_def)

definition chan_pairs :: "chan \<Rightarrow> (string \<times> string) list" where
  "chan_pairs c =
     (if m_bHasBufferCountSet c then [(''Buffer'', dec (b_uLineCount (m_Buffer c)))] else []) @
     (if m_bHasAutoClearChanBufferSet c then [(''AutoClearChanBuffer'', bool_str (m_bAutoClearChanBuffer c))] else []) @
     (if m_bDetached c then [(''Detached'', ''true'')] else []) @
     (if m_bDisabled c then [(''Disabled'', ''true'')] else []) @
     (if m_sKey c \<noteq> [] then [(''Key'', m_sKey c)] else []) @
     (if m_sDefaultModes c \<noteq> [] then [(''Modes'', m_sDefaultModes c)] else [])"

lemma Chan_ToConfig_written: "Chan_ToConfig c = written (chan_pairs c) []"
  by (simp add: Chan_ToConfig_def chan_pairs_def written_def Let_def)

definition chan_kept ::
    "chan \<Rightarrow> string \<times> bool \<times> string \<times> string \<times> bool \<times> bool \<times> bool option \<times> nat option" where
  "chan_kept c = (m_sName c, m_bInConfig c, m_sDefaultModes c, m_sKey c, m_bDisabled c, m_bDetached c,
     if m_bHasAutoClearChanBufferSet c then Some (m_bAutoClearChanBuffer c) else None,
     if m_bHasBufferCountSet c then Some (b_uLineCount (m_Buffer c)) else None)"

lemma ToBool_bool_str [simp]: "ToBool (bool_str b) = b"
  by (cases b) (simp_all add: bool_str_def, code_simp+)

lemma ToBool_true [simp]: "ToBool ''true'' = True"
  by code_simp

lemma bool_str_nonempty [simp]: "bool_str b \<noteq> []"
  by (simp add: bool_str_def)

abbreviation chan_keys :: "string list" where
  "chan_keys \<equiv> [''Buffer'', ''AutoClearChanBuffer'', ''Detached'', ''Disabled'', ''Key'', ''Modes'']"

lemma chan_keys_lower:
  "AsLower ''Buffer'' = ''buffer''" "AsLower ''AutoClearChanBuffer'' = ''autoclearchanbuffer''"
  "AsLower ''Detached'' = ''detached''" "AsLower ''Disabled'' = ''disabled''" "AsLower ''Key'' = ''key''"
  "AsLower ''Modes'' = ''modes''"
  by code_simp+

lemma inj_on_list: "distinct (map f xs) \<Longrightarrow> inj_on f (set xs)"
  by (simp add: distinct_map)

lemma chan_keys_inj: "inj_on AsLower (set chan_keys)"
  by (rule inj_on_list) (simp add: chan_keys_lower del: AsLower_simps)

lemma chan_pairs_keys: "fst ` set (chan_pairs c) \<subseteq> set chan_keys"
  by (auto simp: chan_pairs_def)

definition chan_at :: "chan \<Rightarrow> string \<Rightarrow> string list" where
  "chan_at c = om_at (c_entries (lower_config (Chan_ToConfig c)))"

lemma chan_at_key: "k \<in> set chan_keys \<Longrightarrow> chan_at c (AsLower k) = map snd (filter (\<lambda>p. fst p = k \<and> snd p \<noteq> []) (chan_pairs c))"
  unfolding chan_at_def Chan_ToConfig_written
  by (rule written_entry [OF chan_keys_inj chan_pairs_keys]) auto

lemma chan_at:
  "chan_at c ''buffer'' = (if m_bHasBufferCountSet c then [dec (b_uLineCount (m_Buffer c))] else [])"
  "chan_at c ''autoclearchanbuffer'' = (if m_bHasAutoClearChanBufferSet c then [bool_str (m_bAutoClearChanBuffer c)] else [])"
  "chan_at c ''detached'' = (if m_bDetached c then [''true''] else [])"
  "chan_at c ''disabled'' = (if m_bDisabled c then [''true''] else [])"
  "chan_at c ''key'' = (if m_sKey c \<noteq> [] then [m_sKey c] else [])"
  "chan_at c ''modes'' = (if m_sDefaultModes c \<noteq> [] then [m_sDefaultModes c] else [])"
  using chan_at_key [of "''Buffer''" c] chan_at_key [of "''AutoClearChanBuffer''" c] chan_at_key [of "''Detached''" c]
    chan_at_key [of "''Disabled''" c] chan_at_key [of "''Key''" c] chan_at_key [of "''Modes''" c]
  unfolding chan_keys_lower by (simp_all add: chan_pairs_def)

lemma chan_at_none: "k \<notin> set [''buffer'', ''autoclearchanbuffer'', ''detached'', ''disabled'', ''key'', ''modes''] \<Longrightarrow> chan_at c k = []"
  unfolding chan_at_def Chan_ToConfig_written
  by (rule written_entry_none [OF chan_pairs_keys]) (simp add: chan_keys_lower del: AsLower_simps)

text \<open>All entries of a channel block are taken.\<close>

lemma chan_block_read:
  "chan_entries U on (x, lower_config (Chan_ToConfig c)) =
     (fold (\<lambda>(k, f). opt f (chan_at c k)) (chan_options U on) x,
      drop_keys (map fst (chan_options U on)) (lower_config (Chan_ToConfig c)))"
  unfolding chan_entries_options chan_at_def
proof (rule parse_options_one)
  show "entries_ok (lower_config (Chan_ToConfig c))"
    unfolding Chan_ToConfig_written by (rule lower_written_ok)
  show "distinct (map fst (chan_options U on))" by (simp add: chan_options_def)
  show "\<forall>k \<in> fst ` set (chan_options U on). length (om_at (c_entries (lower_config (Chan_ToConfig c))) k) \<le> 1"
    unfolding chan_at_def [symmetric] by (simp add: chan_options_def chan_at chan_at_none)
qed

lemma written_subs_Nil: "om_at (c_subs (lower_config (written ps []))) u = []"
  by (rule written_block_none) simp_all

lemma chan_block_left: "Config_empty (drop_keys (map fst (chan_options U on)) (lower_config (Chan_ToConfig c)))"
proof (rule Config_empty_dropped)
  have ok: "entries_ok (lower_config (Chan_ToConfig c))"
    unfolding Chan_ToConfig_written by (rule lower_written_ok)
  then show "entries_ok (drop_keys (map fst (chan_options U on)) (lower_config (Chan_ToConfig c)))" by simp
  show "\<forall>k. om_at (c_entries (drop_keys (map fst (chan_options U on)) (lower_config (Chan_ToConfig c)))) k = []"
    using ok chan_at_none [of _ c] by (auto simp: chan_at_def chan_options_def)
  show "\<forall>t. om_at (c_subs (drop_keys (map fst (chan_options U on)) (lower_config (Chan_ToConfig c)))) t = []"
    by (simp add: Chan_ToConfig_written written_subs_Nil)
qed

definition chan_name_ok :: "string \<Rightarrow> bool" where
  "chan_name_ok s \<longleftrightarrow> s \<noteq> [] \<and> CHR '' '' \<notin> set s"

lemma chan_name_tokens: "chan_name_ok s \<Longrightarrow> token s 0 = s \<and> token s 1 = []"
  using trimmed_single_word [of s] by (simp add: chan_name_ok_def Token_nth_field nonempty_fields_def fields_atom)

lemma opt_if: "opt f (if b then [v] else []) x = (if b then f v x else x)"
  by simp

lemma chan_kept_steps:
  assumes "chan_kept x = (a, b, c, d, e, f, g, h)"
  shows "n < 2 ^ 32 \<Longrightarrow> chan_kept (opt (\<lambda>v c. snd (SetBufferCount mx (ToUInt v) True c)) (if P then [dec n] else []) x) =
      (a, b, c, d, e, f, g, if P then Some n else h)"
    and "chan_kept (opt (\<lambda>v. SetAutoClearChanBuffer on (ToBool v)) (if P then [bool_str y] else []) x) =
      (a, b, c, d, e, f, if P then Some y else g, h)"
    and "chan_kept (opt (\<lambda>v c. c \<lparr>m_bDetached := ToBool v\<rparr>) (if P then [''true''] else []) x) = (a, b, c, d, e, P \<or> f, g, h)"
    and "chan_kept (opt (\<lambda>v c. if ToBool v then Disable c else c) (if P then [''true''] else []) x) = (a, b, c, d, P \<or> e, f, g, h)"
    and "chan_kept (opt SetKey (if P then [s] else []) x) = (a, b, c, if P then s else d, e, f, g, h)"
    and "chan_kept (opt (\<lambda>v c. c \<lparr>m_sDefaultModes := v\<rparr>) (if P then [s] else []) x) = (a, b, if P then s else c, d, e, f, g, h)"
proof -
  show "n < 2 ^ 32 \<Longrightarrow> chan_kept (opt (\<lambda>v c. snd (SetBufferCount mx (ToUInt v) True c)) (if P then [dec n] else []) x) =
      (a, b, c, d, e, f, g, if P then Some n else h)"
    unfolding opt_if using assms by (auto simp: chan_kept_def SetBufferCount_def SetLineCount_def ToUInt_dec)
  show "chan_kept (opt (\<lambda>v. SetAutoClearChanBuffer on (ToBool v)) (if P then [bool_str y] else []) x) =
      (a, b, c, d, e, f, if P then Some y else g, h)"
    unfolding opt_if using assms
    by (auto simp: chan_kept_def SetAutoClearChanBuffer_def auto_clear_def ClearBuffer_def Buffer_Clear_def)
qed (unfold opt_if, use assms in \<open>auto simp: chan_kept_def Disable_def SetKey_def\<close>)

lemma chan_kept_read:
  assumes "chan_name_ok (m_sName c)" and "m_bInConfig c" and "b_uLineCount (m_Buffer c) < 2 ^ 32" and "m_sChanPrefixes n = []"
  shows "chan_kept (fst (chan_entries U on (mk_chan U on (IsChan n) (m_sName c) True None, lower_config (Chan_ToConfig c)))) = chan_kept c"
proof -
  have nm: "IsChan n (m_sName c)" using assms(1,4) by (simp add: IsChan_def chan_name_ok_def)
  have "chan_kept (mk_chan U on (IsChan n) (m_sName c) True None) = (m_sName c, True, [], [], False, False, None, None)"
    using nm chan_name_tokens [OF assms(1)] by (simp add: mk_chan_def chan_kept_def Let_def)
  note chan_kept_steps(1) [OF this assms(3), where mx = "u_MaxBufferSize U" and P = "m_bHasBufferCountSet c"]
  note chan_kept_steps(2) [OF this, where on = on and P = "m_bHasAutoClearChanBufferSet c" and y = "m_bAutoClearChanBuffer c"]
  note chan_kept_steps(3) [OF this, where P = "m_bDetached c"]
  note chan_kept_steps(4) [OF this, where P = "m_bDisabled c"]
  note chan_kept_steps(5) [OF this, where P = "m_sKey c \<noteq> []" and s = "m_sKey c"]
  note chan_kept_steps(6) [OF this, where P = "m_sDefaultModes c \<noteq> []" and s = "m_sDefaultModes c"]
  note k = this
  have none: "chan_at c ''keepbuffer'' = []" "chan_at c ''autocycle'' = []" by (simp_all add: chan_at_none)
  have fin: "fst (chan_entries U on (mk_chan U on (IsChan n) (m_sName c) True None, lower_config (Chan_ToConfig c))) =
     opt (\<lambda>v c. c \<lparr>m_sDefaultModes := v\<rparr>) (if m_sDefaultModes c \<noteq> [] then [m_sDefaultModes c] else [])
     (opt SetKey (if m_sKey c \<noteq> [] then [m_sKey c] else [])
     (opt (\<lambda>v c. if ToBool v then Disable c else c) (if m_bDisabled c then [''true''] else [])
     (opt (\<lambda>v c. c \<lparr>m_bDetached := ToBool v\<rparr>) (if m_bDetached c then [''true''] else [])
     (opt (\<lambda>v. SetAutoClearChanBuffer on (ToBool v)) (if m_bHasAutoClearChanBufferSet c then [bool_str (m_bAutoClearChanBuffer c)] else [])
     (opt (\<lambda>v c. snd (SetBufferCount (u_MaxBufferSize U) (ToUInt v) True c))
        (if m_bHasBufferCountSet c then [dec (b_uLineCount (m_Buffer c))] else [])
        (mk_chan U on (IsChan n) (m_sName c) True None))))))"
    unfolding chan_block_read fst_conv chan_options_def
    by (simp only: fold_simps prod.case chan_at none opt_simps)
  show ?thesis unfolding fin k using assms(2) by (auto simp: chan_kept_def)
qed

section \<open>What the file keeps of a network\<close>

definition net_kept :: "netconf \<Rightarrow>
    (string \<times> string \<times> string \<times> string \<times> string \<times> string \<times> string) \<times> (bool \<times> bool \<times> bool \<times> real \<times> nat \<times> nat) \<times>
    server list \<times> string list \<times> (string \<times> string) list \<times>
    (string \<times> bool \<times> string \<times> string \<times> bool \<times> bool \<times> bool option \<times> nat option) list" where
  "net_kept nc =
     ((net_sNick (nc_net nc), net_sAltNick (nc_net nc), net_sIdent (nc_net nc), net_sRealName (nc_net nc),
       net_sBindHost (nc_net nc), net_sQuitMsg (nc_net nc), nc_sEncoding nc),
      (nc_bIRCConnectEnabled nc, nc_bTrustAllCerts nc, nc_bTrustPKI nc, nc_fFloodRate nc, nc_uFloodBurst nc,
       m_uJoinDelay (nc_net nc)),
      m_vServers (nc_net nc), nc_ssTrustedFingerprints nc, map (\<lambda>m. (mod_sModName m, mod_sArgs m)) (nc_mods nc),
      map chan_kept (filter m_bInConfig (m_vChans (nc_net nc))))"

abbreviation net_keys :: "string list" where
  "net_keys \<equiv> [''Nick'', ''AltNick'', ''Ident'', ''RealName'', ''BindHost'', ''IRCConnectEnabled'', ''TrustAllCerts'',
     ''TrustPKI'', ''FloodRate'', ''FloodBurst'', ''JoinDelay'', ''Encoding'', ''QuitMsg'', ''LoadModule'', ''Server'',
     ''TrustedServerFingerprint'']"

abbreviation net_low :: "string list" where
  "net_low \<equiv> [''nick'', ''altnick'', ''ident'', ''realname'', ''bindhost'', ''ircconnectenabled'', ''trustallcerts'',
     ''trustpki'', ''floodrate'', ''floodburst'', ''joindelay'', ''encoding'', ''quitmsg'', ''loadmodule'', ''server'',
     ''trustedserverfingerprint'']"

lemma net_keys_lower: "map AsLower net_keys = net_low"
  by code_simp

lemma net_keys_inj: "inj_on AsLower (set net_keys)"
  by (rule inj_on_list, unfold net_keys_lower) simp

lemma unless_empty_keys: "fst ` set (unless_empty k v) \<subseteq> {k}"
  by (simp add: unless_empty_def)

lemma net_pairs_keys: "fst ` set (net_pairs E nc) \<subseteq> set net_keys"
  by (auto simp: net_pairs_def unless_empty_def)

lemma Net_ToConfig_written: "Net_ToConfig E nc = written (net_pairs E nc) [(''Chan'', net_blocks nc)]"
  by (simp add: Net_ToConfig_def written_def)

definition net_at :: "load_env \<Rightarrow> netconf \<Rightarrow> string \<Rightarrow> string list" where
  "net_at E nc = om_at (c_entries (lower_config (Net_ToConfig E nc)))"

lemma net_at_key:
  assumes "AsLower k = l" and "k \<in> set net_keys"
  shows "net_at E nc l = map snd (filter (\<lambda>p. fst p = k \<and> snd p \<noteq> []) (net_pairs E nc))"
  unfolding net_at_def Net_ToConfig_written assms(1) [symmetric]
  by (rule written_entry [OF net_keys_inj net_pairs_keys assms(2)]) (use assms(2) in auto)

lemma net_at_none: "l \<notin> set net_low \<Longrightarrow> net_at E nc l = []"
  unfolding net_at_def Net_ToConfig_written
  by (rule written_entry_none [OF net_pairs_keys])
    (metis net_keys_lower set_map)

lemma filter_map_key: "filter (\<lambda>p. fst p = k \<and> snd p \<noteq> []) (map (\<lambda>x. (j, f x)) xs) =
    (if j = k then map (\<lambda>x. (j, f x)) (filter (\<lambda>x. f x \<noteq> []) xs) else [])"
  by (induction xs) auto

lemma filter_unless_empty: "filter (\<lambda>p. fst p = k \<and> snd p \<noteq> []) (unless_empty j v) = (if j = k then unless_empty j v else [])"
  by (simp add: unless_empty_def)

lemma map_snd_unless_empty: "map snd (unless_empty k v) = (if v \<noteq> [] then [v] else [])"
  by (simp add: unless_empty_def)

lemma module_line_nonempty: "mod_sModName m \<noteq> [] \<Longrightarrow> module_line m \<noteq> []"
  by (simp add: module_line_def)

lemma net_at:
  "net_at E nc ''nick'' = (if net_sNick (nc_net nc) \<noteq> [] then [net_sNick (nc_net nc)] else [])"
  "net_at E nc ''altnick'' = (if net_sAltNick (nc_net nc) \<noteq> [] then [net_sAltNick (nc_net nc)] else [])"
  "net_at E nc ''ident'' = (if net_sIdent (nc_net nc) \<noteq> [] then [net_sIdent (nc_net nc)] else [])"
  "net_at E nc ''realname'' = (if net_sRealName (nc_net nc) \<noteq> [] then [net_sRealName (nc_net nc)] else [])"
  "net_at E nc ''bindhost'' = (if net_sBindHost (nc_net nc) \<noteq> [] then [net_sBindHost (nc_net nc)] else [])"
  "net_at E nc ''quitmsg'' = (if net_sQuitMsg (nc_net nc) \<noteq> [] then [net_sQuitMsg (nc_net nc)] else [])"
  "net_at E nc ''encoding'' = (if nc_sEncoding nc \<noteq> [] then [nc_sEncoding nc] else [])"
  "net_at E nc ''ircconnectenabled'' = [bool_str (nc_bIRCConnectEnabled nc)]"
  "net_at E nc ''trustallcerts'' = [bool_str (nc_bTrustAllCerts nc)]"
  "net_at E nc ''trustpki'' = [bool_str (nc_bTrustPKI nc)]"
  "net_at E nc ''floodburst'' = [dec (nc_uFloodBurst nc)]"
  "net_at E nc ''joindelay'' = [dec (m_uJoinDelay (nc_net nc))]"
  "net_at E nc ''floodrate'' = (if le_ShowDouble E (nc_fFloodRate nc) \<noteq> [] then [le_ShowDouble E (nc_fFloodRate nc)] else [])"
  "net_at E nc ''loadmodule'' = filter (\<lambda>s. s \<noteq> []) (map module_line (nc_mods nc))"
  "net_at E nc ''server'' = filter (\<lambda>s. s \<noteq> []) (map (Server_GetString True) (m_vServers (nc_net nc)))"
  "net_at E nc ''trustedserverfingerprint'' = filter (\<lambda>s. s \<noteq> []) (nc_ssTrustedFingerprints nc)"
proof -
  note simps = net_pairs_def filter_append map_append filter_map_key filter_unless_empty map_snd_unless_empty comp_def filter_map
  show "net_at E nc ''nick'' = (if net_sNick (nc_net nc) \<noteq> [] then [net_sNick (nc_net nc)] else [])"
    by (subst net_at_key [where k = "''Nick''"], code_simp, simp, simp add: simps)
  show "net_at E nc ''altnick'' = (if net_sAltNick (nc_net nc) \<noteq> [] then [net_sAltNick (nc_net nc)] else [])"
    by (subst net_at_key [where k = "''AltNick''"], code_simp, simp, simp add: simps)
  show "net_at E nc ''ident'' = (if net_sIdent (nc_net nc) \<noteq> [] then [net_sIdent (nc_net nc)] else [])"
    by (subst net_at_key [where k = "''Ident''"], code_simp, simp, simp add: simps)
  show "net_at E nc ''realname'' = (if net_sRealName (nc_net nc) \<noteq> [] then [net_sRealName (nc_net nc)] else [])"
    by (subst net_at_key [where k = "''RealName''"], code_simp, simp, simp add: simps)
  show "net_at E nc ''bindhost'' = (if net_sBindHost (nc_net nc) \<noteq> [] then [net_sBindHost (nc_net nc)] else [])"
    by (subst net_at_key [where k = "''BindHost''"], code_simp, simp, simp add: simps)
  show "net_at E nc ''quitmsg'' = (if net_sQuitMsg (nc_net nc) \<noteq> [] then [net_sQuitMsg (nc_net nc)] else [])"
    by (subst net_at_key [where k = "''QuitMsg''"], code_simp, simp, simp add: simps)
  show "net_at E nc ''encoding'' = (if nc_sEncoding nc \<noteq> [] then [nc_sEncoding nc] else [])"
    by (subst net_at_key [where k = "''Encoding''"], code_simp, simp, simp add: simps)
  show "net_at E nc ''ircconnectenabled'' = [bool_str (nc_bIRCConnectEnabled nc)]"
    by (subst net_at_key [where k = "''IRCConnectEnabled''"], code_simp, simp, simp add: simps)
  show "net_at E nc ''trustallcerts'' = [bool_str (nc_bTrustAllCerts nc)]"
    by (subst net_at_key [where k = "''TrustAllCerts''"], code_simp, simp, simp add: simps)
  show "net_at E nc ''trustpki'' = [bool_str (nc_bTrustPKI nc)]"
    by (subst net_at_key [where k = "''TrustPKI''"], code_simp, simp, simp add: simps)
  show "net_at E nc ''floodburst'' = [dec (nc_uFloodBurst nc)]"
    by (subst net_at_key [where k = "''FloodBurst''"], code_simp, simp, simp add: simps)
  show "net_at E nc ''joindelay'' = [dec (m_uJoinDelay (nc_net nc))]"
    by (subst net_at_key [where k = "''JoinDelay''"], code_simp, simp, simp add: simps)
  show "net_at E nc ''floodrate'' = (if le_ShowDouble E (nc_fFloodRate nc) \<noteq> [] then [le_ShowDouble E (nc_fFloodRate nc)] else [])"
    by (subst net_at_key [where k = "''FloodRate''"], code_simp, simp, simp add: simps)
  show "net_at E nc ''loadmodule'' = filter (\<lambda>s. s \<noteq> []) (map module_line (nc_mods nc))"
    by (subst net_at_key [where k = "''LoadModule''"], code_simp, simp, simp add: simps)
  show "net_at E nc ''server'' = filter (\<lambda>s. s \<noteq> []) (map (Server_GetString True) (m_vServers (nc_net nc)))"
    by (subst net_at_key [where k = "''Server''"], code_simp, simp, simp add: simps)
  show "net_at E nc ''trustedserverfingerprint'' = filter (\<lambda>s. s \<noteq> []) (nc_ssTrustedFingerprints nc)"
    by (subst net_at_key [where k = "''TrustedServerFingerprint''"], code_simp, simp, simp add: simps)
qed

section \<open>Settings that fit the file\<close>

definition module_ok :: "cmodule \<Rightarrow> bool" where
  "module_ok m \<longleftrightarrow> mod_sModName m \<noteq> [] \<and> ValidateModuleName (mod_sModName m) \<and>
     (mod_sArgs m \<noteq> [] \<longrightarrow> hd (mod_sArgs m) \<noteq> CHR '' '')"

text \<open>
  Every module of the list can be loaded when it is not there yet, and keeps its name and arguments.
\<close>

definition loader_ok :: "mod_env \<Rightarrow> mod_type \<Rightarrow> nat \<Rightarrow> nat option \<Rightarrow> cmodule list \<Rightarrow> bool" where
  "loader_ok M t u n ms \<longleftrightarrow> (\<forall>m \<in> set ms. \<forall>cur. FindModule (mod_sModName m) cur = None \<longrightarrow>
     (\<exists>msg m1. LoadModule M (mod_sModName m) (mod_sArgs m) t (Some u) n cur = (True, msg, cur @ [m1]) \<and>
        mod_sModName m1 = mod_sModName m \<and> mod_sArgs m1 = mod_sArgs m))"

definition chans_ok :: "chan list \<Rightarrow> bool" where
  "chans_ok cs \<longleftrightarrow> distinct (map (\<lambda>c. AsLower (c_str (m_sName c))) cs) \<and>
     (\<forall>c \<in> set cs. chan_name_ok (m_sName c) \<and> m_bInConfig c \<and> b_uLineCount (m_Buffer c) < 2 ^ 32)"

definition net_storable :: "load_env \<Rightarrow> user_view \<Rightarrow> netconf \<Rightarrow> bool" where
  "net_storable E V nc \<longleftrightarrow>
     inherited_set (uv_sNick V) (net_sNick (nc_net nc)) = net_sNick (nc_net nc) \<and>
     inherited_set (uv_sAltNick V) (net_sAltNick (nc_net nc)) = net_sAltNick (nc_net nc) \<and>
     inherited_set (uv_sIdent V) (net_sIdent (nc_net nc)) = net_sIdent (nc_net nc) \<and>
     inherited_set (uv_sRealName V) (net_sRealName (nc_net nc)) = net_sRealName (nc_net nc) \<and>
     inherited_set (uv_sBindHost V) (net_sBindHost (nc_net nc)) = net_sBindHost (nc_net nc) \<and>
     inherited_set (uv_sQuitMsg V) (net_sQuitMsg (nc_net nc)) = net_sQuitMsg (nc_net nc) \<and>
     (nc_sEncoding nc \<noteq> [] \<longrightarrow> FixupEncoding E (nc_sEncoding nc) = nc_sEncoding nc) \<and>
     le_ShowDouble E (nc_fFloodRate nc) \<noteq> [] \<and> le_ToDouble E (le_ShowDouble E (nc_fFloodRate nc)) = nc_fFloodRate nc \<and>
     nc_uFloodBurst nc < 2 ^ 16 \<and> m_uJoinDelay (nc_net nc) < 2 ^ 16 \<and>
     distinct (m_vServers (nc_net nc)) \<and> (\<forall>s \<in> set (m_vServers (nc_net nc)). server_ok s) \<and>
     os_ok (nc_ssTrustedFingerprints nc) \<and>
     (\<forall>s \<in> set (nc_ssTrustedFingerprints nc). s \<noteq> [] \<and> Escape_n EHEXCOLON EHEXCOLON s = s) \<and>
     mods_unique (nc_mods nc) \<and>
     (\<forall>m \<in> set (nc_mods nc). module_ok m \<and> net_renamed (mod_sModName m) = mod_sModName m) \<and>
     chans_ok (filter m_bInConfig (m_vChans (nc_net nc)))"

section \<open>The options are read back\<close>

lemma inherited_set_Nil [simp]: "inherited_set u [] = []"
  by (simp add: inherited_set_def)

definition net_with_options :: "load_env \<Rightarrow> user_view \<Rightarrow> netconf \<Rightarrow> netconf \<Rightarrow> netconf" where
  "net_with_options E V src nc = fold (\<lambda>(k, f). opt f (net_at E src k)) (net_options E V) nc"

text \<open>A fresh network with its options given one by one.\<close>

definition net_state ::
    "nat \<Rightarrow> string \<Rightarrow> string \<Rightarrow> string \<Rightarrow> string \<Rightarrow> string \<Rightarrow> string \<Rightarrow> string \<Rightarrow> string \<Rightarrow>
     bool \<Rightarrow> bool \<Rightarrow> bool \<Rightarrow> real \<Rightarrow> nat \<Rightarrow> nat \<Rightarrow> netconf" where
  "net_state i nm n al idn r bh e q con ta tp fr fb jd = (mk_netconf i nm)
     \<lparr>nc_net := (mk_network nm) \<lparr>net_sNick := n, net_sAltNick := al, net_sIdent := idn, net_sRealName := r,
        net_sBindHost := bh, net_sQuitMsg := q, m_uJoinDelay := jd\<rparr>,
      nc_sEncoding := e, nc_bIRCConnectEnabled := con, nc_bTrustAllCerts := ta, nc_bTrustPKI := tp,
      nc_fFloodRate := fr, nc_uFloodBurst := fb\<rparr>"

lemma net_state_fresh: "mk_netconf i nm = net_state i nm [] [] [] [] [] [] [] True False True 2 9 0"
  by (simp add: net_state_def mk_netconf_def mk_network_def)

lemma net_state_steps:
  "opt (Net_SetNick V) (if s \<noteq> [] then [s] else []) (net_state i nm [] al idn r bh e q con ta tp fr fb jd) = net_state i nm (inherited_set (uv_sNick V) s) al idn r bh e q con ta tp fr fb jd"
  "opt (Net_SetAltNick V) (if s \<noteq> [] then [s] else []) (net_state i nm n [] idn r bh e q con ta tp fr fb jd) = net_state i nm n (inherited_set (uv_sAltNick V) s) idn r bh e q con ta tp fr fb jd"
  "opt (Net_SetIdent V) (if s \<noteq> [] then [s] else []) (net_state i nm n al [] r bh e q con ta tp fr fb jd) = net_state i nm n al (inherited_set (uv_sIdent V) s) r bh e q con ta tp fr fb jd"
  "opt (Net_SetRealName V) (if s \<noteq> [] then [s] else []) (net_state i nm n al idn [] bh e q con ta tp fr fb jd) = net_state i nm n al idn (inherited_set (uv_sRealName V) s) bh e q con ta tp fr fb jd"
  "opt (Net_SetBindHost V) (if s \<noteq> [] then [s] else []) (net_state i nm n al idn r [] e q con ta tp fr fb jd) = net_state i nm n al idn r (inherited_set (uv_sBindHost V) s) e q con ta tp fr fb jd"
  "opt (Net_SetQuitMsg V) (if s \<noteq> [] then [s] else []) (net_state i nm n al idn r bh e [] con ta tp fr fb jd) = net_state i nm n al idn r bh e (inherited_set (uv_sQuitMsg V) s) con ta tp fr fb jd"
  "opt (Net_SetEncoding E) (if s \<noteq> [] then [s] else []) (net_state i nm n al idn r bh [] q con ta tp fr fb jd) = net_state i nm n al idn r bh (if s \<noteq> [] then FixupEncoding E s else []) q con ta tp fr fb jd"
  "opt (\<lambda>s nc. snd (SetIRCConnectEnabled None (ToBool s) nc)) [bool_str b] (net_state i nm n al idn r bh e q con ta tp fr fb jd) = net_state i nm n al idn r bh e q b ta tp fr fb jd"
  "opt (\<lambda>s nc. nc \<lparr>nc_bTrustAllCerts := ToBool s\<rparr>) [bool_str b] (net_state i nm n al idn r bh e q con ta tp fr fb jd) = net_state i nm n al idn r bh e q con b tp fr fb jd"
  "opt (\<lambda>s nc. nc \<lparr>nc_bTrustPKI := ToBool s\<rparr>) [bool_str b] (net_state i nm n al idn r bh e q con ta tp fr fb jd) = net_state i nm n al idn r bh e q con ta b fr fb jd"
  "opt (\<lambda>s nc. nc \<lparr>nc_fFloodRate := le_ToDouble E s\<rparr>) (if s \<noteq> [] then [s] else []) (net_state i nm n al idn r bh e q con ta tp fr fb jd) = net_state i nm n al idn r bh e q con ta tp (if s \<noteq> [] then le_ToDouble E s else fr) fb jd"
  "opt (\<lambda>s nc. nc \<lparr>nc_uFloodBurst := ToUShort s\<rparr>) [dec k] (net_state i nm n al idn r bh e q con ta tp fr fb jd) = net_state i nm n al idn r bh e q con ta tp fr (ToUShort (dec k)) jd"
  "opt (\<lambda>s. with_net (\<lambda>n. n \<lparr>m_uJoinDelay := ToUShort s\<rparr>)) [dec k] (net_state i nm n al idn r bh e q con ta tp fr fb jd) = net_state i nm n al idn r bh e q con ta tp fr fb (ToUShort (dec k))"
  by (simp_all add: net_state_def mk_netconf_def mk_network_def with_net_def Net_SetNick_def Net_SetAltNick_def Net_SetIdent_def
        Net_SetRealName_def Net_SetBindHost_def Net_SetQuitMsg_def Net_SetEncoding_def SetIRCConnectEnabled_def Let_def)

lemma net_with_options_kept:
  assumes "net_storable E V src"
  shows "net_kept (net_with_options E V src (mk_netconf i sName)) =
      (fst (net_kept src), fst (snd (net_kept src)), [], [], [], []) \<and>
    nc_id (net_with_options E V src (mk_netconf i sName)) = i \<and>
    net_sName (nc_net (net_with_options E V src (mk_netconf i sName))) = sName \<and>
    nc_mods (net_with_options E V src (mk_netconf i sName)) = [] \<and>
    m_vServers (nc_net (net_with_options E V src (mk_netconf i sName))) = [] \<and>
    m_vChans (nc_net (net_with_options E V src (mk_netconf i sName))) = [] \<and>
    m_vClients (nc_net (net_with_options E V src (mk_netconf i sName))) = [] \<and>
    m_sChanPrefixes (nc_net (net_with_options E V src (mk_netconf i sName))) = []"
proof -
  note st = assms [unfolded net_storable_def]
  have "net_with_options E V src (mk_netconf i sName) =
      net_state i sName (net_sNick (nc_net src)) (net_sAltNick (nc_net src)) (net_sIdent (nc_net src)) (net_sRealName (nc_net src))
        (net_sBindHost (nc_net src)) (nc_sEncoding src) (net_sQuitMsg (nc_net src)) (nc_bIRCConnectEnabled src)
        (nc_bTrustAllCerts src) (nc_bTrustPKI src) (nc_fFloodRate src) (nc_uFloodBurst src) (m_uJoinDelay (nc_net src))"
    unfolding net_with_options_def net_options_def fold_simps prod.case net_at net_state_fresh net_state_steps
    using st by (simp add: ToUShort_dec)
  then show ?thesis by (simp add: net_state_def net_kept_def mk_netconf_def mk_network_def)
qed

section \<open>The lists are read back\<close>

lemma with_net_id [simp]: "with_net (\<lambda>n. n) nc = nc" "with_net f (with_net g nc) = with_net (f \<circ> g) nc"
  "nc_net (with_net f nc) = f (nc_net nc)" "nc_id (with_net f nc) = nc_id nc" "nc_mods (with_net f nc) = nc_mods nc"
  "nc_ssTrustedFingerprints (with_net f nc) = nc_ssTrustedFingerprints nc"
  by (simp_all add: with_net_def)

lemma read_servers:
  assumes "\<forall>s \<in> set ss. server_ok s" and "distinct (m_vServers n @ ss)"
  shows "fold (\<lambda>s n. snd (AddServer_str s n)) (map (Server_GetString True) ss) n = n \<lparr>m_vServers := m_vServers n @ ss\<rparr>"
  using assms
proof (induction ss arbitrary: n)
  case (Cons s ss)
  have "Server_GetString True s \<noteq> []" using Cons.prems(1) by (cases s) (auto simp: Server_GetString_def server_ok_def)
  then have "snd (AddServer_str (Server_GetString True s) n) = n \<lparr>m_vServers := m_vServers n @ [s]\<rparr>"
    using Cons.prems Parse_GetString [of s] by (auto simp: AddServer_str_def AddServer_def server_ok_def)
  then show ?case using Cons.IH [of "n \<lparr>m_vServers := m_vServers n @ [s]\<rparr>"] Cons.prems by simp
qed simp

lemma fold_with_net: "fold (\<lambda>s. with_net (f s)) xs nc = with_net (fold f xs) nc"
proof (induction xs arbitrary: nc)
  case (Cons x xs)
  then show ?case by (simp add: comp_def)
qed (simp add: id_def)

lemma os_rebuild: "os_ok (s @ t) \<Longrightarrow> fold os_insert t s = s @ t"
proof (induction t arbitrary: s)
  case (Cons x t)
  have "os_insert x s = s @ [x]"
    using Cons.prems sorted_insort_is_snoc [of s x] by (auto simp: os_insert_def os_ok_iff sorted_append)
  then show ?case using Cons.IH [of "s @ [x]"] Cons.prems by simp
qed simp

lemma read_fingerprints:
  assumes "\<forall>s \<in> set fs. Escape_n EHEXCOLON EHEXCOLON s = s" and "os_ok fs" and "nc_ssTrustedFingerprints nc = []"
  shows "fold AddTrustedFingerprint fs nc = nc \<lparr>nc_ssTrustedFingerprints := fs\<rparr>"
proof -
  have "fold AddTrustedFingerprint fs nc = nc \<lparr>nc_ssTrustedFingerprints := fold os_insert fs (nc_ssTrustedFingerprints nc)\<rparr>"
    using assms(1) by (induction fs arbitrary: nc) (simp_all add: AddTrustedFingerprint_def)
  then show ?thesis using os_rebuild [of "[]" fs] assms(2,3) by simp
qed

lemma ValidateModuleName_blank: "ValidateModuleName s \<Longrightarrow> CHR '' '' \<notin> set s"
  by (auto simp: ValidateModuleName_def list_all_iff ctype_simps byte_def)

lemma module_line_tokens:
  assumes "module_ok m"
  shows "token (module_line m) 0 = mod_sModName m" "token_rest (module_line m) 1 = mod_sArgs m"
  using assms ValidateModuleName_blank [of "mod_sModName m"] Token_pair [of "mod_sModName m" "mod_sArgs m"]
  by (auto simp: module_ok_def module_line_def)

lemma read_modules:
  assumes "loader_ok (le_mod E) NetworkModule (uv_pUser V) (Some (nc_id nc)) ms" and "\<forall>m \<in> set ms. module_ok m \<and> net_renamed (mod_sModName m) = mod_sModName m"
    and "distinct (map (\<lambda>m. AsLower (c_str (mod_sModName m))) (nc_mods nc @ ms))"
  shows "\<exists>ms'. net_load_modules E V all (map module_line ms) (e, nc) = (True, e, nc \<lparr>nc_mods := nc_mods nc @ ms'\<rparr>) \<and>
    map (\<lambda>m. (mod_sModName m, mod_sArgs m)) ms' = map (\<lambda>m. (mod_sModName m, mod_sArgs m)) ms"
  using assms
proof (induction ms arbitrary: nc)
  case Nil
  then show ?case by (intro exI [of _ "[]"]) simp
next
  case (Cons m ms)
  have fresh: "FindModule (mod_sModName m) (nc_mods nc) = None"
    using Cons.prems(3) by (auto simp: FindModule_None equals_ci_iff)
  obtain msg m1 where load: "LoadModule (le_mod E) (mod_sModName m) (mod_sArgs m) NetworkModule (Some (uv_pUser V)) (Some (nc_id nc)) (nc_mods nc) =
      (True, msg, nc_mods nc @ [m1])" and m1: "mod_sModName m1 = mod_sModName m" "mod_sArgs m1 = mod_sArgs m"
    using Cons.prems(1) fresh unfolding loader_ok_def by (metis list.set_intros(1))
  have ok: "module_ok m" "net_renamed (mod_sModName m) = mod_sModName m" using Cons.prems(2) by auto
  have step: "net_load_module E V all (module_line m) (e, nc) = (True, e, nc \<lparr>nc_mods := nc_mods nc @ [m1]\<rparr>)"
    using load module_line_tokens [OF ok(1)] ok(2) by (simp add: net_load_module_def Net_LoadModule_def Let_def)
  have "\<exists>ms'. net_load_modules E V all (map module_line ms) (e, nc \<lparr>nc_mods := nc_mods nc @ [m1]\<rparr>) =
      (True, e, (nc \<lparr>nc_mods := nc_mods nc @ [m1]\<rparr>) \<lparr>nc_mods := nc_mods (nc \<lparr>nc_mods := nc_mods nc @ [m1]\<rparr>) @ ms'\<rparr>) \<and>
    map (\<lambda>m. (mod_sModName m, mod_sArgs m)) ms' = map (\<lambda>m. (mod_sModName m, mod_sArgs m)) ms"
    by (rule Cons.IH) (use Cons.prems m1(1) in \<open>auto simp: loader_ok_def\<close>)
  then obtain ms' where ms': "net_load_modules E V all (map module_line ms) (e, nc \<lparr>nc_mods := nc_mods nc @ [m1]\<rparr>) =
      (True, e, nc \<lparr>nc_mods := nc_mods nc @ [m1] @ ms'\<rparr>)"
    "map (\<lambda>m. (mod_sModName m, mod_sArgs m)) ms' = map (\<lambda>m. (mod_sModName m, mod_sArgs m)) ms" by auto
  show ?case by (rule exI [of _ "m1 # ms'"]) (use step ms' m1 in simp)
qed

text \<open>Channel blocks, in order.\<close>

lemma read_chan_blocks:
  assumes "chans_ok cs" and "\<forall>c \<in> set cs. \<forall>d \<in> set (m_vChans (nc_net nc)). \<not> equals_ci (m_sName d) (m_sName c)"
    and "m_sChanPrefixes (nc_net nc) = []"
  shows "\<exists>cs'. net_chan_blocks V (lower_names (map (\<lambda>c. (m_sName c, Chan_ToConfig c)) cs)) (e, nc) =
      (True, if cs = [] then e else [], with_net (\<lambda>n. n \<lparr>m_vChans := m_vChans n @ cs'\<rparr>) nc) \<and> map chan_kept cs' = map chan_kept cs"
  using assms
proof (induction cs arbitrary: nc e)
  case Nil
  then show ?case by (intro exI [of _ "[]"]) (simp add: with_net_def)
next
  case (Cons c cs)
  let ?n = "nc_net nc" and ?U = "uv_user V"
  let ?on = "IsUserOnline ?n"
  let ?r = "chan_entries ?U ?on (mk_chan ?U ?on (IsChan ?n) (m_sName c) True None, lower_config (Chan_ToConfig c))"
  have c: "chan_name_ok (m_sName c)" "m_bInConfig c" "b_uLineCount (m_Buffer c) < 2 ^ 32"
    using Cons.prems(1) by (auto simp: chans_ok_def)
  have kept: "chan_kept (fst ?r) = chan_kept c" using chan_kept_read [OF c Cons.prems(3)] .
  have left: "Config_empty (snd ?r)" unfolding chan_block_read snd_conv by (rule chan_block_left)
  have nm: "m_sName (fst ?r) = m_sName c" using kept by (simp add: chan_kept_def)
  have add: "AddChan_ptr (fst ?r) ?n = (True, ?n \<lparr>m_vChans := m_vChans ?n @ [fst ?r]\<rparr>)"
    using Cons.prems(2) by (simp add: AddChan_ptr_def nm)
  let ?nc = "with_net (\<lambda>n. n \<lparr>m_vChans := m_vChans n @ [fst ?r]\<rparr>) nc"
  have step: "net_chan_block V (m_sName c) (lower_config (Chan_ToConfig c)) nc = (True, [], ?nc)"
    using left add by (simp add: net_chan_block_def Let_def split_beta with_net_def)
  have "\<exists>cs'. net_chan_blocks V (lower_names (map (\<lambda>c. (m_sName c, Chan_ToConfig c)) cs)) ([], ?nc) =
      (True, if cs = [] then [] else [], with_net (\<lambda>n. n \<lparr>m_vChans := m_vChans n @ cs'\<rparr>) ?nc) \<and> map chan_kept cs' = map chan_kept cs"
  proof (rule Cons.IH)
    show "chans_ok cs" using Cons.prems(1) by (simp add: chans_ok_def)
    show "m_sChanPrefixes (nc_net ?nc) = []" using Cons.prems(3) by simp
    show "\<forall>c \<in> set cs. \<forall>d \<in> set (m_vChans (nc_net ?nc)). \<not> equals_ci (m_sName d) (m_sName c)"
      using Cons.prems(1,2) by (auto simp: chans_ok_def nm equals_ci_iff)
  qed
  then obtain cs' where cs': "net_chan_blocks V (lower_names (map (\<lambda>c. (m_sName c, Chan_ToConfig c)) cs)) ([], ?nc) =
      (True, [], with_net (\<lambda>n. n \<lparr>m_vChans := m_vChans n @ cs'\<rparr>) ?nc)" "map chan_kept cs' = map chan_kept cs" by auto
  show ?case by (rule exI [of _ "fst ?r # cs'"]) (use step cs' kept in \<open>simp add: comp_def\<close>)
qed

section \<open>The network is read back\<close>

lemma net_blocks_ok:
  assumes "chans_ok (filter m_bInConfig (m_vChans (nc_net src)))"
  shows "distinct (map fst (net_blocks src))"
proof -
  have "distinct (map (\<lambda>c. AsLower (c_str (m_sName c))) (filter m_bInConfig (m_vChans (nc_net src))))"
    using assms by (simp add: chans_ok_def)
  then show ?thesis unfolding net_blocks_def by (simp add: distinct_map inj_on_def comp_def)
qed

lemma net_sub:
  assumes "chans_ok (filter m_bInConfig (m_vChans (nc_net src)))"
  shows "om_at (c_subs (lower_config (Net_ToConfig E src))) ''chan'' = lower_names (net_blocks src)"
    and "t \<noteq> ''chan'' \<Longrightarrow> om_at (c_subs (lower_config (Net_ToConfig E src))) t = []"
proof -
  have low: "AsLower ''Chan'' = ''chan''" by code_simp
  show "om_at (c_subs (lower_config (Net_ToConfig E src))) ''chan'' = lower_names (net_blocks src)"
    unfolding Net_ToConfig_written low [symmetric] by (rule written_block) (use net_blocks_ok [OF assms] in simp_all)
  show "om_at (c_subs (lower_config (Net_ToConfig E src))) t = []" if "t \<noteq> ''chan''"
    unfolding Net_ToConfig_written by (rule written_block_none) (use net_blocks_ok [OF assms] that low in simp_all)
qed

lemma net_options_keys: "map fst (net_options E V) = [''nick'', ''altnick'', ''ident'', ''realname'', ''bindhost'', ''encoding'',
    ''quitmsg'', ''ircconnectenabled'', ''trustallcerts'', ''trustpki'', ''floodrate'', ''floodburst'', ''joindelay'']"
  by (simp add: net_options_def)

lemma net_options_read:
  "parse_options (net_options E V) (x, lower_config (Net_ToConfig E src)) =
    (net_with_options E V src x, drop_keys (map fst (net_options E V)) (lower_config (Net_ToConfig E src)))"
  unfolding net_with_options_def net_at_def
proof (rule parse_options_one)
  show "entries_ok (lower_config (Net_ToConfig E src))"
    unfolding Net_ToConfig_written by (rule lower_written_ok)
  show "distinct (map fst (net_options E V))" by (simp add: net_options_keys)
  have "\<forall>k \<in> set (map fst (net_options E V)). length (net_at E src k) \<le> 1"
    unfolding net_options_keys by (simp add: net_at)
  then show "\<forall>k \<in> fst ` set (net_options E V). length (om_at (c_entries (lower_config (Net_ToConfig E src))) k) \<le> 1"
    by (simp add: net_at_def)
qed

lemma filter_all: "\<forall>x \<in> set xs. P x \<Longrightarrow> filter P xs = xs"
  by (induction xs) auto

lemma om_ok_sets_keys: "om_ok (c_sets c) \<Longrightarrow> om_ok (c_sets (drop_keys ks c))"
  by (induction ks arbitrary: c) simp_all

lemma Net_ParseConfig_back:
  assumes st: "net_storable E V src" and ld: "loader_ok (le_mod E) NetworkModule (uv_pUser V) (Some i) (nc_mods src)"
  obtains nc c where "Net_ParseConfig E V False e (mk_netconf i sName) (lower_config (Net_ToConfig E src)) =
      ((True, if filter m_bInConfig (m_vChans (nc_net src)) = [] then e else [], nc), c)"
    and "net_kept nc = net_kept src" and "Config_empty c" and "nc_id nc = i" and "net_sName (nc_net nc) = sName"
proof -
  let ?C = "lower_config (Net_ToConfig E src)" and ?cs = "filter m_bInConfig (m_vChans (nc_net src))"
  let ?ks = "map fst (net_options E V)"
  note st' = st [unfolded net_storable_def]
  have ok: "entries_ok ?C" "om_ok (c_sets ?C)" unfolding Net_ToConfig_written by (rule lower_written_ok)+
  let ?c1 = "drop_keys ?ks ?C" let ?c2 = "drop_key ''loadmodule'' ?c1" let ?c3 = "drop_key ''server'' ?c2"
  let ?c4 = "drop_key ''trustedserverfingerprint'' ?c3" let ?c5 = "drop_key ''chan'' ?c4" let ?c6 = "if ?cs = [] then ?c5 else drop_sub ''chan'' ?c5"
  have oks: "entries_ok ?c1" "entries_ok ?c2" "entries_ok ?c3" "entries_ok ?c4" "entries_ok ?c5" "om_ok (c_sets ?c5)"
    using ok om_ok_sets_keys [of ?C ?ks] by simp_all
  have at: "om_at (c_entries ?C) k = net_at E src k" for k by (simp add: net_at_def)
  have mods: "FindStringVector ''loadmodule'' True ?c1 = ((map module_line (nc_mods src) \<noteq> [], map module_line (nc_mods src)), ?c2)"
  proof -
    have "\<forall>s \<in> set (map module_line (nc_mods src)). s \<noteq> []" using st' by (auto simp: module_ok_def module_line_def)
    from filter_all [OF this] show ?thesis
      unfolding FindStringVector_all [OF oks(1)] using ok(1) by (simp add: net_options_keys at net_at)
  qed
  have servers: "FindStringVector ''server'' True ?c2 =
      ((map (Server_GetString True) (m_vServers (nc_net src)) \<noteq> [], map (Server_GetString True) (m_vServers (nc_net src))), ?c3)"
  proof -
    have "\<forall>s \<in> set (map (Server_GetString True) (m_vServers (nc_net src))). s \<noteq> []"
      using st' by (auto simp: server_ok_def Server_GetString_def)
    from filter_all [OF this] show ?thesis
      unfolding FindStringVector_all [OF oks(2)] using ok(1) oks(1) by (simp add: net_options_keys at net_at)
  qed
  have fps: "FindStringVector ''trustedserverfingerprint'' True ?c3 =
      ((nc_ssTrustedFingerprints src \<noteq> [], nc_ssTrustedFingerprints src), ?c4)"
  proof -
    have "\<forall>s \<in> set (nc_ssTrustedFingerprints src). s \<noteq> []" using st' by blast
    from filter_all [OF this] show ?thesis
      unfolding FindStringVector_all [OF oks(3)] using ok(1) oks(1,2) by (simp add: net_options_keys at net_at)
  qed
  have chanv: "FindStringVector ''chan'' True ?c4 = ((False, []), ?c5)"
    unfolding FindStringVector_all [OF oks(4)] using ok(1) oks(1-3) by (simp add: net_options_keys at net_at_none)
  have cok: "chans_ok ?cs" using st' by simp
  have blocks: "FindSubConfig ''chan'' True ?c5 = ((?cs \<noteq> [], lower_names (net_blocks src)), ?c6)"
    unfolding FindSubConfig_all [OF oks(5,6)] using ok(1) net_sub(1) [OF cok] by (auto simp: net_blocks_def lower_names_def)
  let ?n1 = "net_with_options E V src (mk_netconf i sName)"
  note n1 = net_with_options_kept [OF st, of i sName]
  have "\<exists>ms'. net_load_modules E V (map module_line (nc_mods src)) (map module_line (nc_mods src)) (e, ?n1) = (True, e, ?n1 \<lparr>nc_mods := nc_mods ?n1 @ ms'\<rparr>) \<and>
    map (\<lambda>m. (mod_sModName m, mod_sArgs m)) ms' = map (\<lambda>m. (mod_sModName m, mod_sArgs m)) (nc_mods src)"
    by (rule read_modules) (use st' ld n1 in \<open>simp_all add: mods_unique_def\<close>)
  then obtain ms where ms: "net_load_modules E V (map module_line (nc_mods src)) (map module_line (nc_mods src)) (e, ?n1) =
      (True, e, ?n1 \<lparr>nc_mods := ms\<rparr>)" "map (\<lambda>m. (mod_sModName m, mod_sArgs m)) ms = map (\<lambda>m. (mod_sModName m, mod_sArgs m)) (nc_mods src)"
    using n1 by auto
  let ?n2 = "?n1 \<lparr>nc_mods := ms\<rparr>"
  have srv: "fold (\<lambda>s n. snd (AddServer_str s n)) (map (Server_GetString True) (m_vServers (nc_net src))) (nc_net ?n2) =
      (nc_net ?n1) \<lparr>m_vServers := m_vServers (nc_net src)\<rparr>"
    using read_servers [of "m_vServers (nc_net src)" "nc_net ?n2"] st' n1 by simp
  let ?n3 = "with_net (\<lambda>_. (nc_net ?n1) \<lparr>m_vServers := m_vServers (nc_net src)\<rparr>) ?n2"
  have n3: "fold (\<lambda>s. with_net (\<lambda>n. snd (AddServer_str s n))) (map (Server_GetString True) (m_vServers (nc_net src))) ?n2 = ?n3"
    unfolding fold_with_net with_net_def using srv by simp
  let ?n4 = "?n3 \<lparr>nc_ssTrustedFingerprints := nc_ssTrustedFingerprints src\<rparr>"
  have n4: "fold AddTrustedFingerprint (nc_ssTrustedFingerprints src) ?n3 = ?n4"
    by (rule read_fingerprints) (use st' n1 in \<open>simp_all add: net_kept_def\<close>)
  have "\<exists>cs'. net_chan_blocks V (lower_names (map (\<lambda>c. (m_sName c, Chan_ToConfig c)) ?cs)) (e, ?n4) =
      (True, if ?cs = [] then e else [], with_net (\<lambda>n. n \<lparr>m_vChans := m_vChans n @ cs'\<rparr>) ?n4) \<and> map chan_kept cs' = map chan_kept ?cs"
    by (rule read_chan_blocks [OF cok]) (use n1 in \<open>simp_all add: with_net_def\<close>)
  then obtain cs where cs: "net_chan_blocks V (lower_names (net_blocks src)) (e, ?n4) =
      (True, if ?cs = [] then e else [], with_net (\<lambda>n. n \<lparr>m_vChans := m_vChans n @ cs\<rparr>) ?n4)" "map chan_kept cs = map chan_kept ?cs"
    unfolding net_blocks_def by auto
  let ?nc = "with_net (\<lambda>n. n \<lparr>m_vChans := m_vChans n @ cs\<rparr>) ?n4"
  have run: "Net_ParseConfig E V False e (mk_netconf i sName) ?C = ((True, if ?cs = [] then e else [], ?nc), ?c6)"
    by (simp only: Net_ParseConfig_def net_lists_def net_options_read mods servers fps chanv blocks ms(1) n3 n4 cs(1)
        fst_conv snd_conv prod.case Let_def if_False bool.case fold_simps)
  have inconf: "filter m_bInConfig cs = cs"
  proof -
    have "map (\<lambda>k. fst (snd k)) (map chan_kept cs) = map (\<lambda>k. fst (snd k)) (map chan_kept ?cs)" using cs(2) by simp
    then have eq: "map m_bInConfig cs = map m_bInConfig ?cs" by (simp add: chan_kept_def comp_def)
    have "\<forall>b \<in> set (map m_bInConfig ?cs). b" by simp
    then have "\<forall>b \<in> set (map m_bInConfig cs). b" unfolding eq .
    then show ?thesis by (simp add: filter_all)
  qed
  have "net_kept ?nc = net_kept src"
    using n1 ms(2) cs(2) inconf by (simp add: net_kept_def with_net_def)
  moreover have "Config_empty ?c6"
  proof (rule Config_empty_dropped)
    show "entries_ok ?c6" using oks(5) by simp
    show "\<forall>k. om_at (c_entries ?c6) k = []"
    proof
      fix k
      show "om_at (c_entries ?c6) k = []"
        using oks ok(1) net_at_none [of k] by (auto simp: net_options_keys at)
    qed
    show "\<forall>t. om_at (c_subs ?c6) t = []"
    proof
      fix t
      show "om_at (c_subs ?c6) t = []"
        using oks(5) net_sub(1) [OF cok, of E] net_sub(2) [OF cok, of t E] by (cases "t = ''chan''") (auto simp: net_blocks_def)
    qed
  qed
  moreover have "nc_id ?nc = i" "net_sName (nc_net ?nc) = sName" using n1 by (simp_all add: with_net_def)
  ultimately show ?thesis using that run by blast
qed

end
