(* ===== verification/User_Roundtrip.thy ===== *)
theory User_Roundtrip imports User_Config Network_Roundtrip begin

text \<open>
  A user is read back from the configuration that ToConfig makes: \<open>user_kept\<close> is what the file
  keeps, with the settings that have a default read through their getters.
\<close>

abbreviation user_keys :: "string list" where
  "user_keys \<equiv> [''Nick'', ''AltNick'', ''Ident'', ''RealName'', ''BindHost'', ''DCCBindHost'', ''QuitMsg'', ''Skin'', ''ChanModes'', ''TimestampFormat'', ''Timezone'', ''ClientEncoding'', ''Language'', ''StatusPrefix'', ''ChanBufferSize'', ''QueryBufferSize'', ''JoinTries'', ''MaxNetworks'', ''MaxQueryBuffers'', ''MaxJoins'', ''NoTrafficTimeout'', ''AutoClearChanBuffer'', ''AutoClearQueryBuffer'', ''MultiClients'', ''DenyLoadMod'', ''Admin'', ''DenySetBindHost'', ''DenySetIdent'', ''DenySetNetwork'', ''DenySetRealName'', ''DenySetQuitMsg'', ''DenySetCTCPReplies'', ''AppendTimestamp'', ''PrependTimestamp'', ''AuthOnlyViaModule'', ''Allow'', ''CTCPReply'', ''LoadModule'']"

abbreviation user_low :: "string list" where
  "user_low \<equiv> [''nick'', ''altnick'', ''ident'', ''realname'', ''bindhost'', ''dccbindhost'', ''quitmsg'', ''skin'', ''chanmodes'', ''timestampformat'', ''timezone'', ''clientencoding'', ''language'', ''statusprefix'', ''chanbuffersize'', ''querybuffersize'', ''jointries'', ''maxnetworks'', ''maxquerybuffers'', ''maxjoins'', ''notraffictimeout'', ''autoclearchanbuffer'', ''autoclearquerybuffer'', ''multiclients'', ''denyloadmod'', ''admin'', ''denysetbindhost'', ''denysetident'', ''denysetnetwork'', ''denysetrealname'', ''denysetquitmsg'', ''denysetctcpreplies'', ''appendtimestamp'', ''prependtimestamp'', ''authonlyviamodule'', ''allow'', ''ctcpreply'', ''loadmodule'']"

lemma user_keys_lower: "map AsLower user_keys = user_low"
  by code_simp

lemma user_keys_inj: "inj_on AsLower (set user_keys)"
  by (rule inj_on_list, unfold user_keys_lower) simp

lemma user_pairs_keys: "fst ` set (user_pairs E u) \<subseteq> set user_keys"
  by (auto simp: user_pairs_def)

definition net_tag_blocks :: "load_env \<Rightarrow> cuser \<Rightarrow> (string \<times> config) list" where
  "net_tag_blocks L u = map (\<lambda>nc. (net_sName (nc_net nc), Net_ToConfig L nc)) (cu_vIRCNetworks u)"

definition user_tags :: "user_env \<Rightarrow> cuser \<Rightarrow> (string \<times> (string \<times> config) list) list" where
  "user_tags E u = [(''Pass'', [(''password'', written (pass_pairs u) [])]), (''Network'', net_tag_blocks (ue_load E) u)]"

lemma add_pairs_AddSubConfig: "add_pairs ps (snd (AddSubConfig t n d c)) = snd (AddSubConfig t n d (add_pairs ps c))"
proof (induction ps arbitrary: c)
  case (Cons p ps)
  have "AddKeyValuePair k v (snd (AddSubConfig t n d c)) = snd (AddSubConfig t n d (AddKeyValuePair k v c))" for k v
    by (simp add: AddKeyValuePair_def AddSubConfig_def Let_def)
  then show ?case using Cons.IH by simp
qed simp

lemma User_ToConfig_written: "User_ToConfig E u = written (user_pairs E u) (user_tags E u)"
  by (simp add: User_ToConfig_def written_def user_tags_def net_tag_blocks_def add_pairs_AddSubConfig)

definition user_at :: "user_env \<Rightarrow> cuser \<Rightarrow> string \<Rightarrow> string list" where
  "user_at E u = om_at (c_entries (lower_config (User_ToConfig E u)))"

lemma user_at_key:
  assumes "AsLower k = l" and "k \<in> set user_keys"
  shows "user_at E u l = map snd (filter (\<lambda>p. fst p = k \<and> snd p \<noteq> []) (user_pairs E u))"
  unfolding user_at_def User_ToConfig_written assms(1) [symmetric]
  by (rule written_entry [OF user_keys_inj user_pairs_keys assms(2)]) (use assms(2) in auto)

lemma user_at_none: "l \<notin> set user_low \<Longrightarrow> user_at E u l = []"
  unfolding user_at_def User_ToConfig_written
  by (rule written_entry_none [OF user_pairs_keys]) (metis user_keys_lower set_map)

lemma filter_map_key': "filter (\<lambda>p. fst p = k \<and> snd p \<noteq> []) (map (\<lambda>(x, y). (j, f x y)) xs) =
    (if j = k then map (\<lambda>(x, y). (j, f x y)) (filter (\<lambda>(x, y). f x y \<noteq> []) xs) else [])"
  by (induction xs) auto

lemma user_at:
  "user_at E src ''nick'' = (if User_GetNick src True \<noteq> [] then [User_GetNick src True] else [])"
  "user_at E src ''altnick'' = (if User_GetAltNick src True \<noteq> [] then [User_GetAltNick src True] else [])"
  "user_at E src ''ident'' = (if User_GetIdent src True \<noteq> [] then [User_GetIdent src True] else [])"
  "user_at E src ''realname'' = (if User_GetRealName src \<noteq> [] then [User_GetRealName src] else [])"
  "user_at E src ''bindhost'' = (if cu_sBindHost src \<noteq> [] then [cu_sBindHost src] else [])"
  "user_at E src ''dccbindhost'' = (if cu_sDCCBindHost src \<noteq> [] then [cu_sDCCBindHost src] else [])"
  "user_at E src ''quitmsg'' = (if User_GetQuitMsg src \<noteq> [] then [User_GetQuitMsg src] else [])"
  "user_at E src ''skin'' = (if cu_sSkinName src \<noteq> [] then [cu_sSkinName src] else [])"
  "user_at E src ''chanmodes'' = (if cu_sDefaultChanModes src \<noteq> [] then [cu_sDefaultChanModes src] else [])"
  "user_at E src ''timestampformat'' = (if cu_sTimestampFormat src \<noteq> [] then [cu_sTimestampFormat src] else [])"
  "user_at E src ''timezone'' = (if cu_sTimezone src \<noteq> [] then [cu_sTimezone src] else [])"
  "user_at E src ''clientencoding'' = (if cu_sClientEncoding src \<noteq> [] then [cu_sClientEncoding src] else [])"
  "user_at E src ''language'' = (if cu_sLanguage src \<noteq> [] then [cu_sLanguage src] else [])"
  "user_at E src ''chanbuffersize'' = [dec (cu_uChanBufferSize src)]"
  "user_at E src ''querybuffersize'' = [dec (cu_uQueryBufferSize src)]"
  "user_at E src ''jointries'' = [dec (cu_uMaxJoinTries src)]"
  "user_at E src ''maxnetworks'' = [dec (cu_uMaxNetworks src)]"
  "user_at E src ''maxquerybuffers'' = [dec (cu_uMaxQueryBuffers src)]"
  "user_at E src ''maxjoins'' = [dec (cu_uMaxJoins src)]"
  "user_at E src ''notraffictimeout'' = [dec (cu_uNoTrafficTimeout src)]"
  "user_at E src ''autoclearchanbuffer'' = [bool_str (cu_bAutoClearChanBuffer src)]"
  "user_at E src ''autoclearquerybuffer'' = [bool_str (cu_bAutoClearQueryBuffer src)]"
  "user_at E src ''multiclients'' = [bool_str (cu_bMultiClients src)]"
  "user_at E src ''denyloadmod'' = [bool_str (cu_bDenyLoadMod src)]"
  "user_at E src ''admin'' = [bool_str (cu_bAdmin src)]"
  "user_at E src ''denysetbindhost'' = [bool_str (cu_bDenySetBindHost src)]"
  "user_at E src ''denysetident'' = [bool_str (cu_bDenySetIdent src)]"
  "user_at E src ''denysetnetwork'' = [bool_str (cu_bDenySetNetwork src)]"
  "user_at E src ''denysetrealname'' = [bool_str (cu_bDenySetRealName src)]"
  "user_at E src ''denysetquitmsg'' = [bool_str (cu_bDenySetQuitMsg src)]"
  "user_at E src ''denysetctcpreplies'' = [bool_str (cu_bDenySetCTCPReplies src)]"
  "user_at E src ''appendtimestamp'' = [bool_str (cu_bAppendTimestamp src)]"
  "user_at E src ''prependtimestamp'' = [bool_str (cu_bPrependTimestamp src)]"
  "user_at E src ''authonlyviamodule'' = [bool_str (cu_bAuthOnlyViaModule src)]"
  "user_at E src ''statusprefix'' = (if ue_sStatusPrefix E \<noteq> cu_sStatusPrefix src \<and> cu_sStatusPrefix src \<noteq> [] then [cu_sStatusPrefix src] else [])"
  "user_at E src ''allow'' = filter (\<lambda>s. s \<noteq> []) (cu_ssAllowedHosts src)"
  "user_at E src ''ctcpreply'' = map (\<lambda>(k, v). AsUpper k @ '' '' @ v) (cu_mssCTCPReplies src)"
  "user_at E src ''loadmodule'' = filter (\<lambda>s. s \<noteq> []) (map module_line (cu_mods src))"
proof -
  note simps = user_pairs_def filter_append map_append filter_map_key filter_map_key' comp_def filter_map
  show "user_at E src ''nick'' = (if User_GetNick src True \<noteq> [] then [User_GetNick src True] else [])"
    by (subst user_at_key [where k = "''Nick''"], code_simp, simp, simp add: simps split_beta)
  show "user_at E src ''altnick'' = (if User_GetAltNick src True \<noteq> [] then [User_GetAltNick src True] else [])"
    by (subst user_at_key [where k = "''AltNick''"], code_simp, simp, simp add: simps split_beta)
  show "user_at E src ''ident'' = (if User_GetIdent src True \<noteq> [] then [User_GetIdent src True] else [])"
    by (subst user_at_key [where k = "''Ident''"], code_simp, simp, simp add: simps split_beta)
  show "user_at E src ''realname'' = (if User_GetRealName src \<noteq> [] then [User_GetRealName src] else [])"
    by (subst user_at_key [where k = "''RealName''"], code_simp, simp, simp add: simps split_beta)
  show "user_at E src ''bindhost'' = (if cu_sBindHost src \<noteq> [] then [cu_sBindHost src] else [])"
    by (subst user_at_key [where k = "''BindHost''"], code_simp, simp, simp add: simps split_beta)
  show "user_at E src ''dccbindhost'' = (if cu_sDCCBindHost src \<noteq> [] then [cu_sDCCBindHost src] else [])"
    by (subst user_at_key [where k = "''DCCBindHost''"], code_simp, simp, simp add: simps split_beta)
  show "user_at E src ''quitmsg'' = (if User_GetQuitMsg src \<noteq> [] then [User_GetQuitMsg src] else [])"
    by (subst user_at_key [where k = "''QuitMsg''"], code_simp, simp, simp add: simps split_beta)
  show "user_at E src ''skin'' = (if cu_sSkinName src \<noteq> [] then [cu_sSkinName src] else [])"
    by (subst user_at_key [where k = "''Skin''"], code_simp, simp, simp add: simps split_beta)
  show "user_at E src ''chanmodes'' = (if cu_sDefaultChanModes src \<noteq> [] then [cu_sDefaultChanModes src] else [])"
    by (subst user_at_key [where k = "''ChanModes''"], code_simp, simp, simp add: simps split_beta)
  show "user_at E src ''timestampformat'' = (if cu_sTimestampFormat src \<noteq> [] then [cu_sTimestampFormat src] else [])"
    by (subst user_at_key [where k = "''TimestampFormat''"], code_simp, simp, simp add: simps split_beta)
  show "user_at E src ''timezone'' = (if cu_sTimezone src \<noteq> [] then [cu_sTimezone src] else [])"
    by (subst user_at_key [where k = "''Timezone''"], code_simp, simp, simp add: simps split_beta)
  show "user_at E src ''clientencoding'' = (if cu_sClientEncoding src \<noteq> [] then [cu_sClientEncoding src] else [])"
    by (subst user_at_key [where k = "''ClientEncoding''"], code_simp, simp, simp add: simps split_beta)
  show "user_at E src ''language'' = (if cu_sLanguage src \<noteq> [] then [cu_sLanguage src] else [])"
    by (subst user_at_key [where k = "''Language''"], code_simp, simp, simp add: simps split_beta)
  show "user_at E src ''chanbuffersize'' = [dec (cu_uChanBufferSize src)]"
    by (subst user_at_key [where k = "''ChanBufferSize''"], code_simp, simp, simp add: simps split_beta)
  show "user_at E src ''querybuffersize'' = [dec (cu_uQueryBufferSize src)]"
    by (subst user_at_key [where k = "''QueryBufferSize''"], code_simp, simp, simp add: simps split_beta)
  show "user_at E src ''jointries'' = [dec (cu_uMaxJoinTries src)]"
    by (subst user_at_key [where k = "''JoinTries''"], code_simp, simp, simp add: simps split_beta)
  show "user_at E src ''maxnetworks'' = [dec (cu_uMaxNetworks src)]"
    by (subst user_at_key [where k = "''MaxNetworks''"], code_simp, simp, simp add: simps split_beta)
  show "user_at E src ''maxquerybuffers'' = [dec (cu_uMaxQueryBuffers src)]"
    by (subst user_at_key [where k = "''MaxQueryBuffers''"], code_simp, simp, simp add: simps split_beta)
  show "user_at E src ''maxjoins'' = [dec (cu_uMaxJoins src)]"
    by (subst user_at_key [where k = "''MaxJoins''"], code_simp, simp, simp add: simps split_beta)
  show "user_at E src ''notraffictimeout'' = [dec (cu_uNoTrafficTimeout src)]"
    by (subst user_at_key [where k = "''NoTrafficTimeout''"], code_simp, simp, simp add: simps split_beta)
  show "user_at E src ''autoclearchanbuffer'' = [bool_str (cu_bAutoClearChanBuffer src)]"
    by (subst user_at_key [where k = "''AutoClearChanBuffer''"], code_simp, simp, simp add: simps split_beta)
  show "user_at E src ''autoclearquerybuffer'' = [bool_str (cu_bAutoClearQueryBuffer src)]"
    by (subst user_at_key [where k = "''AutoClearQueryBuffer''"], code_simp, simp, simp add: simps split_beta)
  show "user_at E src ''multiclients'' = [bool_str (cu_bMultiClients src)]"
    by (subst user_at_key [where k = "''MultiClients''"], code_simp, simp, simp add: simps split_beta)
  show "user_at E src ''denyloadmod'' = [bool_str (cu_bDenyLoadMod src)]"
    by (subst user_at_key [where k = "''DenyLoadMod''"], code_simp, simp, simp add: simps split_beta)
  show "user_at E src ''admin'' = [bool_str (cu_bAdmin src)]"
    by (subst user_at_key [where k = "''Admin''"], code_simp, simp, simp add: simps split_beta)
  show "user_at E src ''denysetbindhost'' = [bool_str (cu_bDenySetBindHost src)]"
    by (subst user_at_key [where k = "''DenySetBindHost''"], code_simp, simp, simp add: simps split_beta)
  show "user_at E src ''denysetident'' = [bool_str (cu_bDenySetIdent src)]"
    by (subst user_at_key [where k = "''DenySetIdent''"], code_simp, simp, simp add: simps split_beta)
  show "user_at E src ''denysetnetwork'' = [bool_str (cu_bDenySetNetwork src)]"
    by (subst user_at_key [where k = "''DenySetNetwork''"], code_simp, simp, simp add: simps split_beta)
  show "user_at E src ''denysetrealname'' = [bool_str (cu_bDenySetRealName src)]"
    by (subst user_at_key [where k = "''DenySetRealName''"], code_simp, simp, simp add: simps split_beta)
  show "user_at E src ''denysetquitmsg'' = [bool_str (cu_bDenySetQuitMsg src)]"
    by (subst user_at_key [where k = "''DenySetQuitMsg''"], code_simp, simp, simp add: simps split_beta)
  show "user_at E src ''denysetctcpreplies'' = [bool_str (cu_bDenySetCTCPReplies src)]"
    by (subst user_at_key [where k = "''DenySetCTCPReplies''"], code_simp, simp, simp add: simps split_beta)
  show "user_at E src ''appendtimestamp'' = [bool_str (cu_bAppendTimestamp src)]"
    by (subst user_at_key [where k = "''AppendTimestamp''"], code_simp, simp, simp add: simps split_beta)
  show "user_at E src ''prependtimestamp'' = [bool_str (cu_bPrependTimestamp src)]"
    by (subst user_at_key [where k = "''PrependTimestamp''"], code_simp, simp, simp add: simps split_beta)
  show "user_at E src ''authonlyviamodule'' = [bool_str (cu_bAuthOnlyViaModule src)]"
    by (subst user_at_key [where k = "''AuthOnlyViaModule''"], code_simp, simp, simp add: simps split_beta)
  show "user_at E src ''statusprefix'' = (if ue_sStatusPrefix E \<noteq> cu_sStatusPrefix src \<and> cu_sStatusPrefix src \<noteq> [] then [cu_sStatusPrefix src] else [])"
    by (subst user_at_key [where k = "''StatusPrefix''"], code_simp, simp, simp add: simps split_beta)
  show "user_at E src ''allow'' = filter (\<lambda>s. s \<noteq> []) (cu_ssAllowedHosts src)"
    by (subst user_at_key [where k = "''Allow''"], code_simp, simp, simp add: simps split_beta)
  show "user_at E src ''ctcpreply'' = map (\<lambda>(k, v). AsUpper k @ '' '' @ v) (cu_mssCTCPReplies src)"
    by (subst user_at_key [where k = "''CTCPReply''"], code_simp, simp, simp add: simps split_beta)
  show "user_at E src ''loadmodule'' = filter (\<lambda>s. s \<noteq> []) (map module_line (cu_mods src))"
    by (subst user_at_key [where k = "''LoadModule''"], code_simp, simp, simp add: simps split_beta)
qed

section \<open>What the file keeps of a user\<close>

definition user_strings :: "cuser \<Rightarrow> string list" where
  "user_strings u = [User_GetNick u True, User_GetAltNick u True, User_GetIdent u True, User_GetRealName u, cu_sBindHost u, cu_sDCCBindHost u, User_GetQuitMsg u, cu_sSkinName u, cu_sDefaultChanModes u, cu_sTimestampFormat u, cu_sTimezone u, cu_sClientEncoding u, cu_sLanguage u, cu_sStatusPrefix u]"

definition user_numbers :: "cuser \<Rightarrow> nat list" where
  "user_numbers u = [cu_uChanBufferSize u, cu_uQueryBufferSize u, cu_uMaxJoinTries u, cu_uMaxNetworks u, cu_uMaxQueryBuffers u, cu_uMaxJoins u, cu_uNoTrafficTimeout u]"

definition user_flags :: "cuser \<Rightarrow> bool list" where
  "user_flags u = [cu_bAutoClearChanBuffer u, cu_bAutoClearQueryBuffer u, cu_bMultiClients u, cu_bDenyLoadMod u, cu_bAdmin u, cu_bDenySetBindHost u, cu_bDenySetIdent u, cu_bDenySetNetwork u, cu_bDenySetRealName u, cu_bDenySetQuitMsg u, cu_bDenySetCTCPReplies u, cu_bAppendTimestamp u, cu_bPrependTimestamp u, cu_bAuthOnlyViaModule u]"

definition user_kept where
  "user_kept u = (cu_sUsername u, user_strings u, user_numbers u, user_flags u, cu_ssAllowedHosts u, cu_mssCTCPReplies u,
     (cu_sPass u, cu_eHashType u, cu_sPassSalt u), map (\<lambda>m. (mod_sModName m, mod_sArgs m)) (cu_mods u),
     map (\<lambda>nc. (net_sName (nc_net nc), net_kept nc)) (cu_vIRCNetworks u))"

definition user_module_ok :: "cmodule \<Rightarrow> bool" where
  "user_module_ok m \<longleftrightarrow> module_ok m \<and> user_renamed (mod_sModName m) = mod_sModName m \<and>
     mod_sModName m \<noteq> ''fixfreenode'' \<and> mod_sModName m \<noteq> ''charset''"

definition ctcp_ok :: "(string, string) omap \<Rightarrow> bool" where
  "ctcp_ok rs \<longleftrightarrow> om_ok rs \<and> (\<forall>(k, v) \<in> set rs. k \<noteq> [] \<and> CHR '' '' \<notin> set k \<and> AsUpper k = k \<and> (v \<noteq> [] \<longrightarrow> hd v \<noteq> CHR '' ''))"

definition user_storable :: "user_env \<Rightarrow> cuser \<Rightarrow> bool" where
  "user_storable E u \<longleftrightarrow>
     cu_sCleanUsername u = MakeCleanUserName (cu_sUsername u) \<and>
     (cu_sClientEncoding u \<noteq> [] \<longrightarrow> FixupEncoding (ue_load E) (cu_sClientEncoding u) = cu_sClientEncoding u) \<and>
     cu_sTimestampFormat u \<noteq> [] \<and> (\<forall>n \<in> set (user_numbers u). n < 2 ^ 32) \<and>
     fst (SetLanguage (cu_sLanguage u) u) \<and> Replace_n (cu_sLanguage u) ''_'' ''-'' = cu_sLanguage u \<and>
     fst (SetStatusPrefix (cu_sStatusPrefix u) u) \<and>
     os_ok (cu_ssAllowedHosts u) \<and> [] \<notin> set (cu_ssAllowedHosts u) \<and> ctcp_ok (cu_mssCTCPReplies u) \<and>
     (cu_eHashType u = HASH_NONE \<or> cu_eHashType u = HASH_ARGON2ID \<longrightarrow> cu_sPassSalt u = []) \<and>
     mods_unique (cu_mods u) \<and> (\<forall>m \<in> set (cu_mods u). user_module_ok m) \<and>
     distinct (map (\<lambda>nc. AsLower (c_str (net_sName (nc_net nc)))) (cu_vIRCNetworks u)) \<and>
     (\<forall>nc \<in> set (cu_vIRCNetworks u). net_storable (ue_load E) (view_of E u) nc)"

section \<open>The options are read back\<close>

lemma opt_if_id: "opt f (if b then [v] else []) x = (if b then f v x else x)"
  by simp

lemma opt_strings:
  "opt (\<lambda>s u. u \<lparr>cu_sNick := s\<rparr>) (if b then [v] else []) u = u \<lparr>cu_sNick := if b then v else cu_sNick u\<rparr>"
  "opt (\<lambda>s u. u \<lparr>cu_sQuitMsg := s\<rparr>) (if b then [v] else []) u = u \<lparr>cu_sQuitMsg := if b then v else cu_sQuitMsg u\<rparr>"
  "opt (\<lambda>s u. u \<lparr>cu_sAltNick := s\<rparr>) (if b then [v] else []) u = u \<lparr>cu_sAltNick := if b then v else cu_sAltNick u\<rparr>"
  "opt (\<lambda>s u. u \<lparr>cu_sIdent := s\<rparr>) (if b then [v] else []) u = u \<lparr>cu_sIdent := if b then v else cu_sIdent u\<rparr>"
  "opt (\<lambda>s u. u \<lparr>cu_sRealName := s\<rparr>) (if b then [v] else []) u = u \<lparr>cu_sRealName := if b then v else cu_sRealName u\<rparr>"
  "opt (\<lambda>s u. u \<lparr>cu_sDefaultChanModes := s\<rparr>) (if b then [v] else []) u = u \<lparr>cu_sDefaultChanModes := if b then v else cu_sDefaultChanModes u\<rparr>"
  "opt (\<lambda>s u. u \<lparr>cu_sBindHost := s\<rparr>) (if b then [v] else []) u = u \<lparr>cu_sBindHost := if b then v else cu_sBindHost u\<rparr>"
  "opt (\<lambda>s u. u \<lparr>cu_sDCCBindHost := s\<rparr>) (if b then [v] else []) u = u \<lparr>cu_sDCCBindHost := if b then v else cu_sDCCBindHost u\<rparr>"
  "opt (\<lambda>s u. u \<lparr>cu_sTimestampFormat := s\<rparr>) (if b then [v] else []) u = u \<lparr>cu_sTimestampFormat := if b then v else cu_sTimestampFormat u\<rparr>"
  "opt (\<lambda>s u. u \<lparr>cu_sSkinName := s\<rparr>) (if b then [v] else []) u = u \<lparr>cu_sSkinName := if b then v else cu_sSkinName u\<rparr>"
  "opt (\<lambda>s u. u \<lparr>cu_sTimezone := s\<rparr>) (if b then [v] else []) u = u \<lparr>cu_sTimezone := if b then v else cu_sTimezone u\<rparr>"
  "opt (User_SetClientEncoding E) (if b then [v] else []) u = u \<lparr>cu_sClientEncoding := if b then FixupEncoding (ue_load E) v else cu_sClientEncoding u\<rparr>"
  by (simp_all add: User_SetClientEncoding_def)

lemma no_nets_setters:
  assumes "cu_vIRCNetworks u = []"
  shows "SetKeepBuffer b u = u \<lparr>cu_bAutoClearChanBuffer := \<not> b\<rparr>"
    "User_SetAutoClearChanBuffer b u = u \<lparr>cu_bAutoClearChanBuffer := b\<rparr>"
    "snd (SetChanBufferSize E n True u) = u \<lparr>cu_uChanBufferSize := n\<rparr>"
    "snd (SetQueryBufferSize E n True u) = u \<lparr>cu_uQueryBufferSize := n\<rparr>"
  using assms by (simp_all add: SetKeepBuffer_def User_SetAutoClearChanBuffer_def SetChanBufferSize_def SetQueryBufferSize_def map_nets_def)

definition fresh_user :: "nat \<Rightarrow> string \<Rightarrow> string \<Rightarrow> cuser" where
  "fresh_user i sName sPrefix = (mk_cuser i sName) \<lparr>cu_sStatusPrefix := sPrefix\<rparr>"

definition user_part1 :: "user_env \<Rightarrow> cuser \<Rightarrow> string \<Rightarrow> cuser" where
  "user_part1 E src p = fold (\<lambda>(k, f). opt f (user_at E src k)) (user_options E) (fresh_user (cu_id src) (cu_sUsername src) p)"

lemma user_none: "user_at E src ''vhost'' = []"
  "user_at E src ''dccvhost'' = []"
  "user_at E src ''keepbuffer'' = []"
  "user_at E src ''denysetvhost'' = []"
  "user_at E src ''buffer'' = []"
  "user_at E src ''awaysuffix'' = []"
  "user_at E src ''autocycle'' = []"
  "user_at E src ''keepnick'' = []"
  "user_at E src ''timezoneoffset'' = []"
  "user_at E src ''timestamp'' = []"
  "user_at E src ''ircconnectenabled'' = []"
  "user_at E src ''pass'' = []"
  "user_at E src ''server'' = []"
  "user_at E src ''chan'' = []"
  "user_at E src ''bouncedccs'' = []"
  "user_at E src ''dcclookupmethod'' = []"
  by (rule user_at_none, simp)+

lemma user_part1:
  assumes "user_storable E src"
  shows "user_part1 E src p = (fresh_user (cu_id src) (cu_sUsername src) p)
    \<lparr>cu_sNick := User_GetNick src True, cu_sQuitMsg := User_GetQuitMsg src, cu_sAltNick := User_GetAltNick src True, cu_sIdent := User_GetIdent src True, cu_sRealName := User_GetRealName src, cu_sDefaultChanModes := cu_sDefaultChanModes src, cu_sBindHost := cu_sBindHost src, cu_sDCCBindHost := cu_sDCCBindHost src, cu_sTimestampFormat := cu_sTimestampFormat src, cu_sSkinName := cu_sSkinName src, cu_sClientEncoding := cu_sClientEncoding src, cu_uMaxJoinTries := cu_uMaxJoinTries src, cu_uMaxNetworks := cu_uMaxNetworks src, cu_uMaxQueryBuffers := cu_uMaxQueryBuffers src, cu_uMaxJoins := cu_uMaxJoins src, cu_uNoTrafficTimeout := cu_uNoTrafficTimeout src, cu_bAutoClearChanBuffer := cu_bAutoClearChanBuffer src, cu_bAutoClearQueryBuffer := cu_bAutoClearQueryBuffer src, cu_bMultiClients := cu_bMultiClients src, cu_bDenyLoadMod := cu_bDenyLoadMod src, cu_bAdmin := cu_bAdmin src, cu_bDenySetBindHost := cu_bDenySetBindHost src, cu_bDenySetIdent := cu_bDenySetIdent src, cu_bDenySetNetwork := cu_bDenySetNetwork src, cu_bDenySetRealName := cu_bDenySetRealName src, cu_bDenySetQuitMsg := cu_bDenySetQuitMsg src, cu_bDenySetCTCPReplies := cu_bDenySetCTCPReplies src, cu_bAppendTimestamp := cu_bAppendTimestamp src, cu_bPrependTimestamp := cu_bPrependTimestamp src, cu_bAuthOnlyViaModule := cu_bAuthOnlyViaModule src\<rparr>"
proof -
  note st = assms [unfolded user_storable_def user_numbers_def]
  have clean: "cu_sCleanUsername src = MakeCleanUserName (cu_sUsername src)" using st by simp
  have empties: "User_GetRealName src \<noteq> []" "User_GetQuitMsg src \<noteq> []"
    by (auto simp: User_GetRealName_def User_GetQuitMsg_def Trim_n_eq)
  have keep: "(if v \<noteq> [] then v else []) = v" for v :: string by simp
  have dflt: "(if User_GetNick src True \<noteq> [] then User_GetNick src True else MakeCleanUserName (cu_sUsername src)) = User_GetNick src True"
    "(if User_GetIdent src True \<noteq> [] then User_GetIdent src True else MakeCleanUserName (cu_sUsername src)) = User_GetIdent src True"
    using clean by (auto simp: User_GetNick_def User_GetIdent_def)
  have vals: "(if cu_sClientEncoding src \<noteq> [] then FixupEncoding (ue_load E) (cu_sClientEncoding src) else []) = cu_sClientEncoding src"
    "(if cu_sTimestampFormat src \<noteq> [] then cu_sTimestampFormat src else x) = cu_sTimestampFormat src"
    "(if User_GetRealName src \<noteq> [] then User_GetRealName src else x) = User_GetRealName src"
    "(if User_GetQuitMsg src \<noteq> [] then User_GetQuitMsg src else x) = User_GetQuitMsg src" for x
    using st empties by auto
  have nums: "ToUInt (dec (cu_uMaxJoinTries src)) = cu_uMaxJoinTries src" "ToUInt (dec (cu_uMaxNetworks src)) = cu_uMaxNetworks src"
    "ToUInt (dec (cu_uMaxQueryBuffers src)) = cu_uMaxQueryBuffers src" "ToUInt (dec (cu_uMaxJoins src)) = cu_uMaxJoins src"
    "ToUInt (dec (cu_uNoTrafficTimeout src)) = cu_uNoTrafficTimeout src"
    using st by (simp_all add: ToUInt_dec)
  show ?thesis
    unfolding user_part1_def user_options_def fold_simps prod.case user_at user_none
    by (simp only: fresh_user_def mk_cuser_def opt_strings opt_simps cuser.simps no_nets_setters ToBool_bool_str keep dflt vals nums)
qed

section \<open>Options and vectors\<close>

lemma user_config_ok: "entries_ok (lower_config (User_ToConfig E src))" "om_ok (c_sets (lower_config (User_ToConfig E src)))"
  unfolding User_ToConfig_written by (rule lower_written_ok)+

text \<open>The configurations the steps see: entries \<open>ks\<close> and blocks \<open>ts\<close> have been taken.\<close>

definition taken :: "string list \<Rightarrow> string list \<Rightarrow> config \<Rightarrow> config" where
  "taken ks ts c = fold drop_sub ts (drop_keys ks c)"

lemma taken_ok:
  assumes "entries_ok c" and "om_ok (c_sets c)"
  shows "entries_ok (taken ks ts c)" "om_ok (c_sets (taken ks ts c))"
    "om_at (c_entries (taken ks ts c)) k = (if k \<in> set ks then [] else om_at (c_entries c) k)"
    "om_at (c_subs (taken ks ts c)) t = (if t \<in> set ts then [] else om_at (c_subs c) t)"
proof -
  have base: "entries_ok (drop_keys ks c)" "om_ok (c_sets (drop_keys ks c))" using assms by (simp_all add: om_ok_sets_keys)
  have one: "om_ok (c_sets d) \<Longrightarrow> om_ok (c_sets (drop_sub t d))" for t d by (simp add: drop_sub_def)
  have all: "entries_ok (fold drop_sub ts d) \<and> om_ok (c_sets (fold drop_sub ts d)) \<and> c_entries (fold drop_sub ts d) = c_entries d \<and>
      om_at (c_subs (fold drop_sub ts d)) t = (if t \<in> set ts then [] else om_at (c_subs d) t)"
    if "entries_ok d" "om_ok (c_sets d)" for d
    using that
  proof (induction ts arbitrary: d)
    case (Cons a ts)
    from Cons.IH [of "drop_sub a d"] one [OF Cons.prems(2)] Cons.prems show ?case by simp
  qed simp
  from all [OF base] assms show "entries_ok (taken ks ts c)" "om_ok (c_sets (taken ks ts c))"
    "om_at (c_entries (taken ks ts c)) k = (if k \<in> set ks then [] else om_at (c_entries c) k)"
    "om_at (c_subs (taken ks ts c)) t = (if t \<in> set ts then [] else om_at (c_subs c) t)"
    by (simp_all add: taken_def)
qed

lemma drop_key_sub: "drop_key k (drop_sub t c) = drop_sub t (drop_key k c)"
  by (simp add: drop_key_def drop_sub_def)

lemma taken_more: "drop_key k (taken ks ts c) = taken (ks @ [k]) ts c" "drop_keys js (taken ks ts c) = taken (ks @ js) ts c"
  "drop_sub t (taken ks ts c) = taken ks (ts @ [t]) c"
proof -
  have 1: "drop_key k (fold drop_sub ts d) = fold drop_sub ts (drop_key k d)" for k d
    by (induction ts arbitrary: d) (simp_all add: drop_key_sub)
  show 2: "drop_key k (taken ks ts c) = taken (ks @ [k]) ts c" for k ks by (simp add: taken_def 1 drop_keys_append)
  show "drop_keys js (taken ks ts c) = taken (ks @ js) ts c"
    by (induction js arbitrary: ks) (simp_all add: 2)
  show "drop_sub t (taken ks ts c) = taken ks (ts @ [t]) c" by (simp add: taken_def)
qed

lemma user_opts_step:
  fixes E src
  defines "C \<equiv> lower_config (User_ToConfig E src)"
  assumes "distinct (map fst os)" and "set (map fst os) \<inter> set ks = {}" and "\<forall>k \<in> set (map fst os). length (user_at E src k) \<le> 1"
  shows "user_opts os (e, u, taken ks ts C) =
    (True, e, fold (\<lambda>(k, f). opt f (user_at E src k)) os u, taken (ks @ map fst os) ts C)"
proof -
  note tok = taken_ok [OF user_config_ok(1) [of E src] user_config_ok(2) [of E src], folded C_def]
  have at: "om_at (c_entries (taken ks ts C)) k = user_at E src k" if "k \<in> fst ` set os" for k
    using that assms(3) tok(3) [of ks ts k] by (auto simp: user_at_def C_def)
  have "parse_options os (u, taken ks ts C) =
      (fold (\<lambda>(k, f). opt f (om_at (c_entries (taken ks ts C)) k)) os u, drop_keys (map fst os) (taken ks ts C))"
    by (rule parse_options_one) (use assms at tok in auto)
  also have "fold (\<lambda>(k, f). opt f (om_at (c_entries (taken ks ts C)) k)) os u = fold (\<lambda>(k, f). opt f (user_at E src k)) os u"
    by (intro fold_cong [OF refl refl]) (use at in force)
  finally show ?thesis by (simp add: user_opts_def taken_more)
qed

lemma user_entry_none:
  assumes "user_at E src k = []"
  shows "FindStringEntry k d (taken ks ts (lower_config (User_ToConfig E src))) =
    ((False, d), taken (ks @ [k]) ts (lower_config (User_ToConfig E src)))"
  using FindStringEntry_one [OF taken_ok(1) [OF user_config_ok(1) [of E src] user_config_ok(2) [of E src], of ks ts], of k d]
    taken_ok(3) [OF user_config_ok(1) [of E src] user_config_ok(2) [of E src], of ks ts k] assms by (simp add: user_at_def taken_more)

lemma user_vector_read:
  assumes "k \<notin> set ks"
  shows "FindStringVector k True (taken ks ts (lower_config (User_ToConfig E src))) =
    ((user_at E src k \<noteq> [], user_at E src k), taken (ks @ [k]) ts (lower_config (User_ToConfig E src)))"
  using FindStringVector_all [OF taken_ok(1) [OF user_config_ok(1) [of E src] user_config_ok(2) [of E src], of ks ts], of k]
    taken_ok(3) [OF user_config_ok(1) [of E src] user_config_ok(2) [of E src], of ks ts k] assms by (simp add: user_at_def taken_more)

lemma user_sub_read:
  assumes "t \<notin> set ts"
  shows "FindSubConfig t True (taken ks ts (lower_config (User_ToConfig E src))) =
    ((om_at (c_subs (lower_config (User_ToConfig E src))) t \<noteq> [], om_at (c_subs (lower_config (User_ToConfig E src))) t),
     if om_at (c_subs (lower_config (User_ToConfig E src))) t \<noteq> [] then taken ks (ts @ [t]) (lower_config (User_ToConfig E src))
     else taken ks ts (lower_config (User_ToConfig E src)))"
  using FindSubConfig_all [OF taken_ok(1,2) [OF user_config_ok(1) [of E src] user_config_ok(2) [of E src], of ks ts], of t True]
    taken_ok(4) [OF user_config_ok(1) [of E src] user_config_ok(2) [of E src], of ks ts t] assms by (simp add: taken_more)

section \<open>Hosts and replies\<close>

lemma read_hosts:
  assumes "os_ok hs" and "[] \<notin> set hs" and "cu_ssAllowedHosts u = []"
  shows "fold (\<lambda>s u. snd (AddAllowedHost s u)) hs u = u \<lparr>cu_ssAllowedHosts := hs\<rparr>"
proof -
  have "fold (\<lambda>s u. snd (AddAllowedHost s u)) hs u = u \<lparr>cu_ssAllowedHosts := fold os_insert hs (cu_ssAllowedHosts u)\<rparr>"
    using assms(2) by (induction hs arbitrary: u) (auto simp: AddAllowedHost_def os_insert_def)
  then show ?thesis using os_rebuild [of "[]" hs] assms(1,3) by simp
qed

lemma reply_tokens:
  assumes "k \<noteq> []" and "CHR '' '' \<notin> set k" and "v \<noteq> [] \<longrightarrow> hd v \<noteq> CHR '' ''"
  shows "token (k @ '' '' @ v) 0 = k" "token_rest (k @ '' '' @ v) 1 = v"
  using Token_first(1,3) [of "CHR '' ''" k v] assms by simp_all

lemma read_replies:
  assumes "ctcp_ok rs" and "cu_mssCTCPReplies u = []"
  shows "fold (\<lambda>s u. snd (AddCTCPReply (token s 0) (token_rest s 1) u)) (map (\<lambda>(k, v). AsUpper k @ '' '' @ v) rs) u =
    u \<lparr>cu_mssCTCPReplies := rs\<rparr>"
proof -
  have "fold (\<lambda>s u. snd (AddCTCPReply (token s 0) (token_rest s 1) u)) (map (\<lambda>(k, v). AsUpper k @ '' '' @ v) rs) u =
      u \<lparr>cu_mssCTCPReplies := fold (\<lambda>(k, v). om_insert k v) rs (cu_mssCTCPReplies u)\<rparr>"
    if "\<forall>(k, v) \<in> set rs. k \<noteq> [] \<and> CHR '' '' \<notin> set k \<and> AsUpper k = k \<and> (v \<noteq> [] \<longrightarrow> hd v \<noteq> CHR '' '')"
    using that
  proof (induction rs arbitrary: u)
    case (Cons r rs)
    obtain k v where r: "r = (k, v)" by (cases r)
    have "snd (AddCTCPReply (token (k @ '' '' @ v) 0) (token_rest (k @ '' '' @ v) 1) u) =
        u \<lparr>cu_mssCTCPReplies := om_insert k v (cu_mssCTCPReplies u)\<rparr>"
      using reply_tokens [of k v] Cons.prems by (simp add: r AddCTCPReply_def)
    then show ?case using Cons.IH [of "u \<lparr>cu_mssCTCPReplies := om_insert k v (cu_mssCTCPReplies u)\<rparr>"] Cons.prems by (simp add: r)
  qed simp
  then show ?thesis using om_rebuild [of "[]" rs] assms by (simp add: ctcp_ok_def)
qed

section \<open>The password block\<close>

lemma hash_method_name: "hash_method (hash_name h) = Some h" "hash_name h \<noteq> []"
  by (cases h; simp add: hash_name_def hash_method_def; code_simp)+

lemma pass_keys_lower: "map AsLower [''Salt'', ''Method'', ''Hash''] = [''salt'', ''method'', ''hash'']"
  by code_simp

lemma pass_keys_inj: "inj_on AsLower (set [''Salt'', ''Method'', ''Hash''])"
  by (rule inj_on_list, unfold pass_keys_lower) simp

lemma pass_block:
  fixes u
  defines "P \<equiv> lower_config (written (pass_pairs u) [])"
  shows "FindStringEntry ''hash'' [] P = ((cu_sPass u \<noteq> [], cu_sPass u), drop_keys [''hash''] P)"
    and "FindStringEntry ''method'' [] (drop_keys [''hash''] P) = ((True, hash_name (cu_eHashType u)), drop_keys [''hash'', ''method''] P)"
    and "FindStringEntry ''salt'' [] (drop_keys [''hash'', ''method''] P) =
      ((cu_sPassSalt u \<noteq> [], cu_sPassSalt u), drop_keys [''hash'', ''method'', ''salt''] P)"
    and "Config_empty (drop_keys [''hash'', ''method'', ''salt''] P)"
proof -
  have keys: "fst ` set (pass_pairs u) \<subseteq> set [''Salt'', ''Method'', ''Hash'']" by (simp add: pass_pairs_def)
  have low: "AsLower ''Salt'' = ''salt''" "AsLower ''Method'' = ''method''" "AsLower ''Hash'' = ''hash''" by code_simp+
  note ent = written_entry [OF pass_keys_inj keys, where tbs = "[]", folded P_def]
  have at: "om_at (c_entries P) ''salt'' = (if cu_sPassSalt u \<noteq> [] then [cu_sPassSalt u] else [])"
    "om_at (c_entries P) ''method'' = [hash_name (cu_eHashType u)]"
    "om_at (c_entries P) ''hash'' = (if cu_sPass u \<noteq> [] then [cu_sPass u] else [])"
    using ent [of "''Salt''"] ent [of "''Method''"] ent [of "''Hash''"] unfolding low
    by (simp_all add: pass_pairs_def hash_method_name)
  have none: "om_at (c_entries P) k = []" if "k \<notin> {''salt'', ''method'', ''hash''}" for k
    unfolding P_def by (rule written_entry_none [OF keys]) (use that low in auto)
  have ok: "entries_ok P" unfolding P_def by (rule lower_written_ok)
  have ok1: "entries_ok (drop_keys ks P)" for ks using ok by simp
  have e1: "om_at (c_entries (drop_keys [''hash''] P)) ''method'' = [hash_name (cu_eHashType u)]"
    "om_at (c_entries (drop_keys [''hash'', ''method''] P)) ''salt'' = (if cu_sPassSalt u \<noteq> [] then [cu_sPassSalt u] else [])"
    unfolding drop_keys_simps(5) [OF ok] by (simp_all add: at)
  show "FindStringEntry ''hash'' [] P = ((cu_sPass u \<noteq> [], cu_sPass u), drop_keys [''hash''] P)"
    using FindStringEntry_one [OF ok, of "''hash''" "[]"] by (simp add: at split: if_splits)
  show "FindStringEntry ''method'' [] (drop_keys [''hash''] P) = ((True, hash_name (cu_eHashType u)), drop_keys [''hash'', ''method''] P)"
    using FindStringEntry_one [OF ok1, of "[''hash'']" "''method''" "[]"] unfolding e1 by simp
  show "FindStringEntry ''salt'' [] (drop_keys [''hash'', ''method''] P) =
      ((cu_sPassSalt u \<noteq> [], cu_sPassSalt u), drop_keys [''hash'', ''method'', ''salt''] P)"
    using FindStringEntry_one [OF ok1, of "[''hash'', ''method'']" "''salt''" "[]"] unfolding e1 by (simp split: if_splits)
  show "Config_empty (drop_keys [''hash'', ''method'', ''salt''] P)"
  proof (rule Config_empty_dropped [OF ok1])
    show "\<forall>k. om_at (c_entries (drop_keys [''hash'', ''method'', ''salt''] P)) k = []"
      unfolding drop_keys_simps(5) [OF ok] using none by auto
    show "\<forall>t. om_at (c_subs (drop_keys [''hash'', ''method'', ''salt''] P)) t = []"
      unfolding drop_keys_simps(1) P_def by (simp add: written_subs_Nil)
  qed
qed

section \<open>The networks of the user\<close>

lemma find_idx_None_iff: "find_idx P xs = None \<longleftrightarrow> (\<forall>x \<in> set xs. \<not> P x)"
  by (induction xs) auto

lemma find_idx_snoc: "find_idx P xs = None \<Longrightarrow> find_idx P (xs @ [x]) = (if P x then Some (length xs) else None)"
  by (induction xs) (auto split: if_splits)

definition user_loader_ok :: "user_env \<Rightarrow> cuser \<Rightarrow> bool" where
  "user_loader_ok E u \<longleftrightarrow>
     loader_ok (le_mod (ue_load E)) UserModule (cu_id u) None (cu_mods u) \<and>
     (\<forall>m \<in> set (cu_mods u). \<exists>info. GetModInfo (le_mod (ue_load E)) (ue_OnGetModInfo E) (mod_sModName m) = Inr info \<and>
        UserModule \<in> set (mi_seType info)) \<and>
     (\<forall>nc \<in> set (cu_vIRCNetworks u). \<forall>i. loader_ok (le_mod (ue_load E)) NetworkModule (cu_id u) (Some i) (nc_mods nc))"

lemma view_of_nets [simp]: "view_of E (u \<lparr>cu_vIRCNetworks := ns\<rparr>) = view_of E u"
  by (simp add: view_of_def user_settings_def User_GetNick_def User_GetAltNick_def User_GetIdent_def User_GetRealName_def User_GetQuitMsg_def)

lemma read_network:
  assumes "net_storable (ue_load E) (view_of E u) nc" and "\<forall>i. loader_ok (le_mod (ue_load E)) NetworkModule (cu_id u) (Some i) (nc_mods nc)"
    and "\<forall>d \<in> set (cu_vIRCNetworks u). \<not> equals_ci (net_sName (nc_net d)) (net_sName (nc_net nc))"
  shows "\<exists>nc'. user_network E (net_sName (nc_net nc)) (lower_config (Net_ToConfig (ue_load E) nc)) ([], u) =
      (True, [], u \<lparr>cu_vIRCNetworks := cu_vIRCNetworks u @ [nc']\<rparr>) \<and>
    net_sName (nc_net nc') = net_sName (nc_net nc) \<and> net_kept nc' = net_kept nc"
proof -
  let ?nm = "net_sName (nc_net nc)" and ?i = "fresh_id (cu_vIRCNetworks u)"
  have none: "find_idx (\<lambda>nc. equals_ci (net_sName (nc_net nc)) ?nm) (cu_vIRCNetworks u) = None"
    using assms(3) by (simp add: find_idx_None_iff)
  let ?u1 = "u \<lparr>cu_vIRCNetworks := cu_vIRCNetworks u @ [mk_netconf ?i ?nm]\<rparr>"
  have nm: "net_sName (nc_net (mk_netconf ?i ?nm)) = ?nm" by (simp add: mk_netconf_def mk_network_def)
  have u1: "(if User_FindNetwork ?nm u = None then snd (AddNetwork_ptr (mk_netconf ?i ?nm) u) else u) = ?u1"
    using none by (simp add: User_FindNetwork_def AddNetwork_ptr_def nm)
  have idx: "User_FindNetwork ?nm ?u1 = Some (length (cu_vIRCNetworks u))"
    using find_idx_snoc [OF none, of "mk_netconf ?i ?nm"] by (simp add: User_FindNetwork_def nm)
  have "loader_ok (le_mod (ue_load E)) NetworkModule (uv_pUser (view_of E u)) (Some ?i) (nc_mods nc)"
    using assms(2) by (simp add: view_of_def)
  then obtain nc' c where run: "Net_ParseConfig (ue_load E) (view_of E u) False [] (mk_netconf ?i ?nm) (lower_config (Net_ToConfig (ue_load E) nc)) =
      ((True, [], nc'), c)" and nc': "net_kept nc' = net_kept nc" "net_sName (nc_net nc') = ?nm"
    using Net_ParseConfig_back [OF assms(1), of ?i "[]" ?nm] by (metis (full_types))
  have "user_network E ?nm (lower_config (Net_ToConfig (ue_load E) nc)) ([], u) =
      (True, [], u \<lparr>cu_vIRCNetworks := cu_vIRCNetworks u @ [nc']\<rparr>)"
    unfolding user_network_def Let_def prod.case u1 idx option.sel view_of_nets
    using run by (simp add: set_net_def)
  then show ?thesis using nc' by blast
qed

lemma read_networks:
  assumes "\<forall>nc \<in> set ns. net_storable (ue_load E) (view_of E u) nc \<and> (\<forall>i. loader_ok (le_mod (ue_load E)) NetworkModule (cu_id u) (Some i) (nc_mods nc))"
    and "distinct (map (\<lambda>nc. AsLower (c_str (net_sName (nc_net nc)))) (cu_vIRCNetworks u @ ns))"
  shows "\<exists>ns'. user_networks E (lower_names (map (\<lambda>nc. (net_sName (nc_net nc), Net_ToConfig (ue_load E) nc)) ns)) ([], u) =
      (True, [], u \<lparr>cu_vIRCNetworks := cu_vIRCNetworks u @ ns'\<rparr>) \<and>
    map (\<lambda>nc. (net_sName (nc_net nc), net_kept nc)) ns' = map (\<lambda>nc. (net_sName (nc_net nc), net_kept nc)) ns"
  using assms
proof (induction ns arbitrary: u)
  case Nil
  then show ?case by (intro exI [of _ "[]"]) simp
next
  case (Cons nc ns)
  have fresh: "\<forall>d \<in> set (cu_vIRCNetworks u). \<not> equals_ci (net_sName (nc_net d)) (net_sName (nc_net nc))"
  proof
    fix d
    assume "d \<in> set (cu_vIRCNetworks u)"
    then have "AsLower (c_str (net_sName (nc_net d))) \<in> (\<lambda>nc. AsLower (c_str (net_sName (nc_net nc)))) ` set (cu_vIRCNetworks u)"
      by (rule imageI)
    moreover have "AsLower (c_str (net_sName (nc_net nc))) \<notin> (\<lambda>nc. AsLower (c_str (net_sName (nc_net nc)))) ` set (cu_vIRCNetworks u)"
      using Cons.prems(2) by simp
    ultimately show "\<not> equals_ci (net_sName (nc_net d)) (net_sName (nc_net nc))" unfolding equals_ci_iff by metis
  qed
  have st: "net_storable (ue_load E) (view_of E u) nc"
    and ld: "\<forall>i. loader_ok (le_mod (ue_load E)) NetworkModule (cu_id u) (Some i) (nc_mods nc)"
    using Cons.prems(1) by simp_all
  obtain nc' where step: "user_network E (net_sName (nc_net nc)) (lower_config (Net_ToConfig (ue_load E) nc)) ([], u) =
      (True, [], u \<lparr>cu_vIRCNetworks := cu_vIRCNetworks u @ [nc']\<rparr>)"
    and nc': "net_sName (nc_net nc') = net_sName (nc_net nc)" "net_kept nc' = net_kept nc"
    using read_network [OF st ld fresh] by blast
  let ?u = "u \<lparr>cu_vIRCNetworks := cu_vIRCNetworks u @ [nc']\<rparr>"
  have "\<exists>ns'. user_networks E (lower_names (map (\<lambda>nc. (net_sName (nc_net nc), Net_ToConfig (ue_load E) nc)) ns)) ([], ?u) =
      (True, [], ?u \<lparr>cu_vIRCNetworks := cu_vIRCNetworks ?u @ ns'\<rparr>) \<and>
    map (\<lambda>nc. (net_sName (nc_net nc), net_kept nc)) ns' = map (\<lambda>nc. (net_sName (nc_net nc), net_kept nc)) ns"
    by (rule Cons.IH) (use Cons.prems nc'(1) in simp_all)
  then obtain ns' where ns': "user_networks E (lower_names (map (\<lambda>nc. (net_sName (nc_net nc), Net_ToConfig (ue_load E) nc)) ns)) ([], ?u) =
      (True, [], u \<lparr>cu_vIRCNetworks := cu_vIRCNetworks u @ [nc'] @ ns'\<rparr>)"
    "map (\<lambda>nc. (net_sName (nc_net nc), net_kept nc)) ns' = map (\<lambda>nc. (net_sName (nc_net nc), net_kept nc)) ns" by auto
  show ?case by (rule exI [of _ "nc' # ns'"]) (use step ns' nc' in simp)
qed

section \<open>The modules of the user\<close>

lemma read_user_modules:
  assumes "loader_ok (le_mod (ue_load E)) UserModule (cu_id u) None ms" and "\<forall>m \<in> set ms. user_module_ok m"
    and "\<forall>m \<in> set ms. \<exists>info. GetModInfo (le_mod (ue_load E)) (ue_OnGetModInfo E) (mod_sModName m) = Inr info \<and> UserModule \<in> set (mi_seType info)"
    and "distinct (map (\<lambda>m. AsLower (c_str (mod_sModName m))) (cu_mods u @ ms))"
  shows "\<exists>ms'. user_load_modules E all (map module_line ms) (e, u) = (True, e, u \<lparr>cu_mods := cu_mods u @ ms'\<rparr>) \<and>
    map (\<lambda>m. (mod_sModName m, mod_sArgs m)) ms' = map (\<lambda>m. (mod_sModName m, mod_sArgs m)) ms"
  using assms
proof (induction ms arbitrary: u)
  case Nil
  then show ?case by (intro exI [of _ "[]"]) simp
next
  case (Cons m ms)
  have fresh: "FindModule (mod_sModName m) (cu_mods u) = None"
    using Cons.prems(4) by (auto simp: FindModule_None equals_ci_iff)
  obtain msg m1 where load: "LoadModule (le_mod (ue_load E)) (mod_sModName m) (mod_sArgs m) UserModule (Some (cu_id u)) None (cu_mods u) =
      (True, msg, cu_mods u @ [m1])" and m1: "mod_sModName m1 = mod_sModName m" "mod_sArgs m1 = mod_sArgs m"
    using Cons.prems(1) fresh unfolding loader_ok_def by (metis list.set_intros(1))
  obtain info where info: "GetModInfo (le_mod (ue_load E)) (ue_OnGetModInfo E) (mod_sModName m) = Inr info" "UserModule \<in> set (mi_seType info)"
    using Cons.prems(3) by auto
  have ok: "module_ok m" "user_renamed (mod_sModName m) = mod_sModName m" "mod_sModName m \<noteq> ''fixfreenode''" "mod_sModName m \<noteq> ''charset''"
    using Cons.prems(2) by (auto simp: user_module_ok_def)
  have step: "user_load_module E all (module_line m) (e, u) = (True, e, u \<lparr>cu_mods := cu_mods u @ [m1]\<rparr>)"
    using load info module_line_tokens [OF ok(1)] ok(2-) by (simp add: user_load_module_def User_LoadModule_def Let_def)
  have "\<exists>ms'. user_load_modules E all (map module_line ms) (e, u \<lparr>cu_mods := cu_mods u @ [m1]\<rparr>) =
      (True, e, (u \<lparr>cu_mods := cu_mods u @ [m1]\<rparr>) \<lparr>cu_mods := cu_mods (u \<lparr>cu_mods := cu_mods u @ [m1]\<rparr>) @ ms'\<rparr>) \<and>
    map (\<lambda>m. (mod_sModName m, mod_sArgs m)) ms' = map (\<lambda>m. (mod_sModName m, mod_sArgs m)) ms"
    by (rule Cons.IH) (use Cons.prems m1(1) in \<open>auto simp: loader_ok_def\<close>)
  then obtain ms' where ms': "user_load_modules E all (map module_line ms) (e, u \<lparr>cu_mods := cu_mods u @ [m1]\<rparr>) =
      (True, e, u \<lparr>cu_mods := cu_mods u @ [m1] @ ms'\<rparr>)"
    "map (\<lambda>m. (mod_sModName m, mod_sArgs m)) ms' = map (\<lambda>m. (mod_sModName m, mod_sArgs m)) ms" by auto
  show ?case by (rule exI [of _ "m1 # ms'"]) (use step ms' m1 in simp)
qed

section \<open>The user is read back\<close>

text \<open>The user after all steps but those of the networks and the modules.\<close>

definition user_read :: "cuser \<Rightarrow> string \<Rightarrow> cuser" where
  "user_read src p = (fresh_user (cu_id src) (cu_sUsername src) p)
     \<lparr>cu_sNick := User_GetNick src True, cu_sQuitMsg := User_GetQuitMsg src, cu_sAltNick := User_GetAltNick src True, cu_sIdent := User_GetIdent src True, cu_sRealName := User_GetRealName src, cu_sDefaultChanModes := cu_sDefaultChanModes src, cu_sBindHost := cu_sBindHost src, cu_sDCCBindHost := cu_sDCCBindHost src, cu_sTimestampFormat := cu_sTimestampFormat src, cu_sSkinName := cu_sSkinName src, cu_sClientEncoding := cu_sClientEncoding src, cu_uMaxJoinTries := cu_uMaxJoinTries src, cu_uMaxNetworks := cu_uMaxNetworks src, cu_uMaxQueryBuffers := cu_uMaxQueryBuffers src, cu_uMaxJoins := cu_uMaxJoins src, cu_uNoTrafficTimeout := cu_uNoTrafficTimeout src, cu_bAutoClearChanBuffer := cu_bAutoClearChanBuffer src, cu_bAutoClearQueryBuffer := cu_bAutoClearQueryBuffer src, cu_bMultiClients := cu_bMultiClients src, cu_bDenyLoadMod := cu_bDenyLoadMod src, cu_bAdmin := cu_bAdmin src, cu_bDenySetBindHost := cu_bDenySetBindHost src, cu_bDenySetIdent := cu_bDenySetIdent src, cu_bDenySetNetwork := cu_bDenySetNetwork src, cu_bDenySetRealName := cu_bDenySetRealName src, cu_bDenySetQuitMsg := cu_bDenySetQuitMsg src, cu_bDenySetCTCPReplies := cu_bDenySetCTCPReplies src, cu_bAppendTimestamp := cu_bAppendTimestamp src, cu_bPrependTimestamp := cu_bPrependTimestamp src, cu_bAuthOnlyViaModule := cu_bAuthOnlyViaModule src, cu_ssAllowedHosts := cu_ssAllowedHosts src, cu_mssCTCPReplies := cu_mssCTCPReplies src, cu_uChanBufferSize := cu_uChanBufferSize src, cu_uQueryBufferSize := cu_uQueryBufferSize src, cu_sStatusPrefix := cu_sStatusPrefix src, cu_sTimezone := cu_sTimezone src, cu_sLanguage := cu_sLanguage src, cu_sPass := cu_sPass src, cu_eHashType := cu_eHashType src, cu_sPassSalt := cu_sPassSalt src\<rparr>"

lemma user_tags_ok:
  assumes "user_storable E src"
  shows "inj_on AsLower (fst ` set (user_tags E src))" "distinct (map fst (user_tags E src))"
    "\<forall>e \<in> set (user_tags E src). distinct (map fst (snd e))"
proof -
  have low: "map AsLower [''Pass'', ''Network''] = [''pass'', ''network'']" by code_simp
  have "distinct (map (\<lambda>nc. AsLower (c_str (net_sName (nc_net nc)))) (cu_vIRCNetworks src))"
    using assms by (simp add: user_storable_def)
  then have "distinct (map fst (net_tag_blocks (ue_load E) src))"
    unfolding net_tag_blocks_def by (simp add: distinct_map inj_on_def comp_def)
  then show "\<forall>e \<in> set (user_tags E src). distinct (map fst (snd e))" by (simp add: user_tags_def)
  show "distinct (map fst (user_tags E src))" by (simp add: user_tags_def)
  have "inj_on AsLower (set [''Pass'', ''Network''])" by (rule inj_on_list, unfold low) simp
  then show "inj_on AsLower (fst ` set (user_tags E src))" by (simp add: user_tags_def)
qed

lemma user_sub:
  assumes "user_storable E src"
  shows "om_at (c_subs (lower_config (User_ToConfig E src))) ''pass'' = [(''password'', lower_config (written (pass_pairs src) []))]"
    "om_at (c_subs (lower_config (User_ToConfig E src))) ''network'' = lower_names (net_tag_blocks (ue_load E) src)"
    "t \<notin> {''pass'', ''network''} \<Longrightarrow> om_at (c_subs (lower_config (User_ToConfig E src))) t = []"
proof -
  have low: "AsLower ''Pass'' = ''pass''" "AsLower ''Network'' = ''network''" by code_simp+
  note b = written_block [OF user_tags_ok [OF assms], of _ _ "user_pairs E src"]
  show "om_at (c_subs (lower_config (User_ToConfig E src))) ''pass'' = [(''password'', lower_config (written (pass_pairs src) []))]"
    unfolding User_ToConfig_written low [symmetric] by (subst b) (auto simp: user_tags_def)
  show "om_at (c_subs (lower_config (User_ToConfig E src))) ''network'' = lower_names (net_tag_blocks (ue_load E) src)"
    unfolding User_ToConfig_written low [symmetric] by (subst b) (auto simp: user_tags_def)
  show "om_at (c_subs (lower_config (User_ToConfig E src))) t = []" if "t \<notin> {''pass'', ''network''}"
    unfolding User_ToConfig_written
    by (rule written_block_none [OF user_tags_ok [OF assms]]) (use that low in \<open>simp add: user_tags_def\<close>)
qed

lemma step_simps:
  "run_steps (f # fs) st = (case f st of (True, st') \<Rightarrow> run_steps fs st' | (False, st') \<Rightarrow> (False, st'))"
  "run_steps [] st = (True, st)"
  by simp_all

lemma password_step:
  assumes "user_storable E src" and "''pass'' \<notin> set ts"
  shows "user_password (e, u, taken ks ts (lower_config (User_ToConfig E src))) =
    (True, e, u \<lparr>cu_sPass := cu_sPass src, cu_eHashType := cu_eHashType src, cu_sPassSalt := cu_sPassSalt src\<rparr>,
     taken (ks @ [''pass'']) (ts @ [''pass'']) (lower_config (User_ToConfig E src)))"
proof -
  have salt: "cu_eHashType src = HASH_NONE \<or> cu_eHashType src = HASH_ARGON2ID \<longrightarrow> cu_sPassSalt src = []"
    using assms(1) by (simp add: user_storable_def)
  have old: "old_password [] u = ([], User_SetPass [] HASH_NONE [] u)"
  proof -
    have "TrimSuffix ''-'' [] = (False, [])" "Token [] 0 False ''#'' False = []" "Token [] 1 True ''#'' False = []"
      by code_simp+
    then show ?thesis unfolding old_password_def by (simp only: prod.case bool.case Let_def) simp
  qed
  note pb = pass_block [of src]
  show ?thesis
    unfolding user_password_def prod.case user_entry_none [OF user_none(12)] Let_def old user_sub_read [OF assms(2)] user_sub(1) [OF assms(1)]
    using pb salt by (simp add: hash_method_name User_SetPass_def)
qed

lemma taken_start: "c = taken [] [] c"
  by (simp add: taken_def)

lemma user_read_view: "user_storable E src \<Longrightarrow> view_of E (user_read src p) = view_of E src"
proof -
  assume st: "user_storable E src"
  then have clean: "cu_sCleanUsername src = MakeCleanUserName (cu_sUsername src)" by (simp add: user_storable_def)
  have g: "Trim_n ws (User_GetRealName src) \<noteq> []" "Trim_n ws (User_GetQuitMsg src) \<noteq> []"
    unfolding User_GetRealName_def User_GetQuitMsg_def by (simp_all split: if_split) (code_simp+)
  show ?thesis
    using clean g
    by (simp add: user_read_def view_of_def user_settings_def fresh_user_def mk_cuser_def)
      (simp add: User_GetNick_def User_GetAltNick_def User_GetIdent_def User_GetRealName_def User_GetQuitMsg_def)
qed

lemma statusprefix_step:
  assumes "user_storable E src" and "''statusprefix'' \<notin> set ks"
    and "ue_sStatusPrefix E = cu_sStatusPrefix src \<longrightarrow> cu_sStatusPrefix u = cu_sStatusPrefix src"
  shows "user_statusprefix (e, u, taken ks ts (lower_config (User_ToConfig E src))) =
    (True, e, u \<lparr>cu_sStatusPrefix := cu_sStatusPrefix src\<rparr>, taken (ks @ [''statusprefix'']) ts (lower_config (User_ToConfig E src)))"
proof -
  have ok: "cu_sStatusPrefix src \<noteq> []" "length (cu_sStatusPrefix src) < 6" "CHR '' '' \<notin> set (cu_sStatusPrefix src)"
    using assms(1) by (auto simp: user_storable_def SetStatusPrefix_def split: if_splits)
  show ?thesis
  proof (cases "ue_sStatusPrefix E = cu_sStatusPrefix src")
    case True
    then have "user_at E src ''statusprefix'' = []" by (simp add: user_at)
    from user_entry_none [OF this] show ?thesis using True assms(3) by (simp add: user_statusprefix_def)
  next
    case False
    let ?T = "taken ks ts (lower_config (User_ToConfig E src))"
    have at: "om_at (c_entries ?T) ''statusprefix'' = [cu_sStatusPrefix src]"
      using taken_ok(3) [OF user_config_ok(1) [of E src] user_config_ok(2) [of E src], of ks ts "''statusprefix''"] False ok(1) assms(2)
      by (simp add: user_at [unfolded user_at_def])
    have "FindStringEntry ''statusprefix'' [] ?T = ((True, cu_sStatusPrefix src), taken (ks @ [''statusprefix'']) ts (lower_config (User_ToConfig E src)))"
      using FindStringEntry_one [OF taken_ok(1) [OF user_config_ok(1) [of E src] user_config_ok(2) [of E src], of ks ts], of "''statusprefix''" "[]"]
      unfolding at by (simp add: taken_more)
    then show ?thesis using ok by (simp add: user_statusprefix_def SetStatusPrefix_def)
  qed
qed

lemma bouncedccs_step:
  "user_bouncedccs E (e, u, taken ks ts (lower_config (User_ToConfig E src))) =
    (True, e, u, taken (ks @ [''dcclookupmethod'', ''bouncedccs'']) ts (lower_config (User_ToConfig E src)))"
  by (simp add: user_bouncedccs_def user_entry_none user_none Let_def)

lemma upgrade_step:
  assumes "user_storable E src"
  shows "user_upgrade E (e, u, taken ks ts (lower_config (User_ToConfig E src))) = (True, e, u, taken ks ts (lower_config (User_ToConfig E src)))"
proof -
  let ?T = "taken ks ts (lower_config (User_ToConfig E src))"
  note tok = taken_ok [OF user_config_ok(1) [of E src] user_config_ok(2) [of E src], of ks ts]
  have ne: "\<forall>e \<in> set (c_entries ?T). snd e \<noteq> []" "\<forall>e \<in> set (c_subs ?T). snd e \<noteq> []"
    using tok(1) unfolding entries_ok_def by blast+
  have "om_at (c_entries ?T) ''server'' = []" "om_at (c_entries ?T) ''chan'' = []" "om_at (c_subs ?T) ''chan'' = []"
    using tok(3) user_sub(3) [OF assms, of "''chan''"] tok(4) by (simp_all add: user_none [unfolded user_at_def])
  then have "map_of (c_entries ?T) ''server'' = None" "map_of (c_entries ?T) ''chan'' = None" "map_of (c_subs ?T) ''chan'' = None"
    using map_of_om_at [OF ne(1)] map_of_om_at [OF ne(2)] by simp_all
  then show ?thesis by (simp add: user_upgrade_def FindStringVector_def FindSubConfig_def)
qed

lemma vector_step:
  assumes "k \<notin> set ks"
  shows "user_vector k f (e, u, taken ks ts (lower_config (User_ToConfig E src))) =
    (True, e, fold f (user_at E src k) u, taken (ks @ [k]) ts (lower_config (User_ToConfig E src)))"
  by (simp add: user_vector_def user_vector_read [OF assms])

lemma option_names:
  "map fst (user_options E) = [''nick'', ''quitmsg'', ''altnick'', ''ident'', ''realname'', ''chanmodes'', ''bindhost'', ''vhost'',
     ''dccbindhost'', ''dccvhost'', ''timestampformat'', ''skin'', ''clientencoding'', ''jointries'', ''maxnetworks'',
     ''maxquerybuffers'', ''maxjoins'', ''notraffictimeout'', ''keepbuffer'', ''autoclearchanbuffer'', ''autoclearquerybuffer'',
     ''multiclients'', ''denyloadmod'', ''admin'', ''denysetbindhost'', ''denysetvhost'', ''denysetident'', ''denysetnetwork'',
     ''denysetrealname'', ''denysetquitmsg'', ''denysetctcpreplies'', ''appendtimestamp'', ''prependtimestamp'', ''authonlyviamodule'']"
  "map fst (more_options E) = [''buffer'', ''chanbuffersize'', ''querybuffersize'', ''awaysuffix'', ''autocycle'', ''keepnick'']"
  "map fst last_options = [''timezone'', ''timezoneoffset'', ''timestamp'', ''language'']"
  "map fst user_connect_option = [''ircconnectenabled'']"
  by (simp_all add: user_options_def more_options_def last_options_def user_connect_option_def)

lemma at_most_one:
  "\<forall>k \<in> set (map fst (user_options E)). length (user_at E src k) \<le> 1"
  "\<forall>k \<in> set (map fst (more_options E)). length (user_at E src k) \<le> 1"
  "\<forall>k \<in> set (map fst last_options). length (user_at E src k) \<le> 1"
  "\<forall>k \<in> set (map fst user_connect_option). length (user_at E src k) \<le> 1"
  unfolding option_names by (simp_all add: user_at user_none)

lemma more_options_read:
  assumes "user_storable E src" and "cu_vIRCNetworks u = []"
  shows "fold (\<lambda>(k, f). opt f (user_at E src k)) (more_options E) u =
    u \<lparr>cu_uChanBufferSize := cu_uChanBufferSize src, cu_uQueryBufferSize := cu_uQueryBufferSize src\<rparr>"
proof -
  have n: "cu_uChanBufferSize src < 2 ^ 32" "cu_uQueryBufferSize src < 2 ^ 32"
    using assms(1) by (simp_all add: user_storable_def user_numbers_def)
  show ?thesis
    unfolding more_options_def fold_simps prod.case user_at user_none opt_simps
    using n assms(2) by (simp add: no_nets_setters ToUInt_dec)
qed

lemma last_options_read:
  assumes "user_storable E src" and "cu_sTimezone u = []" and "cu_sLanguage u = []"
  shows "fold (\<lambda>(k, f). opt f (user_at E src k)) last_options u = u \<lparr>cu_sTimezone := cu_sTimezone src, cu_sLanguage := cu_sLanguage src\<rparr>"
proof -
  have l: "list_all (\<lambda>c. isupper_c c \<or> islower_c c \<or> c = CHR ''-'' \<or> c = CHR ''_'') (cu_sLanguage src)"
    "Replace_n (cu_sLanguage src) ''_'' ''-'' = cu_sLanguage src"
    using assms(1) by (simp_all add: user_storable_def SetLanguage_def split: if_splits)
  then show ?thesis
    unfolding last_options_def fold_simps prod.case user_at user_none
    using assms(2,3) by (auto simp: SetLanguage_def)
qed

lemma User_ParseConfig_back:
  assumes st: "user_storable E src" and ld: "user_loader_ok E src"
    and pre: "ue_sStatusPrefix E = cu_sStatusPrefix src \<longrightarrow> p = cu_sStatusPrefix src"
  obtains u c where "User_ParseConfig E ([], fresh_user (cu_id src) (cu_sUsername src) p, lower_config (User_ToConfig E src)) = (True, [], u, c)"
    and "user_kept u = user_kept src" and "Config_empty c"
proof -
  let ?C = "lower_config (User_ToConfig E src)" and ?fr = "fresh_user (cu_id src) (cu_sUsername src) p"
  define k1 where "k1 = map fst (user_options E)"
  define k3 where "k3 = (k1 @ [''allow'']) @ [''ctcpreply'']"
  define k4 where "k4 = k3 @ [''dcclookupmethod'', ''bouncedccs'']"
  define k5 where "k5 = k4 @ map fst (more_options E)"
  define k6 where "k6 = k5 @ [''statusprefix'']"
  define k7 where "k7 = k6 @ map fst last_options"
  define k8 where "k8 = k7 @ [''pass'']"
  define k9 where "k9 = k8 @ [''loadmodule'']"
  note ks = k1_def k3_def k4_def k5_def k6_def k7_def k8_def k9_def
  have hs: "os_ok (cu_ssAllowedHosts src)" "[] \<notin> set (cu_ssAllowedHosts src)" "ctcp_ok (cu_mssCTCPReplies src)"
    "mods_unique (cu_mods src)" "\<forall>m \<in> set (cu_mods src). user_module_ok m"
    "distinct (map (\<lambda>nc. AsLower (c_str (net_sName (nc_net nc)))) (cu_vIRCNetworks src))"
    "\<forall>nc \<in> set (cu_vIRCNetworks src). net_storable (ue_load E) (view_of E src) nc"
    using st by (simp_all add: user_storable_def)
  define u1 where "u1 = user_part1 E src p"
  define u2 where "u2 = u1 \<lparr>cu_ssAllowedHosts := cu_ssAllowedHosts src\<rparr>"
  define u3 where "u3 = u2 \<lparr>cu_mssCTCPReplies := cu_mssCTCPReplies src\<rparr>"
  define u5 where "u5 = u3 \<lparr>cu_uChanBufferSize := cu_uChanBufferSize src, cu_uQueryBufferSize := cu_uQueryBufferSize src\<rparr>"
  define u6 where "u6 = u5 \<lparr>cu_sStatusPrefix := cu_sStatusPrefix src\<rparr>"
  define u7 where "u7 = u6 \<lparr>cu_sTimezone := cu_sTimezone src, cu_sLanguage := cu_sLanguage src\<rparr>"
  define u8 where "u8 = u7 \<lparr>cu_sPass := cu_sPass src, cu_eHashType := cu_eHashType src, cu_sPassSalt := cu_sPassSalt src\<rparr>"
  note us = u1_def u2_def u3_def u5_def u6_def u7_def u8_def
  have p1: "cu_ssAllowedHosts u1 = []" "cu_mssCTCPReplies u1 = []" "cu_vIRCNetworks u1 = []" "cu_sStatusPrefix u1 = p"
    "cu_sTimezone u1 = []" "cu_sLanguage u1 = []" "cu_mods u1 = []"
    unfolding u1_def user_part1 [OF st] by (simp_all add: fresh_user_def mk_cuser_def)
  have s1: "user_opts (user_options E) ([], ?fr, ?C) = (True, [], u1, taken k1 [] ?C)"
    using user_opts_step [of "user_options E" "[]" E src "[]" ?fr "[]"] at_most_one(1) [of E src]
    by (simp add: option_names user_part1_def taken_def u1_def k1_def)
  have hosts: "user_at E src ''allow'' = cu_ssAllowedHosts src"
    unfolding user_at by (rule filter_all) (use hs(2) in blast)
  have s2: "user_vector ''allow'' (\<lambda>s u. snd (AddAllowedHost s u)) ([], u1, taken k1 [] ?C) = (True, [], u2, taken (k1 @ [''allow'']) [] ?C)"
    using vector_step [of "''allow''" k1 "\<lambda>s u. snd (AddAllowedHost s u)" "[]" u1 "[]" E src] read_hosts [OF hs(1,2) p1(1)]
    by (simp add: hosts option_names k1_def u2_def)
  have s3: "user_vector ''ctcpreply'' (\<lambda>s u. snd (AddCTCPReply (token s 0) (token_rest s 1) u)) ([], u2, taken (k1 @ [''allow'']) [] ?C) =
      (True, [], u3, taken k3 [] ?C)"
  proof -
    have "''ctcpreply'' \<notin> set (k1 @ [''allow''])" by (simp add: k1_def option_names)
    moreover have "cu_mssCTCPReplies u2 = []" using p1(2) by (simp add: u2_def)
    ultimately show ?thesis
      using vector_step [of "''ctcpreply''" "k1 @ [''allow'']" "\<lambda>s u. snd (AddCTCPReply (token s 0) (token_rest s 1) u)" "[]" u2 "[]" E src]
        read_replies [OF hs(3), of u2] unfolding user_at k3_def u3_def by simp
  qed
  have s4: "user_bouncedccs E ([], u3, taken k3 [] ?C) = (True, [], u3, taken k4 [] ?C)"
    unfolding k4_def by (rule bouncedccs_step)
  have s5: "user_opts (more_options E) ([], u3, taken k4 [] ?C) = (True, [], u5, taken k5 [] ?C)"
  proof -
    have "distinct (map fst (more_options E))" "set (map fst (more_options E)) \<inter> set k4 = {}"
      by (simp_all add: option_names ks)
    moreover have "cu_vIRCNetworks u3 = []" using p1(3) by (simp add: us)
    ultimately show ?thesis
      using user_opts_step [of "more_options E" k4 E src "[]" u3 "[]"] at_most_one(2) [of E src] more_options_read [OF st, of u3]
      unfolding k5_def u5_def by simp
  qed
  have s6: "user_statusprefix ([], u5, taken k5 [] ?C) = (True, [], u6, taken k6 [] ?C)"
    unfolding u6_def k6_def
  proof (rule statusprefix_step [OF st])
    show "''statusprefix'' \<notin> set k5" by (simp add: option_names ks)
    show "ue_sStatusPrefix E = cu_sStatusPrefix src \<longrightarrow> cu_sStatusPrefix u5 = cu_sStatusPrefix src"
      using pre p1(4) by (simp add: u5_def u3_def u2_def)
  qed
  have s7: "user_opts last_options ([], u6, taken k6 [] ?C) = (True, [], u7, taken k7 [] ?C)"
  proof -
    have "distinct (map fst last_options)" "set (map fst last_options) \<inter> set k6 = {}"
      by (simp_all add: option_names ks)
    moreover have "cu_sTimezone u6 = []" "cu_sLanguage u6 = []" using p1(5,6) by (simp_all add: u6_def u5_def u3_def u2_def)
    ultimately show ?thesis
      using user_opts_step [of last_options k6 E src "[]" u6 "[]"] at_most_one(3) [of E src] last_options_read [OF st, of u6]
      unfolding k7_def u7_def by simp
  qed
  have s8: "user_password ([], u7, taken k7 [] ?C) = (True, [], u8, taken k8 [''pass''] ?C)"
    using password_step [OF st, of "[]" "[]" u7 k7] unfolding u8_def k8_def by simp
  have u8: "u8 = user_read src p"
    unfolding us user_part1 [OF st] user_read_def by (simp add: fresh_user_def mk_cuser_def)
  have id8: "cu_id u8 = cu_id src" "cu_vIRCNetworks u8 = []" "cu_mods u8 = []"
    unfolding u8 by (simp_all add: user_read_def fresh_user_def mk_cuser_def)
  have v8: "view_of E u8 = view_of E src" unfolding u8 by (rule user_read_view [OF st])
  let ?kept = "\<lambda>nc. (net_sName (nc_net nc), net_kept nc)"
  have "\<exists>ns'. user_networks E (lower_names (map (\<lambda>nc. (net_sName (nc_net nc), Net_ToConfig (ue_load E) nc)) (cu_vIRCNetworks src))) ([], u8) =
      (True, [], u8 \<lparr>cu_vIRCNetworks := cu_vIRCNetworks u8 @ ns'\<rparr>) \<and> map ?kept ns' = map ?kept (cu_vIRCNetworks src)"
    by (rule read_networks) (use hs(6,7) ld v8 id8 in \<open>simp_all add: user_loader_ok_def\<close>)
  then obtain nets where nets: "user_networks E (lower_names (net_tag_blocks (ue_load E) src)) ([], u8) =
      (True, [], u8 \<lparr>cu_vIRCNetworks := nets\<rparr>)" "map ?kept nets = map ?kept (cu_vIRCNetworks src)"
    unfolding net_tag_blocks_def id8 by auto
  let ?u9 = "u8 \<lparr>cu_vIRCNetworks := nets\<rparr>"
  define ts where "ts = (if cu_vIRCNetworks src = [] then [''pass''] else [''pass'', ''network''])"
  have s9: "user_net_blocks E ([], u8, taken k8 [''pass''] ?C) = (True, [], ?u9, taken k8 ts ?C)"
    using user_sub_read [of "''network''" "[''pass'']" k8 E src] user_sub(2) [OF st] nets(1)
    by (auto simp: user_net_blocks_def ts_def net_tag_blocks_def lower_names_def)
  have s10: "user_upgrade E ([], ?u9, taken k8 ts ?C) = (True, [], ?u9, taken k8 ts ?C)"
    by (rule upgrade_step [OF st])
  have mods: "user_at E src ''loadmodule'' = map module_line (cu_mods src)"
    unfolding user_at
  proof (rule filter_all)
    show "\<forall>x \<in> set (map module_line (cu_mods src)). x \<noteq> []"
      using hs(5) by (auto simp: user_module_ok_def module_ok_def module_line_def)
  qed
  have "\<exists>ms'. user_load_modules E (map module_line (cu_mods src)) (map module_line (cu_mods src)) ([], ?u9) =
      (True, [], ?u9 \<lparr>cu_mods := cu_mods ?u9 @ ms'\<rparr>) \<and>
      map (\<lambda>m. (mod_sModName m, mod_sArgs m)) ms' = map (\<lambda>m. (mod_sModName m, mod_sArgs m)) (cu_mods src)"
    by (rule read_user_modules) (use ld hs(4,5) id8 in \<open>simp_all add: user_loader_ok_def mods_unique_def\<close>)
  then obtain ms where ms: "user_load_modules E (map module_line (cu_mods src)) (map module_line (cu_mods src)) ([], ?u9) =
      (True, [], ?u9 \<lparr>cu_mods := ms\<rparr>)"
      "map (\<lambda>m. (mod_sModName m, mod_sArgs m)) ms = map (\<lambda>m. (mod_sModName m, mod_sArgs m)) (cu_mods src)"
    by (auto simp: id8)
  let ?u = "?u9 \<lparr>cu_mods := ms\<rparr>"
  have s11: "user_modules E ([], ?u9, taken k8 ts ?C) = (True, [], ?u, taken k9 ts ?C)"
  proof -
    have "''loadmodule'' \<notin> set k8" by (simp add: option_names ks)
    from user_vector_read [OF this, of ts E src] show ?thesis
      unfolding mods by (simp add: user_modules_def ms(1) k9_def)
  qed
  let ?k = "k9 @ map fst user_connect_option"
  have s12: "user_opts user_connect_option ([], ?u, taken k9 ts ?C) = (True, [], ?u, taken ?k ts ?C)"
  proof -
    have "distinct (map fst user_connect_option)" "set (map fst user_connect_option) \<inter> set k9 = {}"
      by (simp_all add: option_names ks)
    from user_opts_step [OF this at_most_one(4) [of E src], of "[]" ?u ts] show ?thesis
      by (simp add: user_connect_option_def user_none)
  qed
  have run: "User_ParseConfig E ([], ?fr, ?C) = (True, [], ?u, taken ?k ts ?C)"
    unfolding User_ParseConfig_def
    by (simp only: step_simps s1 s2 s3 s4 s5 s6 s7 s8 s9 s10 s11 s12 prod.case bool.case)
  note tok = taken_ok [OF user_config_ok(1) [of E src] user_config_ok(2) [of E src], of ?k ts]
  have "Config_empty (taken ?k ts ?C)"
  proof (rule Config_empty_dropped [OF tok(1)])
    show "\<forall>k. om_at (c_entries (taken ?k ts ?C)) k = []"
    proof
      fix k
      show "om_at (c_entries (taken ?k ts ?C)) k = []"
        unfolding tok(3) using user_at_none [of k E src]
        by (auto simp: user_at_def option_names ks)
    qed
    show "\<forall>t. om_at (c_subs (taken ?k ts ?C)) t = []"
    proof
      fix t
      show "om_at (c_subs (taken ?k ts ?C)) t = []"
        unfolding tok(4) using user_sub(1,2) [OF st] user_sub(3) [OF st, of t]
        by (cases "t = ''network''") (auto simp: ts_def net_tag_blocks_def)
    qed
  qed
  moreover have "user_kept ?u = user_kept src"
  proof -
    have v: "uv_sNick (view_of E u8) = uv_sNick (view_of E src)" "uv_sAltNick (view_of E u8) = uv_sAltNick (view_of E src)"
      "uv_sIdent (view_of E u8) = uv_sIdent (view_of E src)" "uv_sRealName (view_of E u8) = uv_sRealName (view_of E src)"
      "uv_sQuitMsg (view_of E u8) = uv_sQuitMsg (view_of E src)"
      using v8 by simp_all
    have g: "User_GetNick ?u True = User_GetNick u8 True" "User_GetAltNick ?u True = User_GetAltNick u8 True"
      "User_GetIdent ?u True = User_GetIdent u8 True" "User_GetRealName ?u = User_GetRealName u8" "User_GetQuitMsg ?u = User_GetQuitMsg u8"
      by (simp_all add: User_GetNick_def User_GetAltNick_def User_GetIdent_def User_GetRealName_def User_GetQuitMsg_def)
    have "user_strings ?u = user_strings src"
      using v g unfolding user_strings_def by (simp add: view_of_def) (simp add: u8 user_read_def)
    moreover have "user_numbers ?u = user_numbers src" "user_flags ?u = user_flags src"
      by (simp_all add: user_numbers_def user_flags_def u8 user_read_def)
    ultimately show ?thesis
      unfolding user_kept_def using nets(2) ms(2) by (simp add: u8 user_read_def fresh_user_def mk_cuser_def)
  qed
  ultimately show ?thesis using that run by blast
qed

end
