(* ===== verification/Znc_Roundtrip.thy ===== *)
theory Znc_Roundtrip imports Znc_Config User_Roundtrip begin

text \<open>
  The whole configuration is read back as it was written: the global settings, the listeners
  and the users that LoadGlobal and LoadUsers take from the tree WriteConfig makes are those
  of the state it was made from (\<open>znc_kept\<close>).
\<close>

section \<open>Reading a configuration from which names have been taken\<close>

lemma taken_entry:
  assumes "entries_ok C" and "om_ok (c_sets C)" and "k \<notin> set ks" and "length (om_at (c_entries C) k) \<le> 1"
  shows "FindStringEntry k d (taken ks ts C) =
    (case om_at (c_entries C) k of [] \<Rightarrow> ((False, d), taken (ks @ [k]) ts C) | v # vs \<Rightarrow> ((True, v), taken (ks @ [k]) ts C))"
  using FindStringEntry_one [OF taken_ok(1) [OF assms(1,2), of ks ts], of k d] taken_ok(3) [OF assms(1,2), of ks ts k] assms(3,4)
  by (auto simp: taken_more split: list.split)

lemma taken_vector:
  assumes "entries_ok C" and "om_ok (c_sets C)" and "k \<notin> set ks"
  shows "FindStringVector k True (taken ks ts C) = ((om_at (c_entries C) k \<noteq> [], om_at (c_entries C) k), taken (ks @ [k]) ts C)"
  using FindStringVector_all [OF taken_ok(1) [OF assms(1,2), of ks ts], of k] taken_ok(3) [OF assms(1,2), of ks ts k] assms(3)
  by (simp add: taken_more)

lemma taken_again:
  assumes "entries_ok C" and "om_ok (c_sets C)" and "k \<in> set ks"
  shows "FindStringVector k True (taken ks ts C) = ((False, []), taken (ks @ [k]) ts C)"
  using FindStringVector_all [OF taken_ok(1) [OF assms(1,2), of ks ts], of k] taken_ok(3) [OF assms(1,2), of ks ts k] assms(3)
  by (simp add: taken_more)

lemma taken_sub:
  assumes "entries_ok C" and "om_ok (c_sets C)" and "t \<notin> set ts"
  shows "FindSubConfig t True (taken ks ts C) = ((om_at (c_subs C) t \<noteq> [], om_at (c_subs C) t),
    if om_at (c_subs C) t \<noteq> [] then taken ks (ts @ [t]) C else taken ks ts C)"
  using FindSubConfig_all [OF taken_ok(1,2) [OF assms(1,2), of ks ts], of t True] taken_ok(4) [OF assms(1,2), of ks ts t] assms(3)
  by (simp add: taken_more)

lemma taken_options:
  assumes "entries_ok C" and "om_ok (c_sets C)" and "distinct (map fst os)" and "set (map fst os) \<inter> set ks = {}"
    and "\<forall>k \<in> set (map fst os). length (om_at (c_entries C) k) \<le> 1"
  shows "parse_options os (x, taken ks ts C) =
    (fold (\<lambda>(k, f). opt f (om_at (c_entries C) k)) os x, taken (ks @ map fst os) ts C)"
proof -
  note tok = taken_ok [OF assms(1,2)]
  have at: "om_at (c_entries (taken ks ts C)) k = om_at (c_entries C) k" if "k \<in> fst ` set os" for k
    using that assms(4) tok(3) [of ks ts k] by auto
  have "parse_options os (x, taken ks ts C) =
      (fold (\<lambda>(k, f). opt f (om_at (c_entries (taken ks ts C)) k)) os x, drop_keys (map fst os) (taken ks ts C))"
    by (rule parse_options_one) (use assms at tok in auto)
  also have "fold (\<lambda>(k, f). opt f (om_at (c_entries (taken ks ts C)) k)) os x = fold (\<lambda>(k, f). opt f (om_at (c_entries C) k)) os x"
    by (intro fold_cong [OF refl refl]) (use at in force)
  finally show ?thesis by (simp add: taken_more)
qed

lemma taken_empty:
  assumes "entries_ok C" and "om_ok (c_sets C)"
    and "\<forall>k. k \<notin> set ks \<longrightarrow> om_at (c_entries C) k = []" and "\<forall>t. t \<notin> set ts \<longrightarrow> om_at (c_subs C) t = []"
  shows "Config_empty (taken ks ts C)"
  by (rule Config_empty_dropped [OF taken_ok(1) [OF assms(1,2)]])
    (use taken_ok(3,4) [OF assms(1,2)] assms(3,4) in auto)

section \<open>Listeners\<close>

abbreviation listener_keys :: "string list" where
  "listener_keys \<equiv> [''URIPrefix'', ''SSL'', ''AllowIRC'', ''AllowWeb'', ''Host'', ''Port'', ''IPv4'', ''IPv6'', ''Path'',
     ''Group'', ''Mode'']"

lemma listener_keys_lower: "map AsLower listener_keys = [''uriprefix'', ''ssl'', ''allowirc'', ''allowweb'', ''host'', ''port'', ''ipv4'', ''ipv6'', ''path'',
     ''group'', ''mode'']"
  by code_simp

lemma listener_keys_inj: "inj_on AsLower (set listener_keys)"
  by (rule inj_on_list, unfold listener_keys_lower) simp

lemma listener_pairs_keys: "fst ` set (listener_pairs l) \<subseteq> set listener_keys"
  by (cases l) (auto simp: listener_pairs_def)

lemma Listener_ToConfig_written: "Listener_ToConfig l = written (listener_pairs l) []"
  by (simp add: Listener_ToConfig_def written_def)

definition lat :: "listener \<Rightarrow> string \<Rightarrow> string list" where
  "lat l = om_at (c_entries (lower_config (Listener_ToConfig l)))"

lemma lat_key:
  assumes "AsLower k = j" and "k \<in> set listener_keys"
  shows "lat l j = map snd (filter (\<lambda>p. fst p = k \<and> snd p \<noteq> []) (listener_pairs l))"
  unfolding lat_def Listener_ToConfig_written assms(1) [symmetric]
  by (rule written_entry [OF listener_keys_inj listener_pairs_keys assms(2)]) (use assms(2) in auto)

lemma lat_none: "j \<notin> set [''uriprefix'', ''ssl'', ''allowirc'', ''allowweb'', ''host'', ''port'', ''ipv4'', ''ipv6'', ''path'',
     ''group'', ''mode''] \<Longrightarrow> lat l j = []"
  unfolding lat_def Listener_ToConfig_written
  by (rule written_entry_none [OF listener_pairs_keys]) (metis listener_keys_lower set_map)

lemma lat_rest:
  assumes "set [''uriprefix'', ''ssl'', ''allowirc'', ''allowweb'', ''host'', ''port'', ''ipv4'', ''ipv6'', ''path'',
     ''group'', ''mode''] \<subseteq> set ks \<union> set rs" and "\<forall>k \<in> set rs. lat l k = []" and "k \<notin> set ks"
  shows "lat l k = []"
  using assms lat_none [of k l] by blast

lemma lat_common:
  "lat l ''uriprefix'' = [lst_sURIPrefix l @ ''/'']" "lat l ''ssl'' = [bool_str (lst_bSSL l)]"
  "lat l ''allowirc'' = [bool_str (lst_eAcceptType l \<noteq> ACCEPT_HTTP)]"
  "lat l ''allowweb'' = [bool_str (lst_eAcceptType l \<noteq> ACCEPT_IRC)]"
proof -
  note simps = listener_pairs_def filter_append map_append
  show "lat l ''uriprefix'' = [lst_sURIPrefix l @ ''/'']"
    by (subst lat_key [where k = "''URIPrefix''"], code_simp, simp, cases l) (simp_all add: simps)
  show "lat l ''ssl'' = [bool_str (lst_bSSL l)]"
    by (subst lat_key [where k = "''SSL''"], code_simp, simp, cases l) (simp_all add: simps)
  show "lat l ''allowirc'' = [bool_str (lst_eAcceptType l \<noteq> ACCEPT_HTTP)]"
    by (subst lat_key [where k = "''AllowIRC''"], code_simp, simp, cases l) (simp_all add: simps)
  show "lat l ''allowweb'' = [bool_str (lst_eAcceptType l \<noteq> ACCEPT_IRC)]"
    by (subst lat_key [where k = "''AllowWeb''"], code_simp, simp, cases l) (simp_all add: simps)
qed

lemma lat_tcp:
  assumes "l = TCPListener s p a eAddr uPort h"
  shows "lat l ''host'' = (if h \<noteq> [] then [h] else [])" "lat l ''port'' = [dec uPort]"
    "lat l ''ipv4'' = [bool_str (eAddr \<noteq> ADDR_IPV6ONLY)]" "lat l ''ipv6'' = [bool_str (eAddr \<noteq> ADDR_IPV4ONLY)]"
    "lat l ''path'' = []" "lat l ''group'' = []" "lat l ''mode'' = []"
proof -
  note simps = listener_pairs_def filter_append map_append assms
  show "lat l ''host'' = (if h \<noteq> [] then [h] else [])"
    by (subst lat_key [where k = "''Host''"], code_simp, simp, simp add: simps)
  show "lat l ''port'' = [dec uPort]"
    by (subst lat_key [where k = "''Port''"], code_simp, simp, simp add: simps)
  show "lat l ''ipv4'' = [bool_str (eAddr \<noteq> ADDR_IPV6ONLY)]"
    by (subst lat_key [where k = "''IPv4''"], code_simp, simp, simp add: simps)
  show "lat l ''ipv6'' = [bool_str (eAddr \<noteq> ADDR_IPV4ONLY)]"
    by (subst lat_key [where k = "''IPv6''"], code_simp, simp, simp add: simps)
  show "lat l ''path'' = []" by (subst lat_key [where k = "''Path''"], code_simp, simp, simp add: simps)
  show "lat l ''group'' = []" by (subst lat_key [where k = "''Group''"], code_simp, simp, simp add: simps)
  show "lat l ''mode'' = []" by (subst lat_key [where k = "''Mode''"], code_simp, simp, simp add: simps)
qed

lemma oct_digits_nonempty [simp]: "oct_digits n \<noteq> []"
  by (subst oct_digits.simps) simp

declare oct_digits.simps [simp del]

lemma lat_unix:
  assumes "l = UnixListener s p a sPath sGid iMode"
  shows "lat l ''path'' = (if sPath \<noteq> [] then [sPath] else [])" "lat l ''group'' = (if sGid \<noteq> [] then [sGid] else [])"
    "lat l ''mode'' = (if iMode \<noteq> -1 then [GetMode iMode] else [])" "lat l ''port'' = []"
    "lat l ''host'' = []" "lat l ''ipv4'' = []" "lat l ''ipv6'' = []"
proof -
  note simps = listener_pairs_def filter_append map_append assms
  show "lat l ''path'' = (if sPath \<noteq> [] then [sPath] else [])"
    by (subst lat_key [where k = "''Path''"], code_simp, simp, simp add: simps)
  show "lat l ''group'' = (if sGid \<noteq> [] then [sGid] else [])"
    by (subst lat_key [where k = "''Group''"], code_simp, simp, simp add: simps)
  show "lat l ''mode'' = (if iMode \<noteq> -1 then [GetMode iMode] else [])"
    by (subst lat_key [where k = "''Mode''"], code_simp, simp, simp add: simps GetMode_def)
  show "lat l ''port'' = []" by (subst lat_key [where k = "''Port''"], code_simp, simp, simp add: simps)
  show "lat l ''host'' = []" by (subst lat_key [where k = "''Host''"], code_simp, simp, simp add: simps)
  show "lat l ''ipv4'' = []" by (subst lat_key [where k = "''IPv4''"], code_simp, simp, simp add: simps)
  show "lat l ''ipv6'' = []" by (subst lat_key [where k = "''IPv6''"], code_simp, simp, simp add: simps)
qed

text \<open>Octal numbers are read back.\<close>

lemma oct_digits_octal: "set (oct_digits n) \<subseteq> set ''01234567''"
proof (induction n rule: oct_digits.induct)
  case (1 n)
  have "\<forall>k \<in> set [0..<8]. char_of (48 + k :: nat) \<in> set ''01234567''" by code_simp
  then have "char_of (48 + n mod 8) \<in> set ''01234567''" by simp
  then show ?case using 1 by (subst oct_digits.simps) auto
qed

lemma oct_fold: "fold (\<lambda>c v. 8 * v + (int (byte c) - 48)) (oct_digits n) 0 = int n"
proof (induction n rule: oct_digits.induct)
  case (1 n)
  have d: "int (byte (char_of (48 + n mod 8))) - 48 = int (n mod 8)"
    by (simp add: byte_def)
  show ?case
  proof (cases "n < 8")
    case True
    then show ?thesis using d by (subst oct_digits.simps) simp
  next
    case False
    then have "fold (\<lambda>c v. 8 * v + (int (byte c) - 48)) (oct_digits (n div 8)) 0 = int (n div 8)" using 1 by simp
    then show ?thesis using d False by (subst oct_digits.simps) (simp add: zdiv_int zmod_int)
  qed
qed

lemma oct_value_digits:
  assumes "n < 2 ^ 31"
  shows "oct_value (oct_digits n) = int n"
proof -
  obtain c cs where s: "oct_digits n = c # cs" by (cases "oct_digits n") simp_all
  have all: "\<forall>d \<in> set (oct_digits n). d \<in> set ''01234567''" using oct_digits_octal by blast
  then have c: "c \<in> set ''01234567''" by (simp add: s)
  then have "dropWhile isspace_c (oct_digits n) = oct_digits n" "chd (oct_digits n) \<noteq> CHR ''-''" "chd (oct_digits n) \<noteq> CHR ''+''"
    by (auto simp: s ctype_simps byte_def chd_def)
  moreover have "takeWhile (\<lambda>d. d \<in> set ''01234567'') (oct_digits n) = oct_digits n" using all by (simp only: takeWhile_eq_all_conv)
  ultimately have "oct_value (oct_digits n) = max (- (2 ^ 31)) (min (2 ^ 31 - 1) (int n))"
    by (simp only: oct_value_def Let_def oct_fold simp_thms if_False)
  then show ?thesis using assms by simp
qed

definition prefix_ok :: "string \<Rightarrow> bool" where
  "prefix_ok s \<longleftrightarrow> s = [] \<or> hd s = CHR ''/'' \<and> last s \<noteq> CHR ''/''"

lemma fix_prefix_back:
  assumes "prefix_ok s"
  shows "fix_prefix (s @ ''/'') = s"
proof (cases "s = []")
  case True
  have "fix_prefix ''/'' = []" by code_simp
  then show ?thesis using True by simp
next
  case False
  with assms obtain t where s: "s = CHR ''/'' # t" and l: "last s \<noteq> CHR ''/''" by (cases s) (auto simp: prefix_ok_def)
  have "StartsWith (s @ ''/'') ''/'' CaseSensitive" by (simp add: s StartsWith_def Left_def)
  moreover have "rdropWhile (\<lambda>c. c \<in> set ''/'') (s @ ''/'') = s"
    using l False by (subst rdropWhile_snoc) simp
  moreover have "EndsWith (s @ ''/'') ''/'' CaseSensitive" by (simp add: EndsWith_def Right_def)
  ultimately show ?thesis using False by (simp add: fix_prefix_def)
qed

lemma accept_of_back: "accept_of (a \<noteq> ACCEPT_HTTP) (a \<noteq> ACCEPT_IRC) = Some a"
  by (cases a) (simp_all add: accept_of_def)

lemma addr_of_back: "addr_of (a \<noteq> ADDR_IPV6ONLY) (a \<noteq> ADDR_IPV4ONLY) = Some a"
  by (cases a) (simp_all add: addr_of_def)

definition listener_ok :: "listener \<Rightarrow> bool" where
  "listener_ok l \<longleftrightarrow> prefix_ok (lst_sURIPrefix l) \<and>
     (case l of TCPListener s p a eAddr uPort h \<Rightarrow> 0 < uPort \<and> uPort < 2 ^ 16
      | UnixListener s p a sPath sGid iMode \<Rightarrow> sPath \<noteq> [] \<and> -1 \<le> iMode \<and> iMode < 2 ^ 31)"

lemma mode_back: "-1 \<le> m \<Longrightarrow> m < 2 ^ 31 \<Longrightarrow> (if (if m \<noteq> -1 then GetMode m else []) = [] then -1 else oct_value (GetMode m)) = m"
  using oct_value_digits [of "nat m"] by (auto simp: GetMode_def)

text \<open>A listener's block gives the listener back, if the system lets it listen.\<close>

lemma AddListener_back:
  assumes "listener_ok l" and "ze_Listen E l = None" and "CheckSslAndPemFile E (lst_bSSL l) z = None"
  shows "\<exists>c. AddListener_config E (z, lower_config (Listener_ToConfig l)) = (None, z \<lparr>z_vpListeners := z_vpListeners z @ [l]\<rparr>, c) \<and>
    Config_empty c"
proof -
  let ?C = "lower_config (Listener_ToConfig l)"
  have ok: "entries_ok ?C" "om_ok (c_sets ?C)" unfolding Listener_ToConfig_written by (rule lower_written_ok)+
  have C0: "?C = taken [] [] ?C" by (simp add: taken_def)
  have subs: "om_at (c_subs ?C) t = []" for t unfolding Listener_ToConfig_written by (simp add: written_subs_Nil)
  note ent = taken_entry [OF ok, folded lat_def]
  have empty: "Config_empty (taken ks [] ?C)" if "\<forall>k. k \<notin> set ks \<longrightarrow> lat l k = []" for ks
    by (rule taken_empty [OF ok]) (use that subs in \<open>simp_all add: lat_def\<close>)
  note common = FindBoolEntry_def FindUShortEntry_def lat_common ToBool_bool_str accept_of_back addr_of_back
  show ?thesis
  proof (cases l)
    case (TCPListener s p a eAddr uPort h)
    note l = lat_tcp [OF TCPListener]
    have sels: "lst_sURIPrefix l = p" "lst_bSSL l = s" "lst_eAcceptType l = a" by (simp_all add: TCPListener)
    let ?ks = "[''port'', ''ssl'', ''allowirc'', ''allowweb'', ''uriprefix'', ''host'', ''ipv4'', ''ipv6'']"
    have port: "ToUShort (dec uPort) = uPort" "uPort \<noteq> 0" "fix_prefix (p @ ''/'') = p"
      using assms(1) by (simp_all add: listener_ok_def TCPListener ToUShort_dec fix_prefix_back)
    have host: "FindStringEntry ''host'' [] (taken ks [] ?C) = ((h \<noteq> [], h), taken (ks @ [''host'']) [] ?C)" if "''host'' \<notin> set ks" for ks
      using ent [OF that, of "[]" "[]"] by (simp add: l)
    have "AddListener_config E (z, ?C) = (case AddTCPListener E uPort h p s eAddr a z of (e, z1) \<Rightarrow> (e, z1, taken ?ks [] ?C))"
      by (subst C0) (simp add: AddListener_config_def Let_def ent l common host port sels)
    moreover have "AddTCPListener E uPort h p s eAddr a z = (None, z \<lparr>z_vpListeners := z_vpListeners z @ [l]\<rparr>)"
      using assms(2,3) port(2) by (simp add: AddTCPListener_def FinishAddingListener_def TCPListener)
    moreover have "Config_empty (taken ?ks [] ?C)"
      by (rule empty, intro allI impI, rule lat_rest [where rs = "[''path'', ''group'', ''mode'']" and ks = ?ks]) (simp, simp add: l)
    ultimately show ?thesis by simp
  next
    case (UnixListener s p a sPath sGid iMode)
    note l = lat_unix [OF UnixListener]
    have sels: "lst_sURIPrefix l = p" "lst_bSSL l = s" "lst_eAcceptType l = a" by (simp_all add: UnixListener)
    let ?ks = "[''port'', ''path'', ''ssl'', ''allowirc'', ''allowweb'', ''uriprefix'', ''group'', ''mode'']"
    have path: "sPath \<noteq> []" "fix_prefix (p @ ''/'') = p" "-1 \<le> iMode" "iMode < 2 ^ 31"
      using assms(1) by (simp_all add: listener_ok_def UnixListener fix_prefix_back)
    have opts: "FindStringEntry ''group'' [] (taken ks [] ?C) = ((sGid \<noteq> [], sGid), taken (ks @ [''group'']) [] ?C)" if "''group'' \<notin> set ks" for ks
      using ent [OF that, of "[]" "[]"] by (simp add: l)
    have mode: "FindStringEntry ''mode'' [] (taken ks [] ?C) =
        ((iMode \<noteq> -1, if iMode \<noteq> -1 then GetMode iMode else []), taken (ks @ [''mode'']) [] ?C)" if "''mode'' \<notin> set ks" for ks
      using ent [OF that, of "[]" "[]"] by (simp add: l)
    define m where "m = (if iMode \<noteq> -1 then GetMode iMode else [])"
    have lmode: "FindStringEntry ''mode'' [] (taken ks [] ?C) = ((iMode \<noteq> -1, m), taken (ks @ [''mode'']) [] ?C)" if "''mode'' \<notin> set ks" for ks
      using mode [OF that] by (simp add: m_def)
    have lpath: "FindStringEntry ''path'' [] (taken ks [] ?C) = ((True, sPath), taken (ks @ [''path'']) [] ?C)" if "''path'' \<notin> set ks" for ks
      using ent [OF that, of "[]" "[]"] path(1) by (simp add: l)
    have run: "AddListener_config E (z, ?C) = (case AddUnixListener E sPath p s a sGid m z of (e, z1) \<Rightarrow> (e, z1, taken ?ks [] ?C))"
      by (subst C0) (simp add: AddListener_config_def Let_def ent l(4) common opts lmode lpath path(2) sels)
    have "mk_unix_listener sPath p s a sGid m = l"
      using mode_back [OF path(3,4)] by (auto simp: mk_unix_listener_def UnixListener m_def)
    then have "AddUnixListener E sPath p s a sGid m z = (None, z \<lparr>z_vpListeners := z_vpListeners z @ [l]\<rparr>)"
      using assms(2,3) by (simp add: AddUnixListener_def FinishAddingListener_def UnixListener)
    moreover have "Config_empty (taken ?ks [] ?C)"
      by (rule empty, intro allI impI, rule lat_rest [where rs = "[''host'', ''ipv4'', ''ipv6'']" and ks = ?ks]) (simp, simp add: l)
    ultimately show ?thesis by (simp add: run)
  qed
qed

section \<open>The global entries\<close>

abbreviation global_keys :: "string list" where
  "global_keys \<equiv> [''AnonIPLimit'', ''MaxBufferSize'', ''SSLCertFile'', ''SSLKeyFile'', ''SSLDHParamFile'',
     ''ProtectWebSessions'', ''HideVersion'', ''AuthOnlyViaModule'', ''Version'', ''ConfigWriteDelay'',
     ''ConnectDelay'', ''ServerThrottle'', ''PidFile'', ''Skin'', ''StatusPrefix'', ''SSLCiphers'',
     ''SSLProtocols'', ''DisableClientCap'', ''DisableServerCap'', ''Motd'', ''TrustedProxy'', ''LoadModule'']"

abbreviation global_low :: "string list" where
  "global_low \<equiv> [''anoniplimit'', ''maxbuffersize'', ''sslcertfile'', ''sslkeyfile'', ''ssldhparamfile'',
     ''protectwebsessions'', ''hideversion'', ''authonlyviamodule'', ''version'', ''configwritedelay'',
     ''connectdelay'', ''serverthrottle'', ''pidfile'', ''skin'', ''statusprefix'', ''sslciphers'',
     ''sslprotocols'', ''disableclientcap'', ''disableservercap'', ''motd'', ''trustedproxy'', ''loadmodule'']"

lemma global_keys_lower: "map AsLower global_keys = global_low"
  by code_simp

lemma global_keys_inj: "inj_on AsLower (set global_keys)"
  by (rule inj_on_list, unfold global_keys_lower) simp

lemma global_pairs_keys: "fst ` set (global_pairs E z) \<subseteq> set global_keys"
  by (auto simp: global_pairs_def one_line_pairs_def)

definition global_tags :: "znc_env \<Rightarrow> cznc \<Rightarrow> (string \<times> (string \<times> config) list) list" where
  "global_tags E z = [(''Listener'', listener_blocks (z_vpListeners z)), (''User'', user_blocks (env_of E z) (z_msUsers z))]"

lemma WriteConfig_written: "WriteConfig_tree E z = written (global_pairs E z) (global_tags E z)"
  by (simp add: WriteConfig_tree_def written_def global_tags_def)

definition zat :: "znc_env \<Rightarrow> cznc \<Rightarrow> string \<Rightarrow> string list" where
  "zat E z = om_at (c_entries (lower_config (WriteConfig_tree E z)))"

lemma zat_key:
  assumes "AsLower k = j" and "k \<in> set global_keys"
  shows "zat E z j = map snd (filter (\<lambda>p. fst p = k \<and> snd p \<noteq> []) (global_pairs E z))"
  unfolding zat_def WriteConfig_written assms(1) [symmetric]
  by (rule written_entry [OF global_keys_inj global_pairs_keys assms(2)]) (use assms(2) in auto)

lemma zat_none: "j \<notin> set global_low \<Longrightarrow> zat E z j = []"
  unfolding zat_def WriteConfig_written
  by (rule written_entry_none [OF global_pairs_keys]) (metis global_keys_lower set_map)

lemma zat:
  "zat E z ''anoniplimit'' = [dec (z_uiAnonIPLimit z)]"
  "zat E z ''maxbuffersize'' = [dec (z_uiMaxBufferSize z)]"
  "zat E z ''sslcertfile'' = (if GetPemLocation E z \<noteq> [] then [GetPemLocation E z] else [])"
  "zat E z ''sslkeyfile'' = (if GetKeyLocation E z \<noteq> [] then [GetKeyLocation E z] else [])"
  "zat E z ''ssldhparamfile'' = (if GetDHParamLocation E z \<noteq> [] then [GetDHParamLocation E z] else [])"
  "zat E z ''protectwebsessions'' = [bool_str (z_bProtectWebSessions z)]"
  "zat E z ''hideversion'' = [bool_str (z_bHideVersion z)]"
  "zat E z ''authonlyviamodule'' = [bool_str (z_bAuthOnlyViaModule z)]"
  "zat E z ''version'' = (if ze_VERSION_STR E \<noteq> [] then [ze_VERSION_STR E] else [])"
  "zat E z ''configwritedelay'' = [dec (z_uiConfigWriteDelay z)]"
  "zat E z ''connectdelay'' = [dec (z_uiConnectDelay z)]"
  "zat E z ''serverthrottle'' = [dec (z_uThrottleTTL z div 1000)]"
  "zat E z ''pidfile'' = (if z_sPidFile z \<noteq> [] \<and> FirstLine (z_sPidFile z) \<noteq> [] then [FirstLine (z_sPidFile z)] else [])"
  "zat E z ''skin'' = (if z_sSkinName z \<noteq> [] \<and> FirstLine (z_sSkinName z) \<noteq> [] then [FirstLine (z_sSkinName z)] else [])"
  "zat E z ''statusprefix'' = (if z_sStatusPrefix z \<noteq> [] \<and> FirstLine (z_sStatusPrefix z) \<noteq> [] then [FirstLine (z_sStatusPrefix z)] else [])"
  "zat E z ''sslciphers'' = (if z_sSSLCiphers z \<noteq> [] then [z_sSSLCiphers z] else [])"
  "zat E z ''sslprotocols'' = (if z_sSSLProtocols z \<noteq> [] then [z_sSSLProtocols z] else [])"
  "zat E z ''disableclientcap'' = filter (\<lambda>s. s \<noteq> []) (map FirstLine (z_ssClientCapBlacklist z))"
  "zat E z ''disableservercap'' = filter (\<lambda>s. s \<noteq> []) (map FirstLine (z_ssServerCapBlacklist z))"
  "zat E z ''motd'' = filter (\<lambda>s. s \<noteq> []) (map FirstLine (z_vsMotd z))"
  "zat E z ''trustedproxy'' = filter (\<lambda>s. s \<noteq> []) (map FirstLine (z_vsTrustedProxies z))"
  "zat E z ''loadmodule'' = filter (\<lambda>s. s \<noteq> []) (map global_line (z_mods z))"
proof -
  note simps = global_pairs_def one_line_pairs_def filter_append map_append filter_map_key comp_def filter_map
  show "zat E z ''anoniplimit'' = [dec (z_uiAnonIPLimit z)]"
    by (subst zat_key [where k = "''AnonIPLimit''"], code_simp, simp, simp add: simps)
  show "zat E z ''maxbuffersize'' = [dec (z_uiMaxBufferSize z)]"
    by (subst zat_key [where k = "''MaxBufferSize''"], code_simp, simp, simp add: simps)
  show "zat E z ''sslcertfile'' = (if GetPemLocation E z \<noteq> [] then [GetPemLocation E z] else [])"
    by (subst zat_key [where k = "''SSLCertFile''"], code_simp, simp, simp add: simps)
  show "zat E z ''sslkeyfile'' = (if GetKeyLocation E z \<noteq> [] then [GetKeyLocation E z] else [])"
    by (subst zat_key [where k = "''SSLKeyFile''"], code_simp, simp, simp add: simps)
  show "zat E z ''ssldhparamfile'' = (if GetDHParamLocation E z \<noteq> [] then [GetDHParamLocation E z] else [])"
    by (subst zat_key [where k = "''SSLDHParamFile''"], code_simp, simp, simp add: simps)
  show "zat E z ''protectwebsessions'' = [bool_str (z_bProtectWebSessions z)]"
    by (subst zat_key [where k = "''ProtectWebSessions''"], code_simp, simp, simp add: simps)
  show "zat E z ''hideversion'' = [bool_str (z_bHideVersion z)]"
    by (subst zat_key [where k = "''HideVersion''"], code_simp, simp, simp add: simps)
  show "zat E z ''authonlyviamodule'' = [bool_str (z_bAuthOnlyViaModule z)]"
    by (subst zat_key [where k = "''AuthOnlyViaModule''"], code_simp, simp, simp add: simps)
  show "zat E z ''version'' = (if ze_VERSION_STR E \<noteq> [] then [ze_VERSION_STR E] else [])"
    by (subst zat_key [where k = "''Version''"], code_simp, simp, simp add: simps)
  show "zat E z ''configwritedelay'' = [dec (z_uiConfigWriteDelay z)]"
    by (subst zat_key [where k = "''ConfigWriteDelay''"], code_simp, simp, simp add: simps)
  show "zat E z ''connectdelay'' = [dec (z_uiConnectDelay z)]"
    by (subst zat_key [where k = "''ConnectDelay''"], code_simp, simp, simp add: simps)
  show "zat E z ''serverthrottle'' = [dec (z_uThrottleTTL z div 1000)]"
    by (subst zat_key [where k = "''ServerThrottle''"], code_simp, simp, simp add: simps)
  show "zat E z ''pidfile'' = (if z_sPidFile z \<noteq> [] \<and> FirstLine (z_sPidFile z) \<noteq> [] then [FirstLine (z_sPidFile z)] else [])"
    by (subst zat_key [where k = "''PidFile''"], code_simp, simp, simp add: simps)
  show "zat E z ''skin'' = (if z_sSkinName z \<noteq> [] \<and> FirstLine (z_sSkinName z) \<noteq> [] then [FirstLine (z_sSkinName z)] else [])"
    by (subst zat_key [where k = "''Skin''"], code_simp, simp, simp add: simps)
  show "zat E z ''statusprefix'' = (if z_sStatusPrefix z \<noteq> [] \<and> FirstLine (z_sStatusPrefix z) \<noteq> [] then [FirstLine (z_sStatusPrefix z)] else [])"
    by (subst zat_key [where k = "''StatusPrefix''"], code_simp, simp, simp add: simps)
  show "zat E z ''sslciphers'' = (if z_sSSLCiphers z \<noteq> [] then [z_sSSLCiphers z] else [])"
    by (subst zat_key [where k = "''SSLCiphers''"], code_simp, simp, simp add: simps)
  show "zat E z ''sslprotocols'' = (if z_sSSLProtocols z \<noteq> [] then [z_sSSLProtocols z] else [])"
    by (subst zat_key [where k = "''SSLProtocols''"], code_simp, simp, simp add: simps)
  show "zat E z ''disableclientcap'' = filter (\<lambda>s. s \<noteq> []) (map FirstLine (z_ssClientCapBlacklist z))"
    by (subst zat_key [where k = "''DisableClientCap''"], code_simp, simp, simp add: simps)
  show "zat E z ''disableservercap'' = filter (\<lambda>s. s \<noteq> []) (map FirstLine (z_ssServerCapBlacklist z))"
    by (subst zat_key [where k = "''DisableServerCap''"], code_simp, simp, simp add: simps)
  show "zat E z ''motd'' = filter (\<lambda>s. s \<noteq> []) (map FirstLine (z_vsMotd z))"
    by (subst zat_key [where k = "''Motd''"], code_simp, simp, simp add: simps)
  show "zat E z ''trustedproxy'' = filter (\<lambda>s. s \<noteq> []) (map FirstLine (z_vsTrustedProxies z))"
    by (subst zat_key [where k = "''TrustedProxy''"], code_simp, simp, simp add: simps)
  show "zat E z ''loadmodule'' = filter (\<lambda>s. s \<noteq> []) (map global_line (z_mods z))"
    by (subst zat_key [where k = "''LoadModule''"], code_simp, simp, simp add: simps)
qed

lemma zat_old:
  "zat E z ''bindhost'' = []" "zat E z ''vhost'' = []" "zat E z ''listen'' = []" "zat E z ''listen6'' = []"
  "zat E z ''listen4'' = []" "zat E z ''listener'' = []" "zat E z ''listener6'' = []" "zat E z ''listener4'' = []"
  by (rule zat_none, simp)+

section \<open>What the file keeps\<close>

definition znc_strings :: "znc_env \<Rightarrow> cznc \<Rightarrow> string list" where
  "znc_strings E z = [z_sSkinName z, z_sStatusPrefix z, z_sPidFile z, GetPemLocation E z, GetKeyLocation E z,
     GetDHParamLocation E z, z_sSSLCiphers z, z_sSSLProtocols z]"

definition znc_numbers :: "cznc \<Rightarrow> nat list" where
  "znc_numbers z = [z_uiConnectDelay z, z_uiAnonIPLimit z, z_uiMaxBufferSize z, z_uiConfigWriteDelay z, z_uThrottleTTL z div 1000]"

definition znc_kept where
  "znc_kept E z = (znc_strings E z, znc_numbers z, [z_bProtectWebSessions z, z_bHideVersion z, z_bAuthOnlyViaModule z],
     [z_vsTrustedProxies z, z_vsMotd z, z_ssClientCapBlacklist z, z_ssServerCapBlacklist z], z_vpListeners z,
     map (\<lambda>m. (mod_sModName m, mod_sArgs m)) (z_mods z), map (\<lambda>(k, u). (k, user_kept u)) (z_msUsers z))"

definition line_ok :: "string \<Rightarrow> bool" where
  "line_ok s \<longleftrightarrow> s \<noteq> [] \<and> FirstLine s = s"

definition global_module_ok :: "cmodule \<Rightarrow> bool" where
  "global_module_ok m \<longleftrightarrow> module_ok m \<and> FirstLine (mod_sModName m) = mod_sModName m \<and> FirstLine (mod_sArgs m) = mod_sArgs m"

definition global_loader_ok :: "mod_env \<Rightarrow> cmodule list \<Rightarrow> bool" where
  "global_loader_ok M ms \<longleftrightarrow> (\<forall>m \<in> set ms. \<forall>cur. FindModule (mod_sModName m) cur = None \<longrightarrow>
     (\<exists>msg m1. LoadModule M (mod_sModName m) (mod_sArgs m) GlobalModule None None cur = (True, msg, cur @ [m1]) \<and>
        mod_sModName m1 = mod_sModName m \<and> mod_sArgs m1 = mod_sArgs m))"

text \<open>The paths are written in the form ChangeDir gives them; reading that form gives it again.\<close>

definition path_ok :: "znc_env \<Rightarrow> string \<Rightarrow> bool" where
  "path_ok E s \<longleftrightarrow> s \<noteq> [] \<and> ChangeDir (ze_sHomePath E) [] s = s"

definition users_ok :: "user_env \<Rightarrow> (string, cuser) omap \<Rightarrow> bool" where
  "users_ok U us \<longleftrightarrow> om_ok us \<and> us \<noteq> [] \<and>
     (\<forall>(k, u) \<in> set us. k = cu_sUsername u \<and> User_IsValid False u = None \<and> user_storable U u \<and>
        (\<forall>i. user_loader_ok U (u \<lparr>cu_id := i\<rparr>)))"

definition global_storable :: "znc_env \<Rightarrow> cznc \<Rightarrow> bool" where
  "global_storable E z \<longleftrightarrow>
     (\<forall>s \<in> {z_sPidFile z, z_sSkinName z, z_sStatusPrefix z}. s \<noteq> [] \<longrightarrow> FirstLine s = s) \<and>
     length (z_sStatusPrefix z) < 6 \<and> CHR '' '' \<notin> set (z_sStatusPrefix z) \<and>
     path_ok E (GetPemLocation E z) \<and> path_ok E (GetKeyLocation E z) \<and> path_ok E (GetDHParamLocation E z) \<and>
     (z_sSSLProtocols z \<noteq> [] \<longrightarrow> fst (SetSSLProtocols E (z_sSSLProtocols z) z)) \<and>
     (\<forall>s \<in> set (z_vsTrustedProxies z) \<union> set (z_vsMotd z) \<union> set (z_ssClientCapBlacklist z) \<union> set (z_ssServerCapBlacklist z). line_ok s) \<and>
     distinct (map (\<lambda>s. AsLower (c_str s)) (z_vsTrustedProxies z)) \<and>
     os_ok (z_ssClientCapBlacklist z) \<and> os_ok (z_ssServerCapBlacklist z) \<and>
     (\<forall>n \<in> set (znc_numbers z). n < 2 ^ 32) \<and> 0 < z_uiConnectDelay z \<and> z_uThrottleTTL z < 2 ^ 32 \<and>
     ze_VERSION_STR E \<noteq> [] \<and> \<not> version_less (version_of (ze_VERSION_STR E)) (1, 9) \<and>
     mods_unique (z_mods z) \<and> (\<forall>m \<in> set (z_mods z). global_module_ok m) \<and> global_loader_ok (mod_env_of E) (z_mods z)"

definition listeners_ok :: "znc_env \<Rightarrow> cznc \<Rightarrow> bool" where
  "listeners_ok E z \<longleftrightarrow> z_vpListeners z \<noteq> [] \<and>
     (\<forall>l \<in> set (z_vpListeners z). listener_ok l \<and> ze_Listen E l = None \<and>
        (lst_bSSL l \<longrightarrow> ze_Exists E (GetPemLocation E z) \<or> ze_CreatePem E))"

definition znc_storable :: "znc_env \<Rightarrow> cznc \<Rightarrow> bool" where
  "znc_storable E z \<longleftrightarrow> global_storable E z \<and> listeners_ok E z \<and> users_ok (env_of E z) (z_msUsers z)"

section \<open>Blocks\<close>

lemma global_tags_ok:
  assumes "znc_storable E z"
  shows "inj_on AsLower (fst ` set (global_tags E z))" "distinct (map fst (global_tags E z))"
    "\<forall>e \<in> set (global_tags E z). distinct (map fst (snd e))"
proof -
  have low: "map AsLower [''Listener'', ''User''] = [''listener'', ''user'']" by code_simp
  have "inj_on AsLower (set [''Listener'', ''User''])" by (rule inj_on_list, unfold low) simp
  then show "inj_on AsLower (fst ` set (global_tags E z))" by (simp add: global_tags_def)
  show "distinct (map fst (global_tags E z))" by (simp add: global_tags_def)
  have inj: "inj dec"
  proof (rule injI)
    fix m n
    assume "dec m = dec n"
    then show "m = n" using scan_int_dec [of "[]" m] scan_int_dec [of "[]" n] by simp
  qed
  have 1: "distinct (map fst (listener_blocks ls))" for ls
  proof -
    have "map fst (listener_blocks ls) = map (\<lambda>i. ''listener'' @ dec i) (map fst (enumerate 0 ls))"
      by (simp only: listener_blocks_def map_map comp_def split_beta fst_conv)
    then show ?thesis using inj by (simp add: distinct_map inj_on_def)
  qed
  have us: "om_ok (z_msUsers z)" "\<forall>(k, u) \<in> set (z_msUsers z). k = cu_sUsername u"
    using assms unfolding znc_storable_def users_ok_def by auto
  have "map fst (user_blocks U us) = map fst (filter (\<lambda>(_, u). User_IsValid False u = None) us)"
    if "\<forall>(k, u) \<in> set us. k = cu_sUsername u" for U us
    using that unfolding user_blocks_def by (auto simp: split_beta)
  then have 2: "distinct (map fst (user_blocks U (z_msUsers z)))" for U
    using us om_ok_distinct [OF us(1)] by (simp add: distinct_map_filter)
  show "\<forall>e \<in> set (global_tags E z). distinct (map fst (snd e))" using 1 2 by (simp add: global_tags_def)
qed

lemma zsub:
  assumes "znc_storable E z"
  shows "om_at (c_subs (lower_config (WriteConfig_tree E z))) ''listener'' = lower_names (listener_blocks (z_vpListeners z))"
    "om_at (c_subs (lower_config (WriteConfig_tree E z))) ''user'' = lower_names (user_blocks (env_of E z) (z_msUsers z))"
    "t \<notin> {''listener'', ''user''} \<Longrightarrow> om_at (c_subs (lower_config (WriteConfig_tree E z))) t = []"
proof -
  have low: "AsLower ''Listener'' = ''listener''" "AsLower ''User'' = ''user''" by code_simp+
  note b = written_block [OF global_tags_ok [OF assms], of _ _ "global_pairs E z"]
  show "om_at (c_subs (lower_config (WriteConfig_tree E z))) ''listener'' = lower_names (listener_blocks (z_vpListeners z))"
    unfolding WriteConfig_written low [symmetric] by (subst b) (auto simp: global_tags_def)
  show "om_at (c_subs (lower_config (WriteConfig_tree E z))) ''user'' = lower_names (user_blocks (env_of E z) (z_msUsers z))"
    unfolding WriteConfig_written low [symmetric] by (subst b) (auto simp: global_tags_def)
  show "om_at (c_subs (lower_config (WriteConfig_tree E z))) t = []" if "t \<notin> {''listener'', ''user''}"
    unfolding WriteConfig_written
    by (rule written_block_none [OF global_tags_ok [OF assms]]) (use that low in \<open>simp add: global_tags_def\<close>)
qed

section \<open>Loading the global part\<close>

lemma zconfig_ok: "entries_ok (lower_config (WriteConfig_tree E z))" "om_ok (c_sets (lower_config (WriteConfig_tree E z)))"
  unfolding WriteConfig_written by (rule lower_written_ok)+

lemma global_line_tokens:
  assumes "global_module_ok m"
  shows "token (global_line m) 0 = mod_sModName m" "token_rest (global_line m) 1 = mod_sArgs m" "global_line m \<noteq> []"
  using assms module_line_tokens [of m] module_line_nonempty [of m]
  by (auto simp: global_module_ok_def global_line_def module_line_def module_ok_def)

lemma read_global_modules:
  assumes "global_loader_ok (mod_env_of E) ms" and "\<forall>m \<in> set ms. global_module_ok m" and "\<not> version_less v (1, 9)"
    and "distinct (map (\<lambda>m. AsLower (c_str (mod_sModName m))) (z_mods z @ ms))"
    and "\<forall>k \<in> dom (map_of mm). \<exists>m \<in> set (z_mods z). mod_sModName m = k"
    and "\<forall>m \<in> set (z_mods z). map_of mm (mod_sModName m) \<noteq> None" and "om_ok mm"
  shows "\<exists>ms' mm'. run_all (global_module E v) (map global_line ms) (mm, z) = (None, mm', z \<lparr>z_mods := z_mods z @ ms'\<rparr>) \<and>
    map (\<lambda>m. (mod_sModName m, mod_sArgs m)) ms' = map (\<lambda>m. (mod_sModName m, mod_sArgs m)) ms \<and>
    (\<forall>m \<in> set (z_mods z @ ms'). map_of mm' (mod_sModName m) \<noteq> None)"
  using assms
proof (induction ms arbitrary: z mm)
  case Nil
  then show ?case by (intro exI [of _ "[]"] exI [of _ mm]) simp
next
  case (Cons m ms)
  have fresh: "FindModule (mod_sModName m) (z_mods z) = None"
    using Cons.prems(4) by (auto simp: FindModule_None equals_ci_iff)
  obtain msg m1 where load: "LoadModule (mod_env_of E) (mod_sModName m) (mod_sArgs m) GlobalModule None None (z_mods z) =
      (True, msg, z_mods z @ [m1])" and m1: "mod_sModName m1 = mod_sModName m" "mod_sArgs m1 = mod_sArgs m"
    using Cons.prems(1) fresh unfolding global_loader_ok_def by (metis list.set_intros(1))
  have new: "map_of mm (mod_sModName m) = None"
  proof (rule ccontr)
    assume "map_of mm (mod_sModName m) \<noteq> None"
    then obtain x where "x \<in> set (z_mods z)" "mod_sModName x = mod_sModName m" using Cons.prems(5) by blast
    then show False using fresh by (auto simp: FindModule_None equals_ci_refl)
  qed
  have "\<not> version_less v (0, 207)" using Cons.prems(3) by (auto simp: version_less_def)
  then have step: "global_module E v (global_line m) (mm, z) =
      (None, om_insert (mod_sModName m) (mod_sArgs m) mm, z \<lparr>z_mods := z_mods z @ [m1]\<rparr>)"
    using load new fresh global_line_tokens [of m] Cons.prems(2) by (simp add: global_module_def Let_def)
  let ?z = "z \<lparr>z_mods := z_mods z @ [m1]\<rparr>" and ?mm = "om_insert (mod_sModName m) (mod_sArgs m) mm"
  have "\<exists>ms' mm'. run_all (global_module E v) (map global_line ms) (?mm, ?z) = (None, mm', ?z \<lparr>z_mods := z_mods ?z @ ms'\<rparr>) \<and>
      map (\<lambda>m. (mod_sModName m, mod_sArgs m)) ms' = map (\<lambda>m. (mod_sModName m, mod_sArgs m)) ms \<and>
      (\<forall>m \<in> set (z_mods ?z @ ms'). map_of mm' (mod_sModName m) \<noteq> None)"
  proof (rule Cons.IH)
    show "global_loader_ok (mod_env_of E) ms" using Cons.prems(1) by (simp add: global_loader_ok_def)
    show "\<forall>k \<in> dom (map_of ?mm). \<exists>m \<in> set (z_mods ?z). mod_sModName m = k"
      using Cons.prems(5) m1(1) by (auto simp: map_of_om_insert split: if_splits)
    show "\<forall>m \<in> set (z_mods ?z). map_of ?mm (mod_sModName m) \<noteq> None"
      using Cons.prems(6) m1(1) by (auto simp: map_of_om_insert)
  qed (use Cons.prems m1(1) in simp_all)
  then obtain ms' mm' where IH: "run_all (global_module E v) (map global_line ms) (?mm, ?z) = (None, mm', ?z \<lparr>z_mods := z_mods ?z @ ms'\<rparr>)"
    "map (\<lambda>m. (mod_sModName m, mod_sArgs m)) ms' = map (\<lambda>m. (mod_sModName m, mod_sArgs m)) ms"
    "\<forall>m \<in> set (z_mods ?z @ ms'). map_of mm' (mod_sModName m) \<noteq> None" by blast
  show ?case
    by (rule exI [of _ "m1 # ms'"], rule exI [of _ mm']) (use IH step m1 in simp)
qed

lemma read_motd: "[] \<notin> set ms \<Longrightarrow> fold AddMotd ms z = z \<lparr>z_vsMotd := z_vsMotd z @ ms\<rparr>"
  by (induction ms arbitrary: z) (auto simp: AddMotd_def)

lemma read_proxies:
  assumes "[] \<notin> set ps" and "distinct (map (\<lambda>s. AsLower (c_str s)) (z_vsTrustedProxies z @ ps))"
  shows "fold (\<lambda>s z. snd (AddTrustedProxy s z)) ps z = z \<lparr>z_vsTrustedProxies := z_vsTrustedProxies z @ ps\<rparr>"
  using assms
proof (induction ps arbitrary: z)
  case (Cons p ps)
  have "\<not> (\<exists>x \<in> set (z_vsTrustedProxies z). equals_ci x p)"
    using Cons.prems(2) by (auto simp: equals_ci_iff) (metis imageI)
  then have "snd (AddTrustedProxy p z) = z \<lparr>z_vsTrustedProxies := z_vsTrustedProxies z @ [p]\<rparr>"
    using Cons.prems(1) by (auto simp: AddTrustedProxy_def)
  then show ?case using Cons by simp
qed simp

lemma line_values: "\<forall>s \<in> set xs. line_ok s \<Longrightarrow> filter (\<lambda>s. s \<noteq> []) (map FirstLine xs) = xs"
  by (induction xs) (auto simp: line_ok_def)

text \<open>The state LoadGlobal reads, but for the listeners.\<close>

definition znc_read :: "znc_env \<Rightarrow> cznc \<Rightarrow> cmodule list \<Rightarrow> 32 word \<Rightarrow> cznc" where
  "znc_read E z ms uDisabled = (mk_cznc E)
     \<lparr>z_sSkinName := z_sSkinName z, z_sStatusPrefix := z_sStatusPrefix z, z_sPidFile := z_sPidFile z,
      z_sSSLCertFile := GetPemLocation E z, z_sSSLKeyFile := GetKeyLocation E z, z_sSSLDHParamFile := GetDHParamLocation E z,
      z_sSSLCiphers := z_sSSLCiphers z, z_sSSLProtocols := z_sSSLProtocols z, z_vsTrustedProxies := z_vsTrustedProxies z,
      z_vsMotd := z_vsMotd z, z_ssClientCapBlacklist := z_ssClientCapBlacklist z, z_ssServerCapBlacklist := z_ssServerCapBlacklist z,
      z_uiConnectDelay := z_uiConnectDelay z, z_uiAnonIPLimit := z_uiAnonIPLimit z, z_uiMaxBufferSize := z_uiMaxBufferSize z,
      z_uDisabledSSLProtocols := uDisabled, z_uThrottleTTL := (z_uThrottleTTL z div 1000) * 1000,
      z_bProtectWebSessions := z_bProtectWebSessions z, z_bHideVersion := z_bHideVersion z,
      z_bAuthOnlyViaModule := z_bAuthOnlyViaModule z, z_uiConfigWriteDelay := z_uiConfigWriteDelay z, z_mods := ms\<rparr>"

lemma SetSSLProtocols_any:
  assumes "fst (SetSSLProtocols E s z0)"
  shows "\<exists>d. \<forall>z. SetSSLProtocols E s z = (True, z \<lparr>z_sSSLProtocols := s, z_uDisabledSSLProtocols := d\<rparr>)"
proof (cases "fold (protocol_step E) (Split s '' '' False [] [] True True) (Some (ze_EDP_SSL E))")
  case None
  then show ?thesis using assms unfolding SetSSLProtocols_def None by simp
next
  case (Some d)
  then show ?thesis unfolding SetSSLProtocols_def Some option.case by (intro exI [of _ d] allI refl)
qed

lemma opt_global:
  "opt (\<lambda>s z. z \<lparr>z_sPidFile := s\<rparr>) (if b then [v] else []) z = z \<lparr>z_sPidFile := if b then v else z_sPidFile z\<rparr>"
  "opt (\<lambda>s z. z \<lparr>z_sStatusPrefix := s\<rparr>) (if b then [v] else []) z = z \<lparr>z_sStatusPrefix := if b then v else z_sStatusPrefix z\<rparr>"
  "opt (\<lambda>s z. z \<lparr>z_sSSLCertFile := s\<rparr>) (if b then [v] else []) z = z \<lparr>z_sSSLCertFile := if b then v else z_sSSLCertFile z\<rparr>"
  "opt (\<lambda>s z. z \<lparr>z_sSSLKeyFile := s\<rparr>) (if b then [v] else []) z = z \<lparr>z_sSSLKeyFile := if b then v else z_sSSLKeyFile z\<rparr>"
  "opt (\<lambda>s z. z \<lparr>z_sSSLDHParamFile := s\<rparr>) (if b then [v] else []) z = z \<lparr>z_sSSLDHParamFile := if b then v else z_sSSLDHParamFile z\<rparr>"
  "opt (\<lambda>s z. z \<lparr>z_sSSLCiphers := s\<rparr>) (if b then [v] else []) z = z \<lparr>z_sSSLCiphers := if b then v else z_sSSLCiphers z\<rparr>"
  "opt (\<lambda>s z. z \<lparr>z_sSkinName := s\<rparr>) (if b then [v] else []) z = z \<lparr>z_sSkinName := if b then v else z_sSkinName z\<rparr>"
  by simp_all

lemma global_opts_read:
  assumes "global_storable E z"
  shows "fold (\<lambda>(k, f). opt f (zat E z k)) global_options
      ((mk_cznc E) \<lparr>z_mods := ms, z_vsMotd := a, z_vsTrustedProxies := b, z_ssClientCapBlacklist := c, z_ssServerCapBlacklist := d\<rparr>) =
    (znc_read E z ms (z_uDisabledSSLProtocols (mk_cznc E))) \<lparr>z_vsMotd := a, z_vsTrustedProxies := b, z_ssClientCapBlacklist := c,
      z_ssServerCapBlacklist := d, z_sSSLProtocols := [], z_uiConfigWriteDelay := 0\<rparr>"
proof -
  note st = assms [unfolded global_storable_def]
  have fl: "(if z_sPidFile z \<noteq> [] \<and> FirstLine (z_sPidFile z) \<noteq> [] then [FirstLine (z_sPidFile z)] else []) = (if z_sPidFile z \<noteq> [] then [z_sPidFile z] else [])"
    "(if z_sSkinName z \<noteq> [] \<and> FirstLine (z_sSkinName z) \<noteq> [] then [FirstLine (z_sSkinName z)] else []) = (if z_sSkinName z \<noteq> [] then [z_sSkinName z] else [])"
    "(if z_sStatusPrefix z \<noteq> [] \<and> FirstLine (z_sStatusPrefix z) \<noteq> [] then [FirstLine (z_sStatusPrefix z)] else []) = (if z_sStatusPrefix z \<noteq> [] then [z_sStatusPrefix z] else [])"
    using st by auto
  have paths: "GetPemLocation E z \<noteq> []" "GetKeyLocation E z \<noteq> []" "GetDHParamLocation E z \<noteq> []"
    using st by (simp_all add: path_ok_def)
  have keep: "(if v \<noteq> [] then v else []) = v" for v :: string by simp
  have nums: "ToUInt (dec (z_uiConnectDelay z)) = z_uiConnectDelay z" "ToUInt (dec (z_uiAnonIPLimit z)) = z_uiAnonIPLimit z"
    "ToUInt (dec (z_uiMaxBufferSize z)) = z_uiMaxBufferSize z" "ToUInt (dec (z_uThrottleTTL z div 1000)) = z_uThrottleTTL z div 1000"
    using st by (simp_all add: ToUInt_dec znc_numbers_def)
  have thr: "z_uThrottleTTL z div 1000 * 1000 mod 2 ^ 32 = z_uThrottleTTL z div 1000 * 1000" "(if z_uiConnectDelay z < 1 then 1 else z_uiConnectDelay z) = z_uiConnectDelay z"
    using st by (simp_all add: mod_less le_less_trans [OF div_times_less_eq_dividend])
  show ?thesis
    unfolding global_options_def fold_simps prod.case zat fl
    using paths
    by (simp only: mk_cznc_def znc_read_def opt_global opt_simps cznc.simps ToBool_bool_str keep nums thr SetConnectDelay_def set_throttle_def
        if_True simp_thms)
qed

lemma UnloadRemoved_none: "\<forall>m \<in> set (z_mods z). map_of mm (mod_sModName m) \<noteq> None \<Longrightarrow> UnloadRemovedModules E mm z = z"
  by (simp add: UnloadRemovedModules_def filter_False)

lemma global_lists_read:
  fixes E z
  defines "C \<equiv> lower_config (WriteConfig_tree E z)"
  assumes st: "global_storable E z" and ks: "set [''motd'', ''bindhost'', ''vhost'', ''trustedproxy'', ''disableclientcap'', ''disableservercap''] \<inter> set ks = {}"
  shows "global_lists (x, taken ks ts C) =
    (x \<lparr>z_vsMotd := z_vsMotd z, z_vsTrustedProxies := z_vsTrustedProxies z, z_ssClientCapBlacklist := z_ssClientCapBlacklist z,
        z_ssServerCapBlacklist := z_ssServerCapBlacklist z\<rparr>,
     taken (ks @ [''motd'', ''bindhost'', ''vhost'', ''trustedproxy'', ''disableclientcap'', ''disableservercap'']) ts C)"
proof -
  note vec = taken_vector [OF zconfig_ok [of E z], folded C_def]
  have at: "om_at (c_entries C) = zat E z" by (simp add: zat_def C_def)
  have lines: "\<forall>s \<in> set (z_vsTrustedProxies z) \<union> set (z_vsMotd z) \<union> set (z_ssClientCapBlacklist z) \<union> set (z_ssServerCapBlacklist z). line_ok s"
    and dist: "distinct (map (\<lambda>s. AsLower (c_str s)) (z_vsTrustedProxies z))"
    and os: "os_ok (z_ssClientCapBlacklist z)" "os_ok (z_ssServerCapBlacklist z)"
    using st by (simp_all add: global_storable_def)
  have vals: "zat E z ''motd'' = z_vsMotd z" "zat E z ''trustedproxy'' = z_vsTrustedProxies z"
    "zat E z ''disableclientcap'' = z_ssClientCapBlacklist z" "zat E z ''disableservercap'' = z_ssServerCapBlacklist z"
    unfolding zat by (rule line_values, use lines in blast)+
  have ne: "[] \<notin> set (z_vsMotd z)" "[] \<notin> set (z_vsTrustedProxies z)" using lines by (auto simp: line_ok_def)
  have motd: "fold AddMotd (z_vsMotd z) (y \<lparr>z_vsMotd := []\<rparr>) = y \<lparr>z_vsMotd := z_vsMotd z\<rparr>" for y
    using read_motd [OF ne(1), of "y \<lparr>z_vsMotd := []\<rparr>"] by simp
  have proxies: "fold (\<lambda>s z. snd (AddTrustedProxy s z)) (z_vsTrustedProxies z) (y \<lparr>z_vsTrustedProxies := []\<rparr>) =
      y \<lparr>z_vsTrustedProxies := z_vsTrustedProxies z\<rparr>" for y
    using read_proxies [OF ne(2), of "y \<lparr>z_vsTrustedProxies := []\<rparr>"] dist by simp
  have caps: "fold os_insert (z_ssClientCapBlacklist z) [] = z_ssClientCapBlacklist z"
    "fold os_insert (z_ssServerCapBlacklist z) [] = z_ssServerCapBlacklist z"
    using os_rebuild [of "[]"] os by simp_all
  have nk: "''motd'' \<notin> set ks" "''bindhost'' \<notin> set ks" "''vhost'' \<notin> set ks" "''trustedproxy'' \<notin> set ks"
    "''disableclientcap'' \<notin> set ks" "''disableservercap'' \<notin> set ks" using ks by auto
  show ?thesis
    unfolding global_lists_def Let_def fst_conv snd_conv
    by (simp add: vec nk at vals motd proxies caps)
qed

lemma old_listeners_none:
  fixes E z
  defines "C \<equiv> lower_config (WriteConfig_tree E z)"
  assumes "zat E z k = []" and "k \<notin> set ks"
  shows "old_listeners E k (x, taken ks ts C) = (None, x, taken (ks @ [k]) ts C)"
  using taken_vector [OF zconfig_ok [of E z] assms(3), of ts] assms(2)
  by (simp add: old_listeners_def C_def zat_def)

lemma CheckSsl_listeners [simp]: "CheckSslAndPemFile E b (z \<lparr>z_vpListeners := ls\<rparr>) = CheckSslAndPemFile E b z"
  by (simp add: CheckSslAndPemFile_def GetPemLocation_def)

lemma read_listeners:
  assumes "map snd bs = map (\<lambda>l. lower_config (Listener_ToConfig l)) ls"
    and "\<forall>l \<in> set ls. listener_ok l \<and> ze_Listen E l = None \<and> CheckSslAndPemFile E (lst_bSSL l) x = None"
  shows "run_all (listener_block E) bs x = (None, x \<lparr>z_vpListeners := z_vpListeners x @ ls\<rparr>)"
  using assms
proof (induction ls arbitrary: bs x)
  case (Cons l ls)
  then obtain b bs' where bs: "bs = b # bs'" "snd b = lower_config (Listener_ToConfig l)" "map snd bs' = map (\<lambda>l. lower_config (Listener_ToConfig l)) ls"
    by (cases bs) auto
  obtain c where "AddListener_config E (x, snd b) = (None, x \<lparr>z_vpListeners := z_vpListeners x @ [l]\<rparr>, c)" "Config_empty c"
    using AddListener_back [of l E x] Cons.prems(2) unfolding bs(2) by auto
  then have step: "listener_block E b x = (None, x \<lparr>z_vpListeners := z_vpListeners x @ [l]\<rparr>)" by (simp add: listener_block_def)
  have "run_all (listener_block E) bs' (x \<lparr>z_vpListeners := z_vpListeners x @ [l]\<rparr>) =
      (None, (x \<lparr>z_vpListeners := z_vpListeners x @ [l]\<rparr>) \<lparr>z_vpListeners := (z_vpListeners x @ [l]) @ ls\<rparr>)"
    using Cons.IH [OF bs(3), of "x \<lparr>z_vpListeners := z_vpListeners x @ [l]\<rparr>"] Cons.prems(2) by simp
  then show ?case by (simp add: bs(1) step)
qed simp

lemma LoadListeners_back:
  fixes E z
  defines "C \<equiv> lower_config (WriteConfig_tree E z)"
  assumes st: "znc_storable E z" and lm: "''loadmodule'' \<in> set ks"
    and ks: "set [''listen'', ''listen6'', ''listen4'', ''listener'', ''listener6'', ''listener4''] \<inter> set ks = {}"
    and pem: "GetPemLocation E x = GetPemLocation E z"
  shows "LoadListeners E (x, taken ks [] C) = (None, x \<lparr>z_vpListeners := z_vpListeners z\<rparr>,
    taken (ks @ [''loadmodule'', ''listen'', ''listen6'', ''listen4'', ''listener'', ''listener6'', ''listener4'']) [''listener''] C)"
proof -
  have ls: "z_vpListeners z \<noteq> []" "\<forall>l \<in> set (z_vpListeners z). listener_ok l \<and> ze_Listen E l = None \<and> CheckSslAndPemFile E (lst_bSSL l) y = None"
    if "GetPemLocation E y = GetPemLocation E z" for y
    using st that by (auto simp: znc_storable_def listeners_ok_def CheckSslAndPemFile_def)
  have nk: "''listen'' \<notin> set ks" "''listen6'' \<notin> set ks" "''listen4'' \<notin> set ks" "''listener'' \<notin> set ks" "''listener6'' \<notin> set ks"
    "''listener4'' \<notin> set ks" using ks by auto
  note old = old_listeners_none [of E z, folded C_def]
  have all: "run_all (old_listeners E) [''listen'', ''listen6'', ''listen4'', ''listener'', ''listener6'', ''listener4'']
      (y, taken (ks @ [''loadmodule'']) [] C) =
      (None, y, taken (ks @ [''loadmodule'', ''listen'', ''listen6'', ''listen4'', ''listener'', ''listener6'', ''listener4'']) [] C)" for y
    by (simp add: old zat_old nk)
  let ?bs = "lower_names (listener_blocks (z_vpListeners z))"
  have ne: "?bs \<noteq> []"
  proof -
    have "length ?bs = length (z_vpListeners z)" by (simp add: lower_names_def listener_blocks_def)
    then show ?thesis using ls(1) [of z] by auto
  qed
  have blocks: "FindSubConfig ''listener'' True (taken js [] C) = ((True, ?bs), taken js [''listener''] C)" for js
    using taken_sub [OF zconfig_ok [of E z], of "''listener''" "[]" js] zsub(1) [OF st] ne
    unfolding C_def by simp
  have snds: "map snd ?bs = map (\<lambda>l. lower_config (Listener_ToConfig l)) (z_vpListeners z)"
  proof -
    have "map snd ?bs = map (\<lambda>l. lower_config (Listener_ToConfig l)) (map snd (enumerate 0 (z_vpListeners z)))"
      unfolding lower_names_def listener_blocks_def map_map by (rule map_cong) auto
    then show ?thesis by simp
  qed
  have "run_all (listener_block E) ?bs (x \<lparr>z_vpListeners := []\<rparr>) = (None, x \<lparr>z_vpListeners := z_vpListeners z\<rparr>)"
    using read_listeners [OF snds, of E "x \<lparr>z_vpListeners := []\<rparr>"] ls(2) [OF pem] by simp
  then show ?thesis
    using taken_again [OF zconfig_ok [of E z] lm, of "[]"] ls(1) [OF pem] all [of "x \<lparr>z_vpListeners := []\<rparr>"]
    unfolding LoadListeners_def Let_def fst_conv snd_conv
    by (simp add: blocks C_def [symmetric])
qed

text \<open>The names LoadGlobal takes from the configuration.\<close>

definition global_taken :: "string list" where
  "global_taken = ''version'' # ''loadmodule'' #
     [''motd'', ''bindhost'', ''vhost'', ''trustedproxy'', ''disableclientcap'', ''disableservercap''] @
     map fst global_options @ [''sslprotocols'', ''configwritedelay'', ''loadmodule'', ''listen'', ''listen6'', ''listen4'',
       ''listener'', ''listener6'', ''listener4'']"

lemma global_option_names: "map fst global_options = [''pidfile'', ''statusprefix'', ''sslcertfile'', ''sslkeyfile'', ''ssldhparamfile'',
    ''sslciphers'', ''skin'', ''connectdelay'', ''serverthrottle'', ''anoniplimit'', ''maxbuffersize'', ''protectwebsessions'',
    ''hideversion'', ''authonlyviamodule'']"
  by (simp add: global_options_def)

lemma global_at_most_one:
  "k \<in> set (map fst global_options) \<Longrightarrow> length (zat E z k) \<le> 1"
  unfolding global_option_names by (auto simp: zat)

lemma LoadGlobal_steps:
  assumes "FindStringEntry ''version'' [] c0 = ((b0, v), c1)" and "FindStringVector ''loadmodule'' True c1 = ((b1, vs), c2)"
    and "\<not> version_less (version_of v) (1, 9)" and "run_all (global_module E (version_of v)) vs ([], x0) = (None, mm, x1)"
    and "global_lists (x1, c2) = (x2, c3)" and "parse_options global_options (x2, c3) = (x3, c4)"
    and "FindStringEntry ''sslprotocols'' [] c4 = ((bp, sv), c5)"
    and "(if bp then SetSSLProtocols E sv x3 else (True, x3)) = (True, x4)"
    and "parse_options [(''configwritedelay'', \<lambda>s z. z \<lparr>z_uiConfigWriteDelay := ToUInt s\<rparr>)] (x4, c5) = (x5, c6)"
    and "UnloadRemovedModules E mm x5 = x5"
  shows "LoadGlobal E (x0, c0) = LoadListeners E (x5, c6)"
  unfolding LoadGlobal_def Let_def fst_conv snd_conv assms(1) prod.case assms(2)
  by (simp only: assms(3-10) if_False append_Nil2 option.case prod.case not_True_eq_False)

lemma LoadGlobal_back:
  fixes E z
  defines "C \<equiv> lower_config (WriteConfig_tree E z)"
  assumes st: "znc_storable E z"
  shows "\<exists>ms d. LoadGlobal E (mk_cznc E, C) = (None, (znc_read E z ms d) \<lparr>z_vpListeners := z_vpListeners z\<rparr>, taken global_taken [''listener''] C) \<and>
    map (\<lambda>m. (mod_sModName m, mod_sArgs m)) ms = map (\<lambda>m. (mod_sModName m, mod_sArgs m)) (z_mods z)"
proof -
  note gs = st [unfolded znc_storable_def, THEN conjunct1]
  have g: "z_sSSLProtocols z \<noteq> [] \<longrightarrow> fst (SetSSLProtocols E (z_sSSLProtocols z) z)" "ze_VERSION_STR E \<noteq> []"
    "\<not> version_less (version_of (ze_VERSION_STR E)) (1, 9)" "mods_unique (z_mods z)" "\<forall>m \<in> set (z_mods z). global_module_ok m"
    "global_loader_ok (mod_env_of E) (z_mods z)" "path_ok E (GetPemLocation E z)" "z_uiConfigWriteDelay z < 2 ^ 32"
    using gs by (simp_all add: global_storable_def znc_numbers_def)
  let ?v = "version_of (ze_VERSION_STR E)" and ?m0 = "mk_cznc E"
  let ?k2 = "[''version'', ''loadmodule'']"
  let ?k3 = "?k2 @ [''motd'', ''bindhost'', ''vhost'', ''trustedproxy'', ''disableclientcap'', ''disableservercap'']"
  let ?k4 = "?k3 @ map fst global_options"
  have at: "om_at (c_entries C) = zat E z" by (simp add: zat_def C_def)
  note ok = zconfig_ok [of E z, folded C_def]
  note ent = taken_entry [OF ok, unfolded at] and opts = taken_options [OF ok, unfolded at]
  have C0: "C = taken [] [] C" by (simp add: taken_def)
  have version: "FindStringEntry ''version'' [] C = ((True, ze_VERSION_STR E), taken [''version''] [] C)"
    by (subst C0) (use ent [of "''version''" "[]" "[]" "[]"] g(2) in \<open>simp add: zat\<close>)
  have "zat E z ''loadmodule'' = map global_line (z_mods z)"
    unfolding zat by (rule filter_True) (use g(5) global_line_tokens(3) in auto)
  then have mods: "FindStringVector ''loadmodule'' True (taken [''version''] [] C) = ((z_mods z \<noteq> [], map global_line (z_mods z)), taken ?k2 [] C)"
    using taken_vector [OF ok, of "''loadmodule''" "[''version'']" "[]"] by (simp add: at)
  have "\<exists>ms' mm'. run_all (global_module E ?v) (map global_line (z_mods z)) ([], ?m0) = (None, mm', ?m0 \<lparr>z_mods := z_mods ?m0 @ ms'\<rparr>) \<and>
      map (\<lambda>m. (mod_sModName m, mod_sArgs m)) ms' = map (\<lambda>m. (mod_sModName m, mod_sArgs m)) (z_mods z) \<and>
      (\<forall>m \<in> set (z_mods ?m0 @ ms'). map_of mm' (mod_sModName m) \<noteq> None)"
    by (rule read_global_modules) (use g in \<open>simp_all add: mk_cznc_def mods_unique_def\<close>)
  then obtain ms mm where run: "run_all (global_module E ?v) (map global_line (z_mods z)) ([], ?m0) = (None, mm, ?m0 \<lparr>z_mods := ms\<rparr>)"
    and ms: "map (\<lambda>m. (mod_sModName m, mod_sArgs m)) ms = map (\<lambda>m. (mod_sModName m, mod_sArgs m)) (z_mods z)"
    and known: "\<forall>m \<in> set ms. map_of mm (mod_sModName m) \<noteq> None"
    by (auto simp: mk_cznc_def)
  let ?z1 = "?m0 \<lparr>z_mods := ms\<rparr>"
  let ?z2 = "?z1 \<lparr>z_vsMotd := z_vsMotd z, z_vsTrustedProxies := z_vsTrustedProxies z, z_ssClientCapBlacklist := z_ssClientCapBlacklist z,
        z_ssServerCapBlacklist := z_ssServerCapBlacklist z\<rparr>"
  have lists: "global_lists (?z1, taken ?k2 [] C) = (?z2, taken ?k3 [] C)"
    using global_lists_read [OF gs, of ?k2 ?z1 "[]", folded C_def] by simp
  define d0 where "d0 = z_uDisabledSSLProtocols ?m0"
  let ?z3 = "(znc_read E z ms d0) \<lparr>z_sSSLProtocols := [], z_uiConfigWriteDelay := 0\<rparr>"
  have "parse_options global_options (?z2, taken ?k3 [] C) = (fold (\<lambda>(k, f). opt f (zat E z k)) global_options ?z2, taken ?k4 [] C)"
    by (rule opts) (simp_all add: global_option_names, simp_all add: zat)
  moreover have "fold (\<lambda>(k, f). opt f (zat E z k)) global_options ?z2 = ?z3"
    using global_opts_read [OF gs, where ms = ms and a = "z_vsMotd z" and b = "z_vsTrustedProxies z" and c = "z_ssClientCapBlacklist z"
      and d = "z_ssServerCapBlacklist z"]
    by (simp add: znc_read_def d0_def)
  ultimately have gopts: "parse_options global_options (?z2, taken ?k3 [] C) = (?z3, taken ?k4 [] C)" by simp
  have nprot: "''sslprotocols'' \<notin> set ?k4" "''configwritedelay'' \<notin> set (?k4 @ [''sslprotocols''])" by (simp_all add: global_option_names)
  have prot: "FindStringEntry ''sslprotocols'' [] (taken ?k4 [] C) = ((z_sSSLProtocols z \<noteq> [], z_sSSLProtocols z), taken (?k4 @ [''sslprotocols'']) [] C)"
    using ent [OF nprot(1), of "[]" "[]"] by (simp add: zat)
  obtain d where set_prot: "(if z_sSSLProtocols z \<noteq> [] then SetSSLProtocols E (z_sSSLProtocols z) ?z3 else (True, ?z3)) =
      (True, (znc_read E z ms d) \<lparr>z_uiConfigWriteDelay := 0\<rparr>)"
  proof (cases "z_sSSLProtocols z = []")
    case True
    then show ?thesis by (intro that [of d0]) (simp add: znc_read_def)
  next
    case False
    obtain d where "SetSSLProtocols E (z_sSSLProtocols z) ?z3 = (True, ?z3 \<lparr>z_sSSLProtocols := z_sSSLProtocols z, z_uDisabledSSLProtocols := d\<rparr>)"
      using SetSSLProtocols_any g(1) False by blast
    with False show ?thesis by (intro that [of d]) (simp add: znc_read_def)
  qed
  let ?k6 = "?k4 @ [''sslprotocols'', ''configwritedelay'']"
  have delay: "parse_options [(''configwritedelay'', \<lambda>s z. z \<lparr>z_uiConfigWriteDelay := ToUInt s\<rparr>)]
      ((znc_read E z ms d) \<lparr>z_uiConfigWriteDelay := 0\<rparr>, taken (?k4 @ [''sslprotocols'']) [] C) = (znc_read E z ms d, taken ?k6 [] C)"
  proof -
    let ?o = "[(''configwritedelay'', \<lambda>s z. z \<lparr>z_uiConfigWriteDelay := ToUInt s\<rparr>)]"
    have "set (map fst ?o) \<inter> set (?k4 @ [''sslprotocols'']) = {}" using nprot(2) by simp
    moreover have "\<forall>k \<in> set (map fst ?o). length (zat E z k) \<le> 1" by (simp add: zat)
    ultimately have "parse_options ?o ((znc_read E z ms d) \<lparr>z_uiConfigWriteDelay := 0\<rparr>, taken (?k4 @ [''sslprotocols'']) [] C) =
        (fold (\<lambda>(k, f). opt f (zat E z k)) ?o ((znc_read E z ms d) \<lparr>z_uiConfigWriteDelay := 0\<rparr>),
         taken ((?k4 @ [''sslprotocols'']) @ map fst ?o) [] C)"
      using opts [of ?o "?k4 @ [''sslprotocols'']" "(znc_read E z ms d) \<lparr>z_uiConfigWriteDelay := 0\<rparr>" "[]"] by simp
    then show ?thesis using g(8) by (simp add: zat ToUInt_dec znc_read_def)
  qed
  have unload: "UnloadRemovedModules E mm (znc_read E z ms d) = znc_read E z ms d"
    by (rule UnloadRemoved_none) (use known in \<open>simp add: znc_read_def\<close>)
  let ?k7 = "?k6 @ [''loadmodule'', ''listen'', ''listen6'', ''listen4'', ''listener'', ''listener6'', ''listener4'']"
  have listeners: "LoadListeners E (znc_read E z ms d, taken ?k6 [] C) = (None, (znc_read E z ms d) \<lparr>z_vpListeners := z_vpListeners z\<rparr>,
      taken ?k7 [''listener''] C)"
    unfolding C_def
  proof (rule LoadListeners_back [OF st])
    show "GetPemLocation E (znc_read E z ms d) = GetPemLocation E z"
      using g(7) by (simp add: GetPemLocation_def znc_read_def path_ok_def)
  qed (simp_all add: global_option_names)
  have "LoadGlobal E (?m0, C) = LoadListeners E (znc_read E z ms d, taken ?k6 [] C)"
    by (rule LoadGlobal_steps [OF version mods g(3) run lists gopts prot set_prot delay unload])
  moreover have "?k7 = global_taken" by (simp only: global_taken_def append_assoc append.simps)
  ultimately have "LoadGlobal E (?m0, C) = (None, (znc_read E z ms d) \<lparr>z_vpListeners := z_vpListeners z\<rparr>, taken global_taken [''listener''] C)"
    by (simp only: listeners)
  then show ?thesis using ms by (intro exI [of _ ms] exI [of _ d] conjI)
qed

section \<open>Loading the users\<close>

lemma user_id_irrelevant:
  "User_ToConfig E (u \<lparr>cu_id := i\<rparr>) = User_ToConfig E u" "user_kept (u \<lparr>cu_id := i\<rparr>) = user_kept u"
  "user_storable E (u \<lparr>cu_id := i\<rparr>) = user_storable E u" "User_IsValid b (u \<lparr>cu_id := i\<rparr>) = User_IsValid b u"
proof -
  have g: "User_GetNick (u \<lparr>cu_id := i\<rparr>) b = User_GetNick u b" "User_GetAltNick (u \<lparr>cu_id := i\<rparr>) b = User_GetAltNick u b"
    "User_GetIdent (u \<lparr>cu_id := i\<rparr>) b = User_GetIdent u b" "User_GetRealName (u \<lparr>cu_id := i\<rparr>) = User_GetRealName u"
    "User_GetQuitMsg (u \<lparr>cu_id := i\<rparr>) = User_GetQuitMsg u" for b
    by (simp_all add: User_GetNick_def User_GetAltNick_def User_GetIdent_def User_GetRealName_def User_GetQuitMsg_def)
  have k: "user_strings (u \<lparr>cu_id := i\<rparr>) = user_strings u" "user_numbers (u \<lparr>cu_id := i\<rparr>) = user_numbers u" "user_flags (u \<lparr>cu_id := i\<rparr>) = user_flags u"
    by (simp_all add: user_strings_def user_numbers_def user_flags_def g)
  show "user_kept (u \<lparr>cu_id := i\<rparr>) = user_kept u" by (simp add: user_kept_def k)
  have v: "net_storable L (view_of E (u \<lparr>cu_id := i\<rparr>)) nc = net_storable L (view_of E u) nc" for L nc
    by (simp add: view_of_def g net_storable_def)
  show "user_storable E (u \<lparr>cu_id := i\<rparr>) = user_storable E u"
    by (simp add: user_storable_def v k SetLanguage_def SetStatusPrefix_def)
  show "User_ToConfig E (u \<lparr>cu_id := i\<rparr>) = User_ToConfig E u"
    unfolding User_ToConfig_written by (simp add: user_pairs_def user_tags_def net_tag_blocks_def pass_pairs_def g)
  show "User_IsValid b (u \<lparr>cu_id := i\<rparr>) = User_IsValid b u" by (simp add: User_IsValid_def)
qed

lemma kept_valid:
  assumes "user_kept u = user_kept v"
  shows "cu_sUsername u = cu_sUsername v" "User_IsValid b u = User_IsValid b v"
  using assms by (simp_all add: user_kept_def User_IsValid_def)

text \<open>One user's block is read, and the user added behind those already there.\<close>

lemma load_user_back:
  assumes "user_storable (env_of E x) src" and "user_loader_ok (env_of E x) (src \<lparr>cu_id := length (z_msUsers x)\<rparr>)"
    and "User_IsValid False src = None" and "length (z_sStatusPrefix x) < 6" and "CHR '' '' \<notin> set (z_sStatusPrefix x)"
    and "om_ok (z_msUsers x @ [(cu_sUsername src, src)])"
  shows "\<exists>u. load_user E (cu_sUsername src, lower_config (User_ToConfig (env_of E x) src)) x =
      (None, x \<lparr>z_msUsers := z_msUsers x @ [(cu_sUsername src, u)]\<rparr>) \<and> user_kept u = user_kept src"
proof -
  let ?i = "length (z_msUsers x)" and ?E = "env_of E x"
  let ?p = "if z_sStatusPrefix x = [] then ''*'' else z_sStatusPrefix x"
  let ?src = "src \<lparr>cu_id := ?i\<rparr>"
  have "fst (SetStatusPrefix (cu_sStatusPrefix src) src)" using assms(1) by (simp add: user_storable_def)
  then have ne: "cu_sStatusPrefix src \<noteq> []" by (auto simp: SetStatusPrefix_def split: if_splits)
  have pre: "ue_sStatusPrefix ?E = cu_sStatusPrefix ?src \<longrightarrow> ?p = cu_sStatusPrefix ?src"
    using ne by (auto simp: env_of_def)
  obtain u c where u: "User_ParseConfig ?E ([], fresh_user ?i (cu_sUsername src) ?p, lower_config (User_ToConfig ?E src)) = (True, [], u, c)"
    "user_kept u = user_kept src" "Config_empty c"
    by (rule User_ParseConfig_back [OF _ assms(2) pre]) (use assms(1) in \<open>simp_all add: user_id_irrelevant\<close>)
  have start: "(if z_sStatusPrefix x = [] then (True, mk_cuser ?i (cu_sUsername src)) else SetStatusPrefix (z_sStatusPrefix x) (mk_cuser ?i (cu_sUsername src))) =
      (True, fresh_user ?i (cu_sUsername src) ?p)"
    using assms(4,5) by (simp add: fresh_user_def SetStatusPrefix_def mk_cuser_def)
  note v = kept_valid [OF u(2)]
  have "map_of (z_msUsers x) (cu_sUsername src) = None"
    using om_ok_distinct [OF assms(6)] by (simp add: map_of_eq_None_iff)
  then have "AddUser E True u x = (None, x \<lparr>z_msUsers := z_msUsers x @ [(cu_sUsername src, u)]\<rparr>)"
    using assms(3) om_insert_snoc [OF assms(6), of u] by (simp add: AddUser_def FindUser_def v)
  then have "load_user E (cu_sUsername src, lower_config (User_ToConfig ?E src)) x =
      (None, x \<lparr>z_msUsers := z_msUsers x @ [(cu_sUsername src, u)]\<rparr>)"
    unfolding load_user_def Let_def fst_conv snd_conv start prod.case u(1) by (simp add: u(3))
  with u(2) show ?thesis by blast
qed

lemma env_of_users [simp]: "env_of E (x \<lparr>z_msUsers := us\<rparr>) = env_of E x"
  by (simp add: env_of_def)

lemma read_users:
  assumes "om_ok (z_msUsers x @ us)" and "length (z_sStatusPrefix x) < 6" and "CHR '' '' \<notin> set (z_sStatusPrefix x)"
    and "\<forall>(k, u) \<in> set us. k = cu_sUsername u \<and> User_IsValid False u = None \<and> user_storable (env_of E x) u \<and>
        (\<forall>i. user_loader_ok (env_of E x) (u \<lparr>cu_id := i\<rparr>))"
  shows "\<exists>us'. run_all (load_user E) (map (\<lambda>(k, u). (cu_sUsername u, lower_config (User_ToConfig (env_of E x) u))) us) x =
      (None, x \<lparr>z_msUsers := z_msUsers x @ us'\<rparr>) \<and> map (\<lambda>(k, u). (k, user_kept u)) us' = map (\<lambda>(k, u). (k, user_kept u)) us"
  using assms
proof (induction us arbitrary: x)
  case Nil
  then show ?case by (intro exI [of _ "[]"]) simp
next
  case (Cons e us)
  obtain k u where e: "e = (k, u)" by (cases e)
  have u: "k = cu_sUsername u" "User_IsValid False u = None" "user_storable (env_of E x) u"
    "\<And>i. user_loader_ok (env_of E x) (u \<lparr>cu_id := i\<rparr>)" using Cons.prems(4) by (auto simp: e)
  have om: "om_ok (z_msUsers x @ [(cu_sUsername u, u)])"
    using Cons.prems(1) by (auto simp: om_ok_def e u(1) sorted_wrt_append)
  obtain u' where u': "load_user E (cu_sUsername u, lower_config (User_ToConfig (env_of E x) u)) x =
      (None, x \<lparr>z_msUsers := z_msUsers x @ [(cu_sUsername u, u')]\<rparr>)" "user_kept u' = user_kept u"
    using load_user_back [OF u(3) u(4) u(2) Cons.prems(2,3) om] by blast
  let ?x = "x \<lparr>z_msUsers := z_msUsers x @ [(cu_sUsername u, u')]\<rparr>"
  have "\<exists>us'. run_all (load_user E) (map (\<lambda>(k, u). (cu_sUsername u, lower_config (User_ToConfig (env_of E ?x) u))) us) ?x =
      (None, ?x \<lparr>z_msUsers := z_msUsers ?x @ us'\<rparr>) \<and> map (\<lambda>(k, u). (k, user_kept u)) us' = map (\<lambda>(k, u). (k, user_kept u)) us"
    by (rule Cons.IH) (use Cons.prems in \<open>auto simp: om_ok_def e u(1)\<close>)
  then obtain us' where us': "run_all (load_user E) (map (\<lambda>(k, u). (cu_sUsername u, lower_config (User_ToConfig (env_of E x) u))) us) ?x =
      (None, x \<lparr>z_msUsers := z_msUsers x @ [(cu_sUsername u, u')] @ us'\<rparr>)"
    "map (\<lambda>(k, u). (k, user_kept u)) us' = map (\<lambda>(k, u). (k, user_kept u)) us" by auto
  show ?case
    by (rule exI [of _ "(cu_sUsername u, u') # us'"]) (use us' u' in \<open>simp add: e u(1)\<close>)
qed

section \<open>The whole configuration\<close>

lemma global_taken_all: "k \<notin> set global_taken \<Longrightarrow> zat E z k = []"
proof -
  have "set global_low \<subseteq> set global_taken" unfolding global_taken_def global_option_names by simp
  then show "k \<notin> set global_taken \<Longrightarrow> zat E z k = []" using zat_none by blast
qed

text \<open>Starting from a new CZNC, LoadGlobal and LoadUsers take everything from the tree and give the state back.\<close>

lemma WriteConfig_back:
  fixes E z
  defines "C \<equiv> lower_config (WriteConfig_tree E z)"
  assumes st: "znc_storable E z"
  shows "\<exists>z1 z2 c1 c2. LoadGlobal E (mk_cznc E, C) = (None, z1, c1) \<and> LoadUsers E (z1, c1) = (None, z2, c2) \<and>
    znc_kept E z2 = znc_kept E z \<and> Config_empty c2"
proof -
  obtain ms d where lg: "LoadGlobal E (mk_cznc E, C) = (None, (znc_read E z ms d) \<lparr>z_vpListeners := z_vpListeners z\<rparr>, taken global_taken [''listener''] C)"
    and ms: "map (\<lambda>m. (mod_sModName m, mod_sArgs m)) ms = map (\<lambda>m. (mod_sModName m, mod_sArgs m)) (z_mods z)"
    using LoadGlobal_back [OF st] unfolding C_def by blast
  define x where "x = (znc_read E z ms d) \<lparr>z_vpListeners := z_vpListeners z\<rparr>"
  have x: "env_of E x = env_of E z" "z_sStatusPrefix x = z_sStatusPrefix z"
    by (simp_all add: x_def env_of_def znc_read_def)
  have us: "om_ok (z_msUsers z)" "z_msUsers z \<noteq> []" "\<forall>(k, u) \<in> set (z_msUsers z). k = cu_sUsername u \<and> User_IsValid False u = None \<and>
      user_storable (env_of E z) u \<and> (\<forall>i. user_loader_ok (env_of E z) (u \<lparr>cu_id := i\<rparr>))"
    using st by (simp_all add: znc_storable_def users_ok_def)
  have pre: "length (z_sStatusPrefix z) < 6" "CHR '' '' \<notin> set (z_sStatusPrefix z)"
    "path_ok E (GetPemLocation E z)" "path_ok E (GetKeyLocation E z)" "path_ok E (GetDHParamLocation E z)"
    using st by (simp_all add: znc_storable_def global_storable_def)
  have blocks: "lower_names (user_blocks (env_of E z) (z_msUsers z)) =
      map (\<lambda>(k, u). (cu_sUsername u, lower_config (User_ToConfig (env_of E z) u))) (z_msUsers z)"
  proof -
    have "filter (\<lambda>(_, u). User_IsValid False u = None) (z_msUsers z) = z_msUsers z"
      by (rule filter_True) (use us(3) in auto)
    then show ?thesis by (simp add: user_blocks_def lower_names_def split_beta)
  qed
  have sub: "FindSubConfig ''user'' True (taken global_taken [''listener''] C) =
      ((True, map (\<lambda>(k, u). (cu_sUsername u, lower_config (User_ToConfig (env_of E z) u))) (z_msUsers z)), taken global_taken [''listener'', ''user''] C)"
    using taken_sub [OF zconfig_ok [of E z], of "''user''" "[''listener'']" global_taken] zsub(2) [OF st] us(2)
    by (simp add: C_def blocks)
  have "\<exists>us'. run_all (load_user E) (map (\<lambda>(k, u). (cu_sUsername u, lower_config (User_ToConfig (env_of E (x \<lparr>z_msUsers := []\<rparr>)) u))) (z_msUsers z)) (x \<lparr>z_msUsers := []\<rparr>) =
      (None, (x \<lparr>z_msUsers := []\<rparr>) \<lparr>z_msUsers := z_msUsers (x \<lparr>z_msUsers := []\<rparr>) @ us'\<rparr>) \<and>
      map (\<lambda>(k, u). (k, user_kept u)) us' = map (\<lambda>(k, u). (k, user_kept u)) (z_msUsers z)"
    by (rule read_users) (use us pre x in simp_all)
  then obtain us' where us': "run_all (load_user E) (map (\<lambda>(k, u). (cu_sUsername u, lower_config (User_ToConfig (env_of E z) u))) (z_msUsers z)) (x \<lparr>z_msUsers := []\<rparr>) =
      (None, x \<lparr>z_msUsers := us'\<rparr>)" "map (\<lambda>(k, u). (k, user_kept u)) us' = map (\<lambda>(k, u). (k, user_kept u)) (z_msUsers z)"
    by (auto simp: x)
  have ne: "us' \<noteq> []" using us'(2) us(2) by auto
  have lu: "LoadUsers E (x, taken global_taken [''listener''] C) = (None, x \<lparr>z_msUsers := us'\<rparr>, taken global_taken [''listener'', ''user''] C)"
    unfolding LoadUsers_def fst_conv snd_conv sub Let_def prod.case us'(1) by (simp add: ne)
  have "znc_kept E (x \<lparr>z_msUsers := us'\<rparr>) = znc_kept E z"
  proof -
    have "znc_strings E (x \<lparr>z_msUsers := us'\<rparr>) = znc_strings E z"
      using pre(3-5) by (simp add: znc_strings_def x_def znc_read_def path_ok_def GetPemLocation_def GetKeyLocation_def GetDHParamLocation_def)
    moreover have "znc_numbers (x \<lparr>z_msUsers := us'\<rparr>) = znc_numbers z"
      by (simp add: znc_numbers_def x_def znc_read_def)
    ultimately show ?thesis using ms us'(2) by (simp add: znc_kept_def x_def znc_read_def)
  qed
  moreover have "Config_empty (taken global_taken [''listener'', ''user''] C)"
    unfolding C_def
  proof (rule taken_empty [OF zconfig_ok])
    show "\<forall>k. k \<notin> set global_taken \<longrightarrow> om_at (c_entries (lower_config (WriteConfig_tree E z))) k = []"
      using global_taken_all [of _ E z] by (simp add: zat_def)
    show "\<forall>t. t \<notin> set [''listener'', ''user''] \<longrightarrow> om_at (c_subs (lower_config (WriteConfig_tree E z))) t = []"
      using zsub(3) [OF st] by simp
  qed
  ultimately show ?thesis using lg [folded x_def] lu by blast
qed

section \<open>The text of the file\<close>

lemma header_line_skipped:
  assumes "l \<in> set ([] # header_lines)" and "\<not> ps_commented st"
  shows "config_line n (l @ [CHR 0x0A]) st = Inr st"
proof -
  let ?s = "\<lambda>l. TrimRight_n [CHR 0x0D, CHR 0x0A] (TrimLeft_n ws (l @ [CHR 0x0A]))"
  have all: "\<forall>l \<in> set ([] # header_lines). \<not> starts_ci (?s l) ''/*'' \<and> (?s l = [] \<or> starts_ci (?s l) ''//'')" by code_simp
  define t where "t = ?s l"
  have "\<not> starts_ci t ''/*''" "t = [] \<or> starts_ci t ''//''" using bspec [OF all assms(1)] unfolding t_def by blast+
  then show ?thesis unfolding config_line_def Let_def t_def [symmetric] using assms(2) by presburger
qed

lemma header_runs:
  assumes "set ls \<subseteq> set ([] # header_lines)" and "\<not> ps_commented st"
  shows "runs (map (\<lambda>l. l @ [CHR 0x0A]) ls) st st"
proof -
  have "config_lines n (map (\<lambda>l. l @ [CHR 0x0A]) ls) st = (n + length ls, Inr st)" for n
    using assms(1)
  proof (induction ls arbitrary: n)
    case (Cons l ls)
    then show ?case using header_line_skipped [of l st "Suc n"] assms(2) by simp
  qed simp
  then show ?thesis by (simp add: runs_def)
qed

lemma Config_Parse_text:
  assumes "config_writable c" and "[] \<notin> set chunks" and "concat chunks = MakeConfigHeader @ [CHR 0x0A] @ concat (Config_Write 0 c)"
  shows "Config_Parse (open_file chunks) empty_config = Inr (lower_config c)"
proof -
  let ?st = "\<lparr>ps_root = empty_config, ps_stack = [], ps_commented = False\<rparr>"
  let ?h = "map (\<lambda>l. l @ [CHR 0x0A]) (header_lines @ [[]])"
  let ?ls = "?h @ Config_Write 0 c"
  have whole: "concat chunks = concat ?ls" using assms(3) by (simp add: MakeConfigHeader_def)
  have "\<forall>l \<in> set (header_lines @ [[]]). CHR 0x0A \<notin> set l" by code_simp
  then have "\<forall>l \<in> set ?ls. \<exists>b. l = b @ [CHR 0x0A] \<and> CHR 0x0A \<notin> set b"
    using Config_Write_lines [of _ 0 c] by auto
  then have rd: "read_all (open_file chunks) = ?ls"
    unfolding read_all_open [OF assms(2)] whole by (rule lines_of_concat)
  have "runs ?h ?st ?st" by (rule header_runs) auto
  moreover have "runs (Config_Write 0 c) ?st (set_active (lower_config c) ?st)"
    using reads_as_lower [OF assms(1), of 0] by (simp add: reads_as_def ps_active_def)
  ultimately have "runs ?ls ?st (set_active (lower_config c) ?st)" by (rule runs_append)
  then have "config_lines 0 ?ls ?st = (length ?ls, Inr \<lparr>ps_root = lower_config c, ps_stack = [], ps_commented = False\<rparr>)"
    by (simp add: runs_def set_active_def)
  then show ?thesis unfolding Config_Parse_def rd by simp
qed

lemma version_back:
  assumes "entries_ok C" and "om_at (c_entries C) k = [v]" and "k \<noteq> []" and "v \<noteq> []"
  shows "AddKeyValuePair k v (snd (FindStringEntry k [] C)) = C" "FindStringEntry k [] C = ((True, v), drop_key k C)"
proof -
  have ok: "om_ok (c_entries C)" using assms(1) by (simp add: entries_ok_def)
  show f: "FindStringEntry k [] C = ((True, v), drop_key k C)" using FindStringEntry_one [OF assms(1), of k "[]"] assms(2) by simp
  have m: "map_of (c_entries C) k = Some [v]" using assms(2) by (auto simp: om_at_def split: option.splits)
  have "om_insert k [v] (om_erase k (c_entries C)) = c_entries C"
    by (rule om_ext) (use ok m in \<open>auto simp: fun_eq_iff\<close>)
  moreover have "om_at (om_erase k (c_entries C)) k = []" using ok by (simp add: om_at_def)
  ultimately show "AddKeyValuePair k v (snd (FindStringEntry k [] C)) = C"
    using assms(3,4) unfolding f by (cases C) (simp add: AddKeyValuePair_def drop_key_def om_push_def)
qed

lemma ReadConfig_back:
  assumes "config_writable (WriteConfig_tree E z)" and "ze_VERSION_STR E \<noteq> []" and "[] \<notin> set chunks"
    and "concat chunks = WriteConfig_text E z"
  shows "ReadConfig \<lparr>ro_bExists = True, ro_bReg = True, ro_bOpen = True, ro_bLock = True\<rparr> chunks = Inr (lower_config (WriteConfig_tree E z))"
proof -
  let ?C = "lower_config (WriteConfig_tree E z)"
  have parse: "Config_Parse (open_file chunks) empty_config = Inr ?C"
    by (rule Config_Parse_text [OF assms(1,3)]) (use assms(4) in \<open>simp add: WriteConfig_text_def\<close>)
  have "om_at (c_entries ?C) ''version'' = [ze_VERSION_STR E]" using zat(9) [of E z] assms(2) by (simp add: zat_def)
  from version_back [OF zconfig_ok(1) this _ assms(2)] show ?thesis
    by (simp add: ReadConfig_def parse assms(2))
qed

end
