(* ===== verification/Znc_Text.thy ===== *)
theory Znc_Text imports Znc_Roundtrip begin

text \<open>
  When the text WriteConfig makes can be parsed: every value it writes is one line, and every
  block has a name without blanks around it (\<open>znc_lines\<close>). Then the tree is
  \<open>config_writable\<close>, and the whole file gives the state back.
\<close>

lemma written_subs_member:
  assumes "distinct (map fst tbs)" and "\<forall>e \<in> set tbs. distinct (map fst (snd e))" and "e \<in> set (c_subs (written ps tbs))"
  shows "e \<in> set tbs"
proof -
  have ok: "om_ok (c_subs (written ps tbs))" "snd e \<noteq> []"
    using written_ok(2) [of ps tbs] assms(3) by (auto simp: entries_ok_def)
  have "map_of (c_subs (written ps tbs)) (fst e) = Some (snd e)"
    using assms(3) om_ok_distinct [OF ok(1)] by simp
  then have "snd e = (case map_of tbs (fst e) of None \<Rightarrow> [] | Some bs \<Rightarrow> bs)"
    using written_subs_at [OF assms(1,2), of ps "fst e"] by (simp add: om_at_def)
  then have "map_of tbs (fst e) = Some (snd e)" using ok(2) by (auto split: option.splits)
  then show ?thesis by (cases e) (auto dest: map_of_SomeD)
qed

definition pairs_lines :: "(string \<times> string) list \<Rightarrow> bool" where
  "pairs_lines ps \<longleftrightarrow> (\<forall>p \<in> set ps. one_line (snd p))"

lemma add_pairs_values:
  assumes "\<forall>(k, vs) \<in> set (c_entries c). key_any k \<and> (\<forall>v \<in> set vs. value_ok v)"
    and "\<forall>p \<in> set ps. key_any (fst p) \<and> one_line (snd p)"
  shows "\<forall>(k, vs) \<in> set (c_entries (add_pairs ps c)). key_any k \<and> (\<forall>v \<in> set vs. value_ok v)"
  using assms
proof (induction ps arbitrary: c)
  case (Cons p ps)
  obtain k v where p: "p = (k, v)" by (cases p)
  have at: "\<forall>w \<in> set (om_at (c_entries c) k). value_ok w"
    using Cons.prems(1) om_at_member [of "c_entries c" k] by (cases "om_at (c_entries c) k = []") auto
  have kv: "key_any k" "one_line v" using Cons.prems(2) by (simp_all add: p)
  have "\<forall>(j, vs) \<in> set (c_entries (AddKeyValuePair k v c)). key_any j \<and> (\<forall>v \<in> set vs. value_ok v)"
  proof (cases "k = [] \<or> v = []")
    case True
    then show ?thesis using Cons.prems(1) by (simp add: AddKeyValuePair_def)
  next
    case False
    then have "c_entries (AddKeyValuePair k v c) = om_insert k (om_at (c_entries c) k @ [v]) (c_entries c)"
      by (simp add: AddKeyValuePair_def om_push_def)
    moreover have "\<forall>w \<in> set (om_at (c_entries c) k @ [v]). value_ok w" using at kv False by (simp add: value_ok_def)
    moreover have "\<forall>(j, vs) \<in> insert (k, om_at (c_entries c) k @ [v]) (set (c_entries c)). key_any j \<and> (\<forall>v \<in> set vs. value_ok v)"
      using calculation(2) Cons.prems(1) kv(1) by simp
    ultimately show ?thesis
      using set_om_insert [of k "om_at (c_entries c) k @ [v]" "c_entries c"] by (metis (no_types, lifting) subset_iff)
  qed
  from Cons.IH [OF this] Cons.prems(2) show ?case by (simp add: p)
qed simp

lemma writable_written:
  assumes "fst ` set ps \<subseteq> K" and "\<forall>k \<in> K. key_any k" and "pairs_lines ps"
    and "inj_on AsLower (fst ` set tbs)" and "distinct (map fst tbs)"
    and "\<forall>(t, bs) \<in> set tbs. tag_any t \<and> distinct (map fst bs) \<and> (\<forall>(n, c) \<in> set bs. blockname_ok n \<and> config_writable c)"
  shows "config_writable (written ps tbs)"
proof -
  let ?W = "written ps tbs"
  have d: "\<forall>e \<in> set tbs. distinct (map fst (snd e))" using assms(6) by auto
  have mem: "e \<in> set tbs" if "e \<in> set (c_subs ?W)" for e by (rule written_subs_member [OF assms(5) d that])
  have 1: "\<forall>(k, vs) \<in> set (c_entries ?W). key_any k \<and> (\<forall>v \<in> set vs. value_ok v)"
    unfolding written_entries
    by (rule add_pairs_values) (use assms(1-3) in \<open>auto simp: empty_config_def pairs_lines_def\<close>)
  have "distinct (map fst (c_subs ?W))" using written_ok(2) [of ps tbs] om_ok_distinct by (auto simp: entries_ok_def)
  moreover have "inj_on AsLower (fst ` set (c_subs ?W))" by (rule inj_on_subset [OF assms(4)]) (use mem in auto)
  ultimately have 2: "distinct (map (\<lambda>e. AsLower (fst e)) (c_subs ?W))"
    by (simp add: distinct_map inj_on_def)
  have 3: "\<forall>(t, l) \<in> set (c_subs ?W). tag_any t \<and> distinct (map fst l) \<and> (\<forall>(n, c) \<in> set l. blockname_ok n \<and> config_writable c)"
    using mem assms(6) by blast
  obtain es ss ns where "?W = Config es ss ns" by (cases ?W)
  with 1 2 3 show ?thesis by simp
qed

lemmas writable_pairs = writable_written [where tbs = "[]", simplified]

section \<open>The conditions\<close>

definition chan_lines :: "chan \<Rightarrow> bool" where
  "chan_lines c \<longleftrightarrow> blockname_ok (m_sName c) \<and> one_line (m_sKey c) \<and> one_line (m_sDefaultModes c)"

definition net_lines :: "load_env \<Rightarrow> netconf \<Rightarrow> bool" where
  "net_lines L nc \<longleftrightarrow> blockname_ok (net_sName (nc_net nc)) \<and> pairs_lines (net_pairs L nc) \<and>
     (\<forall>c \<in> set (m_vChans (nc_net nc)). m_bInConfig c \<longrightarrow> chan_lines c)"

definition user_lines :: "user_env \<Rightarrow> cuser \<Rightarrow> bool" where
  "user_lines U u \<longleftrightarrow> blockname_ok (cu_sUsername u) \<and> pairs_lines (user_pairs U u) \<and> pairs_lines (pass_pairs u) \<and>
     (\<forall>nc \<in> set (cu_vIRCNetworks u). net_lines (ue_load U) nc)"

definition znc_lines :: "znc_env \<Rightarrow> cznc \<Rightarrow> bool" where
  "znc_lines E z \<longleftrightarrow> pairs_lines (global_pairs E z) \<and> (\<forall>l \<in> set (z_vpListeners z). pairs_lines (listener_pairs l)) \<and>
     (\<forall>(k, u) \<in> set (z_msUsers z). user_lines (env_of E z) u)"

lemma digit_line: "isdigit_c c \<Longrightarrow> c \<noteq> NUL \<and> c \<noteq> CHR 0x0D \<and> c \<noteq> CHR 0x0A \<and> c \<notin> set ws"
  by (auto simp: isdigit_c_def byte_def ws_def)

lemma one_line_dec [simp]: "one_line (dec n)"
  using dec_digits [of _ n] digit_line by (auto simp: one_line_def nul_free_def)

lemma one_line_bool [simp]: "one_line (bool_str b)"
proof -
  have "one_line ''true''" "one_line ''false''" by code_simp+
  then show ?thesis by (simp add: bool_str_def)
qed

lemma keys_any:
  "\<forall>k \<in> set chan_keys. key_any k" "\<forall>k \<in> set net_keys. key_any k" "\<forall>k \<in> set user_keys. key_any k"
  "\<forall>k \<in> set listener_keys. key_any k" "\<forall>k \<in> set global_keys. key_any k" "\<forall>k \<in> set [''Salt'', ''Method'', ''Hash'']. key_any k"
  "tag_any ''Chan''" "tag_any ''Pass''" "tag_any ''Network''" "tag_any ''Listener''" "tag_any ''User''" "blockname_ok ''password''"
  by code_simp+

lemma writable_chan: "chan_lines c \<Longrightarrow> config_writable (Chan_ToConfig c)"
proof -
  assume c: "chan_lines c"
  have "one_line ''true''" by code_simp
  with c have "pairs_lines (chan_pairs c)" by (auto simp: pairs_lines_def chan_pairs_def chan_lines_def)
  then show ?thesis unfolding Chan_ToConfig_written by (rule writable_pairs [OF chan_pairs_keys keys_any(1)])
qed

lemma writable_net:
  assumes "net_lines L nc" and "net_storable L V nc"
  shows "config_writable (Net_ToConfig L nc)"
  unfolding Net_ToConfig_written
proof (rule writable_written [OF net_pairs_keys keys_any(2)])
  show "pairs_lines (net_pairs L nc)" using assms(1) by (simp add: net_lines_def)
  have "distinct (map fst (net_blocks nc))" using assms(2) net_blocks_ok by (simp add: net_storable_def)
  moreover have "\<forall>(n, c) \<in> set (net_blocks nc). blockname_ok n \<and> config_writable c"
    using assms(1) writable_chan by (auto simp: net_blocks_def net_lines_def chan_lines_def)
  ultimately show "\<forall>(t, bs) \<in> set [(''Chan'', net_blocks nc)]. tag_any t \<and> distinct (map fst bs) \<and> (\<forall>(n, c) \<in> set bs. blockname_ok n \<and> config_writable c)"
    using keys_any(7) by simp
qed simp_all

lemma writable_user:
  assumes "user_lines U u" and "user_storable U u"
  shows "config_writable (User_ToConfig U u)"
  unfolding User_ToConfig_written
proof (rule writable_written [OF user_pairs_keys keys_any(3) _ user_tags_ok(1,2) [OF assms(2)]])
  show "pairs_lines (user_pairs U u)" using assms(1) by (simp add: user_lines_def)
  have "fst ` set (pass_pairs u) \<subseteq> set [''Salt'', ''Method'', ''Hash'']" by (simp add: pass_pairs_def)
  then have "config_writable (written (pass_pairs u) [])"
    by (rule writable_pairs [OF _ keys_any(6)]) (use assms(1) in \<open>simp add: user_lines_def\<close>)
  moreover have "\<forall>(n, c) \<in> set (net_tag_blocks (ue_load U) u). blockname_ok n \<and> config_writable c"
    using assms writable_net by (fastforce simp: net_tag_blocks_def user_lines_def net_lines_def user_storable_def)
  ultimately show "\<forall>(t, bs) \<in> set (user_tags U u). tag_any t \<and> distinct (map fst bs) \<and> (\<forall>(n, c) \<in> set bs. blockname_ok n \<and> config_writable c)"
    using user_tags_ok(3) [OF assms(2)] keys_any(8,9,12) by (simp add: user_tags_def)
qed

lemma listener_name: "blockname_ok (''listener'' @ dec i)"
proof -
  obtain c where l: "last (dec i) = c" "isdigit_c c" using dec_digits [of "last (dec i)" i] by simp
  have "one_line ''listener''" "hd ''listener'' \<notin> set ws" by code_simp+
  then show ?thesis using l digit_line [OF l(2)] one_line_dec [of i]
    by (auto simp: blockname_ok_def trimmed_def one_line_def nul_free_def)
qed

lemma writable_znc:
  assumes "znc_lines E z" and "znc_storable E z"
  shows "config_writable (WriteConfig_tree E z)"
  unfolding WriteConfig_written
proof (rule writable_written [OF global_pairs_keys keys_any(5) _ global_tags_ok(1,2) [OF assms(2)]])
  show "pairs_lines (global_pairs E z)" using assms(1) by (simp add: znc_lines_def)
  have ls: "\<forall>(n, c) \<in> set (listener_blocks (z_vpListeners z)). blockname_ok n \<and> config_writable c"
  proof -
    have "config_writable (Listener_ToConfig l)" if "l \<in> set (z_vpListeners z)" for l
      unfolding Listener_ToConfig_written
      by (rule writable_pairs [OF listener_pairs_keys keys_any(4)]) (use assms(1) that in \<open>simp add: znc_lines_def\<close>)
    then show ?thesis using listener_name by (auto simp: listener_blocks_def enumerate_eq_zip dest: set_zip_rightD)
  qed
  have us: "\<forall>(n, c) \<in> set (user_blocks (env_of E z) (z_msUsers z)). blockname_ok n \<and> config_writable c"
  proof -
    have "user_storable (env_of E z) u" if "(k, u) \<in> set (z_msUsers z)" for k u
      using assms(2) that by (fastforce simp: znc_storable_def users_ok_def)
    moreover have "user_lines (env_of E z) u" if "(k, u) \<in> set (z_msUsers z)" for k u
      using assms(1) that by (fastforce simp: znc_lines_def)
    ultimately show ?thesis using writable_user by (fastforce simp: user_blocks_def user_lines_def)
  qed
  show "\<forall>(t, bs) \<in> set (global_tags E z). tag_any t \<and> distinct (map fst bs) \<and> (\<forall>(n, c) \<in> set bs. blockname_ok n \<and> config_writable c)"
    using global_tags_ok(3) [OF assms(2)] keys_any(10,11) ls us by (simp add: global_tags_def)
qed

section \<open>The file gives the state back\<close>

abbreviation read_ok :: read_outcome where
  "read_ok \<equiv> \<lparr>ro_bExists = True, ro_bReg = True, ro_bOpen = True, ro_bLock = True\<rparr>"

lemma ParseConfig_back:
  assumes "znc_storable E z" and "znc_lines E z" and "[] \<notin> set chunks" and "concat chunks = WriteConfig_text E z"
  shows "\<exists>z'. ParseConfig E read_ok chunks (mk_cznc E) = (None, z') \<and> znc_kept E z' = znc_kept E z"
proof -
  have "ze_VERSION_STR E \<noteq> []" using assms(1) by (simp add: znc_storable_def global_storable_def)
  note rd = ReadConfig_back [OF writable_znc [OF assms(2,1)] this assms(3,4)]
  from WriteConfig_back [OF assms(1)] show ?thesis unfolding ParseConfig_def rd by auto
qed

end
