(* ===== verification/Home_State.thy ===== *)
theory Home_State imports Znc_Text begin

text \<open>
  A concrete installation: one listener, a global module, one user with a module and a network
  with a server and a channel. It satisfies the conditions of the theorems about the
  configuration file; their witnesses use it.
\<close>

definition home_mod_env :: mod_env where
  "home_mod_env =
     \<lparr>me_OnModuleLoading = (\<lambda>s a t. None), me_OnModuleUnloading = (\<lambda>m. None), me_OnLoad = (\<lambda>m a. (Some (True, []), m)),
      me_Exists = (\<lambda>p. True), me_ChangeDir = (\<lambda>p. p),
      me_dlopen = (\<lambda>p. ModuleEntry ''1.9'' [] [] \<lparr>mi_seType = [GlobalModule, UserModule, NetworkModule],
        mi_sDescription = []\<rparr>),
      me_Registry = (\<lambda>s. []), me_sModPath = ''/m'', me_MODDIR = ''/n'', me_DATADIR = ''/d'', me_VERSION_STR = ''1.9'', me_VERSION_EXTRA = [],
      me_COMPILE_OPTIONS = []\<rparr>"

definition home_env :: znc_env where
  "home_env =
     \<lparr>ze_user = \<lparr>ue_load = \<lparr>le_mod = home_mod_env, le_bForceEncoding = False, le_converter = (\<lambda>s. True),
          le_ToDouble = (\<lambda>s. 2), le_ShowDouble = (\<lambda>r. ''2.00'')\<rparr>,
        ue_MaxBufferSize = 500, ue_sStatusPrefix = [], ue_OnGetModInfo = (\<lambda>s. None), ue_OnAddNetwork = (\<lambda>s. None),
        ue_OnDeleteNetwork = (\<lambda>s. False)\<rparr>,
      ze_Listen = (\<lambda>l. None), ze_Exists = (\<lambda>s. True), ze_CreatePem = False, ze_sHomePath = ''/home/bob'',
      ze_EDP = (\<lambda>p. 1), ze_EDP_SSL = 3, ze_VERSION_STR = ''1.9.1'', ze_OnAddUser = (\<lambda>u. None)\<rparr>"

definition home_user :: user where
  "home_user = \<lparr>u_AutoClearChanBuffer = True, u_AutoClearQueryBuffer = True, u_ChanBufferSize = 50, u_QueryBufferSize = 50,
     u_MaxQueryBuffers = 50, u_MaxJoins = 0, u_JoinTries = 10, u_DefaultChanModes = [], u_CTCPReplies = [], u_MaxBufferSize = 500\<rparr>"

definition home_channel :: chan where
  "home_channel = (mk_chan home_user False (\<lambda>s. True) ''#znc'' True None) \<lparr>m_sKey := ''k''\<rparr>"

definition home_net :: netconf where
  "home_net = with_net (\<lambda>n. n \<lparr>net_sNick := ''bobby'', m_vServers := [mk_server ''irc.znc.in'' 6697 ''p'' True False],
     m_vChans := [home_channel]\<rparr>) (mk_netconf 1 ''libera'')"

definition home_bob :: cuser where
  "home_bob = (mk_cuser 0 ''bob'') \<lparr>cu_sPass := ''f00'', cu_eHashType := HASH_SHA256, cu_sPassSalt := ''s'', cu_ssAllowedHosts := [''*.de''],
     cu_mssCTCPReplies := [(''VERSION'', ''none'')], cu_vIRCNetworks := [home_net],
     cu_mods := [mk_module home_mod_env (Some 0) None ''log'' [] UserModule]\<rparr>"

text \<open>The installation, with a message of the day.\<close>

definition home_znc :: "string \<Rightarrow> cznc" where
  "home_znc sMotd = (mk_cznc home_env)
     \<lparr>z_sSSLCertFile := ''/home/bob/znc.pem'', z_vsMotd := [sMotd], z_ssServerCapBlacklist := [''away-notify''],
      z_vpListeners := [TCPListener True ''/irc'' ACCEPT_ALL ADDR_ALL 6697 []],
      z_mods := [(mk_module home_mod_env None None ''webadmin'' [] GlobalModule) \<lparr>mod_sArgs := ''-x''\<rparr>],
      z_msUsers := [(''bob'', home_bob)]\<rparr>"

lemma home_load:
  assumes "ValidateModuleName s" and "FindModule s cur = None" and "pUser = None \<longrightarrow> t \<noteq> UserModule"
    and "pNetwork = None \<longrightarrow> t \<noteq> NetworkModule" and "t \<in> {GlobalModule, UserModule, NetworkModule}"
  shows "\<exists>msg m1. LoadModule home_mod_env s a t pUser pNetwork cur = (True, msg, cur @ [m1]) \<and> mod_sModName m1 = s \<and> mod_sArgs m1 = a"
  using assms by (auto simp: LoadModule_def home_mod_env_def FindModPath_def OpenModule_def GetModDirs_def mk_module_def Let_def)

lemma home_valid: "ValidateModuleName ''log''" "ValidateModuleName ''webadmin''"
  by code_simp+

lemma home_net_storable: "net_storable (ue_load (env_of home_env (home_znc m))) (view_of (env_of home_env (home_znc m)) home_bob) home_net"
proof -
  have srv: "server_ok (mk_server ''irc.znc.in'' 6697 ''p'' True False)"
  proof -
    have 3: "(tolower_c CHR ''i'' = tolower_c CHR ''u'') = False" by code_simp
    have 1: "starts_ci (Server_GetString True (mk_server ''irc.znc.in'' 6697 ''p'' True False)) ''unix:'' = False"
      using starts_ci_hd [of _ "CHR ''u''" "''nix:''"] 3 by (fastforce simp: Server_GetString_def mk_server_def)
    have 2: "(plain_end ''irc.znc.in'' \<and> plain_end ''p'') = True" "(CHR ''i'' \<in> set ws) = False" by code_simp+
    show ?thesis using 1 2 by (simp add: server_ok_def mk_server_def)
  qed
  have nm: "m_sName home_channel = ''#znc''" "m_bInConfig home_channel" "b_uLineCount (m_Buffer home_channel) = 50"
    "m_sKey home_channel = ''k''" by code_simp+
  have nick: "cu_sNick home_bob = ''bob''" "equals_ci ''bob'' ''bobby'' = False" by code_simp+
  show ?thesis
    by (simp add: net_storable_def home_net_def with_net_def mk_netconf_def mk_network_def srv nm env_of_def home_env_def
        inherited_set_def chans_ok_def chan_name_ok_def mods_unique_def view_of_def User_GetNick_def nick)
qed

lemma home_user_storable: "user_storable (env_of home_env (home_znc m)) home_bob"
proof -
  have mods: "mods_unique (cu_mods home_bob)" "\<forall>x \<in> set (cu_mods home_bob). user_module_ok x" by code_simp+
  have flds: "cu_sCleanUsername home_bob = MakeCleanUserName (cu_sUsername home_bob)" "cu_sClientEncoding home_bob = []"
    "cu_sTimestampFormat home_bob \<noteq> []" "cu_sLanguage home_bob = []" "cu_sStatusPrefix home_bob = ''*''"
    "cu_ssAllowedHosts home_bob = [''*.de'']" "cu_mssCTCPReplies home_bob = [(''VERSION'', ''none'')]" "cu_eHashType home_bob = HASH_SHA256"
    by (simp_all add: home_bob_def mk_cuser_def)
  have "Replace_n [] ''_'' ''-'' = []" "ctcp_ok [(''VERSION'', ''none'')]" "os_ok [''*.de'']" by code_simp+
  then have rest: "fst (SetLanguage (cu_sLanguage home_bob) home_bob)" "Replace_n (cu_sLanguage home_bob) ''_'' ''-'' = cu_sLanguage home_bob"
    "fst (SetStatusPrefix (cu_sStatusPrefix home_bob) home_bob)" "os_ok (cu_ssAllowedHosts home_bob)" "[] \<notin> set (cu_ssAllowedHosts home_bob)"
    "ctcp_ok (cu_mssCTCPReplies home_bob)"
    by (simp_all add: flds SetLanguage_def SetStatusPrefix_def)
  have nums: "\<forall>n \<in> set (user_numbers home_bob). n < 2 ^ 32" by (simp add: user_numbers_def home_bob_def mk_cuser_def)
  have nets: "cu_vIRCNetworks home_bob = [home_net]" by (simp add: home_bob_def)
  show ?thesis
    unfolding user_storable_def nets using home_net_storable [of m] mods rest nums flds by simp
qed

lemma home_user_loader: "user_loader_ok (env_of home_env (home_znc m)) (home_bob \<lparr>cu_id := i\<rparr>)"
proof -
  have u: "cu_mods home_bob = [mk_module home_mod_env (Some 0) None ''log'' [] UserModule]" "cu_vIRCNetworks home_bob = [home_net]"
    by (simp_all add: home_bob_def)
  have e: "le_mod (ue_load (env_of home_env (home_znc m))) = home_mod_env" "ue_OnGetModInfo (env_of home_env (home_znc m)) = (\<lambda>s. None)"
    by (simp_all add: env_of_def home_env_def)
  have n: "mod_sModName (mk_module home_mod_env (Some 0) None ''log'' [] UserModule) = ''log''" "nc_mods home_net = []"
    by (simp_all add: mk_module_def home_net_def with_net_def mk_netconf_def)
  have info: "\<exists>info. GetModInfo home_mod_env (\<lambda>s. None) ''log'' = Inr info \<and> UserModule \<in> set (mi_seType info)"
    using home_valid by (simp add: GetModInfo_def home_mod_env_def FindModPath_def GetModDirs_def GetModPathInfo_def OpenModule_def)
  show ?thesis
    unfolding user_loader_ok_def e loader_ok_def using info home_load [OF home_valid(1)] by (simp add: u n)
qed

lemma home_valid_user: "User_IsValid False home_bob = None" "cu_sUsername home_bob = ''bob''"
  by code_simp+

lemma home_global: "line_ok m \<Longrightarrow> global_storable home_env (home_znc m)"
proof -
  assume m: "line_ok m"
  let ?z = "home_znc m"
  have z: "z_sPidFile ?z = []" "z_sSkinName ?z = []" "z_sStatusPrefix ?z = []" "z_sSSLProtocols ?z = []" "z_vsTrustedProxies ?z = []"
    "z_vsMotd ?z = [m]" "z_ssClientCapBlacklist ?z = []" "z_ssServerCapBlacklist ?z = [''away-notify'']" "z_uiConnectDelay ?z = 5"
    "z_uThrottleTTL ?z = 30000" "z_sSSLCertFile ?z = ''/home/bob/znc.pem''" "z_sSSLKeyFile ?z = []" "z_sSSLDHParamFile ?z = []"
    "z_uiAnonIPLimit ?z = 10" "z_uiMaxBufferSize ?z = 500" "z_uiConfigWriteDelay ?z = 0"
    "z_mods ?z = [(mk_module home_mod_env None None ''webadmin'' [] GlobalModule) \<lparr>mod_sArgs := ''-x''\<rparr>]"
    by (simp_all add: home_znc_def mk_cznc_def)
  have paths: "ChangeDir (ze_sHomePath home_env) [] ''/home/bob/znc.pem'' = ''/home/bob/znc.pem''" by code_simp
  have v: "ze_VERSION_STR home_env \<noteq> []" "\<not> version_less (version_of (ze_VERSION_STR home_env)) (1, 9)"
  proof -
    have t: "Token ''1.9.1'' 0 False ''.'' False = dec 1" "Token ''1.9.1'' 1 False ''.'' False = dec 9" by code_simp+
    show "\<not> version_less (version_of (ze_VERSION_STR home_env)) (1, 9)"
      by (simp only: version_of_def home_env_def znc_env.simps t) (simp add: ToUInt_dec version_less_def)
  qed (simp add: home_env_def)
  have mod_name: "mod_sModName ((mk_module home_mod_env None None ''webadmin'' [] GlobalModule) \<lparr>mod_sArgs := ''-x''\<rparr>) = ''webadmin''"
    "mod_sArgs ((mk_module home_mod_env None None ''webadmin'' [] GlobalModule) \<lparr>mod_sArgs := ''-x''\<rparr>) = ''-x''"
    by (simp_all add: mk_module_def)
  have e: "mod_env_of home_env = home_mod_env" by (simp add: mod_env_of_def home_env_def)
  have load: "global_loader_ok home_mod_env (z_mods ?z)"
    unfolding global_loader_ok_def z using home_load [OF home_valid(2)] by (simp add: mod_name)
  have "FirstLine ''webadmin'' = ''webadmin''" "FirstLine ''-x'' = ''-x''" "line_ok ''away-notify''" by code_simp+
  then have "global_module_ok ((mk_module home_mod_env None None ''webadmin'' [] GlobalModule) \<lparr>mod_sArgs := ''-x''\<rparr>)"
    and "line_ok ''away-notify''"
    using home_valid(2) by (simp_all add: global_module_ok_def module_ok_def mod_name)
  with m v load show ?thesis
    unfolding global_storable_def e
    by (simp add: z path_ok_def paths GetPemLocation_def GetKeyLocation_def GetDHParamLocation_def znc_numbers_def mods_unique_def)
qed

lemma home_storable: "line_ok m \<Longrightarrow> znc_storable home_env (home_znc m)"
proof -
  assume m: "line_ok m"
  have l: "z_vpListeners (home_znc m) = [TCPListener True ''/irc'' ACCEPT_ALL ADDR_ALL 6697 []]" "z_msUsers (home_znc m) = [(''bob'', home_bob)]"
    by (simp_all add: home_znc_def)
  have "prefix_ok ''/irc''" by code_simp
  then have "listeners_ok home_env (home_znc m)"
    unfolding listeners_ok_def l by (simp add: listener_ok_def home_env_def)
  moreover have "users_ok (env_of home_env (home_znc m)) (z_msUsers (home_znc m))"
    unfolding users_ok_def l using home_user_storable home_user_loader home_valid_user by simp
  ultimately show ?thesis using home_global [OF m] by (simp add: znc_storable_def)
qed

text \<open>Every value of the installation is one line.\<close>

lemma home_lines:
  assumes "line_ok m" and "one_line m"
  shows "znc_lines home_env (home_znc m)"
proof -
  let ?z = "home_znc m" and ?U = "env_of home_env (home_znc m)"
  have chan: "chan_lines home_channel" by code_simp
  have strs: "one_line ''bobby''" "one_line ''irc.znc.in''" "one_line '' ''" "one_line ''+''" "one_line ''p''" "one_line ''2.00''" "one_line []"
    "one_line ''bob''" "one_line ''f00''" "one_line ''s''" "one_line ''*.de''" "one_line ''log''" "one_line ''*''"
    "one_line ''VERSION none''" "one_line ''[%H:%M:%S]''" "one_line (hash_name HASH_SHA256)" "one_line ''/irc/''"
    "one_line ''webadmin''" "one_line ''-x''" "one_line ''/home/bob/znc.pem''" "one_line ''away-notify''" "one_line ''1.9.1''"
    "blockname_ok ''libera''" "blockname_ok ''bob''"
    by code_simp+
  have net: "net_lines (ue_load ?U) home_net"
    using strs chan
    by (simp add: net_lines_def pairs_lines_def net_pairs_def home_net_def with_net_def mk_netconf_def mk_network_def unless_empty_def
        env_of_def home_env_def Server_GetString_def mk_server_def)
  have pass: "pairs_lines (pass_pairs home_bob)" by code_simp
  have upper: "AsUpper ''VERSION'' = ''VERSION''" by code_simp
  have gets: "one_line (User_GetNick home_bob True)" "one_line (User_GetAltNick home_bob True)" "one_line (User_GetIdent home_bob True)"
    "one_line (User_GetRealName home_bob)" "one_line (User_GetQuitMsg home_bob)"
    by code_simp+
  have "pairs_lines (user_pairs ?U home_bob)"
    using strs gets upper
    by (simp add: pairs_lines_def user_pairs_def home_bob_def mk_cuser_def module_line_def mk_module_def)
  then have user: "user_lines ?U home_bob"
    using net pass strs by (simp add: user_lines_def home_bob_def mk_cuser_def)
  have paths: "ChangeDir (ze_sHomePath home_env) [] ''/home/bob/znc.pem'' = ''/home/bob/znc.pem''" by code_simp
  have first: "FirstLine ''webadmin'' = ''webadmin''" "FirstLine ''-x'' = ''-x''" "FirstLine ''away-notify'' = ''away-notify''" by code_simp+
  have "pairs_lines (global_pairs home_env ?z)"
    using strs paths first assms
    by (simp add: pairs_lines_def global_pairs_def one_line_pairs_def global_line_def GetPemLocation_def GetKeyLocation_def
        GetDHParamLocation_def home_znc_def mk_cznc_def mk_module_def line_ok_def) (simp add: home_env_def)
  moreover have "pairs_lines (listener_pairs (TCPListener True ''/irc'' ACCEPT_ALL ADDR_ALL 6697 []))"
    using strs by (simp add: pairs_lines_def listener_pairs_def)
  ultimately show ?thesis using user by (simp add: znc_lines_def home_znc_def)
qed

end
