(* ===== verification/Text_Table.thy ===== *)
theory Text_Table imports Cstring_Num begin

text \<open>
  CTable (src/Utils.cpp, include/znc/Utils.h): the tables of the command interpreter. The
  widths of the columns are kept while the table is filled, by the name of the column. All
  lines of a grid are equally long (\<open>GetLine_width\<close>), whatever was put into which cell.
\<close>

datatype table_style = GridStyle | ListStyle

record ctable =
  t_vsHeaders :: "string list"
  t_msuWidths :: "(string \<times> nat) list"
  t_rows :: "string list list"
  t_eStyle :: table_style

definition empty_table :: ctable where
  "empty_table = \<lparr>t_vsHeaders = [], t_msuWidths = [], t_rows = [], t_eStyle = GridStyle\<rparr>"

definition set_width :: "string \<Rightarrow> nat \<Rightarrow> (string \<times> nat) list \<Rightarrow> (string \<times> nat) list" where
  "set_width k n wd = (k, n) # filter (\<lambda>e. fst e \<noteq> k) wd"

definition width_of :: "(string \<times> nat) list \<Rightarrow> string \<Rightarrow> nat" where
  "width_of wd k = (case map_of wd k of Some n \<Rightarrow> n | None \<Rightarrow> 0)"

definition AddColumn :: "string \<Rightarrow> ctable \<Rightarrow> bool \<times> ctable" where
  "AddColumn sName t =
     (if t_eStyle t = ListStyle \<and> length (t_vsHeaders t) \<ge> 2 then (False, t)
      else if \<exists>sHeader \<in> set (t_vsHeaders t). equals_ci sHeader sName then (False, t)
      else (True, t \<lparr>t_vsHeaders := t_vsHeaders t @ [sName], t_msuWidths := set_width sName (length sName) (t_msuWidths t)\<rparr>))"

definition SetStyle :: "table_style \<Rightarrow> ctable \<Rightarrow> bool \<times> ctable" where
  "SetStyle e t = (if e = ListStyle \<and> length (t_vsHeaders t) > 2 then (False, t) else (True, t \<lparr>t_eStyle := e\<rparr>))"

definition AddRow :: "ctable \<Rightarrow> ctable" where
  "AddRow t = (if t_vsHeaders t = [] then t
     else t \<lparr>t_rows := t_rows t @ [replicate (length (t_vsHeaders t)) []]\<rparr>)"

fun GetColumnIndex :: "string \<Rightarrow> string list \<Rightarrow> nat option" where
  "GetColumnIndex sName [] = None"
| "GetColumnIndex sName (h # hs) = (if h = sName then Some 0 else map_option Suc (GetColumnIndex sName hs))"

text \<open>
  SetCell, of the last row or of a given one; None when the row or the cell does not exist,
  which reads and writes outside of the vectors.
\<close>

definition SetCell_at :: "string \<Rightarrow> string \<Rightarrow> nat \<Rightarrow> ctable \<Rightarrow> (bool \<times> ctable) option" where
  "SetCell_at sColumn sValue uRowIdx t =
     (case GetColumnIndex sColumn (t_vsHeaders t) of
        None \<Rightarrow> Some (False, t)
      | Some uColIdx \<Rightarrow>
          if uRowIdx < length (t_rows t) \<and> uColIdx < length (t_rows t ! uRowIdx) then
            Some (True, t \<lparr>t_rows := (t_rows t)[uRowIdx := (t_rows t ! uRowIdx)[uColIdx := sValue]],
              t_msuWidths := (if width_of (t_msuWidths t) sColumn < length sValue
                              then set_width sColumn (length sValue) (t_msuWidths t) else t_msuWidths t)\<rparr>)
          else None)"

definition SetCell :: "string \<Rightarrow> string \<Rightarrow> ctable \<Rightarrow> (bool \<times> ctable) option" where
  "SetCell sColumn sValue t =
     (if t_rows t = [] then Some (False, t) else SetCell_at sColumn sValue (length (t_rows t) - 1) t)"

definition GetColumnWidth :: "ctable \<Rightarrow> nat \<Rightarrow> nat" where
  "GetColumnWidth t uIdx =
     (if uIdx \<ge> length (t_vsHeaders t) then 0 else width_of (t_msuWidths t) (t_vsHeaders t ! uIdx))"

text \<open>A value written with a width and a fill character, to the left.\<close>

definition left_pad :: "char \<Rightarrow> nat \<Rightarrow> string \<Rightarrow> string" where
  "left_pad c n s = s @ replicate (n - length s) c"

definition grid_line :: "ctable \<Rightarrow> char \<Rightarrow> string \<Rightarrow> string \<Rightarrow> string \<Rightarrow> (nat \<Rightarrow> string) \<Rightarrow> string" where
  "grid_line t c sStart sBetween sEnd cell =
     sStart @ concat (map (\<lambda>a. left_pad c (GetColumnWidth t a) (cell a) @
        (if a = length (t_vsHeaders t) - 1 then sEnd else sBetween)) [0..<length (t_vsHeaders t)])"

text \<open>GetLine: the outer option is the end of the table.\<close>

definition GetLine :: "ctable \<Rightarrow> nat \<Rightarrow> string option" where
  "GetLine t uIdx =
     (if t_rows t = [] then None
      else if t_eStyle t = ListStyle then
        (if length (t_vsHeaders t) > 2 \<or> uIdx \<ge> length (t_rows t) then None
         else (let mRow = t_rows t ! uIdx
               in Some ([CHR 0x02] @ mRow ! 0 @ [CHR 0x0F] @
                    (if length (t_vsHeaders t) \<ge> 2 \<and> mRow ! 1 \<noteq> [] then '': '' @ mRow ! 1 else []))))
      else if uIdx = 1 then Some (grid_line t CHR '' '' ''| '' '' | '' '' |'' (\<lambda>a. t_vsHeaders t ! a))
      else if uIdx = 0 \<or> uIdx = 2 \<or> uIdx = length (t_rows t) + 3
      then Some (grid_line t CHR ''-'' ''+-'' ''-+-'' ''-+'' (\<lambda>a. ''-''))
      else if uIdx - 3 < length (t_rows t)
      then Some (grid_line t CHR '' '' ''| '' '' | '' '' |'' (\<lambda>a. t_rows t ! (uIdx - 3) ! a))
      else None)"

text \<open>The lines PutStatus sends: as long as there are any.\<close>

definition table_lines :: "ctable \<Rightarrow> string list" where
  "table_lines t = map (\<lambda>i. the (GetLine t i)) [0..<(if t_rows t = [] then 0 else if t_eStyle t = ListStyle then length (t_rows t) else length (t_rows t) + 4)]"

definition table_clear :: "ctable \<Rightarrow> ctable" where
  "table_clear t = t \<lparr>t_rows := [], t_vsHeaders := [], t_msuWidths := []\<rparr>"

section \<open>Invariant\<close>

text \<open>
  Every row is as long as the header, the names of the columns are distinct, and the width
  kept for a column is at least one and that of its name and of each of its cells.
\<close>

definition table_ok :: "ctable \<Rightarrow> bool" where
  "table_ok t \<longleftrightarrow> distinct (t_vsHeaders t) \<and> (\<forall>r \<in> set (t_rows t). length r = length (t_vsHeaders t)) \<and>
     (\<forall>a < length (t_vsHeaders t). length (t_vsHeaders t ! a) \<le> GetColumnWidth t a \<and>
        (\<forall>r \<in> set (t_rows t). length (r ! a) \<le> GetColumnWidth t a))"

lemma width_of_set [simp]: "width_of (set_width k n wd) j = (if j = k then n else width_of wd j)"
proof -
  have "map_of (filter (\<lambda>e. fst e \<noteq> k) wd) j = map_of wd j" if "j \<noteq> k"
    using that by (induction wd) auto
  then show ?thesis by (simp add: width_of_def set_width_def)
qed

lemma GetColumnIndex_Some: "GetColumnIndex s hs = Some i \<Longrightarrow> i < length hs \<and> hs ! i = s"
proof (induction hs arbitrary: i)
  case (Cons h hs)
  then show ?case by (cases i) (auto split: if_splits)
qed simp

lemma table_ok_empty: "table_ok empty_table"
  by (simp add: table_ok_def empty_table_def)

lemma table_ok_AddColumn:
  assumes "table_ok t" and "t_rows t = []"
  shows "table_ok (snd (AddColumn s t))"
proof (cases "(t_eStyle t = ListStyle \<and> length (t_vsHeaders t) \<ge> 2) \<or> (\<exists>h \<in> set (t_vsHeaders t). equals_ci h s)")
  case True
  then show ?thesis using assms(1) by (auto simp: AddColumn_def)
next
  case False
  then have new: "s \<notin> set (t_vsHeaders t)" using equals_ci_refl by blast
  from False have "snd (AddColumn s t) = t \<lparr>t_vsHeaders := t_vsHeaders t @ [s], t_msuWidths := set_width s (length s) (t_msuWidths t)\<rparr>"
    by (auto simp: AddColumn_def)
  moreover have "length (t_vsHeaders t ! a) \<le> width_of (t_msuWidths t) (t_vsHeaders t ! a) \<and> t_vsHeaders t ! a \<noteq> s"
    if "a < length (t_vsHeaders t)" for a
    using assms(1) that new nth_mem [OF that] by (auto simp: table_ok_def GetColumnWidth_def)
  ultimately show ?thesis
    using assms new by (auto simp: table_ok_def GetColumnWidth_def nth_append less_Suc_eq)
qed

lemma table_ok_AddRow: "table_ok t \<Longrightarrow> table_ok (AddRow t)"
  by (auto simp: AddRow_def table_ok_def GetColumnWidth_def)

lemma table_ok_SetStyle: "table_ok t \<Longrightarrow> table_ok (snd (SetStyle e t))"
  by (auto simp: SetStyle_def table_ok_def GetColumnWidth_def)

lemma table_ok_SetCell_at:
  assumes "table_ok t" and "SetCell_at c v r t = Some (b, t')"
  shows "table_ok t'"
proof (cases "GetColumnIndex c (t_vsHeaders t)")
  case None
  then show ?thesis using assms by (simp add: SetCell_at_def)
next
  case (Some i)
  note i = GetColumnIndex_Some [OF Some]
  have r: "r < length (t_rows t)" using assms(2) by (auto simp: SetCell_at_def Some split: if_splits)
  let ?wd = "if width_of (t_msuWidths t) c < length v then set_width c (length v) (t_msuWidths t) else t_msuWidths t"
  let ?rs = "(t_rows t)[r := (t_rows t ! r)[i := v]]"
  have t': "t' = t \<lparr>t_rows := ?rs, t_msuWidths := ?wd\<rparr>"
    using assms(2) by (auto simp: SetCell_at_def Some split: if_splits)
  have len: "\<forall>x \<in> set (t_rows t). length x = length (t_vsHeaders t)" and d: "distinct (t_vsHeaders t)"
    using assms(1) by (auto simp: table_ok_def)
  have mono: "width_of (t_msuWidths t) k \<le> width_of ?wd k" for k by simp
  have row: "x \<in> set (t_rows t) \<or> x = (t_rows t ! r)[i := v]" if "x \<in> set ?rs" for x
    using that set_update_subset_insert [of "t_rows t" r] by blast
  show ?thesis
    unfolding t' table_ok_def
  proof (intro conjI ballI allI impI)
    show "distinct (t_vsHeaders (t \<lparr>t_rows := ?rs, t_msuWidths := ?wd\<rparr>))" using d by simp
    fix x
    assume "x \<in> set (t_rows (t \<lparr>t_rows := ?rs, t_msuWidths := ?wd\<rparr>))"
    then have x: "x \<in> set (t_rows t) \<or> x = (t_rows t ! r)[i := v]" using row by simp
    then show "length x = length (t_vsHeaders (t \<lparr>t_rows := ?rs, t_msuWidths := ?wd\<rparr>))"
      using len nth_mem [OF r] by auto
    fix a
    assume "a < length (t_vsHeaders (t \<lparr>t_rows := ?rs, t_msuWidths := ?wd\<rparr>))"
    then have a: "a < length (t_vsHeaders t)" by simp
    have old: "length (y ! a) \<le> width_of (t_msuWidths t) (t_vsHeaders t ! a)" if "y \<in> set (t_rows t)" for y
      using assms(1) that a by (auto simp: table_ok_def GetColumnWidth_def)
    have "length (x ! a) \<le> width_of ?wd (t_vsHeaders t ! a)"
    proof (cases "x \<in> set (t_rows t)")
      case True
      then show ?thesis using old mono le_trans by blast
    next
      case False
      then have xr: "x = (t_rows t ! r)[i := v]" using x by simp
      show ?thesis
      proof (cases "a = i")
        case True
        then show ?thesis using xr i a len nth_mem [OF r] by simp
      next
        case False
        then have "x ! a = t_rows t ! r ! a" using xr by simp
        then show ?thesis using old [OF nth_mem [OF r]] mono le_trans by metis
      qed
    qed
    then show "length (x ! a) \<le> GetColumnWidth (t \<lparr>t_rows := ?rs, t_msuWidths := ?wd\<rparr>) a"
      using a by (simp add: GetColumnWidth_def)
  next
    fix a
    assume "a < length (t_vsHeaders (t \<lparr>t_rows := ?rs, t_msuWidths := ?wd\<rparr>))"
    then have a: "a < length (t_vsHeaders t)" by simp
    then have "length (t_vsHeaders t ! a) \<le> width_of (t_msuWidths t) (t_vsHeaders t ! a)"
      using assms(1) by (auto simp: table_ok_def GetColumnWidth_def)
    then show "length (t_vsHeaders (t \<lparr>t_rows := ?rs, t_msuWidths := ?wd\<rparr>) ! a) \<le> GetColumnWidth (t \<lparr>t_rows := ?rs, t_msuWidths := ?wd\<rparr>) a"
      using a mono [of "t_vsHeaders t ! a"] by (simp add: GetColumnWidth_def)
  qed
qed

text \<open>Filling the last row never leaves the vectors.\<close>

lemma SetCell_defined:
  assumes "table_ok t"
  obtains b t' where "SetCell c v t = Some (b, t')" "table_ok t'"
proof (cases "SetCell c v t")
  case None
  then have r: "t_rows t \<noteq> []" "SetCell_at c v (length (t_rows t) - 1) t = None" by (auto simp: SetCell_def split: if_splits)
  then obtain i where i: "GetColumnIndex c (t_vsHeaders t) = Some i" by (auto simp: SetCell_at_def split: option.splits)
  have "t_rows t ! (length (t_rows t) - 1) \<in> set (t_rows t)" using r(1) by simp
  then have "length (t_rows t ! (length (t_rows t) - 1)) = length (t_vsHeaders t)" using assms by (auto simp: table_ok_def)
  then show ?thesis using r i GetColumnIndex_Some [OF i] by (simp add: SetCell_at_def)
next
  case (Some p)
  then show ?thesis
    using that assms table_ok_SetCell_at by (cases p) (auto simp: SetCell_def split: if_splits)
qed

section \<open>The lines\<close>

definition table_width :: "ctable \<Rightarrow> nat" where
  "table_width t = 1 + (\<Sum>a \<leftarrow> [0..<length (t_vsHeaders t)]. GetColumnWidth t a + 3)"

lemma grid_line_length:
  assumes "\<forall>a < length (t_vsHeaders t). length (cell a) \<le> GetColumnWidth t a" and "t_vsHeaders t \<noteq> []"
    and "length sStart = 2" and "length sBetween = 3" and "length sEnd = 2"
  shows "length (grid_line t c sStart sBetween sEnd cell) = table_width t"
proof -
  let ?n = "length (t_vsHeaders t)"
  define f where "f = (\<lambda>a. left_pad c (GetColumnWidth t a) (cell a) @ (if a = ?n - 1 then sEnd else sBetween))"
  have one: "length (f a) = GetColumnWidth t a + (if a = ?n - 1 then 2 else 3)" if "a < ?n" for a
  proof -
    have "length (left_pad c (GetColumnWidth t a) (cell a)) = GetColumnWidth t a"
      using assms(1) that by (simp add: left_pad_def)
    then show ?thesis using assms(4,5) by (simp add: f_def)
  qed
  obtain m where n: "?n = Suc m" using assms(2) by (cases "t_vsHeaders t") simp_all
  have "length (concat (map f [0..<m])) = (\<Sum>a \<leftarrow> [0..<m]. GetColumnWidth t a + 3)"
  proof -
    have "map length (map f [0..<m]) = map (\<lambda>a. GetColumnWidth t a + 3) [0..<m]"
      using one n by auto
    then show ?thesis unfolding length_concat by (rule arg_cong)
  qed
  moreover have "length (f m) = GetColumnWidth t m + 2" using one [of m] n by simp
  ultimately have "length (concat (map f [0..<Suc m])) + 1 = (\<Sum>a \<leftarrow> [0..<Suc m]. GetColumnWidth t a + 3)"
    by simp
  moreover have "grid_line t c sStart sBetween sEnd cell = sStart @ concat (map f [0..<Suc m])"
    unfolding grid_line_def f_def n ..
  ultimately show ?thesis
    using assms(3) by (simp add: table_width_def n)
qed

lemma GetLine_width:
  assumes "table_ok t" and "t_eStyle t = GridStyle" and "t_vsHeaders t \<noteq> []" and "[] \<notin> set (t_vsHeaders t)"
    and "GetLine t i = Some s"
  shows "length s = table_width t"
proof -
  have ok: "length (t_vsHeaders t ! a) \<le> GetColumnWidth t a" "\<forall>r \<in> set (t_rows t). length (r ! a) \<le> GetColumnWidth t a"
    if "a < length (t_vsHeaders t)" for a
    using assms(1) that by (auto simp: table_ok_def)
  have one: "1 \<le> GetColumnWidth t a" if "a < length (t_vsHeaders t)" for a
  proof -
    have "t_vsHeaders t ! a \<noteq> []" using assms(4) nth_mem [OF that] by metis
    then show ?thesis using ok(1) [OF that] by (cases "t_vsHeaders t ! a") simp_all
  qed
  from assms(2,5) consider
      "s = grid_line t CHR '' '' ''| '' '' | '' '' |'' (\<lambda>a. t_vsHeaders t ! a)"
    | "s = grid_line t CHR ''-'' ''+-'' ''-+-'' ''-+'' (\<lambda>a. ''-'')"
    | "i - 3 < length (t_rows t)" "s = grid_line t CHR '' '' ''| '' '' | '' '' |'' (\<lambda>a. t_rows t ! (i - 3) ! a)"
    by (auto simp: GetLine_def split: if_splits)
  then show ?thesis
  proof cases
    case 1
    show ?thesis unfolding 1 by (rule grid_line_length) (use ok(1) assms(3) in simp_all)
  next
    case 2
    show ?thesis unfolding 2 by (rule grid_line_length) (use one assms(3) in simp_all)
  next
    case 3
    show ?thesis unfolding 3(2) by (rule grid_line_length) (use ok(2) nth_mem [OF 3(1)] assms(3) in auto)
  qed
qed

lemma GetLine_end: "GetLine t i = None \<longleftrightarrow> i \<ge> length (table_lines t) \<or> t_eStyle t = ListStyle \<and> length (t_vsHeaders t) > 2"
proof -
  have "i = 0 \<or> i = 1 \<or> i = 2 \<or> i = length (t_rows t) + 3 \<or> i - 3 < length (t_rows t) \<longleftrightarrow> i < length (t_rows t) + 4"
    if "t_rows t \<noteq> []" by auto
  then show ?thesis by (auto simp: GetLine_def table_lines_def Let_def split: if_splits)
qed

end
