(* ===== verification/Command_State.thy ===== *)
theory Command_State imports Znc_Config Text_Table begin

text \<open>
  The command interpreter of a client (CClient::UserCommand, src/ClientCommand.cpp): its
  state, what it asks of the rest of the program, and the steps the commands share. A state
  holds the whole installation, the name of the user the client belongs to, the number of its
  network, the configuration files and what was sent or told to others, in order. In
  \<open>cmd_env\<close> are the sockets to the servers, the answers of the module hooks, the ends of the
  system calls, the order in which a set of pointers is visited, and the counters of traffic.
\<close>

datatype status_ev =
    Status string
  | StatusNotice string
  | UserNotice string string
  | NetOut string nat client_out
  | SockQuit string nat string
  | SockClose string nat
  | SetNet "nat option"
  | MoveRegistry string string
  | Stopped bool

record cmd_state =
  cs_znc :: cznc
  cs_sUser :: string
  cs_pNetwork :: "nat option"
  cs_files :: conf_files
  cs_ev :: "status_ev list"

record cmd_client =
  cc_sRemoteIP :: string
  cc_sNetwork :: "string option"
  cc_sIdentifier :: string

record cmd_env =
  ke_znc :: znc_env
  ke_OnStatusCommand :: "string \<Rightarrow> bool \<times> string"
  ke_OnBroadcast :: "string \<Rightarrow> string \<Rightarrow> string option"
  ke_pIRCSock :: "string \<Rightarrow> nat \<Rightarrow> ircsock option"
  ke_bConnected :: "string \<Rightarrow> nat \<Rightarrow> bool"
  ke_this :: nat
  ke_vClients :: "string \<Rightarrow> cmd_client list"
  ke_play :: play_hooks
  ke_set_order :: "nat list \<Rightarrow> nat list"
  ke_ExpandString :: "string \<Rightarrow> string"
  ke_sTag :: string
  ke_sCompileOptions :: string
  ke_sUptime :: string
  ke_sConfigFile :: string
  ke_write :: write_outcome
  ke_read :: read_outcome
  ke_chunks :: "conf_files \<Rightarrow> string list"
  ke_avail :: "mod_type \<Rightarrow> (string \<times> string) list"
  ke_GetDefaultType :: "string \<Rightarrow> mod_type"
  ke_sModdata :: "string \<Rightarrow> nat \<Rightarrow> string"
  ke_sNewNetPath :: "string \<Rightarrow> string \<Rightarrow> string"
  ke_bOtherFiles :: "string \<Rightarrow> bool"
  ke_bytes :: "string \<Rightarrow> nat \<times> nat"
  ke_bytes_znc :: "nat \<times> nat"
  ke_sockets :: "(string option \<times> nat \<times> nat) list"

section \<open>Sending\<close>

definition emit_ev :: "status_ev \<Rightarrow> cmd_state \<Rightarrow> cmd_state" where
  "emit_ev e s = s \<lparr>cs_ev := cs_ev s @ [e]\<rparr>"

definition put_status :: "string \<Rightarrow> cmd_state \<Rightarrow> cmd_state" where
  "put_status sLine = emit_ev (Status sLine)"

definition emit_all :: "status_ev list \<Rightarrow> cmd_state \<Rightarrow> cmd_state" where
  "emit_all es s = s \<lparr>cs_ev := cs_ev s @ es\<rparr>"

text \<open>PutStatus of a table: the number of lines and the state.\<close>

definition put_table :: "ctable \<Rightarrow> cmd_state \<Rightarrow> nat \<times> cmd_state" where
  "put_table t s = (length (table_lines t), emit_all (map Status (table_lines t)) s)"

text \<open>A table that is filled row by row; a row gives values to some of the columns.\<close>

definition fill_cell :: "string \<times> string \<Rightarrow> ctable \<Rightarrow> ctable" where
  "fill_cell kv t = (case SetCell (fst kv) (snd kv) t of Some (_, t1) \<Rightarrow> t1 | None \<Rightarrow> t)"

definition fill_row :: "(string \<times> string) list \<Rightarrow> ctable \<Rightarrow> ctable" where
  "fill_row cells t = fold fill_cell cells (AddRow t)"

definition build_table :: "string list \<Rightarrow> table_style \<Rightarrow> (string \<times> string) list list \<Rightarrow> ctable" where
  "build_table columns eStyle rows =
     fold fill_row rows (snd (SetStyle eStyle (fold (\<lambda>c t. snd (AddColumn c t)) columns empty_table)))"

text \<open>A text of t_p: the form for one, and the form for any other number.\<close>

definition t_p :: "string \<Rightarrow> string \<Rightarrow> nat \<Rightarrow> string" where
  "t_p one many k = (if k = 1 then one else many)"

section \<open>The user and the network of the client\<close>

definition upd_user :: "string \<Rightarrow> (cuser \<Rightarrow> cuser) \<Rightarrow> cmd_state \<Rightarrow> cmd_state" where
  "upd_user sName f s = s \<lparr>cs_znc := (cs_znc s)
     \<lparr>z_msUsers := map (\<lambda>e. if fst e = sName then (fst e, f (snd e)) else e) (z_msUsers (cs_znc s))\<rparr>\<rparr>"

definition net_index :: "cuser \<Rightarrow> cmd_state \<Rightarrow> nat option" where
  "net_index u s = (case cs_pNetwork s of None \<Rightarrow> None
     | Some n \<Rightarrow> find_idx (\<lambda>nc. nc_id nc = n) (cu_vIRCNetworks u))"

definition no_network :: string where
  "no_network = ''You must be connected with a network to use this command''"

text \<open>A command that needs a network: its position and itself.\<close>

definition with_network ::
    "(nat \<Rightarrow> netconf \<Rightarrow> cmd_state \<Rightarrow> cmd_state) \<Rightarrow> cuser \<Rightarrow> cmd_state \<Rightarrow> cmd_state" where
  "with_network f u s =
     (case net_index u s of None \<Rightarrow> put_status no_network s | Some i \<Rightarrow> f i (cu_vIRCNetworks u ! i) s)"

definition put_net :: "nat \<Rightarrow> netconf \<Rightarrow> cmd_state \<Rightarrow> cmd_state" where
  "put_net i nc s = upd_user (cs_sUser s) (set_net i nc) s"

definition net_sock :: "cmd_env \<Rightarrow> netconf \<Rightarrow> cmd_state \<Rightarrow> ircsock option" where
  "net_sock E nc s = ke_pIRCSock E (cs_sUser s) (nc_id nc)"

definition sock_perms :: "ircsock option \<Rightarrow> string" where
  "sock_perms so = (case so of Some sock \<Rightarrow> m_sPerms sock | None \<Rightarrow> [])"

definition sock_authed :: "ircsock option \<Rightarrow> bool" where
  "sock_authed so = (case so of Some sock \<Rightarrow> m_bAuthed sock | None \<Rightarrow> False)"

definition set_network :: "nat option \<Rightarrow> cmd_state \<Rightarrow> cmd_state" where
  "set_network n s = emit_ev (SetNet n) (s \<lparr>cs_pNetwork := n\<rparr>)"

definition end_sock :: "string \<Rightarrow> nat \<Rightarrow> sock_end \<Rightarrow> cmd_state \<Rightarrow> cmd_state" where
  "end_sock sUser n e s = (case e of KeepSock \<Rightarrow> s | QuitSock \<Rightarrow> emit_ev (SockQuit sUser n []) s | CloseSock \<Rightarrow> emit_ev (SockClose sUser n) s)"

definition cmd_user_env :: "cmd_env \<Rightarrow> cmd_state \<Rightarrow> user_env" where
  "cmd_user_env E s = env_of (ke_znc E) (cs_znc s)"

definition cmd_mod_env :: "cmd_env \<Rightarrow> mod_env" where
  "cmd_mod_env E = mod_env_of (ke_znc E)"

section \<open>Tables\<close>

lemma table_ok_fill_cell: "table_ok t \<Longrightarrow> table_ok (fill_cell kv t)"
  unfolding fill_cell_def by (rule SetCell_defined [of t "fst kv" "snd kv"]) auto

lemma table_ok_fill_row: "table_ok t \<Longrightarrow> table_ok (fill_row cells t)"
  unfolding fill_row_def
  by (rule fold_invariant [where Q = "\<lambda>_. True"]) (auto intro: table_ok_fill_cell table_ok_AddRow)

lemma columns_ok:
  "table_ok t \<Longrightarrow> t_rows t = [] \<Longrightarrow>
   table_ok (fold (\<lambda>c t. snd (AddColumn c t)) cols t) \<and> t_rows (fold (\<lambda>c t. snd (AddColumn c t)) cols t) = []"
proof (induction cols arbitrary: t)
  case (Cons c cols)
  moreover have "t_rows (snd (AddColumn c t)) = t_rows t" by (simp add: AddColumn_def)
  ultimately show ?case using table_ok_AddColumn by simp
qed simp

text \<open>Every table of the interpreter is well-formed: its lines are equally long.\<close>

lemma build_table_ok: "table_ok (build_table columns eStyle rows)"
  unfolding build_table_def
proof (rule fold_invariant [where Q = "\<lambda>_. True"])
  show "table_ok (snd (SetStyle eStyle (fold (\<lambda>c t. snd (AddColumn c t)) columns empty_table)))"
    using columns_ok [of empty_table columns] table_ok_empty
    by (intro table_ok_SetStyle) (simp add: empty_table_def)
qed (auto intro: table_ok_fill_row)

end
