(* ===== verification/Command_Lists.thy ===== *)
theory Command_Lists imports Command_State begin

text \<open>
  The commands of the interpreter that only show something (src/ClientCommand.cpp): nicks,
  clients, users, networks, channels, servers, topics, modules, traffic, ports, and the
  message of the day. Each sends lines to the client and leaves everything else alone
  (\<open>quiet_cmd\<close>).
\<close>

definition ListNicks :: "cmd_env \<Rightarrow> cuser \<Rightarrow> string \<Rightarrow> cmd_state \<Rightarrow> cmd_state" where
  "ListNicks E u sLine =
     with_network (\<lambda>i nc s.
       let sChan = token sLine 1; so = net_sock E nc s; n = nc_net nc
       in if sChan = [] then put_status ''Usage: ListNicks <#chan>'' s
          else (case FindChan so sChan n of
              None \<Rightarrow> put_status (''You are not on ['' @ sChan @ '']'') s
            | Some k \<Rightarrow>
                (let pChan = m_vChans n ! k; sPerms = sock_perms so
                 in if \<not> m_bIsOn pChan then put_status (''You are not on ['' @ sChan @ ''] (trying)'') s
                    else if m_msNicks pChan = [] then put_status (''No nicks on ['' @ sChan @ '']'') s
                    else snd (put_table (build_table (map (\<lambda>c. [c]) sPerms @ [''Nick'', ''Ident'', ''Host'']) GridStyle
                           (map (\<lambda>(_, k). map (\<lambda>c. ([c], [c])) (filter (HasPerm k) sPerms) @
                              [(''Nick'', m_sNick k), (''Ident'', m_sIdent k), (''Host'', m_sHost k)]) (m_msNicks pChan))) s)))) u"

definition ShowVersion :: "cmd_env \<Rightarrow> cuser \<Rightarrow> string \<Rightarrow> cmd_state \<Rightarrow> cmd_state" where
  "ShowVersion E u sLine s = put_status (ke_sCompileOptions E) (put_status (ke_sTag E) s)"

definition ShowMotd :: "cmd_env \<Rightarrow> cuser \<Rightarrow> string \<Rightarrow> cmd_state \<Rightarrow> cmd_state" where
  "ShowMotd E u sLine s =
     (if z_vsMotd (cs_znc s) = [] then put_status ''There is no MOTD set.'' s
      else emit_all (map (StatusNotice \<circ> ke_ExpandString E) (z_vsMotd (cs_znc s))) s)"

definition client_rows :: "cmd_client list \<Rightarrow> (string \<times> string) list list" where
  "client_rows vClients = map (\<lambda>c. (''Host'', cc_sRemoteIP c) #
     (case cc_sNetwork c of Some n \<Rightarrow> [(''Network'', n)] | None \<Rightarrow> []) @ [(''Identifier'', cc_sIdentifier c)]) vClients"

definition ListClients :: "cmd_env \<Rightarrow> cuser \<Rightarrow> string \<Rightarrow> cmd_state \<Rightarrow> cmd_state" where
  "ListClients E u sLine s =
     (let sNick = token sLine 1
      in if sNick \<noteq> [] \<and> \<not> cu_bAdmin u then put_status ''Usage: ListClients'' s
         else if sNick \<noteq> [] \<and> FindUser sNick (cs_znc s) = None then put_status (''No such user: '' @ sNick) s
         else (let vClients = ke_vClients E (if sNick = [] then cs_sUser s else sNick)
               in if vClients = [] then put_status ''No clients are connected'' s
                  else snd (put_table (build_table [''Host'', ''Network'', ''Identifier''] GridStyle (client_rows vClients)) s)))"

definition ListUsers :: "cmd_env \<Rightarrow> cuser \<Rightarrow> string \<Rightarrow> cmd_state \<Rightarrow> cmd_state" where
  "ListUsers E u sLine s =
     snd (put_table (build_table [''Username'', ''Networks'', ''Clients''] GridStyle
       (map (\<lambda>(sName, v). [(''Username'', sName), (''Networks'', dec (length (cu_vIRCNetworks v))),
          (''Clients'', dec (length (ke_vClients E sName)))]) (z_msUsers (cs_znc s)))) s)"

text \<open>What a list of networks shows of one: the same columns in both commands.\<close>

definition irc_cells :: "ircsock option \<Rightarrow> network \<Rightarrow> (string \<times> string) list" where
  "irc_cells so n =
     (if sock_authed so then [(''On IRC'', ''Yes''), (''IRC Server'', m_sIRCServer n),
        (''IRC User'', GetNickMask (m_IRCNick n)), (''Channels'', dec (length (m_vChans n)))]
      else [(''On IRC'', ''No'')])"

definition clients_on :: "cmd_env \<Rightarrow> string \<Rightarrow> string option \<Rightarrow> nat" where
  "clients_on E sUser n = length (filter (\<lambda>c. cc_sNetwork c = n) (ke_vClients E sUser))"

definition user_net_rows :: "cmd_env \<Rightarrow> string \<times> cuser \<Rightarrow> (string \<times> string) list list" where
  "user_net_rows E p =
     (let (sName, v) = p; nets = cu_vIRCNetworks v
      in [(''Username'', sName), (''Network'', ''N/A''), (''Clients'', dec (clients_on E sName None))] #
         map (\<lambda>(i, nc). [(''Username'', if i = length nets - 1 then ''`-'' else ''|-''), (''Network'', net_sName (nc_net nc)),
              (''Clients'', dec (clients_on E sName (Some (net_sName (nc_net nc)))))] @
              irc_cells (ke_pIRCSock E sName (nc_id nc)) (nc_net nc)) (enumerate 0 nets))"

definition ListAllUserNetworks :: "cmd_env \<Rightarrow> cuser \<Rightarrow> string \<Rightarrow> cmd_state \<Rightarrow> cmd_state" where
  "ListAllUserNetworks E u sLine s =
     snd (put_table (build_table [''Username'', ''Network'', ''Clients'', ''On IRC'', ''IRC Server'', ''IRC User'', ''Channels'']
       GridStyle (concat (map (user_net_rows E) (z_msUsers (cs_znc s))))) s)"

definition ListNetworks :: "cmd_env \<Rightarrow> cuser \<Rightarrow> string \<Rightarrow> cmd_state \<Rightarrow> cmd_state" where
  "ListNetworks E u sLine s =
     (let sName = (if cu_bAdmin u \<and> token sLine 1 \<noteq> [] then token sLine 1 else cs_sUser s)
      in case FindUser sName (cs_znc s) of
           None \<Rightarrow> put_status (''User '' @ token sLine 1 @ '' not found'') s
         | Some v \<Rightarrow>
             (let (k, s1) = put_table (build_table [''Network'', ''On IRC'', ''IRC Server'', ''IRC User'', ''Channels''] GridStyle
                    (map (\<lambda>nc. (''Network'', net_sName (nc_net nc)) # irc_cells (ke_pIRCSock E sName (nc_id nc)) (nc_net nc))
                       (cu_vIRCNetworks v))) s
              in if k = 0 then put_status ''No networks'' s1 else s1))"

text \<open>A row of ListChans, with the number of the channel.\<close>

definition chan_row :: "ircsock option \<Rightarrow> network \<Rightarrow> nat \<times> chan \<Rightarrow> (string \<times> string) list" where
  "chan_row so n p =
     (let (i, c) = p; perms = nv_perms (network_view so n); sPerms = sock_perms so
      in [(''Index'', dec (i + 1)), (''Name'', GetPermStr perms (chan_Nick c) @ m_sName c),
          (''Status'', if m_bIsOn c then (if m_bDetached c then ''Detached'' else ''Joined'')
                       else (if m_bDisabled c then ''Disabled'' else ''Trying'')),
          (''In config'', if m_bInConfig c then ''yes'' else []),
          (''Buffer'', (if m_bHasBufferCountSet c then ''*'' else []) @ dec (b_uLineCount (m_Buffer c))),
          (''Clear'', (if m_bHasAutoClearChanBufferSet c then ''*'' else []) @ (if m_bAutoClearChanBuffer c then ''yes'' else [])),
          (''Modes'', GetModeString c), (''Users'', dec (length (m_msNicks c)))] @
         map (\<lambda>cPerm. ([cPerm], dec (case map_of (GetPermCounts perms c) cPerm of Some k \<Rightarrow> k | None \<Rightarrow> 0))) sPerms)"

definition show_chans :: "ircsock option \<Rightarrow> network \<Rightarrow> cmd_state \<Rightarrow> cmd_state" where
  "show_chans so n s =
     (if m_vChans n = [] then put_status ''There are no channels defined.'' s
      else put_status (''Total: '' @ dec (length (m_vChans n)) @ '', Joined: '' @ dec (length (filter m_bIsOn (m_vChans n))) @
             '', Detached: '' @ dec (length (filter m_bDetached (m_vChans n))) @
             '', Disabled: '' @ dec (length (filter m_bDisabled (m_vChans n))))
           (snd (put_table (build_table ([''Index'', ''Name'', ''Status'', ''In config'', ''Buffer'', ''Clear'', ''Modes'', ''Users''] @
               map (\<lambda>c. [c]) (sock_perms so)) GridStyle (map (chan_row so n) (enumerate 0 (m_vChans n)))) s)))"

definition ListChans :: "cmd_env \<Rightarrow> cuser \<Rightarrow> string \<Rightarrow> cmd_state \<Rightarrow> cmd_state" where
  "ListChans E u sLine =
     with_network (\<lambda>i nc s.
       let sUser = token sLine 1; sNetwork = token sLine 2
       in if sUser = [] then show_chans (net_sock E nc s) (nc_net nc) s
          else if \<not> cu_bAdmin u then put_status ''Usage: ListChans'' s
          else (case FindUser sUser (cs_znc s) of
              None \<Rightarrow> put_status (''No such user ['' @ sUser @ '']'') s
            | Some v \<Rightarrow>
                (case User_FindNetwork sNetwork v of
                   None \<Rightarrow> put_status (''User ['' @ sUser @ ''] doesn'' @ [CHR 0x27] @ ''t have network ['' @ sNetwork @ '']'') s
                 | Some k \<Rightarrow>
                     (let m = cu_vIRCNetworks v ! k
                      in show_chans (ke_pIRCSock E sUser (nc_id m)) (nc_net m) s)))) u"

definition server_row :: "nat option \<Rightarrow> nat \<times> server \<Rightarrow> (string \<times> string) list" where
  "server_row pCurServ p =
     (let (i, v) = p
      in [(''Host'', (if srv_bUnixSocket v then Server_GetString False v else srv_sName v) @ (if pCurServ = Some i then ''*'' else []))] @
         (if srv_bUnixSocket v then [] else [(''Port'', dec (srv_uPort v))]) @
         [(''SSL'', if srv_bSSL v then ''SSL'' else []), (''Password'', if srv_sPass v = [] then [] else ''******'')])"

definition ListServers :: "cmd_env \<Rightarrow> cuser \<Rightarrow> string \<Rightarrow> cmd_state \<Rightarrow> cmd_state" where
  "ListServers E u sLine =
     with_network (\<lambda>i nc s.
       let n = nc_net nc; pCurServ = (if cur_server_idx n < length (m_vServers n) then Some (cur_server_idx n) else None)
       in if m_vServers n = [] then put_status (''You don'' @ [CHR 0x27] @ ''t have any servers added.'') s
          else snd (put_table (build_table [''Host'', ''Port'', ''SSL'', ''Password''] GridStyle
                 (map (server_row pCurServ) (enumerate 0 (m_vServers n)))) s)) u"

definition ListTrustedFingerprints :: "cmd_env \<Rightarrow> cuser \<Rightarrow> string \<Rightarrow> cmd_state \<Rightarrow> cmd_state" where
  "ListTrustedFingerprints E u sLine =
     with_network (\<lambda>i nc s.
       if nc_ssTrustedFingerprints nc = [] then put_status ''No fingerprints added.'' s
       else emit_all (map (\<lambda>(k, sFP). Status (dec (k + 1) @ ''. '' @ sFP)) (enumerate 0 (nc_ssTrustedFingerprints nc))) s) u"

definition ShowTopics :: "cmd_env \<Rightarrow> cuser \<Rightarrow> string \<Rightarrow> cmd_state \<Rightarrow> cmd_state" where
  "ShowTopics E u sLine =
     with_network (\<lambda>i nc s. snd (put_table (build_table [''Channel'', ''Set By'', ''Topic''] GridStyle
       (map (\<lambda>c. [(''Channel'', m_sName c), (''Set By'', m_sTopicOwner c), (''Topic'', m_sTopic c)]) (m_vChans (nc_net nc)))) s)) u"

text \<open>A group of modules: a blank line, the title or that there are none, and the list.\<close>

definition show_mods :: "string \<Rightarrow> string \<Rightarrow> string list \<Rightarrow> (string \<times> string) list list \<Rightarrow> cmd_state \<Rightarrow> cmd_state" where
  "show_mods sNone sTitle columns rows s =
     (let s1 = put_status [] s
      in if rows = [] then put_status sNone s1
         else snd (put_table (build_table columns ListStyle rows) (put_status sTitle s1)))"

definition loaded_rows :: "cmodule list \<Rightarrow> (string \<times> string) list list" where
  "loaded_rows mods = map (\<lambda>m. [(''Name'', mod_sModName m), (''Arguments'', mod_sArgs m)]) mods"

definition ListMods :: "cmd_env \<Rightarrow> cuser \<Rightarrow> string \<Rightarrow> cmd_state \<Rightarrow> cmd_state" where
  "ListMods E u sLine s =
     (let columns = [''Name'', ''Arguments''];
          s1 = (if cu_bAdmin u then show_mods ''No global modules loaded.'' ''Global modules:'' columns (loaded_rows (z_mods (cs_znc s))) s else s);
          s2 = show_mods ''Your user has no modules loaded.'' ''User modules:'' columns (loaded_rows (cu_mods u)) s1
      in case net_index u s of
           None \<Rightarrow> s2
         | Some i \<Rightarrow> show_mods ''This network has no modules loaded.'' ''Network modules:'' columns
                       (loaded_rows (nc_mods (cu_vIRCNetworks u ! i))) s2)"

definition avail_rows :: "cmd_env \<Rightarrow> mod_type \<Rightarrow> cmd_state \<Rightarrow> (string \<times> string) list list" where
  "avail_rows E t s = map (\<lambda>(sName, sDescription).
     [(''Name'', (if FindModule sName (z_mods (cs_znc s)) \<noteq> None then ''*'' else '' '') @ sName),
      (''Description'', Ellipsize 128 sDescription)]) (ke_avail E t)"

definition ListAvailMods :: "cmd_env \<Rightarrow> cuser \<Rightarrow> string \<Rightarrow> cmd_state \<Rightarrow> cmd_state" where
  "ListAvailMods E u sLine s =
     (if cu_bDenyLoadMod u then put_status ''Access denied.'' s
      else (let columns = [''Name'', ''Description''];
                s1 = (if cu_bAdmin u then show_mods ''No global modules available.'' ''Global modules:'' columns (avail_rows E GlobalModule s) s else s);
                s2 = show_mods ''No user modules available.'' ''User modules:'' columns (avail_rows E UserModule s) s1
            in show_mods ''No network modules available.'' ''Network modules:'' columns (avail_rows E NetworkModule s) s2))"

definition ShowBindHost :: "cmd_env \<Rightarrow> cuser \<Rightarrow> string \<Rightarrow> cmd_state \<Rightarrow> cmd_state" where
  "ShowBindHost E u sLine s =
     (let s1 = put_status (if cu_sBindHost u = [] then ''This user'' @ [CHR 0x27] @ ''s default bind host not set''
                 else ''This user'' @ [CHR 0x27] @ ''s default bind host is '' @ cu_sBindHost u) s
      in case net_index u s of
           None \<Rightarrow> s1
         | Some i \<Rightarrow>
             (let sHost = inherited_get (cu_sBindHost u) (net_sBindHost (nc_net (cu_vIRCNetworks u ! i)))
              in put_status (if sHost = [] then ''This network'' @ [CHR 0x27] @ ''s bind host not set''
                   else ''This network'' @ [CHR 0x27] @ ''s default bind host is '' @ sHost) s1))"

definition ShowUptime :: "cmd_env \<Rightarrow> cuser \<Rightarrow> string \<Rightarrow> cmd_state \<Rightarrow> cmd_state" where
  "ShowUptime E u sLine s = put_status (''Running for '' @ ke_sUptime E) s"

definition UnknownCommand :: "cmd_env \<Rightarrow> cuser \<Rightarrow> string \<Rightarrow> cmd_state \<Rightarrow> cmd_state" where
  "UnknownCommand E u sLine s = put_status (''Unknown command, try '' @ [CHR 0x27] @ ''Help'' @ [CHR 0x27]) s"

section \<open>Traffic\<close>

text \<open>Counters of 64 bits.\<close>

definition add64 :: "nat \<times> nat \<Rightarrow> nat \<times> nat \<Rightarrow> nat \<times> nat" where
  "add64 a b = ((fst a + fst b) mod 2 ^ 64, (snd a + snd b) mod 2 ^ 64)"

text \<open>The counters of each user, of all users together and of ZNC, with the open sockets.\<close>

definition traffic_socket ::
    "string option \<times> nat \<times> nat \<Rightarrow> (string, nat \<times> nat) omap \<times> (nat \<times> nat) \<times> (nat \<times> nat) \<Rightarrow>
     (string, nat \<times> nat) omap \<times> (nat \<times> nat) \<times> (nat \<times> nat)" where
  "traffic_socket k st =
     (let (ret, users, znc) = st
      in case fst k of
           Some sUser \<Rightarrow> (om_insert sUser (add64 (case map_of ret sUser of Some p \<Rightarrow> p | None \<Rightarrow> (0, 0)) (snd k)) ret,
                         add64 users (snd k), znc)
         | None \<Rightarrow> (ret, users, add64 znc (snd k)))"

definition GetTrafficStats ::
    "cmd_env \<Rightarrow> cznc \<Rightarrow> (string, nat \<times> nat) omap \<times> (nat \<times> nat) \<times> (nat \<times> nat) \<times> (nat \<times> nat)" where
  "GetTrafficStats E z =
     (let ret0 = map (\<lambda>(sName, _). (sName, ke_bytes E sName)) (z_msUsers z);
          users0 = fold (\<lambda>(_, p) a. add64 a p) ret0 (0, 0);
          (ret, users, znc) = fold traffic_socket (ke_sockets E) (ret0, users0, ke_bytes_znc E)
      in (ret, users, znc, add64 users znc))"

definition traffic_row :: "string \<times> nat \<times> nat \<Rightarrow> (string \<times> string) list" where
  "traffic_row r =
     (let (sName, a, b) = r
      in [(''Username'', sName), (''In'', ToByteStr a), (''Out'', ToByteStr b), (''Total'', ToByteStr ((a + b) mod 2 ^ 64))])"

definition ShowTraffic :: "cmd_env \<Rightarrow> cuser \<Rightarrow> string \<Rightarrow> cmd_state \<Rightarrow> cmd_state" where
  "ShowTraffic E u sLine s =
     (let (ret, users, znc, total) = GetTrafficStats E (cs_znc s)
      in snd (put_table (build_table [''Username'', ''In'', ''Out'', ''Total''] GridStyle
           (map traffic_row (ret @ [(''<Users>'', users), (''<ZNC>'', znc), (''<Total>'', total)]))) s))"

section \<open>Ports\<close>

definition port_cells :: "listener \<Rightarrow> (string \<times> string) list" where
  "port_cells l =
     [(''SSL'', if lst_bSSL l then ''yes'' else ''no''),
      (''IRC'', if lst_eAcceptType l = ACCEPT_ALL \<or> lst_eAcceptType l = ACCEPT_IRC then ''yes'' else ''no''),
      (''Web'', if lst_eAcceptType l = ACCEPT_ALL \<or> lst_eAcceptType l = ACCEPT_HTTP
                then ''yes, on '' @ lst_sURIPrefix l @ ''/'' else ''no'')]"

definition tcp_rows :: "listener list \<Rightarrow> (string \<times> string) list list" where
  "tcp_rows ls = concat (map (\<lambda>l. case l of
       TCPListener _ _ _ eAddr uPort sBindHost \<Rightarrow>
         [[(''Port'', dec uPort), (''BindHost'', if sBindHost = [] then ''*'' else sBindHost),
           (''Protocol'', case eAddr of ADDR_ALL \<Rightarrow> ''IPv4 and IPv6'' | ADDR_IPV4ONLY \<Rightarrow> ''IPv4'' | ADDR_IPV6ONLY \<Rightarrow> ''IPv6'')] @ port_cells l]
     | UnixListener _ _ _ _ _ _ \<Rightarrow> []) ls)"

definition unix_rows :: "listener list \<Rightarrow> (string \<times> string) list list" where
  "unix_rows ls = concat (map (\<lambda>l. case l of
       TCPListener _ _ _ _ _ _ \<Rightarrow> []
     | UnixListener _ _ _ sPath sGid iMode \<Rightarrow> [[(''Path'', sPath), (''Mode'', GetMode iMode), (''Group'', sGid)] @ port_cells l]) ls)"

definition ListPorts :: "cmd_env \<Rightarrow> cuser \<Rightarrow> string \<Rightarrow> cmd_state \<Rightarrow> cmd_state" where
  "ListPorts E u sLine s =
     (let ls = z_vpListeners (cs_znc s);
          s1 = snd (put_table (build_table [''Port'', ''BindHost'', ''Protocol'', ''SSL'', ''IRC'', ''Web''] GridStyle (tcp_rows ls)) s)
      in snd (put_table (build_table [''Path'', ''Mode'', ''Group'', ''SSL'', ''IRC'', ''Web''] GridStyle (unix_rows ls)) s1))"

section \<open>They only show\<close>

text \<open>Nothing but lines to this client is added, and nothing else changes.\<close>

definition is_shown :: "status_ev \<Rightarrow> bool" where
  "is_shown e = (case e of Status _ \<Rightarrow> True | StatusNotice _ \<Rightarrow> True | _ \<Rightarrow> False)"

definition only_shows :: "cmd_state \<Rightarrow> cmd_state \<Rightarrow> bool" where
  "only_shows s s' \<longleftrightarrow> (\<exists>es. s' = s \<lparr>cs_ev := cs_ev s @ es\<rparr> \<and> list_all is_shown es)"

definition quiet_cmd :: "(cmd_state \<Rightarrow> cmd_state) \<Rightarrow> bool" where
  "quiet_cmd f \<longleftrightarrow> (\<forall>s. only_shows s (f s))"

named_theorems showing

lemma only_shows_refl [showing]: "only_shows s s"
  unfolding only_shows_def by (rule exI [of _ "[]"]) simp

lemma only_shows_trans: "only_shows s s1 \<Longrightarrow> only_shows s1 s2 \<Longrightarrow> only_shows s s2"
  unfolding only_shows_def
proof (elim exE conjE)
  fix a b
  assume "s1 = s \<lparr>cs_ev := cs_ev s @ a\<rparr>" "list_all is_shown a" "s2 = s1 \<lparr>cs_ev := cs_ev s1 @ b\<rparr>" "list_all is_shown b"
  then show "\<exists>es. s2 = s \<lparr>cs_ev := cs_ev s @ es\<rparr> \<and> list_all is_shown es"
    by (intro exI [of _ "a @ b"]) simp
qed

lemma only_shows_status [showing]: "only_shows s s1 \<Longrightarrow> only_shows s (put_status t s1)"
proof (erule only_shows_trans)
  show "only_shows s1 (put_status t s1)"
    unfolding only_shows_def by (rule exI [of _ "[Status t]"]) (simp add: put_status_def emit_ev_def is_shown_def)
qed

lemma only_shows_all [showing]: "only_shows s s1 \<Longrightarrow> list_all is_shown es \<Longrightarrow> only_shows s (emit_all es s1)"
proof (erule only_shows_trans)
  assume "list_all is_shown es"
  then show "only_shows s1 (emit_all es s1)" unfolding only_shows_def by (intro exI [of _ es]) (simp add: emit_all_def)
qed

lemma only_shows_table [showing]: "only_shows s s1 \<Longrightarrow> only_shows s (snd (put_table t s1))"
  unfolding put_table_def by (simp only: snd_conv, rule only_shows_all) (simp_all add: list_all_iff is_shown_def)

lemma only_shows_with_network [showing]:
  assumes "\<And>i nc. only_shows s (f i nc s)"
  shows "only_shows s (with_network f u s)"
  using assms by (auto simp: with_network_def split: option.split intro: showing)

lemma quiet_shows: "quiet_cmd f \<Longrightarrow> only_shows s s1 \<Longrightarrow> only_shows s (f s1)"
  unfolding quiet_cmd_def using only_shows_trans by blast

lemma only_shows_chans [showing]: "only_shows s s1 \<Longrightarrow> only_shows s (show_chans so n s1)"
  unfolding show_chans_def by (simp, intro conjI impI showing; assumption)

lemma only_shows_mods [showing]: "only_shows s s1 \<Longrightarrow> only_shows s (show_mods a b c r s1)"
  unfolding show_mods_def Let_def by (simp, intro conjI impI showing; assumption)

lemma quiet_ListNicks: "quiet_cmd (ListNicks E u l)"
  unfolding quiet_cmd_def ListNicks_def Let_def by (auto intro!: showing split: option.split)

lemma quiet_ShowVersion: "quiet_cmd (ShowVersion E u l)"
  unfolding quiet_cmd_def ShowVersion_def by (auto intro!: showing)

lemma quiet_ShowMotd: "quiet_cmd (ShowMotd E u l)"
  unfolding quiet_cmd_def ShowMotd_def by (auto intro!: showing simp: list_all_iff is_shown_def)

lemma quiet_ListClients: "quiet_cmd (ListClients E u l)"
  unfolding quiet_cmd_def ListClients_def Let_def by (auto intro!: showing)

lemma quiet_ListUsers: "quiet_cmd (ListUsers E u l)"
  unfolding quiet_cmd_def ListUsers_def by (auto intro!: showing)

lemma quiet_ListAllUserNetworks: "quiet_cmd (ListAllUserNetworks E u l)"
  unfolding quiet_cmd_def ListAllUserNetworks_def by (auto intro!: showing)

lemma quiet_ListNetworks: "quiet_cmd (ListNetworks E u l)"
proof -
  have "only_shows s (let (k, s1) = put_table t s in if k = 0 then put_status x s1 else s1)" for s t x
  proof -
    have "only_shows s (snd (put_table t s))" by (intro showing)
    then show ?thesis by (cases "put_table t s") (auto intro: showing)
  qed
  then show ?thesis unfolding quiet_cmd_def ListNetworks_def Let_def [of "if _ then _ else _"]
    by (auto intro: showing split: option.split)
qed

lemma quiet_ListChans: "quiet_cmd (ListChans E u l)"
  unfolding quiet_cmd_def ListChans_def Let_def by (auto intro!: showing split: option.split)

lemma quiet_ListServers: "quiet_cmd (ListServers E u l)"
  unfolding quiet_cmd_def ListServers_def Let_def by (auto intro!: showing)

lemma quiet_ListTrustedFingerprints: "quiet_cmd (ListTrustedFingerprints E u l)"
  unfolding quiet_cmd_def ListTrustedFingerprints_def by (auto intro!: showing simp: list_all_iff is_shown_def)

lemma quiet_ShowTopics: "quiet_cmd (ShowTopics E u l)"
  unfolding quiet_cmd_def ShowTopics_def by (auto intro!: showing)

lemma quiet_ListMods: "quiet_cmd (ListMods E u l)"
  unfolding quiet_cmd_def ListMods_def Let_def by (auto intro!: showing split: option.split)

lemma quiet_ListAvailMods: "quiet_cmd (ListAvailMods E u l)"
  unfolding quiet_cmd_def ListAvailMods_def Let_def by (auto intro!: showing)

lemma quiet_ShowBindHost: "quiet_cmd (ShowBindHost E u l)"
  unfolding quiet_cmd_def ShowBindHost_def Let_def by (auto intro!: showing split: option.split)

lemma quiet_ShowUptime: "quiet_cmd (ShowUptime E u l)"
  unfolding quiet_cmd_def ShowUptime_def by (auto intro!: showing)

lemma quiet_UnknownCommand: "quiet_cmd (UnknownCommand E u l)"
  unfolding quiet_cmd_def UnknownCommand_def by (auto intro!: showing)

lemma quiet_ShowTraffic: "quiet_cmd (ShowTraffic E u l)"
  unfolding quiet_cmd_def ShowTraffic_def by (auto intro!: showing split: prod.split)

lemma quiet_ListPorts: "quiet_cmd (ListPorts E u l)"
  unfolding quiet_cmd_def ListPorts_def Let_def by (auto intro!: showing)

lemmas quiet_lists = quiet_ListNicks quiet_ShowVersion quiet_ShowMotd quiet_ListClients quiet_ListUsers
  quiet_ListAllUserNetworks quiet_ListNetworks quiet_ListChans quiet_ListServers quiet_ListTrustedFingerprints
  quiet_ShowTopics quiet_ListMods quiet_ListAvailMods quiet_ShowBindHost quiet_ShowUptime quiet_UnknownCommand
  quiet_ShowTraffic quiet_ListPorts

end
