(* ===== verification/Command_Net.thy ===== *)
theory Command_Net imports Command_Lists begin

text \<open>
  The commands of the interpreter that change the networks of the user (src/ClientCommand.cpp):
  attaching, enabling and ordering channels, connecting and disconnecting, networks, servers,
  fingerprints, bind hosts and buffers.
\<close>

section \<open>Channels\<close>

definition match_chans :: "cmd_env \<Rightarrow> string \<Rightarrow> network \<Rightarrow> nat list" where
  "match_chans E sPatterns n =
     (let ps = Split (Replace_n sPatterns '','' '' '') '' '' False [] [] True True
      in ke_set_order E (filter (\<lambda>i. \<exists>p \<in> set ps. WildCmp (AsLower p) (AsLower (m_sName (m_vChans n ! i))) CaseSensitive)
           [0..<length (m_vChans n)]))"

text \<open>AttachChans and DetachChans: how many were changed, what was sent, and the network.\<close>

definition attach_all ::
    "cmd_env \<Rightarrow> ircsock option \<Rightarrow> nat list \<Rightarrow> network \<Rightarrow> nat \<times> client_out list \<times> network" where
  "attach_all E so is n = fold (\<lambda>i (k, out, n).
     if m_bDetached (m_vChans n ! i)
     then (let (out1, c1) = AttachUser (ke_play E) (network_view so n) None (m_vChans n ! i)
           in (k + 1, out @ out1, upd_chan i (\<lambda>c. c1) n))
     else (k, out, n)) is (0, [], n)"

definition detach_all :: "ircsock option \<Rightarrow> nat list \<Rightarrow> network \<Rightarrow> nat \<times> client_out list \<times> network" where
  "detach_all so is n = fold (\<lambda>i (k, out, n).
     if m_bDetached (m_vChans n ! i) then (k, out, n)
     else (let (out1, c1) = DetachUser (network_view so n) (m_vChans n ! i)
           in (k + 1, out @ out1, upd_chan i (\<lambda>c. c1) n))) is (0, [], n)"

text \<open>Enable or disable the channels that are not; the texts of both commands.\<close>

definition enable_all :: "bool \<Rightarrow> nat list \<Rightarrow> network \<Rightarrow> nat \<times> network" where
  "enable_all b is n = fold (\<lambda>i (k, n).
     if m_bDisabled (m_vChans n ! i) = b then (k + 1, upd_chan i (if b then Enable else Disable) n) else (k, n)) is (0, n)"

definition matched_lines :: "string \<Rightarrow> string \<Rightarrow> nat \<Rightarrow> nat \<Rightarrow> cmd_state \<Rightarrow> cmd_state" where
  "matched_lines sDone sPatterns uMatched uDone s =
     put_status (sDone @ '' '' @ dec uDone @ t_p '' channel'' '' channels'' uDone)
       (put_status (t_p ''There was '' ''There were '' uMatched @ dec uMatched @ t_p '' channel'' '' channels'' uMatched @
          '' matching ['' @ sPatterns @ '']'') s)"

definition out_events :: "cmd_state \<Rightarrow> netconf \<Rightarrow> client_out list \<Rightarrow> status_ev list" where
  "out_events s nc out = map (NetOut (cs_sUser s) (nc_id nc)) out"

definition Cmd_Attach :: "cmd_env \<Rightarrow> cuser \<Rightarrow> string \<Rightarrow> cmd_state \<Rightarrow> cmd_state" where
  "Cmd_Attach E u sLine =
     with_network (\<lambda>i nc s.
       let sPatterns = token_rest sLine 1; is = match_chans E sPatterns (nc_net nc);
           (k, out, n1) = attach_all E (net_sock E nc s) is (nc_net nc)
       in if sPatterns = [] then put_status ''Usage: Attach <#chans>'' s
          else matched_lines ''Attached'' sPatterns (length is) k
                 (emit_all (out_events s nc out) (put_net i (nc \<lparr>nc_net := n1\<rparr>) s))) u"

definition Cmd_Detach :: "cmd_env \<Rightarrow> cuser \<Rightarrow> string \<Rightarrow> cmd_state \<Rightarrow> cmd_state" where
  "Cmd_Detach E u sLine =
     with_network (\<lambda>i nc s.
       let sPatterns = token_rest sLine 1; is = match_chans E sPatterns (nc_net nc);
           (k, out, n1) = detach_all (net_sock E nc s) is (nc_net nc)
       in if sPatterns = [] then put_status ''Usage: Detach <#chans>'' s
          else matched_lines ''Detached'' sPatterns (length is) k
                 (emit_all (out_events s nc out) (put_net i (nc \<lparr>nc_net := n1\<rparr>) s))) u"

definition Cmd_EnableChan :: "cmd_env \<Rightarrow> cuser \<Rightarrow> string \<Rightarrow> cmd_state \<Rightarrow> cmd_state" where
  "Cmd_EnableChan E u sLine =
     with_network (\<lambda>i nc s.
       let sPatterns = token_rest sLine 1; is = match_chans E sPatterns (nc_net nc); (k, n1) = enable_all True is (nc_net nc)
       in if sPatterns = [] then put_status ''Usage: EnableChan <#chans>'' s
          else matched_lines ''Enabled'' sPatterns (length is) k (put_net i (nc \<lparr>nc_net := n1\<rparr>) s)) u"

definition Cmd_DisableChan :: "cmd_env \<Rightarrow> cuser \<Rightarrow> string \<Rightarrow> cmd_state \<Rightarrow> cmd_state" where
  "Cmd_DisableChan E u sLine =
     with_network (\<lambda>i nc s.
       let sPatterns = token_rest sLine 1; is = match_chans E sPatterns (nc_net nc); (k, n1) = enable_all False is (nc_net nc)
       in if sPatterns = [] then put_status ''Usage: DisableChan <#chans>'' s
          else matched_lines ''Disabled'' sPatterns (length is) k (put_net i (nc \<lparr>nc_net := n1\<rparr>) s)) u"

text \<open>The index of the user counts from one; an index of 0 wraps to the largest number.\<close>

definition Cmd_MoveChan :: "cmd_env \<Rightarrow> cuser \<Rightarrow> string \<Rightarrow> cmd_state \<Rightarrow> cmd_state" where
  "Cmd_MoveChan E u sLine =
     with_network (\<lambda>i nc s.
       let sChan = token sLine 1; sTarget = token sLine 2; uIndex = ToUInt sTarget
       in if sChan = [] \<or> sTarget = [] then put_status ''Usage: MoveChan <#chan> <index>'' s
          else (case MoveChan sChan ((uIndex + (2 ^ 32 - 1)) mod 2 ^ 32) (nc_net nc) of
              Inl sError \<Rightarrow> put_status sError s
            | Inr n1 \<Rightarrow> put_status (''Moved channel '' @ sChan @ '' to index '' @ dec uIndex) (put_net i (nc \<lparr>nc_net := n1\<rparr>) s))) u"

definition Cmd_SwapChans :: "cmd_env \<Rightarrow> cuser \<Rightarrow> string \<Rightarrow> cmd_state \<Rightarrow> cmd_state" where
  "Cmd_SwapChans E u sLine =
     with_network (\<lambda>i nc s.
       let sChan1 = token sLine 1; sChan2 = token sLine 2
       in if sChan1 = [] \<or> sChan2 = [] then put_status ''Usage: SwapChans <#chan1> <#chan2>'' s
          else (case SwapChans sChan1 sChan2 (nc_net nc) of
              Inl sError \<Rightarrow> put_status sError s
            | Inr n1 \<Rightarrow> put_status (''Swapped channels '' @ sChan1 @ '' and '' @ sChan2) (put_net i (nc \<lparr>nc_net := n1\<rparr>) s))) u"

section \<open>Connecting\<close>

definition no_servers :: string where
  "no_servers = ''You don'' @ [CHR 0x27] @ ''t have any servers added.''"

definition quit_sock :: "cmd_env \<Rightarrow> netconf \<Rightarrow> string \<Rightarrow> cmd_state \<Rightarrow> cmd_state" where
  "quit_sock E nc sMsg s = (if net_sock E nc s = None then s else emit_ev (SockQuit (cs_sUser s) (nc_id nc) sMsg) s)"

definition set_connect :: "cmd_env \<Rightarrow> nat \<Rightarrow> bool \<Rightarrow> netconf \<Rightarrow> cmd_state \<Rightarrow> cmd_state" where
  "set_connect E i b nc s =
     (let (e, nc1) = SetIRCConnectEnabled (map_option (\<lambda>_. ke_bConnected E (cs_sUser s) (nc_id nc)) (net_sock E nc s)) b nc
      in end_sock (cs_sUser s) (nc_id nc) e (put_net i nc1 s))"

definition Cmd_Jump :: "cmd_env \<Rightarrow> cuser \<Rightarrow> string \<Rightarrow> cmd_state \<Rightarrow> cmd_state" where
  "Cmd_Jump E u sLine =
     with_network (\<lambda>i nc s.
       let n = nc_net nc; sArgs = Trim_n ws (token_rest sLine 1); so = net_sock E nc s;
           found = (if sArgs = [] then None else FindServer sArgs n)
       in if m_vServers n = [] then put_status no_servers s
          else if sArgs \<noteq> [] \<and> found = None then put_status (''Server ['' @ sArgs @ ''] not found'') s
          else
            (let (pServer, n1, s1) =
                   (case found of
                      Some k \<Rightarrow> (Some (m_vServers n ! k), snd (SetNextServer k n),
                        if so \<noteq> None \<and> \<not> ke_bConnected E (cs_sUser s) (nc_id nc)
                        then emit_ev (SockClose (cs_sUser s) (nc_id nc)) s else s)
                    | None \<Rightarrow> (case GetNextServer False n of (p, n1) \<Rightarrow> (p, n1, s)));
                 s2 = quit_sock E nc [] s1;
                 s3 = put_status (case pServer of Some v \<Rightarrow> ''Connecting to '' @ srv_sName v @ ''...''
                        | None \<Rightarrow> if so \<noteq> None then ''Jumping to the next server in the list...'' else ''Connecting...'') s2
             in set_connect E i True (nc \<lparr>nc_net := n1\<rparr>) s3)) u"

definition Cmd_Disconnect :: "cmd_env \<Rightarrow> cuser \<Rightarrow> string \<Rightarrow> cmd_state \<Rightarrow> cmd_state" where
  "Cmd_Disconnect E u sLine =
     with_network (\<lambda>i nc s. put_status (''Disconnected from IRC. Use '' @ [CHR 0x27] @ ''connect'' @ [CHR 0x27] @ '' to reconnect.'')
       (set_connect E i False nc (quit_sock E nc (token_rest sLine 1) s))) u"

section \<open>Networks\<close>

definition Cmd_AddNetwork :: "cmd_env \<Rightarrow> cuser \<Rightarrow> string \<Rightarrow> cmd_state \<Rightarrow> cmd_state" where
  "Cmd_AddNetwork E u sLine s =
     (let sNetwork = token sLine 1; sName = cu_sUsername u
      in if \<not> cu_bAdmin u \<and> cu_bDenySetNetwork u then put_status ''Access denied!'' s
         else if \<not> cu_bAdmin u \<and> \<not> HasSpaceForNewNetwork u
         then put_status (''Network number limit reached. Ask an admin to increase the limit for you, or delete '' @
                ''unneeded networks using /znc DelNetwork <name>'') s
         else if sNetwork = [] then put_status ''Usage: AddNetwork <name>'' s
         else if \<not> IsValidNetwork sNetwork then put_status ''Network name should be alphanumeric'' s
         else (case AddNetwork (cmd_user_env E s) sNetwork u of
             (None, u1) \<Rightarrow> put_status (''Network added. Use /znc JumpNetwork '' @ sNetwork @ '', or connect to ZNC with username '' @
                 sName @ ''/'' @ sNetwork @ '' (instead of just '' @ sName @ '') to connect to it.'') (upd_user (cs_sUser s) (\<lambda>_. u1) s)
           | (Some e, _) \<Rightarrow> put_status e (put_status ''Unable to add that network'' s)))"

definition Cmd_DelNetwork :: "cmd_env \<Rightarrow> cuser \<Rightarrow> string \<Rightarrow> cmd_state \<Rightarrow> cmd_state" where
  "Cmd_DelNetwork E u sLine s =
     (let sNetwork = token sLine 1
      in if \<not> cu_bAdmin u \<and> cu_bDenySetNetwork u then put_status ''Access denied!'' s
         else if sNetwork = [] then put_status ''Usage: DelNetwork <name>'' s
         else
           (let s1 = (case net_index u s of
                  Some i \<Rightarrow> if equals_ci (net_sName (nc_net (cu_vIRCNetworks u ! i))) sNetwork then set_network None s else s
                | None \<Rightarrow> s)
            in case DeleteNetwork (cmd_user_env E s1) sNetwork u of
                 (True, u1) \<Rightarrow> put_status ''Network deleted'' (upd_user (cs_sUser s1) (\<lambda>_. u1) s1)
               | (False, _) \<Rightarrow> put_status (''Failed to delete network, perhaps this network doesn'' @ [CHR 0x27] @ ''t exist'') s1))"

definition Cmd_JumpNetwork :: "cmd_env \<Rightarrow> cuser \<Rightarrow> string \<Rightarrow> cmd_state \<Rightarrow> cmd_state" where
  "Cmd_JumpNetwork E u sLine s =
     (let sNetwork = token sLine 1
      in if sNetwork = [] then put_status ''No network supplied.'' s
         else if (case net_index u s of Some i \<Rightarrow> net_sName (nc_net (cu_vIRCNetworks u ! i)) = sNetwork | None \<Rightarrow> False)
         then put_status ''You are already connected with this network.'' s
         else (case User_FindNetwork sNetwork u of
             Some k \<Rightarrow> set_network (Some (nc_id (cu_vIRCNetworks u ! k))) (put_status (''Switched to '' @ sNetwork) s)
           | None \<Rightarrow> put_status (''You don'' @ [CHR 0x27] @ ''t have a network named '' @ sNetwork) s))"

section \<open>Servers and fingerprints\<close>

definition Cmd_AddServer :: "cmd_env \<Rightarrow> cuser \<Rightarrow> string \<Rightarrow> cmd_state \<Rightarrow> cmd_state" where
  "Cmd_AddServer E u sLine s =
     (if \<not> cu_bAdmin u \<and> cu_bDenySetNetwork u then put_status ''Access denied!'' s
      else with_network (\<lambda>i nc s.
        let sServer = token_rest sLine 1; Server = Server_Parse sServer
        in if sServer = [] then
             put_status ''+ means SSL'' ((if cu_bAdmin u then put_status ''Or: AddServer unix:[ssl:]/path/to/socket'' else id)
               (put_status ''Usage: AddServer <host> [[+]port] [pass]'' s))
           else if srv_bUnixSocket Server \<and> \<not> cu_bAdmin u then put_status ''Access denied!'' s
           else (case AddServer Server (nc_net nc) of
               (True, n1) \<Rightarrow> put_status ''Server added'' (put_net i (nc \<lparr>nc_net := n1\<rparr>) s)
             | (False, _) \<Rightarrow> put_status ''Unable to add that server. Perhaps the server is already added or openssl is disabled?'' s)) u s)"

definition Cmd_DelServer :: "cmd_env \<Rightarrow> cuser \<Rightarrow> string \<Rightarrow> cmd_state \<Rightarrow> cmd_state" where
  "Cmd_DelServer E u sLine s =
     (if \<not> cu_bAdmin u \<and> cu_bDenySetNetwork u then put_status ''Access denied!'' s
      else with_network (\<lambda>i nc s.
        let Server = Server_Parse (token_rest sLine 1)
        in if srv_sName Server = [] then put_status ''Usage: DelServer <host> [port] [pass]'' s
           else if m_vServers (nc_net nc) = [] then put_status no_servers s
           else (case DelServer Server (nc_net nc) of
               (True, bCur, n1) \<Rightarrow> put_status ''Server removed''
                  ((if bCur then quit_sock E nc [] else id) (put_net i (nc \<lparr>nc_net := n1\<rparr>) s))
             | (False, _, _) \<Rightarrow> put_status ''No such server'' s)) u s)"

definition Cmd_AddTrustedFingerprint :: "cmd_env \<Rightarrow> cuser \<Rightarrow> string \<Rightarrow> cmd_state \<Rightarrow> cmd_state" where
  "Cmd_AddTrustedFingerprint E u sLine =
     with_network (\<lambda>i nc s.
       let sFP = token sLine 1
       in if sFP = [] then put_status ''Usage: AddTrustedServerFingerprint <fi:ng:er>'' s
          else put_status ''Done.'' (put_net i (AddTrustedFingerprint sFP nc) s)) u"

definition DelTrustedFingerprint :: "string \<Rightarrow> netconf \<Rightarrow> netconf" where
  "DelTrustedFingerprint sFP nc = nc \<lparr>nc_ssTrustedFingerprints := removeAll sFP (nc_ssTrustedFingerprints nc)\<rparr>"

definition Cmd_DelTrustedFingerprint :: "cmd_env \<Rightarrow> cuser \<Rightarrow> string \<Rightarrow> cmd_state \<Rightarrow> cmd_state" where
  "Cmd_DelTrustedFingerprint E u sLine =
     with_network (\<lambda>i nc s.
       let sFP = token sLine 1
       in if sFP = [] then put_status ''Usage: DelTrustedServerFingerprint <fi:ng:er>'' s
          else put_status ''Done.'' (put_net i (DelTrustedFingerprint sFP nc) s)) u"

section \<open>Bind hosts\<close>

definition Cmd_SetBindHost :: "cmd_env \<Rightarrow> cuser \<Rightarrow> string \<Rightarrow> cmd_state \<Rightarrow> cmd_state" where
  "Cmd_SetBindHost E u sLine s =
     (case net_index u s of
        None \<Rightarrow> put_status (no_network @ ''. Try SetUserBindHost instead'') s
      | Some i \<Rightarrow>
          (let sArg = token sLine 1; nc = cu_vIRCNetworks u ! i; V = view_of (cmd_user_env E s) u;
               host = (\<lambda>c. inherited_get (cu_sBindHost u) (net_sBindHost (nc_net c)))
           in if sArg = [] then put_status ''Usage: SetBindHost <host>'' s
              else if equals_ci sArg (host nc) then put_status ''You already have this bind host!'' s
              else (let nc1 = Net_SetBindHost V sArg nc
                    in put_status (''Set bind host for network '' @ net_sName (nc_net nc) @ '' to '' @ host nc1) (put_net i nc1 s))))"

definition Cmd_SetUserBindHost :: "cmd_env \<Rightarrow> cuser \<Rightarrow> string \<Rightarrow> cmd_state \<Rightarrow> cmd_state" where
  "Cmd_SetUserBindHost E u sLine s =
     (let sArg = token sLine 1
      in if sArg = [] then put_status ''Usage: SetUserBindHost <host>'' s
         else if equals_ci sArg (cu_sBindHost u) then put_status ''You already have this bind host!'' s
         else put_status (''Set default bind host to '' @ sArg) (upd_user (cs_sUser s) (\<lambda>v. v \<lparr>cu_sBindHost := sArg\<rparr>) s))"

definition Cmd_ClearBindHost :: "cmd_env \<Rightarrow> cuser \<Rightarrow> string \<Rightarrow> cmd_state \<Rightarrow> cmd_state" where
  "Cmd_ClearBindHost E u sLine s =
     (case net_index u s of
        None \<Rightarrow> put_status (no_network @ ''. Try ClearUserBindHost instead'') s
      | Some i \<Rightarrow> put_status ''Bind host cleared for this network.''
          (put_net i (Net_SetBindHost (view_of (cmd_user_env E s) u) [] (cu_vIRCNetworks u ! i)) s))"

definition Cmd_ClearUserBindHost :: "cmd_env \<Rightarrow> cuser \<Rightarrow> string \<Rightarrow> cmd_state \<Rightarrow> cmd_state" where
  "Cmd_ClearUserBindHost E u sLine s =
     put_status ''Default bind host cleared for your user.'' (upd_user (cs_sUser s) (\<lambda>v. v \<lparr>cu_sBindHost := []\<rparr>) s)"

section \<open>Buffers\<close>

definition Cmd_PlayBuffer :: "cmd_env \<Rightarrow> cuser \<Rightarrow> string \<Rightarrow> cmd_state \<Rightarrow> cmd_state" where
  "Cmd_PlayBuffer E u sLine =
     with_network (\<lambda>i nc s.
       let sBuffer = token sLine 1; n = nc_net nc; so = net_sock E nc s
       in if sBuffer = [] then put_status ''Usage: PlayBuffer <#chan|query>'' s
          else if IsChan n sBuffer then
            (case FindChan so sBuffer n of
               None \<Rightarrow> put_status (''You are not on '' @ sBuffer) s
             | Some k \<Rightarrow>
                 (let pChan = m_vChans n ! k
                  in if \<not> m_bIsOn pChan then put_status (''You are not on '' @ sBuffer @ '' (trying to join)'') s
                     else if b_lines (m_Buffer pChan) = [] then put_status (''The buffer for channel '' @ sBuffer @ '' is empty'') s
                     else (let (out, c1) = Chan_SendBuffer (ke_play E) (m_vClients n) (Some (ke_this E)) pChan
                           in emit_all (out_events s nc out) (put_net i (nc \<lparr>nc_net := upd_chan k (\<lambda>_. c1) n\<rparr>) s))))
          else
            (case FindQuery sBuffer n of
               None \<Rightarrow> put_status (''No active query with '' @ sBuffer) s
             | Some k \<Rightarrow>
                 (let pQuery = m_vQueries n ! k
                  in if b_lines (q_Buffer pQuery) = [] then put_status (''The buffer for '' @ sBuffer @ '' is empty'') s
                     else emit_all (out_events s nc (Query_SendBuffer (ke_play E) so (m_vClients n) (Some (ke_this E)) pQuery)) s))) u"

definition chan_matches :: "string \<Rightarrow> chan \<Rightarrow> bool" where
  "chan_matches sWild c = WildCmp (AsLower sWild) (AsLower (m_sName c)) CaseSensitive"

definition query_matches :: "string \<Rightarrow> query \<Rightarrow> bool" where
  "query_matches sWild q = WildCmp (AsLower sWild) (AsLower (q_sName q)) CaseSensitive"

definition clear_chans :: "(chan \<Rightarrow> bool) \<Rightarrow> network \<Rightarrow> network" where
  "clear_chans P n = n \<lparr>m_vChans := map (\<lambda>c. if P c then ClearBuffer c else c) (m_vChans n)\<rparr>"

definition Cmd_ClearBuffer :: "cmd_env \<Rightarrow> cuser \<Rightarrow> string \<Rightarrow> cmd_state \<Rightarrow> cmd_state" where
  "Cmd_ClearBuffer E u sLine =
     with_network (\<lambda>i nc s.
       let sBuffer = token sLine 1; n = nc_net nc; vQueries = FindQueries sBuffer n;
           n1 = clear_chans (chan_matches sBuffer) n;
           n2 = fold (\<lambda>q n. snd (DelQuery (q_sName q) n)) vQueries n1;
           uMatches = length (FindChans sBuffer n) + length vQueries
       in if sBuffer = [] then put_status ''Usage: ClearBuffer <#chan|query>'' s
          else put_status (dec uMatches @ t_p '' buffer matching '' '' buffers matching '' uMatches @ sBuffer @
                 t_p '' has been cleared'' '' have been cleared'' uMatches) (put_net i (nc \<lparr>nc_net := n2\<rparr>) s)) u"

definition ClearQueryBuffer :: "network \<Rightarrow> network" where
  "ClearQueryBuffer n = n \<lparr>m_vQueries := []\<rparr>"

definition Cmd_ClearAllChannelBuffers :: "cmd_env \<Rightarrow> cuser \<Rightarrow> string \<Rightarrow> cmd_state \<Rightarrow> cmd_state" where
  "Cmd_ClearAllChannelBuffers E u sLine =
     with_network (\<lambda>i nc s. put_status ''All channel buffers have been cleared'' (put_net i (with_net (clear_chans (\<lambda>_. True)) nc) s)) u"

definition Cmd_ClearAllQueryBuffers :: "cmd_env \<Rightarrow> cuser \<Rightarrow> string \<Rightarrow> cmd_state \<Rightarrow> cmd_state" where
  "Cmd_ClearAllQueryBuffers E u sLine =
     with_network (\<lambda>i nc s. put_status ''All query buffers have been cleared'' (put_net i (with_net ClearQueryBuffer nc) s)) u"

definition Cmd_ClearAllBuffers :: "cmd_env \<Rightarrow> cuser \<Rightarrow> string \<Rightarrow> cmd_state \<Rightarrow> cmd_state" where
  "Cmd_ClearAllBuffers E u sLine =
     with_network (\<lambda>i nc s. put_status ''All buffers have been cleared''
       (put_net i (with_net (\<lambda>n. ClearQueryBuffer (clear_chans (\<lambda>_. True) n)) nc) s)) u"

definition Cmd_SetBuffer :: "cmd_env \<Rightarrow> cuser \<Rightarrow> string \<Rightarrow> cmd_state \<Rightarrow> cmd_state" where
  "Cmd_SetBuffer E u sLine =
     with_network (\<lambda>i nc s.
       let sBuffer = token sLine 1; uLineCount = ToUInt (token sLine 2); n = nc_net nc; uMax = z_uiMaxBufferSize (cs_znc s);
           set_c = SetBufferCount uMax uLineCount False; set_q = (\<lambda>q. SetLineCount uMax uLineCount False (q_Buffer q));
           uFail = length (filter (\<lambda>c. \<not> fst (set_c c)) (FindChans sBuffer n)) + length (filter (\<lambda>q. \<not> fst (set_q q)) (FindQueries sBuffer n));
           n1 = n \<lparr>m_vChans := map (\<lambda>c. if chan_matches sBuffer c then snd (set_c c) else c) (m_vChans n),
                   m_vQueries := map (\<lambda>q. if query_matches sBuffer q then q \<lparr>q_Buffer := snd (set_q q)\<rparr> else q) (m_vQueries n)\<rparr>;
           s1 = put_net i (nc \<lparr>nc_net := n1\<rparr>) s
       in if sBuffer = [] then put_status ''Usage: SetBuffer <#chan|query> [linecount]'' s
          else if uFail > 0 then
            put_status (''Maximum buffer size is '' @ dec uMax @ t_p '' line'' '' lines'' uMax)
              (put_status (''Setting buffer size failed for '' @ dec uFail @ t_p '' buffer'' '' buffers'' uFail) s1)
          else put_status (''Size of every buffer was set to '' @ dec uLineCount @ t_p '' line'' '' lines'' uLineCount) s1) u"

end
