(* ===== verification/Command_Admin.thy ===== *)
theory Command_Admin imports Command_Net begin

text \<open>
  The commands of the interpreter on modules and on the whole program (src/ClientCommand.cpp,
  with UpdateModule, Broadcast and the lookups of listeners in src/znc.cpp): loading and
  unloading modules, the message of the day, rehashing and saving, broadcasts, the end of the
  program, moving networks between users, ports, and the help. When a network is deleted the
  sockets it closes are not among the events.
\<close>

section \<open>Modules\<close>

text \<open>The words of LoadMod, UnloadMod and ReloadMod: the type, if given, the module, the arguments.\<close>

definition mod_words :: "string \<Rightarrow> mod_type option \<times> string \<times> string" where
  "mod_words sLine =
     (let sType = token sLine 1; given = (\<lambda>t. (Some t, token sLine 2, token_rest sLine 3))
      in if equals_ci sType ''--type=global'' then given GlobalModule
         else if equals_ci sType ''--type=user'' then given UserModule
         else if equals_ci sType ''--type=network'' then given NetworkModule
         else (None, sType, token_rest sLine 2))"

definition mod_info_of :: "cmd_env \<Rightarrow> string \<Rightarrow> string + mod_info" where
  "mod_info_of E sMod = GetModInfo (cmd_mod_env E) (ue_OnGetModInfo (ze_user (ke_znc E))) sMod"

text \<open>The list of modules of a type, changed by an operation that is given user and network.\<close>

definition on_mods ::
    "mod_type \<Rightarrow> cuser \<Rightarrow> (nat option \<Rightarrow> nat option \<Rightarrow> cmodule list \<Rightarrow> bool \<times> string \<times> cmodule list) \<Rightarrow>
     cmd_state \<Rightarrow> bool \<times> string \<times> cmd_state" where
  "on_mods t u f s =
     (case t of
        GlobalModule \<Rightarrow> (let (b, r, mods) = f None None (z_mods (cs_znc s))
                         in (b, r, s \<lparr>cs_znc := (cs_znc s) \<lparr>z_mods := mods\<rparr>\<rparr>))
      | UserModule \<Rightarrow> (let (b, r, mods) = f (Some (cu_id u)) None (cu_mods u)
                       in (b, r, upd_user (cs_sUser s) (\<lambda>v. v \<lparr>cu_mods := mods\<rparr>) s))
      | NetworkModule \<Rightarrow>
          (case net_index u s of
             None \<Rightarrow> (False, [], s)
           | Some i \<Rightarrow> (let nc = cu_vIRCNetworks u ! i; (b, r, mods) = f (Some (cu_id u)) (Some (nc_id nc)) (nc_mods nc)
                        in (b, r, put_net i (nc \<lparr>nc_mods := mods\<rparr>) s))))"

text \<open>Why a module of this type may not be touched, if so; sDo is the verb of the message.\<close>

definition mod_refusal :: "string \<Rightarrow> mod_type \<Rightarrow> string \<Rightarrow> cuser \<Rightarrow> cmd_state \<Rightarrow> string option" where
  "mod_refusal sDo eType sMod u s =
     (if eType = GlobalModule \<and> \<not> cu_bAdmin u then Some (''Unable to '' @ sDo @ '' global module '' @ sMod @ '': Access denied.'')
      else if eType = NetworkModule \<and> net_index u s = None
      then Some (''Unable to '' @ sDo @ '' network module '' @ sMod @ '': Not connected with a network.'')
      else None)"

definition Cmd_LoadMod :: "cmd_env \<Rightarrow> cuser \<Rightarrow> string \<Rightarrow> cmd_state \<Rightarrow> cmd_state" where
  "Cmd_LoadMod E u sLine s =
     (let (t, sMod, sArgs) = mod_words sLine
      in if cu_bDenyLoadMod u then put_status (''Unable to load '' @ sMod @ '': Access denied.'') s
         else if sMod = [] then put_status ''Usage: LoadMod [--type=global|user|network] <module> [args]'' s
         else (case mod_info_of E sMod of
             Inl sRetMsg \<Rightarrow> put_status (''Unable to load '' @ sMod @ '': '' @ sRetMsg) s
           | Inr info \<Rightarrow>
               (let eType = (case t of Some t \<Rightarrow> t | None \<Rightarrow> ke_GetDefaultType E sMod)
                in case mod_refusal ''load'' eType sMod u s of
                     Some e \<Rightarrow> put_status e s
                   | None \<Rightarrow>
                       (let (bLoaded, sModRet, s1) = on_mods eType u (LoadModule (cmd_mod_env E) sMod sArgs eType) s
                        in put_status (if bLoaded then (if sModRet = [] then ''Loaded module '' @ sMod
                                                         else ''Loaded module '' @ sMod @ '': '' @ sModRet)
                                       else ''Unable to load module '' @ sMod @ '': '' @ sModRet) s1))))"

definition Cmd_UnloadMod :: "cmd_env \<Rightarrow> cuser \<Rightarrow> string \<Rightarrow> cmd_state \<Rightarrow> cmd_state" where
  "Cmd_UnloadMod E u sLine s =
     (let (t, sMod, _) = mod_words sLine
      in if cu_bDenyLoadMod u then put_status (''Unable to unload '' @ sMod @ '': Access denied.'') s
         else if sMod = [] then put_status ''Usage: UnloadMod [--type=global|user|network] <module>'' s
         else (case (case t of Some t \<Rightarrow> Inr t | None \<Rightarrow> (case mod_info_of E sMod of
                  Inl e \<Rightarrow> Inl e | Inr _ \<Rightarrow> Inr (ke_GetDefaultType E sMod))) of
             Inl sRetMsg \<Rightarrow> put_status (''Unable to determine type of '' @ sMod @ '': '' @ sRetMsg) s
           | Inr eType \<Rightarrow>
               (case mod_refusal ''unload'' eType sMod u s of
                  Some e \<Rightarrow> put_status e s
                | None \<Rightarrow> (let (_, sModRet, s1) = on_mods eType u (\<lambda>_ _. UnloadModule (cmd_mod_env E) sMod) s
                           in put_status sModRet s1))))"

definition Cmd_ReloadMod :: "cmd_env \<Rightarrow> cuser \<Rightarrow> string \<Rightarrow> cmd_state \<Rightarrow> cmd_state" where
  "Cmd_ReloadMod E u sLine s =
     (let (t, sMod, sArgs) = mod_words sLine
      in if cu_bDenyLoadMod u then put_status ''Unable to reload modules. Access denied.'' s
         else if sMod = [] then put_status ''Usage: ReloadMod [--type=global|user|network] <module> [args]'' s
         else (case (case t of Some t \<Rightarrow> Inr t | None \<Rightarrow> (case mod_info_of E sMod of
                  Inl e \<Rightarrow> Inl e | Inr _ \<Rightarrow> Inr (ke_GetDefaultType E sMod))) of
             Inl sRetMsg \<Rightarrow> put_status (''Unable to reload '' @ sMod @ '': '' @ sRetMsg) s
           | Inr eType \<Rightarrow>
               (case mod_refusal ''reload'' eType sMod u s of
                  Some e \<Rightarrow> put_status e s
                | None \<Rightarrow> (let (_, sModRet, s1) = on_mods eType u (ReloadModule (cmd_mod_env E) sMod sArgs) s
                           in put_status sModRet s1))))"

text \<open>
  CZNC::UpdateModule: the module is unloaded everywhere, with its arguments kept, and then
  loaded again: globally, for the users, for the networks.
\<close>

definition unload_kept :: "mod_env \<Rightarrow> string \<Rightarrow> cmodule list \<Rightarrow> string option \<times> cmodule list" where
  "unload_kept M sModule mods =
     (case FindModule sModule mods of
        None \<Rightarrow> (None, mods)
      | Some pModule \<Rightarrow> (Some (mod_sArgs pModule), snd (snd (UnloadModule M sModule mods))))"

definition load_again ::
    "mod_env \<Rightarrow> string \<Rightarrow> mod_type \<Rightarrow> nat option \<Rightarrow> nat option \<Rightarrow> string option \<times> cmodule list \<Rightarrow> bool \<times> cmodule list" where
  "load_again M sModule t pu pn k =
     (case fst k of
        None \<Rightarrow> (True, snd k)
      | Some sArgs \<Rightarrow> (case LoadModule M sModule sArgs t pu pn (snd k) of (b, _, mods) \<Rightarrow> (b, mods)))"

definition UpdateModule :: "mod_env \<Rightarrow> string \<Rightarrow> cznc \<Rightarrow> bool \<times> cznc" where
  "UpdateModule M sModule z =
     (let us = map (\<lambda>(k, u). (k, u, unload_kept M sModule (cu_mods u),
                 map (\<lambda>nc. (nc, unload_kept M sModule (nc_mods nc))) (cu_vIRCNetworks u))) (z_msUsers z);
          g = unload_kept M sModule (z_mods z);
          (bGlobal, gmods) = load_again M sModule GlobalModule None None g;
          us1 = map (\<lambda>(k, u, m, ns). (k, u, load_again M sModule UserModule (Some (cu_id u)) None m, ns)) us;
          us2 = map (\<lambda>(k, u, r, ns). (k, u, r, map (\<lambda>(nc, m).
                  (nc, load_again M sModule NetworkModule (Some (cu_id u)) (Some (nc_id nc)) m)) ns)) us1;
          bUsers = list_all (\<lambda>(k, u, r, ns). fst r) us2;
          bNets = list_all (\<lambda>(k, u, r, ns). list_all (\<lambda>(nc, m). fst m) ns) us2
      in (bGlobal \<and> bUsers \<and> bNets,
          z \<lparr>z_mods := gmods, z_msUsers := map (\<lambda>(k, u, r, ns). (k, u
             \<lparr>cu_mods := snd r, cu_vIRCNetworks := map (\<lambda>(nc, m). nc \<lparr>nc_mods := snd m\<rparr>) ns\<rparr>)) us2\<rparr>))"

definition Cmd_UpdateMod :: "cmd_env \<Rightarrow> cuser \<Rightarrow> string \<Rightarrow> cmd_state \<Rightarrow> cmd_state" where
  "Cmd_UpdateMod E u sLine s =
     (let sMod = token sLine 1
      in if sMod = [] then put_status ''Usage: UpdateMod <module>'' s
         else (let s1 = put_status (''Reloading '' @ sMod @ '' everywhere'') s;
                   (b, z1) = UpdateModule (cmd_mod_env E) sMod (cs_znc s1)
               in put_status (if b then ''Done'' else ''Done, but there were errors, module '' @ sMod @
                    '' could not be reloaded everywhere.'') (s1 \<lparr>cs_znc := z1\<rparr>)))"

section \<open>The program\<close>

definition Cmd_Rehash :: "cmd_env \<Rightarrow> cuser \<Rightarrow> string \<Rightarrow> cmd_state \<Rightarrow> cmd_state" where
  "Cmd_Rehash E u sLine s =
     (case RehashConfig (ke_znc E) (ke_read E) (ke_chunks E (cs_files s)) (cs_znc s) of
        (None, z1) \<Rightarrow> put_status ''Rehashing succeeded!'' (s \<lparr>cs_znc := z1\<rparr>)
      | (Some e, z1) \<Rightarrow> put_status (''Rehashing failed: '' @ e) (s \<lparr>cs_znc := z1\<rparr>))"

definition save_config :: "cmd_env \<Rightarrow> cmd_state \<Rightarrow> bool \<times> cmd_state" where
  "save_config E s =
     (case WriteConfig (ke_znc E) (ke_write E) (ke_sConfigFile E) (cs_znc s) (cs_files s) of
        (b, fs) \<Rightarrow> (b, s \<lparr>cs_files := fs\<rparr>))"

definition Cmd_SaveConfig :: "cmd_env \<Rightarrow> cuser \<Rightarrow> string \<Rightarrow> cmd_state \<Rightarrow> cmd_state" where
  "Cmd_SaveConfig E u sLine s =
     (let (b, s1) = save_config E s
      in put_status (if b then ''Wrote config to '' @ ke_sConfigFile E else ''Error while trying to write config.'') s1)"

definition ClearMotd :: "cznc \<Rightarrow> cznc" where
  "ClearMotd z = z \<lparr>z_vsMotd := []\<rparr>"

definition SetMotd :: "string \<Rightarrow> cznc \<Rightarrow> cznc" where
  "SetMotd sMessage z = AddMotd sMessage (ClearMotd z)"

definition Cmd_SetMotd :: "cmd_env \<Rightarrow> cuser \<Rightarrow> string \<Rightarrow> cmd_state \<Rightarrow> cmd_state" where
  "Cmd_SetMotd E u sLine s =
     (let sMessage = token_rest sLine 1
      in if sMessage = [] then put_status ''Usage: SetMOTD <message>'' s
         else put_status (''MOTD set to: '' @ sMessage) (s \<lparr>cs_znc := SetMotd sMessage (cs_znc s)\<rparr>))"

definition Cmd_AddMotd :: "cmd_env \<Rightarrow> cuser \<Rightarrow> string \<Rightarrow> cmd_state \<Rightarrow> cmd_state" where
  "Cmd_AddMotd E u sLine s =
     (let sMessage = token_rest sLine 1
      in if sMessage = [] then put_status ''Usage: AddMOTD <message>'' s
         else put_status (''Added ['' @ sMessage @ ''] to MOTD'') (s \<lparr>cs_znc := AddMotd sMessage (cs_znc s)\<rparr>))"

definition Cmd_ClearMotd :: "cmd_env \<Rightarrow> cuser \<Rightarrow> string \<Rightarrow> cmd_state \<Rightarrow> cmd_state" where
  "Cmd_ClearMotd E u sLine s = put_status ''Cleared MOTD'' (s \<lparr>cs_znc := ClearMotd (cs_znc s)\<rparr>)"

text \<open>A broadcast; the modules of a user may drop it for him or change it.\<close>

definition Broadcast :: "cmd_env \<Rightarrow> string \<Rightarrow> bool \<Rightarrow> cmd_state \<Rightarrow> cmd_state" where
  "Broadcast E sMessage bAdminOnly s =
     emit_all (concat (map (\<lambda>(sName, v).
       if bAdminOnly \<and> \<not> cu_bAdmin v then []
       else (case ke_OnBroadcast E sName sMessage of None \<Rightarrow> [] | Some sMsg \<Rightarrow> [UserNotice sName (''*** '' @ sMsg)]))
       (z_msUsers (cs_znc s)))) s"

definition Cmd_Broadcast :: "cmd_env \<Rightarrow> cuser \<Rightarrow> string \<Rightarrow> cmd_state \<Rightarrow> cmd_state" where
  "Cmd_Broadcast E u sLine = Broadcast E (token_rest sLine 1) False"

definition Cmd_Shutdown :: "cmd_env \<Rightarrow> cuser \<Rightarrow> string \<Rightarrow> cmd_state \<Rightarrow> cmd_state" where
  "Cmd_Shutdown E u sLine s =
     (let sCommand = token sLine 0; bRestart = equals_ci sCommand ''RESTART''; sMessage0 = token_rest sLine 1;
          bForce = equals_ci (token sMessage0 0) ''FORCE'';
          sMessage1 = (if bForce then token_rest sMessage0 1 else sMessage0);
          sMessage = (if sMessage1 = [] then (if bRestart then ''ZNC is being restarted NOW!'' else ''ZNC is being shut down NOW!'')
                      else sMessage1);
          (b, s1) = save_config E s
      in if \<not> b \<and> \<not> bForce then
           put_status (''ERROR: Writing config file to disk failed! Aborting. Use '' @ AsUpper sCommand @ '' FORCE to ignore.'') s1
         else emit_ev (Stopped bRestart) (Broadcast E sMessage False s1))"

section \<open>Moving a network\<close>

text \<open>
  The registries of the modules are moved first; a hint is given for every module that seems to
  have other files.
\<close>

definition move_registries :: "cmd_env \<Rightarrow> string \<Rightarrow> string \<Rightarrow> string \<Rightarrow> netconf \<Rightarrow> cmd_state \<Rightarrow> cmd_state" where
  "move_registries E sOldUser sNewUser sNewNetwork nc s =
     fold (\<lambda>m s.
       let sOldModPath = ke_sModdata E sOldUser (nc_id nc) @ ''/moddata/'' @ mod_sModName m;
           sNewModPath = ke_sNewNetPath E sNewUser sNewNetwork @ ''/moddata/'' @ mod_sModName m;
           s1 = (if ke_bOtherFiles E sOldModPath
                 then put_status (''Some files seem to be in '' @ sOldModPath @ ''. You might want to move them to '' @ sNewModPath) s else s)
       in emit_ev (MoveRegistry sOldModPath sNewModPath) s1) (nc_mods nc) s"

definition move_network ::
    "cmd_env \<Rightarrow> string \<Rightarrow> string \<Rightarrow> string \<Rightarrow> string \<Rightarrow> netconf \<Rightarrow> cuser \<Rightarrow> cuser \<Rightarrow> cmd_state \<Rightarrow> cmd_state" where
  "move_network E sOldUser sOldNetwork sNewUser sNewNetwork nc vOld vNew s0 =
     (let s = move_registries E sOldUser sNewUser sNewNetwork nc s0; UE = cmd_user_env E s
      in case AddNetwork UE sNewNetwork vNew of
           (Some e, _) \<Rightarrow> put_status (''Error adding network: '' @ e) s
         | (None, w1) \<Rightarrow>
             (let i = length (cu_vIRCNetworks w1) - 1;
                  (out, _, nc1) = Net_Clone (ue_load UE) (ke_play E) (view_of UE vNew) None False (view_of UE vOld)
                    (ke_pIRCSock E sOldUser (nc_id nc)) nc False (cu_vIRCNetworks w1 ! i);
                  s1 = emit_all (map (NetOut sNewUser (nc_id nc1)) out) (upd_user sNewUser (\<lambda>_. set_net i nc1 w1) s);
                  s2 = (case FindUser (cs_sUser s1) (cs_znc s1) of
                      None \<Rightarrow> s1
                    | Some u \<Rightarrow> (case net_index u s1 of
                        None \<Rightarrow> s1
                      | Some k \<Rightarrow> if equals_ci (net_sName (nc_net (cu_vIRCNetworks u ! k))) sOldNetwork \<and> cs_sUser s1 = sOldUser
                                  then set_network None s1 else s1))
              in case FindUser sOldUser (cs_znc s2) of
                   None \<Rightarrow> s2
                 | Some v \<Rightarrow> (case DeleteNetwork UE sOldNetwork v of
                     (True, v1) \<Rightarrow> put_status ''Success.'' (upd_user sOldUser (\<lambda>_. v1) s2)
                   | (False, _) \<Rightarrow> put_status ''Copied the network to new user, but failed to delete old network'' s2)))"

definition Cmd_MoveNetwork :: "cmd_env \<Rightarrow> cuser \<Rightarrow> string \<Rightarrow> cmd_state \<Rightarrow> cmd_state" where
  "Cmd_MoveNetwork E u sLine s =
     (let sOldUser = token sLine 1; sOldNetwork = token sLine 2; sNewUser = token sLine 3;
          sNewNetwork = (if token sLine 4 = [] then sOldNetwork else token sLine 4)
      in if \<not> cu_bAdmin u then put_status ''Access denied.'' s
         else if sOldUser = [] \<or> sOldNetwork = [] \<or> sNewUser = []
         then put_status ''Usage: MoveNetwork <old user> <old network> <new user> [new network]'' s
         else (case FindUser sOldUser (cs_znc s) of
             None \<Rightarrow> put_status (''Old user '' @ sOldUser @ '' not found.'') s
           | Some vOld \<Rightarrow> (case User_FindNetwork sOldNetwork vOld of
               None \<Rightarrow> put_status (''Old network '' @ sOldNetwork @ '' not found.'') s
             | Some k \<Rightarrow> (case FindUser sNewUser (cs_znc s) of
                 None \<Rightarrow> put_status (''New user '' @ sNewUser @ '' not found.'') s
               | Some vNew \<Rightarrow>
                   if User_FindNetwork sNewNetwork vNew \<noteq> None
                   then put_status (''User '' @ sNewUser @ '' already has network '' @ sNewNetwork @ ''.'') s
                   else if \<not> IsValidNetwork sNewNetwork then put_status (''Invalid network name ['' @ sNewNetwork @ '']'') s
                   else move_network E sOldUser sOldNetwork sNewUser sNewNetwork (cu_vIRCNetworks vOld ! k) vOld vNew s))))"

section \<open>Ports\<close>

definition FindListener :: "nat \<Rightarrow> string \<Rightarrow> addr_type \<Rightarrow> cznc \<Rightarrow> nat option" where
  "FindListener uPort sBindHost eAddr z = find_idx (\<lambda>l. case l of
     TCPListener _ _ _ a p h \<Rightarrow> p = uPort \<and> h = sBindHost \<and> a = eAddr | UnixListener _ _ _ _ _ _ \<Rightarrow> False) (z_vpListeners z)"

definition FindUnixListener :: "string \<Rightarrow> cznc \<Rightarrow> nat option" where
  "FindUnixListener sPath z = find_idx (\<lambda>l. case l of
     TCPListener _ _ _ _ _ _ \<Rightarrow> False | UnixListener _ _ _ p _ _ \<Rightarrow> p = sPath) (z_vpListeners z)"

definition AddListener_ptr :: "listener \<Rightarrow> cznc \<Rightarrow> bool \<times> cznc" where
  "AddListener_ptr l z = (True, z \<lparr>z_vpListeners := z_vpListeners z @ [l]\<rparr>)"

definition DelListener :: "nat \<Rightarrow> cznc \<Rightarrow> bool \<times> cznc" where
  "DelListener i z =
     (if i < length (z_vpListeners z) then (True, z \<lparr>z_vpListeners := remove_at i (z_vpListeners z)\<rparr>) else (False, z))"

text \<open>Listen, on a listener that does not listen yet: the error, if it fails.\<close>

definition Listen :: "cmd_env \<Rightarrow> listener \<Rightarrow> string option" where
  "Listen E l =
     (case l of
        TCPListener _ _ _ _ uPort _ \<Rightarrow> if uPort = 0 then Some ''Invalid argument'' else ze_Listen (ke_znc E) l
      | UnixListener _ _ _ _ _ _ \<Rightarrow> ze_Listen (ke_znc E) l)"

definition ParseEAddr :: "string \<Rightarrow> addr_type option" where
  "ParseEAddr s = (if equals_ci s ''IPV4'' then Some ADDR_IPV4ONLY else if equals_ci s ''IPV6'' then Some ADDR_IPV6ONLY
     else if equals_ci s ''ALL'' then Some ADDR_ALL else None)"

definition ParseEAccept :: "string \<Rightarrow> accept_type option" where
  "ParseEAccept s = (if equals_ci s ''WEB'' then Some ACCEPT_HTTP else if equals_ci s ''IRC'' then Some ACCEPT_IRC
     else if equals_ci s ''ALL'' then Some ACCEPT_ALL else None)"

text \<open>The options of a Unix socket: TLS, mode and group; None for an option that is unknown.\<close>

fun unix_options :: "string list \<Rightarrow> bool \<times> string \<times> string \<Rightarrow> (bool \<times> string \<times> string) option" where
  "unix_options [] st = Some st"
| "unix_options (sOpt # os) (bSSL, sMode, sGroup) =
     (if sOpt = ''ssl'' then unix_options os (True, sMode, sGroup)
      else (case TrimPrefix ''mode='' sOpt of
          (True, v) \<Rightarrow> unix_options os (bSSL, v, sGroup)
        | (False, _) \<Rightarrow> (case TrimPrefix ''group='' sOpt of
            (True, v) \<Rightarrow> unix_options os (bSSL, sMode, v)
          | (False, _) \<Rightarrow> None)))"

text \<open>The listener a line of AddPort describes; None stands for the usage.\<close>

definition port_listener :: "string \<Rightarrow> listener option" where
  "port_listener sLine =
     (let sPort = token sLine 1
      in if sPort = [] then None
         else (case TrimPrefix ''unix:'' sPort of
             (True, s1) \<Rightarrow>
               (let bOpts = CHR '':'' \<in> set s1; sOpts = takeWhile (\<lambda>c. c \<noteq> CHR '':'') s1;
                    sPath = (if bOpts then tl (dropWhile (\<lambda>c. c \<noteq> CHR '':'') s1) else s1)
                in case (if bOpts then unix_options (Split sOpts '','' False [] [] True True) (False, [], []) else Some (False, [], [])) of
                     None \<Rightarrow> None
                   | Some (bSSL, sMode, sGroup) \<Rightarrow>
                       map_option (\<lambda>eAccept. mk_unix_listener sPath (token sLine 3) bSSL eAccept sGroup sMode)
                         (ParseEAccept (token sLine 2)))
           | (False, _) \<Rightarrow>
               (case ParseEAddr (token sLine 2) of
                  None \<Rightarrow> None
                | Some eAddr \<Rightarrow> map_option (\<lambda>eAccept. TCPListener (StartsWith sPort ''+'' CaseInsensitive) (token sLine 5)
                      eAccept eAddr (ToUShort sPort) (token sLine 4)) (ParseEAccept (token sLine 3)))))"

definition Cmd_AddPort :: "cmd_env \<Rightarrow> cuser \<Rightarrow> string \<Rightarrow> cmd_state \<Rightarrow> cmd_state" where
  "Cmd_AddPort E u sLine s =
     (case port_listener sLine of
        None \<Rightarrow>
          put_status ''Or: AddPort unix:[ssl,mode=NNN,group=foo]:/path/to/socket <web|irc|all> [uriprefix]''
            (put_status ''+ means SSL''
              (put_status ''Usage: AddPort <[+]port> <ipv4|ipv6|all> <web|irc|all> [bindhost [uriprefix]]'' s))
      | Some pListener \<Rightarrow>
          (case Listen E pListener of
             Some e \<Rightarrow> put_status (''Unable to bind: '' @ e) s
           | None \<Rightarrow> (case AddListener_ptr pListener (cs_znc s) of
               (b, z1) \<Rightarrow> put_status (if b then ''Port added'' else ''Couldn'' @ [CHR 0x27] @ ''t add port'') (s \<lparr>cs_znc := z1\<rparr>))))"

text \<open>The listener a line of DelPort names: None for the usage, Some None if there is none.\<close>

definition port_found :: "string \<Rightarrow> cznc \<Rightarrow> nat option option" where
  "port_found sLine z =
     (let sPort = token sLine 1
      in if sPort = [] then None
         else (case TrimPrefix ''unix:'' sPort of
             (True, s1) \<Rightarrow> Some (FindUnixListener (snd (TrimPrefix ''ssl:'' s1)) z)
           | (False, _) \<Rightarrow> map_option (\<lambda>eAddr. FindListener (ToUShort sPort) (token sLine 3) eAddr z) (ParseEAddr (token sLine 2))))"

definition Cmd_DelPort :: "cmd_env \<Rightarrow> cuser \<Rightarrow> string \<Rightarrow> cmd_state \<Rightarrow> cmd_state" where
  "Cmd_DelPort E u sLine s =
     (case port_found sLine (cs_znc s) of
        None \<Rightarrow> put_status ''Or: DelPort unix:/path/to/socket'' (put_status ''Usage: DelPort <port> <ipv4|ipv6|all> [bindhost]'' s)
      | Some None \<Rightarrow> put_status ''Unable to find a matching port'' s
      | Some (Some i) \<Rightarrow> put_status ''Deleted Port'' (s \<lparr>cs_znc := snd (DelListener i (cs_znc s))\<rparr>))"

definition UserPortCommand :: "cmd_env \<Rightarrow> cuser \<Rightarrow> string \<Rightarrow> cmd_state \<Rightarrow> cmd_state" where
  "UserPortCommand E u sLine s =
     (let sCommand = token sLine 0
      in if equals_ci sCommand ''LISTPORTS'' then ListPorts E u sLine s
         else if equals_ci sCommand ''ADDPORT'' then Cmd_AddPort E u sLine s
         else if equals_ci sCommand ''DELPORT'' then Cmd_DelPort E u sLine s
         else s)"

section \<open>Help\<close>

text \<open>The entries of the help: command, arguments, description.\<close>

definition help_entries :: "cuser \<Rightarrow> (string \<times> string \<times> string) list" where
  "help_entries u =
     ([(''Version'', [], ''Print which version of ZNC this is''),
        (''ListMods'', [], ''List all loaded modules''),
        (''ListAvailMods'', [], ''List all available modules'')] @
      (if \<not> cu_bAdmin u then
       [(''ListChans'', [], ''List all channels'')] else []) @
      [(''ListNicks'', ''<#chan>'', ''List all nicks on a channel'')] @
      (if \<not> cu_bAdmin u then
       [(''ListClients'', [], ''List all clients connected to your ZNC user'')] else []) @
      [(''ListServers'', [], ''List all servers of current IRC network''),
        (''AddNetwork'', ''<name>'', ''Add a network to your user''),
        (''DelNetwork'', ''<name>'', ''Delete a network from your user''),
        (''ListNetworks'', [], ''List all networks'')] @
      (if cu_bAdmin u then
       [(''MoveNetwork'', ''<old user> <old network> <new user> [new network]'', ''Move an IRC network from one user to another'')] else []) @
      [(''JumpNetwork'', ''<network>'', ''Jump to another network (Alternatively, you can connect to ZNC several times, using `user/network` as username)''),
        (''AddServer'', ''<host> [[+]port] [pass]'', ''Add a server to the list of alternate/backup servers of current IRC network.''),
        (''DelServer'', ''<host> [port] [pass]'', ''Remove a server from the list of alternate/backup servers of current IRC network''),
        (''AddTrustedServerFingerprint'', ''<fi:ng:er>'', ''Add a trusted server SSL certificate fingerprint (SHA-256) to current IRC network.''),
        (''DelTrustedServerFingerprint'', ''<fi:ng:er>'', ''Delete a trusted server SSL certificate from current IRC network.''),
        (''ListTrustedServerFingerprints'', [], ''List all trusted server SSL certificates of current IRC network.''),
        (''EnableChan'', ''<#chans>'', ''Enable channels''),
        (''DisableChan'', ''<#chans>'', ''Disable channels''),
        (''MoveChan'', ''<#chan> <index>'', ''Move channel in sort order''),
        (''SwapChans'', ''<#chan1> <#chan2>'', ''Swap channels in sort order''),
        (''Attach'', ''<#chans>'', ''Attach to channels''),
        (''Detach'', ''<#chans>'', ''Detach from channels''),
        (''Topics'', [], ''Show topics in all your channels''),
        (''PlayBuffer'', ''<#chan|query>'', ''Play back the specified buffer''),
        (''ClearBuffer'', ''<#chan|query>'', ''Clear the specified buffer''),
        (''ClearAllBuffers'', [], ''Clear all channel and query buffers''),
        (''ClearAllChannelBuffers'', [], ''Clear the channel buffers''),
        (''ClearAllQueryBuffers'', [], ''Clear the query buffers''),
        (''SetBuffer'', ''<#chan|query> [linecount]'', ''Set the buffer count'')] @
      (if cu_bAdmin u \<or> \<not> cu_bDenySetBindHost u then
       [(''SetBindHost'', ''<host (IP preferred)>'', ''Set the bind host for this network''),
        (''SetUserBindHost'', ''<host (IP preferred)>'', ''Set the default bind host for this user''),
        (''ClearBindHost'', [], ''Clear the bind host for this network''),
        (''ClearUserBindHost'', [], ''Clear the default bind host for this user'')] else []) @
      [(''ShowBindHost'', [], ''Show currently selected bind host''),
        (''Jump'', ''[server]'', ''Jump to the next or the specified server''),
        (''Disconnect'', ''[message]'', ''Disconnect from IRC''),
        (''Connect'', [], ''Reconnect to IRC''),
        (''Uptime'', [], ''Show for how long ZNC has been running'')] @
      (if \<not> cu_bDenyLoadMod u then
       [(''LoadMod'', ''[--type=global|user|network] <module> [args]'', ''Load a module''),
        (''UnloadMod'', ''[--type=global|user|network] <module>'', ''Unload a module''),
        (''ReloadMod'', ''[--type=global|user|network] <module> [args]'', ''Reload a module'')] else []) @
      (if \<not> cu_bDenyLoadMod u \<and> cu_bAdmin u then
       [(''UpdateMod'', ''<module>'', ''Reload a module everywhere'')] else []) @
      [(''ShowMOTD'', [], (''Show ZNC'' @ [CHR 0x27] @ ''s message of the day''))] @
      (if cu_bAdmin u then
       [(''SetMOTD'', ''<message>'', (''Set ZNC'' @ [CHR 0x27] @ ''s message of the day'')),
        (''AddMOTD'', ''<message>'', (''Append <message> to ZNC'' @ [CHR 0x27] @ ''s MOTD'')),
        (''ClearMOTD'', [], (''Clear ZNC'' @ [CHR 0x27] @ ''s MOTD'')),
        (''ListPorts'', [], ''Show all active listeners''),
        (''AddPort'', ''<[+]port> <ipv4|ipv6|all> <web|irc|all> [bindhost [uriprefix]]'', ''Add another port for ZNC to listen on''),
        (''DelPort'', ''<port> <ipv4|ipv6|all> [bindhost]'', ''Remove a port from ZNC''),
        (''Rehash'', [], ''Reload global settings, modules, and listeners from znc.conf''),
        (''SaveConfig'', [], ''Save the current settings to disk''),
        (''ListUsers'', [], ''List all ZNC users and their connection status''),
        (''ListAllUserNetworks'', [], ''List all ZNC users and their networks''),
        (''ListChans'', ''[user <network>]'', ''List all channels''),
        (''ListClients'', ''[user]'', ''List all connected clients''),
        (''Traffic'', [], ''Show basic traffic stats for all ZNC users''),
        (''Broadcast'', ''[message]'', ''Broadcast a message to all ZNC users''),
        (''Shutdown'', ''[message]'', ''Shut down ZNC completely''),
        (''Restart'', ''[message]'', ''Restart ZNC'')] else []))"

definition help_row :: "string \<times> string \<times> string \<Rightarrow> (string \<times> string) list" where
  "help_row e = (let (sCmd, sArgs, sDesc) = e
     in [(''Command'', sCmd @ (if sArgs = [] then [] else '' '') @ sArgs), (''Description'', sDesc)])"

definition help_wanted :: "string \<Rightarrow> string \<Rightarrow> bool" where
  "help_wanted sFilter sCmd \<longleftrightarrow> sFilter = [] \<or> starts_ci sCmd sFilter \<or> WildCmp (AsLower sFilter) (AsLower sCmd) CaseSensitive"

definition HelpUser :: "cmd_env \<Rightarrow> cuser \<Rightarrow> string \<Rightarrow> cmd_state \<Rightarrow> cmd_state" where
  "HelpUser E u sLine s =
     (let sFilter = token sLine 1; es = filter (\<lambda>e. help_wanted sFilter (fst e)) (help_entries u);
          s1 = (if sFilter = [] then put_status (''In the following list all occurrences of <#chan> support wildcards '' @
                 ''(* and ?) except ListNicks'') s else s)
      in if es = [] then put_status (''No matches for '' @ [CHR 0x27] @ sFilter @ [CHR 0x27]) s1
         else snd (put_table (build_table [''Command'', ''Description''] ListStyle (map help_row es)) s1))"

lemma quiet_HelpUser: "quiet_cmd (HelpUser E u l)"
  unfolding quiet_cmd_def HelpUser_def Let_def by (auto intro!: showing)

end
