(* ===== verification/Commands.thy ===== *)
theory Commands imports Command_Admin begin

text \<open>
  CClient::UserCommand (src/ClientCommand.cpp): the line is shown to the modules, and its
  first word is looked up. The alternatives of the code are entries of a table, in the same
  order: the names, who may use the command, and what it does. \<open>confined\<close> says what a command
  of a user that is no administrator can change (\<open>confined_UserCommand\<close>).
\<close>

type_synonym command = "cmd_env \<Rightarrow> cuser \<Rightarrow> string \<Rightarrow> cmd_state \<Rightarrow> cmd_state"

definition may_bind :: "cuser \<Rightarrow> bool" where
  "may_bind u \<longleftrightarrow> cu_bAdmin u \<or> \<not> cu_bDenySetBindHost u"

definition command_table :: "cuser \<Rightarrow> (string list \<times> bool \<times> command) list" where
  "command_table u =
     (let ad = cu_bAdmin u; bind = may_bind u
      in [([''HELP''], True, HelpUser), ([''LISTNICKS''], True, ListNicks), ([''ATTACH''], True, Cmd_Attach),
          ([''DETACH''], True, Cmd_Detach), ([''VERSION''], True, ShowVersion), ([''MOTD'', ''ShowMOTD''], True, ShowMotd),
          ([''Rehash''], ad, Cmd_Rehash), ([''SaveConfig''], ad, Cmd_SaveConfig), ([''LISTCLIENTS''], True, ListClients),
          ([''LISTUSERS''], ad, ListUsers), ([''LISTALLUSERNETWORKS''], ad, ListAllUserNetworks),
          ([''SetMOTD''], ad, Cmd_SetMotd), ([''AddMOTD''], ad, Cmd_AddMotd), ([''ClearMOTD''], ad, Cmd_ClearMotd),
          ([''BROADCAST''], ad, Cmd_Broadcast), ([''SHUTDOWN'', ''RESTART''], ad, Cmd_Shutdown),
          ([''JUMP'', ''CONNECT''], True, Cmd_Jump), ([''DISCONNECT''], True, Cmd_Disconnect),
          ([''ENABLECHAN''], True, Cmd_EnableChan), ([''DISABLECHAN''], True, Cmd_DisableChan),
          ([''MOVECHAN''], True, Cmd_MoveChan), ([''SWAPCHANS''], True, Cmd_SwapChans), ([''LISTCHANS''], True, ListChans),
          ([''ADDNETWORK''], True, Cmd_AddNetwork), ([''DELNETWORK''], True, Cmd_DelNetwork),
          ([''LISTNETWORKS''], True, ListNetworks), ([''MOVENETWORK''], True, Cmd_MoveNetwork),
          ([''JUMPNETWORK''], True, Cmd_JumpNetwork), ([''ADDSERVER''], True, Cmd_AddServer),
          ([''REMSERVER'', ''DELSERVER''], True, Cmd_DelServer), ([''LISTSERVERS''], True, ListServers),
          ([''AddTrustedServerFingerprint''], True, Cmd_AddTrustedFingerprint),
          ([''DelTrustedServerFingerprint''], True, Cmd_DelTrustedFingerprint),
          ([''ListTrustedServerFingerprints''], True, ListTrustedFingerprints), ([''TOPICS''], True, ShowTopics),
          ([''LISTMODS'', ''LISTMODULES''], True, ListMods), ([''LISTAVAILMODS'', ''LISTAVAILABLEMODULES''], True, ListAvailMods),
          ([''LOADMOD'', ''LOADMODULE''], True, Cmd_LoadMod), ([''UNLOADMOD'', ''UNLOADMODULE''], True, Cmd_UnloadMod),
          ([''RELOADMOD'', ''RELOADMODULE''], True, Cmd_ReloadMod), ([''UPDATEMOD'', ''UPDATEMODULE''], ad, Cmd_UpdateMod),
          ([''SETBINDHOST'', ''SETVHOST''], bind, Cmd_SetBindHost), ([''SETUSERBINDHOST''], bind, Cmd_SetUserBindHost),
          ([''CLEARBINDHOST'', ''CLEARVHOST''], bind, Cmd_ClearBindHost), ([''CLEARUSERBINDHOST''], bind, Cmd_ClearUserBindHost),
          ([''SHOWBINDHOST''], True, ShowBindHost), ([''PLAYBUFFER''], True, Cmd_PlayBuffer),
          ([''CLEARBUFFER''], True, Cmd_ClearBuffer), ([''CLEARALLCHANNELBUFFERS''], True, Cmd_ClearAllChannelBuffers),
          ([''CLEARALLQUERYBUFFERS''], True, Cmd_ClearAllQueryBuffers), ([''CLEARALLBUFFERS''], True, Cmd_ClearAllBuffers),
          ([''SETBUFFER''], True, Cmd_SetBuffer), ([''TRAFFIC''], ad, ShowTraffic), ([''UPTIME''], True, ShowUptime),
          ([''LISTPORTS'', ''ADDPORT'', ''DELPORT''], ad, UserPortCommand)])"

definition find_command :: "cuser \<Rightarrow> string \<Rightarrow> command option" where
  "find_command u sCommand =
     map_option (snd \<circ> snd) (List.find (\<lambda>(names, b, _). b \<and> (\<exists>n \<in> set names. equals_ci sCommand n)) (command_table u))"

definition Client_UserCommand :: "cmd_env \<Rightarrow> string \<Rightarrow> cmd_state \<Rightarrow> cmd_state" where
  "Client_UserCommand E sLine0 s =
     (case FindUser (cs_sUser s) (cs_znc s) of
        None \<Rightarrow> s
      | Some u \<Rightarrow>
          if sLine0 = [] then s
          else (let (bReturn, sLine) = ke_OnStatusCommand E sLine0
                in if bReturn then s
                   else (case find_command u (token sLine 0) of
                       Some f \<Rightarrow> f E u sLine s
                     | None \<Rightarrow> UnknownCommand E u sLine s)))"

section \<open>What a command of a user may change\<close>

text \<open>Events that concern the user himself: his client, the sockets and clients of his networks.\<close>

definition own_event :: "string \<Rightarrow> status_ev \<Rightarrow> bool" where
  "own_event sUser e = (case e of
       Status _ \<Rightarrow> True | StatusNotice _ \<Rightarrow> True | SetNet _ \<Rightarrow> True
     | NetOut n _ _ \<Rightarrow> n = sUser | SockQuit n _ _ \<Rightarrow> n = sUser | SockClose n _ \<Rightarrow> n = sUser
     | UserNotice _ _ \<Rightarrow> False | MoveRegistry _ _ \<Rightarrow> False | Stopped _ \<Rightarrow> False)"

text \<open>Each network afterwards has the value of one of the same number before, or the initial one.\<close>

definition kept_of :: "(netconf \<Rightarrow> 'a) \<Rightarrow> 'a \<Rightarrow> netconf list \<Rightarrow> netconf list \<Rightarrow> bool" where
  "kept_of f x0 nets nets' \<longleftrightarrow> (\<forall>nc' \<in> set nets'. f nc' = x0 \<or> (\<exists>nc \<in> set nets. nc_id nc = nc_id nc' \<and> f nc = f nc'))"

definition own_change :: "cuser \<Rightarrow> cuser \<Rightarrow> bool" where
  "own_change u u' \<longleftrightarrow>
     u' \<lparr>cu_vIRCNetworks := [], cu_mods := [], cu_sBindHost := []\<rparr> = u \<lparr>cu_vIRCNetworks := [], cu_mods := [], cu_sBindHost := []\<rparr> \<and>
     length (cu_vIRCNetworks u') \<le> max (length (cu_vIRCNetworks u)) (cu_uMaxNetworks u) \<and>
     (cu_bDenyLoadMod u \<longrightarrow> cu_mods u' = cu_mods u \<and> kept_of nc_mods [] (cu_vIRCNetworks u) (cu_vIRCNetworks u')) \<and>
     (cu_bDenySetBindHost u \<longrightarrow> cu_sBindHost u' = cu_sBindHost u \<and>
        kept_of (\<lambda>nc. net_sBindHost (nc_net nc)) [] (cu_vIRCNetworks u) (cu_vIRCNetworks u')) \<and>
     (cu_bDenySetNetwork u \<longrightarrow>
        map (\<lambda>nc. (nc_id nc, net_sName (nc_net nc), m_vServers (nc_net nc))) (cu_vIRCNetworks u') =
        map (\<lambda>nc. (nc_id nc, net_sName (nc_net nc), m_vServers (nc_net nc))) (cu_vIRCNetworks u))"

definition others_kept :: "cmd_state \<Rightarrow> cmd_state \<Rightarrow> bool" where
  "others_kept s s' \<longleftrightarrow> cs_sUser s' = cs_sUser s \<and> cs_files s' = cs_files s \<and>
     (cs_znc s') \<lparr>z_msUsers := []\<rparr> = (cs_znc s) \<lparr>z_msUsers := []\<rparr> \<and>
     map fst (z_msUsers (cs_znc s')) = map fst (z_msUsers (cs_znc s)) \<and>
     (\<forall>n. n \<noteq> cs_sUser s \<longrightarrow> FindUser n (cs_znc s') = FindUser n (cs_znc s)) \<and>
     (\<exists>es. cs_ev s' = cs_ev s @ es \<and> list_all (own_event (cs_sUser s)) es)"

definition confined :: "cuser \<Rightarrow> cmd_state \<Rightarrow> cmd_state \<Rightarrow> bool" where
  "confined u s s' \<longleftrightarrow> others_kept s s' \<and> (\<exists>u'. FindUser (cs_sUser s) (cs_znc s') = Some u' \<and> own_change u u')"

section \<open>Laws\<close>

lemma own_change_refl [simp]: "own_change u u"
  by (auto simp: own_change_def kept_of_def)

text \<open>A step with a user u before, and v before this step: v is what u has become.\<close>

named_theorems confining

lemma confined_refl: "FindUser (cs_sUser s) (cs_znc s) = Some u \<Longrightarrow> confined u s s"
  by (simp add: confined_def others_kept_def)

lemma confined_emit_all [confining]:
  "confined u s s1 \<Longrightarrow> list_all (own_event (cs_sUser s)) es \<Longrightarrow> confined u s (emit_all es s1)"
  by (auto simp: confined_def others_kept_def emit_all_def)

lemma confined_emit [confining]: "confined u s s1 \<Longrightarrow> own_event (cs_sUser s) e \<Longrightarrow> confined u s (emit_ev e s1)"
  by (auto simp: confined_def others_kept_def emit_ev_def)

lemma confined_status [confining]: "confined u s s1 \<Longrightarrow> confined u s (put_status t s1)"
  unfolding put_status_def by (erule confined_emit) (simp add: own_event_def)

lemma confined_sUser: "confined u s s1 \<Longrightarrow> cs_sUser s1 = cs_sUser s"
  by (simp add: confined_def others_kept_def)

lemma confined_set_network [confining]: "confined u s s1 \<Longrightarrow> confined u s (set_network n s1)"
  unfolding set_network_def
proof (rule confined_emit)
  assume "confined u s s1"
  then show "confined u s (s1 \<lparr>cs_pNetwork := n\<rparr>)" by (simp add: confined_def others_kept_def)
qed (simp add: own_event_def)

lemma confined_shows: "only_shows s s' \<Longrightarrow> FindUser (cs_sUser s) (cs_znc s) = Some u \<Longrightarrow> confined u s s'"
  unfolding only_shows_def
proof (elim exE conjE)
  fix es
  assume s': "s' = s \<lparr>cs_ev := cs_ev s @ es\<rparr>" and es: "list_all is_shown es" and u: "FindUser (cs_sUser s) (cs_znc s) = Some u"
  have "list_all (own_event (cs_sUser s)) es"
    using es by (auto simp: list_all_iff is_shown_def own_event_def split: status_ev.splits)
  then show "confined u s s'"
    using confined_emit_all [OF confined_refl [OF u]] by (simp add: s' emit_all_def)
qed

lemma FindUser_upd_user: "FindUser n (cs_znc (upd_user k f s)) = (if n = k then map_option f (FindUser n (cs_znc s)) else FindUser n (cs_znc s))"
proof -
  have "map_of (map (\<lambda>e. if fst e = k then (fst e, f (snd e)) else e) us) n = (if n = k then map_option f (map_of us n) else map_of us n)"
    for us :: "(string, cuser) omap"
    by (induction us) auto
  then show ?thesis by (simp add: upd_user_def FindUser_def)
qed

lemma confined_upd:
  assumes "confined u s s1" and "\<And>v. FindUser (cs_sUser s) (cs_znc s1) = Some v \<Longrightarrow> own_change u (f v)"
  shows "confined u s (upd_user (cs_sUser s) f s1)"
proof -
  have "map fst (map (\<lambda>e. if fst e = k then (fst e, f (snd e)) else e) us) = map fst us" for k and us :: "(string, cuser) omap"
    by (induction us) auto
  moreover have "cs_znc (upd_user k f s1) \<lparr>z_msUsers := []\<rparr> = cs_znc s1 \<lparr>z_msUsers := []\<rparr>" for k by (simp add: upd_user_def)
  ultimately have "others_kept s (upd_user (cs_sUser s) f s1)"
    using assms(1) unfolding confined_def others_kept_def
    by (simp only: FindUser_upd_user) (simp add: upd_user_def del: map_map)
  then show ?thesis
    using assms by (auto simp: confined_def FindUser_upd_user)
qed

lemma net_index_Some:
  assumes "net_index u s = Some i"
  shows "i < length (cu_vIRCNetworks u)"
proof -
  have "find_idx P xs = Some i \<Longrightarrow> i < length xs" for P and xs :: "netconf list"
    by (induction xs arbitrary: i) (auto split: if_splits)
  then show ?thesis using assms by (auto simp: net_index_def split: option.splits)
qed

text \<open>What a network must keep of its old value.\<close>

definition net_keeps :: "cuser \<Rightarrow> netconf \<Rightarrow> netconf \<Rightarrow> bool" where
  "net_keeps u nc nc' \<longleftrightarrow> nc_id nc' = nc_id nc \<and> net_sName (nc_net nc') = net_sName (nc_net nc) \<and>
     (cu_bDenyLoadMod u \<longrightarrow> nc_mods nc' = nc_mods nc) \<and>
     (cu_bDenySetBindHost u \<longrightarrow> net_sBindHost (nc_net nc') = net_sBindHost (nc_net nc)) \<and>
     (cu_bDenySetNetwork u \<longrightarrow> m_vServers (nc_net nc') = m_vServers (nc_net nc))"

lemma kept_of_refl: "kept_of f x0 nets nets"
  by (auto simp: kept_of_def)

lemma kept_of_update:
  assumes "i < length nets" and "nc_id nc = nc_id (nets ! i)" and "f nc = f (nets ! i)"
  shows "kept_of f x0 nets (nets[i := nc])"
  unfolding kept_of_def
proof (intro ballI disjI2)
  fix nc'
  assume "nc' \<in> set (nets[i := nc])"
  then have "nc' \<in> set nets \<or> nc' = nc" using set_update_subset_insert [of nets i nc] by blast
  then show "\<exists>k\<in>set nets. nc_id k = nc_id nc' \<and> f k = f nc'"
    using assms nth_mem [OF assms(1)] by metis
qed

lemma map_update_same: "i < length xs \<Longrightarrow> f x = f (xs ! i) \<Longrightarrow> map f (xs[i := x]) = map f xs"
  by (metis list_update_id map_update)

lemma own_change_set_net:
  assumes "i < length (cu_vIRCNetworks u)" and "net_keeps u (cu_vIRCNetworks u ! i) nc"
  shows "own_change u (set_net i nc u)"
proof -
  note k = assms(2) [unfolded net_keeps_def]
  have id: "nc_id nc = nc_id (cu_vIRCNetworks u ! i)" using k by simp
  have m: "cu_bDenyLoadMod u \<Longrightarrow> kept_of nc_mods [] (cu_vIRCNetworks u) ((cu_vIRCNetworks u)[i := nc])"
    by (rule kept_of_update [OF assms(1) id]) (use k in simp)
  have b: "cu_bDenySetBindHost u \<Longrightarrow>
      kept_of (\<lambda>nc. net_sBindHost (nc_net nc)) [] (cu_vIRCNetworks u) ((cu_vIRCNetworks u)[i := nc])"
    by (rule kept_of_update [OF assms(1) id]) (use k in simp)
  have n: "cu_bDenySetNetwork u \<Longrightarrow>
      map (\<lambda>nc. (nc_id nc, net_sName (nc_net nc), m_vServers (nc_net nc))) ((cu_vIRCNetworks u)[i := nc]) =
      map (\<lambda>nc. (nc_id nc, net_sName (nc_net nc), m_vServers (nc_net nc))) (cu_vIRCNetworks u)"
    by (rule map_update_same [OF assms(1)]) (use k in simp)
  show ?thesis
    unfolding own_change_def set_net_def by (simp add: m b n)
qed

lemma confined_put_net [confining]:
  assumes "FindUser (cs_sUser s) (cs_znc s) = Some u" and "net_index u s = Some i"
    and "net_keeps u (cu_vIRCNetworks u ! i) nc"
  shows "confined u s (put_net i nc s)"
  unfolding put_net_def
  by (rule confined_upd [OF confined_refl [OF assms(1)]])
     (use assms net_index_Some own_change_set_net in auto)

text \<open>After events only, the network can be changed as well.\<close>

lemma confined_put_net_after [confining]:
  assumes "FindUser (cs_sUser s) (cs_znc s) = Some u" and "net_index u s = Some i"
    and "net_keeps u (cu_vIRCNetworks u ! i) nc" and "confined u s s1" and "cs_znc s1 = cs_znc s"
  shows "confined u s (put_net i nc s1)"
  unfolding put_net_def confined_sUser [OF assms(4)]
  by (rule confined_upd [OF assms(4)]) (use assms net_index_Some own_change_set_net in auto)

lemma confined_with_network:
  assumes "FindUser (cs_sUser s) (cs_znc s) = Some u"
    and "\<And>i. net_index u s = Some i \<Longrightarrow> confined u s (f i (cu_vIRCNetworks u ! i) s)"
  shows "confined u s (with_network f u s)"
  using assms confined_status [OF confined_refl [OF assms(1)]]
  by (simp add: with_network_def split: option.split)

section \<open>The commands on the networks\<close>

definition net_core :: "network \<Rightarrow> string \<times> string \<times> server list" where
  "net_core n = (net_sName n, net_sBindHost n, m_vServers n)"

lemma net_kept_core: "net_core n = net_core (nc_net nc) \<Longrightarrow> net_keeps u nc (nc \<lparr>nc_net := n\<rparr>)"
  by (simp add: net_core_def net_keeps_def)

lemma net_core_upd_chan [simp]: "net_core (upd_chan i f n) = net_core n"
  by (simp add: net_core_def upd_chan_def)

lemma net_core_clear_chans [simp]: "net_core (clear_chans P n) = net_core n"
  by (simp add: net_core_def clear_chans_def)

lemma net_core_ClearQueryBuffer [simp]: "net_core (ClearQueryBuffer n) = net_core n"
  by (simp add: net_core_def ClearQueryBuffer_def)

lemma net_core_attach: "attach_all E so is n = (k, out, n1) \<Longrightarrow> net_core n1 = net_core n"
proof -
  have "net_core (snd (snd (fold (\<lambda>i (k, out, n). if m_bDetached (m_vChans n ! i)
      then (let (out1, c1) = AttachUser (ke_play E) (network_view so n) None (m_vChans n ! i)
            in (k + 1, out @ out1, upd_chan i (\<lambda>c. c1) n)) else (k, out, n)) is st))) = net_core (snd (snd st))"
    for st :: "nat \<times> client_out list \<times> network"
  proof (induction "is" arbitrary: st)
    case (Cons i "is")
    obtain k out n where st: "st = (k, out, n)" by (cases st) auto
    show ?case by (simp only: fold_simps comp_apply Cons.IH st) (simp split: prod.split)
  qed simp
  from this [of "(0, [], n)"] show "attach_all E so is n = (k, out, n1) \<Longrightarrow> net_core n1 = net_core n"
    unfolding attach_all_def by simp
qed

lemma net_core_detach: "detach_all so is n = (k, out, n1) \<Longrightarrow> net_core n1 = net_core n"
proof -
  have "net_core (snd (snd (fold (\<lambda>i (k, out, n). if m_bDetached (m_vChans n ! i) then (k, out, n)
      else (let (out1, c1) = DetachUser (network_view so n) (m_vChans n ! i)
            in (k + 1, out @ out1, upd_chan i (\<lambda>c. c1) n))) is st))) = net_core (snd (snd st))"
    for st :: "nat \<times> client_out list \<times> network"
  proof (induction "is" arbitrary: st)
    case (Cons i "is")
    obtain k out n where st: "st = (k, out, n)" by (cases st) auto
    show ?case by (simp only: fold_simps comp_apply Cons.IH st) (simp split: prod.split)
  qed simp
  from this [of "(0, [], n)"] show "detach_all so is n = (k, out, n1) \<Longrightarrow> net_core n1 = net_core n"
    unfolding detach_all_def by simp
qed

lemma net_core_enable: "enable_all b is n = (k, n1) \<Longrightarrow> net_core n1 = net_core n"
proof -
  have "net_core (snd (fold (\<lambda>i (k, n). if m_bDisabled (m_vChans n ! i) = b
      then (k + 1, upd_chan i (if b then Enable else Disable) n) else (k, n)) is st)) = net_core (snd st)"
    for st :: "nat \<times> network"
  proof (induction "is" arbitrary: st)
    case (Cons i "is")
    obtain k n where st: "st = (k, n)" by (cases st) auto
    show ?case by (simp only: fold_simps comp_apply Cons.IH st) simp
  qed simp
  from this [of "(0, n)"] show "enable_all b is n = (k, n1) \<Longrightarrow> net_core n1 = net_core n"
    unfolding enable_all_def by simp
qed

lemma net_core_MoveChan: "MoveChan a i n = Inr n1 \<Longrightarrow> net_core n1 = net_core n"
  by (auto simp: MoveChan_def net_core_def Let_def split: if_splits option.splits)

lemma net_core_SwapChans: "SwapChans a b n = Inr n1 \<Longrightarrow> net_core n1 = net_core n"
  by (auto simp: SwapChans_def net_core_def Let_def split: option.splits)

lemma net_core_DelQuery [simp]: "net_core (snd (DelQuery q n)) = net_core n"
  by (simp add: DelQuery_def net_core_def split: option.split)

lemma net_core_fold_DelQuery: "net_core (fold (\<lambda>q n. snd (DelQuery (q_sName q) n)) qs n) = net_core n"
  by (induction qs arbitrary: n) simp_all

lemma net_core_SetNextServer: "net_core (snd (SetNextServer k n)) = net_core n"
  by (simp add: SetNextServer_def net_core_def)

lemma net_core_GetNextServer: "net_core (snd (GetNextServer b n)) = net_core n"
  by (simp add: GetNextServer_def net_core_def Let_def)

lemmas net_cores = net_core_attach net_core_detach net_core_enable net_core_MoveChan net_core_SwapChans

definition own_cmd :: "command \<Rightarrow> bool" where
  "own_cmd f \<longleftrightarrow> (\<forall>E u sLine s. FindUser (cs_sUser s) (cs_znc s) = Some u \<and> \<not> cu_bAdmin u \<longrightarrow> confined u s (f E u sLine s))"

lemma own_cmdI:
  assumes "\<And>E u sLine s. FindUser (cs_sUser s) (cs_znc s) = Some u \<Longrightarrow> \<not> cu_bAdmin u \<Longrightarrow> confined u s (f E u sLine s)"
  shows "own_cmd f"
  using assms by (simp add: own_cmd_def)

lemma own_quiet: "(\<And>E u l. quiet_cmd (f E u l)) \<Longrightarrow> own_cmd f"
  by (rule own_cmdI) (simp add: quiet_cmd_def confined_shows)

lemma own_out_events: "list_all (own_event (cs_sUser s)) (out_events s nc out)"
  by (simp add: out_events_def list_all_iff own_event_def)

lemma confined_matched [confining]: "confined u s s1 \<Longrightarrow> confined u s (matched_lines a b i j s1)"
  unfolding matched_lines_def by (intro confined_status)

text \<open>A change of the network and what was sent to its clients.\<close>

lemma confined_net:
  assumes "FindUser (cs_sUser s) (cs_znc s) = Some u" and "net_index u s = Some i"
    and "net_core n = net_core (nc_net (cu_vIRCNetworks u ! i))"
  shows "confined u s (put_net i ((cu_vIRCNetworks u ! i) \<lparr>nc_net := n\<rparr>) s)"
  by (rule confined_put_net [OF assms(1,2)]) (rule net_kept_core [OF assms(3)])

lemma own_with_network:
  assumes "\<And>E u sLine. f E u sLine = with_network (g E u sLine) u"
    and "\<And>E u sLine s i. FindUser (cs_sUser s) (cs_znc s) = Some u \<Longrightarrow> net_index u s = Some i \<Longrightarrow> \<not> cu_bAdmin u \<Longrightarrow>
      confined u s (g E u sLine i (cu_vIRCNetworks u ! i) s)"
  shows "own_cmd f"
  by (rule own_cmdI) (simp add: assms confined_with_network)

lemmas steps = confining confined_refl confined_net own_out_events

lemma own_Attach: "own_cmd Cmd_Attach"
  by (rule own_with_network, rule Cmd_Attach_def)
     (auto intro!: steps simp: Let_def dest: net_core_attach split: prod.split)

lemma own_Detach: "own_cmd Cmd_Detach"
  by (rule own_with_network, rule Cmd_Detach_def)
     (auto intro!: steps simp: Let_def dest: net_core_detach split: prod.split)

lemma own_EnableChan: "own_cmd Cmd_EnableChan"
  by (rule own_with_network, rule Cmd_EnableChan_def)
     (auto intro!: steps simp: Let_def dest: net_core_enable split: prod.split)

lemma own_DisableChan: "own_cmd Cmd_DisableChan"
  by (rule own_with_network, rule Cmd_DisableChan_def)
     (auto intro!: steps simp: Let_def dest: net_core_enable split: prod.split)

lemma own_MoveChan: "own_cmd Cmd_MoveChan"
  by (rule own_with_network, rule Cmd_MoveChan_def)
     (auto intro!: steps simp: Let_def dest: net_core_MoveChan split: sum.split)

lemma own_SwapChans: "own_cmd Cmd_SwapChans"
  by (rule own_with_network, rule Cmd_SwapChans_def)
     (auto intro!: steps simp: Let_def dest: net_core_SwapChans split: sum.split)

lemma own_PlayBuffer: "own_cmd Cmd_PlayBuffer"
  by (rule own_with_network, rule Cmd_PlayBuffer_def)
     (auto intro!: steps simp: Let_def split: option.split prod.split)

lemma own_ClearBuffer: "own_cmd Cmd_ClearBuffer"
  by (rule own_with_network, rule Cmd_ClearBuffer_def)
     (auto intro!: steps simp: Let_def net_core_fold_DelQuery)

lemma net_kept_with_net: "net_core (f (nc_net nc)) = net_core (nc_net nc) \<Longrightarrow> net_keeps u nc (with_net f nc)"
  unfolding with_net_def by (rule net_kept_core)

lemma own_ClearAllChannelBuffers: "own_cmd Cmd_ClearAllChannelBuffers"
  by (rule own_with_network, rule Cmd_ClearAllChannelBuffers_def) (auto intro!: steps net_kept_with_net)

lemma own_ClearAllQueryBuffers: "own_cmd Cmd_ClearAllQueryBuffers"
  by (rule own_with_network, rule Cmd_ClearAllQueryBuffers_def) (auto intro!: steps net_kept_with_net)

lemma own_ClearAllBuffers: "own_cmd Cmd_ClearAllBuffers"
  by (rule own_with_network, rule Cmd_ClearAllBuffers_def) (auto intro!: steps net_kept_with_net)

lemma net_core_buffers: "net_core (n \<lparr>m_vChans := a, m_vQueries := b\<rparr>) = net_core n"
  by (simp add: net_core_def)

lemma own_SetBuffer: "own_cmd Cmd_SetBuffer"
  by (rule own_with_network, rule Cmd_SetBuffer_def)
     (auto intro!: steps simp: Let_def net_core_buffers)

section \<open>Connecting, networks, servers\<close>

text \<open>States that differ only in the events.\<close>

lemma cs_znc_emit [simp]: "cs_znc (emit_ev e s) = cs_znc s" "cs_pNetwork (emit_ev e s) = cs_pNetwork s" "cs_sUser (emit_ev e s) = cs_sUser s"
  by (simp_all add: emit_ev_def)

lemma cs_znc_status [simp]: "cs_znc (put_status t s) = cs_znc s" "cs_pNetwork (put_status t s) = cs_pNetwork s" "cs_sUser (put_status t s) = cs_sUser s"
  by (simp_all add: put_status_def)

lemma cs_znc_quit [simp]: "cs_znc (quit_sock E nc m s) = cs_znc s" "cs_sUser (quit_sock E nc m s) = cs_sUser s"
  by (simp_all add: quit_sock_def)

lemma confined_quit [confining]: "confined u s s1 \<Longrightarrow> confined u s (quit_sock E nc m s1)"
  using confined_sUser [of u s s1] by (auto simp: quit_sock_def own_event_def intro!: confined_emit)

lemma confined_end_sock [confining]: "confined u s s1 \<Longrightarrow> k = cs_sUser s \<Longrightarrow> confined u s (end_sock k n e s1)"
  by (auto simp: end_sock_def own_event_def intro!: confined_emit split: sock_end.split)

lemma net_kept_trans: "net_keeps u a b \<Longrightarrow> net_keeps u b c \<Longrightarrow> net_keeps u a c"
  by (simp add: net_keeps_def)

lemma net_kept_SetIRCConnectEnabled: "net_keeps u nc (snd (SetIRCConnectEnabled so b nc))"
  by (simp add: SetIRCConnectEnabled_def net_keeps_def Let_def)

lemma confined_set_connect:
  assumes "FindUser (cs_sUser s) (cs_znc s) = Some u" and "net_index u s = Some i"
    and "net_keeps u (cu_vIRCNetworks u ! i) nc" and "confined u s s1" and "cs_znc s1 = cs_znc s"
  shows "confined u s (set_connect E i b nc s1)"
proof -
  obtain e nc1 where r: "SetIRCConnectEnabled (map_option (\<lambda>_. ke_bConnected E (cs_sUser s1) (nc_id nc)) (net_sock E nc s1)) b nc = (e, nc1)"
    by (cases "SetIRCConnectEnabled (map_option (\<lambda>_. ke_bConnected E (cs_sUser s1) (nc_id nc)) (net_sock E nc s1)) b nc")
  have "net_keeps u nc nc1" using net_kept_SetIRCConnectEnabled r by (metis snd_conv)
  then have "net_keeps u (cu_vIRCNetworks u ! i) nc1" using assms(3) net_kept_trans by blast
  from confined_put_net_after [OF assms(1,2) this assms(4,5)] show ?thesis
    unfolding set_connect_def r Let_def prod.case
    by (rule confined_end_sock) (rule confined_sUser [OF assms(4)])
qed

lemma own_Jump: "own_cmd Cmd_Jump"
proof (rule own_with_network, rule Cmd_Jump_def)
  fix E u sLine and s :: cmd_state and i
  assume u: "FindUser (cs_sUser s) (cs_znc s) = Some u" and i: "net_index u s = Some i"
  let ?nc = "cu_vIRCNetworks u ! i"
  have go: "confined u s (set_connect E i True (?nc \<lparr>nc_net := n1\<rparr>) (put_status t (quit_sock E ?nc [] s1)))"
    if "net_core n1 = net_core (nc_net ?nc)" and "confined u s s1" and "cs_znc s1 = cs_znc s" for n1 t s1
    by (rule confined_set_connect [OF u i net_kept_core]) (use that in \<open>simp_all add: confined_status confined_quit\<close>)
  have next_server: "net_core n1 = net_core (nc_net ?nc)" if "GetNextServer False (nc_net ?nc) = (p, n1)" for p n1
    using net_core_GetNextServer [of False "nc_net ?nc"] that by simp
  show "confined u s (let n = nc_net ?nc; sArgs = Trim_n ws (token_rest sLine 1); so = net_sock E ?nc s;
           found = (if sArgs = [] then None else FindServer sArgs n)
       in if m_vServers n = [] then put_status no_servers s
          else if sArgs \<noteq> [] \<and> found = None then put_status (''Server ['' @ sArgs @ ''] not found'') s
          else
            (let (pServer, n1, s1) =
                   (case found of
                      Some k \<Rightarrow> (Some (m_vServers n ! k), snd (SetNextServer k n),
                        if so \<noteq> None \<and> \<not> ke_bConnected E (cs_sUser s) (nc_id ?nc)
                        then emit_ev (SockClose (cs_sUser s) (nc_id ?nc)) s else s)
                    | None \<Rightarrow> (case GetNextServer False n of (p, n1) \<Rightarrow> (p, n1, s)));
                 s2 = quit_sock E ?nc [] s1;
                 s3 = put_status (case pServer of Some v \<Rightarrow> ''Connecting to '' @ srv_sName v @ ''...''
                        | None \<Rightarrow> if so \<noteq> None then ''Jumping to the next server in the list...'' else ''Connecting...'') s2
             in set_connect E i True (?nc \<lparr>nc_net := n1\<rparr>) s3))"
    unfolding Let_def
    by (auto intro!: go confining confined_refl u net_core_SetNextServer simp: own_event_def dest: next_server
        split: option.split prod.split simp del: option.case_distrib)
qed

lemma own_Disconnect: "own_cmd Cmd_Disconnect"
  by (rule own_with_network, rule Cmd_Disconnect_def)
     (intro confined_status confined_set_connect confined_quit confined_refl; simp add: net_keeps_def)

lemma own_change_add:
  assumes "HasSpaceForNewNetwork u" and "\<not> cu_bDenySetNetwork u" and "AddNetwork E sNetwork u = (None, u1)"
  shows "own_change u u1"
proof -
  let ?nc = "mk_netconf (fresh_id (cu_vIRCNetworks u)) sNetwork"
  have "u1 = snd (AddNetwork_ptr ?nc u)" using assms(3) by (auto simp: AddNetwork_def split: if_splits option.splits)
  then have "u1 = u \<or> u1 = u \<lparr>cu_vIRCNetworks := cu_vIRCNetworks u @ [?nc]\<rparr>" by (auto simp: AddNetwork_ptr_def)
  moreover have "nc_mods ?nc = []" "net_sBindHost (nc_net ?nc) = []" by (simp_all add: mk_netconf_def mk_network_def)
  ultimately show ?thesis
    using assms(1,2) by (auto simp: own_change_def kept_of_def HasSpaceForNewNetwork_def)
qed

lemma own_AddNetwork: "own_cmd Cmd_AddNetwork"
  by (rule own_cmdI)
     (auto simp: Cmd_AddNetwork_def Let_def confined_status confined_refl confined_upd own_change_add split: prod.split option.split)

lemma set_remove_at: "set (remove_at i xs) \<subseteq> set xs"
  unfolding remove_at_def using set_take_subset set_drop_subset by fastforce

lemma length_remove_at: "length (remove_at i xs) \<le> length xs"
  by (simp add: remove_at_def)

lemma own_change_delete:
  assumes "\<not> cu_bDenySetNetwork u" and "DeleteNetwork E sNetwork u = (b, u1)"
  shows "own_change u u1"
proof -
  from assms(2) have "u1 = u \<or> (\<exists>i. u1 = u \<lparr>cu_vIRCNetworks := remove_at i (cu_vIRCNetworks u)\<rparr>)"
    by (auto simp: DeleteNetwork_def split: option.splits if_splits)
  then show ?thesis
  proof
    assume "\<exists>i. u1 = u \<lparr>cu_vIRCNetworks := remove_at i (cu_vIRCNetworks u)\<rparr>"
    then obtain i where u1: "u1 = u \<lparr>cu_vIRCNetworks := remove_at i (cu_vIRCNetworks u)\<rparr>" ..
    have "kept_of f x0 (cu_vIRCNetworks u) (remove_at i (cu_vIRCNetworks u))" for f :: "netconf \<Rightarrow> 'b" and x0
      using set_remove_at [of i "cu_vIRCNetworks u"] by (auto simp: kept_of_def)
    then have "kept_of nc_mods [] (cu_vIRCNetworks u) (remove_at i (cu_vIRCNetworks u))"
      "kept_of (\<lambda>nc. net_sBindHost (nc_net nc)) [] (cu_vIRCNetworks u) (remove_at i (cu_vIRCNetworks u))"
      using set_remove_at [of i "cu_vIRCNetworks u"] by (auto simp: kept_of_def)
    then show ?thesis
      using assms(1) length_remove_at [of i "cu_vIRCNetworks u"] by (auto simp: own_change_def u1)
  qed simp
qed

lemma own_DelNetwork: "own_cmd Cmd_DelNetwork"
proof (rule own_cmdI)
  fix E u sLine and s :: cmd_state
  assume u: "FindUser (cs_sUser s) (cs_znc s) = Some u" and ad: "\<not> cu_bAdmin u"
  show "confined u s (Cmd_DelNetwork E u sLine s)"
  proof (cases "cu_bDenySetNetwork u \<or> token sLine 1 = []")
    case True
    then show ?thesis using u ad by (auto simp: Cmd_DelNetwork_def Let_def confined_status confined_refl)
  next
    case False
    have go: "confined u s (case DeleteNetwork (cmd_user_env E s1) n u of
          (True, u1) \<Rightarrow> put_status a (upd_user (cs_sUser s1) (\<lambda>_. u1) s1) | (False, _) \<Rightarrow> put_status b s1)"
      if "confined u s s1" for s1 n a b
    proof (cases "DeleteNetwork (cmd_user_env E s1) n u")
      case (Pair ok u1)
      have "confined u s (upd_user (cs_sUser s) (\<lambda>_. u1) s1)"
        by (rule confined_upd [OF that]) (use Pair False own_change_delete in auto)
      then show ?thesis
        using that confined_sUser [OF that] by (cases ok) (simp_all add: Pair confined_status)
    qed
    show ?thesis
      unfolding Cmd_DelNetwork_def Let_def using False
      by (auto intro!: go confined_set_network confined_refl u split: option.split)
  qed
qed

lemma own_JumpNetwork: "own_cmd Cmd_JumpNetwork"
  by (rule own_cmdI)
     (auto simp: Cmd_JumpNetwork_def Let_def confined_status confined_refl confined_set_network split: option.split)

lemma own_AddServer: "own_cmd Cmd_AddServer"
proof (rule own_cmdI)
  fix E u sLine and s :: cmd_state
  assume u: "FindUser (cs_sUser s) (cs_znc s) = Some u" and ad: "\<not> cu_bAdmin u"
  have keep: "net_keeps u nc (nc \<lparr>nc_net := n1\<rparr>)" if "AddServer v (nc_net nc) = (b, n1)" "\<not> cu_bDenySetNetwork u" for v nc n1 b
    using that by (auto simp: AddServer_def net_keeps_def split: if_splits)
  show "confined u s (Cmd_AddServer E u sLine s)"
    unfolding Cmd_AddServer_def Let_def using ad
    by (auto intro!: confined_with_network [OF u] confined_status confined_refl [OF u] confined_put_net [OF u] keep split: prod.split bool.split)
qed

lemma own_DelServer: "own_cmd Cmd_DelServer"
proof (rule own_cmdI)
  fix E u sLine and s :: cmd_state
  assume u: "FindUser (cs_sUser s) (cs_znc s) = Some u" and ad: "\<not> cu_bAdmin u"
  have keep: "net_keeps u nc (nc \<lparr>nc_net := n1\<rparr>)" if "DelServer v (nc_net nc) = (b, c, n1)" "\<not> cu_bDenySetNetwork u" for v nc n1 b c
    using that by (auto simp: DelServer_def net_keeps_def Let_def split: if_splits option.splits)
  show "confined u s (Cmd_DelServer E u sLine s)"
    unfolding Cmd_DelServer_def Let_def using ad
    by (auto intro!: confined_with_network [OF u] confined_status confined_quit confined_refl [OF u] confined_put_net [OF u] keep
        split: prod.split bool.split)
qed

lemma own_AddTrustedFingerprint: "own_cmd Cmd_AddTrustedFingerprint"
  by (rule own_with_network, rule Cmd_AddTrustedFingerprint_def)
     (auto simp: Let_def confined_status confined_refl confined_put_net net_keeps_def AddTrustedFingerprint_def)

lemma own_DelTrustedFingerprint: "own_cmd Cmd_DelTrustedFingerprint"
  by (rule own_with_network, rule Cmd_DelTrustedFingerprint_def)
     (auto simp: Let_def confined_status confined_refl confined_put_net net_keeps_def DelTrustedFingerprint_def)

section \<open>Bind hosts\<close>

text \<open>These commands are only found when the user may set bind hosts.\<close>

definition own_bind :: "command \<Rightarrow> bool" where
  "own_bind f \<longleftrightarrow> (\<forall>E u sLine s. FindUser (cs_sUser s) (cs_znc s) = Some u \<and> \<not> cu_bAdmin u \<and> may_bind u \<longrightarrow>
     confined u s (f E u sLine s))"

lemma own_bindI:
  assumes "\<And>E u sLine s. FindUser (cs_sUser s) (cs_znc s) = Some u \<Longrightarrow> \<not> cu_bDenySetBindHost u \<Longrightarrow> confined u s (f E u sLine s)"
  shows "own_bind f"
  unfolding own_bind_def may_bind_def using assms by blast

lemma net_kept_SetBindHost: "\<not> cu_bDenySetBindHost u \<Longrightarrow> net_keeps u nc (Net_SetBindHost V h nc)"
  by (simp add: net_keeps_def Net_SetBindHost_def with_net_def)

lemma own_change_bind: "\<not> cu_bDenySetBindHost u \<Longrightarrow> own_change u (u \<lparr>cu_sBindHost := h\<rparr>)"
  by (simp add: own_change_def kept_of_refl)

lemma confined_bind:
  assumes "FindUser (cs_sUser s) (cs_znc s) = Some u" and "\<not> cu_bDenySetBindHost u"
  shows "confined u s (upd_user (cs_sUser s) (\<lambda>v. v \<lparr>cu_sBindHost := h\<rparr>) s)"
  by (rule confined_upd [OF confined_refl [OF assms(1)]]) (use assms own_change_bind in auto)

lemma own_SetBindHost: "own_bind Cmd_SetBindHost"
  by (rule own_bindI)
     (auto simp: Cmd_SetBindHost_def Let_def confined_status confined_refl confined_put_net net_kept_SetBindHost split: option.split)

lemma own_SetUserBindHost: "own_bind Cmd_SetUserBindHost"
proof (rule own_bindI)
  fix E u sLine and s :: cmd_state
  assume u: "FindUser (cs_sUser s) (cs_znc s) = Some u" and b: "\<not> cu_bDenySetBindHost u"
  show "confined u s (Cmd_SetUserBindHost E u sLine s)"
    unfolding Cmd_SetUserBindHost_def Let_def
    using confined_bind [OF u b] by (simp add: confined_status confined_refl u)
qed

lemma own_ClearBindHost: "own_bind Cmd_ClearBindHost"
  by (rule own_bindI)
     (auto simp: Cmd_ClearBindHost_def confined_status confined_refl confined_put_net net_kept_SetBindHost split: option.split)

lemma own_ClearUserBindHost: "own_bind Cmd_ClearUserBindHost"
  by (rule own_bindI) (simp add: Cmd_ClearUserBindHost_def confined_status confined_bind)

section \<open>Modules\<close>

lemma own_change_mods: "\<not> cu_bDenyLoadMod u \<Longrightarrow> own_change u (u \<lparr>cu_mods := mods\<rparr>)"
  by (simp add: own_change_def kept_of_refl)

lemma confined_on_mods:
  assumes "FindUser (cs_sUser s) (cs_znc s) = Some u" and "\<not> cu_bDenyLoadMod u" and "\<not> cu_bAdmin u"
    and "mod_refusal d t m u s = None" and "on_mods t u f s = (b, r, s1)"
  shows "confined u s s1"
proof (cases t)
  case GlobalModule
  then show ?thesis using assms(3,4) by (simp add: mod_refusal_def)
next
  case UserModule
  obtain b1 r1 mods where "f (Some (cu_id u)) None (cu_mods u) = (b1, r1, mods)"
    by (cases "f (Some (cu_id u)) None (cu_mods u)")
  then have "s1 = upd_user (cs_sUser s) (\<lambda>v. v \<lparr>cu_mods := mods\<rparr>) s"
    using assms(5) by (simp add: UserModule on_mods_def)
  then show ?thesis
    using confined_upd [OF confined_refl [OF assms(1)], of "\<lambda>v. v \<lparr>cu_mods := mods\<rparr>"] assms(1,2) own_change_mods by simp
next
  case NetworkModule
  then obtain i where i: "net_index u s = Some i" using assms(4) by (auto simp: mod_refusal_def split: if_splits)
  let ?nc = "cu_vIRCNetworks u ! i"
  obtain b1 r1 mods where "f (Some (cu_id u)) (Some (nc_id ?nc)) (nc_mods ?nc) = (b1, r1, mods)"
    by (cases "f (Some (cu_id u)) (Some (nc_id ?nc)) (nc_mods ?nc)")
  then have "s1 = put_net i (?nc \<lparr>nc_mods := mods\<rparr>) s"
    using assms(5) by (simp add: NetworkModule on_mods_def i Let_def)
  moreover have "net_keeps u ?nc (?nc \<lparr>nc_mods := mods\<rparr>)" using assms(2) by (simp add: net_keeps_def)
  ultimately show ?thesis using confined_put_net [OF assms(1) i] by simp
qed

lemma own_LoadMod: "own_cmd Cmd_LoadMod"
  by (rule own_cmdI)
     (auto simp: Cmd_LoadMod_def Let_def confined_refl intro!: confined_status split: prod.split sum.split option.split
       intro: confined_on_mods)

lemma own_UnloadMod: "own_cmd Cmd_UnloadMod"
  by (rule own_cmdI)
     (auto simp: Cmd_UnloadMod_def Let_def confined_refl intro!: confined_status split: prod.split sum.split option.split
       intro: confined_on_mods)

lemma own_ReloadMod: "own_cmd Cmd_ReloadMod"
  by (rule own_cmdI)
     (auto simp: Cmd_ReloadMod_def Let_def confined_refl intro!: confined_status split: prod.split sum.split option.split
       intro: confined_on_mods)

lemma own_MoveNetwork: "own_cmd Cmd_MoveNetwork"
  by (rule own_cmdI) (simp add: Cmd_MoveNetwork_def Let_def confined_status confined_refl)

section \<open>The table\<close>

lemmas own_cmds = own_Attach own_Detach own_EnableChan own_DisableChan own_MoveChan own_SwapChans own_PlayBuffer own_ClearBuffer
  own_ClearAllChannelBuffers own_ClearAllQueryBuffers own_ClearAllBuffers own_SetBuffer own_Jump own_Disconnect own_AddNetwork
  own_DelNetwork own_JumpNetwork own_AddServer own_DelServer own_AddTrustedFingerprint own_DelTrustedFingerprint own_LoadMod
  own_UnloadMod own_ReloadMod own_MoveNetwork

lemmas own_binds = own_SetBindHost own_SetUserBindHost own_ClearBindHost own_ClearUserBindHost

text \<open>What an entry of the table that a user who is no administrator can reach does.\<close>

lemma command_table_own:
  assumes "\<not> cu_bAdmin u"
  shows "list_all (\<lambda>(names, b, f). b \<longrightarrow> own_cmd f \<or> may_bind u \<and> own_bind f) (command_table u)"
  unfolding command_table_def Let_def
  by (simp add: assms own_cmds own_binds quiet_lists quiet_HelpUser own_quiet)

lemma find_command_own:
  assumes "find_command u sCommand = Some f" and "\<not> cu_bAdmin u"
  shows "own_cmd f \<or> may_bind u \<and> own_bind f"
proof -
  obtain names b where e: "List.find (\<lambda>(names, b, _). b \<and> (\<exists>n \<in> set names. equals_ci sCommand n)) (command_table u) = Some (names, b, f)"
    using assms(1) by (auto simp: find_command_def)
  then have "(names, b, f) \<in> set (command_table u)" and "b" by (auto simp: find_Some_iff dest: nth_mem)
  then show ?thesis using command_table_own [OF assms(2)] by (auto simp: list_all_iff)
qed

lemma confined_UserCommand:
  assumes "FindUser (cs_sUser s) (cs_znc s) = Some u" and "\<not> cu_bAdmin u"
  shows "confined u s (Client_UserCommand E sLine s)"
proof -
  have "confined u s (f E u l s)" if "find_command u c = Some f" for f l c
    using find_command_own [OF that assms(2)] assms by (auto simp: own_cmd_def own_bind_def)
  moreover have "confined u s (UnknownCommand E u l s)" for l
    using quiet_UnknownCommand [of E u l] assms(1) by (simp add: quiet_cmd_def confined_shows)
  ultimately show ?thesis
    using confined_refl [OF assms(1)]
    by (auto simp: Client_UserCommand_def Let_def assms(1) split: prod.split option.split)
qed

section \<open>Any number of commands\<close>

lemma kept_of_trans: "kept_of f x0 a b \<Longrightarrow> kept_of f x0 b c \<Longrightarrow> kept_of f x0 a c"
  unfolding kept_of_def by metis

lemma own_change_flags:
  assumes "own_change u u'"
  shows "cu_bAdmin u' = cu_bAdmin u" "cu_bDenyLoadMod u' = cu_bDenyLoadMod u" "cu_bDenySetBindHost u' = cu_bDenySetBindHost u"
    "cu_bDenySetNetwork u' = cu_bDenySetNetwork u" "cu_uMaxNetworks u' = cu_uMaxNetworks u"
proof -
  have "u' \<lparr>cu_vIRCNetworks := [], cu_mods := [], cu_sBindHost := []\<rparr> = u \<lparr>cu_vIRCNetworks := [], cu_mods := [], cu_sBindHost := []\<rparr>"
    using assms by (simp add: own_change_def)
  then have "f (u' \<lparr>cu_vIRCNetworks := [], cu_mods := [], cu_sBindHost := []\<rparr>) = f (u \<lparr>cu_vIRCNetworks := [], cu_mods := [], cu_sBindHost := []\<rparr>)"
    for f :: "cuser \<Rightarrow> bool \<times> bool \<times> bool \<times> bool \<times> nat" by simp
  from this [of "\<lambda>u. (cu_bAdmin u, cu_bDenyLoadMod u, cu_bDenySetBindHost u, cu_bDenySetNetwork u, cu_uMaxNetworks u)"]
  show "cu_bAdmin u' = cu_bAdmin u" "cu_bDenyLoadMod u' = cu_bDenyLoadMod u" "cu_bDenySetBindHost u' = cu_bDenySetBindHost u"
    "cu_bDenySetNetwork u' = cu_bDenySetNetwork u" "cu_uMaxNetworks u' = cu_uMaxNetworks u" by simp_all
qed

lemma own_change_trans:
  assumes "own_change u v" and "own_change v w"
  shows "own_change u w"
  using assms own_change_flags [OF assms(1)] kept_of_trans
  unfolding own_change_def by (auto intro: kept_of_trans)

lemma others_kept_trans: "others_kept s s1 \<Longrightarrow> others_kept s1 s2 \<Longrightarrow> others_kept s s2"
  unfolding others_kept_def by auto

definition run_commands :: "(cmd_env \<times> string) list \<Rightarrow> cmd_state \<Rightarrow> cmd_state" where
  "run_commands cs s = fold (\<lambda>(E, sLine). Client_UserCommand E sLine) cs s"

lemma confined_run:
  assumes "FindUser (cs_sUser s) (cs_znc s) = Some u" and "\<not> cu_bAdmin u"
  shows "confined u s (run_commands cs s)"
  using assms
proof (induction cs arbitrary: s u)
  case Nil
  then show ?case by (simp add: run_commands_def confined_refl)
next
  case (Cons c cs)
  obtain E sLine where c: "c = (E, sLine)" by (cases c)
  let ?s1 = "Client_UserCommand E sLine s"
  from confined_UserCommand [OF Cons.prems] obtain v where o: "others_kept s ?s1" and
    v: "FindUser (cs_sUser s) (cs_znc ?s1) = Some v" "own_change u v" by (auto simp: confined_def)
  have user: "cs_sUser ?s1 = cs_sUser s" using o by (simp add: others_kept_def)
  have "confined v ?s1 (run_commands cs ?s1)"
    by (rule Cons.IH) (use v user own_change_flags(1) [OF v(2)] Cons.prems(2) in simp_all)
  then obtain w where "others_kept ?s1 (run_commands cs ?s1)" "FindUser (cs_sUser s) (cs_znc (run_commands cs ?s1)) = Some w" "own_change v w"
    by (auto simp: confined_def user)
  then show ?case
    using others_kept_trans [OF o] own_change_trans [OF v(2)] by (auto simp: confined_def run_commands_def c)
qed

text \<open>
  DelTrustedServerFingerprint looks for the text of the user, but what was stored is its
  normal form: a fingerprint added in upper case is not deleted by the same words.
\<close>

lemma fingerprint_stays:
  "nc_ssTrustedFingerprints (DelTrustedFingerprint ''AB:CD'' (AddTrustedFingerprint ''AB:CD'' (mk_netconf 1 ''libera''))) = [''ab:cd'']"
proof -
  have "Escape_n EHEXCOLON EHEXCOLON ''AB:CD'' = ''ab:cd''" and "os_insert ''ab:cd'' [] = [''ab:cd'']" by code_simp+
  then show ?thesis by (simp add: DelTrustedFingerprint_def AddTrustedFingerprint_def mk_netconf_def)
qed

section \<open>The help\<close>

text \<open>Every command the help lists for a user is one the interpreter has for him.\<close>

definition table_names :: "cuser \<Rightarrow> (string list \<times> bool) list" where
  "table_names u = map (\<lambda>(names, b, f). (names, b)) (command_table u)"

definition known_name :: "(string list \<times> bool) list \<Rightarrow> string \<Rightarrow> bool" where
  "known_name tab c \<longleftrightarrow> (\<exists>e \<in> set tab. snd e \<and> (\<exists>n \<in> set (fst e). equals_ci c n))"

lemma find_command_known: "find_command u c \<noteq> None \<longleftrightarrow> known_name (table_names u) c"
  by (force simp: find_command_def find_None_iff known_name_def table_names_def)

definition usable :: "cuser \<Rightarrow> string list" where
  "usable u = concat (map fst (filter snd (table_names u)))"

lemma known_usable: "known_name (table_names u) c \<longleftrightarrow> (\<exists>n \<in> set (usable u). equals_ci c n)"
  by (force simp: known_name_def usable_def)

lemma usable_admin: "cu_bAdmin u \<Longrightarrow> usable u =
     [''HELP'', ''LISTNICKS'', ''ATTACH'', ''DETACH'', ''VERSION'', ''MOTD'', ''ShowMOTD'', ''Rehash'', ''SaveConfig'',
      ''LISTCLIENTS'', ''LISTUSERS'', ''LISTALLUSERNETWORKS'', ''SetMOTD'', ''AddMOTD'', ''ClearMOTD'', ''BROADCAST'',
      ''SHUTDOWN'', ''RESTART'', ''JUMP'', ''CONNECT'', ''DISCONNECT'', ''ENABLECHAN'', ''DISABLECHAN'', ''MOVECHAN'',
      ''SWAPCHANS'', ''LISTCHANS'', ''ADDNETWORK'', ''DELNETWORK'', ''LISTNETWORKS'', ''MOVENETWORK'', ''JUMPNETWORK'',
      ''ADDSERVER'', ''REMSERVER'', ''DELSERVER'', ''LISTSERVERS'', ''AddTrustedServerFingerprint'',
      ''DelTrustedServerFingerprint'', ''ListTrustedServerFingerprints'', ''TOPICS'', ''LISTMODS'', ''LISTMODULES'',
      ''LISTAVAILMODS'', ''LISTAVAILABLEMODULES'', ''LOADMOD'', ''LOADMODULE'', ''UNLOADMOD'', ''UNLOADMODULE'',
      ''RELOADMOD'', ''RELOADMODULE'', ''UPDATEMOD'', ''UPDATEMODULE'', ''SETBINDHOST'', ''SETVHOST'', ''SETUSERBINDHOST'',
      ''CLEARBINDHOST'', ''CLEARVHOST'', ''CLEARUSERBINDHOST'', ''SHOWBINDHOST'', ''PLAYBUFFER'', ''CLEARBUFFER'',
      ''CLEARALLCHANNELBUFFERS'', ''CLEARALLQUERYBUFFERS'', ''CLEARALLBUFFERS'', ''SETBUFFER'', ''TRAFFIC'', ''UPTIME'',
      ''LISTPORTS'', ''ADDPORT'', ''DELPORT'']"
  by (simp add: usable_def table_names_def command_table_def may_bind_def)

lemma usable_bind: "\<not> cu_bAdmin u \<Longrightarrow> may_bind u \<Longrightarrow> usable u =
     [''HELP'', ''LISTNICKS'', ''ATTACH'', ''DETACH'', ''VERSION'', ''MOTD'', ''ShowMOTD'', ''LISTCLIENTS'', ''JUMP'',
      ''CONNECT'', ''DISCONNECT'', ''ENABLECHAN'', ''DISABLECHAN'', ''MOVECHAN'', ''SWAPCHANS'', ''LISTCHANS'',
      ''ADDNETWORK'', ''DELNETWORK'', ''LISTNETWORKS'', ''MOVENETWORK'', ''JUMPNETWORK'', ''ADDSERVER'', ''REMSERVER'',
      ''DELSERVER'', ''LISTSERVERS'', ''AddTrustedServerFingerprint'', ''DelTrustedServerFingerprint'',
      ''ListTrustedServerFingerprints'', ''TOPICS'', ''LISTMODS'', ''LISTMODULES'', ''LISTAVAILMODS'',
      ''LISTAVAILABLEMODULES'', ''LOADMOD'', ''LOADMODULE'', ''UNLOADMOD'', ''UNLOADMODULE'', ''RELOADMOD'',
      ''RELOADMODULE'', ''SETBINDHOST'', ''SETVHOST'', ''SETUSERBINDHOST'', ''CLEARBINDHOST'', ''CLEARVHOST'',
      ''CLEARUSERBINDHOST'', ''SHOWBINDHOST'', ''PLAYBUFFER'', ''CLEARBUFFER'', ''CLEARALLCHANNELBUFFERS'',
      ''CLEARALLQUERYBUFFERS'', ''CLEARALLBUFFERS'', ''SETBUFFER'', ''UPTIME'']"
  by (simp add: usable_def table_names_def command_table_def)

lemma usable_rest: "\<not> cu_bAdmin u \<Longrightarrow> \<not> may_bind u \<Longrightarrow> usable u =
     [''HELP'', ''LISTNICKS'', ''ATTACH'', ''DETACH'', ''VERSION'', ''MOTD'', ''ShowMOTD'', ''LISTCLIENTS'', ''JUMP'',
      ''CONNECT'', ''DISCONNECT'', ''ENABLECHAN'', ''DISABLECHAN'', ''MOVECHAN'', ''SWAPCHANS'', ''LISTCHANS'',
      ''ADDNETWORK'', ''DELNETWORK'', ''LISTNETWORKS'', ''MOVENETWORK'', ''JUMPNETWORK'', ''ADDSERVER'', ''REMSERVER'',
      ''DELSERVER'', ''LISTSERVERS'', ''AddTrustedServerFingerprint'', ''DelTrustedServerFingerprint'',
      ''ListTrustedServerFingerprints'', ''TOPICS'', ''LISTMODS'', ''LISTMODULES'', ''LISTAVAILMODS'',
      ''LISTAVAILABLEMODULES'', ''LOADMOD'', ''LOADMODULE'', ''UNLOADMOD'', ''UNLOADMODULE'', ''RELOADMOD'',
      ''RELOADMODULE'', ''SHOWBINDHOST'', ''PLAYBUFFER'', ''CLEARBUFFER'', ''CLEARALLCHANNELBUFFERS'',
      ''CLEARALLQUERYBUFFERS'', ''CLEARALLBUFFERS'', ''SETBUFFER'', ''UPTIME'']"
  by (simp add: usable_def table_names_def command_table_def)

lemma lower_letters:
  "tolower_c (CHR ''A'') = CHR ''a''" "tolower_c (CHR ''B'') = CHR ''b''" "tolower_c (CHR ''C'') = CHR ''c''"
  "tolower_c (CHR ''D'') = CHR ''d''" "tolower_c (CHR ''E'') = CHR ''e''" "tolower_c (CHR ''F'') = CHR ''f''"
  "tolower_c (CHR ''H'') = CHR ''h''" "tolower_c (CHR ''I'') = CHR ''i''" "tolower_c (CHR ''J'') = CHR ''j''"
  "tolower_c (CHR ''K'') = CHR ''k''" "tolower_c (CHR ''L'') = CHR ''l''" "tolower_c (CHR ''M'') = CHR ''m''"
  "tolower_c (CHR ''N'') = CHR ''n''" "tolower_c (CHR ''O'') = CHR ''o''" "tolower_c (CHR ''P'') = CHR ''p''"
  "tolower_c (CHR ''Q'') = CHR ''q''" "tolower_c (CHR ''R'') = CHR ''r''" "tolower_c (CHR ''S'') = CHR ''s''"
  "tolower_c (CHR ''T'') = CHR ''t''" "tolower_c (CHR ''U'') = CHR ''u''" "tolower_c (CHR ''V'') = CHR ''v''"
  "tolower_c (CHR ''W'') = CHR ''w''" "tolower_c (CHR ''Y'') = CHR ''y''" "tolower_c (CHR ''a'') = CHR ''a''"
  "tolower_c (CHR ''b'') = CHR ''b''" "tolower_c (CHR ''c'') = CHR ''c''" "tolower_c (CHR ''d'') = CHR ''d''"
  "tolower_c (CHR ''e'') = CHR ''e''" "tolower_c (CHR ''f'') = CHR ''f''" "tolower_c (CHR ''g'') = CHR ''g''"
  "tolower_c (CHR ''h'') = CHR ''h''" "tolower_c (CHR ''i'') = CHR ''i''" "tolower_c (CHR ''k'') = CHR ''k''"
  "tolower_c (CHR ''l'') = CHR ''l''" "tolower_c (CHR ''m'') = CHR ''m''" "tolower_c (CHR ''n'') = CHR ''n''"
  "tolower_c (CHR ''o'') = CHR ''o''" "tolower_c (CHR ''p'') = CHR ''p''" "tolower_c (CHR ''r'') = CHR ''r''"
  "tolower_c (CHR ''s'') = CHR ''s''" "tolower_c (CHR ''t'') = CHR ''t''" "tolower_c (CHR ''u'') = CHR ''u''"
  "tolower_c (CHR ''v'') = CHR ''v''" "tolower_c (CHR ''w'') = CHR ''w''" "tolower_c (CHR ''y'') = CHR ''y''"
  by code_simp+

definition lower_key :: "string \<Rightarrow> string" where
  "lower_key s = AsLower (c_str s)"

lemma lower_key_Nil [simp]: "lower_key [] = []"
  by (simp add: lower_key_def AsLower_def)

lemma lower_key_Cons: "c \<noteq> NUL \<Longrightarrow> lower_key (c # s) = tolower_c c # lower_key s"
  by (simp add: lower_key_def AsLower_def)

lemmas lower_keys = lower_key_Cons lower_letters

lemma list_all_when: "list_all P (if b then xs else []) \<longleftrightarrow> (b \<longrightarrow> list_all P xs)"
  by simp

text \<open>A predicate of the lowered name that holds of every usable name holds of every name in the help.\<close>

lemma help_of_usable_admin:
  assumes "cu_bAdmin u" and "\<forall>n \<in> set (usable u). P (lower_key n)"
  shows "list_all (\<lambda>e. P (lower_key (fst e))) (help_entries u)"
proof -
  have "list_all (\<lambda>n. P (lower_key n)) (usable u)" using assms(2) by (simp add: list_all_iff)
  then show ?thesis
    by (simp add: usable_admin [OF assms(1)] help_entries_def assms(1) list_all_when lower_keys)
qed

lemma help_of_usable_bind:
  assumes "\<not> cu_bAdmin u" and "may_bind u" and "\<forall>n \<in> set (usable u). P (lower_key n)"
  shows "list_all (\<lambda>e. P (lower_key (fst e))) (help_entries u)"
proof -
  have "list_all (\<lambda>n. P (lower_key n)) (usable u)" using assms(3) by (simp add: list_all_iff)
  then show ?thesis
    by (simp add: usable_bind [OF assms(1,2)] help_entries_def assms(1) list_all_when lower_keys)
qed

lemma help_of_usable_rest:
  assumes "\<not> cu_bAdmin u" and "\<not> may_bind u" and "\<forall>n \<in> set (usable u). P (lower_key n)"
  shows "list_all (\<lambda>e. P (lower_key (fst e))) (help_entries u)"
proof -
  have no_bind: "cu_bDenySetBindHost u" using assms(1,2) by (simp add: may_bind_def)
  have "list_all (\<lambda>n. P (lower_key n)) (usable u)" using assms(3) by (simp add: list_all_iff)
  then show ?thesis
    by (simp add: usable_rest [OF assms(1,2)] help_entries_def assms(1) no_bind list_all_when lower_keys)
qed

lemma help_known: "list_all (\<lambda>e. known_name (table_names u) (fst e)) (help_entries u)"
proof -
  have "list_all (\<lambda>e. lower_key (fst e) \<in> lower_key ` set (usable u)) (help_entries u)"
    by (cases "cu_bAdmin u"; cases "may_bind u")
       (auto intro: help_of_usable_admin help_of_usable_bind help_of_usable_rest)
  then show ?thesis
    unfolding list_all_iff known_usable equals_ci_iff lower_key_def by blast
qed

end
