(* ===== verification/Home_Commands.thy ===== *)
theory Home_Commands imports Home_State Commands begin

text \<open>
  The client of the user of Home_State, who is no administrator, on his network: a state and
  surroundings in which commands run, for the witness of the theorem on commands.
\<close>

definition home_cmd :: cmd_env where
  "home_cmd =
     \<lparr>ke_znc = home_env, ke_OnStatusCommand = (\<lambda>l. (False, l)), ke_OnBroadcast = (\<lambda>u m. Some m), ke_pIRCSock = (\<lambda>u n. None),
      ke_bConnected = (\<lambda>u n. False), ke_this = 0, ke_vClients = (\<lambda>u. []),
      ke_play = \<lparr>BufferStarting_skips = (\<lambda>i. False), BufferEnding_skips = (\<lambda>i. False), BufferPlayMessage = (\<lambda>m. (False, m)),
        name_MD5 = (\<lambda>s. s)\<rparr>,
      ke_set_order = (\<lambda>is. is), ke_ExpandString = (\<lambda>s. s), ke_sTag = ''ZNC'', ke_sCompileOptions = [], ke_sUptime = ''1s'',
      ke_sConfigFile = ''/znc.conf'', ke_write = \<lparr>wo_bOpen = True, wo_bLock = True, wo_bError = False, wo_bMove = True\<rparr>,
      ke_read = read_ok, ke_chunks = (\<lambda>fs. case cf_conf fs of Some t \<Rightarrow> [t] | None \<Rightarrow> []), ke_avail = (\<lambda>t. []),
      ke_GetDefaultType = (\<lambda>m. UserModule), ke_sModdata = (\<lambda>u n. ''/old''), ke_sNewNetPath = (\<lambda>u n. ''/new''),
      ke_bOtherFiles = (\<lambda>p. False), ke_bytes = (\<lambda>u. (0, 0)), ke_bytes_znc = (0, 0), ke_sockets = []\<rparr>"

definition home_client :: cmd_state where
  "home_client = \<lparr>cs_znc = home_znc ''hello'', cs_sUser = ''bob'', cs_pNetwork = Some 1,
     cs_files = \<lparr>cf_conf = None, cf_tmp = None\<rparr>, cs_ev = []\<rparr>"

lemma home_client_user: "FindUser (cs_sUser home_client) (cs_znc home_client) = Some home_bob"
  by (simp add: home_client_def home_znc_def FindUser_def)

lemma home_bob_plain: "\<not> cu_bAdmin home_bob"
  by (simp add: home_bob_def mk_cuser_def)

end
