(* ===== verification/Spec2Isabelle.thy ===== *)
theory Spec2Isabelle
  imports Wildcmp Base64 Mcstring Buffer Chan_Facts Relay_Facts Client_Spec Home_Commands
begin

text \<open>
ZNC is an IRC bouncer: it keeps connections to IRC servers open for its users, answers the
  users' clients in place of the server, and plays back what they missed. This development
  models its core (src/*.cpp, include/znc/*.h) and proves what makes each part correct.

  How the parts interact. A line from an IRC server enters CIRCSock::ReadLine, is parsed into a
  CMessage, shown to the modules, changes channels, nicks and buffers of the CIRCNetwork and is
  relayed to the attached clients (CClient::PutClient), each with the tags and the NAMES format
  it understands. A line from a client enters CClient::ReadLine; before the login it can only
  negotiate capabilities and authenticate, afterwards it changes the network or is sent to the
  server through the flood-protected queue of CIRCSock. CUser owns networks, CZNC users; both
  load and store their settings through CConfig. Modules see every step through hooks.

  Conventions. A class is a record, with the names of its members; an operation has the name of
  the method (with a prefix where two classes share it) and returns the changed record, together
  with the lines it sends: to the server as strings, to clients as \<open>client_out\<close> values. A null
  pointer or an error is an \<open>option\<close> or a sum, an undefined or endless run is None. Strings are
  lists of bytes; \<open>c_str\<close> cuts at NUL where the code goes through C strings. std::map and
  std::set are association lists with increasing keys (Ordered_Map). Integers are numbers with
  the wrap-around written out where the code can reach it, or words. What the code asks of the
  world (clock, hooks of loaded modules, files, dynamic loader, ICU, OpenSSL, random numbers) is
  an argument; assumptions on it are named predicates such as \<open>hooks_ok\<close> or \<open>loader_ok\<close>.

  Theories and sources.
    \<^item> Znc_Prelude, Ordered_Map: shared lemmas, the ordered map and its locale \<open>kv_store\<close>.
    \<^item> Cstring, Tokens, Cstring_Num, Escape, Base64, Wildcmp, Format, Mcstring (ZNCString.cpp):
      comparison and trimming, Token, Split and Replace, numbers, the nine escape formats (locale
      \<open>char_codec\<close>), base64, masks, NamedFormat, registry files.
    \<^item> File_Lines (FileUtils.cpp, ReadLine); Config, Config_Print, Settings (Config.cpp): the
      parser, the writer, the lookups that consume entries, and that they undo each other.
    \<^item> Nick, Message, Buffer (locale \<open>bounded_log\<close>): CNick, CMessage, CBuffer.
    \<^item> Ircsock, Send_Queue (locale \<open>rate_limited_queue\<close>), Cap_Negotiation, Server_Tables,
      Irc_Handlers, Irc_Numerics (IRCSock.cpp): flood protection, capabilities, ISUPPORT tables,
      registration, every message handler, the dispatch of numerics, the ends of a connection;
      World_Facts and Handler_Facts have the invariant of the state and that a line keeps it.
    \<^item> Chan, Chan_Facts, Chan_Clients (Chan.cpp, Query.cpp), Server (Server.cpp), Network,
      Network_Facts (IRCNetwork.cpp), Relay_Facts: channels, playback, servers, joining.
    \<^item> Client, Client_Session, Client_Caps, Client_Handlers (Client.cpp, parts of User.cpp, znc.cpp
      and modules/saslplainauth.cpp); Client_Facts (locale \<open>client_stable\<close>), Client_Reach and
      Client_Spec: what every step keeps, the reachable states, what the replies contain.
    \<^item> Loaded_Modules (Modules.cpp): list of modules, dispatch of a hook, loading, commands.
    \<^item> Network_Config, Network_Roundtrip (IRCNetwork.cpp), User_Config, User_Roundtrip (User.cpp):
      setters, ParseConfig, ToConfig, Clone, and that they give the settings back.
    \<^item> Znc_Config, Znc_Roundtrip, Znc_Text (znc.cpp, Listener.cpp): global settings, listeners,
      users, LoadGlobal, LoadListeners, LoadUsers, ReadConfig, RehashConfig, WriteConfig, and that
      a file that was written is read back completely; Home_State is an installation for which
      the conditions of these theorems hold.
    \<^item> Text_Table (CTable of Utils.cpp): the tables; all lines of a grid are equally long.
    \<^item> Command_State, Command_Lists, Command_Net, Command_Admin, Commands (ClientCommand.cpp and
      the operations of znc.cpp it calls): the command interpreter of a client, over the whole
      installation; one definition per command, and a table with names and guards in the order of
      the code. Proved of it: what a command of a user who is no administrator can change
      (\<open>confined\<close>), and that the help lists only commands there are. Home_Commands is a client in
      the installation of Home_State.

  Kinds of lemmas. Round trips (configuration text, messages, escapes, registry, servers, mode
  strings, credentials, SASL); confinement of the commands of a user;
  invariants kept by every operation (\<open>world_inv\<close>, \<open>nets_inv\<close>,
  \<open>caps_ok\<close>, \<open>type_ok\<close>, \<open>mods_unique\<close>); refinements of an abstract specification (newest entries of a log,
  rate-limited queue, playback); equivalences with reference definitions (masks, tokens);
  termination or its failure (Token, alternative nicks, UnloadAll); bounds of lines (99, 400, 401,
  490, 512 bytes) and of a SASL answer (10240 bytes).

  Bounds and fuel. The dialogues with a server are runs of as many steps as the theorem names:
  two replies for each waiting capability end the negotiation, one hundred refusals the search
  for a nick; both are proved to be enough. Loops that may not end are \<open>partial_function\<close>s
  whose value exists exactly when the loop ends (Token, Split, Replace, UnloadAll).

  Not modelled. The socket library and TLS, threads, HTTP and the web interface, the language
  bindings, translations (a text is its English original), terminal output, file and process
  handling except for reading lines, the registry and the configuration file, and the loadable modules except for
  saslplainauth: all of it input and output around the core, third-party code, or features on
  top of the hook interface, which stands in the model as arbitrary functions.
\<close>

section \<open>Properties\<close>





text \<open>
  C3. The configuration file is read back as it was written: for every tree of entries and
  blocks whose names and values fit the line format, the parser run on the lines of the
  writer, in whatever chunks read(2) delivers them, gives the same tree with its names in
  lower case, and the very same tree if they were in lower case.
\<close>

theorem config_roundtrip:
  assumes "config_writable c" and "[] \<notin> set chunks" and "concat chunks = concat (Config_Write 0 c)"
  shows "Config_Parse (open_file chunks) empty_config = Inr (lower_config c) \<and>
    (config_printable c \<longrightarrow> lower_config c = c)"
  using Config_Parse_Write [OF assms] Config_Parse_Write_lower [OF _ assms(2,3)] by auto

theorem config_roundtrip_witness:
  "Config_Parse (open_file [concat (Config_Write 0 (Config [(''Nick'', [''Bob''])]
      [(''User'', [(''Bob'', Config [(''Pass'', ['' x''])] [] [])])] [(''User'', [''Bob''])]))]) empty_config =
   Inr (lower_config (Config [(''Nick'', [''Bob''])]
      [(''User'', [(''Bob'', Config [(''Pass'', ['' x''])] [] [])])] [(''User'', [''Bob''])]))"
  by (rule config_roundtrip [THEN conjunct1]) (code_simp, code_simp, simp)

definition sample_message :: message where
  "sample_message = Message_Parse ''@k=a;t :n!i@h PRIVMSG #c :hi you'' empty_message"

text \<open>
  C4. An IRC message whose parts fit the line syntax is printed by ToString without an out-of-
  range read, and Parse of that line gives the same tags, sender, command, parameters and
  type; only the flag for a trailing colon may become set.
\<close>

theorem message_roundtrip:
  assumes "message_ok m"
  shows "\<exists>s. ToString_flags False False m = Some s \<and>
    Message_Parse s (empty_message \<lparr>m_time := m_time m, m_pChan := m_pChan m\<rparr>) =
    m \<lparr>m_bColon := colon_after m\<rparr>"
  using ToString_words [OF assms] Parse_ToString_words [OF assms] by blast

theorem message_roundtrip_witness:
  "\<exists>s. ToString_flags False False sample_message = Some s \<and>
    Message_Parse s (empty_message \<lparr>m_time := m_time sample_message, m_pChan := m_pChan sample_message\<rparr>) =
    sample_message \<lparr>m_bColon := colon_after sample_message\<rparr>"
  by (rule message_roundtrip) code_simp

text \<open>
  C5. WildCmp, which keeps a single saved position for the last star, decides exactly the
  masks' meaning: the recursive matcher that tries every way to read each star, on both case
  modes.
\<close>

theorem wildcmp_meaning:
  assumes "nul_free sWild" and "nul_free sString"
  shows "WildCmp sWild sString cs = wild_match (fold_case cs sWild) (fold_case cs sString)"
  by (rule WildCmp_match [OF assms])

theorem wildcmp_meaning_witness:
  "WildCmp ''*!?x*y'' ''a!bXcy'' CaseInsensitive =
   wild_match (fold_case CaseInsensitive ''*!?x*y'') (fold_case CaseInsensitive ''a!bXcy'')"
  by (rule wildcmp_meaning) simp_all

text \<open>
  C6. For every one of the eight escape formats, unescaping what Escape_n produced gives the
  original bytes, NUL and control bytes included.
\<close>

theorem escape_roundtrip: "Escape_n e EASCII (Escape_n EASCII e s) = s"
  using Escape_n_hexcolon Escape_n_roundtrip [OF codec_formats] by (cases "e = EHEXCOLON") simp_all

text \<open>
  C7. The stored message type is the one computed from command and parameters after Parse and
  after each of the setters, although SetParam and SetParams recompute it only for the text-
  like types.
\<close>

theorem message_type_invariant:
  assumes "type_ok m"
  shows "type_ok (SetCommand c m) \<and> type_ok (SetParams vs m) \<and> type_ok (SetParam i p m) \<and>
    type_ok (Message_Parse s m)"
  using assms by simp

theorem message_type_invariant_witness:
  "type_ok (SetCommand ''NOTICE'' (mk_message (\<lambda>s. (0, 0)) (1, 2) ''PRIVMSG a :b'')) \<and>
   type_ok (SetParams [''x''] (mk_message (\<lambda>s. (0, 0)) (1, 2) ''PRIVMSG a :b'')) \<and>
   type_ok (SetParam 1 ''y'' (mk_message (\<lambda>s. (0, 0)) (1, 2) ''PRIVMSG a :b'')) \<and>
   type_ok (Message_Parse ''PING'' (mk_message (\<lambda>s. (0, 0)) (1, 2) ''PRIVMSG a :b''))"
  by (rule message_type_invariant) simp

text \<open>
  C8. The loops of Token return for every separator that is not empty (and has no NUL), with
  the value of the total definition used everywhere else; for the empty separator with empty
  tokens not allowed they never return.
\<close>

theorem token_termination:
  assumes "proper_sep sSep"
  shows "Token_c s n r sSep ae = Some (Token s n r sSep ae) \<and> Token_c s n r [] False = None"
  using assms by (simp add: Token_c_returns Token_c_empty_sep)

theorem token_termination_witness:
  "Token_c ''a,b'' 1 False '','' True = Some (Token ''a,b'' 1 False '','' True) \<and> Token_c ''a,b'' 1 False [] False = None"
  by (rule token_termination) code_simp

text \<open>
  C9. The registry file of a module is read back as it was written: ReadFromDisk of the bytes
  of WriteToDisk gives the map without its empty key, whatever bytes keys and values hold.
\<close>

theorem registry_roundtrip:
  assumes "om_ok m" and "[] \<notin> set chunks" and "concat chunks = WriteToDisk m"
  shows "ReadFromDisk (open_file chunks) = filter (\<lambda>e. fst e \<noteq> []) m"
  by (rule ReadFromDisk_WriteToDisk [OF assms])

theorem registry_roundtrip_witness:
  "ReadFromDisk (open_file [WriteToDisk [(''a b'', ''%'')]]) = filter (\<lambda>e. fst e \<noteq> []) [(''a b'', ''%'')]"
  by (rule registry_roundtrip) (code_simp, code_simp, simp)

text \<open>
  C10. Base64Decode undoes Base64Encode for every byte string and every wrapping width.
\<close>

theorem base64_roundtrip: "Base64Decode_n (Base64Encode_n s uWrap) = s"
  by (rule Base64_roundtrip)

text \<open>
  C11. The playback buffer refines a log of its newest entries: after any sequence of AddLine
  calls it holds the last m_uLineCount lines of everything added, in order.
\<close>

theorem buffer_keeps_newest:
  assumes "buffer_ok b"
  shows "b_lines (fold add_line ls b) = newest (b_uLineCount b) (b_lines b @ ls)"
  using assms by (simp add: buffer_ok_buf buf.entries_adds)

theorem buffer_keeps_newest_witness:
  "b_lines (fold add_line [mk_bufline empty_message ''a'', mk_bufline empty_message ''b''] (empty_buffer 1)) =
   newest (b_uLineCount (empty_buffer 1)) (b_lines (empty_buffer 1) @
     [mk_bufline empty_message ''a'', mk_bufline empty_message ''b''])"
  by (rule buffer_keeps_newest) simp

definition plain_env :: env where
  "plain_env = \<lparr>e_now = (0, 0), e_parse_time = (\<lambda>s. (0, 0)), e_millis = 0,
     OnSendToIRCMessage = (\<lambda>m. (False, m)), OnSendToIRC = (\<lambda>l. (False, l)),
     OnServerCapAvailable = (\<lambda>c v. False), ServerCapBlacklist = [],
     e_delay_long = (\<lambda>n. 600 < 2 * n), e_flood_warning = (\<lambda>n. ''Warning'')\<rparr>"

text \<open>
  C12. Flood protection refines a rate-limited queue: after any interleaving of messages given
  to PutIRC and ticks of the flood timer on a fresh socket, the lines on the wire are the
  messages of a prefix of the submissions, in order, each as the tag filter and the module
  hooks leave it; the rest waits in the queue; at most burst plus ticks messages were sent,
  and nothing waits while sending is allowed.
\<close>

theorem flood_fifo:
  assumes "0 < b" and "b \<le> 32767" and "s = flood_run E es (mk_ircsock b True i h)"
  shows "\<exists>n \<le> b + ticks es. m_vSendQueue s = drop n (puts es) \<and>
    s_wire s = concat (map (emit E s) (take n (puts es))) \<and>
    (m_vSendQueue s \<noteq> [] \<longrightarrow> m_iSendsAllowed s = 0)"
  by (rule flood_run_fresh [OF assms])

theorem flood_fifo_witness:
  "\<exists>n \<le> 1 + ticks [Put empty_message, Put empty_message, Tick].
    m_vSendQueue (flood_run plain_env [Put empty_message, Put empty_message, Tick] (mk_ircsock 1 True ''i'' ''h'')) =
      drop n (puts [Put empty_message, Put empty_message, Tick]) \<and>
    s_wire (flood_run plain_env [Put empty_message, Put empty_message, Tick] (mk_ircsock 1 True ''i'' ''h'')) =
      concat (map (emit plain_env
        (flood_run plain_env [Put empty_message, Put empty_message, Tick] (mk_ircsock 1 True ''i'' ''h'')))
        (take n (puts [Put empty_message, Put empty_message, Tick]))) \<and>
    (m_vSendQueue (flood_run plain_env [Put empty_message, Put empty_message, Tick] (mk_ircsock 1 True ''i'' ''h'')) \<noteq> []
      \<longrightarrow> m_iSendsAllowed
        (flood_run plain_env [Put empty_message, Put empty_message, Tick] (mk_ircsock 1 True ''i'' ''h'')) = 0)"
  by (rule flood_fifo [OF _ _ refl]) simp_all



text \<open>
  C14. A configured burst above 32767 does not fit the signed short that counts the allowed
  sends: on a fresh socket nothing at all is written, not even the registration, during the
  first 65536 - burst ticks.
\<close>

theorem flood_burst_stall:
  assumes "32768 \<le> b" and "b \<le> 65535" and "ticks es \<le> 65536 - b"
  shows "s_wire (flood_run E es (mk_ircsock b True i h)) = []"
proof -
  have "(int b + 32768) mod 65536 = (int b + 32768 - 65536) mod 65536" by (simp only: minus_mod_self2)
  also have "\<dots> = int b - 32768" using assms(1,2) by (subst mod_pos_pos_trivial) simp_all
  finally have "to_signed 16 (int b) = int b - 65536" by (simp add: to_signed_def)
  then have "m_iSendsAllowed (mk_ircsock b True i h) = int b - 65536" by (simp add: mk_ircsock_def)
  with flood_run_stall [OF assms, of "mk_ircsock b True i h" b E] assms show ?thesis
    by (simp add: mk_ircsock_def)
qed

theorem flood_burst_stall_witness:
  "s_wire (flood_run plain_env [Put empty_message, Tick, Tick] (mk_ircsock 40000 True ''i'' ''h'')) = []"
  by (rule flood_burst_stall) simp_all

definition two_caps :: ircsock where
  "two_caps = (mk_ircsock 4 False ''i'' ''h'') \<lparr>m_ssPendingCaps := [''a'', ''b'']\<rparr>"

text \<open>
  C15. Capability negotiation ends: with a server that answers each request by ACK if it knows
  all its capabilities and by NAK otherwise, the socket runs out of requests after at most two
  replies per waiting capability and then ends the negotiation; exactly the waiting
  capabilities the server knows have been added to the accepted ones, and the sets keep their
  invariant.
\<close>

theorem cap_negotiation_ends:
  assumes "caps_ok s" and "m_uCapPaused s = 0" and "\<forall>c \<in> open_caps s. cap_name_ok c" and "cap_work s \<le> n"
  shows "\<exists>s1. cap_dialog E srv n (next_request s) (SendNextCap E s) = (None, SendNextCap E s1) \<and>
    m_ssPendingCaps s1 = [] \<and> m_ssPendingCapsPhase2 s1 = [] \<and> m_uCapPaused s1 = 0 \<and>
    m_bAuthed s1 = m_bAuthed s \<and> caps_ok s1 \<and> set (m_ssAcceptedCaps s1) = cap_goal srv s"
  by (rule cap_dialog_ends [OF assms])

theorem cap_negotiation_ends_witness:
  "\<exists>s1. cap_dialog plain_env (\<lambda>c. c = ''a'') 4 (next_request two_caps) (SendNextCap plain_env two_caps) =
      (None, SendNextCap plain_env s1) \<and>
    m_ssPendingCaps s1 = [] \<and> m_ssPendingCapsPhase2 s1 = [] \<and> m_uCapPaused s1 = 0 \<and>
    m_bAuthed s1 = m_bAuthed two_caps \<and> caps_ok s1 \<and>
    set (m_ssAcceptedCaps s1) = cap_goal (\<lambda>c. c = ''a'') two_caps"
  by (rule cap_negotiation_ends)
    (simp_all add: two_caps_def mk_ircsock_def caps_ok_def open_caps_def cap_name_ok_def cap_work_def
      nul_free_def less_list_code)

text \<open>
  C16. A capability request names a non-empty prefix of the waiting capabilities, taken off
  the waiting set, and is longer than 99 bytes only if its first name alone is.
\<close>

theorem cap_request_bound:
  assumes "m_uCapPaused s = 0" and "m_ssPendingCaps s \<noteq> []"
  shows "\<exists>caps rest. caps \<noteq> [] \<and> m_ssPendingCaps s = caps @ rest \<and>
    SendNextCap E s = PutIRC E (''CAP REQ :'' @ Join '' '' caps) (s \<lparr>m_ssPendingCaps := rest\<rparr>) \<and>
    length (Join '' '' caps) \<le> max (length (hd caps)) 99"
proof -
  obtain caps rest s1 where "caps \<noteq> []" "SendNextCap E s = PutIRC E (''CAP REQ :'' @ Join '' '' caps) s1"
    "length (Join '' '' caps) \<le> max (length (hd caps)) 99"
    "m_ssPendingCaps s = caps @ rest \<and> s1 = s \<lparr>m_ssPendingCaps := rest\<rparr> \<or> m_ssPendingCaps s = []"
    using assms SendNextCap_request [of s E] by metis
  then show ?thesis using assms(2) by blast
qed

theorem cap_request_bound_witness:
  "\<exists>caps rest. caps \<noteq> [] \<and> m_ssPendingCaps two_caps = caps @ rest \<and>
    SendNextCap plain_env two_caps =
      PutIRC plain_env (''CAP REQ :'' @ Join '' '' caps) (two_caps \<lparr>m_ssPendingCaps := rest\<rparr>) \<and>
    length (Join '' '' caps) \<le> max (length (hd caps)) 99"
  by (rule cap_request_bound) (simp_all add: two_caps_def mk_ircsock_def)

text \<open>
  C17. Every capability message keeps the capability state consistent: the accepted and
  waiting sets stay ordered sets, the values an ordered map, and messages are sent with tags
  exactly when message-tags is among the accepted capabilities.
\<close>

theorem caps_invariant:
  assumes "caps_ok s"
  shows "caps_ok (snd (OnCapabilityMessage E m s))"
  by (rule caps_ok_OnCapabilityMessage [OF assms])

theorem caps_invariant_witness:
  "caps_ok (snd (OnCapabilityMessage plain_env
     (empty_message \<lparr>m_vsParams := [''*'', ''LS'', ''message-tags b=1'']\<rparr>) (mk_ircsock 4 True ''i'' ''h'')))"
  by (rule caps_invariant) (simp add: caps_ok_def mk_ircsock_def)

text \<open>
  C18. The search for a free nick ends: if the configured nick leaves room for a suffix and
  the alternative nick is not the configured one with a caret or a z appended, then a server
  that refuses every nick closes the socket after at most one hundred refusals.
\<close>

theorem alt_nick_bounded:
  assumes "alt_ok sConf sAlt" and "\<not> IsClosed s" and "m_sNick (sock_Nick s) = sConf"
    and "length sConf < m_uMaxNickLen s" and "m_uMaxNickLen s \<le> 2 ^ 32"
  shows "\<exists>k \<le> 100. IsClosed (refusals E sConf sAlt sQuit k s)"
  using gives_up_from_conf [OF assms(1,4,5)] refusals_alt_run [OF assms(2)] assms(3)
  by (simp add: gives_up_def)

theorem alt_nick_bounded_witness:
  "\<exists>k \<le> 100. IsClosed (refusals plain_env ''bob'' ''bob2'' ''bye'' k
     ((mk_ircsock 4 True ''i'' ''h'') \<lparr>sock_Nick := mk_nick ''bob''\<rparr>))"
  by (rule alt_nick_bounded) (code_simp, code_simp, code_simp, code_simp, simp add: mk_ircsock_def)



definition quiet_user :: user where
  "quiet_user = \<lparr>u_AutoClearChanBuffer = True, u_AutoClearQueryBuffer = True, u_ChanBufferSize = 50, u_QueryBufferSize = 50,
     u_MaxQueryBuffers = 50, u_MaxJoins = 0, u_JoinTries = 10, u_DefaultChanModes = [], u_CTCPReplies = [],
     u_MaxBufferSize = 500\<rparr>"

definition quiet_henv :: henv where
  "quiet_henv = \<lparr>h_env = plain_env, h_user = quiet_user,
     h_join = \<lparr>OnJoining = (\<lambda>c. False), OnTimerAutoJoin = (\<lambda>c. False), j_start = 0, j_set_order = (\<lambda>is. is)\<rparr>,
     h_OnRaw = (\<lambda>l. (False, l)), h_hook = (\<lambda>h m. (False, m)), h_user_get = (\<lambda>k. ''x''), h_user_expand = (\<lambda>s. s),
     h_time = 0, h_tag = ''ZNC''\<rparr>"

definition fresh_world :: world where
  "fresh_world = \<lparr>w_sock = mk_ircsock 4 False ''i'' ''h'', w_net = mk_network ''net'', w_ssl = False\<rparr>"

lemma fresh_world_inv: "world_inv fresh_world"
  by (simp add: fresh_world_def world_inv_def sock_inv_def caps_ok_def net_inv_def mk_network_def)
    (simp add: mk_ircsock_def)

text \<open>
  C20. Whatever line the server sends, and whatever the module hooks answer, the state stays
  well formed: nicks filed under their own name with a duplicate-free permission string,
  ordered mode and nick maps, every buffer within its limit, prefix tables of equal length,
  consistent capability sets.
\<close>

theorem server_line_invariant:
  assumes "world_inv w" and "ReadLine H sLine w = Some w1"
  shows "world_inv w1"
  by (rule world_inv_ReadLine [OF assms])

theorem server_line_invariant_witness:
  "world_inv (the (ReadLine quiet_henv ''PING :x'' fresh_world))"
proof (rule server_line_invariant [OF fresh_world_inv])
  have 1: "Replace_n (Replace_n ''PING :x'' [CHR 0x0A] []) [CHR 0x0D] [] = ''PING :x''" by code_simp
  have 2: "(m_eType (line_message plain_env ''PING :x'') = TNumeric) = False" by code_simp
  have "dispatch_irc quiet_henv (line_message plain_env ''PING :x'') fresh_world \<noteq> None"
    using 2 by (simp add: dispatch_irc_None)
  then show "ReadLine quiet_henv ''PING :x'' fresh_world = Some (the (ReadLine quiet_henv ''PING :x'' fresh_world))"
    using 1 by (simp add: ReadLine_def Let_def quiet_henv_def split_beta)
qed

text \<open>
  C21. A line from the server makes the code read through a null pointer in exactly one case:
  a 010 redirect, not stopped by a module, while the network has no current server, as after
  the removal of its last server.
\<close>

theorem server_line_defined:
  "dispatch_irc H m w = None \<longleftrightarrow> m_eType m = TNumeric \<and> Numeric_GetCode m = 10 \<and>
     GetCurrentServer (w_net w) = None \<and> \<not> fst (run_hooks H [''OnNumericMessage''] m)"
  by (rule dispatch_irc_None)

definition braces_message :: message where
  "braces_message = Message_Parse '':n{!i@h PRIVMSG #c :{text} you'' empty_message"

definition modern_client :: client where
  "modern_client = \<lparr>cl_caps = \<lparr>HasServerTime = True, AddTimestamp = (\<lambda>t s. s), FormatServerTime = (\<lambda>t. [])\<rparr>,
     cl_HasNamesx = False, cl_HasUHNames = False, cl_HasBatch = False, cl_HasChgHost = False, cl_HasEchoMessage = False,
     cl_HasSelfMessage = False, cl_IsAway = False, cl_sNick = ''me''\<rparr>"

definition play_env :: play_hooks where
  "play_env = \<lparr>BufferStarting_skips = (\<lambda>i. False), BufferEnding_skips = (\<lambda>i. False),
     BufferPlayMessage = (\<lambda>m. (False, m)), name_MD5 = (\<lambda>s. s)\<rparr>"



text \<open>
  C23. When someone else quits, the nick is gone from every channel and every other nick stays
  as it was; the line is hidden from the clients exactly when no attached channel had the
  nick.
\<close>

theorem quit_everywhere:
  assumes "world_inv w" and "\<not> NickEquals (m_Nick m) (own_nick w)" and "OnQuitMessage m w = (r, m', w')"
  shows "(\<forall>i < length (chans_of w). FindNick x (chans_of w' ! i) =
      (if x = m_sNick (m_Nick m) then None else FindNick x (chans_of w ! i))) \<and>
    (r \<longleftrightarrow> \<not> IsNickVisible (m_sNick (m_Nick m)) w)"
  using OnQuit_effect [OF assms] world_inv_chans [OF assms(1)] by (simp add: RemNick_spec)

theorem quit_everywhere_witness:
  "let m = mk_message (\<lambda>s. (0, 0)) (0, 0) '':bob!i@h QUIT :bye''; r = OnQuitMessage m fresh_world
   in (\<forall>i < length (chans_of fresh_world). FindNick ''bob'' (chans_of (snd (snd r)) ! i) =
        (if ''bob'' = m_sNick (m_Nick m) then None else FindNick ''bob'' (chans_of fresh_world ! i))) \<and>
      (fst r \<longleftrightarrow> \<not> IsNickVisible (m_sNick (m_Nick m)) fresh_world)"
  unfolding Let_def
  by (rule quit_everywhere [OF fresh_world_inv, where m' = "fst (snd (OnQuitMessage
        (mk_message (\<lambda>s. (0, 0)) (0, 0) '':bob!i@h QUIT :bye'') fresh_world))"]) (code_simp, simp)

definition bob_world :: world where
  "bob_world = on_net (\<lambda>n. n \<lparr>m_vChans := [snd (AddNick (mk_ircsock 4 False ''i'' ''h'') ''me'' ''@bob''
     (mk_chan quiet_user True (\<lambda>s. True) ''#c'' False None))]\<rparr>) fresh_world"

lemma bob_world_inv: "world_inv bob_world"
  unfolding bob_world_def
  by (rule world_inv_on_net [OF fresh_world_inv], rule net_inv_chans)
    (simp_all add: chan_inv_nicks chan_inv_mk_chan)

text \<open>
  C24. A NICK message renames the nick in every channel that has it, with its permissions and
  host, and nothing else; renaming a nick to itself, which the code does not expect, loses it
  from the channel.
\<close>

theorem nick_rename:
  assumes "world_inv w" and "OnNickMessage m w = (r, m', w')" and "i < length (chans_of w)"
    and "FindNick (m_sNick (m_Nick m)) (chans_of w ! i) = Some n"
  shows "FindNick x (chans_of w' ! i) =
    (if m_sNick (m_Nick m) = GetParam m 0 then (if x = GetParam m 0 then None else FindNick x (chans_of w ! i))
     else if x = GetParam m 0 then Some (n \<lparr>m_sNick := GetParam m 0\<rparr>)
     else if x = m_sNick (m_Nick m) then None else FindNick x (chans_of w ! i))"
proof -
  have c: "chan_ok (chans_of w ! i)" using world_inv_chans [OF assms(1)] assms(3) by simp
  have "chans_of w' ! i = snd (ChangeNick (m_sNick (m_Nick m)) (GetParam m 0) (chans_of w ! i))"
    using OnNick_effect(1) [OF assms(2)] assms(3) by simp
  then show ?thesis
    using ChangeNick_spec(2) [OF c assms(4), of "GetParam m 0" x] ChangeNick_same_others [OF c assms(4), of x]
    by (auto simp del: FindNick_upd_nick)
qed

theorem nick_rename_witness:
  "let m = mk_message (\<lambda>s. (0, 0)) (0, 0) '':bob!i@h NICK rob'';
       n = the (FindNick ''bob'' (chans_of bob_world ! 0))
   in FindNick ''rob'' (chans_of (snd (snd (OnNickMessage m bob_world))) ! 0) =
    (if m_sNick (m_Nick m) = GetParam m 0 then (if ''rob'' = GetParam m 0 then None else FindNick ''rob'' (chans_of bob_world ! 0))
     else if ''rob'' = GetParam m 0 then Some (n \<lparr>m_sNick := GetParam m 0\<rparr>)
     else if ''rob'' = m_sNick (m_Nick m) then None else FindNick ''rob'' (chans_of bob_world ! 0))"
  unfolding Let_def
  by (rule nick_rename [OF bob_world_inv, where r = "fst (OnNickMessage (mk_message (\<lambda>s. (0, 0)) (0, 0) '':bob!i@h NICK rob'') bob_world)"
      and m' = "fst (snd (OnNickMessage (mk_message (\<lambda>s. (0, 0)) (0, 0) '':bob!i@h NICK rob'') bob_world))"])
    (simp, code_simp, code_simp)

text \<open>
  C25. The mode string a channel prints is read back by SetModes: for modes that are no nick
  prefixes, whose arguments fit the classes of the server and contain no blank, the same modes
  with the same arguments result, on any channel.
\<close>

theorem mode_string_roundtrip:
  assumes "om_ok (m_mcsModes c)" and "list_all (mode_entry_ok sock) (m_mcsModes c)"
  shows "m_mcsModes (fst (SetModes_str sock cur (GetModeString c) d)) = m_mcsModes c"
  by (rule SetModes_GetModeString [OF assms])

theorem mode_string_roundtrip_witness:
  "let c = (mk_chan quiet_user True (\<lambda>s. True) ''#c'' False None)
         \<lparr>m_mcsModes := [(CHR ''k'', ''key''), (CHR ''l'', ''10''), (CHR ''n'', [])]\<rparr>
   in m_mcsModes (fst (SetModes_str (mk_ircsock 4 False ''i'' ''h'') ''me'' (GetModeString c) c)) = m_mcsModes c"
  unfolding Let_def by (rule mode_string_roundtrip) (code_simp, code_simp)

text \<open>
  C26. The NAMES reply for an attaching client lists every nick of the channel once and in
  order, in lines after the same prefix, separated by blanks; a line is only extended while it
  is shorter than 490 bytes.
\<close>

theorem names_complete:
  "\<exists>gs. names_loop sPre sPre es = map (\<lambda>g. sPre @ Join '' '' g) gs \<and> concat gs = es \<and>
    (\<forall>g \<in> set gs. g \<noteq> [] \<and> (butlast g = [] \<or> length (sPre @ Join '' '' (butlast g)) < 490))"
  using names_loop_all [of sPre es] unfolding names_grouping_def by blast

theorem names_complete_witness:
  "\<exists>gs. names_loop ''353 :'' ''353 :'' [''@a'', ''b''] = map (\<lambda>g. ''353 :'' @ Join '' '' g) gs \<and> concat gs = [''@a'', ''b''] \<and>
    (\<forall>g \<in> set gs. g \<noteq> [] \<and> (butlast g = [] \<or> length (''353 :'' @ Join '' '' (butlast g)) < 490))"
  by (rule names_complete)

text \<open>
  C27. A server entry printed with its password is parsed back to the same server: host or
  socket path, port, TLS flag and password, for all parts that fit the line.
\<close>

theorem server_roundtrip:
  assumes "server_ok s"
  shows "Server_Parse (Server_GetString True s) = s"
  by (rule Parse_GetString [OF assms])

theorem server_roundtrip_witness:
  "Server_Parse (Server_GetString True (mk_server ''irc.x'' 6697 ''a b'' True False)) = mk_server ''irc.x'' 6697 ''a b'' True False"
proof (rule server_roundtrip)
  have 3: "(tolower_c CHR ''i'' = tolower_c CHR ''u'') = False" by code_simp
  have 1: "starts_ci (Server_GetString True (mk_server ''irc.x'' 6697 ''a b'' True False)) ''unix:'' = False"
    using starts_ci_hd [of _ "CHR ''u''" "''nix:''"] 3 by (fastforce simp: Server_GetString_def mk_server_def)
  have 2: "(plain_end ''irc.x'' \<and> plain_end ''a b'') = True" "(CHR ''i'' \<in> set ws) = False" by code_simp+
  show "server_ok (mk_server ''irc.x'' 6697 ''a b'' True False)"
    using 1 2 by (simp add: server_ok_def mk_server_def)
qed

text \<open>
  C28. Joining covers every picked channel exactly once and in order, each with its key in the
  same place of the key list, and every line with its line ending fits 512 bytes, except a
  line of a single channel and a line of two channels of which the first has no key, where the
  code does not look at the length.
\<close>

theorem join_lines_complete:
  assumes "list_all (\<lambda>e. fst e \<noteq> []) cs"
  shows "\<exists>gs. join_lines cs = map join_line gs \<and> concat gs = cs \<and>
    (\<forall>g \<in> set gs. g \<noteq> [] \<and> (length g = 1 \<or> length g = 2 \<and> snd (hd g) = [] \<or> length (join_line g @ crlf) \<le> 512))"
proof -
  obtain gs where gs: "join_lines cs = map join_line gs" "concat gs = cs" "list_all join_group_ok gs"
    using join_lines_groups [OF assms] by blast
  have "length (join_line g @ crlf) \<le> 512" if "g \<noteq> []" "join_count g < 512" for g
    using length_join_line [OF that(1)] that(2) by (simp add: crlf_def)
  then show ?thesis using gs by (auto simp: list_all_iff join_group_ok_def)
qed

theorem join_lines_complete_witness:
  "\<exists>gs. join_lines [(''#a'', []), (''#b'', ''key'')] = map join_line gs \<and> concat gs = [(''#a'', []), (''#b'', ''key'')] \<and>
    (\<forall>g \<in> set gs. g \<noteq> [] \<and> (length g = 1 \<or> length g = 2 \<and> snd (hd g) = [] \<or> length (join_line g @ crlf) \<le> 512))"
  by (rule join_lines_complete) simp

definition three_servers :: network where
  "three_servers = (mk_network ''net'') \<lparr>m_vServers := map (\<lambda>s. mk_server s 1 [] False False) [''a'', ''b'', ''c''], m_uServerIdx := 2\<rparr>"

text \<open>
  C29. Removing a server never changes which server the network is on, unless it is that one:
  then the next server to try is the one it would have been before.
\<close>

theorem del_server_current:
  assumes "DelServer S n = (True, quit, n')" and "cur_server_idx n < length (m_vServers n)"
  shows "(\<not> quit \<longrightarrow> GetCurrentServer n' = GetCurrentServer n) \<and>
    (quit \<and> m_uServerIdx n \<noteq> 0 \<and> m_vServers n' \<noteq> [] \<longrightarrow> fst (GetNextServer b n') = fst (GetNextServer b n))"
proof (cases quit)
  case True
  then show ?thesis using DelServer_next [of S n n' b] assms by simp
next
  case False
  then show ?thesis using DelServer_keeps_current [of S n n'] assms by simp
qed

theorem del_server_current_witness:
  "fst (GetNextServer True (snd (snd (DelServer (mk_server ''b'' 0 [] False False) three_servers)))) =
   fst (GetNextServer True three_servers)"
proof -
  let ?b = "mk_server ''b'' 0 [] False False"
  let ?n = "three_servers \<lparr>m_vServers := map (\<lambda>s. mk_server s 1 [] False False) [''a'', ''c''], m_uServerIdx := 1\<rparr>"
  have i: "find_idx (server_matches ?b) (m_vServers three_servers) = Some 1" by code_simp
  have d: "DelServer ?b three_servers = (True, True, ?n)"
    unfolding DelServer_def i by (simp add: three_servers_def cur_server_idx_def)
  have "cur_server_idx three_servers < length (m_vServers three_servers)" by code_simp
  from del_server_current [OF d this, of True] show ?thesis unfolding d by (simp add: three_servers_def)
qed

definition bob :: zuser where
  "bob = \<lparr>zu_sUserName = ''bob'', zu_sStatusPrefix = ''*'', zu_bMultiClients = True, zu_settings = quiet_user,
     zu_get = (\<lambda>k. ''x''), zu_expand = (\<lambda>s. s), zu_vNetworks = [], zu_vClients = []\<rparr>"

definition bouncer :: cenv where
  "bouncer = \<lparr>ce_env = plain_env, ce_hook = (\<lambda>h m. (False, m)), ce_OnUserRaw = (\<lambda>b l. (False, l)),
     ce_OnSendToClientMessage = (\<lambda>m. (False, m)), ce_OnSendToClient = (\<lambda>l. (False, l)), ce_OnClientCapLs = (\<lambda>cs. cs),
     ce_IsClientCapSupported = (\<lambda>s b. False), ce_OnClientCapRequest = (\<lambda>s b c. c), ce_CapBlacklist = [],
     ce_SASLMechanisms = [''PLAIN''], ce_SASLChallenge = (\<lambda>m. (False, [])), ce_SASLAuthenticate = SASLPlain,
     ce_OnLoginAttempt = (\<lambda>n p. None), ce_FindUser = (\<lambda>n. if n = ''bob'' then Some bob else None),
     ce_CheckPass = (\<lambda>u p. p = ''pw''), ce_IsHostAllowed = (\<lambda>u h. True), ce_RemoteIP = ''ip'', ce_Motd = [],
     ce_Tag = ''ZNC'', ce_FindModule = (\<lambda>m. False), ce_ExtendedJoin = False,
     ce_play = \<lparr>BufferStarting_skips = (\<lambda>i. False), BufferEnding_skips = (\<lambda>i. False), BufferPlayMessage = (\<lambda>m. (False, m)),
       name_MD5 = (\<lambda>s. s)\<rparr>, ce_order = (\<lambda>is. is)\<rparr>"

definition new_client :: cclient where
  "new_client = mk_cclient (\<lambda>t s. s) (\<lambda>t. ''now'')"


lemma new_client_simps [simp]:
  "c_sSASLUser new_client = []" "c_sSASLBuffer new_client = []" "\<not> c_bGotNick new_client" "\<not> c_bGotUser new_client"
  "\<not> c_bInCap new_client"
  by (simp_all add: new_client_def mk_cclient_def)

lemma bouncer_simps [simp]:
  "ce_env bouncer = plain_env" "ce_hook bouncer = (\<lambda>h m. (False, m))" "ce_OnUserRaw bouncer = (\<lambda>b l. (False, l))"
  by (simp_all add: bouncer_def)

lemma bouncer_line:
  "CHR 0x0A \<notin> set l \<Longrightarrow> CHR 0x0D \<notin> set l \<Longrightarrow> nul_free l \<Longrightarrow>
   Client_ReadLine bouncer l st = client_message_in bouncer (line_message plain_env l) st"
proof -
  assume l: "CHR 0x0A \<notin> set l" "CHR 0x0D \<notin> set l" "nul_free l"
  have "concat (map (\<lambda>c. if c = d then [] else [c]) l) = l" if "d \<notin> set l" for d
    using that by (simp add: concat_remove filter_id_conv) blast
  then have "Replace_n l [d] [] = l" if "d \<notin> set l" "d \<noteq> NUL" for d
    using that Replace_n_single [OF that(2) l(3)] by simp
  then show ?thesis using l by (simp add: Client_ReadLine_def)
qed

lemma commands:
  "m_sCommand (line_message plain_env ''PASS bob:pw'') = ''PASS''" "GetParam (line_message plain_env ''PASS bob:pw'') 0 = ''bob:pw''"
  "m_sCommand (line_message plain_env ''PASS bob:no'') = ''PASS''" "GetParam (line_message plain_env ''PASS bob:no'') 0 = ''bob:no''"
  "m_sCommand (line_message plain_env ''NICK b'') = ''NICK''" 
  "m_sCommand (line_message plain_env ''USER bob 0 * :b'') = ''USER''" 
  by code_simp+

lemma before_login:
  assumes "\<not> IsAttached st"
  shows "m_sCommand m = ''PASS'' \<Longrightarrow>
      client_message_in E m st = AuthUser E (on_cl (\<lambda>c. ParsePass (GetParam m 0) (c \<lparr>c_bGotPass := True\<rparr>)) st)"
    and "m_sCommand m = ''NICK'' \<Longrightarrow> client_message_in E m st =
      AuthUser E (on_cl (\<lambda>c. (view_upd (\<lambda>v. v \<lparr>cl_sNick := GetParam m 0\<rparr>) c) \<lparr>c_bGotNick := True\<rparr>) st)"
    and "m_sCommand m = ''USER'' \<Longrightarrow> c_bGotPass (st_cl st) \<Longrightarrow> c_sUser (st_cl st) \<noteq> [] \<Longrightarrow>
      client_message_in E m st = AuthUser E (on_cl (\<lambda>c. c \<lparr>c_bGotUser := True\<rparr>) st)"
proof -
  have equals: "equals_ci ''PASS'' ''PASS''" "\<not> equals_ci ''NICK'' ''PASS''"  "equals_ci ''NICK'' ''NICK''"
    "\<not> equals_ci ''USER'' ''PASS''" "\<not> equals_ci ''USER'' ''NICK''" "equals_ci ''USER'' ''USER''"
    by code_simp+
  show "m_sCommand m = ''PASS'' \<Longrightarrow>
      client_message_in E m st = AuthUser E (on_cl (\<lambda>c. ParsePass (GetParam m 0) (c \<lparr>c_bGotPass := True\<rparr>)) st)"
    and "m_sCommand m = ''NICK'' \<Longrightarrow> client_message_in E m st =
      AuthUser E (on_cl (\<lambda>c. (view_upd (\<lambda>v. v \<lparr>cl_sNick := GetParam m 0\<rparr>) c) \<lparr>c_bGotNick := True\<rparr>) st)"
    using assms equals by (simp_all add: client_message_in_def pre_login_def)
  show "m_sCommand m = ''USER'' \<Longrightarrow> c_bGotPass (st_cl st) \<Longrightarrow> c_sUser (st_cl st) \<noteq> [] \<Longrightarrow>
      client_message_in E m st = AuthUser E (on_cl (\<lambda>c. c \<lparr>c_bGotUser := True\<rparr>) st)"
    using assms equals by (simp add: client_message_in_def pre_login_def on_cl_def)
qed

lemma AuthUser_wait: "\<not> c_bGotNick (st_cl st) \<or> \<not> c_bGotUser (st_cl st) \<Longrightarrow> AuthUser E st = st"
  by (auto simp: AuthUser_def Let_def)

lemma fresh_simps [simp]: "st_cl (fresh_client c) = c" "\<not> IsAttached (fresh_client c)"
  by (simp_all add: fresh_client_def IsAttached_def)

lemma parse_bob: "ParsePass ''bob:pw'' c = c \<lparr>c_sPass := ''pw'', c_sUser := ''bob''\<rparr>" "ParsePass ''bob:no'' c = c \<lparr>c_sPass := ''no'', c_sUser := ''bob''\<rparr>"
  by (simp_all add: ParsePass_def ParseUser_def ParseIdentifier_def)

definition after_login :: "string \<Rightarrow> cstate" where
  "after_login sPass = Client_ReadLine bouncer ''USER bob 0 * :b''
     (Client_ReadLine bouncer ''NICK b'' (Client_ReadLine bouncer (''PASS bob:'' @ sPass) (fresh_client new_client)))"

lemma IsAttached_after_login: "IsAttached (after_login ''pw'')" "\<not> IsAttached (after_login ''no'')"
proof -
  have auth: "CZNC_AuthUser bouncer ''bob'' ''pw'' = Accepted bob" "CZNC_AuthUser bouncer ''bob'' ''no'' = Refused ''Invalid Password''"
    by (simp_all add: CZNC_AuthUser_def bouncer_def)
  note step = after_login_def bouncer_line before_login commands parse_bob AuthUser_wait view_upd_def nul_free_def
  show "IsAttached (after_login ''pw'')"
    using auth by (simp add: step AuthUser_def answer_auth_def attached_AcceptLogin)
  show "\<not> IsAttached (after_login ''no'')"
    using auth by (simp add: step AuthUser_def answer_auth_def RefuseLogin_def Close_def)
      (simp add: Client_PutStatus_def PutModule_def IsAttached_def fresh_client_def on_cl_def emit_ev_def)
qed

lemma bouncer_ok: "hooks_ok bouncer" "find_user_ok bouncer"
  by (auto simp: hooks_ok_def find_user_ok_def bouncer_def bob_def)

lemma after_login_run: "client_run bouncer (\<lambda>n p u. False) new_client (after_login s)"
  unfolding after_login_def by (intro client_run.line client_run.start)

lemma accepts_bob: "accepts bouncer (\<lambda>n p u. False) u \<Longrightarrow> u = bob"
  by (auto simp: accepts_def CZNC_AuthUser_def bouncer_def split: if_splits)




lemma bob_ok: "user_ok bob"
  by (simp add: user_ok_def bob_def)


text \<open>
  C32. A client is sent exactly the tags it can read: all of the message's tags with message-
  tags, else those its capabilities enabled, and a time tag of the message's time when it has
  server-time and no time tag passed.
\<close>

theorem client_tags_exact:
  assumes "om_ok (m_mssTags m)"
  shows "map_of (client_tags c m) k =
    (case if c_bMessageTagCap c \<or> Client_IsTagEnabled c k then map_of (m_mssTags m) k else None of
       Some v \<Rightarrow> Some v
     | None \<Rightarrow> if k = ''time'' \<and> HasServerTime (cl_caps (c_view c))
               then Some (FormatServerTime (cl_caps (c_view c)) (m_time m)) else None)"
  by (rule client_tags_spec [OF assms])

theorem client_tags_exact_witness:
  "map_of (client_tags (cap_flag ''server-time'' True new_client) (empty_message \<lparr>m_mssTags := [(''a'', ''x'')]\<rparr>)) ''time'' = Some ''now''"
  by (subst client_tags_exact) (simp_all add: new_client_def mk_cclient_def cap_flag_def view_upd_def Client_SetTagSupport_def
      Client_IsTagEnabled_def)

definition sasl_state :: cstate where
  "sasl_state = fresh_client (new_client \<lparr>c_bSASLCap := True, c_sSASLMechanism := ''PLAIN''\<rparr>)"

text \<open>
  C33. The SASL PLAIN exchange loses nothing: an authorization id, a user name and a password,
  joined by NUL bytes, encoded in base64 and sent in AUTHENTICATE messages of 400 bytes with a
  closing +, reach the password check unchanged, as long as the encoded answer has at most
  10240 bytes.
\<close>

theorem sasl_plain_roundtrip:
  assumes "sasl_ready st" and "c_sSASLMechanism (st_cl st) = ''PLAIN''" and "c_sSASLBuffer (st_cl st) = []"
    and "ce_SASLAuthenticate E = SASLPlain" and "nul_free a" and "nul_free u" and "nul_free p"
    and "length (Base64Encode_n (a @ NUL # u @ NUL # p) 0) \<le> 10240"
  shows "fold (\<lambda>s. OnAuthenticateMessage E (auth_message s)) (challenge_parts (Base64Encode_n (a @ NUL # u @ NUL # p) 0)) st =
    on_cl (\<lambda>c. c \<lparr>c_sSASLBuffer := []\<rparr>)
      (StartSASLPasswordCheck E u p (if a = [] then u else a) (on_cl (\<lambda>c. c \<lparr>c_sSASLBuffer := a @ NUL # u @ NUL # p\<rparr>) st))"
  unfolding sasl_answer [OF assms(1,3,8)]
  using SASLPlain_fields [OF assms(5,6,7)] assms(2,4) by (simp add: sasl_finish_def)

theorem sasl_plain_roundtrip_witness:
  "fold (\<lambda>s. OnAuthenticateMessage bouncer (auth_message s))
     (challenge_parts (Base64Encode_n ([] @ NUL # ''bob'' @ NUL # ''pw'') 0)) sasl_state =
   on_cl (\<lambda>c. c \<lparr>c_sSASLBuffer := []\<rparr>)
     (StartSASLPasswordCheck bouncer ''bob'' ''pw'' (if [] = ([] :: string) then ''bob'' else [])
        (on_cl (\<lambda>c. c \<lparr>c_sSASLBuffer := [] @ NUL # ''bob'' @ NUL # ''pw''\<rparr>) sasl_state))"
proof (rule sasl_plain_roundtrip)
  have "length (Base64Encode_n ([] @ NUL # ''bob'' @ NUL # ''pw'') 0) + 1 \<le> b64_toalloc (length ([] @ NUL # ''bob'' @ NUL # ''pw'')) 0"
    by (rule length_b64_encode)
  then show "length (Base64Encode_n ([] @ NUL # ''bob'' @ NUL # ''pw'') 0) \<le> 10240" by (simp add: b64_toalloc_def)
qed (simp_all add: sasl_state_def sasl_ready_def fresh_client_def IsAttached_def IsDuringSASL_def nul_free_def,
     simp add: bouncer_def)

text \<open>
  C34. The password a client sends as user@identifier/network:password is taken apart into
  exactly these fields, the password keeping any further separators, when user, identifier and
  network hold none.
\<close>

theorem credentials_roundtrip:
  assumes "CHR ''/'' \<notin> set u \<union> set i \<union> set n" and "CHR 0x40 \<notin> set u \<union> set i"
    and "CHR '':'' \<notin> set u \<union> set i \<union> set n" and "i = [] \<or> IsValidIdentifier i"
  shows "ParsePass (auth_user_part u i n @ '':'' @ p) c =
    c \<lparr>c_sPass := p, c_sNetwork := (if n = [] then c_sNetwork c else n),
       c_sIdentifier := (if i = [] then c_sIdentifier c else i), c_sUser := u\<rparr>"
  using ParsePass_spec [OF assms(1,2,4,3), of p c] ParseUser_spec [OF assms(1,2,4), of "c \<lparr>c_sPass := p\<rparr>"] by simp

theorem credentials_roundtrip_witness:
  "ParsePass (auth_user_part ''bob'' ''phone'' ''net'' @ '':'' @ ''p:w'') new_client =
    new_client \<lparr>c_sPass := ''p:w'', c_sNetwork := (if ''net'' = ([] :: string) then c_sNetwork new_client else ''net''),
       c_sIdentifier := (if ''phone'' = ([] :: string) then c_sIdentifier new_client else ''phone''), c_sUser := ''bob''\<rparr>"
  by (rule credentials_roundtrip) (simp_all, code_simp)

definition module_env :: mod_env where
  "module_env = \<lparr>me_OnModuleLoading = (\<lambda>s a t. None), me_OnModuleUnloading = (\<lambda>m. None),
     me_OnLoad = (\<lambda>m a. (Some (a \<noteq> ''bad'', []), m)), me_Exists = (\<lambda>p. True), me_ChangeDir = (\<lambda>p. p),
     me_dlopen = (\<lambda>p. ModuleEntry ''1'' [] [] \<lparr>mi_seType = [GlobalModule, UserModule, NetworkModule], mi_sDescription = []\<rparr>),
     me_Registry = (\<lambda>s. []), me_sModPath = [], me_MODDIR = [], me_DATADIR = [],
     me_VERSION_STR = ''1'', me_VERSION_EXTRA = [], me_COMPILE_OPTIONS = []\<rparr>"

definition named_module :: "string \<Rightarrow> cmodule" where
  "named_module sName = mk_module module_env (Some 0) None sName [] UserModule"

lemma named_simps [simp]: "mod_sModName (named_module s) = s" "mod_bDLL (named_module s)"
  by (simp_all add: named_module_def mk_module_def)

lemma ab_unique: "mods_unique [named_module ''a'', named_module ''b'']"
  unfolding mods_unique_def list.map named_simps by code_simp

definition count_hook :: "cmodule \<Rightarrow> nat \<Rightarrow> mod_ret hook_end \<times> cmodule \<times> nat" where
  "count_hook m n = (Returned (if mod_sModName m = ''b'' then HALT else CONTINUE), m, Suc n)"





text \<open>
  C37. A module that throws UNLOAD from a hook is erased from the vector the dispatch is
  iterating over: if no hook takes part in the unloading, the run of the dispatch is
  undefined.
\<close>

theorem unload_in_hook:
  assumes "f (enter_mod P m) s = (Unload, m1, s1)" and "mods_unique (done @ m1 # ms)"
    and "me_OnModuleUnloading E m1 = None" and "mod_bDLL m1"
  shows "MODHALTCHK E P f done (m # ms) b s = None"
  by (rule MODHALTCHK_unload [of f P m s m1 s1, OF assms])

theorem unload_in_hook_witness:
  "MODHALTCHK module_env \<lparr>ms_pUser = None, ms_pNetwork = None, ms_pClient = None\<rparr> (\<lambda>m n. (Unload, m, n)) []
     [named_module ''a'', named_module ''b''] False (0::nat) = None"
  by (rule unload_in_hook [where ?m1.0 = "named_module ''a''" and ?s1.0 = 0])
    (use ab_unique in \<open>simp_all add: enter_mod_def named_module_def mk_module_def module_env_def\<close>)





text \<open>
  C40. The help and the interpreter agree: every command the help lists for a user, with his
  rights (administrator, DenyLoadMod, DenySetBindHost), is one the interpreter finds for him,
  compared without regard to case and with its guard satisfied.
\<close>

theorem help_listed:
  "list_all (\<lambda>(sCmd, sArgs, sDesc). find_command u sCmd \<noteq> None) (help_entries u)"
  unfolding case_prod_unfold find_command_known by (rule help_known)

end
